(* ===== verification/Iot_Prelude.thy ===== *)
theory Iot_Prelude
  imports Main "HOL-Library.Word" "HOL-Library.Monad_Syntax"
begin

text \<open>
  Shared vocabulary of the development: the machine integer types, the return codes of
  \<^verbatim>\<open>include/exports/qcloud_iot_export_error.h\<close>, and a small memory model for the byte
  buffers the SDK works on.

  A C buffer is a list of bytes whose length is the size of the C object, a pointer into it
  is an offset. An access outside the object has no defined meaning in C; it is the value
  \<^const>\<open>None\<close> here, so that a theorem that an operation returns \<^const>\<open>Some\<close> is a proof that
  it stays inside its buffers (and, for loops run on fuel, that it terminates).
\<close>

unbundle bit_operations_syntax

subsection \<open>Machine types\<close>

type_synonym byte = "8 word"
type_synonym u8 = "8 word"
type_synonym u16 = "16 word"
type_synonym u32 = "32 word"
type_synonym size_t = "64 word"

named_theorems mem_simps \<open>rewriting of buffer accesses\<close>
named_theorems codec_simps \<open>packet encoders and decoders as operations on byte sequences\<close>

subsection \<open>Return codes\<close>

text \<open>The codes are C \<open>int\<close> values and some calls return a packet id in the same \<open>int\<close>, so they
  are numbers here too; an abbreviation keeps the source's names in the statements.\<close>

abbreviation QCLOUD_RET_MQTT_ALREADY_CONNECTED :: int where "QCLOUD_RET_MQTT_ALREADY_CONNECTED \<equiv> 4"
abbreviation QCLOUD_RET_MQTT_CONNACK_CONNECTION_ACCEPTED :: int
  where "QCLOUD_RET_MQTT_CONNACK_CONNECTION_ACCEPTED \<equiv> 3"
abbreviation QCLOUD_RET_MQTT_MANUALLY_DISCONNECTED :: int
  where "QCLOUD_RET_MQTT_MANUALLY_DISCONNECTED \<equiv> 2"
abbreviation QCLOUD_RET_MQTT_RECONNECTED :: int where "QCLOUD_RET_MQTT_RECONNECTED \<equiv> 1"
abbreviation QCLOUD_RET_SUCCESS :: int where "QCLOUD_RET_SUCCESS \<equiv> 0"
abbreviation QCLOUD_ERR_FAILURE :: int where "QCLOUD_ERR_FAILURE \<equiv> - 1001"
abbreviation QCLOUD_ERR_INVAL :: int where "QCLOUD_ERR_INVAL \<equiv> - 1002"
abbreviation QCLOUD_ERR_MALLOC :: int where "QCLOUD_ERR_MALLOC \<equiv> - 1004"
abbreviation QCLOUD_ERR_MQTT_PUSH_TO_LIST_FAILED :: int
  where "QCLOUD_ERR_MQTT_PUSH_TO_LIST_FAILED \<equiv> - 102"
abbreviation QCLOUD_ERR_MQTT_NO_CONN :: int where "QCLOUD_ERR_MQTT_NO_CONN \<equiv> - 103"
abbreviation QCLOUD_ERR_MQTT_UNKNOWN :: int where "QCLOUD_ERR_MQTT_UNKNOWN \<equiv> - 104"
abbreviation QCLOUD_ERR_MQTT_ATTEMPTING_RECONNECT :: int
  where "QCLOUD_ERR_MQTT_ATTEMPTING_RECONNECT \<equiv> - 105"
abbreviation QCLOUD_ERR_MQTT_RECONNECT_TIMEOUT :: int
  where "QCLOUD_ERR_MQTT_RECONNECT_TIMEOUT \<equiv> - 106"
abbreviation QCLOUD_ERR_MQTT_MAX_SUBSCRIPTIONS :: int
  where "QCLOUD_ERR_MQTT_MAX_SUBSCRIPTIONS \<equiv> - 107"
abbreviation QCLOUD_ERR_MQTT_SUB :: int where "QCLOUD_ERR_MQTT_SUB \<equiv> - 108"
abbreviation QCLOUD_ERR_MQTT_NOTHING_TO_READ :: int where "QCLOUD_ERR_MQTT_NOTHING_TO_READ \<equiv> - 109"
abbreviation QCLOUD_ERR_MQTT_PACKET_READ :: int where "QCLOUD_ERR_MQTT_PACKET_READ \<equiv> - 110"
abbreviation QCLOUD_ERR_MQTT_REQUEST_TIMEOUT :: int where "QCLOUD_ERR_MQTT_REQUEST_TIMEOUT \<equiv> - 111"
abbreviation QCLOUD_ERR_MQTT_CONNACK_UNKNOWN :: int where "QCLOUD_ERR_MQTT_CONNACK_UNKNOWN \<equiv> - 112"
abbreviation QCLOUD_ERR_MQTT_CONNACK_UNACCEPTABLE_PROTOCOL_VERSION :: int
  where "QCLOUD_ERR_MQTT_CONNACK_UNACCEPTABLE_PROTOCOL_VERSION \<equiv> - 113"
abbreviation QCLOUD_ERR_MQTT_CONNACK_IDENTIFIER_REJECTED :: int
  where "QCLOUD_ERR_MQTT_CONNACK_IDENTIFIER_REJECTED \<equiv> - 114"
abbreviation QCLOUD_ERR_MQTT_CONNACK_SERVER_UNAVAILABLE :: int
  where "QCLOUD_ERR_MQTT_CONNACK_SERVER_UNAVAILABLE \<equiv> - 115"
abbreviation QCLOUD_ERR_MQTT_CONNACK_BAD_USERDATA :: int
  where "QCLOUD_ERR_MQTT_CONNACK_BAD_USERDATA \<equiv> - 116"
abbreviation QCLOUD_ERR_MQTT_CONNACK_NOT_AUTHORIZED :: int
  where "QCLOUD_ERR_MQTT_CONNACK_NOT_AUTHORIZED \<equiv> - 117"
abbreviation QCLOUD_ERR_RX_MESSAGE_INVAL :: int where "QCLOUD_ERR_RX_MESSAGE_INVAL \<equiv> - 118"
abbreviation QCLOUD_ERR_BUF_TOO_SHORT :: int where "QCLOUD_ERR_BUF_TOO_SHORT \<equiv> - 119"
abbreviation QCLOUD_ERR_MQTT_QOS_NOT_SUPPORT :: int where "QCLOUD_ERR_MQTT_QOS_NOT_SUPPORT \<equiv> - 120"
abbreviation QCLOUD_ERR_MQTT_UNSUB_FAIL :: int where "QCLOUD_ERR_MQTT_UNSUB_FAIL \<equiv> - 121"
abbreviation QCLOUD_ERR_MAX_TOPIC_LENGTH :: int where "QCLOUD_ERR_MAX_TOPIC_LENGTH \<equiv> - 138"
abbreviation QCLOUD_ERR_COAP_NULL :: int where "QCLOUD_ERR_COAP_NULL \<equiv> - 150"
abbreviation QCLOUD_ERR_COAP_DATA_SIZE :: int where "QCLOUD_ERR_COAP_DATA_SIZE \<equiv> - 151"
abbreviation QCLOUD_ERR_COAP_INTERNAL :: int where "QCLOUD_ERR_COAP_INTERNAL \<equiv> - 152"
abbreviation QCLOUD_ERR_COAP_BADMSG :: int where "QCLOUD_ERR_COAP_BADMSG \<equiv> - 153"
abbreviation QCLOUD_ERR_TCP_READ_FAIL :: int where "QCLOUD_ERR_TCP_READ_FAIL \<equiv> - 606"
abbreviation QCLOUD_ERR_TCP_PEER_SHUTDOWN :: int where "QCLOUD_ERR_TCP_PEER_SHUTDOWN \<equiv> - 608"
abbreviation QCLOUD_ERR_TCP_NOTHING_TO_READ :: int where "QCLOUD_ERR_TCP_NOTHING_TO_READ \<equiv> - 609"
abbreviation QCLOUD_ERR_SSL_READ_TIMEOUT :: int where "QCLOUD_ERR_SSL_READ_TIMEOUT \<equiv> - 707"
abbreviation QCLOUD_ERR_SSL_READ :: int where "QCLOUD_ERR_SSL_READ \<equiv> - 708"
abbreviation QCLOUD_ERR_SSL_NOTHING_TO_READ :: int where "QCLOUD_ERR_SSL_NOTHING_TO_READ \<equiv> - 709"

subsection \<open>Buffers\<close>

definition rd :: "byte list \<Rightarrow> nat \<Rightarrow> byte option" where
  "rd buf p = (if p < length buf then Some (buf ! p) else None)"

definition wr :: "byte list \<Rightarrow> nat \<Rightarrow> byte \<Rightarrow> byte list option" where
  "wr buf p c = (if p < length buf then Some (buf[p := c]) else None)"

text \<open>\<open>memcpy\<close> into and out of a buffer.\<close>

definition wr_bytes :: "byte list \<Rightarrow> nat \<Rightarrow> byte list \<Rightarrow> byte list option" where
  "wr_bytes buf p bs =
     (if p + length bs \<le> length buf then Some (take p buf @ bs @ drop (p + length bs) buf) else None)"

definition rd_bytes :: "byte list \<Rightarrow> nat \<Rightarrow> nat \<Rightarrow> byte list option" where
  "rd_bytes buf p n = (if p + n \<le> length buf then Some (take n (drop p buf)) else None)"

text \<open>\<open>bytes_at buf p bs\<close>: the bytes of \<open>bs\<close> stand in \<open>buf\<close> from offset \<open>p\<close> on.\<close>

primrec bytes_at :: "byte list \<Rightarrow> nat \<Rightarrow> byte list \<Rightarrow> bool" where
  "bytes_at buf p [] = True"
| "bytes_at buf p (x # xs) = (rd buf p = Some x \<and> bytes_at buf (Suc p) xs)"

lemma rd_eq_Some_iff: "rd buf p = Some x \<longleftrightarrow> p < length buf \<and> buf ! p = x"
  by (auto simp: rd_def)

lemma rd_in_range [mem_simps]: "p < length buf \<Longrightarrow> rd buf p = Some (buf ! p)"
  by (simp add: rd_def)

lemma wr_eq_wr_bytes: "wr buf p c = wr_bytes buf p [c]"
  by (auto simp: wr_def wr_bytes_def upd_conv_take_nth_drop)

lemma wr_bytes_length: "wr_bytes buf p bs = Some buf' \<Longrightarrow> length buf' = length buf"
  by (auto simp: wr_bytes_def split: if_splits)

lemma wr_bytes_Nil: "p \<le> length buf \<Longrightarrow> wr_bytes buf p [] = Some buf"
  by (simp add: wr_bytes_def)

lemma wr_bytes_Some_iff:
  "wr_bytes buf p bs = Some buf' \<longleftrightarrow>
     p + length bs \<le> length buf \<and> buf' = take p buf @ bs @ drop (p + length bs) buf"
  by (auto simp: wr_bytes_def)

text \<open>Two consecutive copies are one copy of the concatenation: the law that turns a sequence of
  writes through an advancing pointer into the bytes of the packet.\<close>

lemma wr_bytes_bind [codec_simps]:
  "wr_bytes buf p xs \<bind> (\<lambda>b. wr_bytes b (p + length xs) ys) = wr_bytes buf p (xs @ ys)"
  by (cases xs) (auto simp: wr_bytes_def min_def add.assoc drop_drop add.commute add.left_commute)

lemma rd_bytes_Some_iff:
  "rd_bytes buf p n = Some bs \<longleftrightarrow> p + n \<le> length buf \<and> bs = take n (drop p buf)"
  by (auto simp: rd_bytes_def)

lemma rd_bytes_length: "rd_bytes buf p n = Some bs \<Longrightarrow> length bs = n"
  by (auto simp: rd_bytes_def split: if_splits)

lemma bytes_at_append: "bytes_at buf p (xs @ ys) \<longleftrightarrow> bytes_at buf p xs \<and> bytes_at buf (p + length xs) ys"
  by (induction xs arbitrary: p) auto

lemma bytes_at_iff_take:
  "bs \<noteq> [] \<Longrightarrow> bytes_at buf p bs \<longleftrightarrow> p + length bs \<le> length buf \<and> take (length bs) (drop p buf) = bs"
proof (induction bs arbitrary: p)
  case Nil
  then show ?case by simp
next
  case (Cons x xs)
  have split: "take (Suc (length xs)) (drop p buf) = buf ! p # take (length xs) (drop (Suc p) buf)"
    if "p < length buf"
    using that by (simp add: Cons_nth_drop_Suc [symmetric] take_Suc_Cons)
  show ?case
  proof (cases "p < length buf")
    case True
    then show ?thesis
      using Cons.IH [of "Suc p"] split by (cases "xs = []") (auto simp: rd_def)
  next
    case False
    then show ?thesis by (auto simp: rd_def)
  qed
qed

lemma bytes_at_in_range: "bytes_at buf p bs \<Longrightarrow> bs \<noteq> [] \<Longrightarrow> p + length bs \<le> length buf"
  by (simp add: bytes_at_iff_take)

lemma bytes_at_rd_bytes: "bytes_at buf p bs \<Longrightarrow> bs \<noteq> [] \<Longrightarrow> rd_bytes buf p (length bs) = Some bs"
  by (simp add: bytes_at_iff_take rd_bytes_def)

lemma wr_bytes_bytes_at: "wr_bytes buf p bs = Some buf' \<Longrightarrow> bytes_at buf' p bs"
  by (cases "bs = []") (auto simp: bytes_at_iff_take wr_bytes_def split: if_splits)

lemma bytes_at_whole: "bytes_at (bs @ rest) 0 bs"
  by (cases "bs = []") (simp_all add: bytes_at_iff_take)

subsection \<open>Words\<close>

lemma unat_u8_lt: "unat (b :: u8) < 256"
  using unsigned_less [of b, where 'a = nat] by simp

lemma unat_u16_lt: "unat (w :: u16) < 65536"
  using unsigned_less [of w, where 'a = nat] by simp

lemma unat_u32_lt: "unat (w :: u32) < 4294967296"
  using unsigned_less [of w, where 'a = nat] by simp

lemma unat_of_nat_u8: "n < 256 \<Longrightarrow> unat (of_nat n :: u8) = n"
  by (simp add: unat_of_nat)

lemma unat_of_nat_u16: "n < 65536 \<Longrightarrow> unat (of_nat n :: u16) = n"
  by (simp add: unat_of_nat)

lemma unat_of_nat_u32: "n < 4294967296 \<Longrightarrow> unat (of_nat n :: u32) = n"
  by (simp add: unat_of_nat)

text \<open>Masking with a low mask and testing the top bit, as numbers.\<close>

lemma u8_and_127: "unat (b AND 127 :: u8) = unat b mod 128"
proof -
  have "b AND 127 = take_bit 7 b"
    by (simp add: take_bit_eq_mask mask_eq_exp_minus_1)
  then have "unat (b AND 127) = take_bit 7 (unat b)"
    by (simp only: unsigned_take_bit_eq)
  then show ?thesis by (simp add: take_bit_eq_mod)
qed

lemma u8_top_bit: "(b AND 128 = (0 :: u8)) \<longleftrightarrow> unat b < 128"
proof -
  have "(b AND 128 = 0) \<longleftrightarrow> \<not> bit b 7"
    using and_exp_eq_0_iff_not_bit [of b 7] by simp
  also have "\<dots> \<longleftrightarrow> \<not> bit (unat b) 7"
    by (simp add: bit_unsigned_iff)
  also have "\<dots> \<longleftrightarrow> even (unat b div 128)"
    by (simp add: bit_iff_odd)
  also have "\<dots> \<longleftrightarrow> unat b < 128"
  proof -
    have "unat b div 128 < 2" using unat_u8_lt [of b] by simp
    then show ?thesis by (auto simp: less_2_cases_iff)
  qed
  finally show ?thesis .
qed

lemma u8_bit_eqI:
  fixes a b :: u8
  assumes "bit a 0 = bit b 0" "bit a 1 = bit b 1" "bit a 2 = bit b 2" "bit a 3 = bit b 3"
    "bit a 4 = bit b 4" "bit a 5 = bit b 5" "bit a 6 = bit b 6" "bit a 7 = bit b 7"
  shows "a = b"
proof (rule bit_word_eqI)
  fix n
  assume "n < LENGTH(8)"
  then have "n = 0 \<or> n = 1 \<or> n = 2 \<or> n = 3 \<or> n = 4 \<or> n = 5 \<or> n = 6 \<or> n = 7" by auto
  then show "bit a n = bit b n" using assms by metis
qed

lemma unat_eq_iff_u8_2: "unat (q :: u8) = 2 \<longleftrightarrow> q = 2"
  by (auto simp: word_unat_eq_iff)

lemma u8_bit_double: "bit (q * 2 :: u8) n \<longleftrightarrow> n < 8 \<and> n \<noteq> 0 \<and> bit q (n - 1)"
proof -
  have "bit (2 * q) n \<longleftrightarrow> n < 8 \<and> n \<noteq> 0 \<and> bit q (n - 1)"
    by (auto simp: bit_double_iff)
  then show ?thesis by (simp only: mult.commute [of q 2])
qed

lemma u8_bit_bound: "bit (b :: u8) n \<Longrightarrow> n < 8"
  by (drule bit_imp_le_length) simp

lemma unat_ucast_u8_u32: "unat (ucast (b :: u8) :: u32) = unat b"
proof -
  have "(ucast b :: u32) = of_nat (unat b)" by (rule of_nat_unat [symmetric])
  moreover have "unat (of_nat (unat b) :: u32) = unat b"
    using unat_u8_lt [of b] by (intro unat_of_nat_u32) simp
  ultimately show ?thesis by simp
qed

subsection \<open>Writing through an advancing pointer\<close>

text \<open>\<open>put bs\<close> writes \<open>bs\<close> and advances the pointer; \<open>emit\<close> is \<^verbatim>\<open>*p++ = c\<close>.\<close>

definition put :: "byte list \<Rightarrow> byte list \<Rightarrow> nat \<Rightarrow> (byte list \<times> nat) option" where
  "put bs buf p = map_option (\<lambda>b. (b, p + length bs)) (wr_bytes buf p bs)"

lemma put_put: "put xs buf p \<bind> (\<lambda>(b, q). put ys b q) = put (xs @ ys) buf p"
proof -
  have "wr_bytes buf p (xs @ ys) = wr_bytes buf p xs \<bind> (\<lambda>b. wr_bytes b (p + length xs) ys)"
    by (simp add: wr_bytes_bind)
  then show ?thesis
    by (cases "wr_bytes buf p xs") (simp_all add: put_def add.assoc)
qed

lemma put_put_bind [codec_simps]:
  "put xs buf p \<bind> (\<lambda>(b, q). put ys b q \<bind> k) = put (xs @ ys) buf p \<bind> k"
proof -
  have "put xs buf p \<bind> (\<lambda>(b, q). put ys b q \<bind> k) = (put xs buf p \<bind> (\<lambda>(b, q). put ys b q)) \<bind> k"
    by (cases "put xs buf p") auto
  then show ?thesis by (simp only: put_put)
qed

lemma put_Some_iff:
  "put bs buf p = Some (buf', q) \<longleftrightarrow>
     p + length bs \<le> length buf \<and> q = p + length bs \<and> buf' = take p buf @ bs @ drop (p + length bs) buf"
  by (auto simp: put_def wr_bytes_def)

lemma put_fits: "p + length bs \<le> length buf \<Longrightarrow>
    put bs buf p = Some (take p buf @ bs @ drop (p + length bs) buf, p + length bs)"
  by (simp add: put_Some_iff)

lemma put_bytes_at: "put bs buf p = Some (buf', q) \<Longrightarrow> bytes_at buf' p bs"
  by (auto simp: put_def intro: wr_bytes_bytes_at)

lemma case_prod_bind [codec_simps]:
  "Option.bind (case y of (a, b) \<Rightarrow> f a b) k = (case y of (a, b) \<Rightarrow> Option.bind (f a b) k)"
  by (cases y) simp

definition emit :: "byte list \<Rightarrow> nat \<Rightarrow> byte \<Rightarrow> (byte list \<times> nat) option" where
  "emit buf p c = do { b \<leftarrow> wr buf p c; Some (b, p + 1) }"

lemma emit_put [codec_simps]: "emit buf p c = put [c] buf p"
  by (cases "wr_bytes buf p [c]") (simp_all add: emit_def put_def wr_eq_wr_bytes)

lemma put_length: "put bs buf p = Some (b, q) \<Longrightarrow> length b = length buf"
  by (auto simp: put_def dest: wr_bytes_length)

subsection \<open>Taking a successful computation apart\<close>

lemma bind_SomeE:
  assumes "Option.bind m f = Some y"
  obtains x where "m = Some x" "f x = Some y"
  using assms by (cases m) auto

lemmas model_splits = if_split_asm prod.split_asm sum.split_asm option.split_asm

text \<open>String literals as bytes.\<close>

definition cstr :: "string \<Rightarrow> byte list" where
  "cstr = map of_char"

subsection \<open>Invariants of stateful components\<close>

text \<open>A component is a set of initial states and the relation of its calls; what every initial state has and
  every call keeps, every reachable state has.\<close>

locale component =
  fixes initial :: "'s \<Rightarrow> bool" and step :: "'s \<Rightarrow> 's \<Rightarrow> bool" and inv :: "'s \<Rightarrow> bool"
  assumes initial_inv: "initial s \<Longrightarrow> inv s"
    and step_inv: "step s s' \<Longrightarrow> inv s \<Longrightarrow> inv s'"
begin

lemma reachable_inv:
  assumes "initial s" "step\<^sup>*\<^sup>* s s'"
  shows "inv s'"
  using assms(2)
proof (induction rule: rtranclp_induct)
  case base
  show ?case using assms(1) by (rule initial_inv)
next
  case (step t u)
  then show ?case using step_inv by blast
qed

end

end
