(* ===== verification/Utils_Ringbuff.thy ===== *)
theory Utils_Ringbuff
  imports Iot_Prelude
begin

text \<open>
  The ring buffer of \<^verbatim>\<open>sdk_src/utils/utils_ringbuff.c\<close>, which the AT client puts between the
  receiver and the readers of a socket, and the bounded byte queue it implements.

  The cell at \<open>readpoint\<close> is never part of the contents, so a buffer of \<open>size\<close> bytes holds at
  most \<open>size - 1\<close>. \<^verbatim>\<open>int len\<close> is compared with the unsigned \<open>size\<close>, i.e. as \<open>uint32_t\<close>.
  \<^const>\<open>None\<close>: division by a zero \<open>size\<close> or an access outside a buffer.
\<close>

abbreviation RINGBUFF_OK :: int where "RINGBUFF_OK \<equiv> 0"
abbreviation RINGBUFF_FULL :: int where "RINGBUFF_FULL \<equiv> - 4"
abbreviation RINGBUFF_TOO_SHORT :: int where "RINGBUFF_TOO_SHORT \<equiv> - 5"

record sRingbuff =
  rb_size :: u32
  rb_readpoint :: u32
  rb_writepoint :: u32
  rb_buffer :: "byte list"
  rb_full :: bool

definition memset0 :: "byte list \<Rightarrow> nat \<Rightarrow> byte list option" where
  "memset0 buf n = wr_bytes buf 0 (replicate n 0)"

definition ring_buff_init :: "byte list \<Rightarrow> u32 \<Rightarrow> (int \<times> sRingbuff) option" where
  "ring_buff_init buff sz = do {
     b \<leftarrow> memset0 buff (unat sz);
     Some (RINGBUFF_OK, \<lparr>rb_size = sz, rb_readpoint = 0, rb_writepoint = 0, rb_buffer = b, rb_full = False\<rparr>) }"

definition ring_buff_flush :: "sRingbuff \<Rightarrow> (int \<times> sRingbuff) option" where
  "ring_buff_flush rb = do {
     b \<leftarrow> memset0 (rb_buffer rb) (unat (rb_size rb));
     Some (RINGBUFF_OK, rb\<lparr>rb_readpoint := 0, rb_writepoint := 0, rb_buffer := b, rb_full := False\<rparr>) }"

function push_loop :: "sRingbuff \<Rightarrow> byte list \<Rightarrow> nat \<Rightarrow> nat \<Rightarrow> (int \<times> sRingbuff) option" where
  "push_loop rb pData i len =
     (if i < len
      then if rb_size rb = 0 then None
           else if (rb_writepoint rb + 1) mod rb_size rb = rb_readpoint rb
           then Some (RINGBUFF_FULL, rb\<lparr>rb_full := True\<rparr>)
           else do {
             let w = (if rb_writepoint rb < rb_size rb - 1 then rb_writepoint rb + 1 else 0);
             c \<leftarrow> rd pData i;
             b \<leftarrow> wr (rb_buffer rb) (unat w) c;
             push_loop (rb\<lparr>rb_writepoint := w, rb_buffer := b\<rparr>) pData (i + 1) len }
      else Some (RINGBUFF_OK, rb))"
  by pat_completeness auto
termination
  by (relation "measure (\<lambda>(rb, pData, i, len). len - i)") auto

declare push_loop.simps [simp del]

definition ring_buff_push_data :: "sRingbuff \<Rightarrow> byte list \<Rightarrow> int \<Rightarrow> (int \<times> sRingbuff) option" where
  "ring_buff_push_data rb pData len =
     (if (of_int len :: u32) > rb_size rb then Some (RINGBUFF_TOO_SHORT, rb)
      else push_loop rb pData 0 (nat len))"

function pop_loop :: "sRingbuff \<Rightarrow> byte list \<Rightarrow> nat \<Rightarrow> nat \<Rightarrow> (int \<times> byte list \<times> sRingbuff) option" where
  "pop_loop rb pData i len =
     (if i < len
      then if rb_writepoint rb = rb_readpoint rb then Some (int i, pData, rb)
           else do {
             let r = (if rb_readpoint rb = rb_size rb - 1 then 0 else rb_readpoint rb + 1);
             c \<leftarrow> rd (rb_buffer rb) (unat r);
             p \<leftarrow> wr pData i c;
             pop_loop (rb\<lparr>rb_readpoint := r\<rparr>) p (i + 1) len }
      else Some (int i, pData, rb))"
  by pat_completeness auto
termination
  by (relation "measure (\<lambda>(rb, pData, i, len). len - i)") auto

declare pop_loop.simps [simp del]

definition ring_buff_pop_data :: "sRingbuff \<Rightarrow> byte list \<Rightarrow> int \<Rightarrow> (int \<times> byte list \<times> sRingbuff) option" where
  "ring_buff_pop_data rb pData len =
     (if (of_int len :: u32) > rb_size rb then Some (RINGBUFF_TOO_SHORT, pData, rb)
      else pop_loop rb pData 0 (nat len))"

section \<open>The queue in the buffer\<close>

text \<open>\<open>rb_rep rb xs\<close>: the ring buffer is well formed and holds \<open>xs\<close>, the oldest byte first.\<close>

definition rb_rep :: "sRingbuff \<Rightarrow> byte list \<Rightarrow> bool" where
  "rb_rep rb xs \<longleftrightarrow>
     (let n = unat (rb_size rb); r = unat (rb_readpoint rb); w = unat (rb_writepoint rb)
      in 0 < n \<and> length (rb_buffer rb) = n \<and> r < n \<and> length xs < n \<and> w = (r + length xs) mod n \<and>
         (\<forall>j < length xs. rb_buffer rb ! ((r + 1 + j) mod n) = xs ! j))"

definition rb_cap :: "sRingbuff \<Rightarrow> nat" where
  "rb_cap rb = unat (rb_size rb) - 1"

lemma rb_repD:
  assumes "rb_rep rb xs"
  shows "0 < unat (rb_size rb)" "length (rb_buffer rb) = unat (rb_size rb)"
    "unat (rb_readpoint rb) < unat (rb_size rb)" "length xs < unat (rb_size rb)"
    "unat (rb_writepoint rb) = (unat (rb_readpoint rb) + length xs) mod unat (rb_size rb)"
    "\<And>j. j < length xs \<Longrightarrow> rb_buffer rb ! ((unat (rb_readpoint rb) + 1 + j) mod unat (rb_size rb)) = xs ! j"
  using assms by (simp_all add: rb_rep_def Let_def)

lemma u32_succ:
  assumes "unat w < unat (s :: u32)"
  shows "unat (w + 1) = unat w + 1" "unat ((w + 1) mod s) = (unat w + 1) mod unat s"
proof -
  have "unat w + 1 < 4294967296" using assms unat_u32_lt [of s] by linarith
  then show a: "unat (w + 1) = unat w + 1" by (simp add: unat_word_ariths)
  then show "unat ((w + 1) mod s) = (unat w + 1) mod unat s" by (simp add: unat_mod)
qed

lemma u32_wrap_succ:
  assumes "unat w < unat (s :: u32)"
  shows "unat (if w < s - 1 then w + 1 else 0) = (unat w + 1) mod unat s"
    "unat (if w = s - 1 then 0 else w + 1) = (unat w + 1) mod unat s"
proof -
  have s: "unat (s - 1) = unat s - 1"
    using assms by (intro unat_minus_one) auto
  have lt: "w < s - 1 \<longleftrightarrow> unat w + 1 < unat s" and eq: "w = s - 1 \<longleftrightarrow> unat w + 1 = unat s"
    using assms s by (auto simp: word_less_nat_alt word_unat_eq_iff)
  show "unat (if w < s - 1 then w + 1 else 0) = (unat w + 1) mod unat s"
    using assms u32_succ(1) [OF assms] lt by (cases "unat w + 1 = unat s") auto
  show "unat (if w = s - 1 then 0 else w + 1) = (unat w + 1) mod unat s"
    using assms u32_succ(1) [OF assms] eq by (cases "unat w + 1 = unat s") auto
qed

lemma ring_index_inj:
  assumes "(r + i) mod n = (r + j) mod n" "i < n" "j < (n :: nat)"
  shows "i = j"
proof -
  have aux: "a = b" if "(r + a) mod n = (r + b) mod n" "b \<le> a" "a < n" for a b
  proof -
    have "n dvd (r + a) - (r + b)" using that by (subst mod_eq_dvd_iff_nat [symmetric]) auto
    then have "n dvd a - b" by simp
    then have "a - b = 0" using that dvd_imp_le [of n "a - b"] by fastforce
    then show ?thesis using that by simp
  qed
  show ?thesis
    using assms aux [of i j] aux [of j i] by (cases "j \<le> i") auto
qed

lemma rb_full_iff:
  assumes "rb_rep rb xs"
  shows "(rb_writepoint rb + 1) mod rb_size rb = rb_readpoint rb \<longleftrightarrow> length xs = rb_cap rb"
proof -
  let ?n = "unat (rb_size rb)" and ?r = "unat (rb_readpoint rb)"
  note d = rb_repD [OF assms]
  have w: "unat (rb_writepoint rb) < ?n" using d by simp
  have "(rb_writepoint rb + 1) mod rb_size rb = rb_readpoint rb \<longleftrightarrow> (?r + (length xs + 1)) mod ?n = ?r"
    unfolding word_unat_eq_iff u32_succ(2) [OF w] d(5) by (simp add: mod_simps)
  also have "\<dots> \<longleftrightarrow> length xs + 1 = ?n"
  proof
    assume a: "(?r + (length xs + 1)) mod ?n = ?r"
    show "length xs + 1 = ?n"
    proof (rule ccontr)
      assume "length xs + 1 \<noteq> ?n"
      then have "length xs + 1 < ?n" using d(4) by linarith
      moreover have "(?r + (length xs + 1)) mod ?n = (?r + 0) mod ?n" using a d(3) by simp
      ultimately show False using ring_index_inj [of ?r "length xs + 1" ?n 0] d(1) by simp
    qed
  next
    assume "length xs + 1 = ?n"
    then show "(?r + (length xs + 1)) mod ?n = ?r" using d(3) by simp
  qed
  also have "\<dots> \<longleftrightarrow> length xs = rb_cap rb" using d(1) by (auto simp: rb_cap_def)
  finally show ?thesis .
qed

lemma rb_empty_iff:
  assumes "rb_rep rb xs"
  shows "rb_writepoint rb = rb_readpoint rb \<longleftrightarrow> xs = []"
proof
  note d = rb_repD [OF assms]
  assume "rb_writepoint rb = rb_readpoint rb"
  then have "(unat (rb_readpoint rb) + length xs) mod unat (rb_size rb) =
      (unat (rb_readpoint rb) + 0) mod unat (rb_size rb)"
    using d(3,5) by simp
  then have "length xs = 0" by (rule ring_index_inj) (rule d(4), rule d(1))
  then show "xs = []" by simp
next
  assume "xs = []"
  then show "rb_writepoint rb = rb_readpoint rb"
    using rb_repD(3,5) [OF assms] by (simp add: word_unat_eq_iff)
qed

definition rb_store :: "sRingbuff \<Rightarrow> byte \<Rightarrow> sRingbuff" where
  "rb_store rb c =
     (let w = (if rb_writepoint rb < rb_size rb - 1 then rb_writepoint rb + 1 else 0)
      in rb\<lparr>rb_writepoint := w, rb_buffer := (rb_buffer rb)[unat w := c]\<rparr>)"

lemma rb_store_rep:
  assumes "rb_rep rb xs" "length xs < rb_cap rb"
  shows "rb_rep (rb_store rb c) (xs @ [c])"
    and "unat (rb_writepoint (rb_store rb c)) < length (rb_buffer rb)"
proof -
  let ?n = "unat (rb_size rb)" and ?r = "unat (rb_readpoint rb)"
  note d = rb_repD [OF assms(1)]
  have "unat (rb_writepoint rb) < ?n" using d by simp
  then have w: "unat (rb_writepoint (rb_store rb c)) = (?r + 1 + length xs) mod ?n"
    using u32_wrap_succ(1) d(5) by (simp add: rb_store_def Let_def mod_simps ac_simps)
  have len: "length xs + 1 < ?n" using assms(2) by (simp add: rb_cap_def)
  have other: "(?r + 1 + length xs) mod ?n \<noteq> (?r + 1 + j) mod ?n" if "j < length xs" for j
    using that len ring_index_inj [of "?r + 1" "length xs" ?n j] by auto
  show "unat (rb_writepoint (rb_store rb c)) < length (rb_buffer rb)" using w d by simp
  have buf: "rb_buffer (rb_store rb c) = (rb_buffer rb)[(?r + 1 + length xs) mod ?n := c]"
    using w by (simp add: rb_store_def Let_def)
  have cells: "rb_buffer (rb_store rb c) ! ((?r + 1 + j) mod ?n) = (xs @ [c]) ! j" if "j < length xs + 1" for j
    using that other [of j] d unfolding buf
    by (cases "j = length xs") (auto simp: nth_append nth_list_update)
  show "rb_rep (rb_store rb c) (xs @ [c])"
    unfolding rb_rep_def Let_def using cells w d len buf
    by (simp add: rb_store_def Let_def mod_simps)
qed

definition rb_take :: "sRingbuff \<Rightarrow> sRingbuff" where
  "rb_take rb = rb\<lparr>rb_readpoint := (if rb_readpoint rb = rb_size rb - 1 then 0 else rb_readpoint rb + 1)\<rparr>"

lemma rb_take_rep:
  assumes "rb_rep rb (x # xs)"
  shows "rb_rep (rb_take rb) xs" "rd (rb_buffer rb) (unat (rb_readpoint (rb_take rb))) = Some x"
proof -
  let ?n = "unat (rb_size rb)" and ?r = "unat (rb_readpoint rb)"
  note d = rb_repD [OF assms]
  have r: "unat (rb_readpoint (rb_take rb)) = (?r + 1) mod ?n"
    using u32_wrap_succ(2) [OF d(3)] by (simp add: rb_take_def)
  show "rd (rb_buffer rb) (unat (rb_readpoint (rb_take rb))) = Some x"
    using r d(1,2) d(6) [of 0] by (simp add: rd_def)
  have "rb_buffer rb ! (((?r + 1) mod ?n + 1 + j) mod ?n) = xs ! j" if "j < length xs" for j
    using d(6) [of "Suc j"] that mod_add_left_eq [of "?r + 1" ?n "1 + j"] by (simp add: ac_simps)
  moreover have "(?r + length (x # xs)) mod ?n = ((?r + 1) mod ?n + length xs) mod ?n"
    by (simp add: mod_simps)
  ultimately show "rb_rep (rb_take rb) xs"
    unfolding rb_rep_def Let_def r using d by (simp add: rb_take_def)
qed

lemma rb_take_fields [simp]:
  "rb_size (rb_take rb) = rb_size rb" "rb_buffer (rb_take rb) = rb_buffer rb"
  by (simp_all add: rb_take_def)

lemma rb_store_size [simp]: "rb_size (rb_store rb c) = rb_size rb"
  by (simp add: rb_store_def Let_def)

lemma rb_full_rep [simp]: "rb_rep (rb\<lparr>rb_full := b\<rparr>) xs = rb_rep rb xs"
  by (simp add: rb_rep_def)

lemma push_loop_rep:
  assumes "rb_rep rb xs" "i \<le> len" "len \<le> length pData"
  shows "\<exists>rb'. push_loop rb pData i len =
       Some (if length xs + (len - i) \<le> rb_cap rb then RINGBUFF_OK else RINGBUFF_FULL, rb') \<and>
     rb_rep rb' (xs @ take (rb_cap rb - length xs) (take (len - i) (drop i pData))) \<and> rb_size rb' = rb_size rb"
  using assms
proof (induction "len - i" arbitrary: rb xs i)
  case 0
  then have "length xs \<le> rb_cap rb" using rb_repD(4) [OF 0(2)] by (simp add: rb_cap_def)
  with 0 show ?case by (subst push_loop.simps) simp
next
  case (Suc k)
  then have i: "i < len" by simp
  have n0: "rb_size rb \<noteq> 0" using rb_repD(1) [OF Suc.prems(1)] by auto
  show ?case
  proof (cases "length xs = rb_cap rb")
    case True
    then show ?thesis
      using i n0 rb_full_iff [OF Suc.prems(1)] Suc.prems(1) by (subst push_loop.simps) simp
  next
    case False
    then have lt: "length xs < rb_cap rb"
      using rb_repD(4) [OF Suc.prems(1)] by (simp add: rb_cap_def)
    let ?c = "pData ! i"
    note st = rb_store_rep [OF Suc.prems(1) lt, of ?c]
    have step: "push_loop rb pData i len = push_loop (rb_store rb ?c) pData (i + 1) len"
      using i n0 False rb_full_iff [OF Suc.prems(1)] Suc.prems(3) st(2)
      by (subst push_loop.simps) (simp add: rd_def wr_def rb_store_def Let_def)
    have d: "take (len - i) (drop i pData) = ?c # take (len - (i + 1)) (drop (i + 1) pData)"
      using i Suc.prems(3) by (simp add: Cons_nth_drop_Suc [symmetric] Suc_diff_Suc [symmetric])
    have "\<exists>rb'. push_loop (rb_store rb ?c) pData (i + 1) len =
         Some (if length (xs @ [?c]) + (len - (i + 1)) \<le> rb_cap rb then RINGBUFF_OK else RINGBUFF_FULL, rb') \<and>
       rb_rep rb' ((xs @ [?c]) @ take (rb_cap rb - length (xs @ [?c])) (take (len - (i + 1)) (drop (i + 1) pData))) \<and>
       rb_size rb' = rb_size rb"
      using Suc.hyps(1) [of "i + 1" "rb_store rb ?c" "xs @ [?c]"] Suc.hyps(2) Suc.prems(3) st(1) i
      by (simp add: rb_cap_def)
    moreover have "take (rb_cap rb - length xs) (?c # ys) = ?c # take (rb_cap rb - length (xs @ [?c])) ys" for ys
    proof -
      have "rb_cap rb - length xs = Suc (rb_cap rb - length (xs @ [?c]))" using lt by simp
      then show ?thesis by (simp only: take_Suc_Cons)
    qed
    ultimately show ?thesis using step d i by (simp add: Suc_diff_Suc)
  qed
qed

lemma pop_loop_rep:
  assumes "rb_rep rb xs" "i \<le> len" "len \<le> length pData"
  shows "\<exists>rb'. pop_loop rb pData i len =
       Some (int (i + min (len - i) (length xs)),
             take i pData @ take (len - i) xs @ drop (i + min (len - i) (length xs)) pData, rb') \<and>
     rb_rep rb' (drop (len - i) xs) \<and> rb_size rb' = rb_size rb"
  using assms
proof (induction "len - i" arbitrary: rb xs i pData)
  case 0
  then show ?case by (subst pop_loop.simps) simp
next
  case (Suc k)
  then have i: "i < len" by simp
  show ?case
  proof (cases xs)
    case Nil
    then show ?thesis
      using i rb_empty_iff [OF Suc.prems(1)] Suc.prems(1) by (subst pop_loop.simps) simp
  next
    case (Cons x ys)
    note tk = rb_take_rep [OF Suc.prems(1) [unfolded Cons]]
    have step: "pop_loop rb pData i len = pop_loop (rb_take rb) (pData[i := x]) (i + 1) len"
      using i Cons rb_empty_iff [OF Suc.prems(1)] Suc.prems(3) tk(2)
      by (subst pop_loop.simps) (simp add: wr_def rb_take_def Let_def)
    have "\<exists>rb'. pop_loop (rb_take rb) (pData[i := x]) (i + 1) len =
         Some (int (i + 1 + min (len - (i + 1)) (length ys)),
               take (i + 1) (pData[i := x]) @ take (len - (i + 1)) ys
                 @ drop (i + 1 + min (len - (i + 1)) (length ys)) (pData[i := x]), rb') \<and>
       rb_rep rb' (drop (len - (i + 1)) ys) \<and> rb_size rb' = rb_size rb"
      using Suc.hyps(1) [of "i + 1" "rb_take rb" ys "pData[i := x]"] Suc.hyps(2) Suc.prems(3) tk(1) i by simp
    moreover have "take (i + 1) (pData[i := x]) = take i pData @ [x]"
      using i Suc.prems(3) by (simp add: take_Suc_conv_app_nth)
    moreover have s: "len - i = Suc (len - (i + 1))" using i by simp
    moreover have "min (len - i) (length xs) = Suc (min (len - (i + 1)) (length ys))"
      unfolding s Cons by simp
    ultimately show ?thesis using step Cons by simp
  qed
qed

section \<open>The bounded queue interface\<close>

text \<open>
  What a user of the buffer relies on: data pushed within the capacity is appended, data popped is
  the oldest, nothing is lost or reordered. \<open>fifo_run\<close> executes a list of requests and collects
  what is popped; it agrees with the same requests on a plain list.
\<close>

datatype fifo_op = Push "byte list" | Pop nat

fun fifo_spec :: "byte list \<Rightarrow> fifo_op list \<Rightarrow> byte list list \<times> byte list" where
  "fifo_spec xs [] = ([], xs)"
| "fifo_spec xs (Push ys # ops) = fifo_spec (xs @ ys) ops"
| "fifo_spec xs (Pop n # ops) = (let (out, r) = fifo_spec (drop n xs) ops in (take n xs # out, r))"

fun within :: "nat \<Rightarrow> byte list \<Rightarrow> fifo_op list \<Rightarrow> bool" where
  "within cap xs [] = True"
| "within cap xs (Push ys # ops) = (length xs + length ys \<le> cap \<and> within cap (xs @ ys) ops)"
| "within cap xs (Pop n # ops) = (n \<le> cap \<and> within cap (drop n xs) ops)"

fun fifo_run :: "('q \<Rightarrow> byte list \<Rightarrow> (int \<times> 'q) option) \<Rightarrow> ('q \<Rightarrow> nat \<Rightarrow> (byte list \<times> 'q) option) \<Rightarrow>
    'q \<Rightarrow> fifo_op list \<Rightarrow> (byte list list \<times> 'q) option" where
  "fifo_run push pop q [] = Some ([], q)"
| "fifo_run push pop q (Push ys # ops) =
     (case push q ys of Some (rc, q') \<Rightarrow> fifo_run push pop q' ops | None \<Rightarrow> None)"
| "fifo_run push pop q (Pop n # ops) =
     (case pop q n of
        Some (out, q') \<Rightarrow> map_option (\<lambda>(outs, q''). (out # outs, q'')) (fifo_run push pop q' ops)
      | None \<Rightarrow> None)"

locale byte_fifo =
  fixes rep :: "'q \<Rightarrow> byte list \<Rightarrow> bool"
    and cap :: "'q \<Rightarrow> nat"
    and push :: "'q \<Rightarrow> byte list \<Rightarrow> (int \<times> 'q) option"
    and pop :: "'q \<Rightarrow> nat \<Rightarrow> (byte list \<times> 'q) option"
  assumes push_law: "rep q xs \<Longrightarrow> length xs + length ys \<le> cap q \<Longrightarrow>
      \<exists>q'. push q ys = Some (0, q') \<and> rep q' (xs @ ys) \<and> cap q' = cap q"
    and pop_law: "rep q xs \<Longrightarrow> n \<le> cap q \<Longrightarrow>
      \<exists>q'. pop q n = Some (take n xs, q') \<and> rep q' (drop n xs) \<and> cap q' = cap q"
begin

lemma run_refines:
  "rep q xs \<Longrightarrow> within (cap q) xs ops \<Longrightarrow>
     \<exists>q'. fifo_run push pop q ops = Some (fst (fifo_spec xs ops), q') \<and> rep q' (snd (fifo_spec xs ops))"
proof (induction ops arbitrary: q xs)
  case Nil
  then show ?case by simp
next
  case (Cons a ops)
  show ?case
  proof (cases a)
    case (Push ys)
    then obtain q' where q': "push q ys = Some (0, q')" "rep q' (xs @ ys)" "cap q' = cap q"
      using push_law Cons.prems by fastforce
    then show ?thesis using Cons.IH [OF q'(2)] Cons.prems Push by simp
  next
    case (Pop n)
    then obtain q' where q': "pop q n = Some (take n xs, q')" "rep q' (drop n xs)" "cap q' = cap q"
      using pop_law Cons.prems by fastforce
    then obtain q'' where "fifo_run push pop q' ops = Some (fst (fifo_spec (drop n xs) ops), q'')"
        "rep q'' (snd (fifo_spec (drop n xs) ops))"
      using Cons.IH [OF q'(2)] Cons.prems Pop by auto
    then show ?thesis using q'(1) Pop by (simp add: case_prod_beta)
  qed
qed

lemma push_pop:
  assumes "rep q []" "length ys \<le> cap q" "push q ys = Some (rc, q')"
  shows "\<exists>q''. pop q' (length ys) = Some (ys, q'') \<and> rep q'' []"
proof -
  have "rep q' ys" "cap q' = cap q" using push_law [OF assms(1), of ys] assms(2,3) by auto
  then show ?thesis using pop_law [of q' ys "length ys"] assms(2) by fastforce
qed

end

text \<open>Pushing a whole block, and popping into a fresh block.\<close>

definition rb_push :: "sRingbuff \<Rightarrow> byte list \<Rightarrow> (int \<times> sRingbuff) option" where
  "rb_push rb ys = ring_buff_push_data rb ys (int (length ys))"

definition rb_pop :: "sRingbuff \<Rightarrow> nat \<Rightarrow> (byte list \<times> sRingbuff) option" where
  "rb_pop rb n = map_option (\<lambda>(i, p, rb'). (take (nat i) p, rb')) (ring_buff_pop_data rb (replicate n 0) (int n))"

lemma len_fits:
  assumes "n \<le> unat (s :: u32)"
  shows "\<not> (of_int (int n) :: u32) > s"
proof -
  have "unat (of_nat n :: u32) = n" using assms unat_u32_lt [of s] by (intro unat_of_nat_u32) simp
  then show ?thesis using assms by (simp add: word_less_nat_alt)
qed

lemma rb_push_rep:
  assumes "rb_rep rb xs" "length ys \<le> unat (rb_size rb)"
  shows "\<exists>rb'. ring_buff_push_data rb ys (int (length ys)) =
       Some (if length xs + length ys \<le> rb_cap rb then RINGBUFF_OK else RINGBUFF_FULL, rb') \<and>
     rb_rep rb' (xs @ take (rb_cap rb - length xs) ys) \<and> rb_size rb' = rb_size rb"
  using push_loop_rep [OF assms(1), of 0 "length ys" ys] len_fits [OF assms(2)]
  by (simp add: ring_buff_push_data_def)

lemma rb_pop_rep:
  assumes "rb_rep rb xs" "n \<le> unat (rb_size rb)"
  shows "\<exists>rb'. rb_pop rb n = Some (take n xs, rb') \<and> rb_rep rb' (drop n xs) \<and> rb_size rb' = rb_size rb"
proof -
  obtain rb' where "pop_loop rb (replicate n 0) 0 n =
      Some (int (min n (length xs)), take n xs @ drop (min n (length xs)) (replicate n 0), rb')"
      "rb_rep rb' (drop n xs)" "rb_size rb' = rb_size rb"
    using pop_loop_rep [OF assms(1), of 0 n "replicate n 0"] by auto
  then show ?thesis
    using len_fits [OF assms(2)] by (simp add: rb_pop_def ring_buff_pop_data_def min_def)
qed

interpretation ring: byte_fifo rb_rep rb_cap rb_push rb_pop
proof
  fix rb and xs ys :: "byte list"
  assume a: "rb_rep rb xs" "length xs + length ys \<le> rb_cap rb"
  then have "length ys \<le> unat (rb_size rb)" by (simp add: rb_cap_def)
  with a show "\<exists>rb'. rb_push rb ys = Some (0, rb') \<and> rb_rep rb' (xs @ ys) \<and> rb_cap rb' = rb_cap rb"
    using rb_push_rep [of rb xs ys] by (auto simp: rb_push_def rb_cap_def)
next
  fix rb n and xs :: "byte list"
  assume a: "rb_rep rb xs" "n \<le> rb_cap rb"
  then have "n \<le> unat (rb_size rb)" by (simp add: rb_cap_def)
  with a show "\<exists>rb'. rb_pop rb n = Some (take n xs, rb') \<and> rb_rep rb' (drop n xs) \<and> rb_cap rb' = rb_cap rb"
    using rb_pop_rep [of rb xs n] by (auto simp: rb_cap_def)
qed

lemma ring_buff_init_rep:
  assumes "0 < sz" "length buff = unat sz"
  shows "\<exists>rb. ring_buff_init buff sz = Some (RINGBUFF_OK, rb) \<and> rb_rep rb [] \<and> rb_size rb = sz"
  using assms by (simp add: ring_buff_init_def memset0_def wr_bytes_def rb_rep_def word_less_nat_alt)

section \<open>Properties\<close>

text \<open>C34. The ring buffer is a bounded FIFO: from an initialised buffer of \<open>sz\<close> bytes, every sequence of
  pushes and pops that never holds more than \<open>sz - 1\<close> bytes runs without an access outside the
  buffer and pops exactly what a plain list queue would return, in order.\<close>

theorem ring_buff_fifo:
  assumes "0 < sz" "length buff = unat sz" "within (unat sz - 1) [] ops"
  shows "\<exists>rb rb'. ring_buff_init buff sz = Some (RINGBUFF_OK, rb) \<and>
     fifo_run rb_push rb_pop rb ops = Some (fst (fifo_spec [] ops), rb') \<and> rb_rep rb' (snd (fifo_spec [] ops))"
proof -
  obtain rb where rb: "ring_buff_init buff sz = Some (RINGBUFF_OK, rb)" "rb_rep rb []" "rb_size rb = sz"
    using ring_buff_init_rep [OF assms(1,2)] by auto
  then have "within (rb_cap rb) [] ops" using assms(3) by (simp add: rb_cap_def)
  then show ?thesis using ring.run_refines [OF rb(2)] rb(1) by blast
qed

theorem ring_buff_fifo_witness:
  "\<exists>rb rb'. ring_buff_init [9, 9, 9, 9] 4 = Some (RINGBUFF_OK, rb) \<and>
     fifo_run rb_push rb_pop rb [Push [1, 2, 3], Pop 2, Push [4, 5], Pop 3] =
       Some (fst (fifo_spec [] [Push [1, 2, 3], Pop 2, Push [4, 5], Pop 3]), rb') \<and>
     rb_rep rb' (snd (fifo_spec [] [Push [1, 2, 3], Pop 2, Push [4, 5], Pop 3]))"
  by (rule ring_buff_fifo) simp_all

text \<open>A push that does not fit is not refused as a whole: the bytes that fit are stored in order, the
  rest is dropped and \<open>RINGBUFF_FULL\<close> is returned; a block longer than the buffer is refused with
  \<open>RINGBUFF_TOO_SHORT\<close> and changes nothing.\<close>

theorem ring_buff_push_overflow:
  assumes "rb_rep rb xs" "rb_cap rb < length xs + length ys" "length ys < 2 ^ 31"
  shows "if length ys \<le> unat (rb_size rb)
     then \<exists>rb'. ring_buff_push_data rb ys (int (length ys)) = Some (RINGBUFF_FULL, rb') \<and>
                rb_rep rb' (xs @ take (rb_cap rb - length xs) ys)
     else ring_buff_push_data rb ys (int (length ys)) = Some (RINGBUFF_TOO_SHORT, rb)"
proof (cases "length ys \<le> unat (rb_size rb)")
  case True
  then show ?thesis using rb_push_rep [OF assms(1) True] assms(2) by auto
next
  case False
  have "unat (of_nat (length ys) :: u32) = length ys" using assms(3) by (intro unat_of_nat_u32) simp
  with False show ?thesis by (simp add: ring_buff_push_data_def word_less_nat_alt)
qed

theorem ring_buff_push_overflow_witness:
  "\<exists>rb'. ring_buff_push_data \<lparr>rb_size = 3, rb_readpoint = 2, rb_writepoint = 0, rb_buffer = [7, 0, 0], rb_full = False\<rparr>
      [1, 2, 3] (int (length [1, 2, 3 :: byte])) = Some (RINGBUFF_FULL, rb') \<and> rb_rep rb' [7, 1]"
proof -
  let ?rb = "\<lparr>rb_size = 3, rb_readpoint = 2, rb_writepoint = 0, rb_buffer = [7, 0, 0], rb_full = False\<rparr>"
  have "rb_rep ?rb [7]" by (simp add: rb_rep_def)
  then show ?thesis using ring_buff_push_overflow [of ?rb "[7]" "[1, 2, 3]"] by (simp add: rb_cap_def)
qed

end
