(* ===== verification/Utils_List.thy ===== *)
theory Utils_List
  imports Iot_Prelude
begin

text \<open>
  The doubly linked list of \<^verbatim>\<open>sdk_src/utils/utils_list.c\<close> on an explicit heap. The MQTT client keeps
  its two lists of pending acknowledgements in it, the CoAP client its wait list.

  A node is a heap cell with \<open>prev\<close>, \<open>next\<close> and a value; a pointer is an optional address. Following
  a pointer that is null or not allocated is \<^const>\<open>None\<close>. \<open>freed_vals\<close> collects the values
  handed to the list's \<open>free\<close> callback, in order. \<^verbatim>\<open>HAL_Malloc\<close> is a parameter of the functions that
  call it: the address it returned, or \<^const>\<open>None\<close>.
\<close>

type_synonym addr = nat

record 'v ListNode =
  prev_ptr :: "addr option"
  next_ptr :: "addr option"
  node_val :: 'v

record 'v list_heap =
  nodes :: "addr \<Rightarrow> 'v ListNode option"
  freed_vals :: "'v list"

record 'v dlist =
  head_ptr :: "addr option"
  tail_ptr :: "addr option"
  list_len :: u32
  has_free :: bool
  match_fn :: "('v \<Rightarrow> 'v \<Rightarrow> bool) option"

datatype ListDirection = LIST_HEAD | LIST_TAIL

record ListIterator =
  it_next :: "addr option"
  it_direction :: ListDirection

subsection \<open>Access to the heap\<close>

definition deref :: "'v list_heap \<Rightarrow> addr option \<Rightarrow> 'v ListNode option" where
  "deref h p = (case p of None \<Rightarrow> None | Some a \<Rightarrow> nodes h a)"

definition set_node :: "'v list_heap \<Rightarrow> addr option \<Rightarrow> ('v ListNode \<Rightarrow> 'v ListNode) \<Rightarrow> 'v list_heap option" where
  "set_node h p f = (case p of
       None \<Rightarrow> None
     | Some a \<Rightarrow> (case nodes h a of None \<Rightarrow> None | Some n \<Rightarrow> Some (h\<lparr>nodes := (nodes h)(a \<mapsto> f n)\<rparr>)))"

definition set_next :: "'v list_heap \<Rightarrow> addr option \<Rightarrow> addr option \<Rightarrow> 'v list_heap option" where
  "set_next h p q = set_node h p (\<lambda>n. n\<lparr>next_ptr := q\<rparr>)"

definition set_prev :: "'v list_heap \<Rightarrow> addr option \<Rightarrow> addr option \<Rightarrow> 'v list_heap option" where
  "set_prev h p q = set_node h p (\<lambda>n. n\<lparr>prev_ptr := q\<rparr>)"

definition free_node :: "'v list_heap \<Rightarrow> addr \<Rightarrow> 'v list_heap option" where
  "free_node h a = (case nodes h a of None \<Rightarrow> None | Some n \<Rightarrow> Some (h\<lparr>nodes := (nodes h)(a := None)\<rparr>))"

subsection \<open>The operations\<close>

definition list_new :: "bool \<Rightarrow> 'v dlist option" where
  "list_new malloc_ok =
     (if \<not> malloc_ok then None
      else Some \<lparr>head_ptr = None, tail_ptr = None, list_len = 0, has_free = False, match_fn = None\<rparr>)"

definition list_node_new :: "'v list_heap \<Rightarrow> addr option \<Rightarrow> 'v \<Rightarrow> addr option \<times> 'v list_heap" where
  "list_node_new h mem v =
     (case mem of
        None \<Rightarrow> (None, h)
      | Some a \<Rightarrow> (Some a, h\<lparr>nodes := (nodes h)(a \<mapsto> \<lparr>prev_ptr = None, next_ptr = None, node_val = v\<rparr>)\<rparr>))"

primrec list_destroy_loop :: "nat \<Rightarrow> bool \<Rightarrow> 'v list_heap \<Rightarrow> addr option \<Rightarrow> 'v list_heap option" where
  "list_destroy_loop 0 fr h cur = Some h"
| "list_destroy_loop (Suc len) fr h cur = do {
     n \<leftarrow> deref h cur;
     let h = (if fr then h\<lparr>freed_vals := freed_vals h @ [node_val n]\<rparr> else h);
     h \<leftarrow> free_node h (the cur);
     list_destroy_loop len fr h (next_ptr n) }"

definition list_destroy :: "'v list_heap \<Rightarrow> 'v dlist \<Rightarrow> 'v list_heap option" where
  "list_destroy h self = list_destroy_loop (unat (list_len self)) (has_free self) h (head_ptr self)"

definition list_rpush ::
  "'v list_heap \<Rightarrow> 'v dlist \<Rightarrow> addr option \<Rightarrow> (addr option \<times> 'v list_heap \<times> 'v dlist) option" where
  "list_rpush h self node =
     (if node = None then Some (None, h, self)
      else if list_len self \<noteq> 0
      then do {
        h \<leftarrow> set_prev h node (tail_ptr self);
        h \<leftarrow> set_next h node None;
        h \<leftarrow> set_next h (tail_ptr self) node;
        Some (node, h, self\<lparr>tail_ptr := node, list_len := list_len self + 1\<rparr>) }
      else do {
        h \<leftarrow> set_next h node None;
        h \<leftarrow> set_prev h node None;
        Some (node, h, self\<lparr>head_ptr := node, tail_ptr := node, list_len := list_len self + 1\<rparr>) })"

definition list_rpop :: "'v list_heap \<Rightarrow> 'v dlist \<Rightarrow> (addr option \<times> 'v list_heap \<times> 'v dlist) option" where
  "list_rpop h self =
     (if list_len self = 0 then Some (None, h, self)
      else do {
        let node = tail_ptr self;
        let self = self\<lparr>list_len := list_len self - 1\<rparr>;
        (h, self) \<leftarrow>
          (if list_len self \<noteq> 0
           then do { n \<leftarrow> deref h node;
                     h \<leftarrow> set_next h (prev_ptr n) None;
                     Some (h, self\<lparr>tail_ptr := prev_ptr n\<rparr>) }
           else Some (h, self\<lparr>tail_ptr := None, head_ptr := None\<rparr>));
        h \<leftarrow> set_prev h node None;
        h \<leftarrow> set_next h node None;
        Some (node, h, self) })"

definition list_lpop :: "'v list_heap \<Rightarrow> 'v dlist \<Rightarrow> (addr option \<times> 'v list_heap \<times> 'v dlist) option" where
  "list_lpop h self =
     (if list_len self = 0 then Some (None, h, self)
      else do {
        let node = head_ptr self;
        let self = self\<lparr>list_len := list_len self - 1\<rparr>;
        (h, self) \<leftarrow>
          (if list_len self \<noteq> 0
           then do { n \<leftarrow> deref h node;
                     h \<leftarrow> set_prev h (next_ptr n) None;
                     Some (h, self\<lparr>head_ptr := next_ptr n\<rparr>) }
           else Some (h, self\<lparr>head_ptr := None, tail_ptr := None\<rparr>));
        h \<leftarrow> set_prev h node None;
        h \<leftarrow> set_next h node None;
        Some (node, h, self) })"

definition list_lpush ::
  "'v list_heap \<Rightarrow> 'v dlist \<Rightarrow> addr option \<Rightarrow> (addr option \<times> 'v list_heap \<times> 'v dlist) option" where
  "list_lpush h self node =
     (if node = None then Some (None, h, self)
      else if list_len self \<noteq> 0
      then do {
        h \<leftarrow> set_next h node (head_ptr self);
        h \<leftarrow> set_prev h node None;
        h \<leftarrow> set_prev h (head_ptr self) node;
        Some (node, h, self\<lparr>head_ptr := node, list_len := list_len self + 1\<rparr>) }
      else do {
        h \<leftarrow> set_next h node None;
        h \<leftarrow> set_prev h node None;
        Some (node, h, self\<lparr>head_ptr := node, tail_ptr := node, list_len := list_len self + 1\<rparr>) })"

definition list_iterator_new_from_node :: "bool \<Rightarrow> addr option \<Rightarrow> ListDirection \<Rightarrow> ListIterator option" where
  "list_iterator_new_from_node malloc_ok node direction =
     (if \<not> malloc_ok then None else Some \<lparr>it_next = node, it_direction = direction\<rparr>)"

definition list_iterator_new :: "bool \<Rightarrow> 'v dlist \<Rightarrow> ListDirection \<Rightarrow> ListIterator option" where
  "list_iterator_new malloc_ok l direction =
     list_iterator_new_from_node malloc_ok (if direction = LIST_HEAD then head_ptr l else tail_ptr l) direction"

definition list_iterator_next :: "'v list_heap \<Rightarrow> ListIterator \<Rightarrow> (addr option \<times> ListIterator) option" where
  "list_iterator_next h it =
     (case it_next it of
        None \<Rightarrow> Some (None, it)
      | Some cur \<Rightarrow> do {
          n \<leftarrow> nodes h cur;
          Some (Some cur, it\<lparr>it_next := (if it_direction it = LIST_HEAD then next_ptr n else prev_ptr n)\<rparr>) })"

text \<open>The search loop of \<^verbatim>\<open>list_find\<close>; on a list that is not closed by a null pointer it would not end.\<close>

partial_function (option) list_find_loop ::
  "'v list_heap \<Rightarrow> ('v \<Rightarrow> 'v \<Rightarrow> bool) option \<Rightarrow> 'v \<Rightarrow> ListIterator \<Rightarrow> addr option option" where
  "list_find_loop h m v it = do {
     (node, it) \<leftarrow> list_iterator_next h it;
     (case node of
        None \<Rightarrow> Some None
      | Some a \<Rightarrow> do {
          n \<leftarrow> nodes h a;
          if (case m of Some f \<Rightarrow> f v (node_val n) | None \<Rightarrow> v = node_val n)
          then Some (Some a)
          else list_find_loop h m v it }) }"

definition list_find :: "bool \<Rightarrow> 'v list_heap \<Rightarrow> 'v dlist \<Rightarrow> 'v \<Rightarrow> addr option option" where
  "list_find malloc_ok h self v =
     (case list_iterator_new malloc_ok self LIST_HEAD of
        None \<Rightarrow> Some None
      | Some it \<Rightarrow> list_find_loop h (match_fn self) v it)"

primrec list_at_loop :: "nat \<Rightarrow> 'v list_heap \<Rightarrow> ListIterator \<Rightarrow> addr option \<Rightarrow> addr option option" where
  "list_at_loop 0 h it node = Some node"
| "list_at_loop (Suc k) h it node = do {
     (node, it) \<leftarrow> list_iterator_next h it;
     list_at_loop k h it node }"

text \<open>\<open>~index\<close> is \<open>- index - 1\<close>.\<close>

definition list_at :: "bool \<Rightarrow> 'v list_heap \<Rightarrow> 'v dlist \<Rightarrow> int \<Rightarrow> addr option option" where
  "list_at malloc_ok h self index =
     (let direction = (if index < 0 then LIST_TAIL else LIST_HEAD);
          index = (if index < 0 then - index - 1 else index)
      in if nat index < unat (list_len self)
         then (case list_iterator_new malloc_ok self direction of
                 None \<Rightarrow> Some None
               | Some it \<Rightarrow> do {
                   (node, it) \<leftarrow> list_iterator_next h it;
                   list_at_loop (nat index) h it node })
         else Some None)"

definition list_remove :: "'v list_heap \<Rightarrow> 'v dlist \<Rightarrow> addr \<Rightarrow> ('v list_heap \<times> 'v dlist) option" where
  "list_remove h self node = do {
     n \<leftarrow> nodes h node;
     (h, self) \<leftarrow> (if prev_ptr n \<noteq> None
                   then do { h \<leftarrow> set_next h (prev_ptr n) (next_ptr n); Some (h, self) }
                   else Some (h, self\<lparr>head_ptr := next_ptr n\<rparr>));
     n \<leftarrow> nodes h node;
     (h, self) \<leftarrow> (if next_ptr n \<noteq> None
                   then do { h \<leftarrow> set_prev h (next_ptr n) (prev_ptr n); Some (h, self) }
                   else Some (h, self\<lparr>tail_ptr := prev_ptr n\<rparr>));
     let h = (if has_free self then h\<lparr>freed_vals := freed_vals h @ [node_val n]\<rparr> else h);
     h \<leftarrow> free_node h node;
     Some (h, if list_len self \<noteq> 0 then self\<lparr>list_len := list_len self - 1\<rparr> else self) }"

section \<open>The list a heap holds\<close>

text \<open>\<open>dseg h p xs q\<close>: the nodes \<open>xs\<close> are linked one after the other, \<open>p\<close> before the first and \<open>q\<close>
  after the last.\<close>

fun dseg :: "(addr \<Rightarrow> 'v ListNode option) \<Rightarrow> addr option \<Rightarrow> addr list \<Rightarrow> addr option \<Rightarrow> bool" where
  "dseg m p [] q = True"
| "dseg m p (x # xs) q =
     (\<exists>n. m x = Some n \<and> prev_ptr n = p \<and> next_ptr n = (case xs of [] \<Rightarrow> q | y # ys \<Rightarrow> Some y) \<and>
          dseg m (Some x) xs q)"

definition first :: "addr list \<Rightarrow> addr option \<Rightarrow> addr option" where
  "first xs q = (case xs of [] \<Rightarrow> q | y # ys \<Rightarrow> Some y)"

fun final :: "addr option \<Rightarrow> addr list \<Rightarrow> addr option" where
  "final p [] = p"
| "final p (x # xs) = final (Some x) xs"

definition dll :: "'v list_heap \<Rightarrow> 'v dlist \<Rightarrow> addr list \<Rightarrow> bool" where
  "dll h l xs \<longleftrightarrow> distinct xs \<and> dseg (nodes h) None xs None \<and>
     head_ptr l = first xs None \<and> tail_ptr l = final None xs \<and> unat (list_len l) = length xs"

named_theorems heap_simps \<open>heap updates at known addresses\<close>

lemma deref_Some [heap_simps]: "deref h (Some a) = nodes h a"
  by (simp add: deref_def)

lemma set_next_Some [heap_simps]:
  "nodes h a = Some n \<Longrightarrow> set_next h (Some a) q = Some (h\<lparr>nodes := (nodes h)(a \<mapsto> n\<lparr>next_ptr := q\<rparr>)\<rparr>)"
  by (simp add: set_next_def set_node_def)

lemma set_prev_Some [heap_simps]:
  "nodes h a = Some n \<Longrightarrow> set_prev h (Some a) q = Some (h\<lparr>nodes := (nodes h)(a \<mapsto> n\<lparr>prev_ptr := q\<rparr>)\<rparr>)"
  by (simp add: set_prev_def set_node_def)

lemma free_node_Some [heap_simps]:
  "nodes h a = Some n \<Longrightarrow> free_node h a = Some (h\<lparr>nodes := (nodes h)(a := None)\<rparr>)"
  by (simp add: free_node_def)

lemma first_simps [simp]: "first [] q = q" "first (x # xs) q = Some x"
  by (simp_all add: first_def)

lemma first_append: "first (xs @ ys) q = first xs (first ys q)"
  by (cases xs) simp_all

lemma final_append [simp]: "final p (xs @ ys) = final (final p xs) ys"
  by (induction xs arbitrary: p) simp_all

lemma dseg_Cons:
  "dseg m p (x # xs) q \<longleftrightarrow>
     (\<exists>n. m x = Some n \<and> prev_ptr n = p \<and> next_ptr n = first xs q) \<and> dseg m (Some x) xs q"
  by (auto simp: first_def)

lemma dseg_append: "dseg m p (xs @ ys) q \<longleftrightarrow> dseg m p xs (first ys q) \<and> dseg m (final p xs) ys q"
proof (induction xs arbitrary: p)
  case (Cons x xs)
  then show ?case by (auto simp: dseg_Cons first_append simp del: dseg.simps(2))
qed simp

lemma dseg_cong: "(\<And>x. x \<in> set xs \<Longrightarrow> m' x = m x) \<Longrightarrow> dseg m' p xs q = dseg m p xs q"
  by (induction xs arbitrary: p) (simp_all add: dseg_Cons del: dseg.simps(2))

lemma dseg_allocated: "dseg m p xs q \<Longrightarrow> x \<in> set xs \<Longrightarrow> m x \<noteq> None"
  by (induction xs arbitrary: p) (auto simp: dseg_Cons simp del: dseg.simps(2))

lemma dll_len_0: "dll h l xs \<Longrightarrow> list_len l = 0 \<longleftrightarrow> xs = []"
  by (auto simp: dll_def word_unat_eq_iff)

lemma dll_split_last:
  assumes "dll h l (ys @ [b])"
  obtains n where "nodes h b = Some n" "prev_ptr n = final None ys" "next_ptr n = None"
    "dseg (nodes h) None ys (Some b)" "b \<notin> set ys" "tail_ptr l = Some b"
  using assms that by (auto simp: dll_def dseg_append)

lemma unat_len_Suc:
  assumes "unat (w :: u32) = n" "Suc n < 2 ^ 32"
  shows "unat (w + 1) = Suc n"
  using assms by (simp add: unat_word_ariths)

lemma unat_len_pred: "unat (w :: u32) = Suc n \<Longrightarrow> unat (w - 1) = n"
  by (subst unat_minus_one) auto

lemma dll_map_cong: "nodes h' = nodes h \<Longrightarrow> dll h' l xs = dll h l xs"
  by (simp add: dll_def)

lemma list_rpush_dll:
  assumes d: "dll h l xs" and a: "nodes h a = Some n" "a \<notin> set xs" and len: "Suc (length xs) < 2 ^ 32"
  shows "\<exists>h' l'. list_rpush h l (Some a) = Some (Some a, h', l') \<and> dll h' l' (xs @ [a]) \<and>
     (\<forall>x. map_option node_val (nodes h' x) = map_option node_val (nodes h x)) \<and>
     freed_vals h' = freed_vals h \<and> has_free l' = has_free l \<and> match_fn l' = match_fn l"
proof (cases xs rule: rev_cases)
  case Nil
  then show ?thesis
    using d a len dll_len_0 [OF d]
    by (auto simp: list_rpush_def heap_simps dll_def unat_len_Suc)
next
  case (snoc ys b)
  obtain nb where b: "nodes h b = Some nb" "prev_ptr nb = final None ys" "next_ptr nb = None"
    "dseg (nodes h) None ys (Some b)" "b \<notin> set ys" "tail_ptr l = Some b"
    using d snoc dll_split_last by blast
  have ab: "a \<noteq> b" "a \<notin> set ys" using a(2) snoc by auto
  let ?m = "(nodes h)(a \<mapsto> n\<lparr>prev_ptr := Some b, next_ptr := None\<rparr>, b \<mapsto> nb\<lparr>next_ptr := Some a\<rparr>)"
  have push: "list_rpush h l (Some a) = Some (Some a, h\<lparr>nodes := ?m\<rparr>, l\<lparr>tail_ptr := Some a, list_len := list_len l + 1\<rparr>)"
    using a b ab dll_len_0 [OF d] snoc by (simp add: list_rpush_def heap_simps)
  have "dseg ?m None ys (Some b) = dseg (nodes h) None ys (Some b)"
    using b(5) ab(2) by (intro dseg_cong) auto
  then have "dseg ?m None (ys @ [b, a]) None" using b ab by (simp add: dseg_append)
  then have "dll (h\<lparr>nodes := ?m\<rparr>) (l\<lparr>tail_ptr := Some a, list_len := list_len l + 1\<rparr>) (xs @ [a])"
    using d snoc a(2) len by (auto simp: dll_def unat_len_Suc first_append)
  with push show ?thesis using a(1) b(1) ab(1) by auto
qed

lemma list_lpush_dll:
  assumes d: "dll h l xs" and a: "nodes h a = Some n" "a \<notin> set xs" and len: "Suc (length xs) < 2 ^ 32"
  shows "\<exists>h' l'. list_lpush h l (Some a) = Some (Some a, h', l') \<and> dll h' l' (a # xs) \<and>
     (\<forall>x. map_option node_val (nodes h' x) = map_option node_val (nodes h x)) \<and>
     freed_vals h' = freed_vals h \<and> has_free l' = has_free l \<and> match_fn l' = match_fn l"
proof (cases xs)
  case Nil
  then show ?thesis
    using d a len dll_len_0 [OF d]
    by (auto simp: list_lpush_def heap_simps dll_def unat_len_Suc)
next
  case (Cons b ys)
  obtain nb where b: "nodes h b = Some nb" "prev_ptr nb = None" "next_ptr nb = first ys None"
    "dseg (nodes h) (Some b) ys None" "b \<notin> set ys" "head_ptr l = Some b"
    using d Cons by (auto simp: dll_def dseg_Cons simp del: dseg.simps(2))
  have ab: "a \<noteq> b" "a \<notin> set ys" using a(2) Cons by auto
  let ?m = "(nodes h)(a \<mapsto> n\<lparr>next_ptr := Some b, prev_ptr := None\<rparr>, b \<mapsto> nb\<lparr>prev_ptr := Some a\<rparr>)"
  have push: "list_lpush h l (Some a) = Some (Some a, h\<lparr>nodes := ?m\<rparr>, l\<lparr>head_ptr := Some a, list_len := list_len l + 1\<rparr>)"
    using a b ab dll_len_0 [OF d] Cons by (simp add: list_lpush_def heap_simps)
  have "dseg ?m (Some b) ys None = dseg (nodes h) (Some b) ys None"
    using b(5) ab(2) by (intro dseg_cong) auto
  then have "dseg ?m None (a # b # ys) None" using b ab by (simp add: dseg_Cons del: dseg.simps(2))
  then have "dll (h\<lparr>nodes := ?m\<rparr>) (l\<lparr>head_ptr := Some a, list_len := list_len l + 1\<rparr>) (a # xs)"
    using d Cons a(2) len by (auto simp: dll_def unat_len_Suc)
  with push show ?thesis using a(1) b(1) ab(1) by auto
qed

lemma dll_len_pred: "dll h l xs \<Longrightarrow> xs \<noteq> [] \<Longrightarrow> unat (list_len l - 1) = length xs - 1"
  by (cases xs) (auto simp: dll_def intro: unat_len_pred)

lemma list_rpop_dll:
  assumes d: "dll h l (ys @ [a])"
  shows "\<exists>h' l'. list_rpop h l = Some (Some a, h', l') \<and> dll h' l' ys \<and> nodes h' a \<noteq> None \<and>
     (\<forall>x. map_option node_val (nodes h' x) = map_option node_val (nodes h x)) \<and> freed_vals h' = freed_vals h"
proof -
  obtain n where a: "nodes h a = Some n" "prev_ptr n = final None ys" "next_ptr n = None"
    "dseg (nodes h) None ys (Some a)" "a \<notin> set ys" "tail_ptr l = Some a"
    using d dll_split_last by blast
  have len: "unat (list_len l - 1) = length ys" "list_len l \<noteq> 0"
    using dll_len_pred [OF d] dll_len_0 [OF d] by simp_all
  show ?thesis
  proof (cases ys rule: rev_cases)
    case Nil
    then show ?thesis using a len d by (auto simp: list_rpop_def heap_simps dll_def word_unat_eq_iff)
  next
    case (snoc zs b)
    obtain nb where b: "nodes h b = Some nb" "prev_ptr nb = final None zs" "b \<notin> set zs"
      "dseg (nodes h) None zs (Some b)"
      using a(4) d snoc by (auto simp: dseg_append dll_def)
    have ab: "a \<noteq> b" "a \<notin> set zs" using a(5) snoc by auto
    let ?m = "(nodes h)(b \<mapsto> nb\<lparr>next_ptr := None\<rparr>, a \<mapsto> n\<lparr>prev_ptr := None, next_ptr := None\<rparr>)"
    have "list_len l - 1 \<noteq> 0" using len(1) snoc by (auto simp: word_unat_eq_iff)
    then have pop: "list_rpop h l = Some (Some a, h\<lparr>nodes := ?m\<rparr>, l\<lparr>list_len := list_len l - 1, tail_ptr := Some b\<rparr>)"
      using a b ab snoc len(2) by (simp add: list_rpop_def heap_simps)
    have "dseg ?m None zs (Some b) = dseg (nodes h) None zs (Some b)"
      using b(3) ab(2) by (intro dseg_cong) auto
    then have "dseg ?m None (zs @ [b]) None" using b ab by (simp add: dseg_append)
    then have "dll (h\<lparr>nodes := ?m\<rparr>) (l\<lparr>list_len := list_len l - 1, tail_ptr := Some b\<rparr>) ys"
      using d snoc len by (auto simp: dll_def first_append)
    with pop show ?thesis using a(1) b(1) ab(1) by auto
  qed
qed

lemma list_lpop_dll:
  assumes d: "dll h l (a # ys)"
  shows "\<exists>h' l'. list_lpop h l = Some (Some a, h', l') \<and> dll h' l' ys \<and> nodes h' a \<noteq> None \<and>
     (\<forall>x. map_option node_val (nodes h' x) = map_option node_val (nodes h x)) \<and> freed_vals h' = freed_vals h"
proof -
  obtain n where a: "nodes h a = Some n" "prev_ptr n = None" "next_ptr n = first ys None"
    "dseg (nodes h) (Some a) ys None" "a \<notin> set ys" "head_ptr l = Some a"
    using d by (auto simp: dll_def dseg_Cons simp del: dseg.simps(2))
  have len: "unat (list_len l - 1) = length ys" "list_len l \<noteq> 0"
    using dll_len_pred [OF d] dll_len_0 [OF d] by simp_all
  show ?thesis
  proof (cases ys)
    case Nil
    then show ?thesis using a len d by (auto simp: list_lpop_def heap_simps dll_def word_unat_eq_iff)
  next
    case (Cons b zs)
    obtain nb where b: "nodes h b = Some nb" "next_ptr nb = first zs None" "b \<notin> set zs"
      "dseg (nodes h) (Some b) zs None"
      using a(4) d Cons by (auto simp: dseg_Cons dll_def simp del: dseg.simps(2))
    have ab: "a \<noteq> b" "a \<notin> set zs" using a(5) Cons by auto
    let ?m = "(nodes h)(b \<mapsto> nb\<lparr>prev_ptr := None\<rparr>, a \<mapsto> n\<lparr>prev_ptr := None, next_ptr := None\<rparr>)"
    have "list_len l - 1 \<noteq> 0" using len(1) Cons by (auto simp: word_unat_eq_iff)
    then have pop: "list_lpop h l = Some (Some a, h\<lparr>nodes := ?m\<rparr>, l\<lparr>list_len := list_len l - 1, head_ptr := Some b\<rparr>)"
      using a b ab Cons len(2) by (simp add: list_lpop_def heap_simps)
    have "dseg ?m (Some b) zs None = dseg (nodes h) (Some b) zs None"
      using b(3) ab(2) by (intro dseg_cong) auto
    then have "dseg ?m None (b # zs) None" using b ab by (simp add: dseg_Cons del: dseg.simps(2))
    then have "dll (h\<lparr>nodes := ?m\<rparr>) (l\<lparr>list_len := list_len l - 1, head_ptr := Some b\<rparr>) ys"
      using d Cons len by (auto simp: dll_def)
    with pop show ?thesis using a(1) b(1) ab(1) by auto
  qed
qed

text \<open>Unlinking a node in the middle: its two neighbours are joined.\<close>

definition unlink_map :: "(addr \<Rightarrow> 'v ListNode option) \<Rightarrow> addr \<Rightarrow> addr option \<Rightarrow> addr option \<Rightarrow> (addr \<Rightarrow> 'v ListNode option)" where
  "unlink_map m a p q =
     (let m = (case p of None \<Rightarrow> m | Some b \<Rightarrow> m(b := map_option (\<lambda>n. n\<lparr>next_ptr := q\<rparr>) (m b)));
          m = (case q of None \<Rightarrow> m | Some c \<Rightarrow> m(c := map_option (\<lambda>n. n\<lparr>prev_ptr := p\<rparr>) (m c)))
      in m(a := None))"

lemma final_None_iff: "final None ys = None \<longleftrightarrow> ys = []"
proof -
  have "final (Some x) zs \<noteq> None" for x and zs :: "addr list"
    by (induction zs arbitrary: x) auto
  then show ?thesis by (cases ys) auto
qed

lemma final_in_set: "final None ys = Some b \<Longrightarrow> b \<in> set ys"
  by (cases ys rule: rev_cases) auto

lemma first_in_set: "first zs None = Some c \<Longrightarrow> c \<in> set zs"
  by (cases zs) auto

lemma dseg_before_unlink:
  assumes "dseg m None ys (Some a)" "distinct ys" "a \<notin> set ys" "q \<notin> Some ` set ys" "p = final None ys"
  shows "dseg (unlink_map m a p q) None ys q"
proof (cases ys rule: rev_cases)
  case (snoc zs b)
  have "dseg (unlink_map m a p q) None zs (Some b) = dseg m None zs (Some b)"
    using assms snoc by (intro dseg_cong) (auto simp: unlink_map_def Let_def split: option.splits)
  then show ?thesis
    using assms snoc by (auto simp: dseg_append unlink_map_def Let_def split: option.splits)
qed simp

lemma dseg_after_unlink:
  assumes "dseg m (Some a) zs None" "distinct zs" "a \<notin> set zs" "p \<notin> Some ` set zs" "q = first zs None"
  shows "dseg (unlink_map m a p q) p zs None"
proof (cases zs)
  case (Cons c ws)
  have "dseg (unlink_map m a p q) (Some c) ws None = dseg m (Some c) ws None"
    using assms Cons by (intro dseg_cong) (auto simp: unlink_map_def Let_def split: option.splits)
  then show ?thesis
    using assms Cons by (auto simp: dseg_Cons unlink_map_def Let_def split: option.splits simp del: dseg.simps(2))
qed simp

lemma list_remove_dll:
  assumes d: "dll h l (ys @ a # zs)"
  shows "\<exists>n h' l'. nodes h a = Some n \<and> list_remove h l a = Some (h', l') \<and> dll h' l' (ys @ zs) \<and> nodes h' a = None \<and>
     (\<forall>x. x \<noteq> a \<longrightarrow> map_option node_val (nodes h' x) = map_option node_val (nodes h x)) \<and>
     freed_vals h' = freed_vals h @ (if has_free l then [node_val n] else []) \<and>
     has_free l' = has_free l \<and> match_fn l' = match_fn l"
proof -
  let ?p = "final None ys" and ?q = "first zs None"
  obtain n where a: "nodes h a = Some n" "prev_ptr n = ?p" "next_ptr n = ?q"
    and seg: "dseg (nodes h) None ys (Some a)" "dseg (nodes h) (Some a) zs None"
    using d by (auto simp: dll_def dseg_append dseg_Cons simp del: dseg.simps(2))
  have dist: "distinct ys" "distinct zs" "a \<notin> set ys" "a \<notin> set zs" "set ys \<inter> set zs = {}"
    using d by (auto simp: dll_def)
  let ?h = "\<lparr>nodes = unlink_map (nodes h) a ?p ?q,
             freed_vals = freed_vals h @ (if has_free l then [node_val n] else [])\<rparr>"
  let ?l = "l\<lparr>head_ptr := first (ys @ zs) None, tail_ptr := final None (ys @ zs), list_len := list_len l - 1\<rparr>"
  have len: "list_len l \<noteq> 0" "unat (list_len l - 1) = length (ys @ zs)"
    using dll_len_0 [OF d] dll_len_pred [OF d] by simp_all
  have pq: "?q \<notin> Some ` set ys" "?p \<notin> Some ` set zs"
    using dist(5) first_in_set [of zs] final_in_set [of ys] by fastforce+
  have nb: "\<exists>m. nodes h b = Some m" if "b \<in> set ys \<or> b \<in> set zs" for b
    using that dseg_allocated [OF seg(1)] dseg_allocated [OF seg(2)] by auto
  define f where "f b = the (nodes h b)" for b
  have f: "nodes h b = Some (f b)" if "b \<in> set ys \<or> b \<in> set zs" for b
    using nb [OF that] by (auto simp: f_def)
  have rem: "list_remove h l a = Some (?h, ?l)"
  proof -
    have ends: "head_ptr l = first ys (Some a)" "tail_ptr l = final (Some a) zs"
      using d by (simp_all add: dll_def first_append)
    show ?thesis
      using a dist len(1) f ends
      by (cases ys rule: rev_cases; cases zs; cases l; cases h)
         (auto simp: list_remove_def heap_simps unlink_map_def Let_def first_append fun_eq_iff)
  qed
  have "dseg (nodes ?h) None (ys @ zs) None"
    unfolding dseg_append list_heap.simps
    using dseg_before_unlink [OF seg(1) dist(1,3) pq(1)] dseg_after_unlink [OF seg(2) dist(2,4) pq(2)] by simp
  then have "dll ?h ?l (ys @ zs)" using d len by (simp add: dll_def)
  moreover have "map_option node_val (nodes ?h x) = map_option node_val (nodes h x)" if "x \<noteq> a" for x
    using that by (auto simp: unlink_map_def Let_def option.map_comp comp_def split: option.splits)
  moreover have "nodes ?h a = None" by (simp add: unlink_map_def Let_def)
  ultimately show ?thesis using a(1) rem by auto
qed

section \<open>Iteration\<close>

text \<open>\<open>walk h d p xs\<close>: an iterator at \<open>p\<close> with direction \<open>d\<close> visits \<open>xs\<close> and then ends.\<close>

fun walk :: "'v list_heap \<Rightarrow> ListDirection \<Rightarrow> addr option \<Rightarrow> addr list \<Rightarrow> bool" where
  "walk h d p [] = (p = None)"
| "walk h d p (x # xs) =
     (p = Some x \<and> (\<exists>n. nodes h x = Some n \<and> walk h d (if d = LIST_HEAD then next_ptr n else prev_ptr n) xs))"

lemma walk_forward: "dseg (nodes h) p xs None \<Longrightarrow> walk h LIST_HEAD (first xs None) xs"
  by (induction xs arbitrary: p) (auto simp: dseg_Cons simp del: dseg.simps(2))

lemma walk_backward: "dseg (nodes h) None xs q \<Longrightarrow> walk h LIST_TAIL (final None xs) (rev xs)"
  by (induction xs arbitrary: q rule: rev_induct) (auto simp: dseg_append)

lemma dll_walk:
  assumes "dll h l xs"
  shows "walk h LIST_HEAD (head_ptr l) xs" "walk h LIST_TAIL (tail_ptr l) (rev xs)"
  using assms walk_forward [of h None xs] walk_backward [of h xs None] by (auto simp: dll_def)

lemma list_iterator_next_walk:
  assumes "walk h (it_direction it) (it_next it) (x # xs)"
  shows "\<exists>it'. list_iterator_next h it = Some (Some x, it') \<and> it_direction it' = it_direction it \<and>
    walk h (it_direction it') (it_next it') xs"
  using assms by (auto simp: list_iterator_next_def)

definition value_at :: "'v list_heap \<Rightarrow> addr \<Rightarrow> 'v" where
  "value_at h a = node_val (the (nodes h a))"

definition list_matches :: "('v \<Rightarrow> 'v \<Rightarrow> bool) option \<Rightarrow> 'v \<Rightarrow> 'v \<Rightarrow> bool" where
  "list_matches m v w = (case m of Some f \<Rightarrow> f v w | None \<Rightarrow> v = w)"

lemma list_find_loop_walk:
  "walk h (it_direction it) (it_next it) xs \<Longrightarrow>
     list_find_loop h m v it = Some (find (\<lambda>a. list_matches m v (value_at h a)) xs)"
proof (induction xs arbitrary: it)
  case Nil
  then show ?case by (subst list_find_loop.simps) (simp add: list_iterator_next_def)
next
  case (Cons x xs)
  obtain it' where it': "list_iterator_next h it = Some (Some x, it')" "walk h (it_direction it') (it_next it') xs"
    using list_iterator_next_walk [OF Cons.prems] by auto
  obtain n where n: "nodes h x = Some n" using Cons.prems by auto
  show ?case
    using Cons.IH [OF it'(2)] it'(1) n
    by (subst list_find_loop.simps) (auto simp: list_matches_def value_at_def split: option.splits)
qed

lemma list_at_loop_walk:
  "walk h (it_direction it) (it_next it) xs \<Longrightarrow> k \<le> length xs \<Longrightarrow> node = Some x \<Longrightarrow>
     list_at_loop k h it node = Some (Some ((x # xs) ! k))"
proof (induction k arbitrary: it xs node x)
  case (Suc k)
  obtain y ys where xs: "xs = y # ys" using Suc.prems(2) by (cases xs) auto
  obtain it' where it': "list_iterator_next h it = Some (Some y, it')" "walk h (it_direction it') (it_next it') ys"
    using list_iterator_next_walk Suc.prems(1) xs by blast
  show ?case using Suc.IH [OF it'(2), of "Some y" y] it'(1) Suc.prems xs by simp
qed simp

lemma list_destroy_loop_walk:
  "walk h LIST_HEAD p xs \<Longrightarrow> distinct xs \<Longrightarrow>
     \<exists>h'. list_destroy_loop (length xs) fr h p = Some h' \<and>
       nodes h' = (\<lambda>x. if x \<in> set xs then None else nodes h x) \<and>
       freed_vals h' = freed_vals h @ (if fr then map (value_at h) xs else [])"
proof (induction xs arbitrary: h p)
  case (Cons x xs)
  obtain n where n: "p = Some x" "nodes h x = Some n" "walk h LIST_HEAD (next_ptr n) xs"
    using Cons.prems(1) by auto
  let ?h = "\<lparr>nodes = (nodes h)(x := None), freed_vals = freed_vals h @ (if fr then [node_val n] else [])\<rparr>"
  have w: "walk g LIST_HEAD q ys \<Longrightarrow> x \<notin> set ys \<Longrightarrow> (\<And>y. y \<noteq> x \<Longrightarrow> nodes g' y = nodes g y) \<Longrightarrow>
      walk g' LIST_HEAD q ys" for g g' :: "'a list_heap" and q ys
    by (induction ys arbitrary: q) auto
  have "walk ?h LIST_HEAD (next_ptr n) xs" using Cons.prems(2) by (intro w [OF n(3)]) auto
  then obtain h' where h': "list_destroy_loop (length xs) fr ?h (next_ptr n) = Some h'"
      "nodes h' = (\<lambda>y. if y \<in> set xs then None else nodes ?h y)"
      "freed_vals h' = freed_vals ?h @ (if fr then map (value_at ?h) xs else [])"
    using Cons.IH [of ?h "next_ptr n"] Cons.prems(2) by auto
  have "list_destroy_loop (length (x # xs)) fr h p = list_destroy_loop (length xs) fr ?h (next_ptr n)"
    using n by (cases h) (simp add: heap_simps)
  moreover have "map (value_at ?h) xs = map (value_at h) xs"
    using Cons.prems(2) by (auto simp: value_at_def)
  ultimately show ?case using h' n by (auto simp: value_at_def fun_eq_iff)
qed auto

section \<open>The interface of the pending lists\<close>

text \<open>
  What the clients use the list for: nodes are appended, visited, and taken out in any order. The
  laws are those of a list of nodes; they give the removal of any set of expired nodes.
\<close>

locale node_list =
  fixes rep :: "'s \<Rightarrow> addr list \<Rightarrow> bool"
    and fresh :: "'s \<Rightarrow> addr \<Rightarrow> bool"
    and content :: "'s \<Rightarrow> addr \<Rightarrow> 'v option"
    and append_node :: "'s \<Rightarrow> addr \<Rightarrow> 's option"
    and remove_node :: "'s \<Rightarrow> addr \<Rightarrow> 's option"
  assumes append_law: "rep s xs \<Longrightarrow> fresh s a \<Longrightarrow> a \<notin> set xs \<Longrightarrow> Suc (length xs) < 2 ^ 32 \<Longrightarrow>
      \<exists>s'. append_node s a = Some s' \<and> rep s' (xs @ [a]) \<and> (\<forall>x. content s' x = content s x)"
    and remove_law: "rep s (ys @ a # zs) \<Longrightarrow>
      \<exists>s'. remove_node s a = Some s' \<and> rep s' (ys @ zs) \<and> (\<forall>x. x \<noteq> a \<longrightarrow> content s' x = content s x)"
    and rep_distinct: "rep s xs \<Longrightarrow> distinct xs"
begin

lemma remove_member:
  assumes "rep s xs" "a \<in> set xs"
  shows "\<exists>s'. remove_node s a = Some s' \<and> rep s' (remove1 a xs) \<and> (\<forall>x. x \<noteq> a \<longrightarrow> content s' x = content s x)"
proof -
  obtain ys zs where xs: "xs = ys @ a # zs" "a \<notin> set ys" using assms(2) by (meson split_list_first)
  then show ?thesis using remove_law assms(1) by (simp add: remove1_append)
qed

lemma remove_many:
  assumes "rep s xs" "distinct as" "set as \<subseteq> set xs"
  shows "\<exists>s'. fold (\<lambda>a r. r \<bind> (\<lambda>s. remove_node s a)) as (Some s) = Some s' \<and>
     rep s' (filter (\<lambda>x. x \<notin> set as) xs) \<and> (\<forall>x. x \<notin> set as \<longrightarrow> content s' x = content s x)"
  using assms
proof (induction as arbitrary: s xs)
  case Nil
  then show ?case by simp
next
  case (Cons a as)
  obtain s1 where s1: "remove_node s a = Some s1" "rep s1 (remove1 a xs)" "\<forall>x. x \<noteq> a \<longrightarrow> content s1 x = content s x"
    using remove_member [of s xs a] Cons.prems by auto
  have "distinct xs" using Cons.prems(1) by (rule rep_distinct)
  then have sub: "set as \<subseteq> set (remove1 a xs)" using Cons.prems(2,3) by auto
  obtain s' where "fold (\<lambda>a r. r \<bind> (\<lambda>s. remove_node s a)) as (Some s1) = Some s'"
      "rep s' (filter (\<lambda>x. x \<notin> set as) (remove1 a xs))" "\<forall>x. x \<notin> set as \<longrightarrow> content s' x = content s1 x"
    using Cons.IH [OF s1(2) _ sub] Cons.prems(2) by auto
  moreover have "filter (\<lambda>x. x \<notin> set as) (remove1 a xs) = filter (\<lambda>x. x \<notin> set (a # as)) xs"
    using \<open>distinct xs\<close> by (simp add: distinct_remove1_removeAll removeAll_filter_not_eq) (metis (mono_tags))
  ultimately show ?case using s1 by auto
qed

lemma append_remove:
  assumes "rep s xs" "fresh s a" "a \<notin> set xs" "Suc (length xs) < 2 ^ 32" "append_node s a = Some s'"
  shows "\<exists>s''. remove_node s' a = Some s'' \<and> rep s'' xs"
  using append_law [OF assms(1-4)] assms(5) remove_law [of s' xs a "[]"] by auto

end

text \<open>The C list and its heap as a provider.\<close>

type_synonym 'v list_state = "'v list_heap \<times> 'v dlist"

definition state_rep :: "'v list_state \<Rightarrow> addr list \<Rightarrow> bool" where
  "state_rep s xs = dll (fst s) (snd s) xs"

definition state_content :: "'v list_state \<Rightarrow> addr \<Rightarrow> 'v option" where
  "state_content s a = map_option node_val (nodes (fst s) a)"

definition append_node :: "'v list_state \<Rightarrow> addr \<Rightarrow> 'v list_state option" where
  "append_node s a = map_option snd (list_rpush (fst s) (snd s) (Some a))"

definition remove_node :: "'v list_state \<Rightarrow> addr \<Rightarrow> 'v list_state option" where
  "remove_node s a = list_remove (fst s) (snd s) a"

interpretation clist: node_list state_rep "\<lambda>s a. state_content s a \<noteq> None" state_content append_node remove_node
proof
  fix s :: "'v list_state" and xs a
  assume "state_rep s xs" "state_content s a \<noteq> None" "a \<notin> set xs" "Suc (length xs) < 2 ^ 32"
  then show "\<exists>s'. append_node s a = Some s' \<and> state_rep s' (xs @ [a]) \<and>
      (\<forall>x. state_content s' x = state_content s x)"
    using list_rpush_dll [of "fst s" "snd s" xs a]
    by (fastforce simp: state_rep_def state_content_def append_node_def)
next
  fix s :: "'v list_state" and ys a zs
  assume "state_rep s (ys @ a # zs)"
  then show "\<exists>s'. remove_node s a = Some s' \<and> state_rep s' (ys @ zs) \<and>
      (\<forall>x. x \<noteq> a \<longrightarrow> state_content s' x = state_content s x)"
    using list_remove_dll [of "fst s" "snd s" ys a zs]
    by (fastforce simp: state_rep_def state_content_def remove_node_def)
next
  fix s :: "'v list_state" and xs
  assume "state_rep s xs"
  then show "distinct xs" by (simp add: state_rep_def dll_def)
qed

section \<open>Sequences of operations\<close>

datatype list_op = RPush addr | LPush addr | RPop | LPop | Remove addr

fun list_step :: "'v list_state \<Rightarrow> list_op \<Rightarrow> (addr option \<times> 'v list_state) option" where
  "list_step s (RPush a) = list_rpush (fst s) (snd s) (Some a)"
| "list_step s (LPush a) = list_lpush (fst s) (snd s) (Some a)"
| "list_step s RPop = list_rpop (fst s) (snd s)"
| "list_step s LPop = list_lpop (fst s) (snd s)"
| "list_step s (Remove a) = map_option (Pair None) (list_remove (fst s) (snd s) a)"

fun list_run :: "'v list_state \<Rightarrow> list_op list \<Rightarrow> (addr option list \<times> 'v list_state) option" where
  "list_run s [] = Some ([], s)"
| "list_run s (op # ops) = do {
     (r, s) \<leftarrow> list_step s op;
     (rs, s) \<leftarrow> list_run s ops;
     Some (r # rs, s) }"

fun spec_step :: "addr list \<Rightarrow> list_op \<Rightarrow> addr option \<times> addr list" where
  "spec_step xs (RPush a) = (Some a, xs @ [a])"
| "spec_step xs (LPush a) = (Some a, a # xs)"
| "spec_step xs RPop = (if xs = [] then (None, []) else (Some (last xs), butlast xs))"
| "spec_step xs LPop = (if xs = [] then (None, []) else (Some (hd xs), tl xs))"
| "spec_step xs (Remove a) = (None, remove1 a xs)"

fun spec_run :: "addr list \<Rightarrow> list_op list \<Rightarrow> addr option list \<times> addr list" where
  "spec_run xs [] = ([], xs)"
| "spec_run xs (op # ops) = (let (r, xs) = spec_step xs op; (rs, xs) = spec_run xs ops in (r # rs, xs))"

text \<open>A node is pushed only while it is allocated and not in the list, and removed only while it is in;
  removing frees it.\<close>

fun op_ok :: "addr set \<Rightarrow> addr list \<Rightarrow> list_op \<Rightarrow> bool" where
  "op_ok live xs (RPush a) = (a \<in> live \<and> a \<notin> set xs)"
| "op_ok live xs (LPush a) = (a \<in> live \<and> a \<notin> set xs)"
| "op_ok live xs RPop = True"
| "op_ok live xs LPop = True"
| "op_ok live xs (Remove a) = (a \<in> set xs)"

fun live_after :: "addr set \<Rightarrow> list_op \<Rightarrow> addr set" where
  "live_after live (Remove a) = live - {a}"
| "live_after live op = live"

fun ops_ok :: "addr set \<Rightarrow> addr list \<Rightarrow> list_op list \<Rightarrow> bool" where
  "ops_ok live xs [] = True"
| "ops_ok live xs (op # ops) = (op_ok live xs op \<and> ops_ok (live_after live op) (snd (spec_step xs op)) ops)"

definition allocated :: "'v list_state \<Rightarrow> addr set" where
  "allocated s = dom (nodes (fst s))"

lemma allocatedI:
  assumes "\<And>x. map_option node_val (nodes (fst s') x) = map_option node_val (nodes (fst s) x)"
  shows "allocated s' = allocated s"
proof -
  have "nodes (fst s') x = None \<longleftrightarrow> nodes (fst s) x = None" for x
    using assms [of x] by (metis option.map_disc_iff)
  then show ?thesis by (auto simp: allocated_def dom_def)
qed

lemma allocated_minus:
  assumes "\<And>x. x \<noteq> a \<Longrightarrow> map_option node_val (nodes (fst s') x) = map_option node_val (nodes (fst s) x)"
  shows "allocated s - {a} \<subseteq> allocated s'"
proof
  fix x
  assume "x \<in> allocated s - {a}"
  then show "x \<in> allocated s'" using assms [of x] by (auto simp: allocated_def)
qed

lemma list_pop_empty:
  assumes "dll h l []"
  shows "list_rpop h l = Some (None, h, l)" "list_lpop h l = Some (None, h, l)"
  using dll_len_0 [OF assms] by (simp_all add: list_rpop_def list_lpop_def)

lemma list_step_refines:
  assumes r: "state_rep s xs" and live: "live \<subseteq> allocated s" and ok: "op_ok live xs op" and len: "Suc (length xs) < 2 ^ 32"
  shows "\<exists>s'. list_step s op = Some (fst (spec_step xs op), s') \<and> state_rep s' (snd (spec_step xs op)) \<and>
    live_after live op \<subseteq> allocated s'"
proof -
  have d: "dll (fst s) (snd s) xs" using r by (simp add: state_rep_def)
  show ?thesis
  proof (cases op)
    case (RPush a)
    then obtain n where n: "nodes (fst s) a = Some n" "a \<notin> set xs" using ok live by (auto simp: allocated_def)
    then obtain h' l' where p: "list_rpush (fst s) (snd s) (Some a) = Some (Some a, h', l')" "dll h' l' (xs @ [a])"
        "\<forall>x. map_option node_val (nodes h' x) = map_option node_val (nodes (fst s) x)"
      using list_rpush_dll [OF d n len] by blast
    then show ?thesis using RPush live allocatedI [of "(h', l')" s] by (simp add: state_rep_def)
  next
    case (LPush a)
    then obtain n where n: "nodes (fst s) a = Some n" "a \<notin> set xs" using ok live by (auto simp: allocated_def)
    then obtain h' l' where p: "list_lpush (fst s) (snd s) (Some a) = Some (Some a, h', l')" "dll h' l' (a # xs)"
        "\<forall>x. map_option node_val (nodes h' x) = map_option node_val (nodes (fst s) x)"
      using list_lpush_dll [OF d n len] by blast
    then show ?thesis using LPush live allocatedI [of "(h', l')" s] by (simp add: state_rep_def)
  next
    case RPop
    show ?thesis
    proof (cases xs rule: rev_cases)
      case Nil
      then show ?thesis using RPop d live list_pop_empty(1) [of "fst s" "snd s"] r by (simp add: state_rep_def)
    next
      case (snoc ys a)
      then obtain h' l' where "list_rpop (fst s) (snd s) = Some (Some a, h', l')" "dll h' l' ys"
          "\<forall>x. map_option node_val (nodes h' x) = map_option node_val (nodes (fst s) x)"
        using list_rpop_dll [of "fst s" "snd s" ys a] d by auto
      then show ?thesis using RPop snoc live allocatedI [of "(h', l')" s] by (simp add: state_rep_def)
    qed
  next
    case LPop
    show ?thesis
    proof (cases xs)
      case Nil
      then show ?thesis using LPop d live list_pop_empty(2) [of "fst s" "snd s"] r by (simp add: state_rep_def)
    next
      case (Cons a ys)
      then obtain h' l' where "list_lpop (fst s) (snd s) = Some (Some a, h', l')" "dll h' l' ys"
          "\<forall>x. map_option node_val (nodes h' x) = map_option node_val (nodes (fst s) x)"
        using list_lpop_dll [of "fst s" "snd s" a ys] d by auto
      then show ?thesis using LPop Cons live allocatedI [of "(h', l')" s] by (simp add: state_rep_def)
    qed
  next
    case (Remove a)
    then obtain s' where "remove_node s a = Some s'" "state_rep s' (remove1 a xs)"
        "\<forall>x. x \<noteq> a \<longrightarrow> state_content s' x = state_content s x"
      using clist.remove_member [OF r, of a] ok by auto
    then show ?thesis
      using Remove live allocated_minus [of a s' s] by (auto simp: remove_node_def state_content_def)
  qed
qed

lemma length_spec_step: "length (snd (spec_step xs op)) \<le> Suc (length xs)"
  by (cases op) (auto simp: length_remove1)

lemma list_run_refines:
  assumes "state_rep s xs" "live \<subseteq> allocated s" "ops_ok live xs ops" "length xs + length ops < 2 ^ 32"
  shows "\<exists>s'. list_run s ops = Some (fst (spec_run xs ops), s') \<and> state_rep s' (snd (spec_run xs ops))"
  using assms
proof (induction ops arbitrary: s xs live)
  case Nil
  then show ?case by simp
next
  case (Cons op ops)
  obtain s1 where s1: "list_step s op = Some (fst (spec_step xs op), s1)" "state_rep s1 (snd (spec_step xs op))"
      "live_after live op \<subseteq> allocated s1"
    using list_step_refines [OF Cons.prems(1,2), of op] Cons.prems(3,4) by auto
  have "length (snd (spec_step xs op)) + length ops < 2 ^ 32"
    using length_spec_step [of xs op] Cons.prems(4) by simp
  then obtain s' where "list_run s1 ops = Some (fst (spec_run (snd (spec_step xs op)) ops), s')"
      "state_rep s' (snd (spec_run (snd (spec_step xs op)) ops))"
    using Cons.IH [OF s1(2,3)] Cons.prems(3) by auto
  then show ?case using s1(1) by (simp add: case_prod_beta)
qed

section \<open>Properties\<close>

text \<open>C33. The pointer list is a list: any sequence of pushes and pops at both ends and of removals of
  inner nodes, on allocated nodes, runs without a wild pointer, returns the nodes a mathematical
  list would return, and leaves a well-linked list of the expected nodes.\<close>

theorem list_ops_refine:
  assumes "dll h l xs" "live \<subseteq> dom (nodes h)" "ops_ok live xs ops" "length xs + length ops < 2 ^ 32"
  shows "\<exists>h' l'. list_run (h, l) ops = Some (fst (spec_run xs ops), h', l') \<and> dll h' l' (snd (spec_run xs ops))"
  using list_run_refines [of "(h, l)" xs live ops] assms by (auto simp: state_rep_def allocated_def)

definition sample_heap :: "nat list_heap" where
  "sample_heap = \<lparr>nodes = (\<lambda>a. if a < 4 then Some \<lparr>prev_ptr = None, next_ptr = None, node_val = 10 * a\<rparr> else None),
                  freed_vals = []\<rparr>"

definition sample_list :: "nat dlist" where
  "sample_list = \<lparr>head_ptr = None, tail_ptr = None, list_len = 0, has_free = True, match_fn = None\<rparr>"

theorem list_ops_refine_witness:
  "\<exists>h' l'. list_run (sample_heap, sample_list) [RPush 1, RPush 2, LPush 3, Remove 1, RPop, LPop] =
       Some ([Some 1, Some 2, Some 3, None, Some 2, Some 3], h', l') \<and> dll h' l' []"
  using list_ops_refine [of sample_heap sample_list "[]" "{1, 2, 3}" "[RPush 1, RPush 2, LPush 3, Remove 1, RPop, LPop]"]
  by (force simp: dll_def sample_heap_def sample_list_def)

text \<open>Searching and indexing: \<open>list_find\<close> always ends and returns the first node whose value matches
  (by the list's own comparison if it has one), and \<open>list_at\<close> returns the node at an index, counted from
  the end for negative indices, and a null pointer out of range.\<close>

theorem list_find_at_correct:
  assumes "dll h l xs" "- (2 ^ 31) \<le> i" "i < 2 ^ 31"
  shows "list_find True h l v = Some (find (\<lambda>a. list_matches (match_fn l) v (value_at h a)) xs) \<and>
    list_at True h l i =
      Some (if 0 \<le> i \<and> nat i < length xs then Some (xs ! nat i)
            else if i < 0 \<and> nat (- i) \<le> length xs then Some (xs ! (length xs - nat (- i))) else None)"
proof
  note w = dll_walk [OF assms(1)]
  have len: "unat (list_len l) = length xs" using assms(1) by (simp add: dll_def)
  show "list_find True h l v = Some (find (\<lambda>a. list_matches (match_fn l) v (value_at h a)) xs)"
    using list_find_loop_walk [of h "\<lparr>it_next = head_ptr l, it_direction = LIST_HEAD\<rparr>"] w(1)
    by (simp add: list_find_def list_iterator_new_def list_iterator_new_from_node_def)
  have at: "(case list_iterator_next h \<lparr>it_next = p, it_direction = d\<rparr> of
      None \<Rightarrow> None | Some (node, it) \<Rightarrow> list_at_loop k h it node) = Some (Some (ys ! k))"
    if wk: "walk h d p ys" and k: "k < length ys" for d p ys k
  proof -
    obtain y zs where ys: "ys = y # zs" using k by (cases ys) auto
    obtain it' where "list_iterator_next h \<lparr>it_next = p, it_direction = d\<rparr> = Some (Some y, it')"
        "walk h (it_direction it') (it_next it') zs"
      using list_iterator_next_walk [of h "\<lparr>it_next = p, it_direction = d\<rparr>" y zs] wk ys by auto
    then show ?thesis using list_at_loop_walk [of h it' zs k "Some y" y] k ys by simp
  qed
  have bind: "(list_iterator_next h it \<bind> (\<lambda>(node, it). list_at_loop k h it node)) =
      (case list_iterator_next h it of None \<Rightarrow> None | Some (node, it) \<Rightarrow> list_at_loop k h it node)" for it k
    by (cases "list_iterator_next h it") auto
  show "list_at True h l i =
      Some (if 0 \<le> i \<and> nat i < length xs then Some (xs ! nat i)
            else if i < 0 \<and> nat (- i) \<le> length xs then Some (xs ! (length xs - nat (- i))) else None)"
  proof (cases "0 \<le> i")
    case True
    then show ?thesis using at [OF w(1), of "nat i"] len
      by (simp add: list_at_def list_iterator_new_def list_iterator_new_from_node_def bind)
  next
    case False
    then have k: "nat (- i - 1) < length xs \<longleftrightarrow> nat (- i) \<le> length xs"
      and idx: "nat (- i) \<le> length xs \<Longrightarrow> rev xs ! nat (- i - 1) = xs ! (length xs - nat (- i))"
      by (auto simp: rev_nth Suc_nat_eq_nat_zadd1)
    show ?thesis using at [OF w(2), of "nat (- i - 1)"] len False k idx
      by (auto simp: list_at_def list_iterator_new_def list_iterator_new_from_node_def bind)
  qed
qed

theorem list_find_at_correct_witness:
  "list_find True sample_heap sample_list 10 = Some None \<and> list_at True sample_heap sample_list (- 1) = Some None"
  using list_find_at_correct [of sample_heap sample_list "[]" "- 1" 10]
  by (simp add: dll_def sample_heap_def sample_list_def)

text \<open>\<open>list_destroy\<close> ends, frees every node of the list exactly once and nothing else, and hands
  every value to the list's \<open>free\<close> callback in list order.\<close>

theorem list_destroy_frees_all:
  assumes "dll h l xs"
  shows "\<exists>h'. list_destroy h l = Some h' \<and> nodes h' = (\<lambda>x. if x \<in> set xs then None else nodes h x) \<and>
     freed_vals h' = freed_vals h @ (if has_free l then map (value_at h) xs else [])"
  using list_destroy_loop_walk [OF dll_walk(1) [OF assms], of "has_free l"] assms
  by (simp add: list_destroy_def dll_def)

theorem list_destroy_frees_all_witness:
  "\<exists>h'. list_destroy \<lparr>nodes = [1 \<mapsto> \<lparr>prev_ptr = None, next_ptr = Some 2, node_val = ''a''\<rparr>,
                              2 \<mapsto> \<lparr>prev_ptr = Some 1, next_ptr = None, node_val = ''b''\<rparr>], freed_vals = []\<rparr>
         \<lparr>head_ptr = Some 1, tail_ptr = Some 2, list_len = 2, has_free = True, match_fn = None\<rparr> = Some h' \<and>
     freed_vals h' = [''a'', ''b'']"
proof -
  let ?h = "\<lparr>nodes = [1 \<mapsto> \<lparr>prev_ptr = None, next_ptr = Some 2, node_val = ''a''\<rparr>,
                     2 \<mapsto> \<lparr>prev_ptr = Some 1, next_ptr = None, node_val = ''b''\<rparr>], freed_vals = []\<rparr>"
  let ?l = "\<lparr>head_ptr = Some 1, tail_ptr = Some 2, list_len = 2, has_free = True, match_fn = None\<rparr>"
  have "dll ?h ?l [1, 2]" by (simp add: dll_def)
  then show ?thesis using list_destroy_frees_all [of ?h ?l "[1, 2]"] by (auto simp: value_at_def)
qed

end
