(* ===== verification/Coap_Codec.thy ===== *)
theory Coap_Codec
  imports Iot_Prelude
begin

text \<open>
  The CoAP message format of \<^verbatim>\<open>sdk_src/protocol/coap\<close>: the message structure and its setters
  (\<^verbatim>\<open>coap_client_common.c\<close>), the serializer (\<^verbatim>\<open>coap_client_serialize.c\<close>) and the deserializer
  (\<^verbatim>\<open>coap_client_deserialize.c\<close>).

  The serializer keeps the space left as a \<open>size_t\<close>, which wraps; the deserializer reads bytes through a
  signed \<^verbatim>\<open>char\<close>. Both matter below. Allocation is a function \<open>A\<close> on the state of the heap that says whether the
  next request is granted.
\<close>

unbundle bit_operations_syntax

section \<open>Messages\<close>

abbreviation COAP_MSG_VER :: u32 where "COAP_MSG_VER \<equiv> 1"
abbreviation COAP_MSG_MAX_TOKEN_LEN :: nat where "COAP_MSG_MAX_TOKEN_LEN \<equiv> 8"
abbreviation COAP_MSG_MAX_CODE_CLASS :: u32 where "COAP_MSG_MAX_CODE_CLASS \<equiv> 7"
abbreviation COAP_MSG_MAX_CODE_DETAIL :: u32 where "COAP_MSG_MAX_CODE_DETAIL \<equiv> 31"
abbreviation COAP_MSG_MAX_MSG_ID :: u32 where "COAP_MSG_MAX_MSG_ID \<equiv> 65535"

abbreviation COAP_MSG_CON :: u32 where "COAP_MSG_CON \<equiv> 0"
abbreviation COAP_MSG_NON :: u32 where "COAP_MSG_NON \<equiv> 1"
abbreviation COAP_MSG_ACK :: u32 where "COAP_MSG_ACK \<equiv> 2"
abbreviation COAP_MSG_RST :: u32 where "COAP_MSG_RST \<equiv> 3"

abbreviation COAP_MSG_REQ :: u32 where "COAP_MSG_REQ \<equiv> 0"
abbreviation COAP_MSG_SUCCESS :: u32 where "COAP_MSG_SUCCESS \<equiv> 2"
abbreviation COAP_MSG_CLIENT_ERR :: u32 where "COAP_MSG_CLIENT_ERR \<equiv> 4"
abbreviation COAP_MSG_SERVER_ERR :: u32 where "COAP_MSG_SERVER_ERR \<equiv> 5"
abbreviation COAP_MSG_SDKINTERNAL_ERR :: u32 where "COAP_MSG_SDKINTERNAL_ERR \<equiv> 6"
abbreviation COAP_MSG_POST :: u32 where "COAP_MSG_POST \<equiv> 2"

abbreviation ENOMEM :: int where "ENOMEM \<equiv> 12"
abbreviation EINVAL :: int where "EINVAL \<equiv> 22"
abbreviation ENOSPC :: int where "ENOSPC \<equiv> 28"

text \<open>\<open>val_len\<close> is the length of the allocated value.\<close>

record CoAPMsgOption =
  option_num :: u16
  option_val :: "byte list"

text \<open>A response callback: the one of the authentication exchange, or a function of the user by its address.\<close>

datatype coap_callback = Auth_Callback | User_Callback nat

record CoAPMessage =
  coap_version :: u32
  coap_type :: u32
  code_class :: u32
  code_detail :: u32
  coap_msg_id :: u16
  pay_load :: "byte list option"
  pay_load_len :: size_t
  coap_token :: "byte list"
  coap_token_len :: u32
  op_list :: "CoAPMsgOption list"
  coap_handler :: "coap_callback option"
  user_context :: nat

definition DEFAULT_COAP_MESSAGE :: CoAPMessage where
  "DEFAULT_COAP_MESSAGE = \<lparr>coap_version = COAP_MSG_VER, coap_type = COAP_MSG_CON, code_class = COAP_MSG_REQ,
     code_detail = COAP_MSG_POST, coap_msg_id = 0, pay_load = None, pay_load_len = 0,
     coap_token = replicate COAP_MSG_MAX_TOKEN_LEN 0, coap_token_len = 0, op_list = [], coap_handler = None, user_context = 0\<rparr>"

text \<open>The structure after \<^verbatim>\<open>memset\<close>; also what \<^verbatim>\<open>coap_message_destroy\<close> leaves behind.\<close>

definition zero_message :: CoAPMessage where
  "zero_message = DEFAULT_COAP_MESSAGE\<lparr>coap_version := 0, code_detail := 0\<rparr>"

definition coap_message_destroy :: "CoAPMessage \<Rightarrow> CoAPMessage" where
  "coap_message_destroy message = zero_message"

section \<open>Building a message\<close>

definition coap_message_type_set :: "u32 \<Rightarrow> CoAPMessage \<Rightarrow> int \<times> CoAPMessage" where
  "coap_message_type_set type message =
     (if type \<noteq> COAP_MSG_CON \<and> type \<noteq> COAP_MSG_NON \<and> type \<noteq> COAP_MSG_ACK \<and> type \<noteq> COAP_MSG_RST
      then (QCLOUD_ERR_INVAL, message) else (QCLOUD_RET_SUCCESS, message\<lparr>coap_type := type\<rparr>))"

definition coap_message_code_set :: "u32 \<Rightarrow> u32 \<Rightarrow> CoAPMessage \<Rightarrow> int \<times> CoAPMessage" where
  "coap_message_code_set class detail message =
     (if class > COAP_MSG_MAX_CODE_CLASS \<or> detail > COAP_MSG_MAX_CODE_DETAIL then (QCLOUD_ERR_INVAL, message)
      else (QCLOUD_RET_SUCCESS, message\<lparr>code_class := class, code_detail := detail\<rparr>))"

definition coap_message_id_set :: "u32 \<Rightarrow> CoAPMessage \<Rightarrow> int \<times> CoAPMessage" where
  "coap_message_id_set msg_id message =
     (if msg_id > COAP_MSG_MAX_MSG_ID then (QCLOUD_ERR_INVAL, message)
      else (QCLOUD_RET_SUCCESS, message\<lparr>coap_msg_id := ucast msg_id\<rparr>))"

definition coap_message_token_set :: "byte list \<Rightarrow> CoAPMessage \<Rightarrow> (int \<times> CoAPMessage) option" where
  "coap_message_token_set bs message =
     (if length bs > COAP_MSG_MAX_TOKEN_LEN then Some (QCLOUD_ERR_INVAL, message)
      else do {
        t \<leftarrow> wr_bytes (coap_token message) 0 bs;
        Some (QCLOUD_RET_SUCCESS, message\<lparr>coap_token := t, coap_token_len := of_nat (length bs)\<rparr>) })"

text \<open>The payload is copied into a block the caller has allocated.\<close>

definition coap_message_payload_set :: "byte list \<Rightarrow> CoAPMessage \<Rightarrow> (int \<times> CoAPMessage) option" where
  "coap_message_payload_set bs message =
     (let message = message\<lparr>pay_load_len := 0\<rparr>
      in if length bs > 0
         then (case pay_load message of
                 None \<Rightarrow> Some (QCLOUD_ERR_FAILURE, message)
               | Some block \<Rightarrow> do {
                   b \<leftarrow> wr_bytes block 0 bs;
                   Some (QCLOUD_RET_SUCCESS, message\<lparr>pay_load := Some b, pay_load_len := of_nat (length bs)\<rparr>) })
         else Some (QCLOUD_RET_SUCCESS, message))"

definition coap_message_callback_set :: "coap_callback option \<Rightarrow> CoAPMessage \<Rightarrow> CoAPMessage" where
  "coap_message_callback_set callback message = message\<lparr>coap_handler := callback\<rparr>"

definition coap_message_context_set :: "nat \<Rightarrow> CoAPMessage \<Rightarrow> CoAPMessage" where
  "coap_message_context_set userContext message = message\<lparr>user_context := userContext\<rparr>"

text \<open>\<^verbatim>\<open>qcloud_iot_coap_option_init\<close>: two allocations; the number is cut to 16 bits.\<close>

definition qcloud_iot_coap_option_init :: "('m \<Rightarrow> bool \<times> 'm) \<Rightarrow> u32 \<Rightarrow> byte list \<Rightarrow> 'm \<Rightarrow> CoAPMsgOption option \<times> 'm" where
  "qcloud_iot_coap_option_init A num v m =
     (let (ok, m) = A m
      in if \<not> ok then (None, m)
         else let (ok, m) = A m
              in (if ok then Some \<lparr>option_num = ucast num, option_val = v\<rparr> else None, m))"

text \<open>The walk of \<^verbatim>\<open>coap_message_option_add\<close> behind the first element: insert before the first later element
  with a greater number, at the end if there is none.\<close>

fun option_insert_after :: "CoAPMsgOption \<Rightarrow> CoAPMsgOption list \<Rightarrow> CoAPMsgOption list" where
  "option_insert_after op (prev # nxt # ops) =
     (if option_num prev \<le> option_num op \<and> option_num op < option_num nxt then prev # op # nxt # ops
      else prev # option_insert_after op (nxt # ops))"
| "option_insert_after op ops = ops @ [op]"

definition coap_message_option_add ::
  "('m \<Rightarrow> bool \<times> 'm) \<Rightarrow> u32 \<Rightarrow> byte list \<Rightarrow> CoAPMessage \<Rightarrow> 'm \<Rightarrow> (int \<times> CoAPMessage) \<times> 'm" where
  "coap_message_option_add A num v message m =
     (case qcloud_iot_coap_option_init A num v m of
        (None, m) \<Rightarrow> ((QCLOUD_ERR_FAILURE, message), m)
      | (Some op, m) \<Rightarrow>
          ((QCLOUD_RET_SUCCESS, message\<lparr>op_list :=
              (case op_list message of
                 [] \<Rightarrow> [op]
               | f # ops \<Rightarrow> if option_num op < option_num f then op # f # ops else option_insert_after op (f # ops))\<rparr>), m))"

section \<open>Serializing\<close>

text \<open>The results are the error code, or the buffer and the position behind what was written.\<close>

type_synonym 'a coap_res = "(int + 'a) option"

definition coap_message_serialize_header :: "CoAPMessage \<Rightarrow> byte list \<Rightarrow> nat \<Rightarrow> size_t \<Rightarrow> (byte list \<times> nat) coap_res" where
  "coap_message_serialize_header message buf p len =
     (if len < 4 then Some (Inl (- ENOSPC))
      else do {
        (b, p) \<leftarrow> emit buf p (ucast (push_bit 6 COAP_MSG_VER OR push_bit 4 (coap_type message AND 3) OR coap_token_len message AND 15));
        (b, p) \<leftarrow> emit b p (ucast (push_bit 5 (code_class message AND 7) OR code_detail message AND 31));
        (b, p) \<leftarrow> emit b p (ucast (drop_bit 8 (coap_msg_id message AND 0xFF00)));
        (b, p) \<leftarrow> emit b p (ucast (coap_msg_id message AND 0x00FF));
        Some (Inr (b, p)) })"

definition coap_message_serialize_token :: "CoAPMessage \<Rightarrow> byte list \<Rightarrow> nat \<Rightarrow> size_t \<Rightarrow> (byte list \<times> nat) coap_res" where
  "coap_message_serialize_token message buf p len =
     (if len < ucast (coap_token_len message) then Some (Inl (- ENOSPC))
      else do {
        t \<leftarrow> rd_bytes (coap_token message) 0 (unat (coap_token_len message));
        (b, p) \<leftarrow> put t buf p;
        Some (Inr (b, p)) })"

text \<open>The nibble and the extension bytes for an option delta or an option length.\<close>

definition option_nibble :: "nat \<Rightarrow> byte" where
  "option_nibble n = (if n \<ge> 269 then 14 else if n \<ge> 13 then 13 else of_nat n)"

definition option_extension :: "nat \<Rightarrow> byte list" where
  "option_extension n =
     (if n \<ge> 269 then [of_nat ((n - 269) div 256 mod 256), of_nat ((n - 269) mod 256)]
      else if n \<ge> 13 then [of_nat (n - 13)] else [])"

text \<open>The size that is tested: the second extension is decided by the option \<^emph>\<open>number\<close>.\<close>

definition option_size :: "u16 \<Rightarrow> CoAPMsgOption \<Rightarrow> nat" where
  "option_size op_delta op =
     1 + (if unat op_delta \<ge> 269 then 2 else if unat op_delta \<ge> 13 then 1 else 0)
       + (if length (option_val op) \<ge> 269 then 2 else if unat (option_num op) \<ge> 13 then 1 else 0)
       + length (option_val op)"

definition coap_msg_format_op :: "CoAPMsgOption \<Rightarrow> u16 \<Rightarrow> byte list \<Rightarrow> nat \<Rightarrow> size_t \<Rightarrow> (byte list \<times> nat) coap_res" where
  "coap_msg_format_op op prev_num buf p len =
     (let op_delta = option_num op - prev_num; val_len = length (option_val op)
      in if option_size op_delta op > unat len then Some (Inl QCLOUD_ERR_COAP_DATA_SIZE)
         else do {
           (b, p) \<leftarrow> emit buf p (push_bit 4 (option_nibble (unat op_delta)) OR option_nibble val_len);
           (b, p) \<leftarrow> put (option_extension (unat op_delta)) b p;
           (b, p) \<leftarrow> put (option_extension val_len) b p;
           (b, p) \<leftarrow> put (option_val op) b p;
           Some (Inr (b, p)) })"

fun coap_message_serialize_options ::
  "CoAPMsgOption list \<Rightarrow> u16 \<Rightarrow> byte list \<Rightarrow> nat \<Rightarrow> size_t \<Rightarrow> (byte list \<times> nat) coap_res" where
  "coap_message_serialize_options [] prev_num buf p len = Some (Inr (buf, p))"
| "coap_message_serialize_options (op # ops) prev_num buf p len = do {
     r \<leftarrow> coap_msg_format_op op prev_num buf p len;
     (case r of
        Inl rc \<Rightarrow> Some (Inl rc)
      | Inr (b, q) \<Rightarrow> coap_message_serialize_options ops (option_num op) b q (len - of_nat (q - p))) }"

definition coap_message_serialize_payload :: "CoAPMessage \<Rightarrow> byte list \<Rightarrow> nat \<Rightarrow> size_t \<Rightarrow> (byte list \<times> nat) coap_res" where
  "coap_message_serialize_payload message buf p len =
     (if pay_load_len message = 0 then Some (Inr (buf, p))
      else if pay_load_len message + 1 > len then Some (Inl (- ENOSPC))
      else do {
        (b, p) \<leftarrow> emit buf p 0xFF;
        block \<leftarrow> pay_load message;
        bs \<leftarrow> rd_bytes block 0 (unat (pay_load_len message));
        (b, p) \<leftarrow> put bs b p;
        Some (Inr (b, p)) })"

text \<open>\<^verbatim>\<open>serialize_coap_message\<close>: every error is reported as \<open>QCLOUD_ERR_COAP_INTERNAL\<close>.\<close>

definition serialize_coap_message :: "CoAPMessage \<Rightarrow> byte list \<Rightarrow> size_t \<Rightarrow> (byte list \<times> nat) coap_res" where
  "serialize_coap_message message buf len = do {
     r \<leftarrow> coap_message_serialize_header message buf 0 len;
     (case r of Inl rc \<Rightarrow> Some (Inl QCLOUD_ERR_COAP_INTERNAL) | Inr (b, p) \<Rightarrow> do {
        r \<leftarrow> coap_message_serialize_token message b p (len - of_nat p);
        (case r of Inl rc \<Rightarrow> Some (Inl QCLOUD_ERR_COAP_INTERNAL) | Inr (b, p) \<Rightarrow> do {
           r \<leftarrow> coap_message_serialize_options (op_list message) 0 b p (len - of_nat p);
           (case r of Inl rc \<Rightarrow> Some (Inl QCLOUD_ERR_COAP_INTERNAL) | Inr (b, p) \<Rightarrow> do {
              r \<leftarrow> coap_message_serialize_payload message b p (len - of_nat p);
              (case r of Inl rc \<Rightarrow> Some (Inl QCLOUD_ERR_COAP_INTERNAL) | Inr (b, p) \<Rightarrow> Some (Inr (b, p))) }) }) }) }"

section \<open>Deserializing\<close>

definition be16 :: "byte \<Rightarrow> byte \<Rightarrow> u16" where
  "be16 a b = push_bit 8 (ucast a) OR ucast b"

definition coap_message_deserialize_header :: "CoAPMessage \<Rightarrow> byte list \<Rightarrow> nat \<Rightarrow> nat \<Rightarrow> (CoAPMessage \<times> nat) coap_res" where
  "coap_message_deserialize_header msg buf p len =
     (if len < 4 then Some (Inl QCLOUD_ERR_COAP_DATA_SIZE)
      else do {
        p0 \<leftarrow> rd buf p; p1 \<leftarrow> rd buf (p + 1); p2 \<leftarrow> rd buf (p + 2); p3 \<leftarrow> rd buf (p + 3);
        let msg = msg\<lparr>coap_version := ucast (drop_bit 6 p0 AND 3)\<rparr>;
        if coap_version msg \<noteq> COAP_MSG_VER then Some (Inl (- EINVAL))
        else let msg = msg\<lparr>coap_type := ucast (drop_bit 4 p0 AND 3), coap_token_len := ucast (p0 AND 15)\<rparr>
        in if unat (coap_token_len msg) > COAP_MSG_MAX_TOKEN_LEN then Some (Inl QCLOUD_ERR_COAP_DATA_SIZE)
        else let msg = msg\<lparr>code_detail := ucast (p1 AND 31), code_class := ucast (drop_bit 5 p1 AND 7)\<rparr>
        in if code_class msg \<noteq> COAP_MSG_REQ \<and> code_class msg \<noteq> COAP_MSG_SUCCESS \<and>
              code_class msg \<noteq> COAP_MSG_CLIENT_ERR \<and> code_class msg \<noteq> COAP_MSG_SERVER_ERR
        then Some (Inl QCLOUD_ERR_COAP_BADMSG)
        else Some (Inr (msg\<lparr>coap_msg_id := be16 p2 p3\<rparr>, p + 4)) })"

definition coap_message_deserialize_token :: "CoAPMessage \<Rightarrow> byte list \<Rightarrow> nat \<Rightarrow> nat \<Rightarrow> (CoAPMessage \<times> nat) coap_res" where
  "coap_message_deserialize_token msg buf p len =
     (if len < unat (coap_token_len msg) then Some (Inl QCLOUD_ERR_COAP_DATA_SIZE)
      else do {
        bs \<leftarrow> rd_bytes buf p (unat (coap_token_len msg));
        t \<leftarrow> wr_bytes (coap_token msg) 0 bs;
        Some (Inr (msg\<lparr>coap_token := t\<rparr>, p + unat (coap_token_len msg))) })"

text \<open>The extension of an option delta or length: the value with the position and the space behind it. The one-byte
  extension is a signed \<^verbatim>\<open>char\<close> added to an \<^verbatim>\<open>unsigned\<close>.\<close>

definition option_field :: "u32 \<Rightarrow> byte list \<Rightarrow> nat \<Rightarrow> nat \<Rightarrow> (u32 \<times> nat \<times> nat) coap_res" where
  "option_field n buf p len =
     (if n = 13
      then if len < 1 then Some (Inl QCLOUD_ERR_COAP_DATA_SIZE)
           else do { c \<leftarrow> rd buf p; Some (Inr (n + scast c, p + 1, len - 1)) }
      else if n = 14
      then if len < 2 then Some (Inl QCLOUD_ERR_COAP_DATA_SIZE)
           else do { a \<leftarrow> rd buf p; b \<leftarrow> rd buf (p + 1); Some (Inr (269 + ucast (be16 a b), p + 2, len - 2)) }
      else Some (Inr (n, p, len)))"

definition coap_msg_op_list_add_last ::
  "('m \<Rightarrow> bool \<times> 'm) \<Rightarrow> u32 \<Rightarrow> byte list \<Rightarrow> CoAPMessage \<Rightarrow> 'm \<Rightarrow> (int + CoAPMessage) \<times> 'm" where
  "coap_msg_op_list_add_last A num v msg m =
     (case qcloud_iot_coap_option_init A num v m of
        (None, m) \<Rightarrow> (Inl QCLOUD_ERR_FAILURE, m)
      | (Some op, m) \<Rightarrow> (Inr (msg\<lparr>op_list := op_list msg @ [op]\<rparr>), m))"

definition coap_message_deserialize_option ::
  "('m \<Rightarrow> bool \<times> 'm) \<Rightarrow> CoAPMessage \<Rightarrow> byte list \<Rightarrow> nat \<Rightarrow> nat \<Rightarrow> 'm \<Rightarrow> ((int + CoAPMessage \<times> nat) \<times> 'm) option" where
  "coap_message_deserialize_option A msg buf p len m =
     (if len < 1 then Some (Inl QCLOUD_ERR_COAP_DATA_SIZE, m)
      else do {
        p0 \<leftarrow> rd buf p;
        let op_delta = ucast (drop_bit 4 p0 AND 15);
        let op_len = ucast (p0 AND 15);
        if op_delta = 15 \<or> op_len = 15 then Some (Inl QCLOUD_ERR_COAP_DATA_SIZE, m)
        else do {
          r \<leftarrow> option_field op_delta buf (p + 1) (len - 1);
          (case r of Inl rc \<Rightarrow> Some (Inl rc, m) | Inr (op_delta, p, len) \<Rightarrow> do {
             r \<leftarrow> option_field op_len buf p len;
             (case r of Inl rc \<Rightarrow> Some (Inl rc, m) | Inr (op_len, p, len) \<Rightarrow>
                if len < unat op_len then Some (Inl QCLOUD_ERR_COAP_DATA_SIZE, m)
                else do {
                  let op_num = (if op_list msg = [] then op_delta else ucast (option_num (last (op_list msg))) + op_delta);
                  v \<leftarrow> rd_bytes buf p (unat op_len);
                  (case coap_msg_op_list_add_last A op_num v msg m of
                     (Inl rc, m) \<Rightarrow> Some (Inl rc, m)
                   | (Inr msg, m) \<Rightarrow> Some (Inr (msg, p + unat op_len), m)) }) }) } })"

lemma option_field_bounds:
  "option_field n buf p len = Some (Inr (v, q, k)) \<Longrightarrow> p \<le> q \<and> q + k = p + len"
  by (auto simp: option_field_def elim!: bind_SomeE split: if_splits)

lemma deserialize_option_bounds:
  "coap_message_deserialize_option A msg buf p len m = Some (Inr (msg', q), m') \<Longrightarrow> p < q \<and> q \<le> p + len"
  by (auto simp: coap_message_deserialize_option_def Let_def elim!: bind_SomeE split: model_splits dest!: option_field_bounds)

text \<open>The loop looks at the byte at \<open>p\<close> before it looks at the length.\<close>

function coap_message_deserialize_options ::
  "('m \<Rightarrow> bool \<times> 'm) \<Rightarrow> CoAPMessage \<Rightarrow> byte list \<Rightarrow> nat \<Rightarrow> nat \<Rightarrow> 'm \<Rightarrow> ((int + CoAPMessage \<times> nat) \<times> 'm) option" where
  "coap_message_deserialize_options A msg buf p len m = do {
     p0 \<leftarrow> rd buf p;
     if p0 = 0xFF \<or> len = 0 then Some (Inr (msg, p), m)
     else (case coap_message_deserialize_option A msg buf p len m of
             None \<Rightarrow> None
           | Some (Inl rc, m) \<Rightarrow> Some (Inl rc, m)
           | Some (Inr (msg, q), m) \<Rightarrow> coap_message_deserialize_options A msg buf q (len - (q - p)) m) }"
  by pat_completeness auto
termination
  by (relation "measure (\<lambda>(A, msg, buf, p, len, m). len)") (auto dest!: deserialize_option_bounds)

declare coap_message_deserialize_options.simps [simp del]

definition coap_message_deserialize_payload ::
  "('m \<Rightarrow> bool \<times> 'm) \<Rightarrow> CoAPMessage \<Rightarrow> byte list \<Rightarrow> nat \<Rightarrow> nat \<Rightarrow> 'm \<Rightarrow> ((int + CoAPMessage \<times> nat) \<times> 'm) option" where
  "coap_message_deserialize_payload A msg buf p len m =
     (if len = 0 then Some (Inr (msg, p), m)
      else do {
        p0 \<leftarrow> rd buf p;
        if p0 \<noteq> 0xFF then Some (Inl QCLOUD_ERR_COAP_DATA_SIZE, m)
        else if len - 1 = 0 then Some (Inl QCLOUD_ERR_COAP_DATA_SIZE, m)
        else let (ok, m) = A m
             in if \<not> ok then Some (Inl (- ENOMEM), m)
                else do {
                  bs \<leftarrow> rd_bytes buf (p + 1) (len - 1);
                  Some (Inr (msg\<lparr>pay_load := Some bs, pay_load_len := of_nat (len - 1)\<rparr>, p + len), m) } })"

definition coap_msg_check :: "CoAPMessage \<Rightarrow> int" where
  "coap_msg_check msg =
     (if code_class msg = 0 \<and> code_detail msg = 0
      then if coap_type msg = COAP_MSG_NON \<or> coap_token_len msg \<noteq> 0 \<or> op_list msg \<noteq> [] \<or> pay_load_len msg \<noteq> 0
           then QCLOUD_ERR_COAP_DATA_SIZE else QCLOUD_RET_SUCCESS
      else if coap_type msg = COAP_MSG_RST then QCLOUD_ERR_COAP_DATA_SIZE else QCLOUD_RET_SUCCESS)"

text \<open>\<^verbatim>\<open>deserialize_coap_message\<close>: a parse error destroys the message.\<close>

definition deserialize_coap_message ::
  "('m \<Rightarrow> bool \<times> 'm) \<Rightarrow> CoAPMessage \<Rightarrow> byte list \<Rightarrow> nat \<Rightarrow> 'm \<Rightarrow> ((int \<times> CoAPMessage) \<times> 'm) option" where
  "deserialize_coap_message A message buf len m =
     (let fail = (QCLOUD_ERR_COAP_INTERNAL, coap_message_destroy message)
      in do {
        r \<leftarrow> coap_message_deserialize_header message buf 0 len;
        (case r of Inl rc \<Rightarrow> Some (fail, m) | Inr (msg, p) \<Rightarrow> do {
           r \<leftarrow> coap_message_deserialize_token msg buf p (len - p);
           (case r of Inl rc \<Rightarrow> Some (fail, m) | Inr (msg, p) \<Rightarrow> do {
              (r, m) \<leftarrow> coap_message_deserialize_options A msg buf p (len - p) m;
              (case r of Inl rc \<Rightarrow> Some (fail, m) | Inr (msg, p) \<Rightarrow> do {
                 (r, m) \<leftarrow> coap_message_deserialize_payload A msg buf p (len - p) m;
                 (case r of Inl rc \<Rightarrow> Some (fail, m) | Inr (msg, p) \<Rightarrow> Some ((coap_msg_check msg, msg), m)) }) }) }) })"

section \<open>The wire format\<close>

definition option_bytes :: "u16 \<Rightarrow> CoAPMsgOption \<Rightarrow> byte list" where
  "option_bytes op_delta op =
     (push_bit 4 (option_nibble (unat op_delta)) OR option_nibble (length (option_val op))) #
     option_extension (unat op_delta) @ option_extension (length (option_val op)) @ option_val op"

fun options_bytes :: "u16 \<Rightarrow> CoAPMsgOption list \<Rightarrow> byte list" where
  "options_bytes prev_num [] = []"
| "options_bytes prev_num (op # ops) = option_bytes (option_num op - prev_num) op @ options_bytes (option_num op) ops"

definition coap_header_bytes :: "CoAPMessage \<Rightarrow> byte list" where
  "coap_header_bytes m =
     [ucast (push_bit 6 COAP_MSG_VER OR push_bit 4 (coap_type m AND 3) OR coap_token_len m AND 15),
      ucast (push_bit 5 (code_class m AND 7) OR code_detail m AND 31),
      ucast (drop_bit 8 (coap_msg_id m AND 0xFF00)), ucast (coap_msg_id m AND 0x00FF)]"

definition coap_payload_bytes :: "CoAPMessage \<Rightarrow> byte list" where
  "coap_payload_bytes m = (if pay_load_len m = 0 then [] else 0xFF # take (unat (pay_load_len m)) (the (pay_load m)))"

definition coap_bytes :: "CoAPMessage \<Rightarrow> byte list" where
  "coap_bytes m = coap_header_bytes m @ take (unat (coap_token_len m)) (coap_token m) @ options_bytes 0 (op_list m) @
     coap_payload_bytes m"

lemma unat_ucast_size: "unat (ucast (x :: u32) :: size_t) = unat x"
proof -
  have "unat x < 2 ^ 32" using unsigned_less [of x, where ?'a = nat] by simp
  then show ?thesis by (simp add: unsigned_ucast_eq take_bit_nat_eq_self)
qed

lemma unat_sub_of_nat: "k \<le> unat (len :: size_t) \<Longrightarrow> unat (len - of_nat k) = unat len - k"
proof -
  assume k: "k \<le> unat len"
  then have "unat (of_nat k :: size_t) = k" by (metis le_unat_uoi)
  then show ?thesis using k by (simp add: unat_sub word_le_nat_alt)
qed

lemma length_option_bytes: "length (option_bytes d op) \<le> option_size d op + 1" "option_size d op \<le> length (option_bytes d op) + 1"
  by (simp_all add: option_bytes_def option_extension_def option_size_def)

lemma format_op_put:
  "coap_msg_format_op op prev buf p len =
     (if option_size (option_num op - prev) op > unat len then Some (Inl QCLOUD_ERR_COAP_DATA_SIZE)
      else map_option Inr (put (option_bytes (option_num op - prev) op) buf p))"
  by (cases "put (option_bytes (option_num op - prev) op) buf p")
     (simp_all add: coap_msg_format_op_def Let_def option_bytes_def codec_simps split: prod.splits)

lemma serialize_options_put:
  "p \<le> length buf \<Longrightarrow> length (options_bytes prev ops) + length ops \<le> unat len \<Longrightarrow>
     coap_message_serialize_options ops prev buf p len = map_option Inr (put (options_bytes prev ops) buf p)"
proof (induction ops arbitrary: prev buf p len)
  case Nil
  then show ?case by (simp add: put_def wr_bytes_Nil)
next
  case (Cons op ops)
  let ?bs = "option_bytes (option_num op - prev) op"
  have size: "option_size (option_num op - prev) op \<le> unat len"
    using Cons.prems(2) length_option_bytes(2) [of "option_num op - prev" op] by simp
  show ?case
  proof (cases "put ?bs buf p")
    case None
    then have "put (?bs @ options_bytes (option_num op) ops) buf p = None" by (simp add: put_put [symmetric])
    then show ?thesis using None size by (simp add: format_op_put)
  next
    case (Some y)
    obtain b q where y: "y = (b, q)" by fastforce
    then have q: "q = p + length ?bs" "length b = length buf" "p + length ?bs \<le> length buf"
      using Some by (auto simp: put_Some_iff)
    have "unat (len - of_nat (q - p)) = unat len - length ?bs"
      using q Cons.prems(2) by (simp add: unat_sub_of_nat)
    then have "coap_message_serialize_options ops (option_num op) b q (len - of_nat (q - p)) =
        map_option Inr (put (options_bytes (option_num op) ops) b q)"
      using Cons.prems(2) q by (intro Cons.IH) auto
    then show ?thesis using Some y size by (simp add: format_op_put put_put [symmetric])
  qed
qed


text \<open>Messages the codec carries: fields in range, and every option delta and option length outside the range from 141
  to 268, where the one-byte extension has its top bit set.\<close>

definition field_ok :: "nat \<Rightarrow> bool" where
  "field_ok n \<longleftrightarrow> n < 141 \<or> 269 \<le> n \<and> n < 65805"

fun options_ok :: "u16 \<Rightarrow> CoAPMsgOption list \<Rightarrow> bool" where
  "options_ok prev_num [] = True"
| "options_ok prev_num (op # ops) \<longleftrightarrow>
     field_ok (unat (option_num op - prev_num)) \<and> field_ok (length (option_val op)) \<and> options_ok (option_num op) ops"

definition coap_message_ok :: "CoAPMessage \<Rightarrow> bool" where
  "coap_message_ok m \<longleftrightarrow> coap_version m = COAP_MSG_VER \<and> coap_type m < 4 \<and>
     code_class m \<in> {COAP_MSG_REQ, COAP_MSG_SUCCESS, COAP_MSG_CLIENT_ERR, COAP_MSG_SERVER_ERR} \<and> code_detail m < 32 \<and>
     coap_token_len m \<le> 8 \<and> length (coap_token m) = 8 \<and>
     drop (unat (coap_token_len m)) (coap_token m) = replicate (8 - unat (coap_token_len m)) 0 \<and>
     options_ok 0 (op_list m) \<and> coap_handler m = None \<and> user_context m = 0 \<and>
     (if pay_load_len m = 0 then pay_load m = None else \<exists>bs. pay_load m = Some bs \<and> length bs = unat (pay_load_len m))"

text \<open>What the serializer needs of a message.\<close>

definition message_fits :: "CoAPMessage \<Rightarrow> bool" where
  "message_fits m \<longleftrightarrow> coap_token_len m \<le> 8 \<and> length (coap_token m) = 8 \<and>
     (pay_load_len m \<noteq> 0 \<longrightarrow> (\<exists>bs. pay_load m = Some bs \<and> length bs = unat (pay_load_len m)))"

lemma coap_message_ok_fits: "coap_message_ok m \<Longrightarrow> message_fits m"
  by (auto simp: coap_message_ok_def message_fits_def)

lemma serialize_coap_put:
  assumes "message_fits m" "length (coap_bytes m) + length (op_list m) \<le> unat len" "length (coap_bytes m) \<le> length buf"
  shows "serialize_coap_message m buf len = Some (Inr (coap_bytes m @ drop (length (coap_bytes m)) buf, length (coap_bytes m)))"
proof -
  let ?t = "take (unat (coap_token_len m)) (coap_token m)" and ?o = "options_bytes 0 (op_list m)" and ?y = "coap_payload_bytes m"
  have tl: "unat (coap_token_len m) \<le> 8" using assms(1) by (simp add: message_fits_def word_le_nat_alt)
  have tlen: "length ?t = unat (coap_token_len m)" using assms(1) tl by (simp add: message_fits_def)
  have hlen: "length (coap_header_bytes m) = 4" by (simp add: coap_header_bytes_def)
  have sum: "4 + unat (coap_token_len m) + length ?o + length ?y + length (op_list m) \<le> unat len"
    "4 + unat (coap_token_len m) + length ?o + length ?y \<le> length buf"
    using assms(2,3) hlen tlen by (simp_all add: coap_bytes_def)
  have len4: "\<not> len < 4" using sum by (simp add: word_less_nat_alt)
  let ?b1 = "coap_header_bytes m @ drop 4 buf"
  have h: "coap_message_serialize_header m buf 0 len = Some (Inr (?b1, 4))"
    using len4 sum(2)
    by (simp add: coap_message_serialize_header_def codec_simps put_fits coap_header_bytes_def eval_nat_numeral)
  let ?b2 = "coap_header_bytes m @ ?t @ drop (4 + length ?t) buf"
  have u4: "unat (len - 4) = unat len - 4" using unat_sub_of_nat [of 4 len] sum by simp
  have "\<not> len - 4 < ucast (coap_token_len m)"
    using sum u4 tl by (simp add: word_less_nat_alt unat_ucast_size)
  then have t: "coap_message_serialize_token m ?b1 4 (len - 4) = Some (Inr (?b2, 4 + length ?t))"
    using assms(1) tl sum(2) hlen tlen
    by (simp add: coap_message_serialize_token_def rd_bytes_def put_fits message_fits_def add.commute)
  let ?b3 = "coap_header_bytes m @ ?t @ ?o @ drop (4 + length ?t + length ?o) buf"
  have "unat (len - of_nat (4 + length ?t)) = unat len - (4 + length ?t)"
    using sum tlen by (intro unat_sub_of_nat) simp
  then have o: "coap_message_serialize_options (op_list m) 0 ?b2 (4 + length ?t) (len - of_nat (4 + length ?t)) =
      Some (Inr (?b3, 4 + length ?t + length ?o))"
    using sum hlen tlen by (subst serialize_options_put) (simp_all add: put_fits add.commute add.left_commute)
  have "unat (len - of_nat (4 + length ?t + length ?o)) = unat len - (4 + length ?t + length ?o)"
    using sum tlen by (intro unat_sub_of_nat) simp
  then have u: "unat (len - of_nat (4 + length ?t + length ?o)) = unat len - (4 + length ?t + length ?o)" .
  have y: "coap_message_serialize_payload m ?b3 (4 + length ?t + length ?o) (len - of_nat (4 + length ?t + length ?o)) =
      Some (Inr (coap_bytes m @ drop (length (coap_bytes m)) buf, length (coap_bytes m)))"
  proof (cases "pay_load_len m = 0")
    case True
    then show ?thesis
      using hlen tlen by (simp add: coap_message_serialize_payload_def coap_bytes_def coap_payload_bytes_def add.assoc)
  next
    case False
    then obtain bs where bs: "pay_load m = Some bs" "length bs = unat (pay_load_len m)"
      using assms(1) by (auto simp: message_fits_def)
    have y: "?y = 0xFF # bs" using False bs by (simp add: coap_payload_bytes_def)
    have "unat (pay_load_len m) + 1 < 2 ^ 64"
      using sum(1) y bs unsigned_less [of len, where ?'a = nat] by simp
    then have "unat (pay_load_len m + 1) = unat (pay_load_len m) + 1" by (simp add: unat_word_ariths)
    then have "\<not> pay_load_len m + 1 > len - of_nat (4 + length ?t + length ?o)"
      unfolding word_less_nat_alt u using sum(1) y bs tlen by simp
    then show ?thesis
      using False bs sum(2) y hlen tlen
      by (simp add: coap_message_serialize_payload_def coap_bytes_def rd_bytes_def codec_simps put_fits add.commute add.left_commute)
  qed
  show ?thesis
    using h t o y by (simp add: serialize_coap_message_def)
qed


section \<open>Reading the format back\<close>

lemma option_nibble_take: "option_nibble n = take_bit 4 (option_nibble n)"
  by (simp add: option_nibble_def take_bit_of_nat take_bit_nat_eq_self)

lemma nibbles:
  assumes "(a :: byte) = take_bit 4 a" "b = take_bit 4 b"
  shows "drop_bit 4 (push_bit 4 a OR b) AND 15 = a" "(push_bit 4 a OR b) AND 15 = b"
proof -
  have 15: "(15 :: byte) = mask 4" by (simp add: mask_eq_exp_minus_1)
  have "drop_bit 4 (push_bit 4 (take_bit 4 a) OR take_bit 4 b) AND mask 4 = take_bit 4 a"
    by (intro bit_word_eqI) (auto simp: bit_simps)
  then show "drop_bit 4 (push_bit 4 a OR b) AND 15 = a" using assms by (simp add: 15)
  have "(push_bit 4 (take_bit 4 a) OR take_bit 4 b) AND mask 4 = take_bit 4 b"
    by (intro bit_word_eqI) (auto simp: bit_simps)
  then show "(push_bit 4 a OR b) AND 15 = b" using assms by (simp add: 15)
qed

lemma unat_nibble: "unat (option_nibble n) = (if n \<ge> 269 then 14 else if n \<ge> 13 then 13 else n)"
  by (simp add: option_nibble_def unat_of_nat)

lemma nibble_u32: "(ucast (option_nibble n) :: u32) = (if n \<ge> 269 then 14 else if n \<ge> 13 then 13 else of_nat n)"
  by (simp add: word_unat_eq_iff unat_ucast_u8_u32 unat_nibble unat_of_nat)

lemma scast_small: "n < 128 \<Longrightarrow> (scast (of_nat n :: byte) :: u32) = of_nat n"
proof -
  assume "n < 128"
  then have "sint (of_nat n :: byte) = int n" by (simp add: signed_of_nat signed_take_bit_int_eq_self)
  then show ?thesis by (metis of_int_of_nat_eq of_int_sint)
qed

lemma be16_split: "be16 (ucast (drop_bit 8 w)) (ucast w) = w"
  unfolding be16_def by (intro bit_word_eqI) (auto simp: bit_simps)

lemma be16_parts: "be16 (ucast (drop_bit 8 (w AND push_bit 8 (mask 8)))) (ucast (w AND mask 8)) = w"
  unfolding be16_def by (intro bit_word_eqI) (auto simp: bit_simps)

lemma be16_bytes: "n < 65536 \<Longrightarrow> be16 (of_nat (n div 256 mod 256)) (of_nat (n mod 256)) = of_nat n"
proof -
  assume n: "n < 65536"
  then have "(of_nat (n div 256 mod 256) :: byte) = ucast (drop_bit 8 (of_nat n :: u16))"
    by (simp add: word_unat_eq_iff unsigned_ucast_eq unsigned_drop_bit_eq unat_of_nat drop_bit_eq_div take_bit_eq_mod unat_div)
  moreover have "(of_nat (n mod 256) :: byte) = ucast (of_nat n :: u16)"
    using n by (simp add: word_unat_eq_iff unsigned_ucast_eq unat_of_nat take_bit_eq_mod mod_mod_cancel)
  ultimately show ?thesis by (simp only: be16_split)
qed

lemma option_field_at:
  assumes "field_ok n" "bytes_at buf p (option_extension n)" "length (option_extension n) \<le> len"
  shows "option_field (ucast (option_nibble n)) buf p len =
    Some (Inr (of_nat n, p + length (option_extension n), len - length (option_extension n)))"
proof -
  consider "n < 13" | "13 \<le> n" "n < 141" | "269 \<le> n" "n < 65805" using assms(1) by (fastforce simp: field_ok_def)
  then show ?thesis
  proof cases
    case 1
    then have "(of_nat n :: u32) \<noteq> 13" "(of_nat n :: u32) \<noteq> 14"
      by (auto simp: word_unat_eq_iff unat_of_nat)
    then show ?thesis using 1 by (simp add: option_field_def nibble_u32 option_extension_def)
  next
    case 2
    then obtain k where k: "n = 13 + k" "k < 128" using le_Suc_ex by fastforce
    then have "(13 :: u32) + scast (of_nat k :: byte) = of_nat n" by (simp add: scast_small)
    then show ?thesis using k assms(2,3) by (auto simp: option_field_def nibble_u32 option_extension_def)
  next
    case 3
    then obtain k where k: "n = 269 + k" "k < 65536" using le_Suc_ex by fastforce
    then have "(ucast (of_nat k :: u16) :: u32) = of_nat k"
      by (simp add: word_unat_eq_iff unsigned_ucast_eq unat_of_nat take_bit_nat_eq_self)
    then have "(ucast (be16 (of_nat (k div 256)) (of_nat (k mod 256))) :: u32) = of_nat k"
      using k be16_bytes [of k] by simp
    then show ?thesis
      using k assms(2,3) by (auto simp: option_field_def nibble_u32 option_extension_def)
  qed
qed

definition last_num :: "CoAPMessage \<Rightarrow> u16" where
  "last_num msg = (if op_list msg = [] then 0 else option_num (last (op_list msg)))"

lemma option_num_delta:
  "(ucast (ucast prev + of_nat (unat ((num :: u16) - prev)) :: u32) :: u16) = num"
proof -
  have u: "unat (ucast w :: u32) = unat w" for w :: u16
    using unsigned_less [of w, where ?'a = nat] by (simp add: unsigned_ucast_eq take_bit_nat_eq_self)
  have "unat (ucast (ucast prev + ucast (num - prev) :: u32) :: u16) = unat (prev + (num - prev))"
    unfolding unat_word_ariths unsigned_ucast_eq [of "_ + _"]
    by (simp add: u take_bit_eq_mod mod_mod_cancel unat_word_ariths del: add_diff_cancel_left' diff_add_cancel add_diff_cancel_right' add_diff_eq)
  then have "(ucast (ucast prev + ucast (num - prev) :: u32) :: u16) = num" by (simp add: word_unat_eq_iff)
  then show ?thesis by simp
qed

lemma option_nibble_not_15: "(ucast (option_nibble n) :: u32) \<noteq> 15"
  by (auto simp: nibble_u32 word_unat_eq_iff unat_of_nat)

lemma deserialize_option_at:
  assumes "\<forall>m. fst (A m)" "d = option_num op - last_num msg"
    "field_ok (unat d)" "field_ok (length (option_val op))"
    "bytes_at buf p (option_bytes d op)" "length (option_bytes d op) \<le> len"
  shows "\<exists>m'. coap_message_deserialize_option A msg buf p len m =
    Some (Inr (msg\<lparr>op_list := op_list msg @ [op]\<rparr>, p + length (option_bytes d op)), m')"
proof -
  let ?d = "option_extension (unat d)" and ?l = "option_extension (length (option_val op))"
  have b: "rd buf p = Some (push_bit 4 (option_nibble (unat d)) OR option_nibble (length (option_val op)))"
    "bytes_at buf (Suc p) ?d" "bytes_at buf (Suc p + length ?d) ?l" "bytes_at buf (Suc p + length ?d + length ?l) (option_val op)"
    using assms(5) by (simp_all add: option_bytes_def bytes_at_append add.assoc)
  have s: "Suc (length ?d + length ?l + length (option_val op)) \<le> len" using assms(6) by (simp add: option_bytes_def)
  have f1: "option_field (ucast (option_nibble (unat d))) buf (Suc p) (len - 1) =
      Some (Inr (of_nat (unat d), Suc p + length ?d, len - 1 - length ?d))"
    using assms(3) b(2) s by (intro option_field_at) auto
  have f2: "option_field (ucast (option_nibble (length (option_val op)))) buf (Suc p + length ?d) (len - 1 - length ?d) =
      Some (Inr (of_nat (length (option_val op)), Suc p + length ?d + length ?l, len - 1 - length ?d - length ?l))"
    using assms(4) b(3) s by (intro option_field_at) auto
  have u: "unat (of_nat (length (option_val op)) :: u32) = length (option_val op)"
    using assms(4) by (auto simp: unat_of_nat field_ok_def)
  have "p + length (option_bytes d op) \<le> length buf"
    using bytes_at_in_range [OF assms(5)] by (simp add: option_bytes_def)
  then have v: "rd_bytes buf (Suc p + length ?d + length ?l) (length (option_val op)) = Some (option_val op)"
    using b(4) by (cases "option_val op = []") (simp_all add: bytes_at_iff_take option_bytes_def rd_bytes_def)
  have num: "(ucast (if op_list msg = [] then of_nat (unat d) else ucast (option_num (last (op_list msg))) + of_nat (unat d) :: u32) :: u16)
      = option_num op"
    using option_num_delta [of "last_num msg" "option_num op"] assms(2)
    by (cases "op_list msg = []") (simp_all add: last_num_def)
  have grant: "qcloud_iot_coap_option_init A n w m = (Some \<lparr>option_num = ucast n, option_val = w\<rparr>, snd (A (snd (A m))))" for n w
    using assms(1) by (simp add: qcloud_iot_coap_option_init_def split_beta Let_def)
  obtain c where c: "rd buf p = Some c" "drop_bit 4 c AND 15 = option_nibble (unat d)" "c AND 15 = option_nibble (length (option_val op))"
    using b(1) nibbles [OF option_nibble_take option_nibble_take] by blast
  show ?thesis
    using s c f1 f2 u v num grant
    by (auto simp: coap_message_deserialize_option_def coap_msg_op_list_add_last_def Let_def option_nibble_not_15 option_bytes_def)
qed

lemma option_bytes_head: "\<exists>bs. option_bytes d op = (push_bit 4 (option_nibble (unat d)) OR option_nibble (length (option_val op))) # bs"
  by (simp add: option_bytes_def)

lemma option_head_not_ff: "push_bit 4 (option_nibble n) OR option_nibble k \<noteq> 0xFF"
proof
  assume a: "push_bit 4 (option_nibble n) OR option_nibble k = 0xFF"
  have "(push_bit 4 (option_nibble n) OR option_nibble k) AND 15 = option_nibble k"
    by (intro nibbles) (rule option_nibble_take)+
  then have "option_nibble k = 15" using a by simp
  then show False using option_nibble_not_15 [of k] by simp
qed

lemma last_num_append [simp]: "last_num (msg\<lparr>op_list := op_list msg @ [op]\<rparr>) = option_num op"
  by (simp add: last_num_def)

text \<open>The options are followed by the payload marker or by the end of the message, in which case one byte more than the
  message is looked at.\<close>

lemma deserialize_options_at:
  assumes "\<forall>m. fst (A m)" "options_ok (last_num msg) ops" "bytes_at buf p (options_bytes (last_num msg) ops)"
    "p + length (options_bytes (last_num msg) ops) + rest = p + len"
    "rd buf (p + length (options_bytes (last_num msg) ops)) = Some c" "c = 0xFF \<or> rest = 0"
  shows "\<exists>m'. coap_message_deserialize_options A msg buf p len m =
    Some (Inr (msg\<lparr>op_list := op_list msg @ ops\<rparr>, p + length (options_bytes (last_num msg) ops)), m')"
  using assms(2-)
proof (induction ops arbitrary: msg p len m)
  case Nil
  then show ?case by (subst coap_message_deserialize_options.simps) auto
next
  case (Cons op ops)
  let ?d = "option_num op - last_num msg" and ?msg = "msg\<lparr>op_list := op_list msg @ [op]\<rparr>"
  let ?k = "length (option_bytes ?d op)"
  have at: "bytes_at buf p (option_bytes ?d op)" "bytes_at buf (p + ?k) (options_bytes (last_num ?msg) ops)"
    using Cons.prems(2) by (simp_all add: bytes_at_append)
  obtain m1 where m1: "coap_message_deserialize_option A msg buf p len m = Some (Inr (?msg, p + ?k), m1)"
    using deserialize_option_at [OF assms(1) refl _ _ at(1), of len m] Cons.prems(1,3) by auto
  obtain bs where "option_bytes ?d op = (push_bit 4 (option_nibble (unat ?d)) OR option_nibble (length (option_val op))) # bs"
    using option_bytes_head by blast
  then have p0: "rd buf p = Some (push_bit 4 (option_nibble (unat ?d)) OR option_nibble (length (option_val op)))" "0 < ?k"
    using at(1) by auto
  obtain m2 where "coap_message_deserialize_options A ?msg buf (p + ?k) (len - ?k) m1 =
      Some (Inr (?msg\<lparr>op_list := op_list ?msg @ ops\<rparr>, p + ?k + length (options_bytes (last_num ?msg) ops)), m2)"
    using Cons.IH [of ?msg "p + ?k" "len - ?k" m1] Cons.prems at(2) by (auto simp: add.assoc)
  then show ?case
    using p0 m1 option_head_not_ff Cons.prems(3)
    by (subst coap_message_deserialize_options.simps) (auto simp: add.assoc)
qed

lemma first_byte:
  fixes v t n :: u32
  defines "b \<equiv> ucast (push_bit 6 (take_bit 2 v) OR push_bit 4 (take_bit 2 t) OR take_bit 4 n) :: byte"
  shows "ucast (drop_bit 6 b AND 3) = take_bit 2 v" "ucast (drop_bit 4 b AND 3) = take_bit 2 t" "ucast (b AND 15) = take_bit 4 n"
proof -
  have "ucast (drop_bit 6 b AND mask 2) = take_bit 2 v" "ucast (drop_bit 4 b AND mask 2) = take_bit 2 t" "ucast (b AND mask 4) = take_bit 4 n"
    by (intro bit_word_eqI; auto simp: b_def bit_simps)+
  then show "ucast (drop_bit 6 b AND 3) = take_bit 2 v" "ucast (drop_bit 4 b AND 3) = take_bit 2 t" "ucast (b AND 15) = take_bit 4 n"
    by (simp_all add: mask_eq_exp_minus_1)
qed

lemma second_byte:
  fixes c d :: u32
  defines "b \<equiv> ucast (push_bit 5 (take_bit 3 c) OR take_bit 5 d) :: byte"
  shows "ucast (drop_bit 5 b AND 7) = take_bit 3 c" "ucast (b AND 31) = take_bit 5 d"
proof -
  have "ucast (drop_bit 5 b AND mask 3) = take_bit 3 c" "ucast (b AND mask 5) = take_bit 5 d"
    by (intro bit_word_eqI; auto simp: b_def bit_simps)+
  then show "ucast (drop_bit 5 b AND 7) = take_bit 3 c" "ucast (b AND 31) = take_bit 5 d"
    by (simp_all add: mask_eq_exp_minus_1)
qed

lemma take_bit_small: "unat (w :: u32) < 2 ^ n \<Longrightarrow> take_bit n w = w"
  by (simp add: word_unat_eq_iff unsigned_take_bit_eq take_bit_nat_eq_self)

lemma header_at:
  assumes "coap_message_ok m" "bytes_at buf 0 (coap_header_bytes m)" "4 \<le> len"
  shows "coap_message_deserialize_header msg buf 0 len =
    Some (Inr (msg\<lparr>coap_version := COAP_MSG_VER, coap_type := coap_type m, coap_token_len := coap_token_len m,
       code_detail := code_detail m, code_class := code_class m, coap_msg_id := coap_msg_id m\<rparr>, 4))"
proof -
  let ?b = "ucast (push_bit 6 COAP_MSG_VER OR push_bit 4 (coap_type m AND 3) OR coap_token_len m AND 15) :: byte"
  let ?c = "ucast (push_bit 5 (code_class m AND 7) OR code_detail m AND 31) :: byte"
  have tl: "coap_token_len m \<le> 8" using assms(1) by (simp add: coap_message_ok_def)
  then have "coap_token_len m < 16" by (simp add: order.strict_trans1)
  moreover have "code_class m < 8" using assms(1) by (auto simp: coap_message_ok_def)
  ultimately have small: "take_bit 2 (1 :: u32) = 1" "take_bit 2 (coap_type m) = coap_type m" "take_bit 4 (coap_token_len m) = coap_token_len m"
      "take_bit 3 (code_class m) = code_class m" "take_bit 5 (code_detail m) = code_detail m"
    using assms(1) by (simp_all add: coap_message_ok_def take_bit_small word_less_nat_alt)
  have masks: "w AND 3 = take_bit 2 w" "w AND 15 = take_bit 4 w" "w AND 7 = take_bit 3 w" "w AND 31 = take_bit 5 w" for w :: u32
    by (simp_all add: take_bit_eq_mask mask_eq_exp_minus_1)
  have first: "ucast (drop_bit 6 ?b AND 3) = (1 :: u32)" "ucast (drop_bit 4 ?b AND 3) = coap_type m" "ucast (?b AND 15) = coap_token_len m"
    using first_byte [of 1 "coap_type m" "coap_token_len m"] unfolding masks small by simp_all
  have second: "ucast (drop_bit 5 ?c AND 7) = code_class m" "ucast (?c AND 31) = code_detail m"
    using second_byte [of "code_class m" "code_detail m"] unfolding masks small by simp_all
  have id: "be16 (ucast (drop_bit 8 (coap_msg_id m AND 0xFF00))) (ucast (coap_msg_id m AND 0x00FF)) = coap_msg_id m"
    using be16_parts [of "coap_msg_id m"] by (simp add: mask_eq_exp_minus_1)
  obtain b c i j where rds: "rd buf 0 = Some b" "rd buf (Suc 0) = Some c" "rd buf (Suc (Suc 0)) = Some i" "rd buf 3 = Some j"
    and eqs: "ucast (drop_bit 6 b AND 3) = (1 :: u32)" "ucast (drop_bit 4 b AND 3) = coap_type m" "ucast (b AND 15) = coap_token_len m"
      "ucast (drop_bit 5 c AND 7) = code_class m" "ucast (c AND 31) = code_detail m" "be16 i j = coap_msg_id m"
    using assms(2) first second id by (simp add: coap_header_bytes_def numeral_2_eq_2 numeral_3_eq_3)
  have "\<not> 8 < unat (coap_token_len m)" using tl by (simp add: word_le_nat_alt)
  moreover have "code_class m = 0 \<or> code_class m = 2 \<or> code_class m = 4 \<or> code_class m = 5"
    using assms(1) by (simp add: coap_message_ok_def)
  ultimately show ?thesis
    using assms(3) rds eqs by (auto simp: coap_message_deserialize_header_def Let_def)
qed

lemma bytes_at_read: "bytes_at buf p bs \<Longrightarrow> p \<le> length buf \<Longrightarrow> rd_bytes buf p (length bs) = Some bs"
  by (cases "bs = []") (auto simp: bytes_at_iff_take rd_bytes_def)

lemma payload_at:
  assumes "\<forall>m. fst (A m)" "coap_message_ok msg" "bytes_at buf p (coap_payload_bytes msg)" "len = length (coap_payload_bytes msg)"
  shows "\<exists>m'. coap_message_deserialize_payload A (msg\<lparr>pay_load := None, pay_load_len := 0\<rparr>) buf p len m = Some (Inr (msg, p + len), m')"
proof (cases "pay_load_len msg = 0")
  case True
  then show ?thesis
    using assms by (simp add: coap_message_deserialize_payload_def coap_payload_bytes_def coap_message_ok_def)
next
  case False
  then obtain bs where bs: "pay_load msg = Some bs" "length bs = unat (pay_load_len msg)"
    using assms(2) by (auto simp: coap_message_ok_def)
  moreover have "0 < unat (pay_load_len msg)" using False by (simp add: unat_gt_0)
  moreover have y: "coap_payload_bytes msg = 0xFF # bs" using False bs by (simp add: coap_payload_bytes_def)
  moreover have "rd_bytes buf (Suc p) (unat (pay_load_len msg)) = Some bs"
    using assms(3) y bs False by (metis bytes_at.simps(2) bytes_at_rd_bytes list.size(3) unat_eq_zero)
  ultimately show ?thesis
    using assms by (auto simp: coap_message_deserialize_payload_def Let_def split_beta)
qed

lemma token_at:
  assumes "coap_message_ok m" "bytes_at buf 4 (take (unat (coap_token_len m)) (coap_token m))" "unat (coap_token_len m) \<le> len"
    "4 \<le> length buf" "coap_token_len msg = coap_token_len m" "coap_token msg = replicate 8 0"
  shows "coap_message_deserialize_token msg buf 4 len = Some (Inr (msg\<lparr>coap_token := coap_token m\<rparr>, 4 + unat (coap_token_len m)))"
proof -
  let ?n = "unat (coap_token_len m)"
  have n: "?n \<le> 8" "length (coap_token m) = 8" "drop ?n (coap_token m) = replicate (8 - ?n) 0"
    using assms(1) by (simp_all add: coap_message_ok_def word_le_nat_alt)
  have "rd_bytes buf 4 ?n = Some (take ?n (coap_token m))"
    using bytes_at_read [OF assms(2,4)] n by simp
  moreover have "wr_bytes (replicate 8 0) 0 (take ?n (coap_token m)) = Some (coap_token m)"
    using n append_take_drop_id [of ?n "coap_token m"] by (simp add: wr_bytes_def)
  ultimately show ?thesis using assms(3,5,6) by (simp add: coap_message_deserialize_token_def)
qed

text \<open>C15. A message whose fields are in range, and whose option deltas and option lengths avoid the range from 141 to 268,
  is written by \<^verbatim>\<open>serialize_coap_message\<close> and read back by \<^verbatim>\<open>deserialize_coap_message\<close> unchanged: header, token, options in order
  and payload. The buffer has one byte behind the message, and the stated length has room for one byte per option more than
  is written; allocation succeeds.\<close>

theorem coap_round_trip:
  assumes "\<forall>x. fst (A x)" "coap_message_ok m" "length (coap_bytes m) + length (op_list m) \<le> unat len" "length (coap_bytes m) < length buf"
  shows "\<exists>buf' n x'. serialize_coap_message m buf len = Some (Inr (buf', n)) \<and>
    deserialize_coap_message A zero_message buf' n x = Some ((coap_msg_check m, m), x')"
proof -
  let ?b = "coap_bytes m @ drop (length (coap_bytes m)) buf"
  let ?t = "take (unat (coap_token_len m)) (coap_token m)" and ?o = "options_bytes 0 (op_list m)" and ?y = "coap_payload_bytes m"
  let ?n = "length (coap_bytes m)"
  have tl: "length ?t = unat (coap_token_len m)" using assms(2) by (simp add: coap_message_ok_def word_le_nat_alt)
  have hl: "length (coap_header_bytes m) = 4" by (simp add: coap_header_bytes_def)
  have n: "?n = 4 + length ?t + length ?o + length ?y" using hl by (simp add: coap_bytes_def)
  have at: "bytes_at ?b 0 (coap_header_bytes m)" "bytes_at ?b 4 ?t" "bytes_at ?b (4 + length ?t) ?o" "bytes_at ?b (4 + length ?t + length ?o) ?y"
    using bytes_at_whole [of "coap_bytes m" "drop ?n buf"] hl by (simp_all add: coap_bytes_def bytes_at_append add.assoc)
  define hd_msg where "hd_msg = zero_message\<lparr>coap_version := COAP_MSG_VER, coap_type := coap_type m, coap_token_len := coap_token_len m,
       code_detail := code_detail m, code_class := code_class m, coap_msg_id := coap_msg_id m\<rparr>"
  define tk_msg where "tk_msg = hd_msg\<lparr>coap_token := coap_token m\<rparr>"
  have h: "coap_message_deserialize_header zero_message ?b 0 ?n = Some (Inr (hd_msg, 4))"
    using header_at [OF assms(2) at(1)] n by (simp add: hd_msg_def)
  have t: "coap_message_deserialize_token hd_msg ?b 4 (?n - 4) = Some (Inr (tk_msg, 4 + length ?t))"
    using token_at [OF assms(2) at(2), of "?n - 4" hd_msg] n tl
    by (simp add: tk_msg_def hd_msg_def zero_message_def DEFAULT_COAP_MESSAGE_def)
  have "\<exists>c. rd ?b (4 + length ?t + length ?o) = Some c \<and> (c = 0xFF \<or> length ?y = 0)"
    using at(4) assms(4) n by (cases ?y) (auto simp: rd_def coap_payload_bytes_def split: if_splits)
  then obtain c where c: "rd ?b (4 + length ?t + length ?o) = Some c" "c = 0xFF \<or> length ?y = 0" by blast
  have last: "last_num tk_msg = 0" by (simp add: last_num_def tk_msg_def hd_msg_def zero_message_def DEFAULT_COAP_MESSAGE_def)
  obtain x1 where o: "coap_message_deserialize_options A tk_msg ?b (4 + length ?t) (?n - (4 + length ?t)) x =
      Some (Inr (tk_msg\<lparr>op_list := op_list tk_msg @ op_list m\<rparr>, 4 + length ?t + length ?o), x1)"
    using deserialize_options_at [OF assms(1), of tk_msg "op_list m" ?b "4 + length ?t" "length ?y" "?n - (4 + length ?t)" c x]
      assms(2) at(3) c n by (auto simp: last coap_message_ok_def)
  have "tk_msg\<lparr>op_list := op_list tk_msg @ op_list m\<rparr> = m\<lparr>pay_load := None, pay_load_len := 0\<rparr>"
    using assms(2) by (cases m) (simp add: tk_msg_def hd_msg_def zero_message_def DEFAULT_COAP_MESSAGE_def coap_message_ok_def)
  then obtain x2 where y: "coap_message_deserialize_payload A (tk_msg\<lparr>op_list := op_list tk_msg @ op_list m\<rparr>) ?b (4 + length ?t + length ?o)
      (?n - (4 + length ?t + length ?o)) x1 = Some (Inr (m, 4 + length ?t + length ?o + length ?y), x2)"
    using payload_at [OF assms(1,2) at(4) refl, of x1] n by auto
  have "deserialize_coap_message A zero_message ?b ?n x = Some ((coap_msg_check m, m), x2)"
    unfolding deserialize_coap_message_def Let_def using h t o y by simp
  then show ?thesis using serialize_coap_put [OF coap_message_ok_fits [OF assms(2)] assms(3)] assms(4) by simp
qed

section \<open>Safety of the deserializer\<close>

definition option_total :: "CoAPMessage \<Rightarrow> nat" where
  "option_total msg = sum_list (map (length \<circ> option_val) (op_list msg))"

lemma option_field_returns: "p + len \<le> length buf \<Longrightarrow> \<exists>r. option_field n buf p len = Some r"
  by (auto simp: option_field_def rd_def)

lemma deserialize_option_returns:
  assumes "p + len \<le> length buf"
  shows "\<exists>r m'. coap_message_deserialize_option A msg buf p len m = Some (r, m')"
proof (cases "len < 1")
  case True
  then show ?thesis by (simp add: coap_message_deserialize_option_def)
next
  case False
  then obtain p0 where p0: "rd buf p = Some p0" using assms by (simp add: rd_def)
  obtain r1 where r1: "option_field (ucast (drop_bit 4 p0 AND 15)) buf (p + 1) (len - 1) = Some r1"
    using option_field_returns [of "p + 1" "len - 1" buf] assms False by auto
  show ?thesis
  proof (cases r1)
    case (Inl rc)
    then show ?thesis using False p0 r1 by (auto simp: coap_message_deserialize_option_def Let_def)
  next
    case (Inr y)
    obtain d q k where y: "y = (d, q, k)" by (cases y)
    have q: "q + k \<le> length buf" using option_field_bounds [of _ buf "p + 1" "len - 1" d q k] r1 Inr y assms False by auto
    then obtain r2 where r2: "option_field (ucast (p0 AND 15)) buf q k = Some r2" using option_field_returns by blast
    show ?thesis
    proof (cases r2)
      case (Inl rc)
      then show ?thesis using False p0 r1 Inr y r2 by (auto simp: coap_message_deserialize_option_def Let_def)
    next
      case (Inr z)
      obtain n q' k' where z: "z = (n, q', k')" by (cases z)
      have "q' + k' \<le> length buf" using option_field_bounds [of _ buf q k n q' k'] r2 Inr z q by auto
      then have "k' < unat n \<or> (\<exists>v. rd_bytes buf q' (unat n) = Some v)" by (auto simp: rd_bytes_def)
      then show ?thesis
        using False p0 r1 \<open>r1 = Inr y\<close> y r2 Inr z
        by (auto simp: coap_message_deserialize_option_def Let_def split: prod.splits sum.splits)
    qed
  qed
qed

lemma deserialize_option_keeps:
  "coap_message_deserialize_option A msg buf p len m = Some (Inr (msg', q), m') \<Longrightarrow>
     msg' = msg\<lparr>op_list := op_list msg'\<rparr> \<and> option_total msg' + p \<le> option_total msg + q"
  by (auto simp: coap_message_deserialize_option_def coap_msg_op_list_add_last_def qcloud_iot_coap_option_init_def Let_def option_total_def
      elim!: bind_SomeE split: model_splits dest!: option_field_bounds rd_bytes_length)

lemma deserialize_options_safe:
  "p + len < length buf \<Longrightarrow>
   \<exists>r m'. coap_message_deserialize_options A msg buf p len m = Some (r, m') \<and>
     (\<forall>msg' q. r = Inr (msg', q) \<longrightarrow> p \<le> q \<and> q \<le> p + len \<and> msg' = msg\<lparr>op_list := op_list msg'\<rparr> \<and>
        option_total msg' + p \<le> option_total msg + q)"
proof (induction A msg buf p len m rule: coap_message_deserialize_options.induct)
  case (1 A msg buf p len m)
  obtain p0 where p0: "rd buf p = Some p0" using "1.prems" by (simp add: rd_def)
  show ?case
  proof (cases "p0 = 0xFF \<or> len = 0")
    case True
    then show ?thesis using p0 by (subst coap_message_deserialize_options.simps) auto
  next
    case False
    obtain r m' where r: "coap_message_deserialize_option A msg buf p len m = Some (r, m')"
      using deserialize_option_returns [of p len buf A msg m] "1.prems" by auto
    show ?thesis
    proof (cases r)
      case (Inl rc)
      then show ?thesis using False p0 r by (subst coap_message_deserialize_options.simps) auto
    next
      case (Inr y)
      obtain msg1 q where y: "y = (msg1, q)" by (cases y)
      have r1: "coap_message_deserialize_option A msg buf p len m = Some (Inr (msg1, q), m')" using r Inr y by simp
      have q: "p < q" "q \<le> p + len" "msg1 = msg\<lparr>op_list := op_list msg1\<rparr>" "option_total msg1 + p \<le> option_total msg + q"
        using deserialize_option_bounds [OF r1] deserialize_option_keeps [OF r1] by blast+
      obtain r2 m2 where r2: "coap_message_deserialize_options A msg1 buf q (len - (q - p)) m' = Some (r2, m2)"
        and keep: "\<forall>msg' q'. r2 = Inr (msg', q') \<longrightarrow> q \<le> q' \<and> q' \<le> q + (len - (q - p)) \<and> msg' = msg1\<lparr>op_list := op_list msg'\<rparr> \<and>
            option_total msg' + q \<le> option_total msg1 + q'"
        using "1.IH" [OF p0 False r refl Inr y [symmetric]] q "1.prems" by auto
      have "coap_message_deserialize_options A msg buf p len m = Some (r2, m2)"
        using False p0 r Inr y r2 by (subst coap_message_deserialize_options.simps) auto
      moreover have "p \<le> q' \<and> q' \<le> p + len \<and> msg' = msg\<lparr>op_list := op_list msg'\<rparr> \<and> option_total msg' + p \<le> option_total msg + q'"
        if "r2 = Inr (msg', q')" for msg' q'
      proof -
        have "msg' = msg1\<lparr>op_list := op_list msg'\<rparr>" using keep that by blast
        also have "msg1\<lparr>op_list := op_list msg'\<rparr> = msg\<lparr>op_list := op_list msg'\<rparr>" by (subst q(3)) simp
        finally have "msg' = msg\<lparr>op_list := op_list msg'\<rparr>" .
        moreover have "q \<le> q'" "q' \<le> q + (len - (q - p))" "option_total msg' + q \<le> option_total msg1 + q'"
          using keep that by blast+
        ultimately show ?thesis using q by linarith
      qed
      ultimately show ?thesis by blast
    qed
  qed
qed

lemma deserialize_header_safe:
  assumes "len \<le> length buf"
  shows "\<exists>r. coap_message_deserialize_header zero_message buf 0 len = Some r \<and>
    (\<forall>msg p. r = Inr (msg, p) \<longrightarrow> p = 4 \<and> 4 \<le> len \<and> unat (coap_token_len msg) \<le> 8 \<and> coap_token msg = replicate 8 0 \<and>
       op_list msg = [] \<and> pay_load msg = None \<and> pay_load_len msg = 0)"
proof (cases "len < 4")
  case True
  then show ?thesis by (simp add: coap_message_deserialize_header_def)
next
  case False
  then have "0 < length buf" "Suc 0 < length buf" "Suc (Suc 0) < length buf" "3 < length buf" using assms by auto
  then obtain p0 p1 p2 p3 where "rd buf 0 = Some p0" "rd buf (Suc 0) = Some p1" "rd buf (Suc (Suc 0)) = Some p2" "rd buf 3 = Some p3"
    by (simp add: rd_in_range)
  then show ?thesis
    using False by (auto simp: coap_message_deserialize_header_def Let_def zero_message_def DEFAULT_COAP_MESSAGE_def)
qed

lemma deserialize_token_safe:
  assumes "p + len \<le> length buf" "unat (coap_token_len msg) \<le> 8" "length (coap_token msg) = 8"
  shows "\<exists>r. coap_message_deserialize_token msg buf p len = Some r \<and>
    (\<forall>msg' q. r = Inr (msg', q) \<longrightarrow> q = p + unat (coap_token_len msg) \<and> q \<le> p + len \<and>
       (\<exists>t. length t = 8 \<and> msg' = msg\<lparr>coap_token := t\<rparr>))"
  using assms
  by (auto simp: coap_message_deserialize_token_def rd_bytes_def wr_bytes_def intro!: exI [of _ "_ @ _"])

lemma deserialize_payload_safe:
  assumes "p + len \<le> length buf"
  shows "\<exists>r x'. coap_message_deserialize_payload A msg buf p len x = Some (r, x') \<and>
    (\<forall>msg' q. r = Inr (msg', q) \<longrightarrow> msg' = msg \<and> len = 0 \<or> 
       (\<exists>bs. msg' = msg\<lparr>pay_load := Some bs, pay_load_len := of_nat (length bs)\<rparr> \<and> Suc (length bs) = len))"
proof (cases len)
  case (Suc k)
  then have "p < length buf" using assms by simp
  then show ?thesis using assms Suc
    by (auto simp: coap_message_deserialize_payload_def rd_in_range Let_def rd_bytes_def split: prod.splits
        intro!: exI [of _ "take k (drop (Suc p) buf)"])
qed (simp add: coap_message_deserialize_payload_def)

text \<open>What a message that was read satisfies, for the number of bytes it was read from.\<close>

definition coap_message_read_ok :: "CoAPMessage \<Rightarrow> nat \<Rightarrow> bool" where
  "coap_message_read_ok msg len \<longleftrightarrow> unat (coap_token_len msg) \<le> 8 \<and> length (coap_token msg) = 8 \<and>
     4 + unat (coap_token_len msg) + option_total msg + unat (pay_load_len msg) \<le> len \<and>
     (case pay_load msg of None \<Rightarrow> pay_load_len msg = 0 | Some bs \<Rightarrow> length bs = unat (pay_load_len msg))"

lemma payload_read_ok:
  assumes "4 + unat (coap_token_len msg) + option_total msg \<le> p" "p \<le> len" "len < length buf" "len < 2 ^ 64"
    "unat (coap_token_len msg) \<le> 8" "length (coap_token msg) = 8" "pay_load msg = None" "pay_load_len msg = 0"
  shows "\<exists>r x'. coap_message_deserialize_payload A msg buf p (len - p) x = Some (r, x') \<and>
    (\<forall>msg' q. r = Inr (msg', q) \<longrightarrow> coap_message_read_ok msg' len)"
proof -
  obtain r x' where r: "coap_message_deserialize_payload A msg buf p (len - p) x = Some (r, x')"
    and y: "\<forall>msg' q. r = Inr (msg', q) \<longrightarrow> msg' = msg \<and> len - p = 0 \<or>
      (\<exists>bs. msg' = msg\<lparr>pay_load := Some bs, pay_load_len := of_nat (length bs)\<rparr> \<and> Suc (length bs) = len - p)"
    using deserialize_payload_safe [of p "len - p" buf A msg x] assms(2,3) by auto
  have "coap_message_read_ok msg' len" if i: "r = Inr (msg', q)" for msg' q
  proof -
    consider "msg' = msg" | bs where "msg' = msg\<lparr>pay_load := Some bs, pay_load_len := of_nat (length bs)\<rparr>" "Suc (length bs) = len - p"
      using y i by blast
    then show ?thesis
    proof cases
      case 2
      then have "unat (of_nat (length bs) :: size_t) = length bs" using assms(4) by (simp add: unat_of_nat)
      then show ?thesis using 2 assms by (simp add: coap_message_read_ok_def option_total_def)
    qed (use assms in \<open>simp add: coap_message_read_ok_def\<close>)
  qed
  then show ?thesis using r by blast
qed

lemma options_read_ok:
  assumes "4 + unat (coap_token_len msg) = p" "p \<le> len" "len < length buf" "len < 2 ^ 64" "op_list msg = []"
    "unat (coap_token_len msg) \<le> 8" "length (coap_token msg) = 8" "pay_load msg = None" "pay_load_len msg = 0"
  shows "\<exists>r x'. coap_message_deserialize_options A msg buf p (len - p) x = Some (r, x') \<and>
    (\<forall>msg' q. r = Inr (msg', q) \<longrightarrow> (\<exists>s x''. coap_message_deserialize_payload A msg' buf q (len - q) x' = Some (s, x'') \<and>
       (\<forall>msg'' q'. s = Inr (msg'', q') \<longrightarrow> coap_message_read_ok msg'' len)))"
proof -
  obtain r x' where r: "coap_message_deserialize_options A msg buf p (len - p) x = Some (r, x')"
    and o: "\<forall>msg' q. r = Inr (msg', q) \<longrightarrow> p \<le> q \<and> q \<le> p + (len - p) \<and> msg' = msg\<lparr>op_list := op_list msg'\<rparr> \<and>
        option_total msg' + p \<le> option_total msg + q"
    using deserialize_options_safe [of p "len - p" buf A msg x] assms(2,3) by auto
  have zero: "option_total msg = 0" using assms(5) by (simp add: option_total_def)
  have "\<exists>s x''. coap_message_deserialize_payload A msg' buf q (len - q) x' = Some (s, x'') \<and>
       (\<forall>msg'' q'. s = Inr (msg'', q') \<longrightarrow> coap_message_read_ok msg'' len)" if "r = Inr (msg', q)" for msg' q
  proof (rule payload_read_ok)
    have m: "msg' = msg\<lparr>op_list := op_list msg'\<rparr>" and q: "q \<le> len" "option_total msg' + p \<le> q"
      using o that zero assms(2) by auto
    have t: "coap_token_len msg' = coap_token_len msg" "coap_token msg' = coap_token msg" "pay_load msg' = pay_load msg"
      "pay_load_len msg' = pay_load_len msg"
      by (subst m, simp)+
    show "4 + unat (coap_token_len msg') + option_total msg' \<le> q" using q assms(1) t by simp
    show "q \<le> len" by (rule q(1))
    show "unat (coap_token_len msg') \<le> 8" "length (coap_token msg') = 8" "pay_load msg' = None" "pay_load_len msg' = 0"
      using assms t by simp_all
  qed (use assms in auto)
  then show ?thesis using r by blast
qed

lemma deserialize_message_safe:
  assumes "len < length buf" "len < 2 ^ 64"
  shows "\<exists>rc msg x'. deserialize_coap_message A zero_message buf len x = Some ((rc, msg), x') \<and>
    (rc = QCLOUD_ERR_COAP_INTERNAL \<and> msg = zero_message \<or> rc = coap_msg_check msg \<and> coap_message_read_ok msg len)"
    (is "\<exists>rc msg x'. _ \<and> ?P rc msg")
proof -
  have fail: "?P QCLOUD_ERR_COAP_INTERNAL (coap_message_destroy zero_message)" by (simp add: coap_message_destroy_def)
  obtain r where r: "coap_message_deserialize_header zero_message buf 0 len = Some r" and
    h: "\<forall>msg p. r = Inr (msg, p) \<longrightarrow> p = 4 \<and> 4 \<le> len \<and> unat (coap_token_len msg) \<le> 8 \<and> coap_token msg = replicate 8 0 \<and>
       op_list msg = [] \<and> pay_load msg = None \<and> pay_load_len msg = 0"
    using deserialize_header_safe [of len buf] assms by auto
  consider (bad) rc where "r = Inl rc" | (ok) msg1 where "r = Inr (msg1, 4)" using h by (cases r) auto
  then show ?thesis
  proof cases
    case bad
    then show ?thesis using r fail by (auto simp: deserialize_coap_message_def)
  next
    case ok
    have h: "4 \<le> len" "unat (coap_token_len msg1) \<le> 8" "coap_token msg1 = replicate 8 0"
       "op_list msg1 = []" "pay_load msg1 = None" "pay_load_len msg1 = 0"
      using h ok by auto
    obtain r2 where r2: "coap_message_deserialize_token msg1 buf 4 (len - 4) = Some r2"
      and t: "\<forall>msg' q. r2 = Inr (msg', q) \<longrightarrow> q = 4 + unat (coap_token_len msg1) \<and> q \<le> 4 + (len - 4) \<and>
       (\<exists>t. length t = 8 \<and> msg' = msg1\<lparr>coap_token := t\<rparr>)"
      using deserialize_token_safe [of 4 "len - 4" buf msg1] h assms by auto
    show ?thesis
    proof (cases r2)
      case (Inl rc)
      then show ?thesis using r ok r2 fail by (auto simp: deserialize_coap_message_def)
    next
      case (Inr y)
      obtain msg2 p where y: "y = (msg2, p)" by (cases y)
      then have "4 + unat (coap_token_len msg2) = p" "p \<le> len" "op_list msg2 = []" "unat (coap_token_len msg2) \<le> 8"
          "length (coap_token msg2) = 8" "pay_load msg2 = None" "pay_load_len msg2 = 0"
        using t Inr h by auto
      then obtain r3 x3 where r3: "coap_message_deserialize_options A msg2 buf p (len - p) x = Some (r3, x3)"
        and o: "\<forall>msg' q. r3 = Inr (msg', q) \<longrightarrow> (\<exists>s x''. coap_message_deserialize_payload A msg' buf q (len - q) x3 = Some (s, x'') \<and>
         (\<forall>msg'' q'. s = Inr (msg'', q') \<longrightarrow> coap_message_read_ok msg'' len))"
        using options_read_ok [of msg2 p len buf A x] assms by auto
      show ?thesis
        using r ok r2 Inr y r3 o fail
        by (cases r3) (auto simp: deserialize_coap_message_def Let_def split: sum.split prod.splits)
    qed
  qed
qed

text \<open>C32. Whatever bytes arrive, \<^verbatim>\<open>deserialize_coap_message\<close> returns without an access outside the buffer if one byte
  follows the message: either the internal error with the message destroyed, or the verdict of \<^verbatim>\<open>_coap_msg_check\<close> on a message
  whose token fits its array and whose token, options and payload together are no longer than what was received.\<close>

theorem coap_deserialize_safe:
  assumes "len < length buf" "len < 2 ^ 64"
  shows "\<exists>rc msg x'. deserialize_coap_message A zero_message buf len x = Some ((rc, msg), x') \<and>
    (rc = QCLOUD_ERR_COAP_INTERNAL \<and> msg = zero_message \<or> rc = coap_msg_check msg \<and> coap_message_read_ok msg len)"
  using assms by (rule deserialize_message_safe)

section \<open>Option order\<close>

lemma option_insert_after_sorted:
  assumes "sorted (map option_num (prev # ops))" "option_num prev \<le> option_num op"
  shows "option_insert_after op (prev # ops) =
    filter (\<lambda>z. option_num z \<le> option_num op) (prev # ops) @ op # filter (\<lambda>z. option_num op < option_num z) (prev # ops)"
  using assms
proof (induction ops arbitrary: prev)
  case (Cons nxt ops)
  show ?case
  proof (cases "option_num op < option_num nxt")
    case True
    then have "\<forall>z\<in>set ops. option_num op < option_num z" using Cons.prems(1) by fastforce
    then have "filter (\<lambda>z. option_num z \<le> option_num op) ops = []" "filter (\<lambda>z. option_num op < option_num z) ops = ops"
      by (auto simp: filter_empty_conv not_le)
    then show ?thesis using True Cons.prems(2) by (auto simp: not_le not_less)
  next
    case False
    then show ?thesis using Cons.IH [of nxt] Cons.prems by (auto simp: not_less)
  qed
qed simp

text \<open>\<^verbatim>\<open>coap_message_option_add\<close> keeps the option list sorted by number and puts the new option behind those with the same
  number and before those with a greater one, losing none.\<close>

theorem coap_option_add_order:
  assumes "sorted (map option_num (op_list message))"
    "coap_message_option_add A num v message m = ((QCLOUD_RET_SUCCESS, message'), m')"
  shows "op_list message' = filter (\<lambda>z. option_num z \<le> ucast num) (op_list message) @ \<lparr>option_num = ucast num, option_val = v\<rparr> #
      filter (\<lambda>z. ucast num < option_num z) (op_list message) \<and> sorted (map option_num (op_list message'))"
proof
  let ?op = "\<lparr>option_num = ucast num, option_val = v\<rparr>"
  show ops: "op_list message' = filter (\<lambda>z. option_num z \<le> ucast num) (op_list message) @ ?op #
      filter (\<lambda>z. ucast num < option_num z) (op_list message)"
  proof (cases "op_list message")
    case Nil
    then show ?thesis
      using assms(2) by (auto simp: coap_message_option_add_def qcloud_iot_coap_option_init_def Let_def split: prod.splits if_splits)
  next
    case (Cons f ops)
    have "filter (\<lambda>z. option_num z \<le> ucast num) ops = []" "filter (\<lambda>z. ucast num < option_num z) ops = ops"
      if "ucast num < option_num f"
      using assms(1) Cons that by (auto simp: filter_empty_conv filter_id_conv not_le)
    then show ?thesis
      using assms Cons option_insert_after_sorted [of f ops ?op]
      by (auto simp: coap_message_option_add_def qcloud_iot_coap_option_init_def Let_def split: prod.splits if_splits)
  qed
  show "sorted (map option_num (op_list message'))"
    unfolding ops using assms(1) by (auto simp: sorted_append sorted_filter)
qed

text \<open>The space test of \<^verbatim>\<open>_coap_msg_format_op\<close> looks at the option number where it should look at the length: an option
  with a number below 13 and a value of 13 to 268 bytes is written one byte past the end of a buffer that is exactly one byte
  too short.\<close>

theorem coap_option_overrun:
  assumes "unat (option_num op) < 13" "13 \<le> length (option_val op)" "length (option_val op) < 269"
    "length buf = p + 1 + length (option_val op)" "unat len = 1 + length (option_val op)"
  shows "coap_msg_format_op op 0 buf p len = None"
proof -
  have "option_size (option_num op) op = unat len" using assms by (simp add: option_size_def)
  moreover have "length (option_bytes (option_num op) op) = 1 + unat len"
    using assms by (simp add: option_bytes_def option_extension_def)
  ultimately show ?thesis using assms by (simp add: format_op_put put_def wr_bytes_def)
qed

lemma scast_large: "128 \<le> k \<Longrightarrow> k < 243 \<Longrightarrow> 2 ^ 31 \<le> unat (13 + scast (of_nat k :: byte) :: u32)"
proof -
  assume k: "128 \<le> k" "k < 243"
  have "(int k + 128) mod 256 = int k - 128"
    using k mod_add_self2 [of "int k - 128" 256] by (simp add: add.commute)
  then have "sint (of_nat k :: byte) = int k - 256"
    by (simp add: signed_of_nat signed_take_bit_eq_take_bit_shift take_bit_eq_mod)
  then have "scast (of_nat k :: byte) = (of_int (int k - 256) :: u32)" by (metis of_int_sint)
  then have w: "13 + scast (of_nat k :: byte) = (of_int (int k - 243) :: u32)" by simp
  have "(int k - 243) mod 2 ^ 32 = int k - 243 + 2 ^ 32"
    using k mod_add_self2 [of "int k - 243" "2 ^ 32"] by simp
  then have "uint (of_int (int k - 243) :: u32) = int k - 243 + 2 ^ 32"
    by (simp add: uint_word_of_int del: of_int_diff)
  then have "uint (13 + scast (of_nat k :: byte) :: u32) = int k - 243 + 2 ^ 32" by (simp only: w)
  then show ?thesis using k by (simp add: unat_eq_nat_uint)
qed

text \<open>A correct option with a value of 141 to 255 bytes is refused by \<^verbatim>\<open>_coap_message_deserialize_option\<close>: its one-byte
  extension is read through a signed \<^verbatim>\<open>char\<close> and makes the length huge.\<close>

theorem coap_long_option_refused:
  assumes "field_ok (unat d)" "141 \<le> length (option_val op)" "length (option_val op) < 256"
    "bytes_at buf p (option_bytes d op)" "length (option_bytes d op) \<le> len" "len < 2 ^ 31"
  shows "coap_message_deserialize_option A msg buf p len m = Some (Inl QCLOUD_ERR_COAP_DATA_SIZE, m)"
proof -
  let ?d = "option_extension (unat d)" and ?n = "length (option_val op)"
  obtain k where k: "?n = 13 + k" "128 \<le> k" "k < 243" using assms(2,3) le_Suc_ex [of 13 ?n] by fastforce
  have b: "rd buf p = Some (push_bit 4 (option_nibble (unat d)) OR option_nibble ?n)"
    "bytes_at buf (Suc p) ?d" "rd buf (Suc p + length ?d) = Some (of_nat (?n - 13))"
    using assms(2-4) by (simp_all add: option_bytes_def bytes_at_append option_extension_def)
  have s: "Suc (Suc (length ?d + ?n)) \<le> len" using assms(2,3,5) by (simp add: option_bytes_def option_extension_def)
  have f1: "option_field (ucast (option_nibble (unat d))) buf (Suc p) (len - 1) =
      Some (Inr (of_nat (unat d), Suc p + length ?d, len - 1 - length ?d))"
    using assms(1) b(2) s by (intro option_field_at) auto
  have f2: "option_field (ucast (option_nibble ?n)) buf (Suc p + length ?d) (len - 1 - length ?d) =
      Some (Inr (13 + scast (of_nat k :: byte), Suc p + length ?d + 1, len - 1 - length ?d - 1))"
    using b(3) k s by (auto simp: option_field_def nibble_u32)
  have big: "2 ^ 31 \<le> unat (13 + scast (of_nat k :: byte) :: u32)"
    using k(2,3) by (rule scast_large)
  obtain c where c: "rd buf p = Some c" "drop_bit 4 c AND 15 = option_nibble (unat d)" "c AND 15 = option_nibble ?n"
    using b(1) nibbles [OF option_nibble_take option_nibble_take] by blast
  show ?thesis
    using s c f1 f2 big assms(6)
    by (auto simp: coap_message_deserialize_option_def Let_def option_nibble_not_15)
qed

section \<open>Concrete messages\<close>

text \<open>A confirmable POST with a two-byte token, the path option, a private option and a payload.\<close>

definition demo_coap :: CoAPMessage where
  "demo_coap = DEFAULT_COAP_MESSAGE\<lparr>coap_msg_id := 258, coap_token := [7, 9, 0, 0, 0, 0, 0, 0], coap_token_len := 2,
     op_list := [\<lparr>option_num = 11, option_val = [97, 98]\<rparr>, \<lparr>option_num = 2049, option_val = [99]\<rparr>],
     pay_load := Some [1, 2, 3], pay_load_len := 3\<rparr>"

lemma demo_coap_ok: "coap_message_ok demo_coap"
  by (simp add: coap_message_ok_def demo_coap_def DEFAULT_COAP_MESSAGE_def field_ok_def) (simp add: eval_nat_numeral)

theorem coap_round_trip_witness:
  "(\<exists>buf' n x'. serialize_coap_message demo_coap (replicate 64 0) 64 = Some (Inr (buf', n)) \<and>
      deserialize_coap_message (\<lambda>m. (True, m)) zero_message buf' n () = Some ((coap_msg_check demo_coap, demo_coap), x')) \<and>
   coap_msg_check demo_coap = QCLOUD_RET_SUCCESS"
proof
  have "length (coap_bytes demo_coap) = 17"
    by (simp add: coap_bytes_def coap_header_bytes_def coap_payload_bytes_def demo_coap_def DEFAULT_COAP_MESSAGE_def option_bytes_def
        option_extension_def)
  then show "\<exists>buf' n x'. serialize_coap_message demo_coap (replicate 64 0) 64 = Some (Inr (buf', n)) \<and>
      deserialize_coap_message (\<lambda>m. (True, m)) zero_message buf' n () = Some ((coap_msg_check demo_coap, demo_coap), x')"
    by (intro coap_round_trip) (simp_all add: demo_coap_ok, simp add: demo_coap_def)
  show "coap_msg_check demo_coap = QCLOUD_RET_SUCCESS"
    by (simp add: coap_msg_check_def demo_coap_def DEFAULT_COAP_MESSAGE_def)
qed

theorem coap_deserialize_safe_witness:
  "\<exists>rc msg x'. deserialize_coap_message (\<lambda>m. (True, m)) zero_message [64, 1, 0, 1, 209, 0] 5 () = Some ((rc, msg), x') \<and>
    (rc = QCLOUD_ERR_COAP_INTERNAL \<and> msg = zero_message \<or> rc = coap_msg_check msg \<and> coap_message_read_ok msg 5)"
  by (rule coap_deserialize_safe) simp_all

theorem coap_option_add_order_witness:
  "map option_num (op_list (snd (fst (coap_message_option_add (\<lambda>m. (True, m)) 11 [100] demo_coap ())))) = [11, 11, 2049]"
proof -
  obtain message' where m: "coap_message_option_add (\<lambda>m. (True, m)) 11 [100] demo_coap () = ((QCLOUD_RET_SUCCESS, message'), ())"
    by (simp add: coap_message_option_add_def qcloud_iot_coap_option_init_def)
  have "sorted (map option_num (op_list demo_coap))" by (simp add: demo_coap_def)
  from coap_option_add_order [OF this m] show ?thesis unfolding m by (simp add: demo_coap_def)
qed

theorem coap_option_overrun_witness:
  "coap_msg_format_op \<lparr>option_num = 11, option_val = replicate 13 97\<rparr> 0 (replicate 14 0) 0 14 = None"
  by (rule coap_option_overrun) simp_all

theorem coap_long_option_refused_witness:
  "coap_message_deserialize_option (\<lambda>m. (True, m)) zero_message
     (option_bytes 11 \<lparr>option_num = 11, option_val = replicate 200 97\<rparr>) 0 202 () = Some (Inl QCLOUD_ERR_COAP_DATA_SIZE, ())"
  using coap_long_option_refused [of 11 "\<lparr>option_num = 11, option_val = replicate 200 97\<rparr>"
      "option_bytes 11 \<lparr>option_num = 11, option_val = replicate 200 97\<rparr>" 0 202]
    bytes_at_whole [of "option_bytes 11 \<lparr>option_num = 11, option_val = replicate 200 97\<rparr>" "[]"]
  by (simp add: field_ok_def) (simp add: option_bytes_def option_extension_def)

end
