(* ===== verification/Mqtt_Codec.thy ===== *)
theory Mqtt_Codec
  imports Iot_Prelude
begin

text \<open>
  The MQTT 3.1.1 wire format: \<^verbatim>\<open>sdk_src/protocol/mqtt/mqtt_client_common.c\<close> (fixed header,
  remaining length, integers and strings, acknowledgements) and the serializers and
  deserializers of \<^verbatim>\<open>mqtt_client_publish.c\<close>, \<^verbatim>\<open>mqtt_client_subscribe.c\<close>,
  \<^verbatim>\<open>mqtt_client_unsubscribe.c\<close> and \<^verbatim>\<open>mqtt_client_connect.c\<close>.

  A serializer returns \<open>Inl rc\<close> for an error code (nothing has been written then) or \<open>Inr\<close> of
  the buffer it has filled and the serialized length; a deserializer returns \<open>Inl rc\<close> or
  \<open>Inr\<close> of its output parameters. The whole is an \<^typ>\<open>'a option\<close>, \<^const>\<open>None\<close> for an access outside
  the buffer. Checks of pointers that every caller passes as the address of a local or of an
  array field (\<^verbatim>\<open>POINTER_SANITY_CHECK\<close> on those) have no counterpart.
\<close>

type_synonym 'a cres = "(int + 'a) option"

subsection \<open>Message types, quality of service, fixed header\<close>

datatype MessageTypes =
  RESERVED | CONNECT | CONNACK | PUBLISH | PUBACK | PUBREC | PUBREL | PUBCOMP
| SUBSCRIBE | SUBACK | UNSUBSCRIBE | UNSUBACK | PINGREQ | PINGRESP | DISCONNECT

primrec msgTypes :: "MessageTypes \<Rightarrow> u8" where
  "msgTypes RESERVED = 0"
| "msgTypes CONNECT = 1"
| "msgTypes CONNACK = 2"
| "msgTypes PUBLISH = 3"
| "msgTypes PUBACK = 4"
| "msgTypes PUBREC = 5"
| "msgTypes PUBREL = 6"
| "msgTypes PUBCOMP = 7"
| "msgTypes SUBSCRIBE = 8"
| "msgTypes SUBACK = 9"
| "msgTypes UNSUBSCRIBE = 10"
| "msgTypes UNSUBACK = 11"
| "msgTypes PINGREQ = 12"
| "msgTypes PINGRESP = 13"
| "msgTypes DISCONNECT = 14"

text \<open>\<^verbatim>\<open>QoS\<close> variables are assigned from received bytes by a cast, so they can hold values
  outside the enumeration; they are bytes here.\<close>

type_synonym QoS = u8

abbreviation QOS0 :: QoS where "QOS0 \<equiv> 0"
abbreviation QOS1 :: QoS where "QOS1 \<equiv> 1"
abbreviation QOS2 :: QoS where "QOS2 \<equiv> 2"

abbreviation QCLOUD_IOT_MQTT_TX_BUF_LEN :: nat where "QCLOUD_IOT_MQTT_TX_BUF_LEN \<equiv> 2048"
abbreviation QCLOUD_IOT_MQTT_RX_BUF_LEN :: nat where "QCLOUD_IOT_MQTT_RX_BUF_LEN \<equiv> 2048"
abbreviation MAX_NO_OF_REMAINING_LENGTH_BYTES :: nat where "MAX_NO_OF_REMAINING_LENGTH_BYTES \<equiv> 4"

definition header_type :: "u8 \<Rightarrow> u8" where
  "header_type h = drop_bit 4 (h AND 0xF0)"

definition header_dup :: "u8 \<Rightarrow> u8" where
  "header_dup h = drop_bit 3 (h AND 0x08)"

definition header_qos :: "u8 \<Rightarrow> QoS" where
  "header_qos h = drop_bit 1 (h AND 0x06)"

definition header_retained :: "u8 \<Rightarrow> u8" where
  "header_retained h = h AND 0x01"

definition mqtt_init_packet_header :: "MessageTypes \<Rightarrow> QoS \<Rightarrow> u8 \<Rightarrow> u8 \<Rightarrow> int + u8" where
  "mqtt_init_packet_header message_type Qos dup retained =
     (if message_type = RESERVED then Inl QCLOUD_ERR_MQTT_UNKNOWN
      else let type = msgTypes message_type;
               qos = (if Qos = QOS0 then 0x00 else if Qos = QOS1 then 0x01
                      else if Qos = QOS2 then 0x02 else (0x00 :: u8))
           in Inr ((push_bit 4 type AND 0xF0) OR (push_bit 3 dup AND 0x08) OR
                   (push_bit 1 qos AND 0x06) OR (retained AND 0x01)))"

subsection \<open>Reading and writing through an advancing pointer\<close>

definition mqtt_read_char :: "byte list \<Rightarrow> nat \<Rightarrow> (byte \<times> nat) option" where
  "mqtt_read_char buf p = do { c \<leftarrow> rd buf p; Some (c, p + 1) }"

definition mqtt_read_uint16_t :: "byte list \<Rightarrow> nat \<Rightarrow> (u16 \<times> nat) option" where
  "mqtt_read_uint16_t buf p = do {
     firstByte \<leftarrow> rd buf p;
     secondByte \<leftarrow> rd buf (p + 1);
     Some (of_nat (unat secondByte + 256 * unat firstByte), p + 2) }"

definition mqtt_write_char :: "byte list \<Rightarrow> nat \<Rightarrow> byte \<Rightarrow> (byte list \<times> nat) option" where
  "mqtt_write_char buf p c = do { b \<leftarrow> wr buf p c; Some (b, p + 1) }"

definition mqtt_write_uint_16 :: "byte list \<Rightarrow> nat \<Rightarrow> u16 \<Rightarrow> (byte list \<times> nat) option" where
  "mqtt_write_uint_16 buf p anInt = do {
     b \<leftarrow> wr buf p (of_nat (unat anInt div 256));
     b \<leftarrow> wr b (p + 1) (of_nat (unat anInt mod 256));
     Some (b, p + 2) }"

definition mqtt_write_utf8_string :: "byte list \<Rightarrow> nat \<Rightarrow> byte list \<Rightarrow> (byte list \<times> nat) option" where
  "mqtt_write_utf8_string buf p string = do {
     let len = length string;
     (b, p) \<leftarrow> mqtt_write_uint_16 buf p (of_nat len);
     b \<leftarrow> wr_bytes b p string;
     Some (b, p + len) }"

subsection \<open>The remaining length\<close>

text \<open>The loop of \<^verbatim>\<open>mqtt_write_packet_rem_len\<close>, from the byte at \<open>outLen\<close> on.\<close>

function mqtt_write_rem_len_loop :: "byte list \<Rightarrow> nat \<Rightarrow> u32 \<Rightarrow> nat \<Rightarrow> (byte list \<times> nat) option" where
  "mqtt_write_rem_len_loop buf ptr rem outLen =
     (let encodeByte = (of_nat (unat rem mod 128) :: byte);
          rem = rem div 128;
          encodeByte = (if rem > 0 then encodeByte OR 0x80 else encodeByte)
      in do {
           b \<leftarrow> wr buf (ptr + outLen) encodeByte;
           if rem > 0 then mqtt_write_rem_len_loop b ptr rem (outLen + 1)
           else Some (b, outLen + 1) })"
  by pat_completeness auto
termination
  by (relation "measure (\<lambda>(buf, ptr, rem, outLen). unat rem)")
     (auto simp: unat_div word_less_nat_alt)

declare mqtt_write_rem_len_loop.simps [simp del]

definition mqtt_write_packet_rem_len :: "byte list \<Rightarrow> nat \<Rightarrow> u32 \<Rightarrow> (byte list \<times> nat) option" where
  "mqtt_write_packet_rem_len buf ptr rem = mqtt_write_rem_len_loop buf ptr rem 0"

text \<open>\<^verbatim>\<open>get_mqtt_packet_len\<close> works on \<open>size_t\<close>; its argument comes from a \<open>uint32_t\<close>, so nothing wraps.\<close>

definition get_mqtt_packet_len :: "nat \<Rightarrow> nat" where
  "get_mqtt_packet_len rem_len =
     (let rem_len = rem_len + 1
      in if rem_len < 128 then rem_len + 1
         else if rem_len < 16384 then rem_len + 2
         else if rem_len < 2097151 then rem_len + 3
         else rem_len + 4)"

function decode_rem_len_loop :: "byte list \<Rightarrow> nat \<Rightarrow> u32 \<Rightarrow> u32 \<Rightarrow> nat \<Rightarrow> (u32 \<times> nat) cres" where
  "decode_rem_len_loop buf bufptr value multiplier len =
     (if len + 1 > MAX_NO_OF_REMAINING_LENGTH_BYTES then Some (Inl QCLOUD_ERR_MQTT_PACKET_READ)
      else do {
        c \<leftarrow> rd buf bufptr;
        let value = value + ucast (c AND 127) * multiplier;
        if c AND 128 \<noteq> 0
        then decode_rem_len_loop buf (bufptr + 1) value (multiplier * 128) (len + 1)
        else Some (Inr (value, len + 1)) })"
  by pat_completeness auto
termination
  by (relation "measure (\<lambda>(buf, bufptr, value, multiplier, len). 5 - len)") auto

declare decode_rem_len_loop.simps [simp del]

definition mqtt_read_packet_rem_len_form_buf :: "byte list \<Rightarrow> nat \<Rightarrow> (u32 \<times> nat) cres" where
  "mqtt_read_packet_rem_len_form_buf buf p = decode_rem_len_loop buf p 0 1 0"

subsection \<open>Acknowledgement packets\<close>

definition deserialize_ack_packet :: "byte list \<Rightarrow> nat \<Rightarrow> (u8 \<times> u8 \<times> u16) cres" where
  "deserialize_ack_packet buf buf_len =
     (if 4 > buf_len then Some (Inl QCLOUD_ERR_BUF_TOO_SHORT)
      else do {
        (header, curdata) \<leftarrow> mqtt_read_char buf 0;
        let packet_type = header_type header;
        let dup = header_dup header;
        r \<leftarrow> mqtt_read_packet_rem_len_form_buf buf curdata;
        (case r of
           Inl rc \<Rightarrow> Some (Inl rc)
         | Inr (decodedLen, readBytesLen) \<Rightarrow> do {
             let curdata = curdata + readBytesLen;
             let enddata = curdata + unat decodedLen;
             if int enddata - int curdata < 2 then Some (Inl QCLOUD_ERR_FAILURE)
             else do {
               (packet_id, curdata) \<leftarrow> mqtt_read_uint16_t buf curdata;
               if int enddata - int curdata \<ge> 1
               then do {
                 (ack_code, curdata) \<leftarrow> mqtt_read_char buf curdata;
                 if ack_code \<noteq> 0 then Some (Inl QCLOUD_ERR_FAILURE)
                 else Some (Inr (packet_type, dup, packet_id)) }
               else Some (Inr (packet_type, dup, packet_id)) } }) })"

definition deserialize_unsuback_packet :: "byte list \<Rightarrow> nat \<Rightarrow> u16 cres" where
  "deserialize_unsuback_packet buf buf_len = do {
     r \<leftarrow> deserialize_ack_packet buf buf_len;
     (case r of
        Inl rc \<Rightarrow> Some (Inl rc)
      | Inr (type, dup, packet_id) \<Rightarrow>
          if msgTypes UNSUBACK \<noteq> type then Some (Inl QCLOUD_ERR_FAILURE) else Some (Inr packet_id)) }"

text \<open>The payload loop of \<^verbatim>\<open>deserialize_suback_packet\<close>; \<open>grantedQoSs\<close> is the caller's array.\<close>

function suback_qos_loop ::
  "byte list \<Rightarrow> nat \<Rightarrow> nat \<Rightarrow> nat \<Rightarrow> nat \<Rightarrow> QoS list \<Rightarrow> (nat \<times> QoS list) cres" where
  "suback_qos_loop buf curdata enddata max_count count grantedQoSs =
     (if curdata < enddata
      then if count > max_count then Some (Inl QCLOUD_ERR_FAILURE)
           else do {
             (c, curdata') \<leftarrow> mqtt_read_char buf curdata;
             grantedQoSs \<leftarrow> wr grantedQoSs count c;
             suback_qos_loop buf (curdata + 1) enddata max_count (count + 1) grantedQoSs }
      else Some (Inr (count, grantedQoSs)))"
  by pat_completeness auto
termination
  by (relation "measure (\<lambda>(buf, curdata, enddata, max_count, count, grantedQoSs). enddata - curdata)") auto

declare suback_qos_loop.simps [simp del]

definition deserialize_suback_packet ::
  "nat \<Rightarrow> QoS list \<Rightarrow> byte list \<Rightarrow> nat \<Rightarrow> (u16 \<times> nat \<times> QoS list) cres" where
  "deserialize_suback_packet max_count grantedQoSs buf buf_len =
     (if 5 > buf_len then Some (Inl QCLOUD_ERR_BUF_TOO_SHORT)
      else do {
        (header, curdata) \<leftarrow> mqtt_read_char buf 0;
        if header_type header \<noteq> msgTypes SUBACK then Some (Inl QCLOUD_ERR_FAILURE)
        else do {
          r \<leftarrow> mqtt_read_packet_rem_len_form_buf buf curdata;
          (case r of
             Inl rc \<Rightarrow> Some (Inl rc)
           | Inr (decodedLen, readBytesLen) \<Rightarrow> do {
               let curdata = curdata + readBytesLen;
               let enddata = curdata + unat decodedLen;
               if int enddata - int curdata < 2 then Some (Inl QCLOUD_ERR_FAILURE)
               else do {
                 (packet_id, curdata) \<leftarrow> mqtt_read_uint16_t buf curdata;
                 q \<leftarrow> suback_qos_loop buf curdata enddata max_count 0 grantedQoSs;
                 (case q of
                    Inl rc \<Rightarrow> Some (Inl rc)
                  | Inr (count, granted) \<Rightarrow> Some (Inr (packet_id, count, granted))) } }) } })"

definition serialize_packet_with_zero_payload ::
  "byte list \<Rightarrow> nat \<Rightarrow> MessageTypes \<Rightarrow> (byte list \<times> nat) cres" where
  "serialize_packet_with_zero_payload buf buf_len packetType =
     (if 4 > buf_len then Some (Inl QCLOUD_ERR_BUF_TOO_SHORT)
      else (case mqtt_init_packet_header packetType QOS0 0 0 of
              Inl rc \<Rightarrow> Some (Inl rc)
            | Inr header \<Rightarrow> do {
                (b, ptr) \<leftarrow> mqtt_write_char buf 0 header;
                (b, n) \<leftarrow> mqtt_write_packet_rem_len b ptr 0;
                Some (Inr (b, ptr + n)) }))"

definition serialize_pub_ack_packet ::
  "byte list \<Rightarrow> nat \<Rightarrow> MessageTypes \<Rightarrow> u8 \<Rightarrow> u16 \<Rightarrow> (byte list \<times> nat) cres" where
  "serialize_pub_ack_packet buf buf_len packet_type dup packet_id =
     (let requestQoS = (if PUBREL = packet_type then QOS1 else QOS0)
      in if 4 > buf_len then Some (Inl QCLOUD_ERR_BUF_TOO_SHORT)
         else (case mqtt_init_packet_header packet_type requestQoS dup 0 of
                 Inl rc \<Rightarrow> Some (Inl rc)
               | Inr header \<Rightarrow> do {
                   (b, ptr) \<leftarrow> mqtt_write_char buf 0 header;
                   (b, n) \<leftarrow> mqtt_write_packet_rem_len b ptr 2;
                   (b, ptr) \<leftarrow> mqtt_write_uint_16 b (ptr + n) packet_id;
                   Some (Inr (b, ptr)) }))"

subsection \<open>PUBLISH packets\<close>

record publish_fields =
  pf_dup :: u8
  pf_qos :: QoS
  pf_retained :: u8
  pf_packet_id :: "u16 option"   \<comment> \<open>\<^const>\<open>None\<close>: left unwritten, as for QoS 0\<close>
  pf_topic :: nat                \<comment> \<open>offset of the topic name in the buffer\<close>
  pf_topic_len :: u16
  pf_payload :: nat              \<comment> \<open>offset of the payload\<close>
  pf_payload_len :: size_t

definition read_string_with_len :: "byte list \<Rightarrow> nat \<Rightarrow> nat \<Rightarrow> (nat \<times> u16 \<times> nat) cres" where
  "read_string_with_len buf p enddata =
     (if int enddata - int p > 1
      then do {
        (stringLen, p) \<leftarrow> mqtt_read_uint16_t buf p;
        if unat stringLen > QCLOUD_IOT_MQTT_RX_BUF_LEN then Some (Inl QCLOUD_ERR_FAILURE)
        else if p + unat stringLen \<le> enddata then Some (Inr (p, stringLen, p + unat stringLen))
        else Some (Inl QCLOUD_ERR_FAILURE) }
      else Some (Inl QCLOUD_ERR_FAILURE))"

definition deserialize_publish_packet :: "byte list \<Rightarrow> nat \<Rightarrow> publish_fields cres" where
  "deserialize_publish_packet buf buf_len =
     (if 4 > buf_len then Some (Inl QCLOUD_ERR_BUF_TOO_SHORT)
      else do {
        (header, curdata) \<leftarrow> mqtt_read_char buf 0;
        let dup = header_dup header;
        let qos = header_qos header;
        let retained = header_retained header;
        if msgTypes PUBLISH \<noteq> header_type header then Some (Inl QCLOUD_ERR_FAILURE)
        else do {
          r \<leftarrow> mqtt_read_packet_rem_len_form_buf buf curdata;
          (case r of
             Inl rc \<Rightarrow> Some (Inl rc)
           | Inr (decodedLen, readBytesLen) \<Rightarrow> do {
               let curdata = curdata + readBytesLen;
               let enddata = curdata + unat decodedLen;
               s \<leftarrow> read_string_with_len buf curdata enddata;
               (case s of
                  Inl rc \<Rightarrow> Some (Inl QCLOUD_ERR_FAILURE)
                | Inr (topicName, topicNameLen, curdata) \<Rightarrow>
                    if 0 > int enddata - int curdata then Some (Inl QCLOUD_ERR_FAILURE)
                    else do {
                      (packet_id, curdata) \<leftarrow>
                        (if QOS0 \<noteq> qos
                         then do { (i, p) \<leftarrow> mqtt_read_uint16_t buf curdata; Some (Some i, p) }
                         else Some (None, curdata));
                      Some (Inr \<lparr>pf_dup = dup, pf_qos = qos, pf_retained = retained,
                                 pf_packet_id = packet_id, pf_topic = topicName,
                                 pf_topic_len = topicNameLen, pf_payload = curdata,
                                 pf_payload_len = of_int (int enddata - int curdata)\<rparr>) }) }) } })"

definition get_publish_packet_len :: "u8 \<Rightarrow> byte list \<Rightarrow> nat \<Rightarrow> u32" where
  "get_publish_packet_len qos topicName payload_len =
     of_nat (2 + length topicName + payload_len + (if qos > 0 then 2 else 0))"

definition serialize_publish_packet ::
  "byte list \<Rightarrow> nat \<Rightarrow> u8 \<Rightarrow> QoS \<Rightarrow> u8 \<Rightarrow> u16 \<Rightarrow> byte list \<Rightarrow> byte list option \<Rightarrow> (byte list \<times> nat) cres" where
  "serialize_publish_packet buf buf_len dup qos retained packet_id topicName payload =
     (case payload of
        None \<Rightarrow> Some (Inl QCLOUD_ERR_INVAL)
      | Some payload \<Rightarrow>
          let rem_len = get_publish_packet_len qos topicName (length payload)
          in if get_mqtt_packet_len (unat rem_len) > buf_len then Some (Inl QCLOUD_ERR_BUF_TOO_SHORT)
             else (case mqtt_init_packet_header PUBLISH qos dup retained of
                     Inl rc \<Rightarrow> Some (Inl rc)
                   | Inr header \<Rightarrow> do {
                       (b, ptr) \<leftarrow> mqtt_write_char buf 0 header;
                       (b, n) \<leftarrow> mqtt_write_packet_rem_len b ptr rem_len;
                       (b, ptr) \<leftarrow> mqtt_write_utf8_string b (ptr + n) topicName;
                       (b, ptr) \<leftarrow> (if qos > 0 then mqtt_write_uint_16 b ptr packet_id else Some (b, ptr));
                       b \<leftarrow> wr_bytes b ptr payload;
                       Some (Inr (b, ptr + length payload)) }))"

subsection \<open>SUBSCRIBE and UNSUBSCRIBE packets\<close>

text \<open>The packet builders take an array of strings but read \<^verbatim>\<open>*topicFilters + i\<close>: the first string
  from its character \<open>i\<close> on. The callers pass one filter and \<open>count = 1\<close>.\<close>

definition cstr_off :: "byte list \<Rightarrow> nat \<Rightarrow> byte list option" where
  "cstr_off s i = (if i \<le> length s then Some (drop i s) else None)"

function sub_rem_len_loop :: "nat \<Rightarrow> nat \<Rightarrow> nat \<Rightarrow> byte list \<Rightarrow> nat \<Rightarrow> nat option" where
  "sub_rem_len_loop extra i count topicFilters len =
     (if i < count
      then do { s \<leftarrow> cstr_off topicFilters i;
                sub_rem_len_loop extra (i + 1) count topicFilters (len + (2 + length s + extra)) }
      else Some len)"
  by pat_completeness auto
termination
  by (relation "measure (\<lambda>(extra, i, count, topicFilters, len). count - i)") auto

declare sub_rem_len_loop.simps [simp del]

definition get_subscribe_packet_rem_len :: "nat \<Rightarrow> byte list \<Rightarrow> u32 option" where
  "get_subscribe_packet_rem_len count topicFilters = map_option of_nat (sub_rem_len_loop 1 0 count topicFilters 2)"

definition get_unsubscribe_packet_rem_len :: "nat \<Rightarrow> byte list \<Rightarrow> u32 option" where
  "get_unsubscribe_packet_rem_len count topicFilters = map_option of_nat (sub_rem_len_loop 0 0 count topicFilters 2)"

function sub_payload_loop ::
  "QoS list option \<Rightarrow> byte list \<Rightarrow> nat \<Rightarrow> nat \<Rightarrow> nat \<Rightarrow> byte list \<Rightarrow> (byte list \<times> nat) option" where
  "sub_payload_loop requestedQoSs buf ptr i count topicFilters =
     (if i < count
      then do {
        s \<leftarrow> cstr_off topicFilters i;
        (b, ptr) \<leftarrow> mqtt_write_utf8_string buf ptr s;
        (b, ptr) \<leftarrow> (case requestedQoSs of
                       None \<Rightarrow> Some (b, ptr)
                     | Some qs \<Rightarrow> do { q \<leftarrow> rd qs i; mqtt_write_char b ptr q });
        sub_payload_loop requestedQoSs b ptr (i + 1) count topicFilters }
      else Some (buf, ptr))"
  by pat_completeness auto
termination
  by (relation "measure (\<lambda>(requestedQoSs, buf, ptr, i, count, topicFilters). count - i)") auto

declare sub_payload_loop.simps [simp del]

definition serialize_subscribe_packet ::
  "byte list \<Rightarrow> nat \<Rightarrow> u8 \<Rightarrow> u16 \<Rightarrow> nat \<Rightarrow> byte list \<Rightarrow> QoS list \<Rightarrow> (byte list \<times> nat) cres" where
  "serialize_subscribe_packet buf buf_len dup packet_id count topicFilters requestedQoSs = do {
     rem_len \<leftarrow> get_subscribe_packet_rem_len count topicFilters;
     if get_mqtt_packet_len (unat rem_len) > buf_len then Some (Inl QCLOUD_ERR_BUF_TOO_SHORT)
     else (case mqtt_init_packet_header SUBSCRIBE QOS1 dup 0 of
             Inl rc \<Rightarrow> Some (Inl rc)
           | Inr header \<Rightarrow> do {
               (b, ptr) \<leftarrow> mqtt_write_char buf 0 header;
               (b, n) \<leftarrow> mqtt_write_packet_rem_len b ptr rem_len;
               (b, ptr) \<leftarrow> mqtt_write_uint_16 b (ptr + n) packet_id;
               (b, ptr) \<leftarrow> sub_payload_loop (Some requestedQoSs) b ptr 0 count topicFilters;
               Some (Inr (b, ptr)) }) }"

definition serialize_unsubscribe_packet ::
  "byte list \<Rightarrow> nat \<Rightarrow> u8 \<Rightarrow> u16 \<Rightarrow> nat \<Rightarrow> byte list \<Rightarrow> (byte list \<times> nat) cres" where
  "serialize_unsubscribe_packet buf buf_len dup packet_id count topicFilters = do {
     rem_len \<leftarrow> get_unsubscribe_packet_rem_len count topicFilters;
     if get_mqtt_packet_len (unat rem_len) > buf_len then Some (Inl QCLOUD_ERR_BUF_TOO_SHORT)
     else (case mqtt_init_packet_header UNSUBSCRIBE QOS1 dup 0 of
             Inl rc \<Rightarrow> Some (Inl rc)
           | Inr header \<Rightarrow> do {
               (b, ptr) \<leftarrow> mqtt_write_char buf 0 header;
               (b, n) \<leftarrow> mqtt_write_packet_rem_len b ptr rem_len;
               (b, ptr) \<leftarrow> mqtt_write_uint_16 b (ptr + n) packet_id;
               (b, ptr) \<leftarrow> sub_payload_loop None b ptr 0 count topicFilters;
               Some (Inr (b, ptr)) }) }"

subsection \<open>CONNECT and CONNACK packets\<close>

record MQTTConnectParams =
  client_id :: "byte list"
  username :: "byte list option"
  password :: "byte list option"
  conn_id :: "byte list"
  mqtt_version :: u8
  keep_alive_interval :: u16
  clean_session :: u8
  auto_connect_enable :: u8
  device_secret :: "byte list option"

definition get_packet_connect_rem_len :: "MQTTConnectParams \<Rightarrow> u32" where
  "get_packet_connect_rem_len options =
     of_nat ((if mqtt_version options = 3 then 12 else if mqtt_version options = 4 then 10 else 0)
             + (length (client_id options) + 2)
             + (case username options of None \<Rightarrow> 0 | Some u \<Rightarrow> length u + 2)
             + (case password options of None \<Rightarrow> 0 | Some u \<Rightarrow> length u + 2))"

definition copy_connect_params :: "MQTTConnectParams \<Rightarrow> MQTTConnectParams \<Rightarrow> MQTTConnectParams" where
  "copy_connect_params destination source =
     destination\<lparr>mqtt_version := mqtt_version source, client_id := client_id source,
       username := username source, keep_alive_interval := keep_alive_interval source,
       clean_session := clean_session source, auto_connect_enable := auto_connect_enable source,
       device_secret := device_secret source\<rparr>"

abbreviation QCLOUD_IOT_DEVICE_SDK_APPID :: "byte list" where
  "QCLOUD_IOT_DEVICE_SDK_APPID \<equiv> cstr ''21010406''"
abbreviation MAX_CONN_ID_LEN :: nat where "MAX_CONN_ID_LEN \<equiv> 6"

text \<open>\<^verbatim>\<open>MAX_ACCESS_EXPIRE_TIMEOUT\<close> is 0 in the shipped configuration, so the expiry time is always
  \<open>LONG_MAX\<close> (here of a 64-bit \<open>long\<close>). \<^verbatim>\<open>HAL_Snprintf\<close> keeps at most one byte less than its
  size argument.\<close>

definition connect_username_len :: "byte list \<Rightarrow> nat" where
  "connect_username_len cid = length cid + length QCLOUD_IOT_DEVICE_SDK_APPID + MAX_CONN_ID_LEN + 20"

definition connect_username :: "byte list \<Rightarrow> byte list \<Rightarrow> byte list" where
  "connect_username cid connid =
     take (connect_username_len cid - 1)
       (cid @ cstr '';'' @ QCLOUD_IOT_DEVICE_SDK_APPID @ cstr '';'' @ connid @ cstr '';''
        @ cstr ''9223372036854775807'')"

text \<open>The part of \<^verbatim>\<open>_serialize_connect_packet\<close> after the credentials have been made.\<close>

definition connect_packet_body ::
  "bool \<Rightarrow> byte list \<Rightarrow> nat \<Rightarrow> MQTTConnectParams \<Rightarrow> ((int + byte list \<times> nat) \<times> MQTTConnectParams) option" where
  "connect_packet_body notls buf buf_len options =
     (let rem_len = get_packet_connect_rem_len options
      in if get_mqtt_packet_len (unat rem_len) > buf_len
         then Some (Inl QCLOUD_ERR_BUF_TOO_SHORT, options\<lparr>username := None, password := None\<rparr>)
         else (case mqtt_init_packet_header CONNECT QOS0 0 0 of
                 Inl rc \<Rightarrow> Some (Inl rc, options\<lparr>username := None, password := None\<rparr>)
               | Inr header \<Rightarrow> do {
                   (b, ptr) \<leftarrow> mqtt_write_char buf 0 header;
                   (b, n) \<leftarrow> mqtt_write_packet_rem_len b ptr rem_len;
                   let ptr = ptr + n;
                   (b, ptr) \<leftarrow> (if mqtt_version options = 4
                                then do { (b, ptr) \<leftarrow> mqtt_write_utf8_string b ptr (cstr ''MQTT'');
                                          mqtt_write_char b ptr 4 }
                                else do { (b, ptr) \<leftarrow> mqtt_write_utf8_string b ptr (cstr ''MQIsdp'');
                                          mqtt_write_char b ptr 3 });
                   let flags = (if clean_session options \<noteq> 0 then 0x02 else 0)
                               OR (if username options \<noteq> None then 0x80 else 0)
                               OR (if notls then 0x40 else (0 :: u8));
                   (b, ptr) \<leftarrow> mqtt_write_char b ptr flags;
                   (b, ptr) \<leftarrow> mqtt_write_uint_16 b ptr (keep_alive_interval options);
                   (b, ptr) \<leftarrow> mqtt_write_utf8_string b ptr (client_id options);
                   (b, ptr, options) \<leftarrow>
                     (case (if flags AND 0x80 \<noteq> 0 then username options else None) of
                        None \<Rightarrow> Some (b, ptr, options)
                      | Some u \<Rightarrow> do { (b, ptr) \<leftarrow> mqtt_write_utf8_string b ptr u;
                                      Some (b, ptr, options\<lparr>username := None\<rparr>) });
                   (b, ptr, options) \<leftarrow>
                     (case (if flags AND 0x40 \<noteq> 0 then password options else None) of
                        None \<Rightarrow> Some (b, ptr, options)
                      | Some u \<Rightarrow> do { (b, ptr) \<leftarrow> mqtt_write_utf8_string b ptr u;
                                      Some (b, ptr, options\<lparr>password := None\<rparr>) });
                   Some (Inr (b, ptr), options) }))"

text \<open>
  \<^verbatim>\<open>_serialize_connect_packet\<close> for a device key (\<^verbatim>\<open>AUTH_MODE_KEY\<close>) on a direct connection.
  \<open>notls\<close> is the build option \<^verbatim>\<open>AUTH_WITH_NOTLS\<close>, under which the packet carries the
  password \<open>hmac_sha1(username, device secret);hmacsha1\<close>; \<open>hmac\<close> is \<^verbatim>\<open>utils_hmac_sha1\<close>
  (message, key), \<open>m1\<close> and \<open>m2\<close> say whether the two allocations succeed, \<open>connid\<close> is the
  result of \<^verbatim>\<open>get_next_conn_id\<close>. The options come back as the call leaves them.
\<close>

definition serialize_connect_packet ::
  "bool \<Rightarrow> (byte list \<Rightarrow> byte list \<Rightarrow> byte list) \<Rightarrow> bool \<Rightarrow> bool \<Rightarrow> byte list \<Rightarrow> byte list \<Rightarrow> nat \<Rightarrow>
   MQTTConnectParams \<Rightarrow> ((int + byte list \<times> nat) \<times> MQTTConnectParams) option" where
  "serialize_connect_packet notls hmac m1 m2 connid buf buf_len options =
     (if client_id options = [] then Some (Inl QCLOUD_ERR_INVAL, options)
      else if \<not> m1 then Some (Inl QCLOUD_ERR_MALLOC, options\<lparr>username := None, password := None\<rparr>)
      else
        let options = options\<lparr>conn_id := connid, username := Some (connect_username (client_id options) connid)\<rparr>;
            user = connect_username (client_id options) connid
        in (case (if notls then device_secret options else None) of
              Some secret \<Rightarrow>
                if \<not> m2 then Some (Inl QCLOUD_ERR_MALLOC, options\<lparr>username := None, password := None\<rparr>)
                else connect_packet_body notls buf buf_len
                       (options\<lparr>password := Some (take 50 (hmac user secret @ cstr '';hmacsha1''))\<rparr>)
            | None \<Rightarrow> connect_packet_body notls buf buf_len options))"


primrec connack_code :: "nat \<Rightarrow> int" where
  "connack_code 0 = QCLOUD_RET_MQTT_CONNACK_CONNECTION_ACCEPTED"
| "connack_code (Suc n) =
     (if n = 0 then QCLOUD_ERR_MQTT_CONNACK_UNACCEPTABLE_PROTOCOL_VERSION
      else if n = 1 then QCLOUD_ERR_MQTT_CONNACK_IDENTIFIER_REJECTED
      else if n = 2 then QCLOUD_ERR_MQTT_CONNACK_SERVER_UNAVAILABLE
      else if n = 3 then QCLOUD_ERR_MQTT_CONNACK_BAD_USERDATA
      else if n = 4 then QCLOUD_ERR_MQTT_CONNACK_NOT_AUTHORIZED
      else QCLOUD_ERR_MQTT_CONNACK_UNKNOWN)"

definition deserialize_connack_packet :: "byte list \<Rightarrow> nat \<Rightarrow> (u8 \<times> int) cres" where
  "deserialize_connack_packet buf buflen =
     (if 4 > buflen then Some (Inl QCLOUD_ERR_BUF_TOO_SHORT)
      else do {
        (header, curdata) \<leftarrow> mqtt_read_char buf 0;
        if msgTypes CONNACK \<noteq> header_type header then Some (Inl QCLOUD_ERR_FAILURE)
        else do {
          r \<leftarrow> mqtt_read_packet_rem_len_form_buf buf curdata;
          (case r of
             Inl rc \<Rightarrow> Some (Inl rc)
           | Inr (decodedLen, readBytesLen) \<Rightarrow> do {
               let curdata = curdata + readBytesLen;
               let enddata = curdata + unat decodedLen;
               if int enddata - int curdata \<noteq> 2 then Some (Inl QCLOUD_ERR_FAILURE)
               else do {
                 (flags, curdata) \<leftarrow> mqtt_read_char buf curdata;
                 (connack_rc_char, curdata) \<leftarrow> mqtt_read_char buf curdata;
                 Some (Inr (flags AND 0x01, connack_code (unat connack_rc_char))) } }) } })"

section \<open>The encoders as byte sequences\<close>

text \<open>
  Every writer above is the \<open>put\<close> of an encoding,
  and two writers in sequence are the \<open>put\<close> of the concatenation, so a serializer is one
  \<open>put\<close> of the bytes of its packet.
\<close>

definition u16_bytes :: "u16 \<Rightarrow> byte list" where
  "u16_bytes w = [of_nat (unat w div 256), of_nat (unat w mod 256)]"

definition utf8_bytes :: "byte list \<Rightarrow> byte list" where
  "utf8_bytes s = u16_bytes (of_nat (length s)) @ s"

fun rem_len_bytes :: "nat \<Rightarrow> byte list" where
  "rem_len_bytes n =
     (if n < 128 then [of_nat n] else of_nat (n mod 128 + 128) # rem_len_bytes (n div 128))"

declare rem_len_bytes.simps [simp del]

lemma length_u16_bytes [simp]: "length (u16_bytes w) = 2"
  by (simp add: u16_bytes_def)

lemma length_utf8_bytes [simp]: "length (utf8_bytes s) = length s + 2"
  by (simp add: utf8_bytes_def)

lemma mqtt_write_char_put [codec_simps]: "mqtt_write_char buf p c = put [c] buf p"
  by (cases "wr_bytes buf p [c]") (simp_all add: mqtt_write_char_def put_def wr_eq_wr_bytes)

lemma mqtt_write_uint_16_put [codec_simps]: "mqtt_write_uint_16 buf p w = put (u16_bytes w) buf p"
proof -
  have "mqtt_write_uint_16 buf p w =
      wr_bytes buf p [of_nat (unat w div 256)] \<bind>
        (\<lambda>b. wr_bytes b (p + length [of_nat (unat w div 256) :: byte]) [of_nat (unat w mod 256)]) \<bind>
        (\<lambda>b. Some (b, p + 2))"
    by (simp add: mqtt_write_uint_16_def wr_eq_wr_bytes)
  also have "\<dots> = put (u16_bytes w) buf p"
    by (simp only: wr_bytes_bind)
       (cases "wr_bytes buf p (u16_bytes w)"; simp add: put_def u16_bytes_def)
  finally show ?thesis .
qed

lemma mqtt_write_utf8_string_put [codec_simps]:
  "mqtt_write_utf8_string buf p s = put (utf8_bytes s) buf p"
proof -
  have copy: "wr_bytes b q s \<bind> (\<lambda>b. Some (b, q + length s)) = put s b q" for b q
    by (cases "wr_bytes b q s") (simp_all add: put_def)
  show ?thesis
    by (simp add: mqtt_write_utf8_string_def mqtt_write_uint_16_put copy put_put utf8_bytes_def)
qed

lemma low7_with_top_bit: "n < 128 \<Longrightarrow> (of_nat n :: u8) OR 128 = of_nat (n + 128)"
proof -
  assume n: "n < 128"
  have "(of_nat n :: u8) AND 128 = 0"
    using n by (simp add: u8_top_bit unat_of_nat_u8)
  then have "(of_nat n :: u8) OR 128 = of_nat n + 128"
    using disjunctive_add_eq_or [of "of_nat n :: u8" 128] by simp
  then show ?thesis by simp
qed

lemma mqtt_write_rem_len_loop_put:
  "mqtt_write_rem_len_loop buf ptr rem k =
     map_option (\<lambda>b. (b, k + length (rem_len_bytes (unat rem))))
       (wr_bytes buf (ptr + k) (rem_len_bytes (unat rem)))"
proof (induction buf ptr rem k rule: mqtt_write_rem_len_loop.induct)
  case (1 buf ptr rem k)
  show ?case
  proof (cases "rem div 128 > 0")
    case False
    then have "unat rem < 128"
      by (simp add: word_less_nat_alt unat_div)
    with False show ?thesis
      by (subst mqtt_write_rem_len_loop.simps, subst rem_len_bytes.simps, subst (2) rem_len_bytes.simps)
         (cases "wr_bytes buf (ptr + k) [of_nat (unat rem)]"; simp add: wr_eq_wr_bytes Let_def)
  next
    case True
    then have ge: "\<not> unat rem < 128"
      by (simp add: word_less_nat_alt unat_div)
    let ?c = "of_nat (unat rem mod 128 + 128) :: byte"
    let ?r = "rem_len_bytes (unat rem div 128)"
    have bytes: "rem_len_bytes (unat rem) = [?c] @ ?r"
      using ge by (subst rem_len_bytes.simps) simp
    have c: "(of_nat (unat rem mod 128) :: byte) OR 128 = ?c"
      by (rule low7_with_top_bit) simp
    have step: "mqtt_write_rem_len_loop buf ptr rem k =
        wr_bytes buf (ptr + k) [?c] \<bind> (\<lambda>b. mqtt_write_rem_len_loop b ptr (rem div 128) (k + 1))"
      using True c by (subst mqtt_write_rem_len_loop.simps) (simp add: Let_def wr_eq_wr_bytes)
    have IH: "mqtt_write_rem_len_loop b ptr (rem div 128) (k + 1) =
        map_option (\<lambda>b. (b, k + 1 + length ?r)) (wr_bytes b (ptr + k + length [?c]) ?r)"
      if "wr_bytes buf (ptr + k) [?c] = Some b" for b
      using "1.IH" [OF refl refl refl, of b] True that c by (simp add: unat_div wr_eq_wr_bytes)
    show ?thesis
      unfolding step bytes wr_bytes_bind [symmetric]
      using IH by (cases "wr_bytes buf (ptr + k) [?c]") simp_all
  qed
qed

lemma mqtt_write_packet_rem_len_put:
  "mqtt_write_packet_rem_len buf p rem =
     map_option (\<lambda>(b, q). (b, q - p)) (put (rem_len_bytes (unat rem)) buf p)"
  by (cases "wr_bytes buf p (rem_len_bytes (unat rem))")
     (simp_all add: mqtt_write_packet_rem_len_def mqtt_write_rem_len_loop_put put_def)

lemma mqtt_write_packet_rem_len_bind [codec_simps]:
  "mqtt_write_packet_rem_len buf p rem \<bind> (\<lambda>(b, n). k b (p + n)) =
     put (rem_len_bytes (unat rem)) buf p \<bind> (\<lambda>(b, q). k b q)"
  by (cases "wr_bytes buf p (rem_len_bytes (unat rem))")
     (simp_all add: mqtt_write_packet_rem_len_put put_def)

section \<open>The decoders on encoded bytes\<close>

lemma mqtt_read_char_at: "bytes_at buf p (c # cs) \<Longrightarrow> mqtt_read_char buf p = Some (c, p + 1)"
  by (simp add: mqtt_read_char_def)

lemma mqtt_read_uint16_at:
  assumes "bytes_at buf p (u16_bytes w)"
  shows "mqtt_read_uint16_t buf p = Some (w, p + 2)"
proof -
  have lt: "unat w div 256 < 256" "unat w mod 256 < 256" using unat_u16_lt [of w] by simp_all
  have "mqtt_read_uint16_t buf p =
      Some (of_nat (unat (of_nat (unat w mod 256) :: byte) + 256 * unat (of_nat (unat w div 256) :: byte)), p + 2)"
    using assms by (simp add: mqtt_read_uint16_t_def u16_bytes_def del: of_nat_add of_nat_mult)
  also have "unat (of_nat (unat w mod 256) :: byte) + 256 * unat (of_nat (unat w div 256) :: byte) = unat w"
    unfolding lt [THEN unat_of_nat_u8] by simp
  finally show ?thesis by simp
qed

lemma u8_low7_of_nat:
  assumes "n < 256"
  shows "(ucast ((of_nat n :: u8) AND 127) :: u32) = of_nat (n mod 128)"
proof -
  have "unat ((of_nat n :: u8) AND 127) = n mod 128"
    using assms by (simp add: u8_and_127 unat_of_nat_u8)
  then show ?thesis
    using of_nat_unat [of "(of_nat n :: u8) AND 127", where 'a = "32 word"] by simp
qed

lemma u8_top_of_nat: "n < 256 \<Longrightarrow> (of_nat n :: u8) AND 128 = 0 \<longleftrightarrow> n < 128"
  by (simp add: u8_top_bit unat_of_nat_u8)

lemma length_rem_len_bytes_pos: "0 < length (rem_len_bytes n)"
  by (subst rem_len_bytes.simps) simp

lemma length_rem_len_bytes_le: "length (rem_len_bytes n) \<le> Suc k \<longleftrightarrow> n < 128 ^ Suc k"
proof (induction k arbitrary: n)
  case 0
  then show ?case
    using length_rem_len_bytes_pos [of "n div 128"] by (subst rem_len_bytes.simps) auto
next
  case (Suc k)
  show ?case
  proof (cases "n < 128")
    case True
    have "(128 :: nat) ^ Suc 0 \<le> 128 ^ Suc (Suc k)" by (rule power_increasing) auto
    with True have "n < 128 ^ Suc (Suc k)" by (simp only: power_Suc power_0 mult_1_right)
    with True show ?thesis by (subst rem_len_bytes.simps) simp
  next
    case False
    then have "length (rem_len_bytes n) \<le> Suc (Suc k) \<longleftrightarrow> n div 128 < 128 ^ Suc k"
      using Suc.IH [of "n div 128"] by (subst rem_len_bytes.simps) simp
    also have "\<dots> \<longleftrightarrow> n < 128 ^ Suc (Suc k)"
      by (simp add: div_less_iff_less_mult mult.commute)
    finally show ?thesis .
  qed
qed

lemma decode_rem_len_loop_at:
  assumes "bytes_at buf p (rem_len_bytes n)" "k + length (rem_len_bytes n) \<le> 4"
  shows "decode_rem_len_loop buf p v m k = Some (Inr (v + of_nat n * m, k + length (rem_len_bytes n)))"
  using assms
proof (induction n arbitrary: p v m k rule: rem_len_bytes.induct)
  case (1 n)
  show ?case
  proof (cases "n < 128")
    case True
    with "1.prems" show ?thesis
      by (subst decode_rem_len_loop.simps)
         (simp add: rem_len_bytes.simps [of n] u8_low7_of_nat u8_top_of_nat)
  next
    case False
    let ?c = "n mod 128 + 128"
    have c: "?c < 256" "?c mod 128 = n mod 128" by simp_all
    have bytes: "rem_len_bytes n = of_nat ?c # rem_len_bytes (n div 128)"
      using False by (subst rem_len_bytes.simps) simp
    have top: "(of_nat ?c :: u8) AND 128 \<noteq> 0"
      using c u8_top_of_nat [of ?c] by auto
    have "decode_rem_len_loop buf p v m k =
        decode_rem_len_loop buf (p + 1) (v + of_nat (n mod 128) * m) (m * 128) (k + 1)"
      using "1.prems" bytes top u8_low7_of_nat [OF c(1)] c(2)
      by (subst decode_rem_len_loop.simps) simp
    also have "\<dots> = Some (Inr (v + of_nat (n mod 128) * m + of_nat (n div 128) * (m * 128),
                            k + 1 + length (rem_len_bytes (n div 128))))"
      using "1.prems" bytes by (intro "1.IH" [OF False]) auto
    also have "v + of_nat (n mod 128) * m + of_nat (n div 128) * (m * 128) = v + of_nat n * m"
    proof -
      have "(of_nat n :: u32) = of_nat (n div 128 * 128 + n mod 128)"
        by simp
      then have "(of_nat n :: u32) = of_nat (n div 128) * 128 + of_nat (n mod 128)"
        unfolding of_nat_add of_nat_mult by simp
      then show ?thesis by (simp add: algebra_simps)
    qed
    finally show ?thesis using bytes by simp
  qed
qed

lemma decode_rem_len_loop_overlong:
  assumes "bytes_at buf p (rem_len_bytes n)" "k + length (rem_len_bytes n) > 4" "k \<le> 4"
  shows "decode_rem_len_loop buf p v m k = Some (Inl QCLOUD_ERR_MQTT_PACKET_READ)"
  using assms
proof (induction n arbitrary: p v m k rule: rem_len_bytes.induct)
  case (1 n)
  show ?case
  proof (cases "k = 4")
    case True
    then show ?thesis by (subst decode_rem_len_loop.simps) simp
  next
    case False
    with "1.prems" have n: "\<not> n < 128"
      by (auto simp: rem_len_bytes.simps [of n])
    let ?c = "n mod 128 + 128"
    have c: "?c < 256" "?c mod 128 = n mod 128" by simp_all
    have bytes: "rem_len_bytes n = of_nat ?c # rem_len_bytes (n div 128)"
      using n by (subst rem_len_bytes.simps) simp
    have top: "(of_nat ?c :: u8) AND 128 \<noteq> 0"
      using c u8_top_of_nat [of ?c] by auto
    have "decode_rem_len_loop buf p v m k =
        decode_rem_len_loop buf (p + 1) (v + of_nat (n mod 128) * m) (m * 128) (k + 1)"
      using "1.prems" False bytes top u8_low7_of_nat [OF c(1)] c(2)
      by (subst decode_rem_len_loop.simps) simp
    also have "\<dots> = Some (Inl QCLOUD_ERR_MQTT_PACKET_READ)"
      using "1.prems" bytes False by (intro "1.IH" [OF n]) auto
    finally show ?thesis .
  qed
qed

lemma mqtt_read_packet_rem_len_at:
  assumes "bytes_at buf p (rem_len_bytes n)" "n < 128 ^ 4"
  shows "mqtt_read_packet_rem_len_form_buf buf p = Some (Inr (of_nat n, length (rem_len_bytes n)))"
proof -
  have "length (rem_len_bytes n) \<le> Suc 3"
    unfolding length_rem_len_bytes_le using assms(2) by simp
  then show ?thesis
    using decode_rem_len_loop_at [OF assms(1), of 0 0 1]
    by (simp add: mqtt_read_packet_rem_len_form_buf_def)
qed

text \<open>The decoder reads at most the buffer bytes the length field occupies, whatever they are: when
  four bytes are in range it returns a value or the error, and the field it reports lies in them.\<close>

lemma decode_rem_len_loop_safe:
  assumes "p + (4 - k) \<le> length buf" "k \<le> 4"
  shows "decode_rem_len_loop buf p v m k = Some (Inl QCLOUD_ERR_MQTT_PACKET_READ) \<or>
         (\<exists>v' n. decode_rem_len_loop buf p v m k = Some (Inr (v', n)) \<and> k < n \<and> n \<le> 4)"
  using assms
proof (induction buf p v m k rule: decode_rem_len_loop.induct)
  case (1 buf p v m k)
  show ?case
  proof (cases "k = 4")
    case True
    then show ?thesis by (subst decode_rem_len_loop.simps) (simp add: decode_rem_len_loop.simps)
  next
    case False
    with "1.prems" have r: "rd buf p = Some (buf ! p)" and k: "k + 1 \<le> 4" by (auto simp: rd_def)
    show ?thesis
    proof (cases "(buf ! p) AND 128 = 0")
      case True
      then have "decode_rem_len_loop buf p v m k = Some (Inr (v + ucast ((buf ! p) AND 127) * m, k + 1))"
        using r k by (subst decode_rem_len_loop.simps) simp
      then show ?thesis using k by auto
    next
      case False
      then have "decode_rem_len_loop buf p v m k =
          decode_rem_len_loop buf (p + 1) (v + ucast ((buf ! p) AND 127) * m) (m * 128) (k + 1)"
        using r k by (subst decode_rem_len_loop.simps) simp
      moreover have "decode_rem_len_loop buf (p + 1) (v + ucast ((buf ! p) AND 127) * m) (m * 128) (k + 1)
            = Some (Inl QCLOUD_ERR_MQTT_PACKET_READ) \<or>
          (\<exists>v' n. decode_rem_len_loop buf (p + 1) (v + ucast ((buf ! p) AND 127) * m) (m * 128) (k + 1)
            = Some (Inr (v', n)) \<and> k + 1 < n \<and> n \<le> 4)"
        using k r False "1.prems" by (intro "1.IH" [OF _ r refl]) auto
      ultimately show ?thesis by fastforce
    qed
  qed
qed

section \<open>The interface of the wire codecs\<close>

text \<open>
  What a writer and a reader of one wire element promise each other: the writer stores the
  encoding, the reader finds the value where its encoding stands and skips exactly over it.
  Round trips, unique readability and the reading of consecutive elements follow once for all.
\<close>

locale wire_codec =
  fixes valid :: "'a \<Rightarrow> bool"
    and enc :: "'a \<Rightarrow> byte list"
    and writer :: "byte list \<Rightarrow> nat \<Rightarrow> 'a \<Rightarrow> (byte list \<times> nat) option"
    and reader :: "byte list \<Rightarrow> nat \<Rightarrow> ('a \<times> nat) option"
  assumes writer_put: "writer buf p x = put (enc x) buf p"
    and reader_at: "valid x \<Longrightarrow> bytes_at buf p (enc x) \<Longrightarrow> reader buf p = Some (x, p + length (enc x))"
begin

lemma round_trip:
  assumes "valid x" "writer buf p x = Some (buf', q)"
  shows "reader buf' p = Some (x, q)"
proof -
  have "put (enc x) buf p = Some (buf', q)" using assms(2) writer_put by simp
  then show ?thesis
    using reader_at [OF assms(1) put_bytes_at] by (auto simp: put_Some_iff)
qed

lemma uniquely_readable:
  assumes "valid x" "valid y" "enc x @ r = enc y @ r'"
  shows "x = y \<and> r = r'"
proof -
  have "reader (enc x @ r) 0 = Some (x, length (enc x))"
    using reader_at [OF assms(1) bytes_at_whole] by simp
  moreover have "reader (enc x @ r) 0 = Some (y, length (enc y))"
    using reader_at [OF assms(2) bytes_at_whole] assms(3) by simp
  ultimately show ?thesis using assms(3) by simp
qed

lemma writer_fits: "p + length (enc x) \<le> length buf \<Longrightarrow> \<exists>buf'. writer buf p x = Some (buf', p + length (enc x))"
  by (simp add: writer_put put_fits)

end

text \<open>The reader of a remaining length as an advancing pointer, and of a string as its bytes.\<close>

definition read_rem_len :: "byte list \<Rightarrow> nat \<Rightarrow> (u32 \<times> nat) option" where
  "read_rem_len buf p =
     (case mqtt_read_packet_rem_len_form_buf buf p of Some (Inr (v, n)) \<Rightarrow> Some (v, p + n) | _ \<Rightarrow> None)"

definition write_rem_len :: "byte list \<Rightarrow> nat \<Rightarrow> u32 \<Rightarrow> (byte list \<times> nat) option" where
  "write_rem_len buf p v = map_option (\<lambda>(b, n). (b, p + n)) (mqtt_write_packet_rem_len buf p v)"

definition read_string :: "byte list \<Rightarrow> nat \<Rightarrow> (byte list \<times> nat) option" where
  "read_string buf p =
     (case read_string_with_len buf p (length buf) of
        Some (Inr (q, l, e)) \<Rightarrow> map_option (\<lambda>s. (s, e)) (rd_bytes buf q (unat l))
      | _ \<Rightarrow> None)"

lemma read_string_with_len_at:
  assumes at: "bytes_at buf p (utf8_bytes s)" and len: "length s \<le> 2048"
    and fin: "p + 2 + length s \<le> e"
  shows "read_string_with_len buf p e = Some (Inr (p + 2, of_nat (length s), p + 2 + length s))"
proof -
  have "bytes_at buf p (u16_bytes (of_nat (length s)))"
    using at by (simp add: utf8_bytes_def bytes_at_append)
  then have "mqtt_read_uint16_t buf p = Some (of_nat (length s), p + 2)"
    by (rule mqtt_read_uint16_at)
  then show ?thesis
    using fin len by (simp add: read_string_with_len_def unat_of_nat_u16)
qed

lemma string_bytes_at:
  assumes "bytes_at buf p (utf8_bytes s)"
  shows "rd_bytes buf (p + 2) (length s) = Some s"
proof (cases "s = []")
  case True
  then show ?thesis
    using bytes_at_in_range [OF assms] by (auto simp: rd_bytes_def utf8_bytes_def u16_bytes_def)
next
  case False
  moreover have "bytes_at buf (p + 2) s"
    using assms by (simp add: utf8_bytes_def bytes_at_append)
  ultimately show ?thesis by (simp add: bytes_at_rd_bytes)
qed

interpretation char_codec: wire_codec "\<lambda>_. True" "\<lambda>c. [c]" mqtt_write_char mqtt_read_char
  by unfold_locales (simp_all add: mqtt_write_char_put mqtt_read_char_def)

interpretation u16_codec: wire_codec "\<lambda>_. True" u16_bytes mqtt_write_uint_16 mqtt_read_uint16_t
  by unfold_locales (simp_all add: mqtt_write_uint_16_put mqtt_read_uint16_at)

interpretation rem_len_codec:
  wire_codec "\<lambda>v. unat v < 128 ^ 4" "\<lambda>v. rem_len_bytes (unat v)" write_rem_len read_rem_len
proof
  show "write_rem_len buf p x = put (rem_len_bytes (unat x)) buf p" for buf p x
    by (cases "wr_bytes buf p (rem_len_bytes (unat x))")
       (simp_all add: write_rem_len_def mqtt_write_packet_rem_len_put put_def)
  show "read_rem_len buf p = Some (x, p + length (rem_len_bytes (unat x)))"
    if "unat x < 128 ^ 4" "bytes_at buf p (rem_len_bytes (unat x))" for buf p x
    by (simp add: read_rem_len_def mqtt_read_packet_rem_len_at [OF that(2,1)])
qed

interpretation utf8_codec:
  wire_codec "\<lambda>s. length s \<le> 2048" utf8_bytes mqtt_write_utf8_string read_string
proof
  show "mqtt_write_utf8_string buf p s = put (utf8_bytes s) buf p" for buf p s
    by (rule mqtt_write_utf8_string_put)
  show "read_string buf p = Some (s, p + length (utf8_bytes s))"
    if "length s \<le> 2048" "bytes_at buf p (utf8_bytes s)" for buf p s
  proof -
    have "p + (length s + 2) \<le> length buf"
      using bytes_at_in_range [OF that(2)] by (simp add: utf8_bytes_def u16_bytes_def)
    then show ?thesis
      using read_string_with_len_at [OF that(2,1)] string_bytes_at [OF that(2)] that(1)
      by (simp add: read_string_def unat_of_nat_u16)
  qed
qed

section \<open>The fixed header\<close>

definition packet_header :: "u8 \<Rightarrow> u8 \<Rightarrow> u8 \<Rightarrow> u8 \<Rightarrow> u8" where
  "packet_header t d q r =
     (push_bit 4 t AND 0xF0) OR (push_bit 3 d AND 0x08) OR (push_bit 1 q AND 0x06) OR (r AND 0x01)"

lemma packet_header_fields:
  "header_type (packet_header t d q r) = t AND 15"
  "header_dup (packet_header t d q r) = d AND 1"
  "header_qos (packet_header t d q r) = q AND 3"
  "header_retained (packet_header t d q r) = r AND 1"
  unfolding header_type_def header_dup_def header_qos_def header_retained_def packet_header_def
  by (rule u8_bit_eqI; simp add: bit_simps u8_bit_double)+

lemma qos_cases: "q \<le> (2 :: QoS) \<Longrightarrow> q = 0 \<or> q = 1 \<or> q = 2"
proof -
  assume "q \<le> 2"
  then have "unat q \<le> 2" by (simp add: word_le_nat_alt)
  then have "unat q = 0 \<or> unat q = 1 \<or> unat q = 2" by linarith
  then show ?thesis by (auto simp: word_unat_eq_iff)
qed

lemma mqtt_init_packet_header_eq [codec_simps]:
  "ty \<noteq> RESERVED \<Longrightarrow> q \<le> 2 \<Longrightarrow> mqtt_init_packet_header ty q d r = Inr (packet_header (msgTypes ty) d q r)"
  using qos_cases [of q] by (auto simp: mqtt_init_packet_header_def packet_header_def Let_def)

lemma msgTypes_low_bits: "msgTypes ty AND 15 = msgTypes ty"
  by (cases ty) simp_all

lemma msgTypes_inj: "msgTypes a = msgTypes b \<longleftrightarrow> a = b"
  by (cases a; cases b) simp_all

lemma header_fields:
  assumes "q \<le> 2"
  shows "header_type (packet_header (msgTypes ty) d q r) = msgTypes ty"
    "header_qos (packet_header (msgTypes ty) d q r) = q"
    "header_dup (packet_header (msgTypes ty) d q r) = d AND 1"
    "header_retained (packet_header (msgTypes ty) d q r) = r AND 1"
  using qos_cases [OF assms] by (auto simp: packet_header_fields msgTypes_low_bits)

section \<open>Serializers\<close>

lemma rem_len_put_bind [codec_simps]:
  "mqtt_write_packet_rem_len buf p rem \<bind> (\<lambda>(b, n). put xs b (p + n) \<bind> k) =
     put (rem_len_bytes (unat rem) @ xs) buf p \<bind> k"
proof -
  have "mqtt_write_packet_rem_len buf p rem \<bind> (\<lambda>(b, n). put xs b (p + n) \<bind> k) =
      put (rem_len_bytes (unat rem)) buf p \<bind> (\<lambda>(b, q). put xs b q \<bind> k)"
    by (rule mqtt_write_packet_rem_len_bind)
  then show ?thesis by (simp only: put_put_bind)
qed

lemma wr_bytes_put_bind [codec_simps]:
  "wr_bytes b p bs \<bind> (\<lambda>b. Some (Inr (b, p + length bs))) = put bs b p \<bind> (\<lambda>(b, q). Some (Inr (b, q)))"
  by (cases "wr_bytes b p bs") (simp_all add: put_def)

text \<open>The length the serializers reserve covers the header, the length field and the body.\<close>

lemma length_rem_len_bytes_cases:
  assumes "n < 128 ^ 4"
  shows "length (rem_len_bytes n) = (if n < 128 then 1 else if n < 16384 then 2 else if n < 2097152 then 3 else 4)"
proof -
  define l where "l = length (rem_len_bytes n)"
  have "l \<le> Suc k \<longleftrightarrow> n < 128 ^ Suc k" for k
    unfolding l_def by (rule length_rem_len_bytes_le)
  from this [of 0] this [of 1] this [of 2] this [of 3]
  have "l \<le> Suc 0 \<longleftrightarrow> n < 128" "l \<le> Suc 1 \<longleftrightarrow> n < 16384" "l \<le> Suc 2 \<longleftrightarrow> n < 2097152" "l \<le> Suc 3"
    using assms by simp_all
  moreover have "0 < l" unfolding l_def by (rule length_rem_len_bytes_pos)
  ultimately show ?thesis unfolding l_def [symmetric] by auto
qed

lemma packet_len_covers:
  "n < 128 ^ 4 \<Longrightarrow> 1 + length (rem_len_bytes n) + n \<le> get_mqtt_packet_len n"
  by (simp add: length_rem_len_bytes_cases get_mqtt_packet_len_def)

definition publish_rem_len :: "QoS \<Rightarrow> byte list \<Rightarrow> byte list \<Rightarrow> nat" where
  "publish_rem_len qos topic payload = 2 + length topic + length payload + (if qos > 0 then 2 else 0)"

definition publish_bytes :: "u8 \<Rightarrow> QoS \<Rightarrow> u8 \<Rightarrow> u16 \<Rightarrow> byte list \<Rightarrow> byte list \<Rightarrow> byte list" where
  "publish_bytes dup qos retained pid topic payload =
     packet_header (msgTypes PUBLISH) dup qos retained
     # rem_len_bytes (publish_rem_len qos topic payload)
     @ utf8_bytes topic @ (if qos > 0 then u16_bytes pid else []) @ payload"

lemma length_publish_bytes:
  "length (publish_bytes dup qos retained pid topic payload) =
     1 + length (rem_len_bytes (publish_rem_len qos topic payload)) + publish_rem_len qos topic payload"
  by (simp add: publish_bytes_def publish_rem_len_def)

lemma serialize_publish_put:
  assumes q: "qos \<le> 2" and len: "publish_rem_len qos topic payload < 128 ^ 4"
  shows "serialize_publish_packet buf buf_len dup qos retained pid topic (Some payload) =
     (if get_mqtt_packet_len (publish_rem_len qos topic payload) > buf_len
      then Some (Inl QCLOUD_ERR_BUF_TOO_SHORT)
      else put (publish_bytes dup qos retained pid topic payload) buf 0 \<bind> (\<lambda>(b, n). Some (Inr (b, n))))"
proof -
  have n: "unat (get_publish_packet_len qos topic (length payload)) = publish_rem_len qos topic payload"
    using len unat_of_nat_u32 [of "publish_rem_len qos topic payload"]
    by (simp add: get_publish_packet_len_def publish_rem_len_def del: of_nat_add)
  show ?thesis
    using q by (cases "qos > 0")
      (simp_all add: serialize_publish_packet_def n Let_def codec_simps publish_bytes_def)
qed

text \<open>Acknowledgements: PUBACK, PUBREC, PUBREL and PUBCOMP.\<close>

definition ack_bytes :: "MessageTypes \<Rightarrow> u8 \<Rightarrow> u16 \<Rightarrow> byte list" where
  "ack_bytes ty dup pid =
     packet_header (msgTypes ty) dup (if PUBREL = ty then QOS1 else QOS0) 0 # rem_len_bytes 2 @ u16_bytes pid"

lemma serialize_pub_ack_put:
  assumes "ty \<noteq> RESERVED"
  shows "serialize_pub_ack_packet buf buf_len ty dup pid =
     (if 4 > buf_len then Some (Inl QCLOUD_ERR_BUF_TOO_SHORT)
      else put (ack_bytes ty dup pid) buf 0 \<bind> (\<lambda>(b, n). Some (Inr (b, n))))"
  using assms
  by (simp add: serialize_pub_ack_packet_def Let_def codec_simps ack_bytes_def
      cong: if_cong)

section \<open>Round trips of whole packets\<close>

lemma packet_front:
  assumes "bytes_at buf 0 (h # rem_len_bytes n @ rest)" "n < 128 ^ 4"
  shows "mqtt_read_char buf 0 = Some (h, 1)"
    "mqtt_read_packet_rem_len_form_buf buf 1 = Some (Inr (of_nat n, length (rem_len_bytes n)))"
    "bytes_at buf (1 + length (rem_len_bytes n)) rest"
    "unat (of_nat n :: u32) = n"
proof -
  have at: "bytes_at buf 1 (rem_len_bytes n)" "bytes_at buf (1 + length (rem_len_bytes n)) rest"
    using assms(1) by (simp_all add: bytes_at_append)
  show "mqtt_read_char buf 0 = Some (h, 1)" using assms(1) by (simp add: mqtt_read_char_def)
  show "mqtt_read_packet_rem_len_form_buf buf 1 = Some (Inr (of_nat n, length (rem_len_bytes n)))"
    by (rule mqtt_read_packet_rem_len_at [OF at(1) assms(2)])
  show "bytes_at buf (1 + length (rem_len_bytes n)) rest" by (rule at(2))
  show "unat (of_nat n :: u32) = n" using assms(2) by (intro unat_of_nat_u32) simp
qed

lemma serialized_at:
  assumes "(put bs buf 0 \<bind> (\<lambda>(b, n). Some (Inr (b, n)))) = Some (Inr (buf', len))"
  shows "bytes_at buf' 0 bs" "len = length bs" "length bs \<le> length buf'"
proof -
  have put: "put bs buf 0 = Some (buf', len)" using assms by (cases "put bs buf 0") auto
  show "bytes_at buf' 0 bs" by (rule put_bytes_at [OF put])
  show "len = length bs" "length bs \<le> length buf'" using put by (auto simp: put_Some_iff)
qed

lemma rd_bytes_at_end:
  assumes "bytes_at buf p bs" "p + length bs \<le> length buf"
  shows "rd_bytes buf p (length bs) = Some bs"
  using assms by (cases "bs = []") (simp_all add: bytes_at_rd_bytes, simp add: rd_bytes_def)

definition publish_result :: "u8 \<Rightarrow> u16 option \<Rightarrow> nat \<Rightarrow> u16 \<Rightarrow> nat \<Rightarrow> nat \<Rightarrow> publish_fields" where
  "publish_result h pid t l c e =
     \<lparr>pf_dup = header_dup h, pf_qos = header_qos h, pf_retained = header_retained h,
      pf_packet_id = pid, pf_topic = t, pf_topic_len = l, pf_payload = c,
      pf_payload_len = of_int (int e - int c)\<rparr>"

lemma deserialize_publish_step:
  assumes "4 \<le> buf_len" "mqtt_read_char buf 0 = Some (h, 1)" "header_type h = msgTypes PUBLISH"
    and "mqtt_read_packet_rem_len_form_buf buf 1 = Some (Inr (v, m))"
    and "read_string_with_len buf (1 + m) (1 + m + unat v) = Some (Inr (t, l, c))" "c \<le> 1 + m + unat v"
  shows "deserialize_publish_packet buf buf_len =
     (if header_qos h \<noteq> 0
      then mqtt_read_uint16_t buf c \<bind>
             (\<lambda>(i, p). Some (Inr (publish_result h (Some i) t l p (1 + m + unat v))))
      else Some (Inr (publish_result h None t l c (1 + m + unat v))))"
  using assms unfolding deserialize_publish_packet_def publish_result_def
  by (cases "mqtt_read_uint16_t buf c") (simp_all add: Let_def split: prod.split)

lemma deserialize_publish_at:
  assumes at: "bytes_at buf 0 (publish_bytes dup qos retained pid topic payload)"
    and q: "qos \<le> 2" and t: "length topic \<le> 2048"
    and len: "publish_rem_len qos topic payload < 128 ^ 4"
    and buf_len: "4 \<le> buf_len"
  defines "k \<equiv> 1 + length (rem_len_bytes (publish_rem_len qos topic payload))"
  shows "deserialize_publish_packet buf buf_len =
     Some (Inr \<lparr>pf_dup = dup AND 1, pf_qos = qos, pf_retained = retained AND 1,
                pf_packet_id = (if qos > 0 then Some pid else None), pf_topic = k + 2,
                pf_topic_len = of_nat (length topic),
                pf_payload = k + 2 + length topic + (if qos > 0 then 2 else 0),
                pf_payload_len = of_nat (length payload)\<rparr>)"
proof -
  note front = packet_front [OF at [unfolded publish_bytes_def] len, folded k_def]
  let ?h = "packet_header (msgTypes PUBLISH) dup qos retained"
  let ?e = "k + publish_rem_len qos topic payload"
  have str: "read_string_with_len buf k (k + publish_rem_len qos topic payload) =
      Some (Inr (k + 2, of_nat (length topic), k + 2 + length topic))"
    using front(3) t by (intro read_string_with_len_at) (simp_all add: bytes_at_append publish_rem_len_def)
  have le: "k + 2 + length topic \<le> ?e" by (simp add: publish_rem_len_def)
  have pid: "mqtt_read_uint16_t buf (k + 2 + length topic) = Some (pid, k + 2 + length topic + 2)" if "qos > 0"
    using front(3) that by (intro mqtt_read_uint16_at) (simp add: bytes_at_append)
  have "deserialize_publish_packet buf buf_len =
     (if qos \<noteq> 0
      then mqtt_read_uint16_t buf (k + 2 + length topic) \<bind>
             (\<lambda>(i, p). Some (Inr (publish_result ?h (Some i) (k + 2) (of_nat (length topic)) p ?e)))
      else Some (Inr (publish_result ?h None (k + 2) (of_nat (length topic)) (k + 2 + length topic) ?e)))"
    by (rule deserialize_publish_step [OF buf_len front(1) header_fields(1) [OF q] front(2),
          unfolded front(4), folded k_def, OF str le, unfolded header_fields(2) [OF q]])
  then show ?thesis
    using pid by (cases "qos = 0")
      (simp_all add: publish_result_def header_fields q publish_rem_len_def
        word_neq_0_conv [symmetric] del: msgTypes.simps)
qed

lemma deserialize_ack_at:
  assumes at: "bytes_at buf 0 (ack_bytes ty dup pid)" and "4 \<le> buf_len"
  shows "deserialize_ack_packet buf buf_len = Some (Inr (msgTypes ty, dup AND 1, pid))"
proof -
  have len: "length (rem_len_bytes 2) = 1" by (simp add: rem_len_bytes.simps)
  note front = packet_front [OF at [unfolded ack_bytes_def], unfolded len]
  have id: "mqtt_read_uint16_t buf (1 + 1) = Some (pid, 1 + 1 + 2)"
    by (rule mqtt_read_uint16_at) (use front(3) in simp)
  show ?thesis
    using front(1,2) id assms(2)
    by (simp add: deserialize_ack_packet_def header_fields del: msgTypes.simps)
qed

lemma length_ack_bytes: "length (ack_bytes ty dup pid) = 4"
  by (simp add: ack_bytes_def rem_len_bytes.simps)

section \<open>Safety of the PUBLISH deserializer\<close>

text \<open>What \<^verbatim>\<open>_read_mqtt_packet\<close> establishes before any deserializer runs: the packet announced by
  the length field stands inside the read buffer.\<close>

definition packet_in_buffer :: "byte list \<Rightarrow> bool" where
  "packet_in_buffer buf \<longleftrightarrow> 5 \<le> length buf \<and>
     (case mqtt_read_packet_rem_len_form_buf buf 1 of
        Some (Inr (v, n)) \<Rightarrow> 1 + n + unat v \<le> length buf | _ \<Rightarrow> True)"

lemma packet_in_buffer_front:
  assumes "packet_in_buffer buf"
  obtains "mqtt_read_packet_rem_len_form_buf buf 1 = Some (Inl QCLOUD_ERR_MQTT_PACKET_READ)"
  | v m where "mqtt_read_packet_rem_len_form_buf buf 1 = Some (Inr (v, m))"
      "0 < m" "m \<le> 4" "1 + m + unat v \<le> length buf"
proof -
  have "mqtt_read_packet_rem_len_form_buf buf 1 = Some (Inl QCLOUD_ERR_MQTT_PACKET_READ) \<or>
      (\<exists>v n. mqtt_read_packet_rem_len_form_buf buf 1 = Some (Inr (v, n)) \<and> 0 < n \<and> n \<le> 4)"
    using assms decode_rem_len_loop_safe [of 1 0 buf 0 1]
    by (simp add: packet_in_buffer_def mqtt_read_packet_rem_len_form_buf_def)
  then show thesis
    using assms that by (auto simp: packet_in_buffer_def)
qed

lemma read_string_with_len_safe:
  assumes "e \<le> length buf"
  obtains "read_string_with_len buf p e = Some (Inl QCLOUD_ERR_FAILURE)"
  | l where "read_string_with_len buf p e = Some (Inr (p + 2, l, p + 2 + unat l))" "p + 2 + unat l \<le> e"
proof (cases "int e - int p > 1")
  case False
  then show thesis by (intro that(1)) (simp add: read_string_with_len_def)
next
  case True
  then have "rd buf p = Some (buf ! p)" "rd buf (p + 1) = Some (buf ! (p + 1))"
    using assms by (simp_all add: rd_def)
  then obtain l where "mqtt_read_uint16_t buf p = Some (l, p + 2)"
    by (simp add: mqtt_read_uint16_t_def)
  then have "read_string_with_len buf p e =
      (if unat l \<le> 2048 \<and> p + 2 + unat l \<le> e then Some (Inr (p + 2, l, p + 2 + unat l))
       else Some (Inl QCLOUD_ERR_FAILURE))"
    using True by (simp add: read_string_with_len_def)
  then show thesis using that by (cases "unat l \<le> 2048 \<and> p + 2 + unat l \<le> e") auto
qed

text \<open>The outcome of the PUBLISH deserializer on a packet that stands in the buffer. The id is read
  without a check, so it has to be within the buffer although maybe beyond the packet.\<close>

definition publish_outcome_ok :: "byte list \<Rightarrow> nat \<Rightarrow> int + publish_fields \<Rightarrow> bool" where
  "publish_outcome_ok buf e r \<longleftrightarrow>
     (case r of
        Inl rc \<Rightarrow> rc \<in> {QCLOUD_ERR_BUF_TOO_SHORT, QCLOUD_ERR_FAILURE, QCLOUD_ERR_MQTT_PACKET_READ}
      | Inr f \<Rightarrow> pf_topic f + unat (pf_topic_len f) \<le> e \<and>
                (if pf_payload f \<le> e then pf_payload f + unat (pf_payload_len f) = e
                 else pf_qos f \<noteq> 0 \<and> pf_payload_len f \<in> {- 1, - 2}))"

lemma payload_len_in_range:
  assumes "c \<le> e" "e < 2 ^ 63"
  shows "c + unat (of_int (int e - int c) :: size_t) = e"
proof -
  have "(of_int (int e - int c) :: size_t) = of_nat (e - c)"
    using assms(1) by (simp add: of_nat_diff)
  moreover have "unat (of_nat (e - c) :: size_t) = e - c"
    using assms by (subst unat_of_nat) simp
  ultimately show ?thesis using assms(1) by simp
qed

lemma payload_len_underflow:
  assumes "c = e + 1 \<or> c = e + 2"
  shows "(of_int (int e - int c) :: size_t) \<in> {- 1, - 2}"
  using assms by auto

lemma publish_result_ok:
  assumes e: "e < 2 ^ 63" and t: "t + unat l \<le> e"
    and c: "if header_qos h = 0 then c \<le> e else c \<le> e + 2"
  shows "publish_outcome_ok buf e (Inr (publish_result h i t l c e))"
proof (cases "c \<le> e")
  case True
  then show ?thesis
    using t payload_len_in_range [OF True e] by (simp add: publish_outcome_ok_def publish_result_def)
next
  case False
  then have "header_qos h \<noteq> 0" "c = e + 1 \<or> c = e + 2" using c by (auto split: if_splits)
  with False show ?thesis
    using t payload_len_underflow [of c e] by (simp add: publish_outcome_ok_def publish_result_def)
qed

section \<open>SUBSCRIBE, UNSUBSCRIBE and CONNECT packets as bytes\<close>

text \<open>The client passes one topic filter at a time.\<close>

definition subscribe_bytes :: "u8 \<Rightarrow> u16 \<Rightarrow> byte list \<Rightarrow> QoS \<Rightarrow> byte list" where
  "subscribe_bytes dup pid topic qos =
     packet_header (msgTypes SUBSCRIBE) dup QOS1 0 # rem_len_bytes (5 + length topic)
     @ u16_bytes pid @ utf8_bytes topic @ [qos]"

definition unsubscribe_bytes :: "u8 \<Rightarrow> u16 \<Rightarrow> byte list \<Rightarrow> byte list" where
  "unsubscribe_bytes dup pid topic =
     packet_header (msgTypes UNSUBSCRIBE) dup QOS1 0 # rem_len_bytes (4 + length topic)
     @ u16_bytes pid @ utf8_bytes topic"

lemma sub_rem_len_one: "sub_rem_len_loop extra 0 1 topic len = Some (len + (2 + length topic + extra))"
  by (simp add: sub_rem_len_loop.simps cstr_off_def)

lemma sub_payload_one_qos [codec_simps]:
  "sub_payload_loop (Some [qos]) buf p 0 (Suc 0) topic = put (utf8_bytes topic @ [qos]) buf p"
proof -
  have fin: "sub_payload_loop (Some [qos]) b q (Suc 0) (Suc 0) topic = Some (b, q)" for b q
    by (simp add: sub_payload_loop.simps)
  have "sub_payload_loop (Some [qos]) buf p 0 (Suc 0) topic =
      put (utf8_bytes topic) buf p \<bind> (\<lambda>(b, q). put [qos] b q)"
    by (subst sub_payload_loop.simps) (simp add: cstr_off_def codec_simps rd_def fin)
  then show ?thesis by (simp only: put_put)
qed

lemma sub_payload_one [codec_simps]: "sub_payload_loop None buf p 0 (Suc 0) topic = put (utf8_bytes topic) buf p"
proof -
  have fin: "sub_payload_loop None b q (Suc 0) (Suc 0) topic = Some (b, q)" for b q
    by (simp add: sub_payload_loop.simps)
  show ?thesis
    by (subst sub_payload_loop.simps) (simp add: cstr_off_def mqtt_write_utf8_string_put fin)
qed

lemma serialize_subscribe_put:
  assumes "length topic + 5 < 2 ^ 32"
  shows "serialize_subscribe_packet buf buf_len dup pid 1 topic [qos] =
     (if get_mqtt_packet_len (5 + length topic) > buf_len then Some (Inl QCLOUD_ERR_BUF_TOO_SHORT)
      else put (subscribe_bytes dup pid topic qos) buf 0 \<bind> (\<lambda>(b, n). Some (Inr (b, n))))"
proof -
  have n: "get_subscribe_packet_rem_len 1 topic = Some (of_nat (5 + length topic))"
    unfolding get_subscribe_packet_rem_len_def sub_rem_len_one by (simp add: algebra_simps)
  have u: "unat (of_nat (5 + length topic) :: u32) = 5 + length topic"
    using assms by (intro unat_of_nat_u32) simp
  show ?thesis
    unfolding serialize_subscribe_packet_def n subscribe_bytes_def
    using u by (simp add: codec_simps del: of_nat_add)
qed

lemma serialize_unsubscribe_put:
  assumes "length topic + 4 < 2 ^ 32"
  shows "serialize_unsubscribe_packet buf buf_len dup pid 1 topic =
     (if get_mqtt_packet_len (4 + length topic) > buf_len then Some (Inl QCLOUD_ERR_BUF_TOO_SHORT)
      else put (unsubscribe_bytes dup pid topic) buf 0 \<bind> (\<lambda>(b, n). Some (Inr (b, n))))"
proof -
  have n: "get_unsubscribe_packet_rem_len 1 topic = Some (of_nat (4 + length topic))"
    unfolding get_unsubscribe_packet_rem_len_def sub_rem_len_one by (simp add: algebra_simps)
  have u: "unat (of_nat (4 + length topic) :: u32) = 4 + length topic"
    using assms by (intro unat_of_nat_u32) simp
  show ?thesis
    unfolding serialize_unsubscribe_packet_def n unsubscribe_bytes_def
    using u by (simp add: codec_simps del: of_nat_add)
qed

text \<open>The payload of a SUBACK is copied to the caller's array, up to one entry more than \<open>max_count\<close>.\<close>

lemma suback_qos_loop_at:
  assumes "bytes_at buf p qs" "max_count < length arr" "count \<le> max_count + 1"
  shows "suback_qos_loop buf p (p + length qs) max_count count arr =
     (if count + length qs \<le> max_count + 1
      then Some (Inr (count + length qs, take count arr @ qs @ drop (count + length qs) arr))
      else Some (Inl QCLOUD_ERR_FAILURE))"
  using assms
proof (induction qs arbitrary: p count arr)
  case Nil
  then show ?case by (subst suback_qos_loop.simps) simp
next
  case (Cons q qs)
  show ?case
  proof (cases "count > max_count")
    case True
    then show ?thesis by (subst suback_qos_loop.simps) simp
  next
    case False
    then have "suback_qos_loop buf p (p + length (q # qs)) max_count count arr =
        suback_qos_loop buf (p + 1) ((p + 1) + length qs) max_count (count + 1) (arr[count := q])"
      using Cons.prems by (subst suback_qos_loop.simps) (simp add: mqtt_read_char_def wr_def)
    also have "\<dots> = (if count + 1 + length qs \<le> max_count + 1
        then Some (Inr (count + 1 + length qs,
               take (count + 1) (arr[count := q]) @ qs @ drop (count + 1 + length qs) (arr[count := q])))
        else Some (Inl QCLOUD_ERR_FAILURE))"
      using Cons.prems False by (intro Cons.IH) simp_all
    also have "take (count + 1) (arr[count := q]) = take count arr @ [q]"
      using Cons.prems False by (simp add: take_Suc_conv_app_nth take_update_cancel)
    finally show ?thesis using False by simp
  qed
qed

definition suback_bytes :: "u16 \<Rightarrow> QoS list \<Rightarrow> byte list" where
  "suback_bytes pid qs =
     packet_header (msgTypes SUBACK) 0 0 0 # rem_len_bytes (2 + length qs) @ u16_bytes pid @ qs"

lemma deserialize_suback_at:
  assumes "bytes_at buf 0 (suback_bytes pid qs)" "5 \<le> buf_len" "length qs < 2 ^ 20"
    and "max_count < length arr"
  shows "deserialize_suback_packet max_count arr buf buf_len =
     (if length qs \<le> max_count + 1
      then Some (Inr (pid, length qs, qs @ drop (length qs) arr))
      else Some (Inl QCLOUD_ERR_FAILURE))"
proof -
  let ?k = "1 + length (rem_len_bytes (2 + length qs))"
  have n: "2 + length qs < 128 ^ 4" using assms(3) by simp
  note front = packet_front [OF assms(1) [unfolded suback_bytes_def] n]
  have id: "mqtt_read_uint16_t buf ?k = Some (pid, ?k + 2)"
    using front(3) by (intro mqtt_read_uint16_at) (simp add: bytes_at_append)
  have "bytes_at buf (?k + 2) qs" using front(3) by (simp add: bytes_at_append)
  note loop = suback_qos_loop_at [OF this assms(4), of 0]
  have h: "header_type (packet_header (msgTypes SUBACK) 0 0 0) = msgTypes SUBACK"
    by (simp add: header_fields del: msgTypes.simps)
  show ?thesis
    using assms(2) front(1,2,4) id loop h
    by (simp add: deserialize_suback_packet_def add.assoc del: of_nat_add msgTypes.simps)
qed

text \<open>The CONNECT packet of a device with a key.\<close>

definition connect_bytes :: "u8 \<Rightarrow> u16 \<Rightarrow> byte list \<Rightarrow> byte list \<Rightarrow> byte list \<Rightarrow> byte list" where
  "connect_bytes clean keep_alive cid user pass =
     packet_header (msgTypes CONNECT) 0 0 0
     # rem_len_bytes (16 + length cid + length user + length pass)
     @ utf8_bytes (cstr ''MQTT'') @ [4, if clean \<noteq> 0 then 0xC2 else 0xC0] @ u16_bytes keep_alive
     @ utf8_bytes cid @ utf8_bytes user @ utf8_bytes pass"

lemma length_connect_bytes:
  "length (connect_bytes clean keep_alive cid user pass) =
     1 + length (rem_len_bytes (16 + length cid + length user + length pass))
       + (16 + length cid + length user + length pass)"
  by (simp add: connect_bytes_def cstr_def)

lemma connect_packet_body_put:
  assumes "username opts = Some user" "password opts = Some pass" "mqtt_version opts = 4"
    and len: "16 + length (client_id opts) + length user + length pass < 128 ^ 4"
    and fits: "get_mqtt_packet_len (16 + length (client_id opts) + length user + length pass) \<le> buf_len"
  shows "connect_packet_body True buf buf_len opts =
     put (connect_bytes (clean_session opts) (keep_alive_interval opts) (client_id opts) user pass) buf 0
       \<bind> (\<lambda>(b, n). Some (Inr (b, n), opts\<lparr>username := None, password := None\<rparr>))"
proof -
  let ?n = "16 + length (client_id opts) + length user + length pass"
  have n: "get_packet_connect_rem_len opts = of_nat ?n"
    using assms(1-3) by (simp add: get_packet_connect_rem_len_def algebra_simps)
  have u: "unat (of_nat ?n :: u32) = ?n" using len by (intro unat_of_nat_u32) simp
  have pair: "(\<lambda>(b, n). Some (Inr (b, n), r)) = (\<lambda>y. Some (Inr y, r))" for r :: MQTTConnectParams
    by auto
  show ?thesis
    using assms(1-3) fits unfolding connect_packet_body_def n Let_def u pair
    by (cases "clean_session opts = 0")
       (simp_all add: codec_simps connect_bytes_def cstr_def u pair del: of_nat_add)
qed

section \<open>Properties\<close>

text \<open>The remaining length of every packet MQTT allows (below 128 to the 4) survives the
  wire: what \<open>mqtt_write_packet_rem_len\<close> stores is decoded to the same value, and the decoder
  advances over exactly the bytes written.\<close>

theorem rem_len_round_trip:
  assumes "unat v < 128 ^ 4" "mqtt_write_packet_rem_len buf p v = Some (buf', n)"
  shows "mqtt_read_packet_rem_len_form_buf buf' p = Some (Inr (v, n))"
proof -
  have w: "put (rem_len_bytes (unat v)) buf p = Some (buf', p + n)"
    using assms(2) by (auto simp: mqtt_write_packet_rem_len_put put_Some_iff)
  then have "n = length (rem_len_bytes (unat v))" by (simp add: put_Some_iff)
  then show ?thesis
    using mqtt_read_packet_rem_len_at [OF put_bytes_at [OF w] assms(1)] by simp
qed

theorem rem_len_round_trip_witness:
  "mqtt_read_packet_rem_len_form_buf [0, 193, 2, 0] 1 = Some (Inr (321, 2))"
proof -
  have "mqtt_write_packet_rem_len [0, 0, 0, 0] 1 321 = Some ([0, 193, 2, 0], 2)"
    by code_simp
  moreover have "unat (321 :: u32) < 128 ^ 4" by simp
  ultimately show ?thesis by (rule rem_len_round_trip [rotated])
qed

text \<open>A length of 128 to the 4 or more, which the encoder would spread over five bytes, is
  refused by the decoder with \<open>QCLOUD_ERR_MQTT_PACKET_READ\<close>.\<close>

theorem rem_len_overlong_refused:
  assumes "128 ^ 4 \<le> unat v" "mqtt_write_packet_rem_len buf p v = Some (buf', n)"
  shows "n = 5 \<and> mqtt_read_packet_rem_len_form_buf buf' p = Some (Inl QCLOUD_ERR_MQTT_PACKET_READ)"
proof -
  have w: "put (rem_len_bytes (unat v)) buf p = Some (buf', p + n)"
    using assms(2) by (auto simp: mqtt_write_packet_rem_len_put put_Some_iff)
  then have n: "n = length (rem_len_bytes (unat v))" by (simp add: put_Some_iff)
  have gt: "\<not> n \<le> Suc 3" unfolding n length_rem_len_bytes_le using assms(1) by simp
  have "n \<le> Suc 4"
    unfolding n length_rem_len_bytes_le using unat_u32_lt [of v] by simp
  with gt have "n = 5" by linarith
  moreover have "mqtt_read_packet_rem_len_form_buf buf' p = Some (Inl QCLOUD_ERR_MQTT_PACKET_READ)"
    using decode_rem_len_loop_overlong [OF put_bytes_at [OF w], of 0 0 1] gt n
    by (simp add: mqtt_read_packet_rem_len_form_buf_def)
  ultimately show ?thesis by simp
qed

theorem rem_len_overlong_refused_witness:
  "(5 :: nat) = 5 \<and>
   mqtt_read_packet_rem_len_form_buf [128, 128, 128, 128, 1] 0 = Some (Inl QCLOUD_ERR_MQTT_PACKET_READ)"
proof (rule rem_len_overlong_refused)
  show "128 ^ 4 \<le> unat (268435456 :: u32)" by simp
  show "mqtt_write_packet_rem_len [0, 0, 0, 0, 0] 0 268435456 = Some ([128, 128, 128, 128, 1], 5)"
    by (simp add: mqtt_write_packet_rem_len_put put_def wr_bytes_def rem_len_bytes.simps)
qed

text \<open>The size the serializers test against the buffer, \<open>get_mqtt_packet_len\<close>, is never below the
  real packet size, and it is exact except for four lengths next to the borders of the encoding,
  where it asks for one byte too many.\<close>

theorem get_mqtt_packet_len_exact:
  assumes "n < 128 ^ 4"
  shows "get_mqtt_packet_len n =
     1 + length (rem_len_bytes n) + n + (if n \<in> {127, 16383, 2097150, 2097151} then 1 else 0)"
  using assms by (auto simp: length_rem_len_bytes_cases get_mqtt_packet_len_def)

theorem get_mqtt_packet_len_exact_witness:
  "get_mqtt_packet_len 127 = 1 + length (rem_len_bytes 127) + 127 + 1"
  using get_mqtt_packet_len_exact [of 127] by simp

text \<open>\<open>serialize_publish_packet\<close> is total on the client's buffers: it never writes outside the buffer,
  reports a too short buffer when the reserved size does not fit, and otherwise fills the
  buffer with exactly the bytes of the PUBLISH packet and leaves the rest unchanged.\<close>

theorem serialize_publish_total:
  assumes "qos \<le> 2" "publish_rem_len qos topic payload < 128 ^ 4" "buf_len \<le> length buf"
  shows "serialize_publish_packet buf buf_len dup qos retained pid topic (Some payload) =
     (let n = get_mqtt_packet_len (publish_rem_len qos topic payload);
          bs = publish_bytes dup qos retained pid topic payload
      in if n > buf_len then Some (Inl QCLOUD_ERR_BUF_TOO_SHORT)
         else Some (Inr (bs @ drop (length bs) buf, length bs)))"
proof -
  have "length (publish_bytes dup qos retained pid topic payload)
      \<le> get_mqtt_packet_len (publish_rem_len qos topic payload)"
    using packet_len_covers [OF assms(2)] by (simp add: length_publish_bytes)
  then show ?thesis
    using assms(3) by (simp add: serialize_publish_put [OF assms(1,2)] put_fits Let_def)
qed

theorem serialize_publish_total_witness:
  "serialize_publish_packet [0, 0, 0, 0, 0, 0, 0, 0, 0, 0, 0, 0] 12 0 1 0 258 [97, 47, 98] (Some [1, 2]) =
     Some (Inr ([0x32, 9, 0, 3, 97, 47, 98, 1, 2, 1, 2, 0], 11))"
proof -
  have "rem_len_bytes 9 = [9]" by (simp add: rem_len_bytes.simps)
  then have bs: "publish_bytes 0 1 0 258 [97, 47, 98] [1, 2] = [0x32, 9, 0, 3, 97, 47, 98, 1, 2, 1, 2]"
    by (simp add: publish_bytes_def publish_rem_len_def packet_header_def utf8_bytes_def u16_bytes_def)
  show ?thesis
    using serialize_publish_total [of 1 "[97, 47, 98]" "[1, 2]" 12 "[0, 0, 0, 0, 0, 0, 0, 0, 0, 0, 0, 0]" 0 0 258] bs
    by (simp add: publish_rem_len_def get_mqtt_packet_len_def)
qed

text \<open>C1. PUBLISH round trip: whatever the publisher serializes, the deserializer finds again: flags,
  quality of service, packet id, and the topic and payload bytes at the offsets it reports.\<close>

theorem publish_round_trip:
  assumes "qos \<le> 2" "length topic \<le> 2048" "publish_rem_len qos topic payload < 128 ^ 4"
    and "serialize_publish_packet buf buf_len dup qos retained pid topic (Some payload) = Some (Inr (buf', len))"
  shows "\<exists>f. deserialize_publish_packet buf' len = Some (Inr f) \<and>
     pf_dup f = dup AND 1 \<and> pf_qos f = qos \<and> pf_retained f = retained AND 1 \<and>
     pf_packet_id f = (if qos > 0 then Some pid else None) \<and>
     rd_bytes buf' (pf_topic f) (unat (pf_topic_len f)) = Some topic \<and>
     rd_bytes buf' (pf_payload f) (unat (pf_payload_len f)) = Some payload"
proof -
  let ?n = "publish_rem_len qos topic payload"
  let ?k = "1 + length (rem_len_bytes ?n)"
  have "(put (publish_bytes dup qos retained pid topic payload) buf 0 \<bind> (\<lambda>(b, n). Some (Inr (b, n))))
      = Some (Inr (buf', len) :: int + byte list \<times> nat)"
    using assms(4) by (simp add: serialize_publish_put [OF assms(1,3)] split: if_splits)
  note ser = serialized_at [OF this]
  have "2 \<le> ?n" by (simp add: publish_rem_len_def)
  then have len: "4 \<le> len"
    using length_rem_len_bytes_pos [of ?n] unfolding ser(2) length_publish_bytes by linarith
  have at: "bytes_at buf' ?k (utf8_bytes topic)"
    and payload: "bytes_at buf' (?k + 2 + length topic + (if qos > 0 then 2 else 0)) payload"
    using ser(1) by (auto simp: publish_bytes_def bytes_at_append split: if_splits)
  note topic = string_bytes_at [OF at]
  have "rd_bytes buf' (?k + 2 + length topic + (if qos > 0 then 2 else 0)) (length payload) = Some payload"
    using ser(3) by (intro rd_bytes_at_end [OF payload]) (simp add: length_publish_bytes publish_rem_len_def)
  moreover have "unat (of_nat (length topic) :: u16) = length topic" using assms(2) by (intro unat_of_nat_u16) simp
  moreover have "unat (of_nat (length payload) :: size_t) = length payload"
    using assms(3) by (subst unat_of_nat) (simp add: publish_rem_len_def)
  ultimately show ?thesis
    using deserialize_publish_at [OF ser(1) assms(1,2,3) len] topic by simp
qed

theorem publish_round_trip_witness:
  "\<exists>f. deserialize_publish_packet [0x32, 9, 0, 3, 97, 47, 98, 1, 2, 7, 8, 0] 11 = Some (Inr f) \<and>
     pf_dup f = 0 AND 1 \<and> pf_qos f = 1 \<and> pf_retained f = 0 AND 1 \<and>
     pf_packet_id f = (if (1 :: u8) > 0 then Some 258 else None) \<and>
     rd_bytes [0x32, 9, 0, 3, 97, 47, 98, 1, 2, 7, 8, 0] (pf_topic f) (unat (pf_topic_len f)) = Some [97, 47, 98] \<and>
     rd_bytes [0x32, 9, 0, 3, 97, 47, 98, 1, 2, 7, 8, 0] (pf_payload f) (unat (pf_payload_len f)) = Some [7, 8]"
proof (rule publish_round_trip)
  show "(1 :: u8) \<le> 2" "length [97, 47, 98 :: byte] \<le> 2048" by simp_all
  show "publish_rem_len 1 [97, 47, 98] [7, 8] < 128 ^ 4" by (simp add: publish_rem_len_def)
  show "serialize_publish_packet [0, 0, 0, 0, 0, 0, 0, 0, 0, 0, 0, 0] 12 0 1 0 258 [97, 47, 98] (Some [7, 8])
      = Some (Inr ([0x32, 9, 0, 3, 97, 47, 98, 1, 2, 7, 8, 0], 11))"
    by code_simp
qed

text \<open>Acknowledgement round trip: a PUBACK, PUBREC, PUBREL or PUBCOMP built by
  \<open>serialize_pub_ack_packet\<close> in a buffer of at least four bytes is decoded by
  \<open>deserialize_ack_packet\<close> to the same packet type, dup flag and packet id.\<close>

theorem ack_round_trip:
  assumes "ty \<noteq> RESERVED" "4 \<le> buf_len" "buf_len \<le> length buf"
  shows "\<exists>buf'. serialize_pub_ack_packet buf buf_len ty dup pid = Some (Inr (buf', 4)) \<and>
     deserialize_ack_packet buf' 4 = Some (Inr (msgTypes ty, dup AND 1, pid))"
proof -
  let ?bs = "ack_bytes ty dup pid"
  have "put ?bs buf 0 = Some (?bs @ drop 4 buf, 4)"
    using assms by (simp add: put_Some_iff length_ack_bytes)
  then have "serialize_pub_ack_packet buf buf_len ty dup pid = Some (Inr (?bs @ drop 4 buf, 4))"
    using assms by (simp add: serialize_pub_ack_put)
  moreover have "deserialize_ack_packet (?bs @ drop 4 buf) 4 = Some (Inr (msgTypes ty, dup AND 1, pid))"
    by (rule deserialize_ack_at [OF bytes_at_whole]) simp
  ultimately show ?thesis by blast
qed

theorem ack_round_trip_witness:
  "\<exists>buf'. serialize_pub_ack_packet [0, 0, 0, 0, 0] 5 PUBREL 1 4660 = Some (Inr (buf', 4)) \<and>
     deserialize_ack_packet buf' 4 = Some (Inr (msgTypes PUBREL, 1 AND 1, 4660))"
  by (rule ack_round_trip) simp_all

text \<open>On a packet that stands in the read buffer (with two bytes to spare behind it when it carries
  a packet id), \<open>deserialize_publish_packet\<close> makes no access outside the buffer, fails only with the
  documented codes, and places topic and payload inside the packet; the one exception is a packet
  with a packet id that ends less than two bytes after its topic: then the reported payload length
  is negative as a \<open>size_t\<close>.\<close>

theorem deserialize_publish_safe:
  assumes "packet_in_buffer buf" "length buf < 2 ^ 62"
    and "mqtt_read_packet_rem_len_form_buf buf 1 = Some (Inr (v, m))" "1 + m + unat v + 2 \<le> length buf"
  shows "\<exists>r. deserialize_publish_packet buf buf_len = Some r \<and> publish_outcome_ok buf (1 + m + unat v) r"
proof -
  let ?e = "1 + m + unat v"
  obtain h where h: "mqtt_read_char buf 0 = Some (h, 1)"
    using assms(1) by (cases buf) (auto simp: mqtt_read_char_def packet_in_buffer_def rd_def)
  have e: "?e \<le> length buf" "?e < 2 ^ 63" using assms(2,4) by auto
  show ?thesis
  proof (cases "4 \<le> buf_len \<and> header_type h = msgTypes PUBLISH")
    case False
    then have "deserialize_publish_packet buf buf_len = Some (Inl QCLOUD_ERR_BUF_TOO_SHORT) \<or>
        deserialize_publish_packet buf buf_len = Some (Inl QCLOUD_ERR_FAILURE)"
      using h by (auto simp: deserialize_publish_packet_def)
    then show ?thesis by (auto simp: publish_outcome_ok_def)
  next
    case True
    show ?thesis
    proof (rule read_string_with_len_safe [OF e(1), of "1 + m"])
      assume "read_string_with_len buf (1 + m) ?e = Some (Inl QCLOUD_ERR_FAILURE)"
      then have "deserialize_publish_packet buf buf_len = Some (Inl QCLOUD_ERR_FAILURE)"
        using True h assms(3) by (simp add: deserialize_publish_packet_def)
      then show ?thesis by (simp add: publish_outcome_ok_def)
    next
      fix l :: u16
      let ?c = "1 + m + 2 + unat l"
      assume s: "read_string_with_len buf (1 + m) ?e = Some (Inr (1 + m + 2, l, ?c))" and c: "?c \<le> ?e"
      obtain i where i: "mqtt_read_uint16_t buf ?c = Some (i, ?c + 2)"
        using c assms(4) by (simp add: mqtt_read_uint16_t_def rd_def)
      note step = deserialize_publish_step [OF conjunct1 [OF True] h conjunct2 [OF True] assms(3) s c]
      show ?thesis
      proof (cases "header_qos h = 0")
        case True
        then show ?thesis
          using step publish_result_ok [OF e(2), of "1 + m + 2" l h ?c buf None] c by simp
      next
        case False
        then show ?thesis
          using step i publish_result_ok [OF e(2), of "1 + m + 2" l h "?c + 2" buf "Some i"] c by simp
      qed
    qed
  qed
qed

theorem deserialize_publish_safe_witness:
  "\<exists>r. deserialize_publish_packet [0x32, 5, 0, 1, 97, 1, 2, 0, 0] 7 = Some r \<and>
       publish_outcome_ok [0x32, 5, 0, 1, 97, 1, 2, 0, 0] (1 + 1 + unat (5 :: u32)) r"
proof (rule deserialize_publish_safe)
  show "mqtt_read_packet_rem_len_form_buf [0x32, 5, 0, 1, 97, 1, 2, 0, 0] 1 = Some (Inr (5, 1))"
    by code_simp
  then show "packet_in_buffer [0x32, 5, 0, 1, 97, 1, 2, 0, 0]" by (simp add: packet_in_buffer_def)
qed simp_all

text \<open>The exception of the previous property is real: a QoS 1 PUBLISH whose body ends right after a
  one-character topic is accepted, its id is read from the bytes behind the packet, and the payload
  length comes out as 2 to the 64 minus 2.\<close>

theorem deserialize_publish_underflow:
  "\<exists>f. deserialize_publish_packet [0x32, 3, 0, 1, 97, 1, 2, 0] 5 = Some (Inr f) \<and>
     pf_payload f = 7 \<and> pf_packet_id f = Some 258 \<and> pf_payload_len f = - 2"
proof -
  have "deserialize_publish_packet [0x32, 3, 0, 1, 97, 1, 2, 0] 5 =
      Some (Inr \<lparr>pf_dup = 0, pf_qos = 1, pf_retained = 0, pf_packet_id = Some 258, pf_topic = 4,
                 pf_topic_len = 1, pf_payload = 7, pf_payload_len = - 2\<rparr>)"
    by code_simp
  then show ?thesis by simp
qed

text \<open>The SUBACK deserializer reads packet id and granted QoS list of a well-formed packet, and
  it accepts \<open>max_count + 1\<close> entries: its test is one too lax, so the array has to have room for one
  entry more than the caller announced (as the caller's array of three for \<open>max_count = 1\<close> has).\<close>

theorem deserialize_suback_exact:
  assumes "bytes_at buf 0 (suback_bytes pid qs)" "5 \<le> buf_len" "length qs < 2 ^ 20"
    and "max_count < length arr"
  shows "deserialize_suback_packet max_count arr buf buf_len =
     (if length qs \<le> max_count + 1
      then Some (Inr (pid, length qs, qs @ drop (length qs) arr))
      else Some (Inl QCLOUD_ERR_FAILURE))"
  using assms by (rule deserialize_suback_at)

theorem deserialize_suback_exact_witness:
  "deserialize_suback_packet 1 [9, 9, 9] [0x90, 4, 0, 7, 1, 0] 6 = Some (Inr (7, 2, [1, 0, 9]))"
proof -
  have "suback_bytes 7 [1, 0] = [0x90, 4, 0, 7, 1, 0]"
    by (simp add: suback_bytes_def packet_header_def u16_bytes_def rem_len_bytes.simps)
  then show ?thesis
    using deserialize_suback_exact [of "[0x90, 4, 0, 7, 1, 0]" 7 "[1, 0]" 6 1 "[9, 9, 9]"]
    by (simp add: rd_def)
qed

text \<open>The CONNECT packet of a device with a secret: with enough room, \<open>serialize_connect_packet\<close>
  fills the buffer with the MQTT 3.1.1 CONNECT packet that carries the client id, the generated user
  name and the password \<open>hmac(user name, secret);hmacsha1\<close>, keeps the rest of the buffer, and
  releases both credentials.\<close>

theorem serialize_connect_exact:
  fixes opts :: MQTTConnectParams and connid secret buf :: "byte list"
    and hmac :: "byte list \<Rightarrow> byte list \<Rightarrow> byte list"
  assumes "client_id opts \<noteq> []" "device_secret opts = Some secret" "mqtt_version opts = 4"
  defines "user \<equiv> connect_username (client_id opts) connid"
  defines "pass \<equiv> take 50 (hmac user secret @ cstr '';hmacsha1'')"
  defines "bs \<equiv> connect_bytes (clean_session opts) (keep_alive_interval opts) (client_id opts) user pass"
  assumes "16 + length (client_id opts) + length user + length pass < 128 ^ 4" "buf_len \<le> length buf"
    and "get_mqtt_packet_len (16 + length (client_id opts) + length user + length pass) \<le> buf_len"
  shows "serialize_connect_packet True hmac True True connid buf buf_len opts =
     Some (Inr (bs @ drop (length bs) buf, length bs),
           opts\<lparr>conn_id := connid, username := None, password := None\<rparr>)"
proof -
  let ?o = "opts\<lparr>conn_id := connid, username := Some user, password := Some pass\<rparr>"
  have body: "connect_packet_body True buf buf_len ?o =
      put bs buf 0 \<bind> (\<lambda>(b, n). Some (Inr (b, n), ?o\<lparr>username := None, password := None\<rparr>))"
    unfolding bs_def using assms(3,7,9) connect_packet_body_put [of ?o user pass buf_len buf] by simp
  have "length bs \<le> length buf"
    using packet_len_covers [OF assms(7)] assms(8,9) unfolding bs_def length_connect_bytes by linarith
  then have "put bs buf 0 = Some (bs @ drop (length bs) buf, length bs)"
    by (simp add: put_Some_iff)
  then show ?thesis
    using body assms(1,2) by (simp add: serialize_connect_packet_def user_def pass_def Let_def)
qed

definition connect_example :: MQTTConnectParams where
  "connect_example = \<lparr>client_id = cstr ''P1D1'', username = None, password = None, conn_id = [],
     mqtt_version = 4, keep_alive_interval = 240, clean_session = 1, auto_connect_enable = 1,
     device_secret = Some (cstr ''key'')\<rparr>"

theorem serialize_connect_exact_witness:
  "\<exists>bs. length bs = 71 \<and> serialize_connect_packet True (\<lambda>m k. k) True True (cstr ''aB3xY'') (replicate 128 0) 128 connect_example =
     Some (Inr (bs @ drop (length bs) (replicate 128 0), length bs),
           connect_example\<lparr>conn_id := cstr ''aB3xY'', username := None, password := None\<rparr>)"
proof -
  let ?user = "connect_username (client_id connect_example) (cstr ''aB3xY'')"
  let ?pass = "take 50 ((\<lambda>m k. k) ?user (cstr ''key'') @ cstr '';hmacsha1'')"
  have l: "length ?user = 37" "length ?pass = 12" "length (client_id connect_example) = 4"
    by (simp_all add: connect_username_def connect_username_len_def connect_example_def cstr_def)
  show ?thesis
    by (rule exI, rule conjI [rotated], rule serialize_connect_exact [where secret = "cstr ''key''"])
       (use l in \<open>simp_all add: connect_example_def get_mqtt_packet_len_def length_connect_bytes
          rem_len_bytes.simps, simp_all add: cstr_def\<close>)
qed

text \<open>The user name of the CONNECT packet is cut: with a five-character connection id and a 64-bit
  \<open>long\<close> the buffer is two bytes short of the formatted text, so only 17 of the 19 digits of the
  expiry time \<open>LONG_MAX\<close> are sent.\<close>

theorem connect_username_truncated:
  assumes "length connid = MAX_CONN_ID_LEN - 1"
  shows "connect_username cid connid =
     cid @ cstr '';21010406;'' @ connid @ cstr '';92233720368547758''"
  using assms
  by (simp add: connect_username_def connect_username_len_def cstr_def)

theorem connect_username_truncated_witness:
  "connect_username (cstr ''P1D1'') (cstr ''aB3xY'') = cstr ''P1D1;21010406;aB3xY;92233720368547758''"
  using connect_username_truncated [of "cstr ''aB3xY''" "cstr ''P1D1''"] by (simp add: cstr_def)

end
