(* ===== verification/Mqtt_Topic.thy ===== *)
theory Mqtt_Topic
  imports Iot_Prelude
begin

text \<open>
  Topic filters: \<^verbatim>\<open>_is_topic_equals\<close> and \<^verbatim>\<open>_is_topic_matched\<close> of
  \<^verbatim>\<open>sdk_src/protocol/mqtt/mqtt_client_common.c\<close>, with the level-wise matching of the MQTT
  standard as the specification.

  A filter is a C string, the list of its bytes before the terminating NUL; the topic name is the
  buffer of \<open>topicNameLen\<close> bytes. The cursors are offsets into the two.
\<close>

abbreviation SLASH :: byte where "SLASH \<equiv> 47"
abbreviation PLUS :: byte where "PLUS \<equiv> 43"
abbreviation HASH :: byte where "HASH \<equiv> 35"

definition is_topic_equals :: "byte list \<Rightarrow> byte list \<Rightarrow> bool" where
  "is_topic_equals topic_filter topicName \<longleftrightarrow>
     length topic_filter = length topicName \<and> topic_filter = topicName"

text \<open>The inner loop that skips to the last character of the topic level at \<open>curn\<close>.\<close>

function skip_level :: "byte list \<Rightarrow> nat \<Rightarrow> nat" where
  "skip_level n curn = (if curn + 1 < length n \<and> n ! (curn + 1) \<noteq> SLASH then skip_level n (curn + 1) else curn)"
  by pat_completeness auto
termination
  by (relation "measure (\<lambda>(n, curn). length n - curn)") auto

declare skip_level.simps [simp del]

function topic_loop :: "byte list \<Rightarrow> byte list \<Rightarrow> nat \<Rightarrow> nat \<Rightarrow> nat \<times> nat" where
  "topic_loop f n curf curn =
     (if curf < length f \<and> curn < length n
      then if f ! curf = PLUS \<and> n ! curn = SLASH then topic_loop f n (curf + 1) curn
           else if n ! curn = SLASH \<and> f ! curf \<noteq> SLASH then (curf, curn)
           else if f ! curf \<noteq> PLUS \<and> f ! curf \<noteq> HASH \<and> f ! curf \<noteq> n ! curn then (curf, curn)
           else let curn' = (if f ! curf = PLUS then skip_level n curn
                             else if f ! curf = HASH then length n - 1 else curn)
                in topic_loop f n (curf + 1) (curn' + 1)
      else (curf, curn))"
  by pat_completeness auto
termination
  by (relation "measure (\<lambda>(f, n, curf, curn). length f - curf)") auto

declare topic_loop.simps [simp del]

text \<open>The test after the loop; \<^const>\<open>None\<close> when \<^verbatim>\<open>*(curn - 1)\<close> is read before the topic.\<close>

definition topic_verdict :: "byte list \<Rightarrow> byte list \<Rightarrow> nat \<Rightarrow> nat \<Rightarrow> bool option" where
  "topic_verdict f n curf curn =
     (if curf \<ge> length f then Some (curn = length n)
      else if f ! curf = HASH \<or> (curf + 1 < length f \<and> f ! (curf + 1) = HASH) then Some True
      else if f ! curf = PLUS then (if curn = 0 then None else map_option (\<lambda>c. c = SLASH) (rd n (curn - 1)))
      else Some False)"

definition is_topic_matched :: "byte list \<Rightarrow> byte list \<Rightarrow> bool option" where
  "is_topic_matched topic_filter topicName =
     (let (curf, curn) = topic_loop topic_filter topicName 0 0 in topic_verdict topic_filter topicName curf curn)"

section \<open>Specification: matching level by level\<close>

fun levels :: "byte list \<Rightarrow> byte list list" where
  "levels [] = [[]]"
| "levels (c # cs) = (if c = SLASH then [] # levels cs
                      else (case levels cs of [] \<Rightarrow> [[c]] | l # ls \<Rightarrow> (c # l) # ls))"

fun levels_match :: "byte list list \<Rightarrow> byte list list \<Rightarrow> bool" where
  "levels_match [] ts = (ts = [])"
| "levels_match (f # fs) ts =
     (if f = [HASH] then True
      else case ts of [] \<Rightarrow> False | t # ts' \<Rightarrow> (f = [PLUS] \<or> f = t) \<and> levels_match fs ts')"

definition topic_matches :: "byte list \<Rightarrow> byte list \<Rightarrow> bool" where
  "topic_matches f n = levels_match (levels f) (levels n)"

definition plain_level :: "byte list \<Rightarrow> bool" where
  "plain_level l \<longleftrightarrow> SLASH \<notin> set l \<and> PLUS \<notin> set l \<and> HASH \<notin> set l"

fun wf_levels :: "byte list list \<Rightarrow> bool" where
  "wf_levels [] = False"
| "wf_levels [l] = (plain_level l \<or> l = [PLUS] \<or> l = [HASH])"
| "wf_levels (l # ls) = ((plain_level l \<or> l = [PLUS]) \<and> wf_levels ls)"

text \<open>The format the function's comment asks for: \<open>#\<close> only at the end, wildcards only next to separators.\<close>

definition wf_filter :: "byte list \<Rightarrow> bool" where
  "wf_filter f = wf_levels (levels f)"

section \<open>The cursors as suffixes\<close>

text \<open>\<open>tm prev f n\<close>: the result of the loop and the test from a suffix \<open>f\<close> of the filter and a suffix
  \<open>n\<close> of the topic, \<open>prev\<close> the topic's character before \<open>n\<close>.\<close>

definition verdict :: "byte option \<Rightarrow> byte list \<Rightarrow> byte list \<Rightarrow> bool option" where
  "verdict prev f n =
     (case f of [] \<Rightarrow> Some (n = [])
      | c # f' \<Rightarrow> if c = HASH \<or> (\<exists>f''. f' = HASH # f'') then Some True
                  else if c = PLUS then map_option (\<lambda>c. c = SLASH) prev else Some False)"

fun last_before :: "byte option \<Rightarrow> byte list \<Rightarrow> byte option" where
  "last_before prev [] = prev"
| "last_before prev (c # cs) = last_before (Some c) cs"

fun tm :: "byte option \<Rightarrow> byte list \<Rightarrow> byte list \<Rightarrow> bool option" where
  "tm prev (cf # f) (cn # n) =
     (if cf = PLUS \<and> cn = SLASH then tm prev f (cn # n)
      else if (cn = SLASH \<and> cf \<noteq> SLASH) \<or> (cf \<noteq> PLUS \<and> cf \<noteq> HASH \<and> cf \<noteq> cn) then verdict prev (cf # f) (cn # n)
      else if cf = PLUS then tm (last_before (Some cn) (takeWhile (\<lambda>c. c \<noteq> SLASH) n)) f (dropWhile (\<lambda>c. c \<noteq> SLASH) n)
      else if cf = HASH then tm (last_before (Some cn) n) f []
      else tm (Some cn) f n)"
| "tm prev f n = verdict prev f n"

lemma skip_level_bound: "curn < length n \<Longrightarrow> curn \<le> skip_level n curn \<and> skip_level n curn < length n"
proof (induction n curn rule: skip_level.induct)
  case (1 n curn)
  then show ?case by (subst (1 2) skip_level.simps) auto
qed

lemma skip_level_suffix:
  "curn < length n \<Longrightarrow>
     drop (skip_level n curn + 1) n = dropWhile (\<lambda>c. c \<noteq> SLASH) (drop (curn + 1) n) \<and>
     last_before (Some (n ! curn)) (takeWhile (\<lambda>c. c \<noteq> SLASH) (drop (curn + 1) n)) = Some (n ! skip_level n curn)"
proof (induction n curn rule: skip_level.induct)
  case (1 n curn)
  show ?case
  proof (cases "curn + 1 < length n \<and> n ! (curn + 1) \<noteq> SLASH")
    case True
    then have "drop (curn + 1) n = n ! (curn + 1) # drop (curn + 2) n"
      by (simp add: Cons_nth_drop_Suc)
    with True show ?thesis using 1 by (subst (1 2) skip_level.simps) simp
  next
    case False
    then have "drop (curn + 1) n = [] \<or> (\<exists>ys. drop (curn + 1) n = SLASH # ys)"
      by (cases "curn + 1 < length n") (auto simp: Cons_nth_drop_Suc [symmetric])
    with False show ?thesis by (subst (1 2) skip_level.simps) auto
  qed
qed

abbreviation before :: "byte list \<Rightarrow> nat \<Rightarrow> byte option" where
  "before n j \<equiv> (if j = 0 then None else Some (n ! (j - 1)))"

lemma verdict_suffix:
  assumes "curf \<le> length f" "curn \<le> length n"
  shows "topic_verdict f n curf curn = verdict (before n curn) (drop curf f) (drop curn n)"
proof (cases "curf < length f")
  case False
  with assms show ?thesis by (auto simp: topic_verdict_def verdict_def)
next
  case True
  then have d: "drop curf f = f ! curf # drop (Suc curf) f" by (simp add: Cons_nth_drop_Suc)
  have h: "(\<exists>f''. drop (Suc curf) f = HASH # f'') \<longleftrightarrow> Suc curf < length f \<and> f ! Suc curf = HASH"
    by (cases "Suc curf < length f") (auto simp: Cons_nth_drop_Suc [symmetric])
  show ?thesis
    using True assms by (auto simp add: topic_verdict_def verdict_def d h rd_def)
qed

lemma last_before_Some: "last_before (Some c) xs = Some (last (c # xs))"
  by (induction xs arbitrary: c) simp_all

lemma topic_loop_suffix:
  "curf \<le> length f \<Longrightarrow> curn \<le> length n \<Longrightarrow>
     (case topic_loop f n curf curn of (a, b) \<Rightarrow> topic_verdict f n a b) =
     tm (before n curn) (drop curf f) (drop curn n)"
proof (induction f n curf curn rule: topic_loop.induct)
  case (1 f n curf curn)
  show ?case
  proof (cases "curf < length f \<and> curn < length n")
    case False
    then have "drop curf f = [] \<or> drop curn n = []" using "1.prems" by auto
    then have "tm (before n curn) (drop curf f) (drop curn n) = verdict (before n curn) (drop curf f) (drop curn n)"
      by (cases "drop curf f"; cases "drop curn n") auto
    moreover have "topic_loop f n curf curn = (curf, curn)"
      using False by (subst topic_loop.simps) (simp only: if_False)
    ultimately show ?thesis using verdict_suffix [OF "1.prems"] by simp
  next
    case True
    then have d: "drop curf f = f ! curf # drop (curf + 1) f" "drop curn n = n ! curn # drop (curn + 1) n"
      by (simp_all add: Cons_nth_drop_Suc)
    consider (plus_slash) "f ! curf = PLUS \<and> n ! curn = SLASH"
      | (stop) "\<not> (f ! curf = PLUS \<and> n ! curn = SLASH)"
          "(n ! curn = SLASH \<and> f ! curf \<noteq> SLASH) \<or> (f ! curf \<noteq> PLUS \<and> f ! curf \<noteq> HASH \<and> f ! curf \<noteq> n ! curn)"
      | (plus) "f ! curf = PLUS" "n ! curn \<noteq> SLASH"
      | (hash) "f ! curf = HASH" "n ! curn \<noteq> SLASH"
      | (char) "f ! curf = n ! curn" "f ! curf \<noteq> PLUS" "f ! curf \<noteq> HASH"
      by fastforce
    then show ?thesis
    proof cases
      case plus_slash
      then have l: "topic_loop f n curf curn = topic_loop f n (curf + 1) curn"
        using True by (subst topic_loop.simps) simp
      have "tm (before n curn) (drop curf f) (drop curn n) = tm (before n curn) (drop (curf + 1) f) (drop curn n)"
        using plus_slash unfolding d by simp
      then show ?thesis
        using l "1.IH"(1) [OF True] plus_slash True by simp
    next
      case stop
      then have "topic_loop f n curf curn = (curf, curn)"
        using True by (subst topic_loop.simps) auto
      moreover have "tm (before n curn) (drop curf f) (drop curn n) = verdict (before n curn) (drop curf f) (drop curn n)"
        using stop unfolding d by auto
      ultimately show ?thesis using verdict_suffix "1.prems" by simp
    next
      case plus
      then have l: "topic_loop f n curf curn = topic_loop f n (curf + 1) (skip_level n curn + 1)"
        using True by (subst topic_loop.simps) simp
      have b: "skip_level n curn + 1 \<le> length n" using skip_level_bound [of curn n] True by simp
      have "tm (before n curn) (drop curf f) (drop curn n) =
          tm (Some (n ! skip_level n curn)) (drop (curf + 1) f) (drop (skip_level n curn + 1) n)"
        using plus skip_level_suffix [of curn n] True unfolding d by simp
      then show ?thesis using l "1.IH"(2) [OF True _ _ _ refl] plus True b by simp
    next
      case hash
      then have l: "topic_loop f n curf curn = topic_loop f n (curf + 1) (length n - 1 + 1)"
        using True by (subst topic_loop.simps) simp
      have "last (drop curn n) = n ! (length n - 1)"
        using True last_conv_nth [of n] by (cases n) auto
      then have "tm (before n curn) (drop curf f) (drop curn n) =
          tm (Some (n ! (length n - 1))) (drop (curf + 1) f) []"
        using hash unfolding d by (simp add: last_before_Some d)
      moreover have "length n - 1 + 1 \<le> length n" using True by linarith
      ultimately show ?thesis using l "1.IH"(2) [OF True _ _ _ refl] hash True by simp
    next
      case char
      then have l: "topic_loop f n curf curn = topic_loop f n (curf + 1) (curn + 1)"
        using True by (subst topic_loop.simps) auto
      have "tm (before n curn) (drop curf f) (drop curn n) =
          tm (Some (n ! curn)) (drop (curf + 1) f) (drop (curn + 1) n)"
        using char unfolding d by auto
      then show ?thesis using l "1.IH"(2) [OF True _ _ _ refl] char True by simp
    qed
  qed
qed

lemma is_topic_matched_tm: "is_topic_matched f n = tm None f n"
  using topic_loop_suffix [of 0 f 0 n] by (simp add: is_topic_matched_def Let_def)

text \<open>The read before the start of the topic needs an empty topic.\<close>

lemma tm_defined: "n \<noteq> [] \<or> prev \<noteq> None \<Longrightarrow> tm prev f n \<noteq> None"
  by (induction prev f n rule: tm.induct) (auto simp: verdict_def last_before_Some split: list.splits)

lemma is_topic_matched_defined: "n \<noteq> [] \<Longrightarrow> is_topic_matched f n \<noteq> None"
  using tm_defined [of n None f] by (simp add: is_topic_matched_tm)

section \<open>Matching by levels\<close>

fun join :: "byte list list \<Rightarrow> byte list" where
  "join [] = []"
| "join [l] = l"
| "join (l # ls) = l @ SLASH # join ls"

lemma levels_nonempty: "levels s \<noteq> []"
  by (induction s) (auto split: list.splits)

lemma join_levels: "join (levels s) = s"
proof (induction s)
  case (Cons c s)
  then show ?case
    using levels_nonempty [of s] by (cases "levels s"; cases "tl (levels s)") auto
qed simp

lemma levels_no_slash: "l \<in> set (levels s) \<Longrightarrow> SLASH \<notin> set l"
proof (induction s arbitrary: l)
  case (Cons c s)
  then show ?case by (auto split: list.splits if_splits)
qed simp

definition at_sep :: "byte list \<Rightarrow> bool" where
  "at_sep n \<longleftrightarrow> n = [] \<or> (\<exists>n'. n = SLASH # n')"

lemma join_Cons: "ls \<noteq> [] \<Longrightarrow> join (l # ls) = l @ SLASH # join ls"
  by (cases ls) simp_all

text \<open>A plain level of the filter against the same level of the topic, and \<open>+\<close> against any level.\<close>

lemma tm_plain:
  "plain_level l \<Longrightarrow> tm prev (l @ f) (l @ n) = tm (last_before prev l) f n"
  by (induction l arbitrary: prev) (auto simp: plain_level_def)

lemma takeWhile_level: "SLASH \<notin> set t \<Longrightarrow> at_sep n \<Longrightarrow> takeWhile (\<lambda>c. c \<noteq> SLASH) (t @ n) = t"
  by (induction t) (auto simp: at_sep_def)

lemma dropWhile_level: "SLASH \<notin> set t \<Longrightarrow> at_sep n \<Longrightarrow> dropWhile (\<lambda>c. c \<noteq> SLASH) (t @ n) = n"
  by (induction t) (auto simp: at_sep_def)

lemma tm_plus:
  assumes "SLASH \<notin> set t" "at_sep n" "t @ n \<noteq> []"
  shows "tm prev (PLUS # f) (t @ n) = tm (last_before prev t) f n"
proof (cases t)
  case Nil
  with assms show ?thesis by (auto simp: at_sep_def)
next
  case (Cons c t')
  with assms show ?thesis by (simp add: takeWhile_level dropWhile_level)
qed

lemma tm_hash: "tm prev [HASH] n = Some True"
  by (cases n) (simp_all add: verdict_def)

lemma tm_parent: "tm prev [SLASH, HASH] [] = Some True"
  by (simp add: verdict_def)

lemma levels_match_Nil: "wf_levels fs \<Longrightarrow> levels_match fs [] \<longleftrightarrow> fs = [[HASH]]"
  by (cases fs rule: wf_levels.cases) (auto simp: plain_level_def)

lemma tm_level:
  assumes "plain_level l \<or> l = [PLUS]" "l = [PLUS] \<or> l = t" "SLASH \<notin> set t" "at_sep n" "t @ n \<noteq> [] \<or> l \<noteq> [PLUS]"
  shows "tm prev (l @ f) (t @ n) = tm (last_before prev t) f n"
  using assms tm_plain [of t prev f n] tm_plus [of t n prev f] by (auto simp: plain_level_def)

lemma tm_complete:
  assumes "wf_levels fs" "levels_match fs ts" "ts \<noteq> []" "\<forall>t \<in> set ts. SLASH \<notin> set t"
    and "prev = Some SLASH \<or> join ts \<noteq> []"
  shows "tm prev (join fs) (join ts) = Some True"
  using assms
proof (induction fs arbitrary: ts prev)
  case Nil
  then show ?case by simp
next
  case (Cons l fs)
  obtain t ts' where ts: "ts = t # ts'" using Cons.prems(3) by (cases ts) auto
  show ?case
  proof (cases "l = [HASH]")
    case True
    then have "fs = []" using Cons.prems(1) by (cases fs) (auto simp: plain_level_def)
    with True show ?thesis by (simp add: tm_hash)
  next
    case False
    then have l: "plain_level l \<or> l = [PLUS]" "l = [PLUS] \<or> l = t" and m: "levels_match fs ts'"
      using Cons.prems(1,2) ts by (cases fs; auto)+
    have t: "SLASH \<notin> set t" using Cons.prems(4) ts by simp
    show ?thesis
    proof (cases "ts' = []")
      case True
      then have fs: "fs = [] \<or> fs = [[HASH]]"
        using m levels_match_Nil [of fs] Cons.prems(1) by (cases fs) auto
      show ?thesis
      proof (cases "t = [] \<and> l = [PLUS]")
        case True
        then have "prev = Some SLASH" using Cons.prems(5) ts \<open>ts' = []\<close> by simp
        with True fs show ?thesis using ts \<open>ts' = []\<close> by (auto simp: verdict_def)
      next
        case False
        have level: "tm prev (l @ f) (t @ []) = tm (last_before prev t) f []" for f
          using l t False by (intro tm_level) (auto simp: at_sep_def)
        show ?thesis
          using fs ts \<open>ts' = []\<close> level [of "[]"] level [of "[SLASH, HASH]"] tm_parent
          by (auto simp: verdict_def)
      qed
    next
      case False
      then have fs: "fs \<noteq> []" using m by auto
      have "tm prev (join (l # fs)) (join ts) = tm prev (l @ SLASH # join fs) (t @ SLASH # join ts')"
        using fs False ts by (simp add: join_Cons)
      also have "\<dots> = tm (last_before prev t) (SLASH # join fs) (SLASH # join ts')"
        using l t by (intro tm_level) (auto simp: at_sep_def)
      also have "\<dots> = tm (Some SLASH) (join fs) (join ts')" by simp
      also have "\<dots> = Some True"
        using Cons.prems ts fs False m by (intro Cons.IH) (cases fs; auto)+
      finally show ?thesis .
    qed
  qed
qed

lemma verdict_no_hash: "c \<noteq> PLUS \<Longrightarrow> HASH \<notin> set (c # f) \<Longrightarrow> verdict prev (c # f) n = Some False"
  by (auto simp: verdict_def)

lemma tm_plain_differs:
  assumes "plain_level l" "SLASH \<notin> set t" "HASH \<notin> set f" "at_sep f" "at_sep n" "l \<noteq> t"
  shows "tm prev (l @ f) (t @ n) = Some False"
  using assms
proof (induction l arbitrary: t prev)
  case Nil
  then obtain c t' where t: "t = c # t'" "c \<noteq> SLASH" by (cases t) auto
  show ?case
  proof (cases f)
    case Nil
    then show ?thesis using t by (simp add: verdict_def)
  next
    case (Cons a f')
    then have "a = SLASH" using Nil.prems by (auto simp: at_sep_def)
    then show ?thesis using t Cons Nil.prems verdict_no_hash [of SLASH f'] by auto
  qed
next
  case (Cons a l)
  have v: "verdict prev (a # l @ f) m = Some False" for prev m
    using Cons.prems by (intro verdict_no_hash) (auto simp: plain_level_def)
  have a: "a \<noteq> PLUS" "a \<noteq> HASH" "a \<noteq> SLASH" using Cons.prems(1) by (auto simp: plain_level_def)
  show ?case
  proof (cases t)
    case Nil
    then show ?thesis using v a Cons.prems(5) by (auto simp: at_sep_def)
  next
    case t: (Cons c t')
    show ?thesis
    proof (cases "a = c")
      case False
      then show ?thesis using t v a by simp
    next
      case True
      have "tm (Some c) (l @ f) (t' @ n) = Some False"
        using Cons.prems t True by (intro Cons.IH) (auto simp: plain_level_def)
      then show ?thesis using t True a by simp
    qed
  qed
qed

fun plain_levels :: "byte list list \<Rightarrow> bool" where
  "plain_levels [] = False"
| "plain_levels [l] = (plain_level l \<or> l = [PLUS])"
| "plain_levels (l # ls) = (plain_level l \<and> plain_levels ls)"

lemma plain_levels_no_hash: "plain_levels fs \<Longrightarrow> HASH \<notin> set (join fs)"
  by (induction fs rule: plain_levels.induct) (auto simp: plain_level_def)

lemma levels_match_Nil_plain: "plain_levels fs \<Longrightarrow> \<not> levels_match fs []"
  by (cases fs rule: plain_levels.cases) (auto simp: plain_level_def)

lemma tm_plus_last:
  assumes "ts \<noteq> []" "\<forall>t \<in> set ts. SLASH \<notin> set t" "prev = Some SLASH \<or> join ts \<noteq> []"
  shows "tm prev [PLUS] (join ts) = Some (levels_match [[PLUS]] ts)"
proof -
  obtain t ts' where ts: "ts = t # ts'" using assms(1) by (cases ts) auto
  show ?thesis
  proof (cases "ts' = []")
    case True
    then show ?thesis
      using assms ts tm_plus [of t "[]" prev "[]"] by (cases t) (auto simp: at_sep_def verdict_def)
  next
    case False
    then show ?thesis
      using assms ts tm_plus [of t "SLASH # join ts'" prev "[]"]
      by (simp add: join_Cons at_sep_def verdict_def)
  qed
qed

lemma tm_exact:
  assumes "plain_levels fs" "ts \<noteq> []" "\<forall>t \<in> set ts. SLASH \<notin> set t" "prev = Some SLASH \<or> join ts \<noteq> []"
  shows "tm prev (join fs) (join ts) = Some (levels_match fs ts)"
  using assms
proof (induction fs arbitrary: ts prev)
  case Nil
  then show ?case by simp
next
  case (Cons l fs)
  show ?case
  proof (cases "l = [PLUS]")
    case True
    then have "fs = []" using Cons.prems(1) by (cases fs) (auto simp: plain_level_def)
    with True show ?thesis using tm_plus_last Cons.prems by simp
  next
    case False
    then have l: "plain_level l" using Cons.prems(1) by (cases fs) auto
    obtain t ts' where ts: "ts = t # ts'" using Cons.prems(2) by (cases ts) auto
    define f where "f = (if fs = [] then [] else SLASH # join fs)"
    define n where "n = (if ts' = [] then [] else SLASH # join ts')"
    have j: "join (l # fs) = l @ f" "join ts = t @ n" using ts by (simp_all add: f_def n_def join_Cons)
    have nh: "HASH \<notin> set (join fs)" if "fs \<noteq> []"
      using that Cons.prems(1) by (intro plain_levels_no_hash) (cases fs; simp)
    have spec: "levels_match (l # fs) ts \<longleftrightarrow> l = t \<and> levels_match fs ts'"
      using l False ts by (auto simp: plain_level_def)
    show ?thesis
    proof (cases "l = t")
      case False
      have "tm prev (l @ f) (t @ n) = Some False"
        using l False Cons.prems(3) ts nh by (intro tm_plain_differs) (auto simp: f_def n_def at_sep_def)
      with False spec j show ?thesis by simp
    next
      case True
      then have step: "tm prev (join (l # fs)) (join ts) = tm (last_before prev t) f n"
        using j l tm_plain by simp
      show ?thesis
      proof (cases "fs = [] \<or> ts' = []")
        case True
        then show ?thesis
          using step spec \<open>l = t\<close> nh Cons.prems(1) levels_match_Nil_plain [of fs]
          by (cases fs; cases ts') (auto simp: f_def n_def verdict_def)
      next
        case False
        then have "tm (last_before prev t) f n = tm (Some SLASH) (join fs) (join ts')"
          by (simp add: f_def n_def)
        also have "\<dots> = Some (levels_match fs ts')"
          using Cons.prems ts False by (intro Cons.IH) (cases fs; auto)+
        finally show ?thesis using step spec \<open>l = t\<close> by simp
      qed
    qed
  qed
qed

lemma standard_match_accepted:
  assumes "wf_filter f" "n \<noteq> []" "topic_matches f n"
  shows "is_topic_matched f n = Some True"
proof -
  have "tm None (join (levels f)) (join (levels n)) = Some True"
    using assms levels_nonempty levels_no_slash
    by (intro tm_complete) (auto simp: wf_filter_def topic_matches_def join_levels)
  then show ?thesis by (simp add: is_topic_matched_tm join_levels)
qed

section \<open>Properties\<close>

text \<open>C35. No message is lost by the filter matching: whenever a well-formed filter matches a non-empty
  topic by the MQTT rules (level by level), \<open>is_topic_matched\<close> says so, without reading outside
  the two strings.\<close>

theorem is_topic_matched_complete:
  assumes "wf_filter f" "n \<noteq> []" "topic_matches f n"
  shows "is_topic_matched f n = Some True"
  using assms by (rule standard_match_accepted)

theorem is_topic_matched_complete_witness:
  "is_topic_matched [97, 47, 43, 47, 35] [97, 47, 98, 47, 99] = Some True"
  by (rule is_topic_matched_complete)
     (simp_all add: wf_filter_def topic_matches_def plain_level_def)

text \<open>For filters without \<open>#\<close> and with \<open>+\<close> at most as the last level, \<open>is_topic_matched\<close> is exact: it
  decides the MQTT matching relation on every non-empty topic.\<close>

theorem is_topic_matched_exact:
  assumes "plain_levels (levels f)" "n \<noteq> []"
  shows "is_topic_matched f n = Some (topic_matches f n)"
proof -
  have "tm None (join (levels f)) (join (levels n)) = Some (levels_match (levels f) (levels n))"
    using assms levels_nonempty levels_no_slash by (intro tm_exact) (auto simp: join_levels)
  then show ?thesis by (simp add: is_topic_matched_tm join_levels topic_matches_def)
qed

theorem is_topic_matched_exact_witness:
  "is_topic_matched [97, 47, 43] [97, 47, 98, 47, 99] = Some False"
  using is_topic_matched_exact [of "[97, 47, 43]" "[97, 47, 98, 47, 99]"]
  by (simp add: plain_level_def topic_matches_def)

text \<open>Beyond those filters the function accepts too much: \<open>a/#\<close> takes the topic \<open>ab\<close>, and
  \<open>a/+/c\<close> takes the topic \<open>a/\<close>, both well-formed filters that do not match by the MQTT rules; and for
  an empty topic the filter \<open>+\<close> makes it read before the start of the topic.\<close>

theorem is_topic_matched_overmatches:
  "wf_filter [97, 47, 35] \<and> \<not> topic_matches [97, 47, 35] [97, 98] \<and>
     is_topic_matched [97, 47, 35] [97, 98] = Some True \<and>
   wf_filter [97, 47, 43, 47, 99] \<and> \<not> topic_matches [97, 47, 43, 47, 99] [97, 47] \<and>
     is_topic_matched [97, 47, 43, 47, 99] [97, 47] = Some True \<and>
   is_topic_matched [43] [] = None"
  by (simp add: wf_filter_def topic_matches_def plain_level_def is_topic_matched_tm verdict_def)

end
