(* ===== verification/Mqtt_Net.thy ===== *)
theory Mqtt_Net
  imports Mqtt_Codec Mqtt_Topic
begin

text \<open>
  The client structure of \<^verbatim>\<open>sdk_src/internal_inc/mqtt_client.h\<close>, the platform interface it runs on,
  and the packet transport of \<^verbatim>\<open>mqtt_client_common.c\<close>: \<^verbatim>\<open>send_mqtt_packet\<close>,
  \<^verbatim>\<open>_read_mqtt_packet\<close> and the functions they call.

  The platform (clock, network stack, heap, random numbers) is the record \<open>'w hal\<close> of functions
  on an arbitrary world \<open>'w\<close>; the state of a call is the client structure, the world and the list of
  the callbacks made so far, the first one first. A call that reads or writes outside an object, or
  that never returns, is \<^const>\<open>None\<close>.
\<close>

section \<open>The platform\<close>

text \<open>
  Time is in microseconds, as \<^verbatim>\<open>gettimeofday\<close> gives it; timeouts are in milliseconds. A network read
  of at most \<open>n\<close> bytes gives the return code and the bytes it has stored, a write the return code and
  \<open>*written_len\<close>. \<open>hal_malloc\<close> says whether the allocation succeeds.
\<close>

record 'w hal =
  gettimeofday :: "'w \<Rightarrow> nat \<times> 'w"
  net_read :: "nat \<Rightarrow> nat \<Rightarrow> 'w \<Rightarrow> (int \<times> byte list) \<times> 'w"
  net_write :: "byte list \<Rightarrow> nat \<Rightarrow> 'w \<Rightarrow> (int \<times> nat) \<times> 'w"
  net_connect :: "'w \<Rightarrow> int \<times> 'w"
  net_disconnect :: "'w \<Rightarrow> 'w"
  hal_malloc :: "'w \<Rightarrow> bool \<times> 'w"
  c_srand :: "nat \<Rightarrow> 'w \<Rightarrow> 'w"
  c_rand :: "'w \<Rightarrow> nat \<times> 'w"
  hal_sleep :: "nat \<Rightarrow> 'w \<Rightarrow> 'w"

section \<open>The client structure\<close>

type_synonym Timer = nat   \<comment> \<open>the end time in microseconds\<close>

abbreviation MAX_PACKET_ID :: u16 where "MAX_PACKET_ID \<equiv> 65535"
abbreviation MAX_MESSAGE_HANDLERS :: nat where "MAX_MESSAGE_HANDLERS \<equiv> 10"
abbreviation MAX_REPUB_NUM :: nat where "MAX_REPUB_NUM \<equiv> 20"
abbreviation MQTT_MAX_REPEAT_BUF_LEN :: nat where "MQTT_MAX_REPEAT_BUF_LEN \<equiv> 10"
abbreviation MAX_SIZE_OF_CLOUD_TOPIC :: nat where "MAX_SIZE_OF_CLOUD_TOPIC \<equiv> 128"
abbreviation MAX_RECONNECT_WAIT_INTERVAL :: u32 where "MAX_RECONNECT_WAIT_INTERVAL \<equiv> 60000"
abbreviation QCLOUD_IOT_MQTT_MAX_REMAIN_WAIT_MS :: nat where "QCLOUD_IOT_MQTT_MAX_REMAIN_WAIT_MS \<equiv> 2000"

text \<open>Function pointers and user data are addresses, a null function pointer is \<^const>\<open>None\<close>; the topic filter is
  the heap string it points to.\<close>

record SubTopicHandle =
  topic_filter :: "byte list option"
  message_handler :: "nat option"
  sub_event_handler :: "nat option"
  handler_user_data :: nat
  sub_qos :: QoS

datatype MQTTNodeState = MQTT_NODE_STATE_NORMANL | MQTT_NODE_STATE_INVALID

record QcloudIotPubInfo =
  pub_start_time :: Timer
  pub_node_state :: MQTTNodeState
  pub_msg_id :: u16
  pub_buf :: "byte list"

record QcloudIotSubInfo =
  sub_type :: MessageTypes
  sub_msg_id :: u16
  sub_start_time :: Timer
  sub_node_state :: MQTTNodeState
  sub_handler :: SubTopicHandle
  sub_buf :: "byte list"

datatype MQTTEventType =
  MQTT_EVENT_UNDEF | MQTT_EVENT_DISCONNECT | MQTT_EVENT_RECONNECT | MQTT_EVENT_SUBCRIBE_SUCCESS
| MQTT_EVENT_SUBCRIBE_TIMEOUT | MQTT_EVENT_SUBCRIBE_NACK | MQTT_EVENT_UNSUBCRIBE_SUCCESS
| MQTT_EVENT_UNSUBCRIBE_TIMEOUT | MQTT_EVENT_UNSUBCRIBE_NACK | MQTT_EVENT_PUBLISH_SUCCESS
| MQTT_EVENT_PUBLISH_TIMEOUT | MQTT_EVENT_PUBLISH_NACK | MQTT_EVENT_PUBLISH_RECVEIVED
| MQTT_EVENT_CLIENT_DESTROY | MQTT_EVENT_UNSUBSCRIBE | MQTT_EVENT_GATEWAY_SEARCH
| MQTT_EVENT_GATEWAY_UNBIND_ALL

text \<open>A message as the callback sees it: \<open>payload\<close> is the read buffer from the payload pointer on. The
  packet id of a message of quality 0 is never written.\<close>

record MQTTMessage =
  msg_qos :: QoS
  msg_retained :: u8
  msg_dup :: u8
  msg_id :: "u16 option"
  ptopic :: "byte list"
  payload :: "byte list"
  payload_len :: size_t

datatype event_msg = NoMsg | PacketId u16 | Message MQTTMessage

text \<open>The callbacks: a message handler and a subscription event handler (with their address and user
  data), and the event handler of the client.\<close>

datatype event =
  On_Message nat MQTTMessage nat
| On_Sub_Event nat MQTTEventType nat
| On_Event MQTTEventType event_msg

record Qcloud_IoT_Client =
  is_connected :: u8
  was_manually_disconnected :: u8
  is_ping_outstanding :: u8
  next_packet_id :: u16
  command_timeout_ms :: u32
  current_reconnect_wait_interval :: u32
  counter_network_disconnected :: u32
  write_buf_size :: nat
  read_buf_size :: nat
  write_buf :: "byte list"
  read_buf :: "byte list"
  list_pub_wait_ack :: "QcloudIotPubInfo list"
  list_sub_wait_ack :: "QcloudIotSubInfo list"
  event_handle :: bool   \<comment> \<open>whether \<^verbatim>\<open>event_handle.h_fp\<close> is set\<close>
  options :: MQTTConnectParams
  ping_timer :: Timer
  reconnect_delay_timer :: Timer
  sub_handles :: "SubTopicHandle list"
  psk_decode :: "byte list"
  repeat_packet_id_buf :: "u16 list"
  current_packet_id_cnt :: nat
  thread_running :: bool
  thread_exit_code :: int

abbreviation DECODE_PSK_LENGTH :: nat where "DECODE_PSK_LENGTH \<equiv> 48"

text \<open>The structure after \<^verbatim>\<open>memset(pClient, 0x0, sizeof(Qcloud_IoT_Client))\<close>.\<close>

definition no_options :: MQTTConnectParams where
  "no_options = \<lparr>client_id = [], username = None, password = None, conn_id = [], mqtt_version = 0,
     keep_alive_interval = 0, clean_session = 0, auto_connect_enable = 0, device_secret = None\<rparr>"

definition no_handle :: SubTopicHandle where
  "no_handle = \<lparr>topic_filter = None, message_handler = None, sub_event_handler = None, handler_user_data = 0,
     sub_qos = QOS0\<rparr>"

definition zero_client :: Qcloud_IoT_Client where
  "zero_client = \<lparr>is_connected = 0, was_manually_disconnected = 0, is_ping_outstanding = 0, next_packet_id = 0,
     command_timeout_ms = 0, current_reconnect_wait_interval = 0, counter_network_disconnected = 0,
     write_buf_size = 0, read_buf_size = 0, write_buf = replicate QCLOUD_IOT_MQTT_TX_BUF_LEN 0,
     read_buf = replicate QCLOUD_IOT_MQTT_RX_BUF_LEN 0, list_pub_wait_ack = [], list_sub_wait_ack = [],
     event_handle = False, options = no_options, ping_timer = 0, reconnect_delay_timer = 0,
     sub_handles = replicate MAX_MESSAGE_HANDLERS no_handle, psk_decode = replicate DECODE_PSK_LENGTH 0,
     repeat_packet_id_buf = replicate MQTT_MAX_REPEAT_BUF_LEN 0, current_packet_id_cnt = 0,
     thread_running = False, thread_exit_code = 0\<rparr>"

record 'w mqtt =
  cl :: Qcloud_IoT_Client
  env :: 'w
  events :: "event list"

definition call_back :: "event \<Rightarrow> 'w mqtt \<Rightarrow> 'w mqtt" where
  "call_back e s = s\<lparr>events := events s @ [e]\<rparr>"

section \<open>Timers\<close>

text \<open>\<^verbatim>\<open>sdk_src/utils/utils_timer.c\<close> over \<^verbatim>\<open>platform/os/linux/HAL_Timer_linux.c\<close>.\<close>

definition now :: "'w hal \<Rightarrow> 'w mqtt \<Rightarrow> nat \<times> 'w mqtt" where
  "now H s = (let (t, w) = gettimeofday H (env s) in (t, s\<lparr>env := w\<rparr>))"

definition expired :: "'w hal \<Rightarrow> Timer \<Rightarrow> 'w mqtt \<Rightarrow> bool \<times> 'w mqtt" where
  "expired H timer s = (let (t, s) = now H s in (timer \<le> t, s))"

definition countdown_ms :: "'w hal \<Rightarrow> nat \<Rightarrow> 'w mqtt \<Rightarrow> Timer \<times> 'w mqtt" where
  "countdown_ms H timeout_ms s =
     (let (t, s) = now H s in (t + 1000000 * (timeout_ms div 1000) + 1000 * (timeout_ms mod 1000), s))"

definition countdown :: "'w hal \<Rightarrow> nat \<Rightarrow> 'w mqtt \<Rightarrow> Timer \<times> 'w mqtt" where
  "countdown H timeout s = (let (t, s) = now H s in (t + 1000000 * timeout, s))"

definition left_ms :: "'w hal \<Rightarrow> Timer \<Rightarrow> 'w mqtt \<Rightarrow> nat \<times> 'w mqtt" where
  "left_ms H timer s =
     (let (t, s) = now H s in (if timer < t then 0 else (timer - t) div 1000000 * 1000 + (timer - t) mod 1000000 div 1000, s))"

text \<open>\<^verbatim>\<open>HAL_GetTimeMs\<close>.\<close>

definition get_time_ms :: "'w hal \<Rightarrow> 'w mqtt \<Rightarrow> nat \<times> 'w mqtt" where
  "get_time_ms H s = (let (t, s) = now H s in (t div 1000, s))"

section \<open>Heap, random numbers, packet ids\<close>

definition HAL_Malloc :: "'w hal \<Rightarrow> 'w mqtt \<Rightarrow> bool \<times> 'w mqtt" where
  "HAL_Malloc H s = (let (ok, w) = hal_malloc H (env s) in (ok, s\<lparr>env := w\<rparr>))"

definition srand :: "'w hal \<Rightarrow> nat \<Rightarrow> 'w mqtt \<Rightarrow> 'w mqtt" where
  "srand H seed s = s\<lparr>env := c_srand H seed (env s)\<rparr>"

definition rand :: "'w hal \<Rightarrow> 'w mqtt \<Rightarrow> nat \<times> 'w mqtt" where
  "rand H s = (let (r, w) = c_rand H (env s) in (r, s\<lparr>env := w\<rparr>))"

definition get_next_packet_id :: "'w mqtt \<Rightarrow> u16 \<times> 'w mqtt" where
  "get_next_packet_id s =
     (let i = (if next_packet_id (cl s) = MAX_PACKET_ID then 1 else next_packet_id (cl s) + 1)
      in (i, cl_update (\<lambda>c. c\<lparr>next_packet_id := i\<rparr>) s))"

definition conn_id_char :: "'w hal \<Rightarrow> 'w mqtt \<Rightarrow> byte \<times> 'w mqtt" where
  "conn_id_char H s =
     (let (r, s) = rand H s; (d, s) = rand H s
      in (of_nat (if r mod 3 = 0 then d mod 26 + 97 else if r mod 3 = 1 then d mod 26 + 65 else d mod 10 + 48), s))"

primrec conn_id_loop :: "'w hal \<Rightarrow> nat \<Rightarrow> 'w mqtt \<Rightarrow> byte list \<times> 'w mqtt" where
  "conn_id_loop H 0 s = ([], s)"
| "conn_id_loop H (Suc n) s = (let (c, s) = conn_id_char H s; (cs, s) = conn_id_loop H n s in (c # cs, s))"

definition get_next_conn_id :: "'w hal \<Rightarrow> 'w mqtt \<Rightarrow> byte list \<times> 'w mqtt" where
  "get_next_conn_id H s =
     (let (ms, s) = get_time_ms H s; s = srand H (ms mod 2 ^ 32) s in conn_id_loop H (MAX_CONN_ID_LEN - 1) s)"

definition set_client_conn_state :: "u8 \<Rightarrow> 'w mqtt \<Rightarrow> 'w mqtt" where
  "set_client_conn_state connected s = cl_update (\<lambda>c. c\<lparr>is_connected := connected\<rparr>) s"

definition get_client_conn_state :: "'w mqtt \<Rightarrow> u8" where
  "get_client_conn_state s = is_connected (cl s)"

section \<open>Sending a packet\<close>

definition network_read :: "'w hal \<Rightarrow> nat \<Rightarrow> nat \<Rightarrow> 'w mqtt \<Rightarrow> (int \<times> byte list) \<times> 'w mqtt" where
  "network_read H n timeout s = (let (r, w) = net_read H n timeout (env s) in (r, s\<lparr>env := w\<rparr>))"

definition network_write :: "'w hal \<Rightarrow> byte list \<Rightarrow> nat \<Rightarrow> 'w mqtt \<Rightarrow> (int \<times> nat) \<times> 'w mqtt" where
  "network_write H data timeout s = (let (r, w) = net_write H data timeout (env s) in (r, s\<lparr>env := w\<rparr>))"

partial_function (option) send_loop ::
  "'w hal \<Rightarrow> nat \<Rightarrow> Timer \<Rightarrow> nat \<Rightarrow> int \<Rightarrow> 'w mqtt \<Rightarrow> ((nat \<times> int) \<times> 'w mqtt) option" where
  "send_loop H len timer sent rc s =
     (if sent < len
      then let (e, s) = expired H timer s
           in if e then Some ((sent, rc), s)
              else let (ms, s) = left_ms H timer s
                   in do {
                     data \<leftarrow> rd_bytes (write_buf (cl s)) sent len;
                     let ((rc, sentLen), s) = network_write H data ms s;
                     if rc \<noteq> QCLOUD_RET_SUCCESS then Some ((sent, rc), s)
                     else send_loop H len timer (sent + sentLen) rc s }
      else Some ((sent, rc), s))"

definition send_mqtt_packet :: "'w hal \<Rightarrow> nat \<Rightarrow> Timer \<Rightarrow> 'w mqtt \<Rightarrow> (int \<times> 'w mqtt) option" where
  "send_mqtt_packet H len timer s =
     (if len \<ge> write_buf_size (cl s) then Some (QCLOUD_ERR_BUF_TOO_SHORT, s)
      else let (e, s) = expired H timer s
           in if e then Some (QCLOUD_ERR_MQTT_REQUEST_TIMEOUT, s)
              else do {
                ((sent, rc), s) \<leftarrow> send_loop H len timer 0 QCLOUD_RET_SUCCESS s;
                if sent = len then Some (QCLOUD_RET_SUCCESS, s)
                else if rc = QCLOUD_RET_SUCCESS
                     then let (e, s) = expired H timer s
                          in Some (if e then QCLOUD_ERR_MQTT_REQUEST_TIMEOUT else rc, s)
                     else Some (rc, s) })"

section \<open>Receiving a packet\<close>

function decode_net_loop ::
  "'w hal \<Rightarrow> nat \<Rightarrow> u32 \<Rightarrow> u32 \<Rightarrow> nat \<Rightarrow> 'w mqtt \<Rightarrow> ((int + u32) \<times> 'w mqtt) option" where
  "decode_net_loop H timeout value multiplier len s =
     (if len + 1 > MAX_NO_OF_REMAINING_LENGTH_BYTES then Some (Inl QCLOUD_ERR_MQTT_PACKET_READ, s)
      else let ((rc, bs), s) = network_read H 1 timeout s
           in if rc \<noteq> QCLOUD_RET_SUCCESS then Some (Inl QCLOUD_ERR_FAILURE, s)
              else do {
                i \<leftarrow> rd bs 0;
                let value = value + ucast (i AND 127) * multiplier;
                if i AND 128 \<noteq> 0 then decode_net_loop H timeout value (multiplier * 128) (len + 1) s
                else Some (Inr value, s) })"
  by pat_completeness auto
termination
  by (relation "measure (\<lambda>(H, timeout, value, multiplier, len, s). 5 - len)") auto

declare decode_net_loop.simps [simp del]

definition decode_packet_rem_len_with_net_read :: "'w hal \<Rightarrow> nat \<Rightarrow> 'w mqtt \<Rightarrow> ((int + u32) \<times> 'w mqtt) option" where
  "decode_packet_rem_len_with_net_read H timeout s = decode_net_loop H timeout 0 1 0 s"

text \<open>A read into the read buffer at \<open>off\<close>.\<close>

definition read_into :: "'w hal \<Rightarrow> nat \<Rightarrow> nat \<Rightarrow> nat \<Rightarrow> 'w mqtt \<Rightarrow> ((int \<times> nat) \<times> 'w mqtt) option" where
  "read_into H off n timeout s = do {
     let ((rc, bs), s) = network_read H n timeout s;
     b \<leftarrow> wr_bytes (read_buf (cl s)) off bs;
     Some ((rc, length bs), cl_update (\<lambda>c. c\<lparr>read_buf := b\<rparr>) s) }"

partial_function (option) discard_loop ::
  "'w hal \<Rightarrow> nat \<Rightarrow> nat \<Rightarrow> nat \<Rightarrow> nat \<Rightarrow> 'w mqtt \<Rightarrow> (unit \<times> 'w mqtt) option" where
  "discard_loop H rem_len timeout total_bytes_read bytes_to_be_read s = do {
     ((ret_val, read_len), s) \<leftarrow> read_into H 0 bytes_to_be_read timeout s;
     if ret_val = QCLOUD_RET_SUCCESS
     then let total_bytes_read = total_bytes_read + read_len;
              size = read_buf_size (cl s);
              bytes_to_be_read = (if rem_len - total_bytes_read \<ge> size then size else rem_len - total_bytes_read)
          in if total_bytes_read < rem_len then discard_loop H rem_len timeout total_bytes_read bytes_to_be_read s
             else Some ((), s)
     else Some ((), s) }"

definition left_or_1 :: "'w hal \<Rightarrow> Timer \<Rightarrow> 'w mqtt \<Rightarrow> nat \<times> 'w mqtt" where
  "left_or_1 H timer s = (let (ms, s) = left_ms H timer s in (if ms \<le> 0 then 1 else ms, s))"

text \<open>\<^verbatim>\<open>_read_mqtt_packet\<close> once the remaining length is known: a packet that does not fit is read and
  dropped, otherwise its length field is written back and its body read behind it.\<close>

definition read_packet_body :: "'w hal \<Rightarrow> Timer \<Rightarrow> u32 \<Rightarrow> 'w mqtt \<Rightarrow> ((int + u8) \<times> 'w mqtt) option" where
  "read_packet_body H timer rem_len s =
     (if unat rem_len \<ge> read_buf_size (cl s)
      then do {
        let (timer_left_ms, s) = left_or_1 H timer s;
        (u, s) \<leftarrow> discard_loop H (unat rem_len) (timer_left_ms + QCLOUD_IOT_MQTT_MAX_REMAIN_WAIT_MS) 0
                    (read_buf_size (cl s)) s;
        Some (Inl QCLOUD_ERR_BUF_TOO_SHORT, s) }
      else do {
        (b, n) \<leftarrow> mqtt_write_packet_rem_len (read_buf (cl s)) 1 rem_len;
        let s = cl_update (\<lambda>c. c\<lparr>read_buf := b\<rparr>) s;
        let len = 1 + n;
        if unat rem_len > 0 \<and> len + unat rem_len > read_buf_size (cl s)
        then do {
          let (timer_left_ms, s) = left_or_1 H timer s;
          (x, s) \<leftarrow> read_into H 0 (unat rem_len) (timer_left_ms + QCLOUD_IOT_MQTT_MAX_REMAIN_WAIT_MS) s;
          Some (Inl QCLOUD_ERR_BUF_TOO_SHORT, s) }
        else do {
          (rc, s) \<leftarrow>
            (if unat rem_len > 0
             then do {
               let (timer_left_ms, s) = left_or_1 H timer s;
               ((rc, read_len), s) \<leftarrow>
                 read_into H len (unat rem_len) (timer_left_ms + QCLOUD_IOT_MQTT_MAX_REMAIN_WAIT_MS) s;
               Some (rc, s) }
             else Some (QCLOUD_RET_SUCCESS, s));
          if rc \<noteq> QCLOUD_RET_SUCCESS then Some (Inl rc, s)
          else do {
            h \<leftarrow> rd (read_buf (cl s)) 0;
            Some (Inr (header_type h), s) } } })"

text \<open>\<^verbatim>\<open>_read_mqtt_packet\<close>: the error code, or the packet type.\<close>

definition read_mqtt_packet :: "'w hal \<Rightarrow> Timer \<Rightarrow> 'w mqtt \<Rightarrow> ((int + u8) \<times> 'w mqtt) option" where
  "read_mqtt_packet H timer s = do {
     let (timer_left_ms, s) = left_or_1 H timer s;
     ((rc, read_len), s) \<leftarrow> read_into H 0 1 timer_left_ms s;
     if rc = QCLOUD_ERR_SSL_NOTHING_TO_READ \<or> rc = QCLOUD_ERR_TCP_NOTHING_TO_READ
     then Some (Inl QCLOUD_ERR_MQTT_NOTHING_TO_READ, s)
     else if rc \<noteq> QCLOUD_RET_SUCCESS then Some (Inl rc, s)
     else do {
       let (timer_left_ms, s) = left_or_1 H timer s;
       (r, s) \<leftarrow> decode_packet_rem_len_with_net_read H (timer_left_ms + QCLOUD_IOT_MQTT_MAX_REMAIN_WAIT_MS) s;
       (case r of
          Inl rc \<Rightarrow> Some (Inl rc, s)
        | Inr rem_len \<Rightarrow> read_packet_body H timer rem_len s) } }"

section \<open>What the platform calls leave alone\<close>

text \<open>A call to the platform changes the world and nothing else.\<close>

named_theorems env_only \<open>results of platform calls as updates of the world\<close>

lemma now_env [env_only]: "now H s = (t, s') \<Longrightarrow> \<exists>w. s' = s\<lparr>env := w\<rparr>"
  by (auto simp: now_def split: prod.splits)

lemma expired_env [env_only]: "expired H t s = (e, s') \<Longrightarrow> \<exists>w. s' = s\<lparr>env := w\<rparr>"
  by (auto simp: expired_def dest!: now_env split: prod.splits)

lemma countdown_ms_env [env_only]: "countdown_ms H n s = (t, s') \<Longrightarrow> \<exists>w. s' = s\<lparr>env := w\<rparr>"
  by (auto simp: countdown_ms_def dest!: now_env split: prod.splits)

lemma countdown_env [env_only]: "countdown H n s = (t, s') \<Longrightarrow> \<exists>w. s' = s\<lparr>env := w\<rparr>"
  by (auto simp: countdown_def dest!: now_env split: prod.splits)

lemma left_ms_env [env_only]: "left_ms H t s = (ms, s') \<Longrightarrow> \<exists>w. s' = s\<lparr>env := w\<rparr>"
  by (auto simp: left_ms_def dest!: now_env split: prod.splits)

lemma left_or_1_env [env_only]: "left_or_1 H t s = (ms, s') \<Longrightarrow> \<exists>w. s' = s\<lparr>env := w\<rparr>"
  by (auto simp: left_or_1_def dest!: left_ms_env split: prod.splits)

lemma get_time_ms_env [env_only]: "get_time_ms H s = (t, s') \<Longrightarrow> \<exists>w. s' = s\<lparr>env := w\<rparr>"
  by (auto simp: get_time_ms_def dest!: now_env split: prod.splits)

lemma HAL_Malloc_env [env_only]: "HAL_Malloc H s = (ok, s') \<Longrightarrow> \<exists>w. s' = s\<lparr>env := w\<rparr>"
  by (auto simp: HAL_Malloc_def split: prod.splits)

lemma rand_env [env_only]: "rand H s = (r, s') \<Longrightarrow> \<exists>w. s' = s\<lparr>env := w\<rparr>"
  by (auto simp: rand_def split: prod.splits)

lemma network_read_env [env_only]: "network_read H n t s = (r, s') \<Longrightarrow> \<exists>w. s' = s\<lparr>env := w\<rparr>"
  by (auto simp: network_read_def split: prod.splits)

lemma network_write_env [env_only]: "network_write H d t s = (r, s') \<Longrightarrow> \<exists>w. s' = s\<lparr>env := w\<rparr>"
  by (auto simp: network_write_def split: prod.splits)

lemma conn_id_loop_env: "conn_id_loop H n s = (cs, s') \<Longrightarrow> \<exists>w. s' = s\<lparr>env := w\<rparr>"
proof (induction n arbitrary: s cs s')
  case 0
  then show ?case by (auto intro: exI [of _ "env s"])
next
  case (Suc n)
  obtain c s1 where c: "conn_id_char H s = (c, s1)" by fastforce
  then obtain w1 where w1: "s1 = s\<lparr>env := w1\<rparr>"
    by (auto simp: conn_id_char_def Let_def dest!: rand_env split: prod.splits)
  obtain cs2 s2 where r: "conn_id_loop H n s1 = (cs2, s2)" by fastforce
  then obtain w2 where "s2 = s1\<lparr>env := w2\<rparr>" using Suc.IH by blast
  then show ?case using Suc.prems c r w1 by auto
qed

lemma get_next_conn_id_env [env_only]: "get_next_conn_id H s = (cs, s') \<Longrightarrow> \<exists>w. s' = s\<lparr>env := w\<rparr>"
  by (auto simp: get_next_conn_id_def srand_def Let_def dest!: get_time_ms_env conn_id_loop_env split: prod.splits)

lemma network_write_cases:
  obtains rc n w where "network_write H d t s = ((rc, n), s\<lparr>env := w\<rparr>)"
  by (metis network_write_env surj_pair)

lemma network_read_cases:
  obtains rc bs w where "network_read H n t s = ((rc, bs), s\<lparr>env := w\<rparr>)"
  by (metis network_read_env surj_pair)

lemma send_loop_env: "send_loop H len timer sent rc s = Some y \<Longrightarrow> \<exists>w. snd y = s\<lparr>env := w\<rparr>"
proof (induction rule: send_loop.raw_induct [rotated 1, consumes 1, case_names step])
  case (step loop H len timer sent rc s y)
  note IH = step(1)
  obtain e w1 where e: "expired H timer s = (e, s\<lparr>env := w1\<rparr>)" by (metis expired_env surj_pair)
  obtain ms w2 where ms: "left_ms H timer (s\<lparr>env := w1\<rparr>) = (ms, s\<lparr>env := w1, env := w2\<rparr>)" by (metis left_ms_env surj_pair)
  show ?case
  proof (cases "sent < len \<and> \<not> e")
    case False
    then show ?thesis using step(2) e by (auto intro: exI [of _ "env s"] split: if_splits)
  next
    case True
    then obtain d where d: "rd_bytes (write_buf (cl s)) sent len = Some d"
      using step(2) e ms by (cases "rd_bytes (write_buf (cl s)) sent len") auto
    obtain rc' n w3 where wr: "network_write H d ms (s\<lparr>env := w2\<rparr>) = ((rc', n), s\<lparr>env := w2, env := w3\<rparr>)"
      by (metis network_write_env surj_pair)
    show ?thesis using step(2) e ms True d wr by (auto split: if_splits dest!: IH)
  qed
qed

lemma send_mqtt_packet_env [env_only]:
  "send_mqtt_packet H len timer s = Some (rc, s') \<Longrightarrow> \<exists>w. s' = s\<lparr>env := w\<rparr>"
  by (auto simp: send_mqtt_packet_def Let_def bind_eq_Some_conv split: prod.splits if_splits
      dest!: expired_env send_loop_env intro: exI [of _ "env s"])

lemma decode_net_loop_env:
  "decode_net_loop H timeout v multiplier len s = Some (r, s') \<Longrightarrow> \<exists>w. s' = s\<lparr>env := w\<rparr>"
proof (induction "5 - len" arbitrary: v multiplier len s r s' rule: less_induct)
  case less
  show ?case
  proof (cases "len + 1 > 4")
    case True
    then show ?thesis using less.prems by (subst (asm) decode_net_loop.simps) (auto intro: exI [of _ "env s"])
  next
    case False
    then have IH: "decode_net_loop H timeout v' m (Suc len) t = Some (r', t') \<Longrightarrow> \<exists>w. t' = t\<lparr>env := w\<rparr>" for v' m t r' t'
      by (intro less.hyps) auto
    obtain rc bs w where n: "network_read H 1 timeout s = ((rc, bs), s\<lparr>env := w\<rparr>)"
      by (rule network_read_cases)
    show ?thesis
      using less.prems False n
      by (subst (asm) decode_net_loop.simps)
         (auto simp: Let_def bind_eq_Some_conv split: if_splits dest!: IH)
  qed
qed

section \<open>Contract of the network stack\<close>

text \<open>What every implementation of \<^verbatim>\<open>network_stack.read\<close> promises (the comment of
  \<^verbatim>\<open>HAL_TCP_Read\<close>): it stores at most the bytes asked for, and exactly those on success.\<close>

definition net_read_ok :: "'w hal \<Rightarrow> bool" where
  "net_read_ok H \<longleftrightarrow> (\<forall>n t w. length (snd (fst (net_read H n t w))) \<le> n \<and>
     (fst (fst (net_read H n t w)) = QCLOUD_RET_SUCCESS \<longrightarrow> length (snd (fst (net_read H n t w))) = n))"

lemma network_read_ok:
  assumes "net_read_ok H" "network_read H n t s = ((rc, bs), s')"
  shows "length bs \<le> n" "rc = QCLOUD_RET_SUCCESS \<Longrightarrow> length bs = n"
proof -
  have "fst (net_read H n t (env s)) = (rc, bs)"
    using assms(2) by (auto simp: network_read_def split: prod.splits)
  then show "length bs \<le> n" "rc = QCLOUD_RET_SUCCESS \<Longrightarrow> length bs = n"
    using assms(1) [unfolded net_read_ok_def, rule_format, of n t "env s"] by simp_all
qed

text \<open>The buffers of a client have the sizes it says they have.\<close>

definition buffers_ok :: "Qcloud_IoT_Client \<Rightarrow> bool" where
  "buffers_ok c \<longleftrightarrow> write_buf_size c = QCLOUD_IOT_MQTT_TX_BUF_LEN \<and> length (write_buf c) = write_buf_size c \<and>
     read_buf_size c = QCLOUD_IOT_MQTT_RX_BUF_LEN \<and> length (read_buf c) = read_buf_size c"

text \<open>The states that differ from \<open>s\<close> in the read buffer and the world only.\<close>

definition read_update :: "byte list \<Rightarrow> 'w \<Rightarrow> 'w mqtt \<Rightarrow> 'w mqtt" where
  "read_update b w s = cl_update (\<lambda>c. c\<lparr>read_buf := b\<rparr>) (s\<lparr>env := w\<rparr>)"

lemma read_update_simps [simp]:
  "read_buf (cl (read_update b w s)) = b" "read_buf_size (cl (read_update b w s)) = read_buf_size (cl s)"
  "read_update b w (read_update b' w' s) = read_update b w s"
  "(read_update b w s)\<lparr>env := v\<rparr> = read_update b v s"
  "read_update b w (s\<lparr>env := v\<rparr>) = read_update b w s"
  "cl_update (\<lambda>c. c\<lparr>read_buf := b'\<rparr>) (read_update b w s) = read_update b' w s"
  "events (read_update b w s) = events s"
  by (simp_all add: read_update_def)

lemma read_update_same: "read_update (read_buf (cl s)) w s = s\<lparr>env := w\<rparr>"
  by (simp add: read_update_def)

lemma read_into_cases:
  assumes "net_read_ok H" "off + n \<le> length (read_buf (cl s))"
  obtains rc m b w where "read_into H off n t s = Some ((rc, m), read_update b w s)"
    "length b = length (read_buf (cl s))" "take off b = take off (read_buf (cl s))"
    "rc = QCLOUD_RET_SUCCESS \<longrightarrow> m = n"
proof -
  obtain rc bs w where r: "network_read H n t s = ((rc, bs), s\<lparr>env := w\<rparr>)" by (rule network_read_cases)
  note ok = network_read_ok [OF assms(1) r]
  let ?b = "take off (read_buf (cl s)) @ bs @ drop (off + length bs) (read_buf (cl s))"
  have "wr_bytes (read_buf (cl s)) off bs = Some ?b" using ok(1) assms(2) by (simp add: wr_bytes_def)
  then have "read_into H off n t s = Some ((rc, length bs), read_update ?b w s)"
    using r by (simp add: read_into_def read_update_def)
  moreover have "length ?b = length (read_buf (cl s))" "take off ?b = take off (read_buf (cl s))"
    using ok(1) assms(2) by simp_all
  ultimately show thesis using ok(2) that by blast
qed

section \<open>Reading is safe\<close>

lemma expired_cases: obtains e w where "expired H t s = (e, s\<lparr>env := w\<rparr>)"
  by (metis expired_env surj_pair)

lemma HAL_Malloc_cases: obtains ok w where "HAL_Malloc H s = (ok, s\<lparr>env := w\<rparr>)"
  by (metis HAL_Malloc_env surj_pair)

lemma countdown_ms_cases: obtains t w where "countdown_ms H n s = (t, s\<lparr>env := w\<rparr>)"
  by (metis countdown_ms_env surj_pair)

lemma countdown_cases: obtains t w where "countdown H n s = (t, s\<lparr>env := w\<rparr>)"
  by (metis countdown_env surj_pair)

lemma left_ms_cases: obtains ms w where "left_ms H t s = (ms, s\<lparr>env := w\<rparr>)"
  by (metis left_ms_env surj_pair)

lemma read_into_returns:
  assumes "net_read_ok H" "off + n \<le> length (read_buf (cl s))"
  shows "\<exists>rc m b w. read_into H off n t s = Some ((rc, m), read_update b w s) \<and>
    length b = length (read_buf (cl s)) \<and> take off b = take off (read_buf (cl s))"
  using read_into_cases [OF assms, of t] by metis

lemma discard_loop_returns:
  assumes "net_read_ok H" "length (read_buf (cl s)) = read_buf_size (cl s)" "0 < read_buf_size (cl s)"
    "0 < n" "n \<le> read_buf_size (cl s)"
  shows "\<exists>b w. discard_loop H rem_len t k n s = Some ((), read_update b w s) \<and> length b = read_buf_size (cl s)"
  using assms
proof (induction "rem_len - k" arbitrary: k n s rule: less_induct)
  case less
  have le: "0 + n \<le> length (read_buf (cl s))" using less.prems(2,5) by simp
  obtain rc m b w where r: "read_into H 0 n t s = Some ((rc, m), read_update b w s)"
    "length b = read_buf_size (cl s)" "rc = QCLOUD_RET_SUCCESS \<longrightarrow> m = n"
    using read_into_cases [OF less.prems(1) le, of t] less.prems(2) by metis
  let ?s = "read_update b w s"
  let ?n = "if rem_len - (k + n) \<ge> read_buf_size (cl s) then read_buf_size (cl s) else rem_len - (k + n)"
  show ?case
  proof (cases "rc = QCLOUD_RET_SUCCESS \<and> k + n < rem_len")
    case False
    have "discard_loop H rem_len t k n s = Some ((), ?s)"
      using False r by (subst discard_loop.simps) (auto simp: Let_def)
    then show ?thesis using r(2) by blast
  next
    case True
    have "discard_loop H rem_len t k n s = discard_loop H rem_len t (k + n) ?n ?s"
      using True r by (subst discard_loop.simps) (simp add: Let_def)
    moreover have "\<exists>b' w'. discard_loop H rem_len t (k + n) ?n ?s = Some ((), read_update b' w' ?s) \<and>
        length b' = read_buf_size (cl ?s)"
      using True r(2) less.prems by (intro less.hyps) auto
    ultimately show ?thesis by auto
  qed
qed

text \<open>What a successful read leaves behind: a packet of the type reported, whole, at the start of the
  read buffer.\<close>

definition read_outcome_ok :: "'w mqtt \<Rightarrow> int + u8 \<Rightarrow> 'w mqtt \<Rightarrow> bool" where
  "read_outcome_ok s r s' \<longleftrightarrow> (\<exists>b w. s' = read_update b w s \<and> length b = read_buf_size (cl s)) \<and>
     (case r of
        Inl rc \<Rightarrow> rc \<noteq> QCLOUD_RET_SUCCESS
      | Inr ty \<Rightarrow> packet_in_buffer (read_buf (cl s')) \<and> header_type (read_buf (cl s') ! 0) = ty)"

lemma read_outcome_err:
  "length b = read_buf_size (cl s) \<Longrightarrow> rc \<noteq> QCLOUD_RET_SUCCESS \<Longrightarrow> read_outcome_ok s (Inl rc) (read_update b w s)"
  by (auto simp: read_outcome_ok_def)

lemma decode_net_loop_cases:
  assumes "net_read_ok H"
  obtains rc w where "decode_net_loop H t v m len s = Some (Inl rc, s\<lparr>env := w\<rparr>)" "rc \<noteq> QCLOUD_RET_SUCCESS"
  | v' w where "decode_net_loop H t v m len s = Some (Inr v', s\<lparr>env := w\<rparr>)"
proof -
  have "\<exists>r. decode_net_loop H t v m len s = Some r \<and> fst r \<noteq> Inl QCLOUD_RET_SUCCESS"
  proof (induction "5 - len" arbitrary: v m len s rule: less_induct)
    case less
    obtain rc bs w where n: "network_read H 1 t s = ((rc, bs), s\<lparr>env := w\<rparr>)" by (rule network_read_cases)
    note ok = network_read_ok [OF assms n]
    have IH: "\<exists>r. decode_net_loop H t v' m' (len + 1) s' = Some r \<and> fst r \<noteq> Inl QCLOUD_RET_SUCCESS"
      if "\<not> 4 < len + 1" for v' m' s'
      using that by (intro less.hyps) auto
    show ?case
    proof (cases "\<not> 4 < len + 1 \<and> rc = QCLOUD_RET_SUCCESS")
      case False
      then show ?thesis using n by (subst decode_net_loop.simps) auto
    next
      case True
      then have "rd bs 0 = Some (bs ! 0)" using ok(2) by (simp add: rd_def)
      then show ?thesis using True n IH by (subst decode_net_loop.simps) (auto simp: Let_def)
    qed
  qed
  then obtain r s' where r: "decode_net_loop H t v m len s = Some (r, s')" "r \<noteq> Inl QCLOUD_RET_SUCCESS" by auto
  with decode_net_loop_env [OF r(1)] show thesis using that by (cases r) auto
qed

lemma rem_len_field:
  assumes buf: "length buf = 2048" and n: "unat v < 2048"
  obtains b m where "mqtt_write_packet_rem_len buf 1 v = Some (b, m)" "length b = 2048" "0 < m" "m \<le> 2"
    "b ! 0 = buf ! 0"
    "\<And>b'. length b' = 2048 \<Longrightarrow> take (1 + m) b' = take (1 + m) b \<Longrightarrow>
       mqtt_read_packet_rem_len_form_buf b' 1 = Some (Inr (v, m))"
proof -
  let ?e = "rem_len_bytes (unat v)"
  have e: "0 < length ?e" "length ?e \<le> Suc 1"
    using length_rem_len_bytes_pos length_rem_len_bytes_le [of "unat v" 1] n by simp_all
  let ?b = "take 1 buf @ ?e @ drop (1 + length ?e) buf"
  have w: "mqtt_write_packet_rem_len buf 1 v = Some (?b, length ?e)"
    using buf e by (simp add: mqtt_write_packet_rem_len_put put_fits)
  have at: "mqtt_read_packet_rem_len_form_buf b' 1 = Some (Inr (v, length ?e))"
    if b': "length b' = 2048" "take (1 + length ?e) b' = take (1 + length ?e) ?b" for b'
  proof -
    have "take (length ?e) (drop 1 b') = drop 1 (take (1 + length ?e) b')" by (simp add: take_drop)
    also have "\<dots> = ?e" unfolding b'(2) using buf by simp
    finally have "bytes_at b' 1 ?e" using e b'(1) by (subst bytes_at_iff_take) auto
    then show ?thesis using mqtt_read_packet_rem_len_at [of b' 1 "unat v"] n by simp
  qed
  show thesis using w e at buf by (intro that [of ?b "length ?e"]) (simp_all add: nth_append)
qed

lemma left_or_1_cases:
  obtains ms w where "left_or_1 H t s = (ms, s\<lparr>env := w\<rparr>)"
  by (metis left_or_1_env surj_pair)

lemma read_packet_body_safe:
  assumes net: "net_read_ok H" and buf: "buffers_ok (cl s)"
  shows "\<exists>r s'. read_packet_body H timer v s = Some (r, s') \<and> read_outcome_ok s r s'"
proof (cases "unat v \<ge> read_buf_size (cl s)")
  case True
  obtain ms w where ms: "left_or_1 H timer s = (ms, s\<lparr>env := w\<rparr>)" by (rule left_or_1_cases)
  obtain b w' where "discard_loop H (unat v) (ms + 2000) 0 2048 (s\<lparr>env := w\<rparr>) = Some ((), read_update b w' s)"
    "length b = 2048"
    using discard_loop_returns [OF net, of "s\<lparr>env := w\<rparr>" 2048 "unat v" "ms + 2000" 0] buf by (auto simp: buffers_ok_def)
  then show ?thesis using True ms buf by (auto simp: read_packet_body_def read_outcome_ok_def buffers_ok_def)
next
  case False
  have lens: "length (read_buf (cl s)) = 2048" "unat v < 2048" using False buf by (simp_all add: buffers_ok_def)
  obtain b m where w: "mqtt_write_packet_rem_len (read_buf (cl s)) 1 v = Some (b, m)" and b: "length b = 2048"
    and m: "0 < m" "m \<le> 2"
    and at: "\<And>b'. length b' = 2048 \<Longrightarrow> take (1 + m) b' = take (1 + m) b \<Longrightarrow>
       mqtt_read_packet_rem_len_form_buf b' 1 = Some (Inr (v, m))"
    using rem_len_field [OF lens] by metis
  have fits: "packet_in_buffer b'"
    if "length b' = 2048" "take (1 + m) b' = take (1 + m) b" "1 + m + unat v \<le> 2048" for b'
    using that at [OF that(1,2)] by (simp add: packet_in_buffer_def)
  let ?s = "read_update b (env s) s"
  have s: "cl_update (\<lambda>c. c\<lparr>read_buf := b\<rparr>) s = ?s" by (simp add: read_update_def)
  obtain ms w1 where ms: "left_or_1 H timer ?s = (ms, read_update b w1 s)"
    using left_or_1_cases [of H timer ?s] by auto
  show ?thesis
  proof (cases "unat v = 0 \<or> 1 + m + unat v > 2048")
    case True
    show ?thesis
    proof (cases "unat v = 0")
      case True
      moreover have "b \<noteq> []" using b by auto
      ultimately have "read_packet_body H timer v s = Some (Inr (header_type (b ! 0)), ?s)"
        using False w s by (simp add: read_packet_body_def rd_def Let_def)
      then show ?thesis using fits [OF b refl] True m buf by (auto simp: read_outcome_ok_def buffers_ok_def b)
    next
      case nonzero: False
      obtain rc k b' w' where r: "read_into H 0 (unat v) (ms + 2000) (read_update b w1 s) = Some ((rc, k), read_update b' w' s)"
        "length b' = 2048"
        using read_into_cases [OF net, of 0 "unat v" "read_update b w1 s" "ms + 2000"] b lens(2)
        by (metis add_0 less_imp_le read_update_simps(1,3))
      have "read_packet_body H timer v s = Some (Inl QCLOUD_ERR_BUF_TOO_SHORT, read_update b' w' s)"
        using False True nonzero w s ms r buf by (simp add: read_packet_body_def buffers_ok_def)
      then show ?thesis using r(2) buf by (auto simp: read_outcome_ok_def buffers_ok_def)
    qed
  next
    case ok: False
    obtain rc k b' w' where r: "read_into H (1 + m) (unat v) (ms + 2000) (read_update b w1 s) = Some ((rc, k), read_update b' w' s)"
      "length b' = 2048" "take (1 + m) b' = take (1 + m) b"
      using read_into_cases [OF net, of "1 + m" "unat v" "read_update b w1 s" "ms + 2000"] b ok
      by (metis not_less read_update_simps(1,3))
    have "read_packet_body H timer v s =
        Some (if rc = QCLOUD_RET_SUCCESS then Inr (header_type (b' ! 0)) else Inl rc, read_update b' w' s)"
      using False ok w s ms r buf by (simp add: read_packet_body_def buffers_ok_def rd_def)
    then show ?thesis using r fits [OF r(2,3)] ok buf by (auto simp: read_outcome_ok_def buffers_ok_def)
  qed
qed

section \<open>Sending\<close>

text \<open>A datagram socket: a write sends the whole datagram or fails with a negative code (\<^verbatim>\<open>HAL_UDP_Write\<close>). A
  stream does less, see \<open>net_sends\<close> below. And a clock that does not run backwards (\<open>time\<close> is the time in a world).\<close>

definition net_write_full :: "'w hal \<Rightarrow> bool" where
  "net_write_full H \<longleftrightarrow> (\<forall>d t w. fst (net_write H d t w) = (QCLOUD_RET_SUCCESS, length d) \<or>
     fst (fst (net_write H d t w)) < 0)"

definition clock_steady :: "'w hal \<Rightarrow> ('w \<Rightarrow> nat) \<Rightarrow> bool" where
  "clock_steady H time \<longleftrightarrow> (\<forall>w. time w \<le> fst (gettimeofday H w) \<and>
     fst (gettimeofday H w) \<le> time (snd (gettimeofday H w)))"

lemma expired_stays:
  assumes "clock_steady H time" "expired H t s = (True, s')"
  shows "fst (expired H t s')"
proof -
  obtain n w where n: "gettimeofday H (env s) = (n, w)" by fastforce
  with assms(2) have "s' = s\<lparr>env := w\<rparr>" "t \<le> n" by (simp_all add: expired_def now_def)
  moreover have "n \<le> fst (gettimeofday H w)"
    using assms(1) n unfolding clock_steady_def by (metis fst_conv le_trans snd_conv)
  ultimately show ?thesis by (auto simp: expired_def now_def split: prod.splits)
qed

lemma send_loop_done: "send_loop H len timer len rc s = Some ((len, rc), s)"
  by (subst send_loop.simps) simp

lemma send_exact:
  assumes full: "net_write_full H" and clock: "clock_steady H time" and buf: "buffers_ok (cl s)"
    and len: "len < write_buf_size (cl s)"
  shows "send_mqtt_packet H len timer s =
    (let (e1, s1) = expired H timer s; (e2, s2) = expired H timer s1; (ms, s3) = left_ms H timer s2;
         ((rc, n), s4) = network_write H (take len (write_buf (cl s))) ms s3
     in Some (if e1 then (QCLOUD_ERR_MQTT_REQUEST_TIMEOUT, s1)
              else if len = 0 then (QCLOUD_RET_SUCCESS, s1)
              else if e2 then (QCLOUD_ERR_MQTT_REQUEST_TIMEOUT, snd (expired H timer s2))
              else (rc, s4)))"
proof -
  obtain e1 w1 where e1: "expired H timer s = (e1, s\<lparr>env := w1\<rparr>)" by (rule expired_cases)
  obtain e2 w2 where e2: "expired H timer (s\<lparr>env := w1\<rparr>) = (e2, s\<lparr>env := w2\<rparr>)"
    using expired_cases [of H timer "s\<lparr>env := w1\<rparr>"] by auto
  obtain ms w3 where ms: "left_ms H timer (s\<lparr>env := w2\<rparr>) = (ms, s\<lparr>env := w3\<rparr>)"
    using left_ms_cases [of H timer "s\<lparr>env := w2\<rparr>"] by auto
  obtain rc n w4 where wr: "network_write H (take len (write_buf (cl s))) ms (s\<lparr>env := w3\<rparr>) = ((rc, n), s\<lparr>env := w4\<rparr>)"
    using network_write_cases [of H "take len (write_buf (cl s))" ms "s\<lparr>env := w3\<rparr>"] by auto
  have n: "n = len" if "rc = QCLOUD_RET_SUCCESS"
    using full [unfolded net_write_full_def, rule_format, of "take len (write_buf (cl s))" ms w3] wr that len buf
    by (auto simp: network_write_def buffers_ok_def split: prod.splits)
  have data: "rd_bytes (write_buf (cl s)) 0 len = Some (take len (write_buf (cl s)))"
    using len buf by (simp add: rd_bytes_def buffers_ok_def)
  have loop: "send_loop H len timer 0 QCLOUD_RET_SUCCESS (s\<lparr>env := w1\<rparr>) =
      (if len = 0 then Some ((0, QCLOUD_RET_SUCCESS), s\<lparr>env := w1\<rparr>)
       else if e2 then Some ((0, QCLOUD_RET_SUCCESS), s\<lparr>env := w2\<rparr>)
       else if rc = QCLOUD_RET_SUCCESS then Some ((len, rc), s\<lparr>env := w4\<rparr>) else Some ((0, rc), s\<lparr>env := w4\<rparr>))"
    using e2 ms data wr n by (subst send_loop.simps) (simp add: send_loop_done)
  have "fst (expired H timer (s\<lparr>env := w2\<rparr>))" if e2
    using expired_stays [OF clock, of timer "s\<lparr>env := w1\<rparr>"] e2 that by simp
  then show ?thesis
    using e1 e2 ms wr loop len by (auto simp: send_mqtt_packet_def split: prod.splits)
qed

text \<open>What a stream connection does with a write. \<open>sent w\<close> are all the bytes the connection has taken so far, in a
  world \<open>w\<close>; reading the clock and allocating memory do not change them. A write takes some first bytes
  of its data and returns a code that is never positive; on success \<open>*written_len\<close> says how many it has taken, which
  is at least one but need not be all. This is what \<^verbatim>\<open>HAL_TCP_Write\<close> of \<^verbatim>\<open>HAL_TCP_linux.c\<close> does, which
  returns success as soon as one byte has gone out (\<^verbatim>\<open>select\<close> and \<^verbatim>\<open>send\<close> taken to be those of POSIX: a
  descriptor that is reported ready is in the set, and \<^verbatim>\<open>send\<close> of at least one byte does not return 0), and
  \<^verbatim>\<open>HAL_TLS_Write\<close>, which succeeds only when everything has been taken. \<open>net_works\<close> is a network that takes every write
  whole, while the clock shows the time \<open>T\<close>.\<close>

definition net_sends :: "'w hal \<Rightarrow> ('w \<Rightarrow> byte list) \<Rightarrow> bool" where
  "net_sends H sent \<longleftrightarrow>
     (\<forall>w. sent (snd (gettimeofday H w)) = sent w \<and> sent (snd (hal_malloc H w)) = sent w) \<and>
     (\<forall>d t w rc n w'. net_write H d t w = ((rc, n), w') \<longrightarrow> rc \<le> 0 \<and>
        (\<exists>k. sent w' = sent w @ take k d \<and>
           (rc = QCLOUD_RET_SUCCESS \<longrightarrow> k = n \<and> n \<le> length d \<and> (d \<noteq> [] \<longrightarrow> 0 < n))))"

definition net_works :: "'w hal \<Rightarrow> nat \<Rightarrow> bool" where
  "net_works H T \<longleftrightarrow> (\<forall>d t w. fst (net_write H d t w) = (QCLOUD_RET_SUCCESS, length d)) \<and>
     (\<forall>w. fst (gettimeofday H w) = T)"

text \<open>\<open>packet\<close> has been put on the wire behind \<open>old\<close>. Behind it there may be fewer stray bytes than the packet has:
  after a partial write \<open>send_mqtt_packet\<close> asks for the whole length again instead of for the rest.\<close>

definition transmitted :: "byte list \<Rightarrow> byte list \<Rightarrow> byte list \<Rightarrow> bool" where
  "transmitted packet old new \<longleftrightarrow> (\<exists>extra. new = old @ packet @ extra \<and> length extra < length packet)"

lemma network_write_is: "network_write H d t s = (r, s') \<Longrightarrow> net_write H d t (env s) = (r, env s')"
  by (auto simp: network_write_def split: prod.splits)

lemma network_write_sends:
  assumes "net_sends H sent" "network_write H d t s = ((rc, n), s\<lparr>env := w\<rparr>)"
  shows "rc \<le> 0" "\<exists>k. sent w = sent (env s) @ take k d \<and>
           (rc = QCLOUD_RET_SUCCESS \<longrightarrow> k = n \<and> n \<le> length d \<and> (d \<noteq> [] \<longrightarrow> 0 < n))"
proof -
  have "net_write H d t (env s) = ((rc, n), w)"
    using network_write_is [OF assms(2)] by simp
  then show "rc \<le> 0" "\<exists>k. sent w = sent (env s) @ take k d \<and>
           (rc = QCLOUD_RET_SUCCESS \<longrightarrow> k = n \<and> n \<le> length d \<and> (d \<noteq> [] \<longrightarrow> 0 < n))"
    using assms(1) unfolding net_sends_def by blast+
qed

lemma now_sends:
  assumes "net_sends H sent" "now H s = (t, s')"
  shows "sent (env s') = sent (env s)"
  using assms by (auto simp: net_sends_def now_def split: prod.splits) (metis snd_conv)

lemma clock_sends:
  assumes "net_sends H sent"
  shows "expired H timer s = (e, s1) \<Longrightarrow> sent (env s1) = sent (env s)"
    "left_ms H timer s = (ms, s1) \<Longrightarrow> sent (env s1) = sent (env s)"
    "countdown_ms H n s = (t, s1) \<Longrightarrow> sent (env s1) = sent (env s)"
    "countdown H n s = (t, s1) \<Longrightarrow> sent (env s1) = sent (env s)"
    "HAL_Malloc H s = (ok, s1) \<Longrightarrow> sent (env s1) = sent (env s)"
  by (auto simp: expired_def left_ms_def countdown_ms_def countdown_def Let_def split: prod.splits dest!: now_sends [OF assms])
    (insert assms, auto simp: net_sends_def HAL_Malloc_def split: prod.splits, metis snd_conv)

lemma expired_read: "expired H timer s = (e, s') \<Longrightarrow> e \<longleftrightarrow> timer \<le> fst (gettimeofday H (env s))"
  by (auto simp: expired_def now_def split: prod.splits)

lemma send_loop_sends:
  assumes net: "net_sends H sent" and clock: "clock_steady H time"
  shows "buffers_ok (cl s) \<Longrightarrow> k < 2 * len \<or> k = len \<Longrightarrow>
    len \<le> 1024 \<or> send_loop H len timer k QCLOUD_RET_SUCCESS s \<noteq> None \<Longrightarrow>
    \<exists>n rc w m. send_loop H len timer k QCLOUD_RET_SUCCESS s = Some ((n, rc), s\<lparr>env := w\<rparr>) \<and> rc \<le> 0 \<and>
      sent w = sent (env s) @ take m (drop k (write_buf (cl s))) \<and>
      (rc = QCLOUD_RET_SUCCESS \<longrightarrow> n = k + m \<and> (n < 2 * len \<or> n = len)) \<and> (len \<le> n \<longrightarrow> rc = QCLOUD_RET_SUCCESS) \<and>
      (n < len \<longrightarrow> rc \<noteq> QCLOUD_RET_SUCCESS \<or> fst (expired H timer (s\<lparr>env := w\<rparr>)))"
proof (induction "len - k" arbitrary: k s rule: less_induct)
  case less
  let ?buf = "write_buf (cl s)"
  obtain e w1 where e: "expired H timer s = (e, s\<lparr>env := w1\<rparr>)" by (rule expired_cases)
  obtain ms w2 where ms: "left_ms H timer (s\<lparr>env := w1\<rparr>) = (ms, s\<lparr>env := w2\<rparr>)"
    using left_ms_cases [of H timer "s\<lparr>env := w1\<rparr>"] by auto
  have keep: "sent w1 = sent (env s)" "sent w2 = sent (env s)"
    using clock_sends(1) [OF net e] clock_sends(2) [OF net ms] by simp_all
  show ?case
  proof (cases "k < len \<and> \<not> e")
    case False
    have "send_loop H len timer k QCLOUD_RET_SUCCESS s =
        Some ((k, QCLOUD_RET_SUCCESS), s\<lparr>env := if k < len then w1 else env s\<rparr>)"
      using False e by (subst send_loop.simps) auto
    moreover have "fst (expired H timer (s\<lparr>env := w1\<rparr>))" if "k < len"
      using expired_stays [OF clock, of timer s] e False that by simp
    ultimately show ?thesis
      using less.prems keep by (intro exI [of _ k] exI [of _ 0] exI [of _ "if k < len then w1 else env s"]) auto
  next
    case True
    let ?d = "take len (drop k ?buf)"
    have "rd_bytes ?buf k len \<noteq> None"
    proof (cases "len \<le> 1024")
      case True
      then show ?thesis using less.prems \<open>k < len \<and> \<not> e\<close> by (auto simp: rd_bytes_def buffers_ok_def)
    next
      case False
      then show ?thesis using less.prems(3) \<open>k < len \<and> \<not> e\<close> e ms
        by (subst (asm) send_loop.simps) (auto elim: bind_SomeE)
    qed
    then have d: "rd_bytes ?buf k len = Some ?d" "length ?d = len"
      using True by (auto simp: rd_bytes_def split: if_splits)
    obtain rc n w3 where wr: "network_write H ?d ms (s\<lparr>env := w2\<rparr>) = ((rc, n), s\<lparr>env := w3\<rparr>)"
      using network_write_cases [of H ?d ms "s\<lparr>env := w2\<rparr>"] by auto
    have wr': "network_write H ?d ms (s\<lparr>env := w2\<rparr>) = ((rc, n), s\<lparr>env := w2\<rparr>\<lparr>env := w3\<rparr>)" using wr by simp
    obtain j where j: "sent w3 = sent (env s) @ take j ?d" "rc = QCLOUD_RET_SUCCESS \<longrightarrow> j = n \<and> n \<le> len \<and> 0 < n"
      using network_write_sends(2) [OF net wr'] keep d(2) True by auto
    have rc: "rc \<le> 0" using network_write_sends(1) [OF net wr'] .
    show ?thesis
    proof (cases "rc = QCLOUD_RET_SUCCESS")
      case False
      then have "send_loop H len timer k QCLOUD_RET_SUCCESS s = Some ((k, rc), s\<lparr>env := w3\<rparr>)"
        using True e ms d(1) wr by (subst send_loop.simps) simp
      moreover have "take j ?d = take (min j len) (drop k ?buf)" by (simp add: min.commute)
      ultimately show ?thesis
        using False True rc j(1) by (intro exI [of _ k] exI [of _ rc] exI [of _ w3] exI [of _ "min j len"]) simp
    next
      case success: True
      then have n: "j = n" "n \<le> len" "0 < n" using j by auto
      have step: "send_loop H len timer k QCLOUD_RET_SUCCESS s = send_loop H len timer (k + n) QCLOUD_RET_SUCCESS (s\<lparr>env := w3\<rparr>)"
        using True e ms d(1) wr success by (subst send_loop.simps) simp
      let ?t = "s\<lparr>env := w3\<rparr>"
      have "len - (k + n) < len - k" "buffers_ok (cl ?t)" "k + n < 2 * len \<or> k + n = len"
        "len \<le> 1024 \<or> send_loop H len timer (k + n) QCLOUD_RET_SUCCESS ?t \<noteq> None"
        using less.prems True n step by auto
      from less.hyps [OF this] obtain n' rc' w m where "send_loop H len timer (k + n) QCLOUD_RET_SUCCESS ?t = Some ((n', rc'), ?t\<lparr>env := w\<rparr>)"
        "rc' \<le> 0" "sent w = sent (env ?t) @ take m (drop (k + n) (write_buf (cl ?t)))"
        "rc' = QCLOUD_RET_SUCCESS \<longrightarrow> n' = k + n + m \<and> (n' < 2 * len \<or> n' = len)" "len \<le> n' \<longrightarrow> rc' = QCLOUD_RET_SUCCESS"
        "n' < len \<longrightarrow> rc' \<noteq> QCLOUD_RET_SUCCESS \<or> fst (expired H timer (?t\<lparr>env := w\<rparr>))" by blast
      note r = this [simplified]
      have out: "sent w = sent (env s) @ take (n + m) (drop k ?buf)"
        using r(3) j(1) n by (simp add: take_add add.commute [of k] min_def)
      show ?thesis
        by (rule exI [of _ n'], rule exI [of _ rc'], rule exI [of _ w], rule exI [of _ "n + m"]) (use out step r in \<open>auto simp: add.assoc\<close>)
    qed
  qed
qed

lemma send_sends:
  assumes net: "net_sends H sent" and clock: "clock_steady H time" and buf: "buffers_ok (cl s)" and len: "0 < len"
    and ret: "len \<le> 1024 \<or> send_mqtt_packet H len timer s \<noteq> None"
  shows "\<exists>rc w m. send_mqtt_packet H len timer s = Some (rc, s\<lparr>env := w\<rparr>) \<and> rc \<le> 0 \<and>
    sent w = sent (env s) @ take m (write_buf (cl s)) \<and> (rc = QCLOUD_RET_SUCCESS \<longrightarrow> len \<le> m \<and> m < 2 * len)"
proof -
  show ?thesis
  proof (cases "len < write_buf_size (cl s)")
    case False
    then show ?thesis
      by (intro exI [of _ QCLOUD_ERR_BUF_TOO_SHORT] exI [of _ "env s"] exI [of _ 0]) (simp add: send_mqtt_packet_def)
  next
    case size: True
    obtain e w1 where e: "expired H timer s = (e, s\<lparr>env := w1\<rparr>)" by (rule expired_cases)
    have keep: "sent w1 = sent (env s)" using clock_sends(1) [OF net e] by simp
    show ?thesis
    proof (cases e)
      case True
      then show ?thesis
        using e size keep by (intro exI [of _ "QCLOUD_ERR_MQTT_REQUEST_TIMEOUT"] exI [of _ w1] exI [of _ 0])
          (simp add: send_mqtt_packet_def)
    next
      case False
      let ?t = "s\<lparr>env := w1\<rparr>"
      have "buffers_ok (cl ?t)" "0 < 2 * len \<or> 0 = len" "len \<le> 1024 \<or> send_loop H len timer 0 QCLOUD_RET_SUCCESS ?t \<noteq> None"
        using buf len ret e False size by (auto simp: send_mqtt_packet_def elim: bind_SomeE)
      from send_loop_sends [OF net clock this] obtain n rc w m where
        "send_loop H len timer 0 QCLOUD_RET_SUCCESS ?t = Some ((n, rc), ?t\<lparr>env := w\<rparr>)" "rc \<le> 0"
        "sent w = sent (env ?t) @ take m (drop 0 (write_buf (cl ?t)))"
        "rc = QCLOUD_RET_SUCCESS \<longrightarrow> n = 0 + m \<and> (n < 2 * len \<or> n = len)"
        "len \<le> n \<longrightarrow> rc = QCLOUD_RET_SUCCESS"
        "n < len \<longrightarrow> rc \<noteq> QCLOUD_RET_SUCCESS \<or> fst (expired H timer (?t\<lparr>env := w\<rparr>))" by blast
      note r = this [simplified]
      obtain e2 w2 where e2: "expired H timer (s\<lparr>env := w\<rparr>) = (e2, s\<lparr>env := w2\<rparr>)"
        using expired_cases [of H timer "s\<lparr>env := w\<rparr>"] by auto
      have keep2: "sent w2 = sent w" using clock_sends(1) [OF net e2] by simp
      define w' where "w' = (if n \<noteq> len \<and> rc = QCLOUD_RET_SUCCESS then w2 else w)"
      have "send_mqtt_packet H len timer s = Some (if n = len then QCLOUD_RET_SUCCESS
          else if rc = QCLOUD_RET_SUCCESS then if e2 then QCLOUD_ERR_MQTT_REQUEST_TIMEOUT else rc else rc, s\<lparr>env := w'\<rparr>)"
        using e False size r(1) e2 by (auto simp: send_mqtt_packet_def w'_def)
      moreover have "sent w' = sent (env s) @ take m (write_buf (cl s))" using r(3) keep keep2 by (simp add: w'_def)
      ultimately show ?thesis
        using r(2,4-6) e2 len by (intro exI [of _ "if n = len then QCLOUD_RET_SUCCESS
          else if rc = QCLOUD_RET_SUCCESS then if e2 then QCLOUD_ERR_MQTT_REQUEST_TIMEOUT else rc else rc"] exI [of _ w'] exI [of _ m])
          (auto simp: not_less)
    qed
  qed
qed

lemma transmitted_take:
  assumes "len \<le> m" "m < 2 * len" "len \<le> length buf" "new = old @ take m buf" "packet = take len buf"
  shows "transmitted packet old new"
proof -
  have "take m buf = take len buf @ take (m - len) (drop len buf)"
    using assms(1) by (metis le_add_diff_inverse take_add)
  then show ?thesis
    using assms unfolding transmitted_def by (intro exI [of _ "take (m - len) (drop len buf)"]) auto
qed

text \<open>One packet, sent from the front of the write buffer.\<close>

lemma send_packet:
  assumes "net_sends H sent" "clock_steady H time" "buffers_ok (cl s)" "0 < length p" "length p \<le> write_buf_size (cl s)"
    "take (length p) (write_buf (cl s)) = p" and ret: "length p \<le> 1024 \<or> send_mqtt_packet H (length p) timer s \<noteq> None"
  shows "\<exists>rc w. send_mqtt_packet H (length p) timer s = Some (rc, s\<lparr>env := w\<rparr>) \<and> rc \<le> 0 \<and>
    (rc = QCLOUD_RET_SUCCESS \<longrightarrow> transmitted p (sent (env s)) (sent w)) \<and>
    (\<forall>T. net_works H T \<and> T < timer \<and> length p < write_buf_size (cl s) \<longrightarrow> rc = QCLOUD_RET_SUCCESS \<and> sent w = sent (env s) @ p)"
proof -
  obtain rc w m where r: "send_mqtt_packet H (length p) timer s = Some (rc, s\<lparr>env := w\<rparr>)" "rc \<le> 0"
    "sent w = sent (env s) @ take m (write_buf (cl s))" "rc = QCLOUD_RET_SUCCESS \<longrightarrow> length p \<le> m \<and> m < 2 * length p"
    using send_sends [OF assms(1-4) ret] by blast
  have "transmitted p (sent (env s)) (sent w)" if "rc = QCLOUD_RET_SUCCESS"
    using transmitted_take [of "length p" m "write_buf (cl s)"] r(3,4) assms(3,5,6) that by (simp add: buffers_ok_def)
  moreover have "rc = QCLOUD_RET_SUCCESS \<and> sent w = sent (env s) @ p" if works: "net_works H T" "T < timer" "length p < write_buf_size (cl s)" for T
  proof -
    have full: "net_write_full H" using works(1) by (simp add: net_write_full_def net_works_def)
    have wrote: "fst (net_write H d t w) = (QCLOUD_RET_SUCCESS, length d)" for d t w
      using works(1) by (simp add: net_works_def)
    have exp: "\<not> fst (expired H timer x)" for x
      using works expired_read [of H timer x] by (cases "expired H timer x") (auto simp: net_works_def)
    have running: "\<exists>v. expired H timer x = (False, x\<lparr>env := v\<rparr>)" for x
      using exp [of x] expired_env [of H timer x] by (metis prod.collapse)
    obtain w1 where e1: "expired H timer s = (False, s\<lparr>env := w1\<rparr>)" using running by blast
    obtain w2 where e2: "expired H timer (s\<lparr>env := w1\<rparr>) = (False, s\<lparr>env := w2\<rparr>)"
      using running [of "s\<lparr>env := w1\<rparr>"] by (elim exE) simp
    obtain ms w3 where ms: "left_ms H timer (s\<lparr>env := w2\<rparr>) = (ms, s\<lparr>env := w3\<rparr>)"
      using left_ms_cases [of H timer "s\<lparr>env := w2\<rparr>"] by auto
    obtain rc' n w4 where wr: "network_write H p ms (s\<lparr>env := w3\<rparr>) = ((rc', n), s\<lparr>env := w4\<rparr>)"
      using network_write_cases [of H p ms "s\<lparr>env := w3\<rparr>"] by auto
    have ok: "rc' = QCLOUD_RET_SUCCESS" "n = length p"
      using wrote [of p ms w3] network_write_is [OF wr] by simp_all
    have wr': "network_write H p ms (s\<lparr>env := w3\<rparr>) = ((rc', n), s\<lparr>env := w3\<rparr>\<lparr>env := w4\<rparr>)" using wr by simp
    have "sent w4 = sent w3 @ p" using network_write_sends(2) [OF assms(1) wr'] ok by auto
    moreover have "sent w3 = sent (env s)"
      using clock_sends(1) [OF assms(1) e1] clock_sends(1) [OF assms(1) e2] clock_sends(2) [OF assms(1) ms] by simp
    moreover have "send_mqtt_packet H (length p) timer s = Some (rc', s\<lparr>env := w4\<rparr>)"
      using send_exact [OF full assms(2,3) works(3), of timer] e1 e2 ms wr assms(4,6) by simp
    ultimately show ?thesis using r(1) ok by (cases s) auto
  qed
  ultimately show ?thesis using r by blast
qed

text \<open>A platform for examples: a clock that stands still, an incoming byte sequence, and a network that
  accepts at most \<open>k\<close> bytes of each write and records what it accepts.\<close>

definition chunk_hal :: "nat \<Rightarrow> (byte list \<times> byte list list) hal" where
  "chunk_hal k = \<lparr>gettimeofday = (\<lambda>w. (0, w)),
     net_read = (\<lambda>n t (inp, out). if n \<le> length inp then ((QCLOUD_RET_SUCCESS, take n inp), (drop n inp, out))
                                  else ((QCLOUD_ERR_TCP_READ_FAIL, inp), ([], out))),
     net_write = (\<lambda>d t (inp, out). ((QCLOUD_RET_SUCCESS, min k (length d)), (inp, out @ [take k d]))),
     net_connect = (\<lambda>w. (0, w)), net_disconnect = (\<lambda>w. w), hal_malloc = (\<lambda>w. (True, w)),
     c_srand = (\<lambda>n w. w), c_rand = (\<lambda>w. (0, w)), hal_sleep = (\<lambda>n w. w)\<rparr>"

definition whole_hal :: "(byte list \<times> byte list list) hal" where
  "whole_hal = (chunk_hal 0)\<lparr>net_write := (\<lambda>d t (inp, out). ((QCLOUD_RET_SUCCESS, length d), (inp, out @ [d])))\<rparr>"

lemma chunk_hal_ok: "net_read_ok (chunk_hal k)" "clock_steady (chunk_hal k) (\<lambda>w. 0)"
  by (auto simp: net_read_ok_def chunk_hal_def clock_steady_def)

lemma whole_hal_simps:
  "gettimeofday whole_hal w = (0, w)" "hal_malloc whole_hal w = (True, w)"
  "c_srand whole_hal n w = w" "c_rand whole_hal w = (0, w)" "hal_sleep whole_hal n w = w"
  "net_connect whole_hal w = (QCLOUD_RET_SUCCESS, w)" "net_disconnect whole_hal w = w"
  "net_write whole_hal d t (inp, out) = ((QCLOUD_RET_SUCCESS, length d), (inp, out @ [d]))"
  by (simp_all add: whole_hal_def chunk_hal_def)

lemma whole_hal_ok: "net_read_ok whole_hal" "clock_steady whole_hal (\<lambda>w. 0)" "net_write_full whole_hal"
  by (auto simp: net_read_ok_def chunk_hal_def clock_steady_def whole_hal_def net_write_full_def)

lemma net_works_full: "net_works H T \<Longrightarrow> net_write_full H"
  by (simp add: net_works_def net_write_full_def)

lemma send_works_returns:
  assumes "net_works H T" "clock_steady H time" "buffers_ok (cl s)"
  shows "send_mqtt_packet H len timer s \<noteq> None"
proof (cases "len < write_buf_size (cl s)")
  case False
  then show ?thesis by (simp add: send_mqtt_packet_def)
next
  case True
  then show ?thesis
    using send_exact [OF net_works_full [OF assms(1)] assms(2,3) True, of timer] by (auto simp: Let_def split: prod.splits)
qed

lemma countdown_later:
  assumes "net_works H T" "0 < n" "countdown_ms H n s = (t, s')"
  shows "T < t"
proof -
  have "0 < n div 1000 \<or> 0 < n mod 1000" using assms(2) div_mult_mod_eq [of n 1000] by linarith
  moreover have "fst (gettimeofday H (env s)) = T" using assms(1) by (simp add: net_works_def)
  ultimately show ?thesis
    using assms(3) by (cases "gettimeofday H (env s)") (auto simp: countdown_ms_def now_def)
qed

lemma whole_hal_sends: "net_sends whole_hal (concat \<circ> snd)" "net_works whole_hal 0"
  by (auto simp: net_sends_def net_works_def whole_hal_simps)

lemma chunk_hal_sends: "0 < k \<Longrightarrow> net_sends (chunk_hal k) (concat \<circ> snd)"
  by (auto simp: net_sends_def chunk_hal_def min_def)

definition idle_client :: Qcloud_IoT_Client where
  "idle_client = zero_client\<lparr>command_timeout_ms := 5000, write_buf_size := QCLOUD_IOT_MQTT_TX_BUF_LEN,
     read_buf_size := QCLOUD_IOT_MQTT_RX_BUF_LEN\<rparr>"

lemma idle_client_ok: "buffers_ok idle_client"
  by (simp add: buffers_ok_def idle_client_def zero_client_def)

lemma idle_client_sizes: "write_buf_size idle_client = QCLOUD_IOT_MQTT_TX_BUF_LEN"
  "length (write_buf idle_client) = QCLOUD_IOT_MQTT_TX_BUF_LEN" "command_timeout_ms idle_client = 5000"
  by (simp_all add: idle_client_def zero_client_def)

section \<open>Properties\<close>

text \<open>C2. On a network stack that keeps its contract, \<open>_read_mqtt_packet\<close> always returns and never
  leaves the read buffer, whatever bytes arrive: a packet that is too long is read to its end and
  dropped, and when a packet type is reported the whole packet stands in the read buffer, which
  is what the deserializers rely on. Only the read buffer and the world change.\<close>

theorem read_mqtt_packet_safe:
  assumes net: "net_read_ok H" and buf: "buffers_ok (cl s)"
  shows "\<exists>r s'. read_mqtt_packet H timer s = Some (r, s') \<and> read_outcome_ok s r s'"
proof -
  obtain ms w where ms: "left_or_1 H timer s = (ms, s\<lparr>env := w\<rparr>)" by (rule left_or_1_cases)
  have len: "0 + 1 \<le> length (read_buf (cl (s\<lparr>env := w\<rparr>)))" using buf by (simp add: buffers_ok_def)
  obtain rc k b w1 where r: "read_into H 0 1 ms (s\<lparr>env := w\<rparr>) = Some ((rc, k), read_update b w1 s)" "length b = 2048"
    using read_into_returns [OF net len, of ms] buf by (auto simp: buffers_ok_def)
  let ?s = "read_update b w1 s"
  obtain ms2 w2 where ms2: "left_or_1 H timer ?s = (ms2, read_update b w2 s)"
    using left_or_1_cases [of H timer ?s] by auto
  let ?t = "read_update b w2 s"
  have ok: "buffers_ok (cl (read_update b w' s))" for w' using buf r(2) by (simp add: buffers_ok_def read_update_def)
  show ?thesis
  proof (cases "rc = QCLOUD_RET_SUCCESS")
    case False
    then have "\<exists>e. read_mqtt_packet H timer s = Some (Inl e, ?s) \<and> e \<noteq> QCLOUD_RET_SUCCESS"
      using ms r by (simp add: read_mqtt_packet_def)
    then show ?thesis using read_outcome_err r(2) buf by (metis buffers_ok_def)
  next
    case True
    then have step: "read_mqtt_packet H timer s =
        decode_net_loop H (ms2 + 2000) 0 1 0 ?t \<bind>
          (\<lambda>(r, s). case r of Inl rc \<Rightarrow> Some (Inl rc, s) | Inr v \<Rightarrow> read_packet_body H timer v s)"
      using ms r ms2 by (simp add: read_mqtt_packet_def decode_packet_rem_len_with_net_read_def)
    show ?thesis
    proof (rule decode_net_loop_cases [OF net, of "ms2 + 2000" 0 1 0 ?t])
      fix e w'
      assume "decode_net_loop H (ms2 + 2000) 0 1 0 ?t = Some (Inl e, ?t\<lparr>env := w'\<rparr>)" "e \<noteq> QCLOUD_RET_SUCCESS"
      then have "read_mqtt_packet H timer s = Some (Inl e, read_update b w' s)" "e \<noteq> QCLOUD_RET_SUCCESS"
        using step by simp_all
      then show ?thesis using read_outcome_err r(2) buf by (metis buffers_ok_def)
    next
      fix v w'
      assume d: "decode_net_loop H (ms2 + 2000) 0 1 0 ?t = Some (Inr v, ?t\<lparr>env := w'\<rparr>)"
      obtain r' s' where "read_packet_body H timer v (read_update b w' s) = Some (r', s')"
        "read_outcome_ok (read_update b w' s) r' s'"
        using read_packet_body_safe [OF net ok] by blast
      then show ?thesis using step d by (auto simp: read_outcome_ok_def)
    qed
  qed
qed

theorem read_mqtt_packet_safe_witness:
  "\<exists>r s'. read_mqtt_packet (chunk_hal 1) 5 \<lparr>cl = idle_client, env = ([0xD0, 0], []), events = []\<rparr> = Some (r, s') \<and>
     read_outcome_ok \<lparr>cl = idle_client, env = ([0xD0, 0], []), events = []\<rparr> r s'"
  by (rule read_mqtt_packet_safe) (simp_all add: chunk_hal_ok idle_client_ok)

text \<open>On a stack that accepts a write as a whole or fails, \<open>send_mqtt_packet\<close> makes at most one write,
  of exactly the serialized packet, and returns its code; it returns a timeout, having written
  nothing, when the timer has run out before.\<close>

theorem send_mqtt_packet_exact:
  assumes full: "net_write_full H" and clock: "clock_steady H time" and buf: "buffers_ok (cl s)"
    and len: "len < write_buf_size (cl s)"
  shows "send_mqtt_packet H len timer s =
    (let (e1, s1) = expired H timer s; (e2, s2) = expired H timer s1; (ms, s3) = left_ms H timer s2;
         ((rc, n), s4) = network_write H (take len (write_buf (cl s))) ms s3
     in Some (if e1 then (QCLOUD_ERR_MQTT_REQUEST_TIMEOUT, s1)
              else if len = 0 then (QCLOUD_RET_SUCCESS, s1)
              else if e2 then (QCLOUD_ERR_MQTT_REQUEST_TIMEOUT, snd (expired H timer s2))
              else (rc, s4)))"
  using assms by (rule send_exact)

theorem send_mqtt_packet_exact_witness:
  "send_mqtt_packet whole_hal 2 5 \<lparr>cl = idle_client, env = ([], []), events = []\<rparr> =
     Some (QCLOUD_RET_SUCCESS, \<lparr>cl = idle_client, env = ([], [take 2 (write_buf idle_client)]), events = []\<rparr>)"
  using send_mqtt_packet_exact [OF whole_hal_ok(3,2), of "\<lparr>cl = idle_client, env = ([], []), events = []\<rparr>" 2 5]
  by (simp add: idle_client_ok idle_client_sizes expired_def left_ms_def now_def network_write_def whole_hal_simps)

text \<open>When the network accepts only part of a write, \<open>send_mqtt_packet\<close> asks again for the whole
  length from where it stands instead of for the rest: with \<open>k\<close> bytes accepted per write it puts
  the \<open>2 * k\<close> first bytes of the write buffer on the wire for a packet of \<open>len < 2 * k\<close> bytes, stale
  bytes behind the packet included, and reports success.\<close>

theorem send_mqtt_packet_overruns:
  assumes buf: "buffers_ok c" and k: "0 < k" "k < len" "len \<le> 2 * k" "k + len \<le> write_buf_size c" and timer: "0 < timer"
  shows "send_mqtt_packet (chunk_hal k) len timer \<lparr>cl = c, env = (inp, []), events = ev\<rparr> =
    Some (QCLOUD_RET_SUCCESS, \<lparr>cl = c,
      env = (inp, [take k (write_buf c), take k (drop k (write_buf c))]), events = ev\<rparr>) \<and>
    concat [take k (write_buf c), take k (drop k (write_buf c))] = take (2 * k) (write_buf c)"
proof -
  have rd: "rd_bytes (write_buf c) 0 len = Some (take len (write_buf c))"
    "rd_bytes (write_buf c) k len = Some (take len (drop k (write_buf c)))"
    using buf k by (simp_all add: rd_bytes_def buffers_ok_def)
  have m: "min k (length (take len (write_buf c))) = k" "min k (length (take len (drop k (write_buf c)))) = k"
    "take k (take len (write_buf c)) = take k (write_buf c)"
    "take k (take len (drop k (write_buf c))) = take k (drop k (write_buf c))"
    using buf k by (auto simp: buffers_ok_def min_def)
  note step = send_loop.simps [of "chunk_hal k" len timer]
  have "send_loop (chunk_hal k) len timer 0 QCLOUD_RET_SUCCESS \<lparr>cl = c, env = (inp, []), events = ev\<rparr> =
      send_loop (chunk_hal k) len timer k QCLOUD_RET_SUCCESS \<lparr>cl = c, env = (inp, [take k (write_buf c)]), events = ev\<rparr>"
    using k timer rd m
    by (subst step) (simp add: expired_def left_ms_def now_def network_write_def chunk_hal_def)
  also have "\<dots> = send_loop (chunk_hal k) len timer (k + k) QCLOUD_RET_SUCCESS
      \<lparr>cl = c, env = (inp, [take k (write_buf c), take k (drop k (write_buf c))]), events = ev\<rparr>"
    using k timer rd m
    by (subst step) (simp add: expired_def left_ms_def now_def network_write_def chunk_hal_def)
  also have "\<dots> = Some ((k + k, QCLOUD_RET_SUCCESS),
      \<lparr>cl = c, env = (inp, [take k (write_buf c), take k (drop k (write_buf c))]), events = ev\<rparr>)"
    using k by (subst step) simp
  finally show ?thesis
    using k timer by (simp add: send_mqtt_packet_def expired_def now_def chunk_hal_def take_add [symmetric] mult_2)
qed

theorem send_mqtt_packet_overruns_witness:
  "send_mqtt_packet (chunk_hal 3) 4 5 \<lparr>cl = idle_client, env = ([], []), events = []\<rparr> =
     Some (QCLOUD_RET_SUCCESS, \<lparr>cl = idle_client,
       env = ([], [take 3 (write_buf idle_client), take 3 (drop 3 (write_buf idle_client))]), events = []\<rparr>)"
  using send_mqtt_packet_overruns [OF idle_client_ok, of 3 4 5 "[]" "[]"] by (simp add: idle_client_sizes)

end
