(* ===== verification/Mqtt_Handlers.thy ===== *)
theory Mqtt_Handlers
  imports Mqtt_Net
begin

text \<open>
  The packets a client receives: the handlers of \<^verbatim>\<open>mqtt_client_common.c\<close> from
  \<^verbatim>\<open>_deliver_message\<close> to \<^verbatim>\<open>wait_for_read\<close>. A timer that a handler may extend is an argument
  and part of the result.

  The acknowledgement lists are lists of their elements, first pushed first (\<open>Utils_List\<close> relates
  the linked structure to such a list); an iterator from \<^verbatim>\<open>LIST_TAIL\<close> walks them backwards.
\<close>

section \<open>Delivering a message\<close>

text \<open>The C string at the start of an array; \<^const>\<open>None\<close> when it has no terminating NUL.\<close>

definition c_string :: "byte list \<Rightarrow> byte list option" where
  "c_string a = (if 0 \<in> set a then Some (takeWhile (\<lambda>b. b \<noteq> 0) a) else None)"

text \<open>The first slot whose filter matches and which has a message handler.\<close>

fun deliver_loop :: "byte list \<Rightarrow> nat \<Rightarrow> SubTopicHandle list \<Rightarrow> SubTopicHandle option option" where
  "deliver_loop topicName topicNameLen [] = Some None"
| "deliver_loop topicName topicNameLen (h # hs) =
     (case topic_filter h of
        None \<Rightarrow> deliver_loop topicName topicNameLen hs
      | Some f \<Rightarrow> do {
          t \<leftarrow> c_string topicName;
          m \<leftarrow> (if is_topic_equals t f then Some True else is_topic_matched f (take topicNameLen topicName));
          if m \<and> message_handler h \<noteq> None then Some (Some h)
          else deliver_loop topicName topicNameLen hs })"

definition deliver_message :: "byte list \<Rightarrow> nat \<Rightarrow> MQTTMessage \<Rightarrow> 'w mqtt \<Rightarrow> 'w mqtt option" where
  "deliver_message topicName topicNameLen message s = do {
     let message = message\<lparr>ptopic := take topicNameLen topicName\<rparr>;
     r \<leftarrow> deliver_loop topicName topicNameLen (sub_handles (cl s));
     (case r of
        Some h \<Rightarrow> do { f \<leftarrow> message_handler h; Some (call_back (On_Message f message (handler_user_data h)) s) }
      | None \<Rightarrow>
          if event_handle (cl s) then Some (call_back (On_Event MQTT_EVENT_PUBLISH_RECVEIVED (Message message)) s)
          else Some s) }"

section \<open>Acknowledgements\<close>

definition notify :: "MQTTEventType \<Rightarrow> event_msg \<Rightarrow> 'w mqtt \<Rightarrow> 'w mqtt" where
  "notify t m s = (if event_handle (cl s) then call_back (On_Event t m) s else s)"

definition notify_sub :: "SubTopicHandle \<Rightarrow> MQTTEventType \<Rightarrow> 'w mqtt \<Rightarrow> 'w mqtt" where
  "notify_sub h t s =
     (case sub_event_handler h of None \<Rightarrow> s | Some f \<Rightarrow> call_back (On_Sub_Event f t (handler_user_data h)) s)"

definition mask_pubInfo_from :: "'w hal \<Rightarrow> u16 \<Rightarrow> 'w mqtt \<Rightarrow> 'w mqtt" where
  "mask_pubInfo_from H msgId s =
     (if list_pub_wait_ack (cl s) = [] then s
      else let (iter, s) = HAL_Malloc H s
           in if \<not> iter then s
              else cl_update (\<lambda>c. c\<lparr>list_pub_wait_ack :=
                     map (\<lambda>n. if pub_msg_id n = msgId then n\<lparr>pub_node_state := MQTT_NODE_STATE_INVALID\<rparr> else n)
                       (list_pub_wait_ack c)\<rparr>) s)"

text \<open>\<^verbatim>\<open>_mask_sub_info_from\<close>: the handle that is written to \<open>*messageHandler\<close>, if any; the walk from the
  tail leaves that of the node nearest the head.\<close>

definition mask_sub_info_from :: "'w hal \<Rightarrow> u16 \<Rightarrow> 'w mqtt \<Rightarrow> SubTopicHandle option \<times> 'w mqtt" where
  "mask_sub_info_from H msgId s =
     (if list_sub_wait_ack (cl s) = [] then (None, s)
      else let (iter, s) = HAL_Malloc H s
           in if \<not> iter then (None, s)
              else (fold (\<lambda>n h. if sub_msg_id n = msgId then Some (sub_handler n) else h)
                      (rev (list_sub_wait_ack (cl s))) None,
                    cl_update (\<lambda>c. c\<lparr>list_sub_wait_ack :=
                      map (\<lambda>n. if sub_msg_id n = msgId then n\<lparr>sub_node_state := MQTT_NODE_STATE_INVALID\<rparr> else n)
                        (list_sub_wait_ack c)\<rparr>) s))"

definition handle_puback_packet :: "'w hal \<Rightarrow> 'w mqtt \<Rightarrow> (int \<times> 'w mqtt) option" where
  "handle_puback_packet H s = do {
     r \<leftarrow> deserialize_ack_packet (read_buf (cl s)) (read_buf_size (cl s));
     (case r of
        Inl rc \<Rightarrow> Some (rc, s)
      | Inr (type, dup, packet_id) \<Rightarrow>
          let s = mask_pubInfo_from H packet_id s
          in Some (QCLOUD_RET_SUCCESS, notify MQTT_EVENT_PUBLISH_SUCCESS (PacketId packet_id) s)) }"

definition check_handle_is_identical :: "SubTopicHandle \<Rightarrow> SubTopicHandle \<Rightarrow> bool" where
  "check_handle_is_identical sub_handle1 sub_handle2 \<longleftrightarrow>
     topic_filter sub_handle1 = topic_filter sub_handle2 \<and>
     message_handler sub_handle1 = message_handler sub_handle2 \<and>
     sub_event_handler sub_handle1 = sub_event_handler sub_handle2"

text \<open>The search through the slots: the index of an identical one (the loop ends there) and the first
  free index met.\<close>

fun scan_slots :: "SubTopicHandle \<Rightarrow> SubTopicHandle list \<Rightarrow> nat \<Rightarrow> nat option \<Rightarrow> nat option \<times> nat option" where
  "scan_slots h [] i i_free = (None, i_free)"
| "scan_slots h (x # xs) i i_free =
     (if topic_filter x \<noteq> None
      then if check_handle_is_identical x h then (Some i, i_free) else scan_slots h xs (i + 1) i_free
      else scan_slots h xs (i + 1) (if i_free = None then Some i else i_free))"

definition register_handle :: "SubTopicHandle \<Rightarrow> SubTopicHandle list \<Rightarrow> SubTopicHandle list option" where
  "register_handle h hs =
     (case scan_slots h hs 0 None of
        (Some i, _) \<Rightarrow> Some (hs[i := (hs ! i)\<lparr>handler_user_data := handler_user_data h\<rparr>])
      | (None, Some i) \<Rightarrow> Some (hs[i := h])
      | (None, None) \<Rightarrow> None)"

definition handle_suback_packet :: "'w hal \<Rightarrow> 'w mqtt \<Rightarrow> (int \<times> 'w mqtt) option" where
  "handle_suback_packet H s = do {
     r \<leftarrow> deserialize_suback_packet 1 [QOS0, QOS0, QOS0] (read_buf (cl s)) (read_buf_size (cl s));
     (case r of
        Inl rc \<Rightarrow> Some (rc, s)
      | Inr (packet_id, count, grantedQoS) \<Rightarrow> do {
          granted \<leftarrow> rd grantedQoS 0;
          let sub_nack = (granted = 0x80);
          s \<leftarrow> (if sub_nack
                then if event_handle (cl s) then Some (call_back (On_Event MQTT_EVENT_SUBCRIBE_NACK (PacketId packet_id)) s)
                     else None
                else Some s);
          let (h, s) = mask_sub_info_from H packet_id s;
          (case h of
             None \<Rightarrow> Some (QCLOUD_ERR_MQTT_SUB, s)
           | Some sub_handle \<Rightarrow>
               if topic_filter sub_handle = None then Some (QCLOUD_ERR_MQTT_SUB, s)
               else if sub_nack then Some (QCLOUD_ERR_MQTT_SUB, notify_sub sub_handle MQTT_EVENT_SUBCRIBE_NACK s)
               else (case register_handle sub_handle (sub_handles (cl s)) of
                       None \<Rightarrow> Some (QCLOUD_ERR_FAILURE, s)
                     | Some hs \<Rightarrow>
                         let s = cl_update (\<lambda>c. c\<lparr>sub_handles := hs\<rparr>) s;
                             s = notify MQTT_EVENT_SUBCRIBE_SUCCESS (PacketId packet_id) s
                         in Some (QCLOUD_RET_SUCCESS, notify_sub sub_handle MQTT_EVENT_SUBCRIBE_SUCCESS s))) }) }"

text \<open>\<^verbatim>\<open>_handle_unsuback_packet\<close> tests the handle on its stack, which nothing has written when the list
  has no such node.\<close>

definition handle_unsuback_packet :: "'w hal \<Rightarrow> 'w mqtt \<Rightarrow> (int \<times> 'w mqtt) option" where
  "handle_unsuback_packet H s = do {
     r \<leftarrow> deserialize_unsuback_packet (read_buf (cl s)) (read_buf_size (cl s));
     (case r of
        Inl rc \<Rightarrow> Some (rc, s)
      | Inr packet_id \<Rightarrow> do {
          let (h, s) = mask_sub_info_from H packet_id s;
          messageHandler \<leftarrow> h;
          Some (QCLOUD_RET_SUCCESS, notify MQTT_EVENT_UNSUBCRIBE_SUCCESS (PacketId packet_id) s) }) }"

section \<open>Incoming messages\<close>

definition get_packet_id_in_repeat_buf :: "Qcloud_IoT_Client \<Rightarrow> u16 \<Rightarrow> int" where
  "get_packet_id_in_repeat_buf c packet_id = (if packet_id \<in> set (repeat_packet_id_buf c) then uint packet_id else - 1)"

definition add_packet_id_to_repeat_buf :: "u16 \<Rightarrow> Qcloud_IoT_Client \<Rightarrow> Qcloud_IoT_Client option" where
  "add_packet_id_to_repeat_buf packet_id c =
     (if get_packet_id_in_repeat_buf c packet_id > 0 then Some c
      else if current_packet_id_cnt c \<ge> length (repeat_packet_id_buf c) then None
      else let cnt = current_packet_id_cnt c + 1
           in Some (c\<lparr>repeat_packet_id_buf := (repeat_packet_id_buf c)[current_packet_id_cnt c := packet_id],
                      current_packet_id_cnt :=
                        (if cnt \<ge> MQTT_MAX_REPEAT_BUF_LEN then cnt mod MQTT_MAX_REPEAT_BUF_LEN else cnt)\<rparr>))"

definition reset_repeat_packet_id_buffer :: "Qcloud_IoT_Client \<Rightarrow> Qcloud_IoT_Client" where
  "reset_repeat_packet_id_buffer c =
     c\<lparr>repeat_packet_id_buf := replicate MQTT_MAX_REPEAT_BUF_LEN 0, current_packet_id_cnt := 0\<rparr>"

text \<open>The end both message handlers share: extend a timer that has run out, then send.\<close>

definition send_ack :: "'w hal \<Rightarrow> nat \<Rightarrow> Timer \<Rightarrow> 'w mqtt \<Rightarrow> ((int \<times> Timer) \<times> 'w mqtt) option" where
  "send_ack H len timer s =
     (let (e, s) = expired H timer s;
          (timer, s) = (if e then countdown_ms H 100 s else (timer, s))
      in do { (rc, s) \<leftarrow> send_mqtt_packet H len timer s; Some ((rc, timer), s) })"

definition handle_publish_packet :: "'w hal \<Rightarrow> Timer \<Rightarrow> 'w mqtt \<Rightarrow> ((int \<times> Timer) \<times> 'w mqtt) option" where
  "handle_publish_packet H timer s = do {
     r \<leftarrow> deserialize_publish_packet (read_buf (cl s)) (read_buf_size (cl s));
     (case r of
        Inl rc \<Rightarrow> Some ((rc, timer), s)
      | Inr f \<Rightarrow> do {
          let topic_len = unat (pf_topic_len f);
          let topic_len = (if topic_len > MAX_SIZE_OF_CLOUD_TOPIC then MAX_SIZE_OF_CLOUD_TOPIC - 1 else topic_len);
          topic_name \<leftarrow> rd_bytes (read_buf (cl s)) (pf_topic f) topic_len;
          fix_topic \<leftarrow> wr_bytes (replicate MAX_SIZE_OF_CLOUD_TOPIC 0) 0 topic_name;
          let msg = \<lparr>msg_qos = pf_qos f, msg_retained = pf_retained f, msg_dup = pf_dup f,
                     msg_id = pf_packet_id f, ptopic = [], payload = drop (pf_payload f) (read_buf (cl s)),
                     payload_len = pf_payload_len f\<rparr>;
          if QOS0 = pf_qos f
          then do { s \<leftarrow> deliver_message fix_topic topic_len msg s; Some ((QCLOUD_RET_SUCCESS, timer), s) }
          else do {
            i \<leftarrow> pf_packet_id f;
            s \<leftarrow> (if get_packet_id_in_repeat_buf (cl s) i < 0 then deliver_message fix_topic topic_len msg s else Some s);
            c \<leftarrow> add_packet_id_to_repeat_buf i (cl s);
            let s = s\<lparr>cl := c\<rparr>;
            r \<leftarrow> serialize_pub_ack_packet (write_buf (cl s)) (write_buf_size (cl s))
                   (if QOS1 = pf_qos f then PUBACK else PUBREC) 0 i;
            (case r of
               Inl rc \<Rightarrow> Some ((rc, timer), s)
             | Inr (b, len) \<Rightarrow> send_ack H len timer (cl_update (\<lambda>c. c\<lparr>write_buf := b\<rparr>) s)) } }) }"

definition handle_pubrec_packet :: "'w hal \<Rightarrow> Timer \<Rightarrow> 'w mqtt \<Rightarrow> ((int \<times> Timer) \<times> 'w mqtt) option" where
  "handle_pubrec_packet H timer s = do {
     r \<leftarrow> deserialize_ack_packet (read_buf (cl s)) (read_buf_size (cl s));
     (case r of
        Inl rc \<Rightarrow> Some ((rc, timer), s)
      | Inr (type, dup, packet_id) \<Rightarrow> do {
          r \<leftarrow> serialize_pub_ack_packet (write_buf (cl s)) (write_buf_size (cl s)) PUBREL 0 packet_id;
          (case r of
             Inl rc \<Rightarrow> Some ((rc, timer), s)
           | Inr (b, len) \<Rightarrow> send_ack H len timer (cl_update (\<lambda>c. c\<lparr>write_buf := b\<rparr>) s)) }) }"

definition handle_pingresp_packet :: "'w hal \<Rightarrow> 'w mqtt \<Rightarrow> 'w mqtt" where
  "handle_pingresp_packet H s =
     (let s = cl_update (\<lambda>c. c\<lparr>is_ping_outstanding := 0\<rparr>) s;
          (t, s) = countdown H (unat (keep_alive_interval (options (cl s)))) s
      in cl_update (\<lambda>c. c\<lparr>ping_timer := t\<rparr>) s)"

section \<open>The read cycle\<close>

text \<open>The two switches over the packet type. The result is the return code with the timer; the packet
  type that was read is the caller's variable.\<close>

definition handle_packet :: "'w hal \<Rightarrow> Timer \<Rightarrow> u8 \<Rightarrow> 'w mqtt \<Rightarrow> ((int \<times> Timer) \<times> 'w mqtt) option" where
  "handle_packet H timer packet_type s =
     (if packet_type = msgTypes CONNACK then Some ((QCLOUD_RET_SUCCESS, timer), s)
      else if packet_type = msgTypes PUBACK then do { (rc, s) \<leftarrow> handle_puback_packet H s; Some ((rc, timer), s) }
      else if packet_type = msgTypes SUBACK then do { (rc, s) \<leftarrow> handle_suback_packet H s; Some ((rc, timer), s) }
      else if packet_type = msgTypes UNSUBACK then do { (rc, s) \<leftarrow> handle_unsuback_packet H s; Some ((rc, timer), s) }
      else if packet_type = msgTypes PUBLISH then handle_publish_packet H timer s
      else if packet_type = msgTypes PUBREC then handle_pubrec_packet H timer s
      else if packet_type = msgTypes PUBREL \<or> packet_type = msgTypes PUBCOMP \<or> packet_type = msgTypes PINGRESP
      then Some ((QCLOUD_RET_SUCCESS, timer), s)
      else Some ((QCLOUD_ERR_RX_MESSAGE_INVAL, timer), s))"

definition note_alive :: "'w hal \<Rightarrow> u8 \<Rightarrow> 'w mqtt \<Rightarrow> 'w mqtt" where
  "note_alive H packet_type s =
     (if packet_type = msgTypes PUBACK \<or> packet_type = msgTypes SUBACK \<or> packet_type = msgTypes UNSUBACK \<or>
         packet_type = msgTypes PINGRESP
      then handle_pingresp_packet H s
      else if packet_type = msgTypes PUBLISH then cl_update (\<lambda>c. c\<lparr>is_ping_outstanding := 0\<rparr>) s
      else s)"

definition cycle_for_read :: "'w hal \<Rightarrow> Timer \<Rightarrow> u8 \<Rightarrow> 'w mqtt \<Rightarrow> ((int \<times> u8 \<times> Timer) \<times> 'w mqtt) option" where
  "cycle_for_read H timer packet_type s = do {
     (r, s) \<leftarrow> read_mqtt_packet H timer s;
     (case r of
        Inl rc \<Rightarrow>
          if QCLOUD_ERR_MQTT_NOTHING_TO_READ = rc then Some ((QCLOUD_RET_SUCCESS, packet_type, timer), s)
          else Some ((rc, packet_type, timer), s)
      | Inr packet_type \<Rightarrow> do {
          ((rc, timer), s) \<leftarrow> handle_packet H timer packet_type s;
          Some ((rc, packet_type, timer), note_alive H packet_type s) }) }"

partial_function (option) wait_loop ::
  "'w hal \<Rightarrow> u8 \<Rightarrow> Timer \<Rightarrow> u8 \<Rightarrow> 'w mqtt \<Rightarrow> (int \<times> 'w mqtt) option" where
  "wait_loop H packet_type timer read_packet_type s =
     (let (e, s) = expired H timer s
      in if e then Some (QCLOUD_ERR_MQTT_REQUEST_TIMEOUT, s)
         else do {
           ((rc, read_packet_type, timer), s) \<leftarrow> cycle_for_read H timer read_packet_type s;
           if rc = QCLOUD_RET_SUCCESS \<and> read_packet_type \<noteq> packet_type
           then wait_loop H packet_type timer read_packet_type s
           else Some (rc, s) })"

definition wait_for_read :: "'w hal \<Rightarrow> u8 \<Rightarrow> Timer \<Rightarrow> 'w mqtt \<Rightarrow> (int \<times> 'w mqtt) option" where
  "wait_for_read H packet_type timer s = wait_loop H packet_type timer 0 s"

section \<open>The client structure stays well formed\<close>

text \<open>The arrays keep their sizes, the positions stay inside them, the acknowledgement lists stay within
  their bounds and no more than two pings are outstanding. Each operation of this theory keeps that.\<close>

definition client_ok :: "(u32 \<Rightarrow> bool) \<Rightarrow> Qcloud_IoT_Client \<Rightarrow> bool" where
  "client_ok within c \<longleftrightarrow> buffers_ok c \<and> length (sub_handles c) = MAX_MESSAGE_HANDLERS \<and>
     length (repeat_packet_id_buf c) = MQTT_MAX_REPEAT_BUF_LEN \<and> current_packet_id_cnt c < MQTT_MAX_REPEAT_BUF_LEN \<and>
     length (list_pub_wait_ack c) \<le> MAX_REPUB_NUM \<and> length (list_sub_wait_ack c) \<le> MAX_MESSAGE_HANDLERS \<and>
     is_ping_outstanding c \<le> 2 \<and> within (current_reconnect_wait_interval c)"

lemma client_ok_read_buf: "client_ok within c \<Longrightarrow> length b = length (read_buf c) \<Longrightarrow> client_ok within (c\<lparr>read_buf := b\<rparr>)"
  by (simp add: client_ok_def buffers_ok_def)

lemma client_ok_write_buf: "client_ok within c \<Longrightarrow> length b = length (write_buf c) \<Longrightarrow> client_ok within (c\<lparr>write_buf := b\<rparr>)"
  by (simp add: client_ok_def buffers_ok_def)

named_theorems client_keeps \<open>operations that keep the client structure well formed\<close>

lemma rem_len_write_length: "mqtt_write_packet_rem_len buf p v = Some (b, n) \<Longrightarrow> length b = length buf"
  by (auto simp: mqtt_write_packet_rem_len_put put_def dest!: wr_bytes_length)

lemma cl_call_back [simp]: "cl (call_back e s) = cl s"
  by (simp add: call_back_def)

lemma cl_notify [simp]: "cl (notify t m s) = cl s"
  by (simp add: notify_def)

lemma cl_notify_sub [simp]: "cl (notify_sub h t s) = cl s"
  by (simp add: notify_sub_def split: option.splits)

lemma deliver_message_cl: "deliver_message t n m s = Some s' \<Longrightarrow> cl s' = cl s"
  by (auto simp: deliver_message_def Let_def elim!: bind_SomeE split: model_splits)

lemma register_handle_length: "register_handle h hs = Some hs' \<Longrightarrow> length hs' = length hs"
  by (auto simp: register_handle_def split: model_splits)

lemma client_ok_sub_handles:
  "client_ok within c \<Longrightarrow> length hs = length (sub_handles c) \<Longrightarrow> client_ok within (c\<lparr>sub_handles := hs\<rparr>)"
  by (simp add: client_ok_def buffers_ok_def)

lemmas writer_puts = mqtt_write_char_put mqtt_write_uint_16_put mqtt_write_utf8_string_put

lemma serialize_pub_ack_length:
  "serialize_pub_ack_packet buf n ty dup i = Some (Inr (b, len)) \<Longrightarrow> length b = length buf"
  by (auto simp: serialize_pub_ack_packet_def Let_def writer_puts elim!: bind_SomeE
      dest!: put_length rem_len_write_length split: model_splits)

lemma serialize_zero_payload_length:
  "serialize_packet_with_zero_payload buf n ty = Some (Inr (b, len)) \<Longrightarrow> length b = length buf"
  by (auto simp: serialize_packet_with_zero_payload_def writer_puts elim!: bind_SomeE
      dest!: put_length rem_len_write_length split: model_splits)

lemma serialize_publish_length:
  "serialize_publish_packet buf n dup qos ret i topic pay = Some (Inr (b, len)) \<Longrightarrow> length b = length buf"
  by (auto simp: serialize_publish_packet_def Let_def writer_puts elim!: bind_SomeE
      dest!: put_length rem_len_write_length wr_bytes_length split: model_splits)

lemma serialize_subscribe_length:
  "serialize_subscribe_packet buf n dup i 1 topic [qos] = Some (Inr (b, len)) \<Longrightarrow> length b = length buf"
  by (auto simp: serialize_subscribe_packet_def writer_puts sub_payload_one_qos elim!: bind_SomeE
      dest!: put_length rem_len_write_length split: model_splits)

lemma serialize_unsubscribe_length:
  "serialize_unsubscribe_packet buf n dup i 1 topic = Some (Inr (b, len)) \<Longrightarrow> length b = length buf"
  by (auto simp: serialize_unsubscribe_packet_def writer_puts sub_payload_one elim!: bind_SomeE
      dest!: put_length rem_len_write_length split: model_splits)

lemma connect_packet_body_length:
  "connect_packet_body notls buf n opts = Some (Inr (b, len), opts') \<Longrightarrow> length b = length buf"
  by (auto simp: connect_packet_body_def Let_def writer_puts elim!: bind_SomeE
      dest!: put_length rem_len_write_length split: model_splits)

lemma serialize_connect_length:
  "serialize_connect_packet notls hmac m1 m2 cid buf n opts = Some (Inr (b, len), opts') \<Longrightarrow> length b = length buf"
  by (auto simp: serialize_connect_packet_def Let_def dest!: connect_packet_body_length split: model_splits)

lemma send_ack_env: "send_ack H len t s = Some (r, s') \<Longrightarrow> \<exists>w. s' = s\<lparr>env := w\<rparr>"
  by (auto simp: send_ack_def Let_def elim!: bind_SomeE split: model_splits
      dest!: expired_env countdown_ms_env send_mqtt_packet_env)

text \<open>A client structure with a condition on the reconnection interval; the operations below leave the interval alone,
  so they keep every such condition.\<close>

locale client_bound =
  fixes within :: "u32 \<Rightarrow> bool"
begin

lemma read_into_ok [client_keeps]: "read_into H off n t s = Some (r, s') \<Longrightarrow> client_ok within (cl s) \<Longrightarrow> client_ok within (cl s')"
  by (auto simp: read_into_def client_ok_read_buf elim!: bind_SomeE dest!: network_read_env wr_bytes_length
      split: model_splits)

lemma discard_loop_ok: "discard_loop H rem_len t k n s = Some y \<Longrightarrow> client_ok within (cl s) \<Longrightarrow> client_ok within (cl (snd y))"
proof (induction rule: discard_loop.raw_induct [rotated 1, consumes 1, case_names step])
  case (step loop H rem_len t k n s y)
  note IH = step(1)
  obtain rc m s1 where r: "read_into H 0 n t s = Some ((rc, m), s1)"
    using step(2) by (cases "read_into H 0 n t s") auto
  show ?case
    using step(2) r read_into_ok [OF r step(3)] by (auto simp: Let_def split: if_splits dest!: IH)
qed

lemma discard_loop_ok' [client_keeps]:
  "discard_loop H rem_len t k n s = Some (r, s') \<Longrightarrow> client_ok within (cl s) \<Longrightarrow> client_ok within (cl s')"
  using discard_loop_ok by fastforce

lemma read_packet_body_ok [client_keeps]:
  "read_packet_body H timer v s = Some (r, s') \<Longrightarrow> client_ok within (cl s) \<Longrightarrow> client_ok within (cl s')"
  by (auto simp: read_packet_body_def Let_def elim!: bind_SomeE split: model_splits
      dest!: left_or_1_env rem_len_write_length read_into_ok discard_loop_ok' simp: client_ok_read_buf)

lemma read_mqtt_packet_ok [client_keeps]:
  "read_mqtt_packet H timer s = Some (r, s') \<Longrightarrow> client_ok within (cl s) \<Longrightarrow> client_ok within (cl s')"
  by (auto simp: read_mqtt_packet_def decode_packet_rem_len_with_net_read_def Let_def elim!: bind_SomeE
      split: model_splits dest!: left_or_1_env decode_net_loop_env read_into_ok read_packet_body_ok)

lemma mask_pubInfo_from_ok [client_keeps]: "client_ok within (cl s) \<Longrightarrow> client_ok within (cl (mask_pubInfo_from H i s))"
  by (auto simp: mask_pubInfo_from_def client_ok_def buffers_ok_def dest!: HAL_Malloc_env split: prod.splits)

lemma mask_sub_info_from_ok [client_keeps]:
  "mask_sub_info_from H i s = (h, s') \<Longrightarrow> client_ok within (cl s) \<Longrightarrow> client_ok within (cl s')"
  by (auto simp: mask_sub_info_from_def client_ok_def buffers_ok_def dest!: HAL_Malloc_env split: model_splits)

lemma handle_puback_packet_ok [client_keeps]:
  "handle_puback_packet H s = Some (rc, s') \<Longrightarrow> client_ok within (cl s) \<Longrightarrow> client_ok within (cl s')"
  by (auto simp: handle_puback_packet_def mask_pubInfo_from_ok elim!: bind_SomeE split: model_splits)

lemma handle_suback_packet_ok [client_keeps]:
  "handle_suback_packet H s = Some (rc, s') \<Longrightarrow> client_ok within (cl s) \<Longrightarrow> client_ok within (cl s')"
  by (auto simp: handle_suback_packet_def Let_def client_ok_sub_handles elim!: bind_SomeE split: model_splits
      dest!: mask_sub_info_from_ok register_handle_length)

lemma handle_unsuback_packet_ok [client_keeps]:
  "handle_unsuback_packet H s = Some (rc, s') \<Longrightarrow> client_ok within (cl s) \<Longrightarrow> client_ok within (cl s')"
  by (auto simp: handle_unsuback_packet_def mask_sub_info_from_ok elim!: bind_SomeE split: model_splits)

lemma add_packet_id_ok: "add_packet_id_to_repeat_buf i c = Some c' \<Longrightarrow> client_ok within c \<Longrightarrow> client_ok within c'"
  by (auto simp: add_packet_id_to_repeat_buf_def Let_def client_ok_def buffers_ok_def split: model_splits)

lemma handle_publish_packet_ok [client_keeps]:
  "handle_publish_packet H timer s = Some (r, s') \<Longrightarrow> client_ok within (cl s) \<Longrightarrow> client_ok within (cl s')"
  by (auto simp: handle_publish_packet_def Let_def client_ok_write_buf elim!: bind_SomeE split: model_splits
      dest!: serialize_pub_ack_length send_ack_env deliver_message_cl add_packet_id_ok)

lemma handle_pubrec_packet_ok [client_keeps]:
  "handle_pubrec_packet H timer s = Some (r, s') \<Longrightarrow> client_ok within (cl s) \<Longrightarrow> client_ok within (cl s')"
  by (auto simp: handle_pubrec_packet_def client_ok_write_buf elim!: bind_SomeE split: model_splits
      dest!: serialize_pub_ack_length send_ack_env)

lemma note_alive_ok: "client_ok within (cl s) \<Longrightarrow> client_ok within (cl (note_alive H ty s))"
  by (auto simp: note_alive_def handle_pingresp_packet_def client_ok_def buffers_ok_def Let_def
      split: prod.splits dest!: countdown_env)

lemma handle_packet_ok [client_keeps]:
  "handle_packet H timer ty s = Some (r, s') \<Longrightarrow> client_ok within (cl s) \<Longrightarrow> client_ok within (cl s')"
  by (auto simp: handle_packet_def elim!: bind_SomeE split: model_splits dest: client_keeps)

lemma cycle_for_read_ok [client_keeps]:
  "cycle_for_read H timer ty s = Some (r, s') \<Longrightarrow> client_ok within (cl s) \<Longrightarrow> client_ok within (cl s')"
  by (auto simp: cycle_for_read_def elim!: bind_SomeE split: model_splits
      dest!: read_mqtt_packet_ok handle_packet_ok intro: note_alive_ok)

lemma wait_loop_ok: "wait_loop H ty timer t s = Some y \<Longrightarrow> client_ok within (cl s) \<Longrightarrow> client_ok within (cl (snd y))"
proof (induction rule: wait_loop.raw_induct [rotated 1, consumes 1, case_names step])
  case (step loop H ty timer t s y)
  note IH = step(1)
  obtain e w where e: "expired H timer s = (e, s\<lparr>env := w\<rparr>)" by (rule expired_cases)
  show ?case
    using step(2,3) e by (auto elim!: bind_SomeE split: model_splits dest!: IH cycle_for_read_ok)
qed

end

section \<open>Delivery\<close>

text \<open>The topic of a received message: at most 127 bytes, no NUL, padded to the array \<^verbatim>\<open>fix_topic\<close>.\<close>

definition padded :: "byte list \<Rightarrow> byte list" where
  "padded t = t @ replicate (MAX_SIZE_OF_CLOUD_TOPIC - length t) 0"

lemma c_string_padded: "length t < 128 \<Longrightarrow> 0 \<notin> set t \<Longrightarrow> c_string (padded t) = Some t"
  by (auto simp: c_string_def padded_def takeWhile_append)

definition handles_topic :: "byte list \<Rightarrow> SubTopicHandle \<Rightarrow> bool" where
  "handles_topic t h \<longleftrightarrow> message_handler h \<noteq> None \<and>
     (case topic_filter h of None \<Rightarrow> False | Some f \<Rightarrow> t = f \<or> is_topic_matched f t = Some True)"

lemma deliver_loop_find:
  assumes "t \<noteq> []" "length t < 128" "0 \<notin> set t"
  shows "deliver_loop (padded t) (length t) hs = Some (find (handles_topic t) hs)"
proof (induction hs)
  case Nil
  then show ?case by simp
next
  case (Cons h hs)
  show ?case
  proof (cases "topic_filter h")
    case None
    then show ?thesis using Cons.IH by (simp add: handles_topic_def)
  next
    case (Some f)
    obtain m where m: "is_topic_matched f t = Some m"
      using is_topic_matched_defined [OF assms(1), of f] by blast
    have "take (length t) (padded t) = t" by (simp add: padded_def)
    then show ?thesis
      using Some m Cons.IH c_string_padded [OF assms(2,3)]
      by (cases m) (auto simp: handles_topic_def is_topic_equals_def)
  qed
qed

lemma fold_rev_find:
  "fold (\<lambda>n h. if P n then Some (g n) else h) (rev xs) None = map_option g (find P xs)"
  by (induction xs) (auto simp: fold_append)

lemma scan_slots_cases:
  "scan_slots h hs i fr = (d, e) \<Longrightarrow>
     (case d of
        Some k \<Rightarrow> i \<le> k \<and> k < i + length hs \<and> check_handle_is_identical (hs ! (k - i)) h \<and> topic_filter (hs ! (k - i)) \<noteq> None
      | None \<Rightarrow> (\<forall>x \<in> set hs. topic_filter x \<noteq> None \<longrightarrow> \<not> check_handle_is_identical x h) \<and>
          (case e of
             Some k \<Rightarrow> fr = Some k \<or> i \<le> k \<and> k < i + length hs \<and> topic_filter (hs ! (k - i)) = None
           | None \<Rightarrow> fr = None \<and> (\<forall>x \<in> set hs. topic_filter x \<noteq> None)))"
proof (induction hs arbitrary: i fr)
  case Nil
  then show ?case by (auto split: option.splits)
next
  case (Cons x xs)
  show ?case
  proof (cases "topic_filter x \<noteq> None \<and> check_handle_is_identical x h")
    case True
    then show ?thesis using Cons.prems by auto
  next
    case False
    then have "scan_slots h xs (i + 1) (if topic_filter x = None \<and> fr = None then Some i else fr) = (d, e)"
      using Cons.prems by (auto split: if_splits)
    from Cons.IH [OF this] show ?thesis
      using False by (auto simp: nth_Cons' split: option.splits if_splits) 
  qed
qed

text \<open>What \<^verbatim>\<open>_handle_suback_packet\<close> does to the slots: one of them, free before or holding the same
  handler for the same filter, now holds the handle; a full table is reported.\<close>

lemma register_handle_cases:
  assumes "topic_filter h \<noteq> None"
  shows "case register_handle h hs of
      None \<Rightarrow> \<forall>x \<in> set hs. topic_filter x \<noteq> None \<and> \<not> check_handle_is_identical x h
    | Some hs' \<Rightarrow> \<exists>i < length hs. (topic_filter (hs ! i) = None \<or> check_handle_is_identical (hs ! i) h) \<and>
        (\<exists>h'. hs' = hs[i := h'] \<and> check_handle_is_identical h' h \<and> handler_user_data h' = handler_user_data h)"
proof -
  obtain d e where scan: "scan_slots h hs 0 None = (d, e)" by fastforce
  note spec = scan_slots_cases [OF scan]
  show ?thesis
  proof (cases d)
    case (Some k)
    then have k: "k < length hs" "check_handle_is_identical (hs ! k) h" using spec by auto
    let ?h = "(hs ! k)\<lparr>handler_user_data := handler_user_data h\<rparr>"
    have "register_handle h hs = Some (hs[k := ?h])" using Some scan by (simp add: register_handle_def)
    moreover have "check_handle_is_identical ?h h" using k(2) by (simp add: check_handle_is_identical_def)
    ultimately show ?thesis using k by (auto intro!: exI [of _ k] exI [of _ ?h])
  next
    case None
    show ?thesis
    proof (cases e)
      case (Some k)
      then show ?thesis
        using None spec scan by (auto simp: register_handle_def check_handle_is_identical_def)
    next
      case e: None
      then show ?thesis using None spec scan by (auto simp: register_handle_def)
    qed
  qed
qed

text \<open>The callback for a message on topic \<open>t\<close>.\<close>

definition delivered :: "byte list \<Rightarrow> MQTTMessage \<Rightarrow> 'w mqtt \<Rightarrow> 'w mqtt" where
  "delivered t m s =
     (case find (handles_topic t) (sub_handles (cl s)) of
        Some h \<Rightarrow> call_back (On_Message (the (message_handler h)) (m\<lparr>ptopic := t\<rparr>) (handler_user_data h)) s
      | None \<Rightarrow> notify MQTT_EVENT_PUBLISH_RECVEIVED (Message (m\<lparr>ptopic := t\<rparr>)) s)"

lemma delivered_simps [simp]: "cl (delivered t m s) = cl s" "env (delivered t m s) = env s"
  by (simp_all add: delivered_def notify_def call_back_def split: option.splits)

lemma deliver_message_delivered:
  assumes t: "t \<noteq> []" "length t < 128" "0 \<notin> set t"
  shows "deliver_message (padded t) (length t) m s = Some (delivered t m s)"
proof -
  have t': "take (length t) (padded t) = t" by (simp add: padded_def)
  show ?thesis
  proof (cases "find (handles_topic t) (sub_handles (cl s))")
    case None
    then show ?thesis by (simp add: deliver_message_def deliver_loop_find [OF t] t' notify_def delivered_def)
  next
    case (Some h)
    then have "handles_topic t h" by (auto simp: find_Some_iff)
    then obtain f where "message_handler h = Some f" by (auto simp: handles_topic_def)
    then show ?thesis
      using Some by (simp add: deliver_message_def deliver_loop_find [OF t] t' delivered_def)
  qed
qed

text \<open>The acknowledgement of a packet that took longer than the caller's time is given another 100 ms.\<close>

lemma send_ack_sends:
  assumes net: "net_sends H sent" and clock: "clock_steady H time" and buf: "buffers_ok (cl s)"
    and p: "0 < length p" "length p \<le> 1024" "take (length p) (write_buf (cl s)) = p"
  shows "\<exists>rc t w. send_ack H (length p) timer s = Some ((rc, t), s\<lparr>env := w\<rparr>) \<and> rc \<le> 0 \<and>
    (rc = QCLOUD_RET_SUCCESS \<longrightarrow> transmitted p (sent (env s)) (sent w)) \<and>
    (\<forall>T. net_works H T \<longrightarrow> rc = QCLOUD_RET_SUCCESS \<and> sent w = sent (env s) @ p)"
proof -
  obtain e w1 where e: "expired H timer s = (e, s\<lparr>env := w1\<rparr>)" by (rule expired_cases)
  obtain t1 w2 where t1: "countdown_ms H 100 (s\<lparr>env := w1\<rparr>) = (t1, s\<lparr>env := w2\<rparr>)"
    using countdown_ms_cases [of H 100 "s\<lparr>env := w1\<rparr>"] by auto
  define t w where "t = (if e then t1 else timer)" and "w = (if e then w2 else w1)"
  have keep: "sent w = sent (env s)"
    using clock_sends(1) [OF net e] clock_sends(3) [OF net t1] by (simp add: w_def)
  have time: "T < t" if "net_works H T" for T
    using expired_read [OF e] t1 that by (auto simp: t_def net_works_def countdown_ms_def now_def Let_def split: prod.splits)
      (metis fst_conv less_add_same_cancel1 zero_less_numeral)
  obtain rc w' where r: "send_mqtt_packet H (length p) t (s\<lparr>env := w\<rparr>) = Some (rc, s\<lparr>env := w\<rparr>\<lparr>env := w'\<rparr>)" "rc \<le> 0"
    "rc = QCLOUD_RET_SUCCESS \<longrightarrow> transmitted p (sent (env (s\<lparr>env := w\<rparr>))) (sent w')"
    "\<forall>T. net_works H T \<and> T < t \<longrightarrow> rc = QCLOUD_RET_SUCCESS \<and> sent w' = sent (env (s\<lparr>env := w\<rparr>)) @ p"
    using send_packet [OF net clock, of "s\<lparr>env := w\<rparr>" p t] buf p by (auto simp: buffers_ok_def)
  have "send_ack H (length p) timer s = Some ((rc, t), s\<lparr>env := w'\<rparr>)"
    using e t1 r(1) by (cases e) (simp_all add: send_ack_def t_def w_def)
  then show ?thesis using r(2-4) keep time by auto
qed

lemma uint_pos: "i \<noteq> 0 \<Longrightarrow> 0 < uint (i :: u16)"
  by (simp add: word_less_def word_neq_0_conv)

lemma add_packet_id_remembers:
  assumes "client_ok within c" "pid \<noteq> 0"
  shows "\<exists>c'. add_packet_id_to_repeat_buf pid c = Some c' \<and> pid \<in> set (repeat_packet_id_buf c') \<and>
    write_buf c' = write_buf c \<and> write_buf_size c' = write_buf_size c \<and> client_ok within c'"
proof (cases "pid \<in> set (repeat_packet_id_buf c)")
  case True
  moreover have "0 < uint pid" using assms(2) by (simp add: uint_pos)
  ultimately show ?thesis
    using assms(1) by (auto simp: add_packet_id_to_repeat_buf_def get_packet_id_in_repeat_buf_def)
next
  case False
  have "pid \<in> set ((repeat_packet_id_buf c)[current_packet_id_cnt c := pid])"
    using assms(1) by (intro set_update_memI) (simp add: client_ok_def)
  with False obtain c' where c': "add_packet_id_to_repeat_buf pid c = Some c'" "pid \<in> set (repeat_packet_id_buf c')"
    "write_buf c' = write_buf c" "write_buf_size c' = write_buf_size c"
    using assms(1) by (auto simp: add_packet_id_to_repeat_buf_def get_packet_id_in_repeat_buf_def client_ok_def Let_def)
  then show ?thesis using client_bound.add_packet_id_ok [OF c'(1) assms(1)] by blast
qed

text \<open>A state for examples: a subscription to \<open>a/+\<close> in the second slot, and one to \<open>b\<close> that waits for the
  SUBACK in the read buffer.\<close>

definition demo_message :: MQTTMessage where
  "demo_message = \<lparr>msg_qos = QOS0, msg_retained = 0, msg_dup = 0, msg_id = None, ptopic = [], payload = [], payload_len = 0\<rparr>"

definition demo_node :: QcloudIotSubInfo where
  "demo_node = \<lparr>sub_type = SUBSCRIBE, sub_msg_id = 7, sub_start_time = 0, sub_node_state = MQTT_NODE_STATE_NORMANL,
     sub_handler = \<lparr>topic_filter = Some [98], message_handler = Some 8, sub_event_handler = None,
                    handler_user_data = 0, sub_qos = QOS1\<rparr>, sub_buf = []\<rparr>"

definition demo_state :: "(byte list \<times> byte list list) mqtt" where
  "demo_state = \<lparr>cl = idle_client\<lparr>sub_handles := no_handle #
       \<lparr>topic_filter = Some [97, 47, 43], message_handler = Some 7, sub_event_handler = None,
        handler_user_data = 9, sub_qos = QOS1\<rparr> # replicate 8 no_handle,
       is_connected := 1, list_sub_wait_ack := [demo_node], read_buf := suback_bytes 7 [QOS1] @ replicate 2043 0\<rparr>,
     env = ([], []), events = []\<rparr>"

lemma length_suback_bytes: "length (suback_bytes pid [q]) = 5"
  by (simp add: suback_bytes_def rem_len_bytes.simps)

lemma demo_state_ok: "client_ok (\<lambda>_. True) (cl demo_state)"
  by (simp add: demo_state_def idle_client_def zero_client_def client_ok_def buffers_ok_def length_suback_bytes)

section \<open>Properties\<close>

text \<open>C29. A received message goes to exactly one callback: the message handler of the first slot that
  has one and whose filter equals or, by \<open>_is_topic_matched\<close>, matches the topic, or the
  client's event handler when there is none. In particular, a message whose topic matches a well-formed filter by
  the rules of MQTT is never lost when a handler is registered for that filter.\<close>

theorem deliver_message_routes:
  assumes t: "t \<noteq> []" "length t < 128" "0 \<notin> set t"
  shows "deliver_message (padded t) (length t) m s =
      Some (case find (handles_topic t) (sub_handles (cl s)) of
              Some h \<Rightarrow> call_back (On_Message (the (message_handler h)) (m\<lparr>ptopic := t\<rparr>) (handler_user_data h)) s
            | None \<Rightarrow> notify MQTT_EVENT_PUBLISH_RECVEIVED (Message (m\<lparr>ptopic := t\<rparr>)) s) \<and>
    ((\<exists>h \<in> set (sub_handles (cl s)). \<exists>f. topic_filter h = Some f \<and> message_handler h \<noteq> None \<and> wf_filter f \<and> topic_matches f t) \<longrightarrow>
     find (handles_topic t) (sub_handles (cl s)) \<noteq> None)"
  using deliver_message_delivered [OF t, of m s] standard_match_accepted [OF _ t(1)]
  by (auto simp: delivered_def find_None_iff handles_topic_def)

theorem deliver_message_routes_witness:
  "deliver_message (padded [97, 47, 98]) (length [97 :: byte, 47, 98]) demo_message demo_state =
     Some (call_back (On_Message 7 (demo_message\<lparr>ptopic := [97, 47, 98]\<rparr>) 9) demo_state)"
proof -
  have "find (handles_topic [97, 47, 98]) (sub_handles (cl demo_state)) =
      Some \<lparr>topic_filter = Some [97, 47, 43], message_handler = Some 7, sub_event_handler = None,
        handler_user_data = 9, sub_qos = QOS1\<rparr>"
    by (simp add: demo_state_def handles_topic_def no_handle_def is_topic_matched_tm verdict_def)
  moreover have t: "[97, 47, 98] \<noteq> ([] :: byte list)" "length [97 :: byte, 47, 98] < 128" "0 \<notin> set [97 :: byte, 47, 98]"
    by simp_all
  ultimately show ?thesis using conjunct1 [OF deliver_message_routes [OF t, of demo_message demo_state]] by simp
qed

text \<open>C30. A positive SUBACK for a subscription that is waiting for it registers the handler: one slot, free before or
  holding the same handler for the same filter, holds it afterwards, no other slot changes, the
  waiting node is marked, and the subscriber and the client are told.\<close>

theorem suback_registers:
  assumes ok: "client_ok within (cl s)" and pkt: "bytes_at (read_buf (cl s)) 0 (suback_bytes pid [q])" "q \<noteq> 0x80"
    and malloc: "fst (hal_malloc H (env s))"
    and node: "find (\<lambda>n. sub_msg_id n = pid) (list_sub_wait_ack (cl s)) = Some nd" "topic_filter (sub_handler nd) \<noteq> None"
    and free: "\<exists>h \<in> set (sub_handles (cl s)). topic_filter h = None"
  shows "\<exists>s' i h. handle_suback_packet H s = Some (QCLOUD_RET_SUCCESS, s') \<and> i < length (sub_handles (cl s)) \<and>
    (topic_filter (sub_handles (cl s) ! i) = None \<or> check_handle_is_identical (sub_handles (cl s) ! i) (sub_handler nd)) \<and>
    sub_handles (cl s') = (sub_handles (cl s))[i := h] \<and> check_handle_is_identical h (sub_handler nd) \<and>
    handler_user_data h = handler_user_data (sub_handler nd) \<and>
    list_sub_wait_ack (cl s') =
      map (\<lambda>n. if sub_msg_id n = pid then n\<lparr>sub_node_state := MQTT_NODE_STATE_INVALID\<rparr> else n) (list_sub_wait_ack (cl s)) \<and>
    events s' = events (notify_sub (sub_handler nd) MQTT_EVENT_SUBCRIBE_SUCCESS
                          (notify MQTT_EVENT_SUBCRIBE_SUCCESS (PacketId pid) s))"
proof -
  let ?hs = "sub_handles (cl s)"
  have d: "deserialize_suback_packet 1 [QOS0, QOS0, QOS0] (read_buf (cl s)) (read_buf_size (cl s)) =
      Some (Inr (pid, 1, [q, QOS0, QOS0]))"
    using deserialize_suback_at [OF pkt(1), of "read_buf_size (cl s)" 1 "[QOS0, QOS0, QOS0]"] ok
    by (simp add: client_ok_def buffers_ok_def)
  obtain w where w: "HAL_Malloc H s = (True, s\<lparr>env := w\<rparr>)"
    using malloc by (cases "hal_malloc H (env s)") (simp add: HAL_Malloc_def)
  have ne: "list_sub_wait_ack (cl s) \<noteq> []" using node(1) by auto
  obtain s1 where mask: "mask_sub_info_from H pid s = (Some (sub_handler nd), s1)"
    and s1: "s1 = cl_update (\<lambda>c. c\<lparr>list_sub_wait_ack :=
        map (\<lambda>n. if sub_msg_id n = pid then n\<lparr>sub_node_state := MQTT_NODE_STATE_INVALID\<rparr> else n) (list_sub_wait_ack c)\<rparr>) (s\<lparr>env := w\<rparr>)"
    using w ne node(1) by (simp add: mask_sub_info_from_def fold_rev_find)
  obtain hs where hs: "register_handle (sub_handler nd) ?hs = Some hs"
    using register_handle_cases [OF node(2), of ?hs] free by (cases "register_handle (sub_handler nd) ?hs") auto
  obtain i h where i: "i < length ?hs" "topic_filter (?hs ! i) = None \<or> check_handle_is_identical (?hs ! i) (sub_handler nd)"
    "hs = ?hs[i := h]" "check_handle_is_identical h (sub_handler nd)" "handler_user_data h = handler_user_data (sub_handler nd)"
    using register_handle_cases [OF node(2), of ?hs] hs by auto
  let ?s2 = "notify_sub (sub_handler nd) MQTT_EVENT_SUBCRIBE_SUCCESS
      (notify MQTT_EVENT_SUBCRIBE_SUCCESS (PacketId pid) (cl_update (\<lambda>c. c\<lparr>sub_handles := hs\<rparr>) s1))"
  have "handle_suback_packet H s = Some (QCLOUD_RET_SUCCESS, ?s2)"
    using d pkt(2) mask node(2) hs by (simp add: handle_suback_packet_def rd_def s1)
  moreover have "events ?s2 = events (notify_sub (sub_handler nd) MQTT_EVENT_SUBCRIBE_SUCCESS
      (notify MQTT_EVENT_SUBCRIBE_SUCCESS (PacketId pid) s))"
    by (simp add: s1 notify_def notify_sub_def call_back_def split: option.splits)
  ultimately show ?thesis using i by (intro exI [of _ ?s2] exI [of _ i] exI [of _ h]) (simp add: s1)
qed

theorem suback_registers_witness:
  "\<exists>s'. handle_suback_packet whole_hal demo_state = Some (QCLOUD_RET_SUCCESS, s')"
proof -
  have "bytes_at (read_buf (cl demo_state)) 0 (suback_bytes 7 [QOS1])" "QOS1 \<noteq> 0x80"
    "fst (hal_malloc whole_hal (env demo_state))" "topic_filter (sub_handler demo_node) \<noteq> None"
    by (simp_all add: demo_state_def bytes_at_whole whole_hal_simps demo_node_def)
  moreover have "find (\<lambda>n. sub_msg_id n = 7) (list_sub_wait_ack (cl demo_state)) = Some demo_node"
    "\<exists>h \<in> set (sub_handles (cl demo_state)). topic_filter h = None"
    by (simp_all add: demo_state_def demo_node_def no_handle_def)
  ultimately show ?thesis using suback_registers [OF demo_state_ok] by blast
qed

text \<open>C36. A message of quality 1 is delivered at most once as long as its packet id is among the ten ids remembered: the
  handler remembers its id, calls back only if the id was not remembered before, and answers with a PUBACK of that id:
  when it returns success, the four bytes of that PUBACK are what has been put on the wire next, and on a network that takes
  writes whole it always succeeds and has put these four bytes there and nothing else.\<close>

theorem qos1_delivered_once:
  assumes net: "net_sends H sent" and clock: "clock_steady H time" and ok: "client_ok within (cl s)"
    and pkt: "bytes_at (read_buf (cl s)) 0 (publish_bytes dup QOS1 ret pid topic pay)"
    and topic: "topic \<noteq> []" "length topic < 128" "0 \<notin> set topic" and pid: "pid \<noteq> 0"
  shows "\<exists>rc t s' m. handle_publish_packet H timer s = Some ((rc, t), s') \<and> rc \<le> 0 \<and>
    (rc = QCLOUD_RET_SUCCESS \<longrightarrow> transmitted (ack_bytes PUBACK 0 pid) (sent (env s)) (sent (env s'))) \<and>
    (\<forall>T. net_works H T \<longrightarrow> rc = QCLOUD_RET_SUCCESS \<and> sent (env s') = sent (env s) @ ack_bytes PUBACK 0 pid) \<and>
    take 4 (write_buf (cl s')) = ack_bytes PUBACK 0 pid \<and> pid \<in> set (repeat_packet_id_buf (cl s')) \<and>
    msg_id m = Some pid \<and> take (unat (payload_len m)) (payload m) = pay \<and>
    events s' = events (if pid \<in> set (repeat_packet_id_buf (cl s)) then s else delivered topic m s)"
proof -
  let ?n = "publish_rem_len QOS1 topic pay"
  let ?k = "1 + length (rem_len_bytes ?n)"
  have buf: "length (read_buf (cl s)) = 2048" "read_buf_size (cl s) = 2048" "length (write_buf (cl s)) = 2048"
    "write_buf_size (cl s) = 2048"
    using ok by (simp_all add: client_ok_def buffers_ok_def)
  have "0 + length (publish_bytes dup QOS1 ret pid topic pay) \<le> length (read_buf (cl s))"
    by (rule bytes_at_in_range [OF pkt]) (simp add: publish_bytes_def)
  then have len: "?k + ?n \<le> 2048" using buf by (simp add: length_publish_bytes)
  have at: "bytes_at (read_buf (cl s)) (?k + 2) topic" "bytes_at (read_buf (cl s)) (?k + 2 + length topic + 2) pay"
    using pkt by (simp_all add: publish_bytes_def utf8_bytes_def bytes_at_append)
  define m where "m = \<lparr>msg_qos = QOS1, msg_retained = ret AND 1, msg_dup = dup AND 1, msg_id = Some pid, ptopic = [],
      payload = drop (?k + 2 + length topic + 2) (read_buf (cl s)), payload_len = of_nat (length pay)\<rparr>"
  have d: "deserialize_publish_packet (read_buf (cl s)) (read_buf_size (cl s)) =
      Some (Inr \<lparr>pf_dup = dup AND 1, pf_qos = QOS1, pf_retained = ret AND 1, pf_packet_id = Some pid, pf_topic = ?k + 2,
        pf_topic_len = of_nat (length topic), pf_payload = ?k + 2 + length topic + 2, pf_payload_len = of_nat (length pay)\<rparr>)"
    using deserialize_publish_at [OF pkt, of "read_buf_size (cl s)"] topic(2) len buf by simp
  have tl: "unat (of_nat (length topic) :: u16) = length topic" using topic(2) by (intro unat_of_nat_u16) simp
  have rt: "rd_bytes (read_buf (cl s)) (?k + 2) (length topic) = Some topic"
    using at(1) topic(1) by (rule bytes_at_rd_bytes)
  have wr: "wr_bytes (replicate 128 0) 0 topic = Some (padded topic)"
    using topic(2) by (simp add: wr_bytes_def padded_def)
  have pay: "take (unat (payload_len m)) (payload m) = pay"
    using at(2) len by (cases "pay = []") (simp_all add: m_def bytes_at_iff_take publish_rem_len_def unat_of_nat)
  define s1 where "s1 = (if pid \<in> set (repeat_packet_id_buf (cl s)) then s else delivered topic m s)"
  have cl1: "cl s1 = cl s" "env s1 = env s" by (simp_all add: s1_def)
  obtain c where c: "add_packet_id_to_repeat_buf pid (cl s) = Some c" "pid \<in> set (repeat_packet_id_buf c)"
    "write_buf c = write_buf (cl s)" "write_buf_size c = write_buf_size (cl s)" "client_ok within c"
    using add_packet_id_remembers [OF ok pid] by blast
  let ?b = "ack_bytes PUBACK 0 pid @ drop 4 (write_buf (cl s))"
  let ?s2 = "cl_update (\<lambda>c. c\<lparr>write_buf := ?b\<rparr>) (s1\<lparr>cl := c\<rparr>)"
  have ack: "serialize_pub_ack_packet (write_buf c) (write_buf_size c) PUBACK 0 pid = Some (Inr (?b, 4))"
    using buf c by (simp add: serialize_pub_ack_put put_fits length_ack_bytes)
  have "buffers_ok (cl ?s2)" using c(3,5) buf by (simp add: client_ok_def buffers_ok_def length_ack_bytes)
  from send_ack_sends [OF net clock this, of "ack_bytes PUBACK 0 pid" timer]
  obtain rc t w where sent: "send_ack H 4 timer ?s2 = Some ((rc, t), ?s2\<lparr>env := w\<rparr>)" "rc \<le> 0"
    "rc = QCLOUD_RET_SUCCESS \<longrightarrow> transmitted (ack_bytes PUBACK 0 pid) (sent (env s)) (sent w)"
    "\<forall>T. net_works H T \<longrightarrow> rc = QCLOUD_RET_SUCCESS \<and> sent w = sent (env s) @ ack_bytes PUBACK 0 pid"
    by (auto simp: length_ack_bytes cl1)
  have "handle_publish_packet H timer s =
      (if get_packet_id_in_repeat_buf (cl s) pid < 0 then deliver_message (padded topic) (length topic) m s else Some s) \<bind>
      (\<lambda>s. do {
         c \<leftarrow> add_packet_id_to_repeat_buf pid (cl s);
         let s = s\<lparr>cl := c\<rparr>;
         r \<leftarrow> serialize_pub_ack_packet (write_buf (cl s)) (write_buf_size (cl s)) PUBACK 0 pid;
         (case r of
            Inl rc \<Rightarrow> Some ((rc, timer), s)
          | Inr (b, len) \<Rightarrow> send_ack H len timer (cl_update (\<lambda>c. c\<lparr>write_buf := b\<rparr>) s)) })"
    using d tl rt wr topic(2) by (simp add: handle_publish_packet_def m_def Let_def)
  moreover have "(if get_packet_id_in_repeat_buf (cl s) pid < 0 then deliver_message (padded topic) (length topic) m s
      else Some s) = Some s1"
    by (simp add: get_packet_id_in_repeat_buf_def s1_def deliver_message_delivered [OF topic])
  ultimately have "handle_publish_packet H timer s = Some ((rc, t), ?s2\<lparr>env := w\<rparr>)"
    using c(1) ack sent(1) cl1 by simp
  then show ?thesis
    using sent(2-4) c(2) pay by (intro exI [of _ rc] exI [of _ t] exI [of _ "?s2\<lparr>env := w\<rparr>"] exI [of _ m])
      (simp add: m_def s1_def length_ack_bytes)
qed

theorem qos1_delivered_once_witness:
  "\<exists>rc t s' m. handle_publish_packet whole_hal 5 (cl_update (\<lambda>c. c\<lparr>read_buf := publish_bytes 0 QOS1 0 5 [97, 47, 98] [1] @
       replicate 2038 0\<rparr>) demo_state) = Some ((rc, t), s') \<and>
     rc = QCLOUD_RET_SUCCESS \<and> concat (snd (env s')) = ack_bytes PUBACK 0 5 \<and>
     msg_id m = Some 5 \<and> take (unat (payload_len m)) (payload m) = [1] \<and>
     events s' = [On_Message 7 (m\<lparr>ptopic := [97, 47, 98]\<rparr>) 9]"
proof -
  let ?b = "publish_bytes 0 QOS1 0 5 [97, 47, 98] [1]"
  let ?s = "cl_update (\<lambda>c. c\<lparr>read_buf := ?b @ replicate 2038 0\<rparr>) demo_state"
  have "length ?b = 10" by (simp add: length_publish_bytes publish_rem_len_def rem_len_bytes.simps)
  then have "client_ok (\<lambda>_. True) (cl ?s)" using demo_state_ok by (simp add: client_ok_def buffers_ok_def)
  moreover have "bytes_at (read_buf (cl ?s)) 0 ?b" by (simp add: bytes_at_whole)
  moreover have "find (handles_topic [97, 47, 98]) (sub_handles (cl ?s)) =
      Some \<lparr>topic_filter = Some [97, 47, 43], message_handler = Some 7, sub_event_handler = None,
        handler_user_data = 9, sub_qos = QOS1\<rparr>"
    by (simp add: demo_state_def handles_topic_def no_handle_def is_topic_matched_tm verdict_def)
  then have "\<And>m. events (delivered [97, 47, 98] m ?s) = [On_Message 7 (m\<lparr>ptopic := [97, 47, 98]\<rparr>) 9]"
    by (simp add: delivered_def call_back_def demo_state_def)
  moreover have env: "(concat \<circ> snd) (env ?s) = []" by (simp add: demo_state_def)
  moreover have "(5 :: u16) \<notin> set (repeat_packet_id_buf (cl ?s))"
    by (simp add: demo_state_def idle_client_def zero_client_def)
  ultimately show ?thesis
    using qos1_delivered_once [OF whole_hal_sends(1) whole_hal_ok(2), of "\<lambda>_. True" ?s 0 0 5 "[97, 47, 98]" "[1]" 5]
      whole_hal_sends(2) env by fastforce
qed

end
