(* ===== verification/Mqtt_Requests.thy ===== *)
theory Mqtt_Requests
  imports Mqtt_Handlers
begin

text \<open>
  The requests a client makes: \<^verbatim>\<open>qcloud_iot_mqtt_publish\<close>, \<^verbatim>\<open>qcloud_iot_mqtt_subscribe\<close>,
  \<^verbatim>\<open>qcloud_iot_mqtt_unsubscribe\<close>, \<^verbatim>\<open>qcloud_iot_mqtt_resubscribe\<close> and
  \<^verbatim>\<open>qcloud_iot_mqtt_is_sub_ready\<close> (\<^verbatim>\<open>mqtt_client_publish.c\<close>, \<^verbatim>\<open>mqtt_client_subscribe.c\<close>,
  \<^verbatim>\<open>mqtt_client_unsubscribe.c\<close>), with the acknowledgement lists they fill. Topic names and filters
  are non-null C strings. A call is taken as a whole: the locks it holds keep the other threads out.
\<close>

section \<open>Waiting for an acknowledgement\<close>

definition mask_push_pubInfo_to :: "'w hal \<Rightarrow> nat \<Rightarrow> u16 \<Rightarrow> 'w mqtt \<Rightarrow> (int \<times> 'w mqtt) option" where
  "mask_push_pubInfo_to H len msgId s =
     (if len > write_buf_size (cl s) then Some (QCLOUD_ERR_FAILURE, s)
      else if length (list_pub_wait_ack (cl s)) \<ge> MAX_REPUB_NUM then Some (QCLOUD_ERR_FAILURE, s)
      else let (ok, s) = HAL_Malloc H s
           in if \<not> ok then Some (QCLOUD_ERR_FAILURE, s)
              else do {
                let (t, s) = countdown_ms H (unat (command_timeout_ms (cl s))) s;
                buf \<leftarrow> rd_bytes (write_buf (cl s)) 0 len;
                let repubInfo = \<lparr>pub_start_time = t, pub_node_state = MQTT_NODE_STATE_NORMANL,
                                 pub_msg_id = msgId, pub_buf = buf\<rparr>;
                let (node, s) = HAL_Malloc H s;
                if \<not> node then Some (QCLOUD_ERR_FAILURE, s)
                else Some (QCLOUD_RET_SUCCESS,
                       cl_update (\<lambda>c. c\<lparr>list_pub_wait_ack := list_pub_wait_ack c @ [repubInfo]\<rparr>) s) })"

definition push_sub_info_to ::
  "'w hal \<Rightarrow> nat \<Rightarrow> u16 \<Rightarrow> MessageTypes \<Rightarrow> SubTopicHandle \<Rightarrow> 'w mqtt \<Rightarrow> (int \<times> 'w mqtt) option" where
  "push_sub_info_to H len msgId type handler s =
     (if length (list_sub_wait_ack (cl s)) \<ge> MAX_MESSAGE_HANDLERS then Some (QCLOUD_ERR_MQTT_MAX_SUBSCRIPTIONS, s)
      else let (ok, s) = HAL_Malloc H s
           in if \<not> ok then Some (QCLOUD_ERR_FAILURE, s)
              else do {
                let (t, s) = countdown_ms H (unat (command_timeout_ms (cl s))) s;
                buf \<leftarrow> rd_bytes (write_buf (cl s)) 0 len;
                let sub_info = \<lparr>sub_type = type, sub_msg_id = msgId, sub_start_time = t,
                                sub_node_state = MQTT_NODE_STATE_NORMANL, sub_handler = handler, sub_buf = buf\<rparr>;
                let (node, s) = HAL_Malloc H s;
                if \<not> node then Some (QCLOUD_ERR_FAILURE, s)
                else Some (QCLOUD_RET_SUCCESS,
                       cl_update (\<lambda>c. c\<lparr>list_sub_wait_ack := list_sub_wait_ack c @ [sub_info]\<rparr>) s) })"

text \<open>\<^verbatim>\<open>list_remove\<close> of the node just pushed.\<close>

definition unpush_pub :: "'w mqtt \<Rightarrow> 'w mqtt" where
  "unpush_pub s = cl_update (\<lambda>c. c\<lparr>list_pub_wait_ack := butlast (list_pub_wait_ack c)\<rparr>) s"

definition unpush_sub :: "'w mqtt \<Rightarrow> 'w mqtt" where
  "unpush_sub s = cl_update (\<lambda>c. c\<lparr>list_sub_wait_ack := butlast (list_sub_wait_ack c)\<rparr>) s"

section \<open>Publish\<close>

record PublishParams =
  pub_qos :: QoS
  pub_retained :: u8
  pub_id :: u16
  pub_payload :: "byte list option"

text \<open>The call writes the packet id to \<open>pParams\<close>.\<close>

definition qcloud_iot_mqtt_publish ::
  "'w hal \<Rightarrow> byte list \<Rightarrow> PublishParams \<Rightarrow> 'w mqtt \<Rightarrow> ((int \<times> PublishParams) \<times> 'w mqtt) option" where
  "qcloud_iot_mqtt_publish H topicName pParams s =
     (if topicName = [] then Some ((QCLOUD_ERR_INVAL, pParams), s)
      else if length topicName > MAX_SIZE_OF_CLOUD_TOPIC then Some ((QCLOUD_ERR_MAX_TOPIC_LENGTH, pParams), s)
      else if pub_qos pParams = QOS2 then Some ((QCLOUD_ERR_MQTT_QOS_NOT_SUPPORT, pParams), s)
      else if get_client_conn_state s = 0 then Some ((QCLOUD_ERR_MQTT_NO_CONN, pParams), s)
      else do {
        let (timer, s) = countdown_ms H (unat (command_timeout_ms (cl s))) s;
        let (pParams, s) =
          (if pub_qos pParams = QOS1
           then let (i, s) = get_next_packet_id s in (pParams\<lparr>pub_id := i\<rparr>, s)
           else (pParams, s));
        r \<leftarrow> serialize_publish_packet (write_buf (cl s)) (write_buf_size (cl s)) 0 (pub_qos pParams)
               (pub_retained pParams) (pub_id pParams) topicName (pub_payload pParams);
        (case r of
           Inl rc \<Rightarrow> Some ((rc, pParams), s)
         | Inr (b, len) \<Rightarrow> do {
             let s = cl_update (\<lambda>c. c\<lparr>write_buf := b\<rparr>) s;
             (rc, s) \<leftarrow> (if pub_qos pParams > QOS0 then mask_push_pubInfo_to H len (pub_id pParams) s
                        else Some (QCLOUD_RET_SUCCESS, s));
             if rc \<noteq> QCLOUD_RET_SUCCESS then Some ((rc, pParams), s)
             else do {
               (rc, s) \<leftarrow> send_mqtt_packet H len timer s;
               if rc \<noteq> QCLOUD_RET_SUCCESS
               then Some ((rc, pParams), if pub_qos pParams > QOS0 then unpush_pub s else s)
               else Some ((uint (pub_id pParams), pParams), s) } }) })"

section \<open>Subscribe\<close>

record SubscribeParams =
  on_message_handler :: "nat option"
  on_sub_event_handler :: "nat option"
  sp_qos :: QoS
  user_data :: nat

text \<open>What \<^verbatim>\<open>subscribe\<close> and \<^verbatim>\<open>unsubscribe\<close> do once the packet is serialized.\<close>

definition push_and_send ::
  "'w hal \<Rightarrow> nat \<Rightarrow> u16 \<Rightarrow> MessageTypes \<Rightarrow> SubTopicHandle \<Rightarrow> Timer \<Rightarrow> 'w mqtt \<Rightarrow> (int \<times> 'w mqtt) option" where
  "push_and_send H len packet_id type sub_handle timer s = do {
     (rc, s) \<leftarrow> push_sub_info_to H len packet_id type sub_handle s;
     if rc \<noteq> QCLOUD_RET_SUCCESS then Some (rc, s)
     else do {
       (rc, s) \<leftarrow> send_mqtt_packet H len timer s;
       if rc \<noteq> QCLOUD_RET_SUCCESS then Some (rc, unpush_sub s)
       else Some (uint packet_id, s) } }"

definition qcloud_iot_mqtt_subscribe ::
  "'w hal \<Rightarrow> byte list \<Rightarrow> SubscribeParams \<Rightarrow> 'w mqtt \<Rightarrow> (int \<times> 'w mqtt) option" where
  "qcloud_iot_mqtt_subscribe H topicFilter pParams s =
     (if topicFilter = [] then Some (QCLOUD_ERR_INVAL, s)
      else if length topicFilter > MAX_SIZE_OF_CLOUD_TOPIC then Some (QCLOUD_ERR_MAX_TOPIC_LENGTH, s)
      else if sp_qos pParams = QOS2 then Some (QCLOUD_ERR_MQTT_QOS_NOT_SUPPORT, s)
      else if get_client_conn_state s = 0 then Some (QCLOUD_ERR_MQTT_NO_CONN, s)
      else let (ok, s) = HAL_Malloc H s
           in if \<not> ok then Some (QCLOUD_ERR_FAILURE, s)
              else do {
                let (timer, s) = countdown_ms H (unat (command_timeout_ms (cl s))) s;
                let (packet_id, s) = get_next_packet_id s;
                r \<leftarrow> serialize_subscribe_packet (write_buf (cl s)) (write_buf_size (cl s)) 0 packet_id 1 topicFilter
                       [sp_qos pParams];
                (case r of
                   Inl rc \<Rightarrow> Some (rc, s)
                 | Inr (b, len) \<Rightarrow>
                     push_and_send H len packet_id SUBSCRIBE
                       \<lparr>topic_filter = Some topicFilter, message_handler = on_message_handler pParams,
                        sub_event_handler = on_sub_event_handler pParams, handler_user_data = user_data pParams,
                        sub_qos = sp_qos pParams\<rparr>
                       timer (cl_update (\<lambda>c. c\<lparr>write_buf := b\<rparr>) s)) })"

fun resubscribe_loop :: "'w hal \<Rightarrow> SubTopicHandle list \<Rightarrow> 'w mqtt \<Rightarrow> (int \<times> 'w mqtt) option" where
  "resubscribe_loop H [] s = Some (QCLOUD_RET_SUCCESS, s)"
| "resubscribe_loop H (h # hs) s =
     (case topic_filter h of
        None \<Rightarrow> resubscribe_loop H hs s
      | Some topic \<Rightarrow> do {
          let temp_param = \<lparr>on_message_handler = message_handler h, on_sub_event_handler = sub_event_handler h,
                            sp_qos = sub_qos h, user_data = handler_user_data h\<rparr>;
          (rc, s) \<leftarrow> qcloud_iot_mqtt_subscribe H topic temp_param s;
          if rc < 0 then Some (rc, s) else resubscribe_loop H hs s })"

text \<open>Subscribing does not touch the slots the loop walks through.\<close>

definition qcloud_iot_mqtt_resubscribe :: "'w hal \<Rightarrow> 'w mqtt \<Rightarrow> (int \<times> 'w mqtt) option" where
  "qcloud_iot_mqtt_resubscribe H s =
     (if get_client_conn_state s = 0 then Some (QCLOUD_ERR_MQTT_NO_CONN, s)
      else resubscribe_loop H (sub_handles (cl s)) s)"

text \<open>\<^verbatim>\<open>strstr(topicFilter, "/#") != NULL || strstr(topicFilter, "/+") != NULL\<close>.\<close>

fun has_wildcard :: "byte list \<Rightarrow> bool" where
  "has_wildcard (a # b # cs) \<longleftrightarrow> a = SLASH \<and> (b = HASH \<or> b = PLUS) \<or> has_wildcard (b # cs)"
| "has_wildcard _ \<longleftrightarrow> False"

definition slot_selected :: "byte list \<Rightarrow> SubTopicHandle \<Rightarrow> bool" where
  "slot_selected topicFilter h \<longleftrightarrow> topic_filter h = Some topicFilter \<or> has_wildcard topicFilter"

definition qcloud_iot_mqtt_is_sub_ready :: "byte list \<Rightarrow> 'w mqtt \<Rightarrow> bool" where
  "qcloud_iot_mqtt_is_sub_ready topicFilter s \<longleftrightarrow>
     topicFilter \<noteq> [] \<and> length topicFilter \<le> MAX_SIZE_OF_CLOUD_TOPIC \<and>
     list_ex (slot_selected topicFilter) (sub_handles (cl s))"

section \<open>Unsubscribe\<close>

text \<open>The loop that clears the slots; \<open>suber_exists\<close> is whether one was selected.\<close>

fun unsubscribe_loop :: "byte list \<Rightarrow> SubTopicHandle list \<Rightarrow> 'w mqtt \<Rightarrow> (SubTopicHandle list \<times> bool) \<times> 'w mqtt" where
  "unsubscribe_loop topicFilter [] s = (([], False), s)"
| "unsubscribe_loop topicFilter (h # hs) s =
     (if slot_selected topicFilter h
      then let s = notify_sub h MQTT_EVENT_UNSUBSCRIBE s;
               ((hs, suber_exists), s) = unsubscribe_loop topicFilter hs s
           in ((h\<lparr>topic_filter := None\<rparr> # hs, True), s)
      else let ((hs, suber_exists), s) = unsubscribe_loop topicFilter hs s in ((h # hs, suber_exists), s))"

definition qcloud_iot_mqtt_unsubscribe :: "'w hal \<Rightarrow> byte list \<Rightarrow> 'w mqtt \<Rightarrow> (int \<times> 'w mqtt) option" where
  "qcloud_iot_mqtt_unsubscribe H topicFilter s =
     (if topicFilter = [] then Some (QCLOUD_ERR_INVAL, s)
      else if length topicFilter > MAX_SIZE_OF_CLOUD_TOPIC then Some (QCLOUD_ERR_MAX_TOPIC_LENGTH, s)
      else let ((hs, suber_exists), s) = unsubscribe_loop topicFilter (sub_handles (cl s)) s;
               s = cl_update (\<lambda>c. c\<lparr>sub_handles := hs\<rparr>) s
           in if \<not> suber_exists then Some (QCLOUD_ERR_MQTT_UNSUB_FAIL, s)
              else if get_client_conn_state s = 0 then Some (QCLOUD_ERR_MQTT_NO_CONN, s)
              else let (ok, s) = HAL_Malloc H s
                   in if \<not> ok then Some (QCLOUD_ERR_FAILURE, s)
                      else do {
                        let (timer, s) = countdown_ms H (unat (command_timeout_ms (cl s))) s;
                        let (packet_id, s) = get_next_packet_id s;
                        r \<leftarrow> serialize_unsubscribe_packet (write_buf (cl s)) (write_buf_size (cl s)) 0 packet_id 1
                               topicFilter;
                        (case r of
                           Inl rc \<Rightarrow> Some (rc, s)
                         | Inr (b, len) \<Rightarrow>
                             push_and_send H len packet_id UNSUBSCRIBE
                               \<lparr>topic_filter = Some topicFilter, message_handler = None, sub_event_handler = None,
                                handler_user_data = 0, sub_qos = QOS0\<rparr>
                               timer (cl_update (\<lambda>c. c\<lparr>write_buf := b\<rparr>) s)) })"

section \<open>Requests keep the client structure well formed\<close>

lemma unsubscribe_loop_cl:
  "unsubscribe_loop f hs s = ((hs', b), s') \<Longrightarrow> cl s' = cl s \<and> length hs' = length hs"
  by (induction hs arbitrary: s hs' b) (auto simp: Let_def split: model_splits)

context client_bound
begin

lemma mask_push_pubInfo_to_ok [client_keeps]:
  "mask_push_pubInfo_to H len i s = Some (rc, s') \<Longrightarrow> client_ok within (cl s) \<Longrightarrow> client_ok within (cl s')"
  by (auto simp: mask_push_pubInfo_to_def Let_def client_ok_def buffers_ok_def elim!: bind_SomeE split: model_splits
      dest!: HAL_Malloc_env countdown_ms_env)

lemma push_sub_info_to_ok [client_keeps]:
  "push_sub_info_to H len i ty h s = Some (rc, s') \<Longrightarrow> client_ok within (cl s) \<Longrightarrow> client_ok within (cl s')"
  by (auto simp: push_sub_info_to_def Let_def client_ok_def buffers_ok_def elim!: bind_SomeE split: model_splits
      dest!: HAL_Malloc_env countdown_ms_env)

lemma unpush_ok: "client_ok within (cl s) \<Longrightarrow> client_ok within (cl (unpush_pub s))" "client_ok within (cl s) \<Longrightarrow> client_ok within (cl (unpush_sub s))"
  by (auto simp: unpush_pub_def unpush_sub_def client_ok_def buffers_ok_def)

lemma get_next_packet_id_ok: "get_next_packet_id s = (i, s') \<Longrightarrow> client_ok within (cl s) \<Longrightarrow> client_ok within (cl s')"
  by (auto simp: get_next_packet_id_def Let_def client_ok_def buffers_ok_def)

lemma publish_ok [client_keeps]:
  "qcloud_iot_mqtt_publish H topic p s = Some (r, s') \<Longrightarrow> client_ok within (cl s) \<Longrightarrow> client_ok within (cl s')"
  by (auto simp: qcloud_iot_mqtt_publish_def Let_def client_ok_write_buf unpush_ok elim!: bind_SomeE split: model_splits
      dest!: countdown_ms_env get_next_packet_id_ok serialize_publish_length mask_push_pubInfo_to_ok send_mqtt_packet_env)

lemma push_and_send_ok [client_keeps]:
  "push_and_send H len i ty h timer s = Some (r, s') \<Longrightarrow> client_ok within (cl s) \<Longrightarrow> client_ok within (cl s')"
  by (auto simp: push_and_send_def unpush_ok elim!: bind_SomeE split: model_splits
      dest!: push_sub_info_to_ok send_mqtt_packet_env)

lemma subscribe_ok [client_keeps]:
  "qcloud_iot_mqtt_subscribe H topic p s = Some (r, s') \<Longrightarrow> client_ok within (cl s) \<Longrightarrow> client_ok within (cl s')"
  by (auto simp: qcloud_iot_mqtt_subscribe_def Let_def client_ok_write_buf elim!: bind_SomeE split: model_splits
      dest!: countdown_ms_env HAL_Malloc_env get_next_packet_id_ok serialize_subscribe_length [simplified] push_and_send_ok)

lemma resubscribe_loop_ok:
  "resubscribe_loop H hs s = Some (r, s') \<Longrightarrow> client_ok within (cl s) \<Longrightarrow> client_ok within (cl s')"
  by (induction hs arbitrary: s) (auto elim!: bind_SomeE split: model_splits dest!: subscribe_ok)

lemma resubscribe_ok [client_keeps]:
  "qcloud_iot_mqtt_resubscribe H s = Some (r, s') \<Longrightarrow> client_ok within (cl s) \<Longrightarrow> client_ok within (cl s')"
  by (auto simp: qcloud_iot_mqtt_resubscribe_def split: model_splits dest!: resubscribe_loop_ok)

lemma unsubscribe_ok [client_keeps]:
  "qcloud_iot_mqtt_unsubscribe H f s = Some (r, s') \<Longrightarrow> client_ok within (cl s) \<Longrightarrow> client_ok within (cl s')"
  by (auto simp: qcloud_iot_mqtt_unsubscribe_def Let_def client_ok_write_buf client_ok_sub_handles elim!: bind_SomeE
      split: model_splits dest!: countdown_ms_env HAL_Malloc_env get_next_packet_id_ok
      serialize_unsubscribe_length [simplified] push_and_send_ok unsubscribe_loop_cl)

end

section \<open>Publishing keeps track of what is unacknowledged\<close>

lemma next_packet_id_pos: "get_next_packet_id s = (i, s') \<Longrightarrow> 0 < uint i"
proof -
  assume "get_next_packet_id s = (i, s')"
  then have "i = (if next_packet_id (cl s) = 65535 then 1 else next_packet_id (cl s) + 1)"
    by (simp add: get_next_packet_id_def Let_def)
  moreover have "next_packet_id (cl s) + 1 \<noteq> 0" if "next_packet_id (cl s) \<noteq> 65535"
  proof
    assume "next_packet_id (cl s) + 1 = 0"
    then have "next_packet_id (cl s) = - 1" by (rule eq_neg_iff_add_eq_0 [THEN iffD2])
    with that show False by simp
  qed
  ultimately have "i \<noteq> 0" by simp
  then show ?thesis by (simp add: word_less_def word_neq_0_conv)
qed

text \<open>The packet id of the next request.\<close>

definition next_id :: "'w mqtt \<Rightarrow> u16" where
  "next_id s = fst (get_next_packet_id s)"

lemma get_next_packet_id_env: "next_id (s\<lparr>env := w\<rparr>) = next_id s"
  by (simp add: next_id_def get_next_packet_id_def Let_def)

lemma mask_push_cases:
  assumes "len \<le> length (write_buf (cl s))"
  obtains rc w where "mask_push_pubInfo_to H len i s = Some (rc, s\<lparr>env := w\<rparr>)" "rc < 0"
      "len \<le> write_buf_size (cl s) \<Longrightarrow> length (list_pub_wait_ack (cl s)) < MAX_REPUB_NUM \<Longrightarrow> \<exists>w. \<not> fst (hal_malloc H w)"
  | t w where "mask_push_pubInfo_to H len i s = Some (QCLOUD_RET_SUCCESS,
      cl_update (\<lambda>c. c\<lparr>list_pub_wait_ack := list_pub_wait_ack c @ [\<lparr>pub_start_time = t,
        pub_node_state = MQTT_NODE_STATE_NORMANL, pub_msg_id = i, pub_buf = take len (write_buf (cl s))\<rparr>]\<rparr>) (s\<lparr>env := w\<rparr>))"
      "\<And>sent. net_sends H sent \<Longrightarrow> sent w = sent (env s)"
proof -
  obtain ok w1 where m: "HAL_Malloc H s = (ok, s\<lparr>env := w1\<rparr>)" by (rule HAL_Malloc_cases)
  obtain t w2 where t: "countdown_ms H (unat (command_timeout_ms (cl s))) (s\<lparr>env := w1\<rparr>) = (t, s\<lparr>env := w2\<rparr>)"
    using countdown_ms_cases [of H "unat (command_timeout_ms (cl s))" "s\<lparr>env := w1\<rparr>"] by auto
  obtain ok2 w3 where m2: "HAL_Malloc H (s\<lparr>env := w2\<rparr>) = (ok2, s\<lparr>env := w3\<rparr>)"
    using HAL_Malloc_cases [of H "s\<lparr>env := w2\<rparr>"] by auto
  have keep: "sent w3 = sent (env s)" if "net_sends H sent" for sent :: "'a \<Rightarrow> byte list"
    using clock_sends(5) [OF that m] clock_sends(3) [OF that t] clock_sends(5) [OF that m2] by simp
  have denied: "\<exists>w. \<not> fst (hal_malloc H w)" if "\<not> (ok \<and> ok2)"
    using that m m2 by (auto simp: HAL_Malloc_def split: prod.splits) (metis fst_conv)+
  have rd: "rd_bytes (write_buf (cl s)) 0 len = Some (take len (write_buf (cl s)))"
    using assms by (simp add: rd_bytes_def)
  show thesis
  proof (cases "len > write_buf_size (cl s) \<or> length (list_pub_wait_ack (cl s)) \<ge> MAX_REPUB_NUM")
    case True
    then have full: "mask_push_pubInfo_to H len i s = Some (QCLOUD_ERR_FAILURE, s\<lparr>env := env s\<rparr>)"
      by (auto simp: mask_push_pubInfo_to_def)
    show thesis by (rule that(1) [OF full]) (use True in auto)
  next
    case False
    show thesis
    proof (cases "ok \<and> ok2")
      case True
      then show thesis using False m t m2 rd keep by (intro that(2) [of t w3]) (simp_all add: mask_push_pubInfo_to_def)
    next
      case no: False
      have full: "mask_push_pubInfo_to H len i s = Some (QCLOUD_ERR_FAILURE, s\<lparr>env := if ok then w3 else w1\<rparr>)"
        using no False m t m2 rd by (auto simp: mask_push_pubInfo_to_def)
      show thesis by (rule that(1) [OF full]) (use denied [OF no] in simp_all)
    qed
  qed
qed

lemma packet_len_close:
  "n < 128 ^ 4 \<Longrightarrow> 2048 < get_mqtt_packet_len n \<Longrightarrow> 2048 \<le> 1 + length (rem_len_bytes n) + n"
  by (simp add: length_rem_len_bytes_cases get_mqtt_packet_len_def Let_def split: if_splits)

lemma push_then_send:
  assumes net: "net_sends H sent" and clock: "clock_steady H time" and ok: "buffers_ok (cl s)" "write_buf_size (cl s) = 2048"
    and bs: "take (length bs) (write_buf (cl s)) = bs" "length bs \<le> 2048" "0 < length bs"
    and call: "pub = mask_push_pubInfo_to H (length bs) i s \<bind> (\<lambda>(rc, s).
        if rc \<noteq> QCLOUD_RET_SUCCESS then Some ((rc, p), s)
        else send_mqtt_packet H (length bs) timer s \<bind> (\<lambda>(rc, s).
          if rc \<noteq> QCLOUD_RET_SUCCESS then Some ((rc, p), unpush_pub s) else Some ((uint i, p), s)))"
  shows "(length bs \<le> 1024 \<or> (\<exists>T. net_works H T) \<longrightarrow> pub \<noteq> None) \<and>
    (\<forall>rc p' s'. pub = Some ((rc, p'), s') \<longrightarrow> p' = p \<and> events s' = events s \<and>
      (rc < 0 \<and> list_pub_wait_ack (cl s') = list_pub_wait_ack (cl s) \<or>
       rc = uint i \<and> transmitted bs (sent (env s)) (sent (env s')) \<and>
       (\<exists>t. list_pub_wait_ack (cl s') = list_pub_wait_ack (cl s) @
          [\<lparr>pub_start_time = t, pub_node_state = MQTT_NODE_STATE_NORMANL, pub_msg_id = i, pub_buf = bs\<rparr>])) \<and>
      ((\<exists>T. net_works H T \<and> T < timer) \<and> (\<forall>w. fst (hal_malloc H w)) \<and>
        length (list_pub_wait_ack (cl s)) < MAX_REPUB_NUM \<and> length bs < 2048 \<longrightarrow>
       rc = uint i \<and> sent (env s') = sent (env s) @ bs))"
proof -
  have room: "length bs \<le> length (write_buf (cl s))" using ok bs(2) by (simp add: buffers_ok_def)
  show ?thesis
  proof (rule mask_push_cases [OF room, of H i])
    fix rc w
    assume m: "mask_push_pubInfo_to H (length bs) i s = Some (rc, s\<lparr>env := w\<rparr>)" "rc < 0"
      "length bs \<le> write_buf_size (cl s) \<Longrightarrow> length (list_pub_wait_ack (cl s)) < MAX_REPUB_NUM \<Longrightarrow> \<exists>w. \<not> fst (hal_malloc H w)"
    then show ?thesis using call ok(2) bs(2) by auto
  next
    fix t w
    let ?node = "\<lparr>pub_start_time = t, pub_node_state = MQTT_NODE_STATE_NORMANL, pub_msg_id = i,
        pub_buf = take (length bs) (write_buf (cl s))\<rparr>"
    let ?s = "cl_update (\<lambda>c. c\<lparr>list_pub_wait_ack := list_pub_wait_ack c @ [?node]\<rparr>) (s\<lparr>env := w\<rparr>)"
    assume m: "mask_push_pubInfo_to H (length bs) i s = Some (QCLOUD_RET_SUCCESS, ?s)"
      "\<And>sent. net_sends H sent \<Longrightarrow> sent w = sent (env s)"
    have s: "buffers_ok (cl ?s)" "sent (env ?s) = sent (env s)" "write_buf_size (cl ?s) = 2048"
      "take (length bs) (write_buf (cl ?s)) = bs"
      using ok bs(1) m(2) [OF net] by (simp_all add: buffers_ok_def)
    have fits: "length bs \<le> write_buf_size (cl ?s)" using bs(2) s(3) by simp
    show ?thesis
    proof (cases "send_mqtt_packet H (length bs) timer ?s")
      case None
      then have "\<not> length bs \<le> 1024" using send_packet [OF net clock s(1) bs(3) fits s(4), of timer] s(3) by auto
      moreover have "\<not> (\<exists>T. net_works H T)" using send_works_returns [OF _ clock s(1)] None by blast
      ultimately show ?thesis using call m(1) None by simp
    next
      case (Some r)
      then have ret: "length bs \<le> 1024 \<or> send_mqtt_packet H (length bs) timer ?s \<noteq> None" by simp
      from send_packet [OF net clock s(1) bs(3) fits s(4) ret] show ?thesis
        using call m(1) bs(1) s(2,3) by (auto simp: unpush_pub_def split: if_splits)
    qed
  qed
qed

text \<open>C17. Publishing with quality 1 on a connected client returns for every packet of at most 1024 bytes, half the
  write buffer, and on a network that takes writes whole for every packet (a longer one may make the sending loop
  read behind the buffer after a partial write). When it returns, it is either with a
  negative code, the list of unacknowledged messages as before and no callback made, or with the next packet id,
  which is never 0, the packet put on the wire, and the list longer by one node that holds this id and the bytes of the
  packet. So a message that was handed to the network is tracked until it is
  acknowledged, and a message that was not leaves no trace in the list. On a network that takes writes whole, with memory to spare,
  fewer than 20 messages unacknowledged and a timeout above 0, it does succeed, and exactly the packet is put on the wire.\<close>

theorem publish_tracked:
  assumes net: "net_sends H sent" and clock: "clock_steady H time" and ok: "client_ok within (cl s)"
    and topic: "topic \<noteq> []" "length topic \<le> MAX_SIZE_OF_CLOUD_TOPIC" and conn: "get_client_conn_state s \<noteq> 0"
    and p: "pub_qos p = QOS1" "pub_payload p = Some pay" "length pay < 2 ^ 27"
    and packet: "bs = publish_bytes 0 QOS1 (pub_retained p) (next_id s) topic pay"
  shows "(length bs \<le> 1024 \<or> (\<exists>T. net_works H T) \<longrightarrow> qcloud_iot_mqtt_publish H topic p s \<noteq> None) \<and>
    (\<forall>rc p' s'. qcloud_iot_mqtt_publish H topic p s = Some ((rc, p'), s') \<longrightarrow>
      p' = p\<lparr>pub_id := next_id s\<rparr> \<and> events s' = events s \<and>
      (rc < 0 \<and> list_pub_wait_ack (cl s') = list_pub_wait_ack (cl s) \<or>
       rc = uint (next_id s) \<and> 0 < rc \<and> transmitted bs (sent (env s)) (sent (env s')) \<and>
       (\<exists>t. list_pub_wait_ack (cl s') = list_pub_wait_ack (cl s) @
          [\<lparr>pub_start_time = t, pub_node_state = MQTT_NODE_STATE_NORMANL, pub_msg_id = next_id s, pub_buf = bs\<rparr>])) \<and>
      ((\<exists>T. net_works H T) \<and> (\<forall>w. fst (hal_malloc H w)) \<and> length (list_pub_wait_ack (cl s)) < MAX_REPUB_NUM \<and>
        command_timeout_ms (cl s) \<noteq> 0 \<and> length bs < QCLOUD_IOT_MQTT_TX_BUF_LEN \<longrightarrow>
       0 < rc \<and> sent (env s') = sent (env s) @ bs))"
proof -
  let ?n = "publish_rem_len QOS1 topic pay" and ?i = "next_id s"
  let ?bs = "publish_bytes 0 QOS1 (pub_retained p) ?i topic pay"
  have len: "?n < 128 ^ 4" using topic(2) p(3) by (simp add: publish_rem_len_def)
  have buf: "length (write_buf (cl s)) = 2048" "write_buf_size (cl s) = 2048"
    using ok by (simp_all add: client_ok_def buffers_ok_def)
  obtain timer w1 where t: "countdown_ms H (unat (command_timeout_ms (cl s))) s = (timer, s\<lparr>env := w1\<rparr>)"
    by (rule countdown_ms_cases)
  have keep: "sent w1 = sent (env s)" using clock_sends(3) [OF net t] by simp
  have later: "T < timer" if "net_works H T" "command_timeout_ms (cl s) \<noteq> 0" for T
    using countdown_later [OF that(1) _ t] that(2) by (simp add: unat_gt_0)
  define s1 where "s1 = cl_update (\<lambda>c. c\<lparr>next_packet_id := ?i\<rparr>) (s\<lparr>env := w1\<rparr>)"
  have i: "get_next_packet_id (s\<lparr>env := w1\<rparr>) = (?i, s1)"
    by (simp add: s1_def next_id_def get_next_packet_id_def Let_def)
  have pos: "0 < uint ?i" using next_packet_id_pos [OF i] .
  show ?thesis
  proof (cases "get_mqtt_packet_len ?n > 2048")
    case True
    then have "qcloud_iot_mqtt_publish H topic p s = Some ((QCLOUD_ERR_BUF_TOO_SHORT, p\<lparr>pub_id := ?i\<rparr>), s1)"
      using topic conn p t i buf serialize_publish_put [of QOS1 topic pay] len
      by (simp add: qcloud_iot_mqtt_publish_def s1_def)
    moreover have "\<not> length bs < 2048" using True packet_len_close [OF len] by (simp add: packet length_publish_bytes)
    ultimately show ?thesis by (auto simp: s1_def)
  next
    case False
    then have fits: "length ?bs \<le> 2048"
      using packet_len_covers [OF len] by (simp add: length_publish_bytes)
    define s2 where "s2 = cl_update (\<lambda>c. c\<lparr>write_buf := ?bs @ drop (length ?bs) (write_buf (cl s))\<rparr>) s1"
    have ser: "serialize_publish_packet (write_buf (cl s1)) (write_buf_size (cl s1)) 0 QOS1 (pub_retained p) ?i topic (Some pay) =
        Some (Inr (write_buf (cl s2), length ?bs))"
      using False fits buf serialize_publish_put [of QOS1 topic pay] len by (simp add: s1_def s2_def put_fits)
    have s2: "buffers_ok (cl s2)" "take (length ?bs) (write_buf (cl s2)) = ?bs" "length ?bs \<le> length (write_buf (cl s2))"
      using ok fits buf by (simp_all add: s1_def s2_def client_ok_def buffers_ok_def)
    have pub: "qcloud_iot_mqtt_publish H topic p s =
        mask_push_pubInfo_to H (length ?bs) ?i s2 \<bind> (\<lambda>(rc, s).
          if rc \<noteq> QCLOUD_RET_SUCCESS then Some ((rc, p\<lparr>pub_id := ?i\<rparr>), s)
          else send_mqtt_packet H (length ?bs) timer s \<bind> (\<lambda>(rc, s).
            if rc \<noteq> QCLOUD_RET_SUCCESS then Some ((rc, p\<lparr>pub_id := ?i\<rparr>), unpush_pub s)
            else Some ((uint ?i, p\<lparr>pub_id := ?i\<rparr>), s)))"
      using topic conn p t i ser
      by (simp add: qcloud_iot_mqtt_publish_def s2_def s1_def cong: if_cong)
    have "0 < length ?bs" by (simp add: length_publish_bytes)
    moreover have "write_buf_size (cl s2) = 2048" "sent (env s2) = sent (env s)" "events s2 = events s"
      "list_pub_wait_ack (cl s2) = list_pub_wait_ack (cl s)"
      using buf keep by (simp_all add: s2_def s1_def)
    ultimately show ?thesis
      using push_then_send [OF net clock s2(1) _ s2(2) fits _ pub] pos later unfolding packet by (auto 0 4)
  qed
qed

theorem publish_tracked_witness:
  "\<exists>s'. qcloud_iot_mqtt_publish whole_hal [97] \<lparr>pub_qos = QOS1, pub_retained = 0, pub_id = 0, pub_payload = Some [1]\<rparr>
     \<lparr>cl = idle_client\<lparr>is_connected := 1\<rparr>, env = ([], []), events = []\<rparr> =
       Some ((1, \<lparr>pub_qos = QOS1, pub_retained = 0, pub_id = 1, pub_payload = Some [1]\<rparr>), s') \<and>
     concat (snd (env s')) = publish_bytes 0 QOS1 0 1 [97] [1]"
proof -
  let ?s = "\<lparr>cl = idle_client\<lparr>is_connected := 1\<rparr>, env = ([], []), events = []\<rparr> :: (byte list \<times> byte list list) mqtt"
  let ?p = "\<lparr>pub_qos = QOS1, pub_retained = 0, pub_id = 0, pub_payload = Some [1]\<rparr>"
  have id: "next_id ?s = 1" by (simp add: next_id_def get_next_packet_id_def idle_client_def zero_client_def)
  have hyps: "client_ok (\<lambda>_. True) (cl ?s)" "[97 :: byte] \<noteq> []" "length [97 :: byte] \<le> MAX_SIZE_OF_CLOUD_TOPIC"
    "get_client_conn_state ?s \<noteq> 0" "pub_qos ?p = QOS1" "pub_payload ?p = Some [1]" "length [1 :: byte] < 2 ^ 27"
    by (simp_all add: idle_client_def zero_client_def client_ok_def buffers_ok_def get_client_conn_state_def)
  note t = publish_tracked [OF whole_hal_sends(1) whole_hal_ok(2) hyps refl]
  have len: "length (publish_bytes 0 QOS1 0 1 [97] [1]) = 8"
    by (simp add: length_publish_bytes publish_rem_len_def rem_len_bytes.simps)
  obtain rc p' s' where r: "qcloud_iot_mqtt_publish whole_hal [97] ?p ?s = Some ((rc, p'), s')"
    using conjunct1 [OF t] len id by auto
  have "\<exists>T. net_works whole_hal T" using whole_hal_sends(2) by blast
  then show ?thesis
    using conjunct2 [OF t, rule_format, OF r] r id len
    by (auto simp: whole_hal_simps idle_client_def zero_client_def)
qed

section \<open>What unsubscribing clears\<close>

lemma push_and_send_handles:
  "push_and_send H len i ty h timer s = Some (r, s') \<Longrightarrow> sub_handles (cl s') = sub_handles (cl s)"
  by (auto simp: push_and_send_def push_sub_info_to_def unpush_sub_def Let_def elim!: bind_SomeE split: model_splits
      dest!: HAL_Malloc_env countdown_ms_env send_mqtt_packet_env)

lemma unsubscribe_loop_handles:
  "unsubscribe_loop f hs s = ((hs', ex), s') \<Longrightarrow>
     hs' = map (\<lambda>h. if slot_selected f h then h\<lparr>topic_filter := None\<rparr> else h) hs \<and> ex = list_ex (slot_selected f) hs \<and> cl s' = cl s"
proof (induction hs arbitrary: s hs' ex)
  case Nil
  then show ?case by simp
next
  case (Cons h hs)
  note IH = Cons.IH
  show ?case using Cons.prems by (auto simp: Let_def split: model_splits dest!: IH)
qed

lemma unsubscribe_handles:
  assumes "qcloud_iot_mqtt_unsubscribe H f s = Some (rc, s')" "f \<noteq> []" "length f \<le> MAX_SIZE_OF_CLOUD_TOPIC"
  shows "sub_handles (cl s') = map (\<lambda>h. if slot_selected f h then h\<lparr>topic_filter := None\<rparr> else h) (sub_handles (cl s))"
  using assms by (auto simp: qcloud_iot_mqtt_unsubscribe_def get_next_packet_id_def Let_def elim!: bind_SomeE split: model_splits
      dest!: unsubscribe_loop_handles HAL_Malloc_env countdown_ms_env push_and_send_handles)

text \<open>C16. Unsubscribing from a filter without a wildcard clears the slots of exactly this filter, whatever becomes of the
  request, so that the filter is not reported as subscribed afterwards. For a filter that contains
  \<^verbatim>\<open>/#\<close> or \<^verbatim>\<open>/+\<close> it clears all slots, also those of other filters, and the filter is still reported as
  subscribed.\<close>

theorem unsubscribe_clears:
  assumes call: "qcloud_iot_mqtt_unsubscribe H f s = Some (rc, s')" and f: "f \<noteq> []" "length f \<le> MAX_SIZE_OF_CLOUD_TOPIC"
    and slots: "sub_handles (cl s) \<noteq> []"
  shows "if has_wildcard f
    then (\<forall>h \<in> set (sub_handles (cl s')). topic_filter h = None) \<and> qcloud_iot_mqtt_is_sub_ready f s'
    else sub_handles (cl s') = map (\<lambda>h. if topic_filter h = Some f then h\<lparr>topic_filter := None\<rparr> else h) (sub_handles (cl s)) \<and>
      \<not> qcloud_iot_mqtt_is_sub_ready f s'"
proof -
  note hs = unsubscribe_handles [OF call f]
  show ?thesis
  proof (cases "has_wildcard f")
    case True
    then show ?thesis
      using hs f slots by (auto simp: slot_selected_def qcloud_iot_mqtt_is_sub_ready_def list_ex_iff ex_in_conv)
  next
    case False
    then show ?thesis using hs by (auto simp: slot_selected_def qcloud_iot_mqtt_is_sub_ready_def list_ex_iff)
  qed
qed

theorem unsubscribe_clears_witness:
  "\<exists>s'. qcloud_iot_mqtt_unsubscribe whole_hal [97, 47, 43] (cl_update (\<lambda>c. c\<lparr>is_connected := 0\<rparr>) demo_state) =
       Some (QCLOUD_ERR_MQTT_NO_CONN, s') \<and>
     (\<forall>h \<in> set (sub_handles (cl s')). topic_filter h = None) \<and> qcloud_iot_mqtt_is_sub_ready [97, 47, 43] s'"
proof -
  let ?s = "cl_update (\<lambda>c. c\<lparr>is_connected := 0\<rparr>) demo_state"
  obtain hs ex s1 where l: "unsubscribe_loop [97, 47, 43] (sub_handles (cl ?s)) ?s = ((hs, ex), s1)"
    by (metis surj_pair)
  have "ex" "cl s1 = cl ?s"
    using unsubscribe_loop_handles [OF l] by (auto simp: slot_selected_def list_ex_iff demo_state_def)
  then have u: "qcloud_iot_mqtt_unsubscribe whole_hal [97, 47, 43] ?s =
      Some (QCLOUD_ERR_MQTT_NO_CONN, cl_update (\<lambda>c. c\<lparr>sub_handles := hs\<rparr>) s1)"
    using l by (simp add: qcloud_iot_mqtt_unsubscribe_def get_client_conn_state_def)
  moreover have "sub_handles (cl ?s) \<noteq> []" by (simp add: demo_state_def)
  ultimately show ?thesis using unsubscribe_clears [OF u] by simp
qed

end
