(* ===== verification/Utils_Hash.thy ===== *)
theory Utils_Hash
  imports Iot_Prelude
begin

text \<open>
  SHA-1, MD5 and HMAC: \<^verbatim>\<open>sdk_src/utils/utils_sha1.c\<close>, \<^verbatim>\<open>utils_md5.c\<close> and
  \<^verbatim>\<open>utils_hmac.c\<close>. The password of the MQTT CONNECT packet is an HMAC-SHA1.

  The two digests share their streaming code up to renaming (\<^verbatim>\<open>utils_sha1_update\<close> and
  \<^verbatim>\<open>utils_md5_update\<close> are the same text), so it is one definition with the block function as
  an argument. The \<^verbatim>\<open>P\<close> macros of the rounds are called with their variables rotated by one
  place each time; here the tuple of variables is rotated instead.
\<close>

section \<open>Streaming\<close>

record 'st md_context =
  total0 :: u32
  total1 :: u32
  md_state :: 'st
  md_buffer :: "byte list"

fun md_blocks :: "('st \<Rightarrow> byte list \<Rightarrow> 'st) \<Rightarrow> 'st \<Rightarrow> byte list \<Rightarrow> 'st \<times> byte list" where
  "md_blocks process st input =
     (if length input \<ge> 64 then md_blocks process (process st (take 64 input)) (drop 64 input) else (st, input))"

declare md_blocks.simps [simp del]

definition md_update :: "('st \<Rightarrow> byte list \<Rightarrow> 'st) \<Rightarrow> 'st md_context \<Rightarrow> byte list \<Rightarrow> 'st md_context option" where
  "md_update process ctx input =
     (let ilen = length input
      in if ilen = 0 then Some ctx
         else do {
           let left = unat (total0 ctx AND 0x3F);
           let fill = 64 - left;
           let t0 = total0 ctx + of_nat ilen;
           let t1 = (if t0 < of_nat ilen then total1 ctx + 1 else total1 ctx);
           let ctx = ctx\<lparr>total0 := t0, total1 := t1\<rparr>;
           (ctx, input, left) \<leftarrow>
             (if left \<noteq> 0 \<and> ilen \<ge> fill
              then do {
                b \<leftarrow> wr_bytes (md_buffer ctx) left (take fill input);
                Some (ctx\<lparr>md_buffer := b, md_state := process (md_state ctx) b\<rparr>, drop fill input, 0) }
              else Some (ctx, input, left));
           let (st, rest) = md_blocks process (md_state ctx) input;
           let ctx = ctx\<lparr>md_state := st\<rparr>;
           if length rest > 0
           then do { b \<leftarrow> wr_bytes (md_buffer ctx) left rest; Some (ctx\<lparr>md_buffer := b\<rparr>) }
           else Some ctx })"

definition md_padding :: "byte list" where
  "md_padding = 0x80 # replicate 63 0"

text \<open>The end of a message; \<open>msglen\<close> lays out the two halves of the bit length.\<close>

definition md_finish :: "('st \<Rightarrow> byte list \<Rightarrow> 'st) \<Rightarrow> (u32 \<Rightarrow> u32 \<Rightarrow> byte list) \<Rightarrow> 'st md_context \<Rightarrow> 'st md_context option" where
  "md_finish process msglen ctx = do {
     let high = drop_bit 29 (total0 ctx) OR push_bit 3 (total1 ctx);
     let low = push_bit 3 (total0 ctx);
     let l = unat (total0 ctx AND 0x3F);
     let padn = (if l < 56 then 56 - l else 120 - l);
     ctx \<leftarrow> md_update process ctx (take padn md_padding);
     md_update process ctx (msglen high low) }"

section \<open>SHA-1\<close>

type_synonym sha1_state = "u32 \<times> u32 \<times> u32 \<times> u32 \<times> u32"

definition rotl :: "u32 \<Rightarrow> nat \<Rightarrow> u32" where
  "rotl x n = push_bit n x OR drop_bit (32 - n) (x AND 0xFFFFFFFF)"

definition get_uint32_be :: "byte list \<Rightarrow> nat \<Rightarrow> u32" where
  "get_uint32_be b i = push_bit 24 (ucast (b ! i)) OR push_bit 16 (ucast (b ! (i + 1)))
     OR push_bit 8 (ucast (b ! (i + 2))) OR ucast (b ! (i + 3))"

definition put_uint32_be :: "u32 \<Rightarrow> byte list" where
  "put_uint32_be n = [ucast (drop_bit 24 n), ucast (drop_bit 16 n), ucast (drop_bit 8 n), ucast n]"

definition sha1_F :: "nat \<Rightarrow> u32 \<Rightarrow> u32 \<Rightarrow> u32 \<Rightarrow> u32" where
  "sha1_F t x y z =
     (if t < 20 then z XOR (x AND (y XOR z))
      else if t < 40 then x XOR y XOR z
      else if t < 60 then (x AND y) OR (z AND (x OR y))
      else x XOR y XOR z)"

definition sha1_K :: "nat \<Rightarrow> u32" where
  "sha1_K t = (if t < 20 then 0x5A827999 else if t < 40 then 0x6ED9EBA1
               else if t < 60 then 0x8F1BBCDC else 0xCA62C1D6)"

definition sha1_P :: "nat \<Rightarrow> u32 \<Rightarrow> sha1_state \<Rightarrow> sha1_state" where
  "sha1_P t x s = (case s of (a, b, c, d, e) \<Rightarrow>
     (e + (rotl a 5 + sha1_F t b c d + sha1_K t + x), a, rotl b 30, c, d))"

text \<open>The \<^verbatim>\<open>R\<close> macro: the next schedule word, stored over the oldest of the sixteen.\<close>

definition sha1_R :: "nat \<Rightarrow> u32 list \<Rightarrow> u32 \<times> u32 list" where
  "sha1_R t W =
     (let temp = W ! ((t - 3) mod 16) XOR W ! ((t - 8) mod 16) XOR W ! ((t - 14) mod 16) XOR W ! (t mod 16);
          x = rotl temp 1
      in (x, W[t mod 16 := x]))"

function sha1_rounds :: "nat \<Rightarrow> u32 list \<Rightarrow> sha1_state \<Rightarrow> sha1_state" where
  "sha1_rounds t W s =
     (if t \<ge> 80 then s
      else let (x, W) = (if t < 16 then (W ! t, W) else sha1_R t W)
           in sha1_rounds (t + 1) W (sha1_P t x s))"
  by pat_completeness auto
termination
  by (relation "measure (\<lambda>(t, W, s). 80 - t)") auto

declare sha1_rounds.simps [simp del]

definition sha1_add :: "sha1_state \<Rightarrow> sha1_state \<Rightarrow> sha1_state" where
  "sha1_add s s' = (case (s, s') of ((a, b, c, d, e), (a', b', c', d', e')) \<Rightarrow> (a + a', b + b', c + c', d + d', e + e'))"

definition utils_sha1_process :: "sha1_state \<Rightarrow> byte list \<Rightarrow> sha1_state" where
  "utils_sha1_process st data =
     (let W = map (\<lambda>i. get_uint32_be data (4 * i)) [0..<16]
      in sha1_add st (sha1_rounds 0 W st))"

definition utils_sha1_starts :: "sha1_state md_context" where
  "utils_sha1_starts = \<lparr>total0 = 0, total1 = 0,
     md_state = (0x67452301, 0xEFCDAB89, 0x98BADCFE, 0x10325476, 0xC3D2E1F0), md_buffer = replicate 64 0\<rparr>"

definition utils_sha1_update :: "sha1_state md_context \<Rightarrow> byte list \<Rightarrow> sha1_state md_context option" where
  "utils_sha1_update = md_update utils_sha1_process"

definition sha1_output :: "sha1_state \<Rightarrow> byte list" where
  "sha1_output s = (case s of (a, b, c, d, e) \<Rightarrow>
     put_uint32_be a @ put_uint32_be b @ put_uint32_be c @ put_uint32_be d @ put_uint32_be e)"

definition sha1_msglen :: "u32 \<Rightarrow> u32 \<Rightarrow> byte list" where
  "sha1_msglen high low = put_uint32_be high @ put_uint32_be low"

definition utils_sha1_finish :: "sha1_state md_context \<Rightarrow> byte list option" where
  "utils_sha1_finish ctx =
     map_option (\<lambda>c. sha1_output (md_state c)) (md_finish utils_sha1_process sha1_msglen ctx)"

definition utils_sha1 :: "byte list \<Rightarrow> byte list option" where
  "utils_sha1 input = do {
     ctx \<leftarrow> utils_sha1_update utils_sha1_starts input;
     utils_sha1_finish ctx }"

section \<open>MD5\<close>

type_synonym md5_state = "u32 \<times> u32 \<times> u32 \<times> u32"

definition get_uint32_le :: "byte list \<Rightarrow> nat \<Rightarrow> u32" where
  "get_uint32_le b i = ucast (b ! i) OR push_bit 8 (ucast (b ! (i + 1)))
     OR push_bit 16 (ucast (b ! (i + 2))) OR push_bit 24 (ucast (b ! (i + 3)))"

definition put_uint32_le :: "u32 \<Rightarrow> byte list" where
  "put_uint32_le n = [ucast (n AND 0xFF), ucast (drop_bit 8 n AND 0xFF), ucast (drop_bit 16 n AND 0xFF),
     ucast (drop_bit 24 n AND 0xFF)]"

definition md5_F :: "nat \<Rightarrow> u32 \<Rightarrow> u32 \<Rightarrow> u32 \<Rightarrow> u32" where
  "md5_F t x y z =
     (if t < 16 then z XOR (x AND (y XOR z))
      else if t < 32 then y XOR (z AND (x XOR y))
      else if t < 48 then x XOR y XOR z
      else y XOR (x OR NOT z))"

text \<open>The arguments \<open>k\<close>, \<open>s\<close> and \<open>t\<close> of the 64 calls of the \<^verbatim>\<open>P\<close> macro.\<close>

definition md5_table :: "(nat \<times> nat \<times> u32) list" where
  "md5_table =
    [(0, 7, 0xD76AA478), (1, 12, 0xE8C7B756), (2, 17, 0x242070DB), (3, 22, 0xC1BDCEEE),
     (4, 7, 0xF57C0FAF), (5, 12, 0x4787C62A), (6, 17, 0xA8304613), (7, 22, 0xFD469501),
     (8, 7, 0x698098D8), (9, 12, 0x8B44F7AF), (10, 17, 0xFFFF5BB1), (11, 22, 0x895CD7BE),
     (12, 7, 0x6B901122), (13, 12, 0xFD987193), (14, 17, 0xA679438E), (15, 22, 0x49B40821),
     (1, 5, 0xF61E2562), (6, 9, 0xC040B340), (11, 14, 0x265E5A51), (0, 20, 0xE9B6C7AA),
     (5, 5, 0xD62F105D), (10, 9, 0x02441453), (15, 14, 0xD8A1E681), (4, 20, 0xE7D3FBC8),
     (9, 5, 0x21E1CDE6), (14, 9, 0xC33707D6), (3, 14, 0xF4D50D87), (8, 20, 0x455A14ED),
     (13, 5, 0xA9E3E905), (2, 9, 0xFCEFA3F8), (7, 14, 0x676F02D9), (12, 20, 0x8D2A4C8A),
     (5, 4, 0xFFFA3942), (8, 11, 0x8771F681), (11, 16, 0x6D9D6122), (14, 23, 0xFDE5380C),
     (1, 4, 0xA4BEEA44), (4, 11, 0x4BDECFA9), (7, 16, 0xF6BB4B60), (10, 23, 0xBEBFBC70),
     (13, 4, 0x289B7EC6), (0, 11, 0xEAA127FA), (3, 16, 0xD4EF3085), (6, 23, 0x04881D05),
     (9, 4, 0xD9D4D039), (12, 11, 0xE6DB99E5), (15, 16, 0x1FA27CF8), (2, 23, 0xC4AC5665),
     (0, 6, 0xF4292244), (7, 10, 0x432AFF97), (14, 15, 0xAB9423A7), (5, 21, 0xFC93A039),
     (12, 6, 0x655B59C3), (3, 10, 0x8F0CCC92), (10, 15, 0xFFEFF47D), (1, 21, 0x85845DD1),
     (8, 6, 0x6FA87E4F), (15, 10, 0xFE2CE6E0), (6, 15, 0xA3014314), (13, 21, 0x4E0811A1),
     (4, 6, 0xF7537E82), (11, 10, 0xBD3AF235), (2, 15, 0x2AD7D2BB), (9, 21, 0xEB86D391)]"

definition md5_P :: "nat \<Rightarrow> u32 list \<Rightarrow> nat \<times> nat \<times> u32 \<Rightarrow> md5_state \<Rightarrow> md5_state" where
  "md5_P r X p s = (case (p, s) of ((k, sh, t), (a, b, c, d)) \<Rightarrow>
     (d, rotl (a + (md5_F r b c d + X ! k + t)) sh + b, b, c))"

fun md5_rounds :: "nat \<Rightarrow> u32 list \<Rightarrow> (nat \<times> nat \<times> u32) list \<Rightarrow> md5_state \<Rightarrow> md5_state" where
  "md5_rounds r X [] s = s"
| "md5_rounds r X (p # ps) s = md5_rounds (r + 1) X ps (md5_P r X p s)"

definition utils_md5_process :: "md5_state \<Rightarrow> byte list \<Rightarrow> md5_state" where
  "utils_md5_process st data =
     (let X = map (\<lambda>i. get_uint32_le data (4 * i)) [0..<16]
      in case (st, md5_rounds 0 X md5_table st) of
           ((a, b, c, d), (a', b', c', d')) \<Rightarrow> (a + a', b + b', c + c', d + d'))"

definition utils_md5_starts :: "md5_state md_context" where
  "utils_md5_starts = \<lparr>total0 = 0, total1 = 0,
     md_state = (0x67452301, 0xEFCDAB89, 0x98BADCFE, 0x10325476), md_buffer = replicate 64 0\<rparr>"

definition utils_md5_update :: "md5_state md_context \<Rightarrow> byte list \<Rightarrow> md5_state md_context option" where
  "utils_md5_update = md_update utils_md5_process"

definition md5_output :: "md5_state \<Rightarrow> byte list" where
  "md5_output s = (case s of (a, b, c, d) \<Rightarrow>
     put_uint32_le a @ put_uint32_le b @ put_uint32_le c @ put_uint32_le d)"

definition md5_msglen :: "u32 \<Rightarrow> u32 \<Rightarrow> byte list" where
  "md5_msglen high low = put_uint32_le low @ put_uint32_le high"

definition utils_md5_finish :: "md5_state md_context \<Rightarrow> byte list option" where
  "utils_md5_finish ctx =
     map_option (\<lambda>c. md5_output (md_state c)) (md_finish utils_md5_process md5_msglen ctx)"

definition utils_md5 :: "byte list \<Rightarrow> byte list option" where
  "utils_md5 input = do {
     ctx \<leftarrow> utils_md5_update utils_md5_starts input;
     utils_md5_finish ctx }"

section \<open>Hexadecimal text and HMAC\<close>

definition utils_hb2hex :: "u8 \<Rightarrow> byte" where
  "utils_hb2hex hb = (let hb = hb AND 0xF in if hb < 10 then 48 + hb else hb - 10 + 97)"

definition hex_string :: "byte list \<Rightarrow> byte list" where
  "hex_string bs = concat (map (\<lambda>b. [utils_hb2hex (drop_bit 4 b), utils_hb2hex b]) bs)"

definition utils_md5_str :: "byte list \<Rightarrow> byte list option" where
  "utils_md5_str input = map_option (\<lambda>out. hex_string out @ [0]) (utils_md5 input)"

abbreviation KEY_IOPAD_SIZE :: nat where "KEY_IOPAD_SIZE \<equiv> 64"

definition key_pad :: "byte \<Rightarrow> byte list \<Rightarrow> byte list" where
  "key_pad x key = map (\<lambda>b. b XOR x) (key @ replicate (KEY_IOPAD_SIZE - length key) 0)"

text \<open>The three HMAC functions with non-null arguments. The outer \<^const>\<open>None\<close> is a fault, an inner
  \<^const>\<open>None\<close> the early return that leaves \<open>digest\<close> as it was.\<close>

definition hmac_sha1_raw :: "byte list \<Rightarrow> byte list \<Rightarrow> byte list option" where
  "hmac_sha1_raw msg key = do {
     ctx \<leftarrow> utils_sha1_update utils_sha1_starts (key_pad 0x36 key);
     ctx \<leftarrow> utils_sha1_update ctx msg;
     out \<leftarrow> utils_sha1_finish ctx;
     ctx \<leftarrow> utils_sha1_update utils_sha1_starts (key_pad 0x5c key);
     ctx \<leftarrow> utils_sha1_update ctx out;
     utils_sha1_finish ctx }"

definition utils_hmac_sha1 :: "byte list \<Rightarrow> byte list \<Rightarrow> byte list option option" where
  "utils_hmac_sha1 msg key =
     (if length key > KEY_IOPAD_SIZE then Some None
      else do { out \<leftarrow> hmac_sha1_raw msg key; Some (Some (hex_string out)) })"

definition utils_hmac_sha1_hex :: "byte list \<Rightarrow> byte list \<Rightarrow> (nat \<times> byte list option) option" where
  "utils_hmac_sha1_hex msg key =
     (if length key > KEY_IOPAD_SIZE then Some (0, None)
      else do { out \<leftarrow> hmac_sha1_raw msg key; Some (20, Some out) })"

definition utils_hmac_md5 :: "byte list \<Rightarrow> byte list \<Rightarrow> byte list option option" where
  "utils_hmac_md5 msg key =
     (if length key > KEY_IOPAD_SIZE then Some None
      else do {
        ctx \<leftarrow> utils_md5_update utils_md5_starts (key_pad 0x36 key);
        ctx \<leftarrow> utils_md5_update ctx msg;
        out \<leftarrow> utils_md5_finish ctx;
        ctx \<leftarrow> utils_md5_update utils_md5_starts (key_pad 0x5c key);
        ctx \<leftarrow> utils_md5_update ctx out;
        out \<leftarrow> utils_md5_finish ctx;
        Some (Some (hex_string out)) })"

section \<open>Streaming computes the padded hash\<close>

lemma md_blocks_short: "length m < 64 \<Longrightarrow> md_blocks f st m = (st, m)"
  by (subst md_blocks.simps) simp

lemma md_blocks_one: "length b = 64 \<Longrightarrow> md_blocks f st (b @ m) = md_blocks f (f st b) m"
  by (subst md_blocks.simps) simp

lemma md_blocks_append:
  "length a = 64 * k \<Longrightarrow> md_blocks f st (a @ b) = md_blocks f (fst (md_blocks f st a)) b"
proof (induction k arbitrary: a st)
  case 0
  then show ?case by (simp add: md_blocks_short)
next
  case (Suc k)
  let ?h = "take 64 a" and ?t = "drop 64 a"
  have h: "length ?h = 64" "length ?t = 64 * k" using Suc.prems by simp_all
  have "md_blocks f st (a @ b) = md_blocks f (f st ?h) (?t @ b)"
    using md_blocks_one [OF h(1), of f st "?t @ b"] unfolding append_assoc [symmetric] append_take_drop_id .
  moreover have "md_blocks f st a = md_blocks f (f st ?h) ?t"
    using md_blocks_one [OF h(1), of f st ?t] by simp
  ultimately show ?case using Suc.IH [OF h(2)] by simp
qed

lemma md_blocks_snd: "snd (md_blocks f st m) = drop (64 * (length m div 64)) m"
proof -
  let ?a = "take (64 * (length m div 64)) m" and ?b = "drop (64 * (length m div 64)) m"
  have a: "length ?a = 64 * (length m div 64)" by simp
  have "length ?b < 64" using mod_less_divisor [of 64 "length m"] by (simp add: minus_mult_div_eq_mod)
  then show ?thesis
    using md_blocks_append [OF a, of f st ?b] by (simp add: md_blocks_short)
qed

lemma length_md_rest: "length (snd (md_blocks f st m)) = length m mod 64"
  by (simp add: md_blocks_snd minus_mult_div_eq_mod)

lemma unat_low6_of_nat: "unat (of_nat n AND 0x3F :: u32) = n mod 64"
proof -
  have "(of_nat n :: u32) AND 63 = take_bit 6 (of_nat n)" by (simp add: take_bit_eq_mask mask_eq_exp_minus_1)
  then have "unat ((of_nat n :: u32) AND 63) = take_bit 6 (unat (of_nat n :: u32))"
    by (simp only: unsigned_take_bit_eq)
  also have "\<dots> = n mod 2 ^ 32 mod 64" by (simp add: take_bit_eq_mod unat_of_nat)
  also have "\<dots> = n mod 64" by (rule mod_mod_cancel) simp
  finally show ?thesis .
qed

lemma carry_nat:
  assumes "i < (M :: nat)"
  shows "(n + i) div M = (if (n + i) mod M < i then n div M + 1 else n div M)"
proof -
  define q r where "q = n div M" and "r = n mod M"
  have n: "n = q * M + r" and r: "r < M" using assms by (simp_all add: q_def r_def)
  show ?thesis
  proof (cases "r + i < M")
    case True
    have "(n + i) div M = q" "(n + i) mod M = r + i"
      using True by (simp_all add: n add.assoc)
    then show ?thesis by (simp add: q_def)
  next
    case False
    have e: "n + i = (q + 1) * M + (r + i - M)" using False by (simp add: n algebra_simps)
    have lt: "r + i - M < M" using r assms by linarith
    have "(n + i) div M = q + 1" "(n + i) mod M = r + i - M"
      unfolding e using lt by (simp_all only: div_mult_self3 mod_mult_self3) simp_all
    moreover have "r + i - M < i" using r False by linarith
    ultimately show ?thesis by (simp add: q_def)
  qed
qed

lemma carry_u32:
  assumes "i < 2 ^ 32"
  shows "(if (of_nat n + of_nat i :: u32) < of_nat i then of_nat (n div 2 ^ 32) + 1 else of_nat (n div 2 ^ 32))
    = (of_nat ((n + i) div 2 ^ 32) :: u32)"
proof -
  have u: "unat (of_nat n + of_nat i :: u32) = (n + i) mod 2 ^ 32"
    using unat_of_nat [of "n + i", where 'a = 32] by simp
  have ui: "unat (of_nat i :: u32) = i" using assms by (intro unat_of_nat_u32) simp
  have lt: "(of_nat n + of_nat i :: u32) < of_nat i \<longleftrightarrow> (n + i) mod 2 ^ 32 < i"
    unfolding word_less_nat_alt u ui ..
  show ?thesis unfolding lt carry_nat [OF assms] by simp
qed

text \<open>The bit length, from the two halves of the byte count.\<close>

lemma bit_length_halves:
  "push_bit 3 (of_nat n) = (of_nat (8 * n) :: u32)"
  "drop_bit 29 (of_nat n) OR push_bit 3 (of_nat (n div 2 ^ 32)) = (of_nat (8 * n div 2 ^ 32) :: u32)"
proof -
  show "push_bit 3 (of_nat n) = (of_nat (8 * n) :: u32)" by (simp add: push_bit_eq_mult mult.commute)
  let ?r = "n mod 2 ^ 32" and ?q = "n div 2 ^ 32"
  have d: "drop_bit 29 (of_nat n :: u32) = of_nat (?r div 2 ^ 29)"
  proof -
    have "unat (drop_bit 29 (of_nat n :: u32)) = drop_bit 29 (take_bit 32 (unat (of_nat n :: u32)))"
      by (simp add: unsigned_drop_bit_eq)
    then have "unat (drop_bit 29 (of_nat n :: u32)) = ?r div 2 ^ 29"
      by (simp add: drop_bit_eq_div unat_of_nat take_bit_eq_mod)
    moreover have "unat (of_nat (?r div 2 ^ 29) :: u32) = ?r div 2 ^ 29"
      by (intro unat_of_nat_u32) simp
    ultimately show ?thesis by (simp only: word_unat_eq_iff)
  qed
  have disj: "drop_bit 29 (of_nat n) AND push_bit 3 (of_nat ?q :: u32) = 0"
    by (rule bit_word_eqI) (auto simp: bit_simps)
  have "n = 2 ^ 32 * ?q + ?r" by simp
  then have "8 * n = 2 ^ 32 * (8 * ?q) + 8 * ?r" by linarith
  then have "8 * n div 2 ^ 32 = 8 * ?q + 8 * ?r div 2 ^ 32"
    by (metis div_mult_self2 mult.commute add.commute zero_neq_numeral power_not_zero)
  also have "8 * ?r div 2 ^ 32 = ?r div 2 ^ 29" by simp
  finally have "8 * n div 2 ^ 32 = 8 * ?q + ?r div 2 ^ 29" .
  then show "drop_bit 29 (of_nat n) OR push_bit 3 (of_nat ?q) = (of_nat (8 * n div 2 ^ 32) :: u32)"
    using disjunctive_add_eq_or [OF disj] d by (simp add: push_bit_eq_mult mult.commute add.commute)
qed

text \<open>The specification: pad to whole blocks, run the block function over them. A message may be fed
  in pieces.\<close>

definition md_pad :: "(u32 \<Rightarrow> u32 \<Rightarrow> byte list) \<Rightarrow> byte list \<Rightarrow> byte list" where
  "md_pad msglen m =
     (let n = length m; z = (if n mod 64 < 56 then 55 - n mod 64 else 119 - n mod 64)
      in m @ 0x80 # replicate z 0 @ msglen (of_nat (8 * n div 2 ^ 32)) (of_nat (8 * n)))"

definition md_hash :: "('st \<Rightarrow> byte list \<Rightarrow> 'st) \<Rightarrow> (u32 \<Rightarrow> u32 \<Rightarrow> byte list) \<Rightarrow> 'st \<Rightarrow> byte list \<Rightarrow> 'st" where
  "md_hash process msglen st m = fst (md_blocks process st (md_pad msglen m))"

fun md_feed :: "('st \<Rightarrow> byte list \<Rightarrow> 'st) \<Rightarrow> 'st md_context \<Rightarrow> byte list list \<Rightarrow> 'st md_context option" where
  "md_feed process ctx [] = Some ctx"
| "md_feed process ctx (x # xs) = md_update process ctx x \<bind> (\<lambda>ctx. md_feed process ctx xs)"

text \<open>The engine a digest is made of; its laws are the size of the encoded length.\<close>

locale md_engine =
  fixes process :: "'st \<Rightarrow> byte list \<Rightarrow> 'st"
    and msglen :: "u32 \<Rightarrow> u32 \<Rightarrow> byte list"
    and start :: "'st md_context"
  assumes msglen_length: "length (msglen h l) = 8"
    and start_fresh: "total0 start = 0" "total1 start = 0" "length (md_buffer start) = 64"
begin

definition holds :: "'st md_context \<Rightarrow> byte list \<Rightarrow> bool" where
  "holds ctx m \<longleftrightarrow> total0 ctx = of_nat (length m) \<and> total1 ctx = of_nat (length m div 2 ^ 32) \<and>
     length (md_buffer ctx) = 64 \<and> md_state ctx = fst (md_blocks process (md_state start) m) \<and>
     take (length m mod 64) (md_buffer ctx) = snd (md_blocks process (md_state start) m)"

lemma holds_start: "holds start []"
  using start_fresh by (simp add: holds_def md_blocks_short)

lemma blocks_split:
  obtains a r where "m = a @ r" "length r = length m mod 64" "length r < 64"
    "md_blocks process (md_state start) m = (fst (md_blocks process (md_state start) a), r)"
    "\<And>x. md_blocks process (md_state start) (m @ x) = md_blocks process (fst (md_blocks process (md_state start) a)) (r @ x)"
proof -
  let ?a = "take (64 * (length m div 64)) m" and ?r = "drop (64 * (length m div 64)) m"
  have a: "length ?a = 64 * (length m div 64)" by simp
  have r: "length ?r = length m mod 64" by (simp add: minus_mult_div_eq_mod)
  have app: "md_blocks process (md_state start) (m @ x) =
      md_blocks process (fst (md_blocks process (md_state start) ?a)) (?r @ x)" for x
    using md_blocks_append [OF a, of process "md_state start" "?r @ x"]
    unfolding append_assoc [symmetric] append_take_drop_id .
  have "md_blocks process (md_state start) m = (fst (md_blocks process (md_state start) ?a), ?r)"
    using app [of "[]"] r by (simp add: md_blocks_short)
  with r app show thesis by (intro that [of ?a ?r]) simp_all
qed

lemma update_holds:
  assumes h: "holds ctx m" and len: "length x < 2 ^ 32"
  shows "\<exists>ctx'. md_update process ctx x = Some ctx' \<and> holds ctx' (m @ x)"
proof (cases "x = []")
  case True
  then show ?thesis using h by (simp add: md_update_def)
next
  case False
  obtain a r where m: "length r = length m mod 64" "length r < 64"
    and blk: "md_blocks process (md_state start) m = (fst (md_blocks process (md_state start) a), r)"
    and app: "md_blocks process (md_state start) (m @ x) =
        md_blocks process (fst (md_blocks process (md_state start) a)) (r @ x)"
    using blocks_split [of m] by metis
  define st where "st = fst (md_blocks process (md_state start) a)"
  have ctx: "total0 ctx = of_nat (length m)" "total1 ctx = of_nat (length m div 2 ^ 32)"
    "length (md_buffer ctx) = 64" "md_state ctx = st" "take (length r) (md_buffer ctx) = r"
    using h blk m unfolding holds_def st_def by simp_all
  have left: "unat (total0 ctx AND 0x3F) = length r" using ctx(1) m(1) by (simp only: unat_low6_of_nat)
  let ?t0 = "total0 ctx + of_nat (length x)"
  let ?t1 = "if ?t0 < of_nat (length x) then total1 ctx + 1 else total1 ctx"
  let ?c = "ctx\<lparr>total0 := ?t0, total1 := ?t1\<rparr>"
  have t0: "?t0 = of_nat (length (m @ x))" using ctx(1) by simp
  have t1: "?t1 = of_nat (length (m @ x) div 2 ^ 32)"
    unfolding ctx(1,2) length_append by (rule carry_u32 [OF len])
  note tot = t0 t1
  show ?thesis
  proof (cases "length r \<noteq> 0 \<and> length x \<ge> 64 - length r")
    case True
    let ?f = "64 - length r"
    let ?b = "r @ take ?f x" and ?y = "drop ?f x"
    have w: "wr_bytes (md_buffer ctx) (length r) (take ?f x) = Some ?b"
      using ctx(3,5) True m(2) by (simp add: wr_bytes_def)
    obtain st' rest where blocks: "md_blocks process (process st ?b) ?y = (st', rest)" by fastforce
    have rest: "length rest < 64"
      using length_md_rest [of process "process st ?b" ?y] blocks mod_less_divisor [of 64 "length ?y"] by simp
    have lenb: "length ?b = 64" using True m(2) by simp
    then have all: "md_blocks process (md_state start) (m @ x) = (st', rest)"
      using md_blocks_one [OF lenb, of process st ?y] blocks app unfolding st_def by simp
    have rl: "length (m @ x) mod 64 = length rest"
      using length_md_rest [of process "md_state start" "m @ x"] all by simp
    have u: "md_update process ctx x =
        (if length rest > 0 then wr_bytes ?b 0 rest \<bind> (\<lambda>b. Some (?c\<lparr>md_buffer := ?b, md_state := st', md_buffer := b\<rparr>))
         else Some (?c\<lparr>md_buffer := ?b, md_state := st'\<rparr>))"
      using False True w left blocks ctx(4) unfolding md_update_def Let_def by simp
    have "wr_bytes ?b 0 rest = Some (rest @ drop (length rest) ?b)"
      using rest lenb by (simp add: wr_bytes_def)
    then show ?thesis
      unfolding u holds_def using tot all rl lenb rest by (cases "length rest \<le> length r") auto
  next
    case nofill: False
    obtain st' rest where blocks: "md_blocks process st x = (st', rest)" by fastforce
    show ?thesis
    proof (cases "length r = 0")
      case True
      have all: "md_blocks process (md_state start) (m @ x) = (st', rest)"
        using True app blocks unfolding st_def by simp
      have rl: "length (m @ x) mod 64 = length rest" "length rest < 64"
        using length_md_rest [of process "md_state start" "m @ x"] all mod_less_divisor [of 64 "length (m @ x)"]
        by simp_all
      have u: "md_update process ctx x =
          (if length rest > 0 then wr_bytes (md_buffer ctx) 0 rest \<bind> (\<lambda>b. Some (?c\<lparr>md_state := st', md_buffer := b\<rparr>))
           else Some (?c\<lparr>md_state := st'\<rparr>))"
        using False True left blocks ctx(4) unfolding md_update_def Let_def by simp
      have "wr_bytes (md_buffer ctx) 0 rest = Some (rest @ drop (length rest) (md_buffer ctx))"
        using rl(2) ctx(3) by (simp add: wr_bytes_def)
      then show ?thesis unfolding u holds_def using tot all rl ctx(3) by simp
    next
      case short: False
      then have lt: "length r + length x < 64" using nofill m(2) by linarith
      then have b: "md_blocks process st x = (st, x)" by (intro md_blocks_short) simp
      have nfill: "\<not> 64 - length r \<le> length x" using lt by linarith
      have all: "md_blocks process (md_state start) (m @ x) = (st, r @ x)"
        using app md_blocks_short [of "r @ x" process st] lt unfolding st_def by simp
      have rl: "length (m @ x) mod 64 = length r + length x"
        using length_md_rest [of process "md_state start" "m @ x"] all by simp
      have w: "wr_bytes (md_buffer ctx) (length r) x = Some (r @ x @ drop (length r + length x) (md_buffer ctx))"
        using lt ctx(3,5) by (simp add: wr_bytes_def)
      have u: "md_update process ctx x =
          wr_bytes (md_buffer ctx) (length r) x \<bind> (\<lambda>b. Some (?c\<lparr>md_state := st, md_buffer := b\<rparr>))"
        using False nfill left b ctx(4) unfolding md_update_def Let_def by (simp add: short)
      show ?thesis unfolding u w holds_def using tot all rl ctx(3) lt by simp
    qed
  qed
qed

lemma finish_hashed:
  assumes h: "holds ctx m"
  shows "\<exists>ctx'. md_finish process msglen ctx = Some ctx' \<and> md_state ctx' = md_hash process msglen (md_state start) m"
proof -
  let ?n = "length m"
  let ?l = "?n mod 64"
  let ?padn = "if ?l < 56 then 56 - ?l else 120 - ?l"
  let ?z = "if ?l < 56 then 55 - ?l else 119 - ?l"
  let ?ml = "msglen (of_nat (8 * ?n div 2 ^ 32)) (of_nat (8 * ?n))"
  have tot: "total0 ctx = of_nat ?n" "total1 ctx = of_nat (?n div 2 ^ 32)" using h by (simp_all add: holds_def)
  have l: "unat (total0 ctx AND 0x3F) = ?l" unfolding tot by (rule unat_low6_of_nat)
  have "?l < 64" by simp
  then have padn: "?padn = Suc ?z" "?z \<le> 63" by (auto split: if_splits)
  then have pad: "take ?padn md_padding = 0x80 # replicate ?z 0"
    unfolding padn(1) md_padding_def by (simp add: min_def)
  obtain c1 where c1: "md_update process ctx (0x80 # replicate ?z 0) = Some c1" "holds c1 (m @ 0x80 # replicate ?z 0)"
    using update_holds [OF h, of "0x80 # replicate ?z 0"] padn(2) by auto
  obtain c2 where c2: "md_update process c1 ?ml = Some c2" "holds c2 ((m @ 0x80 # replicate ?z 0) @ ?ml)"
    using update_holds [OF c1(2), of ?ml] msglen_length by auto
  have "md_finish process msglen ctx = Some c2"
    unfolding md_finish_def Let_def l pad unfolding tot unfolding bit_length_halves(2)
    unfolding bit_length_halves(1) c1(1) using c2(1) by simp
  moreover have "md_state c2 = md_hash process msglen (md_state start) m"
    using c2(2) by (simp add: holds_def md_hash_def md_pad_def Let_def)
  ultimately show ?thesis by blast
qed

lemma padded_blocks: "64 dvd length (md_pad msglen m)"
proof -
  let ?n = "length m"
  have "length (md_pad msglen m) = (if ?n mod 64 < 56 then ?n - ?n mod 64 + 64 else ?n - ?n mod 64 + 128)"
    using mod_less_divisor [of 64 ?n] mod_less_eq_dividend [of ?n 64]
    by (simp add: md_pad_def Let_def msglen_length)
  then show ?thesis by (simp add: minus_mod_eq_mult_div)
qed

lemma feed_holds:
  "holds ctx m \<Longrightarrow> (\<And>x. x \<in> set xs \<Longrightarrow> length x < 2 ^ 32) \<Longrightarrow>
     \<exists>ctx'. md_feed process ctx xs = Some ctx' \<and> holds ctx' (m @ concat xs)"
proof (induction xs arbitrary: ctx m)
  case Nil
  then show ?case by simp
next
  case (Cons x xs)
  then obtain c1 where c1: "md_update process ctx x = Some c1" "holds c1 (m @ x)"
    using update_holds [of ctx m x] by auto
  then show ?case using Cons.IH [OF c1(2)] Cons.prems(2) by auto
qed

lemma feed_finish:
  assumes "\<And>x. x \<in> set xs \<Longrightarrow> length x < 2 ^ 32"
  shows "\<exists>ctx'. md_feed process start xs \<bind> md_finish process msglen = Some ctx' \<and> md_state ctx' = md_hash process msglen (md_state start) (concat xs)"
  using feed_holds [OF holds_start assms] finish_hashed by fastforce

end

interpretation sha1: md_engine utils_sha1_process sha1_msglen utils_sha1_starts
  by unfold_locales (simp_all add: sha1_msglen_def put_uint32_be_def utils_sha1_starts_def)

interpretation md5: md_engine utils_md5_process md5_msglen utils_md5_starts
  by unfold_locales (simp_all add: md5_msglen_def put_uint32_le_def utils_md5_starts_def)

subsection \<open>Digests of a message in two pieces\<close>

definition sha1_digest :: "byte list \<Rightarrow> byte list" where
  "sha1_digest m = sha1_output (md_hash utils_sha1_process sha1_msglen (md_state utils_sha1_starts) m)"

definition md5_digest :: "byte list \<Rightarrow> byte list" where
  "md5_digest m = md5_output (md_hash utils_md5_process md5_msglen (md_state utils_md5_starts) m)"

lemma digest_lengths: "length (sha1_digest m) = 20" "length (md5_digest m) = 16"
  by (simp_all add: sha1_digest_def sha1_output_def put_uint32_be_def md5_digest_def md5_output_def
      put_uint32_le_def split: prod.splits)

lemma key_pad_length: "length key \<le> 64 \<Longrightarrow> length (key_pad b key) = 64"
  by (simp add: key_pad_def)

lemma sha1_two:
  assumes "length a < 2 ^ 32" "length b < 2 ^ 32"
  shows "utils_sha1_update utils_sha1_starts a \<bind> (\<lambda>c. utils_sha1_update c b \<bind> utils_sha1_finish) = Some (sha1_digest (a @ b))"
proof -
  have "\<And>x. x \<in> set [a, b] \<Longrightarrow> length x < 2 ^ 32" using assms by auto
  from sha1.feed_finish [of "[a, b]", OF this] show ?thesis
    by (auto simp: utils_sha1_update_def utils_sha1_finish_def sha1_digest_def bind_eq_Some_conv
      split: bind_splits)
qed

lemma md5_two:
  assumes "length a < 2 ^ 32" "length b < 2 ^ 32"
  shows "utils_md5_update utils_md5_starts a \<bind> (\<lambda>c. utils_md5_update c b \<bind> utils_md5_finish) = Some (md5_digest (a @ b))"
proof -
  have "\<And>x. x \<in> set [a, b] \<Longrightarrow> length x < 2 ^ 32" using assms by auto
  from md5.feed_finish [of "[a, b]", OF this] show ?thesis
    by (auto simp: utils_md5_update_def utils_md5_finish_def md5_digest_def bind_eq_Some_conv
      split: bind_splits)
qed

lemma two_bind:
  fixes f :: "'c \<Rightarrow> 'd option"
  assumes "x \<bind> (\<lambda>c. f c \<bind> g) = Some r"
  shows "x \<bind> (\<lambda>c. f c \<bind> (\<lambda>c. g c \<bind> k)) = k r"
  using assms by (auto simp: bind_eq_Some_conv)

lemmas sha1_two_bind = two_bind [OF sha1_two]
lemmas md5_two_bind = two_bind [OF md5_two]

section \<open>The block function of SHA-1\<close>

text \<open>The schedule of the standard: 80 words, each from four earlier ones.\<close>

fun sha1_schedule :: "byte list \<Rightarrow> nat \<Rightarrow> u32" where
  "sha1_schedule data t =
     (if t < 16 then get_uint32_be data (4 * t)
      else rotl (sha1_schedule data (t - 3) XOR sha1_schedule data (t - 8) XOR
                 sha1_schedule data (t - 14) XOR sha1_schedule data (t - 16)) 1)"

declare sha1_schedule.simps [simp del]

definition sha1_compress :: "sha1_state \<Rightarrow> byte list \<Rightarrow> sha1_state" where
  "sha1_compress st data =
     sha1_add st (fold (\<lambda>t s. sha1_P t (sha1_schedule data t) s) [0..<80] st)"

definition window :: "byte list \<Rightarrow> nat \<Rightarrow> u32 list \<Rightarrow> bool" where
  "window data t W \<longleftrightarrow> length W = 16 \<and>
     (\<forall>u. (if t < 16 then u < 16 else t - 16 \<le> u \<and> u < t) \<longrightarrow> W ! (u mod 16) = sha1_schedule data u)"

lemma window_next:
  assumes w: "window data t W" and t: "16 \<le> t"
  shows "fst (sha1_R t W) = sha1_schedule data t" "window data (t + 1) (snd (sha1_R t W))"
proof -
  have mod16: "(t - 16) mod 16 = t mod 16" using t by (metis le_add_diff_inverse2 mod_add_self2)
  have at: "W ! (u mod 16) = sha1_schedule data u" if "t - 16 \<le> u" "u < t" for u
    using w t that by (simp add: window_def)
  have "W ! (t mod 16) = sha1_schedule data (t - 16)" using at [of "t - 16"] t mod16 by simp
  then have x: "fst (sha1_R t W) = sha1_schedule data t"
    using t at [of "t - 3"] at [of "t - 8"] at [of "t - 14"]
    by (subst sha1_schedule.simps) (simp add: sha1_R_def Let_def)
  then show "fst (sha1_R t W) = sha1_schedule data t" .
  have W: "length W = 16" using w by (simp add: window_def)
  have "snd (sha1_R t W) ! (u mod 16) = sha1_schedule data u" if u: "t + 1 - 16 \<le> u" "u < t + 1" for u
  proof (cases "u = t")
    case True
    then show ?thesis using x W by (simp add: sha1_R_def Let_def)
  next
    case False
    then have lt: "u < t" "t - u < 16" using u t by auto
    then have "u mod 16 \<noteq> t mod 16" by (metis mod_eq_dvd_iff_nat less_imp_le nat_dvd_not_less zero_less_diff)
    then show ?thesis using at [of u] lt u by (simp add: sha1_R_def Let_def)
  qed
  then show "window data (t + 1) (snd (sha1_R t W))" using t W by (simp add: window_def sha1_R_def Let_def)
qed

lemma sha1_rounds_fold:
  assumes "window data t W" "t \<le> 80"
  shows "sha1_rounds t W s = fold (\<lambda>t s. sha1_P t (sha1_schedule data t) s) [t..<80] s"
  using assms
proof (induction t W s rule: sha1_rounds.induct)
  case (1 t W s)
  show ?case
  proof (cases "t \<ge> 80")
    case True
    with "1.prems" show ?thesis by (subst sha1_rounds.simps) simp
  next
    case False
    have up: "[t..<80] = t # [t + 1..<80]" using False by (simp add: upt_conv_Cons)
    show ?thesis
    proof (cases "t < 16")
      case True
      have x: "W ! t = sha1_schedule data t"
        using "1.prems"(1) True unfolding window_def by (metis mod_less)
      have w: "window data (t + 1) W" using "1.prems"(1) True by (auto simp: window_def)
      have "sha1_rounds t W s = sha1_rounds (t + 1) W (sha1_P t (W ! t) s)"
        using False True by (subst sha1_rounds.simps) simp
      then show ?thesis using "1.IH" [OF False, of "(W ! t, W)" "W ! t" W] True w x False up by simp
    next
      case ge: False
      obtain x W' where r: "sha1_R t W = (x, W')" by fastforce
      have x: "x = sha1_schedule data t" "window data (t + 1) W'"
        using window_next [OF "1.prems"(1)] ge r by simp_all
      have "sha1_rounds t W s = sha1_rounds (t + 1) W' (sha1_P t x s)"
        using False ge r by (subst sha1_rounds.simps) simp
      then show ?thesis using "1.IH" [OF False, of "(x, W')" x W'] ge r x False up by simp
    qed
  qed
qed

section \<open>Properties\<close>

text \<open>C37. The SHA-1 block function, which keeps only sixteen schedule words and overwrites them in
  place, computes the 80-word message schedule and the 80 rounds of the standard.\<close>

theorem sha1_process_standard: "utils_sha1_process st data = sha1_compress st data"
proof -
  have "window data 0 (map (\<lambda>i. get_uint32_be data (4 * i)) [0..<16])"
    by (auto simp: window_def sha1_schedule.simps [of data])
  from sha1_rounds_fold [OF this] show ?thesis
    by (simp add: utils_sha1_process_def sha1_compress_def Let_def)
qed



text \<open>C39. \<open>utils_hmac_sha1\<close> and \<open>utils_hmac_md5\<close> compute the HMAC construction of RFC 2104 in lower-case
  hexadecimal, for every key of at most 64 bytes. A longer key, which the RFC would hash first, is
  refused: the digest buffer is left untouched.\<close>

theorem hmac_rfc2104:
  assumes "length msg < 2 ^ 32"
  shows "utils_hmac_sha1 msg key =
       (if length key \<le> 64
        then Some (Some (hex_string (sha1_digest (key_pad 0x5c key @ sha1_digest (key_pad 0x36 key @ msg)))))
        else Some None) \<and>
     utils_hmac_md5 msg key =
       (if length key \<le> 64
        then Some (Some (hex_string (md5_digest (key_pad 0x5c key @ md5_digest (key_pad 0x36 key @ msg)))))
        else Some None) \<and>
     utils_hmac_sha1_hex msg key =
       (if length key \<le> 64
        then Some (20, Some (sha1_digest (key_pad 0x5c key @ sha1_digest (key_pad 0x36 key @ msg))))
        else Some (0, None))"
proof (cases "length key \<le> 64")
  case True
  then have pad: "length (key_pad b key) < 2 ^ 32" for b by (simp add: key_pad_length)
  have "length (sha1_digest m) < 2 ^ 32" "length (md5_digest m) < 2 ^ 32" for m
    by (simp_all add: digest_lengths)
  then show ?thesis
    using True assms pad sha1_two [OF pad assms] sha1_two [OF pad] md5_two [OF pad assms] md5_two [OF pad]
    by (simp add: utils_hmac_sha1_def utils_hmac_sha1_hex_def hmac_sha1_raw_def utils_hmac_md5_def
        sha1_two_bind md5_two_bind del: power.simps)
qed (simp add: utils_hmac_sha1_def utils_hmac_sha1_hex_def utils_hmac_md5_def)

theorem hmac_rfc2104_witness:
  "utils_hmac_sha1 (cstr ''device'') (cstr ''key'') =
     Some (Some (hex_string (sha1_digest (key_pad 0x5c (cstr ''key'') @ sha1_digest (key_pad 0x36 (cstr ''key'') @ cstr ''device'')))))"
  using hmac_rfc2104 [of "cstr ''device''" "cstr ''key''"] by (simp add: cstr_def)

end
