(* ===== verification/Utils_Base64.thy ===== *)
theory Utils_Base64
  imports Iot_Prelude
begin

text \<open>
  The base64 codec of \<^verbatim>\<open>sdk_src/utils/utils_base64.c\<close>.

  Both functions return \<open>(rc, olen, dst)\<close>: the return code, the output length they store and the
  destination buffer (untouched on an error); a decoding error in the
  text leaves \<open>olen\<close> unwritten, \<^const>\<open>None\<close> here. \<open>dst\<close> is an optional buffer (null pointer) of
  which \<open>dlen\<close> bytes may be used. The \<open>int\<close> and \<open>uint32_t\<close> temporaries are 32-bit words.
\<close>

definition base64_enc_map :: "byte list" where
  "base64_enc_map = cstr ''ABCDEFGHIJKLMNOPQRSTUVWXYZabcdefghijklmnopqrstuvwxyz0123456789+/''"

definition base64_dec_map :: "byte list" where
  "base64_dec_map =
    [127, 127, 127, 127, 127, 127, 127, 127, 127, 127, 127, 127, 127, 127, 127, 127, 127, 127, 127, 127, 127, 127,
     127, 127, 127, 127, 127, 127, 127, 127, 127, 127, 127, 127, 127, 127, 127, 127, 127, 127, 127, 127, 127, 62,
     127, 127, 127, 63,  52,  53,  54,  55,  56,  57,  58,  59,  60,  61,  127, 127, 127, 64,  127, 127, 127, 0,
     1,   2,   3,   4,   5,   6,   7,   8,   9,   10,  11,  12,  13,  14,  15,  16,  17,  18,  19,  20,  21,  22,
     23,  24,  25,  127, 127, 127, 127, 127, 127, 26,  27,  28,  29,  30,  31,  32,  33,  34,  35,  36,  37,  38,
     39,  40,  41,  42,  43,  44,  45,  46,  47,  48,  49,  50,  51,  127, 127, 127, 127, 127]"

abbreviation BASE64_SIZE_T_MAX :: nat where "BASE64_SIZE_T_MAX \<equiv> 2 ^ 64 - 1"
abbreviation PAD :: byte where "PAD \<equiv> 61"

subsection \<open>Encoding\<close>

definition enc_char :: "u32 \<Rightarrow> byte option" where
  "enc_char idx = rd base64_enc_map (unat (idx AND 0x3F))"

function encode_loop :: "byte list \<Rightarrow> nat \<Rightarrow> byte list \<Rightarrow> nat \<Rightarrow> nat \<Rightarrow> (byte list \<times> nat \<times> nat) option" where
  "encode_loop dst p src i n =
     (if i < n
      then do {
        c1 \<leftarrow> rd src i;
        c2 \<leftarrow> rd src (i + 1);
        c3 \<leftarrow> rd src (i + 2);
        let C1 = (ucast c1 :: u32);
        let C2 = (ucast c2 :: u32);
        let C3 = (ucast c3 :: u32);
        e \<leftarrow> enc_char (drop_bit 2 C1);
        (dst, p) \<leftarrow> emit dst p e;
        e \<leftarrow> enc_char (push_bit 4 (C1 AND 3) + drop_bit 4 C2);
        (dst, p) \<leftarrow> emit dst p e;
        e \<leftarrow> enc_char (push_bit 2 (C2 AND 15) + drop_bit 6 C3);
        (dst, p) \<leftarrow> emit dst p e;
        e \<leftarrow> enc_char C3;
        (dst, p) \<leftarrow> emit dst p e;
        encode_loop dst p src (i + 3) n }
      else Some (dst, p, i))"
  by pat_completeness auto
termination
  by (relation "measure (\<lambda>(dst, p, src, i, n). n - i)") auto

declare encode_loop.simps [simp del]

definition encode_rest :: "byte list \<Rightarrow> nat \<Rightarrow> byte list \<Rightarrow> nat \<Rightarrow> nat \<Rightarrow> (byte list \<times> nat) option" where
  "encode_rest dst p src i slen =
     (if i < slen
      then do {
        c1 \<leftarrow> rd src i;
        c2 \<leftarrow> (if i + 1 < slen then rd src (i + 1) else Some 0);
        let C1 = (ucast c1 :: u32);
        let C2 = (ucast c2 :: u32);
        e \<leftarrow> enc_char (drop_bit 2 C1);
        (dst, p) \<leftarrow> emit dst p e;
        e \<leftarrow> enc_char (push_bit 4 (C1 AND 3) + drop_bit 4 C2);
        (dst, p) \<leftarrow> emit dst p e;
        (dst, p) \<leftarrow> (if i + 1 < slen
                     then do { e \<leftarrow> enc_char (push_bit 2 (C2 AND 15)); emit dst p e }
                     else emit dst p PAD);
        emit dst p PAD }
      else Some (dst, p))"

definition qcloud_iot_utils_base64encode ::
  "byte list option \<Rightarrow> nat \<Rightarrow> byte list \<Rightarrow> nat \<Rightarrow> (int \<times> nat \<times> byte list option) option" where
  "qcloud_iot_utils_base64encode dst dlen src slen =
     (if slen = 0 then Some (0, 0, dst)
      else let n = slen div 3 + (if slen mod 3 \<noteq> 0 then 1 else 0)
           in if n > (BASE64_SIZE_T_MAX - 1) div 4 then Some (QCLOUD_ERR_FAILURE, BASE64_SIZE_T_MAX, dst)
              else let n = n * 4
                   in (case dst of
                         None \<Rightarrow> Some (QCLOUD_ERR_FAILURE, n + 1, None)
                       | Some d \<Rightarrow>
                           if dlen < n + 1 then Some (QCLOUD_ERR_FAILURE, n + 1, dst)
                           else do {
                             (d, p, i) \<leftarrow> encode_loop d 0 src 0 ((slen div 3) * 3);
                             (d, p) \<leftarrow> encode_rest d p src i slen;
                             d \<leftarrow> wr d p 0;
                             Some (0, p, Some d) }))"

subsection \<open>Decoding\<close>

function skip_spaces :: "byte list \<Rightarrow> nat \<Rightarrow> nat \<Rightarrow> nat" where
  "skip_spaces src slen i = (if i < slen \<and> rd src i = Some 32 then skip_spaces src slen (i + 1) else i)"
  by pat_completeness auto
termination
  by (relation "measure (\<lambda>(src, slen, i). slen - i)") auto

declare skip_spaces.simps [simp del]

lemma skip_spaces_ge: "i \<le> skip_spaces src slen i"
  by (induction src slen i rule: skip_spaces.induct) (subst skip_spaces.simps, auto)

text \<open>The first pass: \<open>Inr (n, j)\<close>, the numbers of significant characters and of padding characters.\<close>

function decode_check :: "byte list \<Rightarrow> nat \<Rightarrow> nat \<Rightarrow> nat \<Rightarrow> u32 \<Rightarrow> (int + nat \<times> u32) option" where
  "decode_check src slen i n j =
     (if i < slen
      then let k = skip_spaces src slen i
           in if k \<ge> slen then Some (Inr (n, j))
              else do {
                c \<leftarrow> rd src k;
                crlf \<leftarrow> (if slen - k \<ge> 2 \<and> c = 13 then map_option (\<lambda>d. d = 10) (rd src (k + 1)) else Some False);
                if crlf then decode_check src slen (k + 1) n j
                else if c = 10 then decode_check src slen (k + 1) n j
                else if k \<noteq> i then Some (Inl QCLOUD_ERR_FAILURE)
                else let j = (if c = PAD then j + 1 else j)
                     in if c = PAD \<and> j > 2 then Some (Inl QCLOUD_ERR_FAILURE)
                        else if c > 127 then Some (Inl QCLOUD_ERR_FAILURE)
                        else do {
                          d \<leftarrow> rd base64_dec_map (unat c);
                          if d = 127 then Some (Inl QCLOUD_ERR_FAILURE)
                          else if d < 64 \<and> j \<noteq> 0 then Some (Inl QCLOUD_ERR_FAILURE)
                          else decode_check src slen (k + 1) (n + 1) j } }
      else Some (Inr (n, j)))"
  by pat_completeness auto
termination
  by (relation "measure (\<lambda>(src, slen, i, n, j). slen - i)")
     (use skip_spaces_ge in \<open>auto simp: Let_def intro!: diff_less_mono2 le_imp_less_Suc\<close>)

declare decode_check.simps [simp del]

definition decode_flush :: "byte list \<Rightarrow> nat \<Rightarrow> u32 \<Rightarrow> u32 \<Rightarrow> (byte list \<times> nat) option" where
  "decode_flush dst p x j = do {
     (dst, p) \<leftarrow> (if j > 0 then emit dst p (ucast (drop_bit 16 x)) else Some (dst, p));
     (dst, p) \<leftarrow> (if j > 1 then emit dst p (ucast (drop_bit 8 x)) else Some (dst, p));
     (if j > 2 then emit dst p (ucast x) else Some (dst, p)) }"

text \<open>The second pass over the \<open>cs\<close> characters the first pass has seen.\<close>

primrec decode_loop :: "byte list \<Rightarrow> byte list \<Rightarrow> nat \<Rightarrow> u32 \<Rightarrow> nat \<Rightarrow> u32 \<Rightarrow> (byte list \<times> nat) option" where
  "decode_loop [] dst p j n x = Some (dst, p)"
| "decode_loop (c # cs) dst p j n x =
     (if c = 13 \<or> c = 10 \<or> c = 32 then decode_loop cs dst p j n x
      else do {
        d \<leftarrow> rd base64_dec_map (unat c);
        let j = (if d = 64 then j - 1 else j);
        let x = push_bit 6 x OR (ucast d AND 0x3F);
        if n + 1 = 4
        then do { (dst, p) \<leftarrow> decode_flush dst p x j; decode_loop cs dst p j 0 x }
        else decode_loop cs dst p j (n + 1) x })"

definition qcloud_iot_utils_base64decode ::
  "byte list option \<Rightarrow> nat \<Rightarrow> byte list \<Rightarrow> nat \<Rightarrow> (int \<times> nat option \<times> byte list option) option" where
  "qcloud_iot_utils_base64decode dst dlen src slen = do {
     r \<leftarrow> decode_check src slen 0 0 0;
     (case r of
        Inl rc \<Rightarrow> Some (rc, None, dst)
      | Inr (n, j) \<Rightarrow>
          if n = 0 then Some (0, Some 0, dst)
          else let n = (n * 6 + 7) div 8 - unat j
               in (case dst of
                     None \<Rightarrow> Some (QCLOUD_ERR_FAILURE, Some n, None)
                   | Some d \<Rightarrow>
                       if dlen < n then Some (QCLOUD_ERR_FAILURE, Some n, dst)
                       else do {
                         cs \<leftarrow> rd_bytes src 0 slen;
                         (d, p) \<leftarrow> decode_loop cs d 0 3 0 0;
                         Some (0, Some p, Some d) })) }"

section \<open>Reference encoding\<close>

definition sextet :: "u32 \<Rightarrow> byte" where
  "sextet w = base64_enc_map ! unat (w AND 0x3F)"

fun b64 :: "byte list \<Rightarrow> byte list" where
  "b64 (a # b # c # r) =
     sextet (drop_bit 2 (ucast a)) # sextet (push_bit 4 (ucast a AND 3) + drop_bit 4 (ucast b))
     # sextet (push_bit 2 (ucast b AND 15) + drop_bit 6 (ucast c)) # sextet (ucast c) # b64 r"
| "b64 [a, b] =
     [sextet (drop_bit 2 (ucast a)), sextet (push_bit 4 (ucast a AND 3) + drop_bit 4 (ucast b)),
      sextet (push_bit 2 (ucast b AND 15)), PAD]"
| "b64 [a] = [sextet (drop_bit 2 (ucast a)), sextet (push_bit 4 (ucast a AND 3)), PAD, PAD]"
| "b64 [] = []"

lemma length_b64: "length (b64 xs) = 4 * (length xs div 3 + (if length xs mod 3 \<noteq> 0 then 1 else 0))"
proof (induction xs rule: b64.induct)
  case (1 a b c r)
  have "length (a # b # c # r) = 3 + length r" by simp
  then have "length (a # b # c # r) div 3 = length r div 3 + 1" "length (a # b # c # r) mod 3 = length r mod 3"
    by (simp_all only: div_add_self1 mod_add_self1)
  then show ?case using 1 by simp
qed auto

lemma unat_low6: "unat (w AND 0x3F :: u32) < 64"
proof -
  have "w AND 63 = take_bit 6 w" by (simp add: take_bit_eq_mask mask_eq_exp_minus_1)
  then have "unat (w AND 63) = take_bit 6 (unat w)" by (simp only: unsigned_take_bit_eq)
  then show ?thesis by (simp add: take_bit_eq_mod)
qed

lemma length_maps: "length base64_enc_map = 64" "length base64_dec_map = 128"
  by (simp_all add: base64_enc_map_def base64_dec_map_def cstr_def)

lemma enc_char_sextet: "enc_char w = Some (sextet w)"
  using unat_low6 [of w] by (simp add: enc_char_def sextet_def rd_def length_maps)

lemma b64_append_groups: "length xs = 3 * k \<Longrightarrow> b64 (xs @ ys) = b64 xs @ b64 ys"
proof (induction k arbitrary: xs)
  case (Suc k)
  then obtain a b c zs where xs: "xs = a # b # c # zs"
    by (metis length_Suc_conv mult_Suc_right numeral_3_eq_3 add_Suc)
  then show ?case using Suc.IH [of zs] Suc.prems by simp
qed simp

lemma put_in_range: "put bs buf p = Some (b, q) \<Longrightarrow> q \<le> length b"
  by (auto simp: put_Some_iff)

lemma encode_loop_b64:
  assumes "i + 3 * k \<le> length src" "p \<le> length dst"
  shows "encode_loop dst p src i (i + 3 * k) =
     put (b64 (take (3 * k) (drop i src))) dst p \<bind> (\<lambda>(d, q). Some (d, q, i + 3 * k))"
  using assms
proof (induction k arbitrary: i p dst)
  case 0
  then show ?case by (subst encode_loop.simps) (simp add: put_fits)
next
  case (Suc k)
  let ?g = "b64 [src ! i, src ! (i + 1), src ! (i + 2)]"
  let ?r = "b64 (take (3 * k) (drop (i + 3) src))"
  have split: "take (3 * Suc k) (drop i src) =
      [src ! i, src ! (i + 1), src ! (i + 2)] @ take (3 * k) (drop (i + 3) src)"
    using Suc.prems(1) by (simp add: Cons_nth_drop_Suc [symmetric] numeral_3_eq_3)
  have cat: "b64 (take (3 * Suc k) (drop i src)) = ?g @ ?r"
    unfolding split by (rule b64_append_groups [of _ 1]) simp
  have step: "encode_loop dst p src i (i + 3 * Suc k) =
      put ?g dst p \<bind> (\<lambda>(d, q). encode_loop d q src (i + 3) (i + 3 + 3 * k))"
    using Suc.prems(1)
    by (subst encode_loop.simps) (simp add: rd_def enc_char_sextet codec_simps Let_def algebra_simps)
  have IH: "encode_loop d q src (i + 3) (i + 3 + 3 * k) =
      put ?r d q \<bind> (\<lambda>(d, q). Some (d, q, i + 3 + 3 * k))" if "put ?g dst p = Some (d, q)" for d q
    using Suc.prems(1) put_in_range [OF that] by (intro Suc.IH) simp_all
  have e: "i + 3 * Suc k = i + 3 + 3 * k" by simp
  show ?case
    unfolding cat step put_put_bind [symmetric]
  proof (cases "put ?g dst p")
    case (Some r)
    then show "put ?g dst p \<bind> (\<lambda>(d, q). encode_loop d q src (i + 3) (i + 3 + 3 * k)) =
        put ?g dst p \<bind> (\<lambda>(b, q). put ?r b q \<bind> (\<lambda>(d, q). Some (d, q, i + 3 * Suc k)))"
      using IH [of "fst r" "snd r"] unfolding e by (simp add: split_beta)
  qed simp
qed

lemma encode_rest_b64:
  assumes "i + m = length src" "m < 3" "p \<le> length dst"
  shows "encode_rest dst p src i (length src) = put (b64 (drop i src)) dst p"
proof -
  consider "m = 0" | "m = 1" | "m = 2" using assms(2) by linarith
  then show ?thesis
  proof cases
    case 1
    then show ?thesis using assms by (simp add: encode_rest_def put_fits)
  next
    case 2
    then have "drop i src = [src ! i]" using assms(1) by (simp add: Cons_nth_drop_Suc [symmetric])
    then show ?thesis using assms(1) 2
      by (simp add: encode_rest_def rd_def enc_char_sextet codec_simps put_put Let_def)
  next
    case 3
    then have "drop i src = [src ! i, src ! (i + 1)]"
      using assms(1) by (simp add: Cons_nth_drop_Suc [symmetric] numeral_2_eq_2)
    then show ?thesis using assms(1) 3
      by (simp add: encode_rest_def rd_def enc_char_sextet codec_simps put_put Let_def)
  qed
qed

lemma encode_b64:
  assumes "src \<noteq> []" "length (b64 src) + 1 \<le> dlen" "dlen \<le> length d" "length src < 2 ^ 63"
  shows "qcloud_iot_utils_base64encode (Some d) dlen src (length src) =
     Some (0, length (b64 src), Some (b64 src @ 0 # drop (length (b64 src) + 1) d))"
proof -
  let ?k = "length src div 3" and ?i = "length src div 3 * 3"
  let ?n = "length src div 3 + (if length src mod 3 \<noteq> 0 then 1 else 0)"
  have n: "length (b64 src) = ?n * 4" by (simp add: length_b64)
  have "length src div 3 < 4000000000000000000" using assms(4) by simp
  then have small: "\<not> ?n > (BASE64_SIZE_T_MAX - 1) div 4" by simp
  have i: "?i \<le> length src" "?i + length src mod 3 = length src" by simp_all
  have whole: "b64 src = b64 (take ?i src) @ b64 (drop ?i src)"
    using b64_append_groups [of "take ?i src" ?k "drop ?i src"] i(1) by simp
  have loop: "encode_loop d 0 src 0 ?i = put (b64 (take ?i src)) d 0 \<bind> (\<lambda>(d, q). Some (d, q, ?i))"
    using encode_loop_b64 [of 0 ?k src 0 d] i(1) by (simp add: mult.commute)
  have rest: "encode_rest d' q src ?i (length src) = put (b64 (drop ?i src)) d' q" if "q \<le> length d'" for d' q
    by (rule encode_rest_b64 [OF i(2) _ that]) simp
  have "encode_loop d 0 src 0 ?i \<bind> (\<lambda>(d, p, i). encode_rest d p src i (length src)) = put (b64 src) d 0"
    unfolding loop whole put_put [symmetric]
    by (cases "put (b64 (take ?i src)) d 0") (auto simp: rest put_in_range)
  moreover have "put (b64 src) d 0 = Some (b64 src @ drop (length (b64 src)) d, length (b64 src))"
    using assms(2,3) by (simp add: put_Some_iff)
  ultimately have body: "encode_loop d 0 src 0 ?i \<bind> (\<lambda>(d, p, i). encode_rest d p src i (length src)) =
      Some (b64 src @ drop (length (b64 src)) d, length (b64 src))" by simp
  have fin: "wr (b64 src @ drop (length (b64 src)) d) (length (b64 src)) 0 =
      Some (b64 src @ 0 # drop (length (b64 src) + 1) d)"
    using assms(2,3) by (simp add: wr_def list_update_append Cons_nth_drop_Suc [symmetric])
  show ?thesis
    using assms(1,2) small n body fin unfolding qcloud_iot_utils_base64encode_def Let_def
    by (cases "encode_loop d 0 src 0 ?i") (auto simp: split_beta)
qed

section \<open>Decoding the reference encoding\<close>

lemma maps_inverse_list:
  "list_all (\<lambda>k. let c = base64_enc_map ! k
      in unat c < 128 \<and> c \<notin> {10, 13, 32, PAD} \<and> base64_dec_map ! unat c = of_nat k) [0..<64]"
  by code_simp

lemma sextet_facts:
  "unat (sextet w) < 128" "sextet w \<notin> {10, 13, 32, PAD}"
  "rd base64_dec_map (unat (sextet w)) = Some (of_nat (unat (w AND 63)))"
proof -
  let ?k = "unat (w AND 0x3F)"
  have "?k \<in> set [0..<64]" using unat_low6 [of w] by simp
  with maps_inverse_list have f: "unat (sextet w) < 128 \<and> sextet w \<notin> {10, 13, 32, PAD} \<and>
      base64_dec_map ! unat (sextet w) = of_nat ?k"
    unfolding list_all_iff Let_def sextet_def by blast
  then show "unat (sextet w) < 128" "sextet w \<notin> {10, 13, 32, PAD}"
    "rd base64_dec_map (unat (sextet w)) = Some (of_nat (unat (w AND 63)))"
    by (simp_all add: rd_def length_maps)
qed

lemma low6_u8:
  fixes w :: u32
  defines "d \<equiv> (of_nat (unat (w AND 63)) :: u8)"
  shows "d < 64" "d \<noteq> 64" "d \<noteq> 127" "ucast d AND (63 :: u32) = w AND 63"
proof -
  have u: "unat d = unat (w AND 63)" using unat_low6 [of w] unfolding d_def by (intro unat_of_nat_u8) simp
  then show "d < 64" using unat_low6 [of w] by (simp add: word_less_nat_alt)
  then show "d \<noteq> 64" "d \<noteq> 127" by (auto simp: word_less_nat_alt)
  have "unat (ucast d :: u32) = unat (w AND 63)"
    using u by (simp add: unat_ucast_u8_u32)
  then have "(ucast d :: u32) = w AND 63" by (simp add: word_unat_eq_iff)
  then show "ucast d AND (63 :: u32) = w AND 63" by (simp add: and.assoc)
qed

lemma pad_lookup: "rd base64_dec_map 61 = Some 64"
  by (simp add: rd_def base64_dec_map_def)

lemma decode_loop_sextet:
  "decode_loop (sextet w # cs) dst p j n x =
     (let x = push_bit 6 x OR (w AND 63)
      in if n + 1 = 4 then do { (dst, p) \<leftarrow> decode_flush dst p x j; decode_loop cs dst p j 0 x }
         else decode_loop cs dst p j (n + 1) x)"
  using sextet_facts [of w] low6_u8 [of w] by (simp add: Let_def)

lemma decode_loop_pad:
  "decode_loop (PAD # cs) dst p j n x =
     (let x = push_bit 6 x; j = j - 1
      in if n + 1 = 4 then do { (dst, p) \<leftarrow> decode_flush dst p x j; decode_loop cs dst p j 0 x }
         else decode_loop cs dst p j (n + 1) x)"
  using pad_lookup by (simp add: Let_def)

declare decode_loop.simps(2) [simp del]

lemma sextet_sum:
  fixes a b :: u8
  shows "push_bit 4 (ucast a AND 3) + drop_bit 4 (ucast b) = push_bit 4 (ucast a AND 3) OR (drop_bit 4 (ucast b) :: u32)"
    "push_bit 2 (ucast a AND 15) + drop_bit 6 (ucast b) = push_bit 2 (ucast a AND 15) OR (drop_bit 6 (ucast b) :: u32)"
proof -
  have "push_bit 4 (ucast a AND 3) AND (drop_bit 4 (ucast b) :: u32) = 0"
    "push_bit 2 (ucast a AND 15) AND (drop_bit 6 (ucast b) :: u32) = 0"
    by (rule bit_word_eqI, auto simp: bit_simps dest!: u8_bit_bound)+
  then show "push_bit 4 (ucast a AND 3) + drop_bit 4 (ucast b) = push_bit 4 (ucast a AND 3) OR (drop_bit 4 (ucast b) :: u32)"
    "push_bit 2 (ucast a AND 15) + drop_bit 6 (ucast b) = push_bit 2 (ucast a AND 15) OR (drop_bit 6 (ucast b) :: u32)"
    by (simp_all only: disjunctive_add_eq_or)
qed

abbreviation word4 :: "u32 \<Rightarrow> u32 \<Rightarrow> u32 \<Rightarrow> u32 \<Rightarrow> u32 \<Rightarrow> u32" where
  "word4 x A B C D \<equiv>
     push_bit 6 (push_bit 6 (push_bit 6 (push_bit 6 x OR (A AND 63)) OR (B AND 63)) OR (C AND 63)) OR (D AND 63)"

lemma regroup:
  fixes a b c :: u8 and x C D :: u32
  shows "ucast (drop_bit 16 (word4 x (drop_bit 2 (ucast a)) (push_bit 4 (ucast a AND 3) OR drop_bit 4 (ucast b)) C D)) = a"
    "ucast (drop_bit 8 (word4 x A (push_bit 4 (ucast a AND 3) OR drop_bit 4 (ucast b))
        (push_bit 2 (ucast b AND 15) OR drop_bit 6 (ucast c)) D)) = b"
    "ucast (word4 x A B (push_bit 2 (ucast b AND 15) OR drop_bit 6 (ucast c)) (ucast c)) = c"
  by (rule u8_bit_eqI; auto simp: bit_simps dest: u8_bit_bound)+

lemma decode_flush_3: "decode_flush dst p x 3 = put [ucast (drop_bit 16 x), ucast (drop_bit 8 x), ucast x] dst p"
  by (simp add: decode_flush_def codec_simps put_put)

lemma decode_flush_2: "p \<le> length dst \<Longrightarrow> decode_flush dst p x 2 = put [ucast (drop_bit 16 x), ucast (drop_bit 8 x)] dst p"
  by (cases "put [ucast (drop_bit 16 x), ucast (drop_bit 8 x)] dst p") (simp_all add: decode_flush_def codec_simps put_put)

lemma decode_flush_1: "decode_flush dst p x 1 = put [ucast (drop_bit 16 x)] dst p"
  by (cases "put [ucast (drop_bit 16 x) :: byte] dst p") (simp_all add: decode_flush_def codec_simps)

lemma decode_loop_b64:
  "p \<le> length dst \<Longrightarrow> decode_loop (b64 xs) dst p 3 0 x = put xs dst p"
proof (induction xs arbitrary: dst p x rule: b64.induct)
  case (1 a b c r)
  let ?x = "word4 x (drop_bit 2 (ucast a)) (push_bit 4 (ucast a AND 3) OR drop_bit 4 (ucast b))
      (push_bit 2 (ucast b AND 15) OR drop_bit 6 (ucast c)) (ucast c)"
  have "decode_loop (b64 (a # b # c # r)) dst p 3 0 x =
      put [a, b, c] dst p \<bind> (\<lambda>(d, q). decode_loop (b64 r) d q 3 0 ?x)"
    by (simp only: b64.simps decode_loop_sextet sextet_sum Let_def decode_flush_3 regroup) simp
  also have "\<dots> = put [a, b, c] dst p \<bind> (\<lambda>(d, q). put r d q)"
    using "1.IH" by (cases "put [a, b, c] dst p") (auto dest: put_in_range)
  finally show ?case by (simp add: put_put)
next
  case (2 a b)
  have "decode_loop (b64 [a, b]) dst p 3 0 x =
      decode_flush dst p (word4 x (drop_bit 2 (ucast a)) (push_bit 4 (ucast a AND 3) OR drop_bit 4 (ucast b))
      (push_bit 2 (ucast b AND 15) OR drop_bit 6 (ucast (0 :: u8))) 0) 2 \<bind> (\<lambda>(d, q). Some (d, q))"
    by (simp only: b64.simps decode_loop_sextet decode_loop_pad sextet_sum Let_def) simp
  also have "\<dots> = put [a, b] dst p"
    unfolding decode_flush_2 [OF 2] regroup by (cases "put [a, b] dst p") auto
  finally show ?case .
next
  case (3 a)
  have "decode_loop (b64 [a]) dst p 3 0 x =
      decode_flush dst p (word4 x (drop_bit 2 (ucast a)) (push_bit 4 (ucast a AND 3) OR drop_bit 4 (ucast (0 :: u8))) 0 0) 1
        \<bind> (\<lambda>(d, q). Some (d, q))"
    by (simp only: b64.simps decode_loop_sextet decode_loop_pad Let_def) simp
  also have "\<dots> = put [a] dst p"
    unfolding decode_flush_1 regroup by (cases "put [a] dst p") auto
  finally show ?case .
next
  case 4
  then show ?case by (simp add: put_fits)
qed

definition pads :: "byte list \<Rightarrow> nat" where
  "pads xs = (3 - length xs mod 3) mod 3"

lemma b64_shape: "\<exists>ws. b64 xs = map sextet ws @ replicate (pads xs) PAD"
proof (induction xs rule: b64.induct)
  case (1 a b c r)
  then obtain ws where "b64 r = map sextet ws @ replicate (pads r) PAD" by auto
  moreover have "pads (a # b # c # r) = pads r"
  proof -
    have "length (a # b # c # r) = 3 + length r" by simp
    then show ?thesis by (simp only: pads_def mod_add_self1)
  qed
  ultimately have "b64 (a # b # c # r) = map sextet
      ([drop_bit 2 (ucast a), push_bit 4 (ucast a AND 3) + drop_bit 4 (ucast b),
        push_bit 2 (ucast b AND 15) + drop_bit 6 (ucast c), ucast c] @ ws) @ replicate (pads (a # b # c # r)) PAD"
    by simp
  then show ?case by blast
next
  case (2 a b)
  have "b64 [a, b] = map sextet [drop_bit 2 (ucast a), push_bit 4 (ucast a AND 3) + drop_bit 4 (ucast b),
      push_bit 2 (ucast b AND 15)] @ replicate (pads [a, b]) PAD"
    by (simp add: pads_def)
  then show ?case by blast
next
  case (3 a)
  have "b64 [a] = map sextet [drop_bit 2 (ucast a), push_bit 4 (ucast a AND 3)] @ replicate (pads [a]) PAD"
    by (simp add: pads_def numeral_2_eq_2)
  then show ?case by blast
next
  case 4
  then show ?case by (simp add: pads_def)
qed

lemma check_char:
  assumes "i < slen" "slen \<le> length src" "src ! i \<notin> {10, 13, 32}" "unat (src ! i) < 128"
    and "rd base64_dec_map (unat (src ! i)) = Some d"
  shows "decode_check src slen i n j =
     (let j = (if src ! i = PAD then j + 1 else j)
      in if src ! i = PAD \<and> j > 2 \<or> d = 127 \<or> d < 64 \<and> j \<noteq> 0 then Some (Inl QCLOUD_ERR_FAILURE)
         else decode_check src slen (i + 1) (n + 1) j)"
proof -
  have r: "rd src i = Some (src ! i)" using assms(1,2) by (simp add: rd_def)
  then have k: "skip_spaces src slen i = i" using assms(3) by (subst skip_spaces.simps) simp
  have "\<not> src ! i > 127" using assms(4) by (simp add: word_less_nat_alt)
  then show ?thesis
    using assms(1,3,5) r k by (subst decode_check.simps) (auto simp: Let_def)
qed

lemma decode_check_sextets:
  assumes "slen \<le> length src" "i + length ws \<le> slen" "\<And>m. m < length ws \<Longrightarrow> src ! (i + m) = sextet (ws ! m)"
  shows "decode_check src slen i n 0 = decode_check src slen (i + length ws) (n + length ws) 0"
  using assms
proof (induction ws arbitrary: i n)
  case (Cons w ws)
  have c: "src ! i = sextet w" using Cons.prems(3) [of 0] by simp
  have "decode_check src slen i n 0 = decode_check src slen (i + 1) (n + 1) 0"
    using check_char [of i slen src "of_nat (unat (w AND 63))" n 0] Cons.prems c sextet_facts [of w] low6_u8 [of w]
    by (simp add: Let_def)
  also have "\<dots> = decode_check src slen (i + 1 + length ws) (n + 1 + length ws) 0"
  proof (rule Cons.IH)
    show "src ! (i + 1 + m) = sextet (ws ! m)" if "m < length ws" for m
      using Cons.prems(3) [of "Suc m"] that by simp
  qed (use Cons.prems in simp_all)
  finally show ?case by simp
qed simp

lemma decode_check_pads:
  assumes "slen \<le> length src" "i + k = slen" "\<And>m. m < k \<Longrightarrow> src ! (i + m) = PAD" "unat j + k \<le> 2"
  shows "decode_check src slen i n j = Some (Inr (n + k, j + of_nat k))"
  using assms
proof (induction k arbitrary: i n j)
  case 0
  then show ?case by (subst decode_check.simps) simp
next
  case (Suc k)
  have c: "src ! i = PAD" using Suc.prems(3) [of 0] by simp
  have j: "unat (j + 1) = unat j + 1" using Suc.prems(4) by (simp add: unat_word_ariths)
  then have "\<not> j + 1 > 2" using Suc.prems(4) by (simp add: word_less_nat_alt)
  then have "decode_check src slen i n j = decode_check src slen (i + 1) (n + 1) (j + 1)"
    using check_char [of i slen src 64 n j] Suc.prems(1,2) c pad_lookup by (simp add: Let_def)
  also have "\<dots> = Some (Inr (n + 1 + k, j + 1 + of_nat k))"
  proof (rule Suc.IH)
    show "src ! (i + 1 + m) = PAD" if "m < k" for m using Suc.prems(3) [of "Suc m"] that by simp
  qed (use Suc.prems j in simp_all)
  finally show ?case by (simp add: algebra_simps)
qed

lemma decode_check_b64: "decode_check (b64 xs @ rest) (length (b64 xs)) 0 0 0 =
    Some (Inr (length (b64 xs), of_nat (pads xs)))"
proof -
  obtain ws where ws: "b64 xs = map sextet ws @ replicate (pads xs) PAD" using b64_shape by blast
  have "decode_check (b64 xs @ rest) (length (b64 xs)) 0 0 0 =
      decode_check (b64 xs @ rest) (length (b64 xs)) (0 + length ws) (0 + length ws) 0"
    by (rule decode_check_sextets) (auto simp: ws nth_append)
  also have "\<dots> = Some (Inr (0 + length ws + pads xs, 0 + of_nat (pads xs)))"
    by (rule decode_check_pads) (auto simp: ws nth_append pads_def)
  finally show ?thesis by (simp add: ws)
qed

section \<open>Properties\<close>

text \<open>\<open>qcloud_iot_utils_base64encode\<close> computes standard base64: for a non-empty source and a
  destination with room for the text and a terminating NUL it stores exactly the padded
  four-characters-per-three-bytes text, NUL-terminated, leaves the rest of the destination alone and
  reports the text length; with less room it stores nothing and reports the size it needs.\<close>

theorem base64encode_correct:
  assumes "src \<noteq> []" "length src < 2 ^ 63" "dlen \<le> length d"
  shows "qcloud_iot_utils_base64encode (Some d) dlen src (length src) =
     (if length (b64 src) + 1 \<le> dlen
      then Some (0, length (b64 src), Some (b64 src @ 0 # drop (length (b64 src) + 1) d))
      else Some (QCLOUD_ERR_FAILURE, length (b64 src) + 1, Some d))"
proof (cases "length (b64 src) + 1 \<le> dlen")
  case True
  then show ?thesis using encode_b64 assms by simp
next
  case False
  have "length src div 3 < 4000000000000000000" using assms(2) by simp
  with False show ?thesis
    using assms(1) by (auto simp: qcloud_iot_utils_base64encode_def Let_def length_b64)
qed

theorem base64encode_correct_witness:
  "qcloud_iot_utils_base64encode (Some [1, 1, 1, 1, 1, 1]) 6 [77, 97] (length [77, 97 :: byte]) =
     Some (0, length [84, 87, 69, 61 :: byte], Some [84, 87, 69, 61, 0, 1])"
proof -
  have "b64 [77, 97] = [84, 87, 69, 61]" by code_simp
  then show ?thesis using base64encode_correct [of "[77, 97]" 6 "[1, 1, 1, 1, 1, 1]"] by simp
qed

text \<open>Base64 round trip: decoding the encoded text of any byte string, into a buffer with room for
  it, succeeds and gives back exactly those bytes.\<close>

theorem base64_round_trip:
  assumes "src \<noteq> []" "length src < 2 ^ 60" "length (b64 src) + 1 \<le> dlen" "dlen \<le> length d"
    and "length src \<le> dlen'" "dlen' \<le> length d'"
  shows "\<exists>text. qcloud_iot_utils_base64encode (Some d) dlen src (length src) = Some (0, length (b64 src), Some text) \<and>
     qcloud_iot_utils_base64decode (Some d') dlen' text (length (b64 src)) =
       Some (0, Some (length src), Some (src @ drop (length src) d'))"
proof -
  let ?t = "b64 src @ 0 # drop (length (b64 src) + 1) d"
  have len: "length (b64 src) * 6 + 7 = 8 * (length src + pads src) + (7 - 0)"
    and n: "(length (b64 src) * 6 + 7) div 8 - pads src = length src"
  proof -
    have "3 * (length src div 3 + (if length src mod 3 \<noteq> 0 then 1 else 0)) = length src + pads src"
      by (simp add: pads_def) presburger
    then show "length (b64 src) * 6 + 7 = 8 * (length src + pads src) + (7 - 0)" by (simp add: length_b64)
    then show "(length (b64 src) * 6 + 7) div 8 - pads src = length src" by simp
  qed
  have p: "unat (of_nat (pads src) :: u32) = pads src" by (intro unat_of_nat_u32) (simp add: pads_def)
  have ne: "length (b64 src) \<noteq> 0" using assms(1) by (cases src rule: b64.cases) auto
  have put: "put src d' 0 = Some (src @ drop (length src) d', length src)"
    using assms(5,6) by (simp add: put_Some_iff)
  have "qcloud_iot_utils_base64decode (Some d') dlen' ?t (length (b64 src)) =
      Some (0, Some (length src), Some (src @ drop (length src) d'))"
    unfolding qcloud_iot_utils_base64decode_def decode_check_b64
    using n p ne put assms(5) decode_loop_b64 [of 0 d' src 0]
    by (simp add: Let_def rd_bytes_def)
  moreover have "qcloud_iot_utils_base64encode (Some d) dlen src (length src) = Some (0, length (b64 src), Some ?t)"
    using encode_b64 assms by simp
  ultimately show ?thesis by blast
qed

theorem base64_round_trip_witness:
  "\<exists>text. qcloud_iot_utils_base64encode (Some [1, 1, 1, 1, 1, 1]) 6 [77, 97] (length [77, 97 :: byte]) =
       Some (0, length (b64 [77, 97]), Some text) \<and>
     qcloud_iot_utils_base64decode (Some [0, 0, 0]) 2 text (length (b64 [77, 97])) =
       Some (0, Some (length [77, 97 :: byte]), Some ([77, 97] @ drop (length [77, 97 :: byte]) [0, 0, 0]))"
  by (rule base64_round_trip) simp_all

end
