(* ===== verification/Mqtt_Session.thy ===== *)
theory Mqtt_Session
  imports Mqtt_Requests Utils_Hash Utils_Base64
begin

text \<open>
  The life of a connection: \<^verbatim>\<open>mqtt_client_connect.c\<close> (connect, reconnect, disconnect),
  \<^verbatim>\<open>mqtt_client_yield.c\<close> (the main loop, keep alive, reconnection with growing intervals, expiry of
  the acknowledgement lists) and \<^verbatim>\<open>mqtt_client.c\<close> (construction, destruction, the yield thread).

  The build is that of \<^verbatim>\<open>CMakeLists.txt\<close> as shipped: device key, no TLS, no websocket, threads, no log upload.
\<close>

section \<open>Connect and disconnect\<close>

definition hmac_sign :: "byte list \<Rightarrow> byte list \<Rightarrow> byte list" where
  "hmac_sign user secret = (case utils_hmac_sha1 user secret of Some (Some sign) \<Rightarrow> sign | _ \<Rightarrow> [])"

text \<open>\<^verbatim>\<open>_serialize_connect_packet\<close> with its allocations and its connection id.\<close>

definition make_connect_packet :: "'w hal \<Rightarrow> 'w mqtt \<Rightarrow> ((int + nat) \<times> 'w mqtt) option" where
  "make_connect_packet H s =
     (let (m1, s) = (if client_id (options (cl s)) = [] then (True, s) else HAL_Malloc H s);
          (connid, s) = (if client_id (options (cl s)) = [] \<or> \<not> m1 then ([], s) else get_next_conn_id H s);
          (m2, s) = (if client_id (options (cl s)) = [] \<or> \<not> m1 \<or> device_secret (options (cl s)) = None then (True, s)
                     else HAL_Malloc H s)
      in do {
        (r, opts) \<leftarrow> serialize_connect_packet True hmac_sign m1 m2 connid (write_buf (cl s)) (write_buf_size (cl s))
                      (options (cl s));
        let s = cl_update (\<lambda>c. c\<lparr>options := opts\<rparr>) s;
        (case r of
           Inl rc \<Rightarrow> Some (Inl rc, s)
         | Inr (b, len) \<Rightarrow> Some (Inr len, cl_update (\<lambda>c. c\<lparr>write_buf := b\<rparr>) s)) })"

definition mqtt_connect :: "'w hal \<Rightarrow> MQTTConnectParams \<Rightarrow> 'w mqtt \<Rightarrow> (int \<times> 'w mqtt) option" where
  "mqtt_connect H params s = do {
     let (connect_timer, s) = countdown_ms H (unat (command_timeout_ms (cl s))) s;
     let s = cl_update (\<lambda>c. c\<lparr>options := copy_connect_params (options c) params\<rparr>) s;
     let (rc, w) = net_connect H (env s);
     let s = s\<lparr>env := w\<rparr>;
     if rc \<noteq> QCLOUD_RET_SUCCESS then Some (rc, s)
     else do {
       (r, s) \<leftarrow> make_connect_packet H s;
       (case r of
          Inl rc \<Rightarrow> Some (rc, s)
        | Inr len \<Rightarrow>
            if len = 0 then Some (QCLOUD_RET_SUCCESS, s)
            else do {
              (rc, s) \<leftarrow> send_mqtt_packet H len connect_timer s;
              if rc \<noteq> QCLOUD_RET_SUCCESS then Some (rc, s)
              else do {
                (rc, s) \<leftarrow> wait_for_read H (msgTypes CONNACK) connect_timer s;
                if rc \<noteq> QCLOUD_RET_SUCCESS then Some (rc, s)
                else do {
                  r \<leftarrow> deserialize_connack_packet (read_buf (cl s)) (read_buf_size (cl s));
                  (case r of
                     Inl rc \<Rightarrow> Some (rc, s)
                   | Inr (sessionPresent, connack_rc) \<Rightarrow>
                       if QCLOUD_RET_MQTT_CONNACK_CONNECTION_ACCEPTED \<noteq> connack_rc then Some (connack_rc, s)
                       else let s = set_client_conn_state 1 s;
                                s = cl_update (\<lambda>c. c\<lparr>was_manually_disconnected := 0, is_ping_outstanding := 0\<rparr>) s;
                                (t, s) = countdown H (unat (keep_alive_interval (options (cl s)))) s
                            in Some (QCLOUD_RET_SUCCESS, cl_update (\<lambda>c. c\<lparr>ping_timer := t\<rparr>) s)) } } }) } }"

definition network_disconnect :: "'w hal \<Rightarrow> 'w mqtt \<Rightarrow> 'w mqtt" where
  "network_disconnect H s = s\<lparr>env := net_disconnect H (env s)\<rparr>"

definition qcloud_iot_mqtt_connect :: "'w hal \<Rightarrow> MQTTConnectParams \<Rightarrow> 'w mqtt \<Rightarrow> (int \<times> 'w mqtt) option" where
  "qcloud_iot_mqtt_connect H pParams s =
     (if get_client_conn_state s \<noteq> 0 then Some (QCLOUD_RET_MQTT_ALREADY_CONNECTED, s)
      else do {
        (rc, s) \<leftarrow> mqtt_connect H pParams s;
        Some (rc, if rc \<noteq> QCLOUD_RET_SUCCESS then network_disconnect H s else s) })"

definition qcloud_iot_mqtt_attempt_reconnect :: "'w hal \<Rightarrow> 'w mqtt \<Rightarrow> (int \<times> 'w mqtt) option" where
  "qcloud_iot_mqtt_attempt_reconnect H s =
     (if get_client_conn_state s \<noteq> 0 then Some (QCLOUD_RET_MQTT_ALREADY_CONNECTED, s)
      else do {
        (rc, s) \<leftarrow> qcloud_iot_mqtt_connect H (options (cl s)) s;
        if get_client_conn_state s = 0 then Some (rc, s)
        else do {
          (rc, s) \<leftarrow> qcloud_iot_mqtt_resubscribe H s;
          Some (if rc \<noteq> QCLOUD_RET_SUCCESS then rc else QCLOUD_RET_MQTT_RECONNECTED, s) } })"

definition qcloud_iot_mqtt_disconnect :: "'w hal \<Rightarrow> 'w mqtt \<Rightarrow> (int \<times> 'w mqtt) option" where
  "qcloud_iot_mqtt_disconnect H s =
     (if get_client_conn_state s = 0 then Some (QCLOUD_ERR_MQTT_NO_CONN, s)
      else do {
        r \<leftarrow> serialize_packet_with_zero_payload (write_buf (cl s)) (write_buf_size (cl s)) DISCONNECT;
        (case r of
           Inl rc \<Rightarrow> Some (rc, s)
         | Inr (b, serialized_len) \<Rightarrow> do {
             let s = cl_update (\<lambda>c. c\<lparr>write_buf := b\<rparr>) s;
             let (timer, s) = countdown_ms H (unat (command_timeout_ms (cl s))) s;
             (rc, s) \<leftarrow> (if serialized_len > 0 then send_mqtt_packet H serialized_len timer s
                        else Some (QCLOUD_RET_SUCCESS, s));
             if rc \<noteq> QCLOUD_RET_SUCCESS then Some (rc, s)
             else let s = set_client_conn_state 0 (network_disconnect H s)
                  in Some (QCLOUD_RET_SUCCESS, cl_update (\<lambda>c. c\<lparr>was_manually_disconnected := 1\<rparr>) s) }) })"

section \<open>Keep alive and reconnection\<close>

definition get_random_interval :: "'w hal \<Rightarrow> 'w mqtt \<Rightarrow> u32 \<times> 'w mqtt" where
  "get_random_interval H s =
     (let (ms, s) = get_time_ms H s; s = srand H (ms mod 2 ^ 32) s; (r, s) = rand H s
      in (of_nat ((r mod 100 + 100) * 10), s))"

definition handle_disconnect :: "'w hal \<Rightarrow> 'w mqtt \<Rightarrow> (int \<times> 'w mqtt) option" where
  "handle_disconnect H s =
     (if get_client_conn_state s = 0 then Some (QCLOUD_ERR_MQTT_NO_CONN, s)
      else do {
        (rc, s) \<leftarrow> qcloud_iot_mqtt_disconnect H s;
        let s = (if rc \<noteq> QCLOUD_RET_SUCCESS then set_client_conn_state 0 (network_disconnect H s) else s);
        let s = notify MQTT_EVENT_DISCONNECT NoMsg s;
        Some (QCLOUD_ERR_MQTT_NO_CONN, cl_update (\<lambda>c. c\<lparr>was_manually_disconnected := 0\<rparr>) s) })"

text \<open>\<^verbatim>\<open>_handle_reconnect\<close>; the network stack of an MQTT client always reports a physical connection.\<close>

definition handle_reconnect :: "'w hal \<Rightarrow> 'w mqtt \<Rightarrow> (int \<times> 'w mqtt) option" where
  "handle_reconnect H s =
     (let (e, s) = expired H (reconnect_delay_timer (cl s)) s
      in if \<not> e then Some (QCLOUD_ERR_MQTT_ATTEMPTING_RECONNECT, s)
         else do {
           (rc, s) \<leftarrow> qcloud_iot_mqtt_attempt_reconnect H s;
           if rc = QCLOUD_RET_MQTT_RECONNECTED then Some (rc, notify MQTT_EVENT_RECONNECT NoMsg s)
           else let s = cl_update (\<lambda>c. c\<lparr>current_reconnect_wait_interval := current_reconnect_wait_interval c * 2\<rparr>) s
                in if MAX_RECONNECT_WAIT_INTERVAL < current_reconnect_wait_interval (cl s)
                   then Some (QCLOUD_ERR_MQTT_RECONNECT_TIMEOUT, s)
                   else let (t, s) = countdown_ms H (unat (current_reconnect_wait_interval (cl s))) s
                        in Some (QCLOUD_ERR_MQTT_ATTEMPTING_RECONNECT,
                             cl_update (\<lambda>c. c\<lparr>reconnect_delay_timer := t\<rparr>) s) })"

text \<open>The sending loop of \<^verbatim>\<open>_mqtt_keep_alive\<close>: \<open>n\<close> more attempts after this one.\<close>

primrec ping_loop :: "'w hal \<Rightarrow> nat \<Rightarrow> nat \<Rightarrow> 'w mqtt \<Rightarrow> (int \<times> 'w mqtt) option" where
  "ping_loop H len 0 s =
     (let (timer, s) = countdown_ms H (unat (command_timeout_ms (cl s))) s in send_mqtt_packet H len timer s)"
| "ping_loop H len (Suc n) s =
     (let (timer, s) = countdown_ms H (unat (command_timeout_ms (cl s))) s
      in do {
        (rc, s) \<leftarrow> send_mqtt_packet H len timer s;
        if rc \<noteq> QCLOUD_RET_SUCCESS then ping_loop H len n s else Some (rc, s) })"

abbreviation MQTT_PING_RETRY_TIMES :: u8 where "MQTT_PING_RETRY_TIMES \<equiv> 2"

definition mqtt_keep_alive :: "'w hal \<Rightarrow> 'w mqtt \<Rightarrow> (int \<times> 'w mqtt) option" where
  "mqtt_keep_alive H s =
     (if keep_alive_interval (options (cl s)) = 0 then Some (QCLOUD_RET_SUCCESS, s)
      else let (e, s) = expired H (ping_timer (cl s)) s
           in if \<not> e then Some (QCLOUD_RET_SUCCESS, s)
              else if is_ping_outstanding (cl s) \<ge> MQTT_PING_RETRY_TIMES then handle_disconnect H s
              else do {
                r \<leftarrow> serialize_packet_with_zero_payload (write_buf (cl s)) (write_buf_size (cl s)) PINGREQ;
                (case r of
                   Inl rc \<Rightarrow> Some (rc, s)
                 | Inr (b, serialized_len) \<Rightarrow> do {
                     (rc, s) \<leftarrow> ping_loop H serialized_len 3 (cl_update (\<lambda>c. c\<lparr>write_buf := b\<rparr>) s);
                     if rc \<noteq> QCLOUD_RET_SUCCESS then handle_disconnect H s
                     else let s = cl_update (\<lambda>c. c\<lparr>is_ping_outstanding := is_ping_outstanding c + 1\<rparr>) s;
                              (t, s) = countdown H (min 5 (unat (keep_alive_interval (options (cl s))) div 2)) s
                          in Some (QCLOUD_RET_SUCCESS, cl_update (\<lambda>c. c\<lparr>ping_timer := t\<rparr>) s) }) })"

section \<open>Expiry of the acknowledgement lists\<close>

text \<open>The loops take the list as the iterator walks it, from the tail, and give what is left of it.\<close>

fun pub_proc_loop :: "'w hal \<Rightarrow> QcloudIotPubInfo list \<Rightarrow> 'w mqtt \<Rightarrow> QcloudIotPubInfo list \<times> 'w mqtt" where
  "pub_proc_loop H [] s = ([], s)"
| "pub_proc_loop H (n # ns) s =
     (if pub_node_state n = MQTT_NODE_STATE_INVALID then pub_proc_loop H ns s
      else if is_connected (cl s) = 0
      then let (ns, s) = pub_proc_loop H ns s in (n # ns, s)
      else let (ms, s) = left_ms H (pub_start_time n) s
           in if ms > 0 then let (ns, s) = pub_proc_loop H ns s in (n # ns, s)
              else let (t, s) = countdown_ms H (unat (command_timeout_ms (cl s))) s
                   in pub_proc_loop H ns (notify MQTT_EVENT_PUBLISH_TIMEOUT (PacketId (pub_msg_id n)) s))"

definition qcloud_iot_mqtt_pub_info_proc :: "'w hal \<Rightarrow> 'w mqtt \<Rightarrow> 'w mqtt" where
  "qcloud_iot_mqtt_pub_info_proc H s =
     (if list_pub_wait_ack (cl s) = [] then s
      else let (iter, s) = HAL_Malloc H s
           in if \<not> iter then s
              else let (ns, s) = pub_proc_loop H (rev (list_pub_wait_ack (cl s))) s
                   in cl_update (\<lambda>c. c\<lparr>list_pub_wait_ack := rev ns\<rparr>) s)"

definition sub_timeout :: "QcloudIotSubInfo \<Rightarrow> 'w mqtt \<Rightarrow> 'w mqtt" where
  "sub_timeout n s =
     (if event_handle (cl s)
      then if sub_type n = SUBSCRIBE
           then notify MQTT_EVENT_SUBCRIBE_TIMEOUT (PacketId (sub_msg_id n))
                  (notify_sub (sub_handler n) MQTT_EVENT_SUBCRIBE_TIMEOUT s)
           else notify MQTT_EVENT_UNSUBCRIBE_TIMEOUT (PacketId (sub_msg_id n)) s
      else s)"

fun sub_proc_loop :: "'w hal \<Rightarrow> QcloudIotSubInfo list \<Rightarrow> 'w mqtt \<Rightarrow> QcloudIotSubInfo list \<times> 'w mqtt" where
  "sub_proc_loop H [] s = ([], s)"
| "sub_proc_loop H (n # ns) s =
     (if sub_node_state n = MQTT_NODE_STATE_INVALID then sub_proc_loop H ns s
      else if is_connected (cl s) = 0
      then let (ns, s) = sub_proc_loop H ns s in (n # ns, s)
      else let (ms, s) = left_ms H (sub_start_time n) s
           in if ms > 0 then let (ns, s) = sub_proc_loop H ns s in (n # ns, s)
              else sub_proc_loop H ns (sub_timeout n s))"

definition qcloud_iot_mqtt_sub_info_proc :: "'w hal \<Rightarrow> 'w mqtt \<Rightarrow> 'w mqtt" where
  "qcloud_iot_mqtt_sub_info_proc H s =
     (if list_sub_wait_ack (cl s) = [] then s
      else let (iter, s) = HAL_Malloc H s
           in if \<not> iter then s
              else let (ns, s) = sub_proc_loop H (rev (list_sub_wait_ack (cl s))) s
                   in cl_update (\<lambda>c. c\<lparr>list_sub_wait_ack := rev ns\<rparr>) s)"

section \<open>The main loop\<close>

text \<open>One pass of the loop while connected: read, then house keeping.\<close>

definition connected_pass :: "'w hal \<Rightarrow> Timer \<Rightarrow> 'w mqtt \<Rightarrow> ((int \<times> Timer) \<times> 'w mqtt) option" where
  "connected_pass H timer s = do {
     ((rc, packet_type, timer), s) \<leftarrow> cycle_for_read H timer 0 s;
     if rc = QCLOUD_RET_SUCCESS
     then do {
       let s = qcloud_iot_mqtt_pub_info_proc H s;
       let s = qcloud_iot_mqtt_sub_info_proc H s;
       (rc, s) \<leftarrow> mqtt_keep_alive H s;
       Some ((rc, timer), s) }
     else if rc = QCLOUD_ERR_SSL_READ_TIMEOUT \<or> rc = QCLOUD_ERR_SSL_READ \<or>
             rc = QCLOUD_ERR_TCP_PEER_SHUTDOWN \<or> rc = QCLOUD_ERR_TCP_READ_FAIL
     then do { (rc, s) \<leftarrow> handle_disconnect H s; Some ((rc, timer), s) }
     else Some ((rc, timer), s) }"

definition start_reconnect :: "'w hal \<Rightarrow> 'w mqtt \<Rightarrow> 'w mqtt" where
  "start_reconnect H s =
     (let (i, s) = get_random_interval H s;
          s = cl_update (\<lambda>c. c\<lparr>current_reconnect_wait_interval := i\<rparr>) s;
          (t, s) = countdown_ms H (unat (current_reconnect_wait_interval (cl s))) s
      in cl_update (\<lambda>c. c\<lparr>reconnect_delay_timer := t\<rparr>) s)"

partial_function (option) yield_loop :: "'w hal \<Rightarrow> Timer \<Rightarrow> int \<Rightarrow> 'w mqtt \<Rightarrow> (int \<times> 'w mqtt) option" where
  "yield_loop H timer rc s =
     (let (e, s) = expired H timer s
      in if e then Some (rc, s)
         else if get_client_conn_state s = 0
         then if current_reconnect_wait_interval (cl s) > MAX_RECONNECT_WAIT_INTERVAL
              then Some (QCLOUD_ERR_MQTT_RECONNECT_TIMEOUT, s)
              else do { (rc, s) \<leftarrow> handle_reconnect H s; yield_loop H timer rc s }
         else do {
           ((rc, timer), s) \<leftarrow> connected_pass H timer s;
           if rc = QCLOUD_ERR_MQTT_NO_CONN
           then let s = cl_update (\<lambda>c. c\<lparr>counter_network_disconnected := counter_network_disconnected c + 1\<rparr>) s
                in if auto_connect_enable (options (cl s)) = 1
                   then yield_loop H timer QCLOUD_ERR_MQTT_ATTEMPTING_RECONNECT (start_reconnect H s)
                   else Some (rc, s)
           else if rc \<noteq> QCLOUD_RET_SUCCESS then Some (rc, s)
           else yield_loop H timer rc s })"

definition qcloud_iot_mqtt_yield :: "'w hal \<Rightarrow> nat \<Rightarrow> 'w mqtt \<Rightarrow> (int \<times> 'w mqtt) option" where
  "qcloud_iot_mqtt_yield H timeout_ms s =
     (if timeout_ms = 0 then Some (QCLOUD_ERR_INVAL, s)
      else if get_client_conn_state s = 0 \<and> was_manually_disconnected (cl s) = 1
      then Some (QCLOUD_RET_MQTT_MANUALLY_DISCONNECTED, s)
      else if get_client_conn_state s = 0 \<and> auto_connect_enable (options (cl s)) = 0
      then Some (QCLOUD_ERR_MQTT_NO_CONN, s)
      else let (timer, s) = countdown_ms H timeout_ms s in yield_loop H timer QCLOUD_RET_SUCCESS s)"

definition HAL_SleepMs :: "'w hal \<Rightarrow> nat \<Rightarrow> 'w mqtt \<Rightarrow> 'w mqtt" where
  "HAL_SleepMs H ms s = s\<lparr>env := hal_sleep H ms (env s)\<rparr>"

text \<open>\<^verbatim>\<open>qcloud_iot_mqtt_yield_mt\<close>, and \<^verbatim>\<open>IOT_MQTT_Yield\<close> without log upload.\<close>

definition IOT_MQTT_Yield :: "'w hal \<Rightarrow> nat \<Rightarrow> 'w mqtt \<Rightarrow> (int \<times> 'w mqtt) option" where
  "IOT_MQTT_Yield H timeout_ms s =
     (if thread_running (cl s) then Some (QCLOUD_RET_SUCCESS, HAL_SleepMs H timeout_ms s)
      else qcloud_iot_mqtt_yield H timeout_ms s)"

definition qcloud_iot_mqtt_yield_mt :: "'w hal \<Rightarrow> nat \<Rightarrow> 'w mqtt \<Rightarrow> (int \<times> 'w mqtt) option" where
  "qcloud_iot_mqtt_yield_mt H timeout_ms s =
     (if timeout_ms = 0 then Some (QCLOUD_ERR_INVAL, s)
      else if thread_running (cl s) then Some (QCLOUD_RET_SUCCESS, HAL_SleepMs H timeout_ms s)
      else qcloud_iot_mqtt_yield H timeout_ms s)"

section \<open>Sessions keep it\<close>

lemma client_ok_fields:
  "client_ok within c \<Longrightarrow> client_ok within (c\<lparr>options := p\<rparr>)" "client_ok within c \<Longrightarrow> client_ok within (c\<lparr>ping_timer := t\<rparr>)"
  "client_ok within c \<Longrightarrow> client_ok within (c\<lparr>is_connected := b\<rparr>)" "client_ok within c \<Longrightarrow> client_ok within (c\<lparr>was_manually_disconnected := b\<rparr>)"
  "client_ok within c \<Longrightarrow> client_ok within (c\<lparr>was_manually_disconnected := b, is_ping_outstanding := 0\<rparr>)"
  "client_ok within c \<Longrightarrow> within' n \<Longrightarrow> client_ok within' (c\<lparr>current_reconnect_wait_interval := n\<rparr>)"
  "client_ok within c \<Longrightarrow> client_ok within (c\<lparr>reconnect_delay_timer := t\<rparr>)"
  "client_ok within c \<Longrightarrow> client_ok within (c\<lparr>counter_network_disconnected := n\<rparr>)"
  by (simp_all add: client_ok_def buffers_ok_def)

lemma network_disconnect_cl [simp]: "cl (network_disconnect H s) = cl s"
  by (simp add: network_disconnect_def)

lemma env_update_ex: "\<exists>w'. s\<lparr>env := w\<rparr> = s\<lparr>env := w'\<rparr>"
  by blast

lemma ping_loop_env: "ping_loop H len n s = Some (r, s') \<Longrightarrow> \<exists>w. s' = s\<lparr>env := w\<rparr>"
proof (induction n arbitrary: s)
  case 0
  then show ?case by (auto simp: Let_def split: model_splits dest!: countdown_ms_env send_mqtt_packet_env)
next
  case (Suc n)
  note IH = Suc.IH
  show ?case
    using Suc.prems by (auto simp: Let_def env_update_ex elim!: bind_SomeE split: model_splits
        dest!: countdown_ms_env send_mqtt_packet_env IH)
qed

lemma client_ok_ping:
  "client_ok within c \<Longrightarrow> \<not> MQTT_PING_RETRY_TIMES \<le> is_ping_outstanding c \<Longrightarrow> length b = length (write_buf c) \<Longrightarrow>
     client_ok within (c\<lparr>write_buf := b, is_ping_outstanding := is_ping_outstanding c + 1, ping_timer := t\<rparr>)"
  by (simp add: client_ok_def buffers_ok_def not_le inc_le)

lemma pub_proc_loop_cl: "pub_proc_loop H ns s = (ns', s') \<Longrightarrow> cl s' = cl s \<and> length ns' \<le> length ns"
proof (induction ns arbitrary: s ns')
  case Nil
  then show ?case by simp
next
  case (Cons n ns)
  note IH = Cons.IH
  show ?case
    using Cons.prems by (auto simp: Let_def split: model_splits dest!: left_ms_env countdown_ms_env IH)
qed

lemma sub_timeout_cl [simp]: "cl (sub_timeout n s) = cl s"
  by (simp add: sub_timeout_def)

lemma sub_proc_loop_cl: "sub_proc_loop H ns s = (ns', s') \<Longrightarrow> cl s' = cl s \<and> length ns' \<le> length ns"
proof (induction ns arbitrary: s ns')
  case Nil
  then show ?case by simp
next
  case (Cons n ns)
  note IH = Cons.IH
  show ?case
    using Cons.prems by (auto simp: Let_def split: model_splits dest!: left_ms_env IH)
qed

lemma get_random_interval_env: "get_random_interval H s = (i, s') \<Longrightarrow> \<exists>w. s' = s\<lparr>env := w\<rparr>"
  by (auto simp: get_random_interval_def srand_def Let_def split: model_splits dest!: get_time_ms_env rand_env)

context client_bound
begin

lemma wait_for_read_ok [client_keeps]:
  "wait_for_read H ty timer s = Some (r, s') \<Longrightarrow> client_ok within (cl s) \<Longrightarrow> client_ok within (cl s')"
  by (auto simp: wait_for_read_def dest!: wait_loop_ok)

lemma make_connect_packet_ok [client_keeps]:
  "make_connect_packet H s = Some (r, s') \<Longrightarrow> client_ok within (cl s) \<Longrightarrow> client_ok within (cl s')"
  by (auto simp: make_connect_packet_def Let_def client_ok_write_buf client_ok_fields elim!: bind_SomeE
      split: model_splits dest!: HAL_Malloc_env get_next_conn_id_env serialize_connect_length)

lemma mqtt_connect_ok [client_keeps]:
  "mqtt_connect H p s = Some (r, s') \<Longrightarrow> client_ok within (cl s) \<Longrightarrow> client_ok within (cl s')"
  by (auto simp: mqtt_connect_def Let_def client_ok_fields set_client_conn_state_def elim!: bind_SomeE
      split: model_splits dest!: countdown_ms_env countdown_env send_mqtt_packet_env make_connect_packet_ok wait_for_read_ok)

lemma connect_ok [client_keeps]:
  "qcloud_iot_mqtt_connect H p s = Some (r, s') \<Longrightarrow> client_ok within (cl s) \<Longrightarrow> client_ok within (cl s')"
  by (auto simp: qcloud_iot_mqtt_connect_def elim!: bind_SomeE split: model_splits dest!: mqtt_connect_ok)

lemma attempt_reconnect_ok [client_keeps]:
  "qcloud_iot_mqtt_attempt_reconnect H s = Some (r, s') \<Longrightarrow> client_ok within (cl s) \<Longrightarrow> client_ok within (cl s')"
  by (auto simp: qcloud_iot_mqtt_attempt_reconnect_def elim!: bind_SomeE split: model_splits
      dest!: connect_ok resubscribe_ok)

lemma disconnect_ok [client_keeps]:
  "qcloud_iot_mqtt_disconnect H s = Some (r, s') \<Longrightarrow> client_ok within (cl s) \<Longrightarrow> client_ok within (cl s')"
  by (auto simp: qcloud_iot_mqtt_disconnect_def Let_def client_ok_write_buf client_ok_fields set_client_conn_state_def
      elim!: bind_SomeE split: model_splits
      dest!: countdown_ms_env send_mqtt_packet_env serialize_zero_payload_length)

lemma handle_disconnect_ok [client_keeps]:
  "handle_disconnect H s = Some (r, s') \<Longrightarrow> client_ok within (cl s) \<Longrightarrow> client_ok within (cl s')"
  by (auto simp: handle_disconnect_def Let_def client_ok_fields set_client_conn_state_def elim!: bind_SomeE
      split: model_splits dest!: disconnect_ok)

lemma keep_alive_ok [client_keeps]:
  "mqtt_keep_alive H s = Some (r, s') \<Longrightarrow> client_ok within (cl s) \<Longrightarrow> client_ok within (cl s')"
  by (auto simp: mqtt_keep_alive_def Let_def client_ok_write_buf client_ok_ping elim!: bind_SomeE split: model_splits
      dest!: expired_env countdown_env ping_loop_env serialize_zero_payload_length handle_disconnect_ok)

lemma pub_info_proc_ok: "client_ok within (cl s) \<Longrightarrow> client_ok within (cl (qcloud_iot_mqtt_pub_info_proc H s))"
  by (auto simp: qcloud_iot_mqtt_pub_info_proc_def client_ok_def buffers_ok_def split: prod.splits
      dest!: HAL_Malloc_env pub_proc_loop_cl)

lemma sub_info_proc_ok: "client_ok within (cl s) \<Longrightarrow> client_ok within (cl (qcloud_iot_mqtt_sub_info_proc H s))"
  by (auto simp: qcloud_iot_mqtt_sub_info_proc_def client_ok_def buffers_ok_def split: prod.splits
      dest!: HAL_Malloc_env sub_proc_loop_cl)

lemma connected_pass_ok [client_keeps]:
  "connected_pass H timer s = Some (r, s') \<Longrightarrow> client_ok within (cl s) \<Longrightarrow> client_ok within (cl s')"
  by (auto simp: connected_pass_def Let_def pub_info_proc_ok sub_info_proc_ok elim!: bind_SomeE split: model_splits
      dest!: cycle_for_read_ok keep_alive_ok handle_disconnect_ok)

end

text \<open>The interval starts below two seconds and is doubled only while it is at most a minute: it never
  exceeds two minutes, so the doubling never wraps.\<close>

abbreviation at_most :: "u32 \<Rightarrow> u32 \<Rightarrow> bool" where "at_most m \<equiv> (\<lambda>i. i \<le> m)"

abbreviation MAX_INTERVAL :: u32 where "MAX_INTERVAL \<equiv> 120000"

interpretation retry: client_bound "at_most MAX_RECONNECT_WAIT_INTERVAL" .

interpretation session: client_bound "at_most MAX_INTERVAL" .

lemma client_ok_tighten: "client_ok within c \<Longrightarrow> within' (current_reconnect_wait_interval c) \<Longrightarrow> client_ok within' c"
  by (simp add: client_ok_def)

lemma double_interval: "i \<le> MAX_RECONNECT_WAIT_INTERVAL \<Longrightarrow> unat (i * 2) = unat i * 2" "i \<le> MAX_RECONNECT_WAIT_INTERVAL \<Longrightarrow> i * 2 \<le> MAX_INTERVAL"
proof -
  assume "i \<le> MAX_RECONNECT_WAIT_INTERVAL"
  then have le: "unat i \<le> 60000" by (simp add: word_le_nat_alt)
  then show d: "unat (i * 2) = unat i * 2" by (simp add: unat_word_ariths)
  show "i * 2 \<le> MAX_INTERVAL" using le d by (simp add: word_le_nat_alt)
qed

lemma handle_reconnect_ok [client_keeps]:
  assumes "handle_reconnect H s = Some (r, s')" "client_ok (at_most MAX_RECONNECT_WAIT_INTERVAL) (cl s)"
  shows "client_ok (at_most MAX_INTERVAL) (cl s')"
proof -
  have widen: "client_ok (at_most MAX_RECONNECT_WAIT_INTERVAL) c \<Longrightarrow> client_ok (at_most MAX_INTERVAL) c" for c
    by (auto simp: client_ok_def word_le_nat_alt)
  have double: "client_ok (at_most MAX_RECONNECT_WAIT_INTERVAL) c \<Longrightarrow>
      client_ok (at_most MAX_INTERVAL) (c\<lparr>current_reconnect_wait_interval := current_reconnect_wait_interval c * 2\<rparr>)" for c
    by (simp add: client_ok_def buffers_ok_def double_interval)
  show ?thesis
    using assms by (auto simp: handle_reconnect_def Let_def client_ok_fields widen double elim!: bind_SomeE split: model_splits
        dest!: expired_env countdown_ms_env retry.attempt_reconnect_ok)
qed

lemma random_interval_range: "get_random_interval H s = (i, s') \<Longrightarrow> 1000 \<le> i \<and> i \<le> 1990"
proof -
  assume "get_random_interval H s = (i, s')"
  then obtain r where i: "i = of_nat ((r mod 100 + 100) * 10)"
    by (auto simp: get_random_interval_def Let_def split: prod.splits)
  have r: "r mod 100 < 100" by simp
  then have "unat i = (r mod 100 + 100) * 10" by (subst i, subst unat_of_nat) simp
  then show ?thesis using r by (simp add: word_le_nat_alt)
qed

lemma start_reconnect_ok: "client_ok (at_most MAX_INTERVAL) (cl s) \<Longrightarrow> client_ok (at_most MAX_INTERVAL) (cl (start_reconnect H s))"
proof -
  obtain i s1 where i: "get_random_interval H s = (i, s1)" by fastforce
  have "i \<le> MAX_INTERVAL" using random_interval_range [OF i] by (auto elim!: order_trans)
  then show "client_ok (at_most MAX_INTERVAL) (cl s) \<Longrightarrow> client_ok (at_most MAX_INTERVAL) (cl (start_reconnect H s))"
    using i get_random_interval_env [OF i]
    by (auto simp: start_reconnect_def Let_def client_ok_fields split: prod.splits dest!: countdown_ms_env)
qed

lemma yield_loop_ok: "yield_loop H timer rc s = Some y \<Longrightarrow> client_ok (at_most MAX_INTERVAL) (cl s) \<Longrightarrow> client_ok (at_most MAX_INTERVAL) (cl (snd y))"
proof (induction rule: yield_loop.raw_induct [rotated 1, consumes 1, case_names step])
  case (step loop H timer rc s y)
  note IH = step(1)
  obtain e w where e: "expired H timer s = (e, s\<lparr>env := w\<rparr>)" by (rule expired_cases)
  show ?case
    using step(2,3) e
    by (auto simp: Let_def client_ok_fields start_reconnect_ok not_less elim!: bind_SomeE split: model_splits
        intro: client_ok_tighten dest!: IH handle_reconnect_ok session.connected_pass_ok)
qed

lemma yield_ok [client_keeps]:
  "qcloud_iot_mqtt_yield H n s = Some (r, s') \<Longrightarrow> client_ok (at_most MAX_INTERVAL) (cl s) \<Longrightarrow> client_ok (at_most MAX_INTERVAL) (cl s')"
  by (auto simp: qcloud_iot_mqtt_yield_def split: model_splits dest!: countdown_ms_env yield_loop_ok)

section \<open>Expiry of waiting messages\<close>

text \<open>The nodes that are still waited for at time \<open>t\<close>, and those that have timed out: a whole
  millisecond has to be left.\<close>

definition still_waiting :: "nat \<Rightarrow> bool \<Rightarrow> QcloudIotPubInfo \<Rightarrow> bool" where
  "still_waiting t connected n \<longleftrightarrow>
     pub_node_state n \<noteq> MQTT_NODE_STATE_INVALID \<and> (\<not> connected \<or> t + 1000 \<le> pub_start_time n)"

definition timed_out :: "nat \<Rightarrow> bool \<Rightarrow> QcloudIotPubInfo \<Rightarrow> bool" where
  "timed_out t connected n \<longleftrightarrow>
     pub_node_state n \<noteq> MQTT_NODE_STATE_INVALID \<and> connected \<and> pub_start_time n < t + 1000"

text \<open>The events for them, in the order of the walk.\<close>

definition pub_timeouts :: "nat \<Rightarrow> Qcloud_IoT_Client \<Rightarrow> QcloudIotPubInfo list \<Rightarrow> event list" where
  "pub_timeouts t c ns =
     (if event_handle c
      then map (\<lambda>n. On_Event MQTT_EVENT_PUBLISH_TIMEOUT (PacketId (pub_msg_id n))) (filter (timed_out t (is_connected c \<noteq> 0)) ns)
      else [])"

lemma left_ms_pos:
  assumes "fst (gettimeofday H (env s)) = t" "left_ms H timer s = (ms, s')"
  shows "0 < ms \<longleftrightarrow> t + 1000 \<le> timer"
proof -
  have ms: "ms = (if timer < t then 0 else (timer - t) div 1000000 * 1000 + (timer - t) mod 1000000 div 1000)"
    using assms by (auto simp: left_ms_def now_def Let_def split: prod.splits)
  have "0 < d div 1000000 * 1000 + d mod 1000000 div 1000 \<longleftrightarrow> 1000 \<le> d" for d :: nat
  proof (cases "1000000 \<le> d")
    case True
    then have "1 \<le> d div 1000000" by (simp add: div_greater_zero_iff Suc_le_eq)
    then show ?thesis using True by simp
  next
    case False
    then show ?thesis by (simp add: div_greater_zero_iff)
  qed
  from this [of "timer - t"] show ?thesis by (cases "timer < t") (simp_all only: ms if_True if_False, linarith+)
qed

lemma pub_proc_loop_exact:
  assumes clock: "\<And>w. fst (gettimeofday H w) = t"
  shows "\<exists>w. pub_proc_loop H ns s = (filter (still_waiting t (is_connected (cl s) \<noteq> 0)) ns,
      s\<lparr>env := w, events := events s @ pub_timeouts t (cl s) ns\<rparr>)"
proof (induction ns arbitrary: s)
  case Nil
  then show ?case by (auto simp: pub_timeouts_def intro!: exI [of _ "env s"])
next
  case (Cons n ns)
  let ?K = "still_waiting t (is_connected (cl s) \<noteq> 0)" and ?T = "timed_out t (is_connected (cl s) \<noteq> 0)"
  show ?case
  proof (cases "pub_node_state n = MQTT_NODE_STATE_INVALID \<or> is_connected (cl s) = 0")
    case True
    then have "?K n \<longleftrightarrow> pub_node_state n \<noteq> MQTT_NODE_STATE_INVALID" "\<not> ?T n"
      by (auto simp: still_waiting_def timed_out_def)
    then show ?thesis using True Cons.IH [of s] by (auto simp: pub_timeouts_def)
  next
    case False
    obtain ms w1 where ms: "left_ms H (pub_start_time n) s = (ms, s\<lparr>env := w1\<rparr>)" by (rule left_ms_cases)
    note pos = left_ms_pos [OF clock ms]
    show ?thesis
    proof (cases "ms = 0")
      case True
      obtain c w2 where c: "countdown_ms H (unat (command_timeout_ms (cl s))) (s\<lparr>env := w1\<rparr>) = (c, s\<lparr>env := w2\<rparr>)"
        using countdown_ms_cases [of H "unat (command_timeout_ms (cl s))" "s\<lparr>env := w1\<rparr>"] by auto
      let ?s = "notify MQTT_EVENT_PUBLISH_TIMEOUT (PacketId (pub_msg_id n)) (s\<lparr>env := w2\<rparr>)"
      have "\<not> ?K n" "?T n" using pos True False by (auto simp: still_waiting_def timed_out_def)
      moreover have "pub_proc_loop H (n # ns) s = pub_proc_loop H ns ?s" using False True ms c by simp
      ultimately show ?thesis using Cons.IH [of ?s] by (auto simp: notify_def call_back_def pub_timeouts_def)
    next
      case kept: False
      then have "?K n" "\<not> ?T n" using pos False by (auto simp: still_waiting_def timed_out_def)
      then show ?thesis using False kept ms Cons.IH [of "s\<lparr>env := w1\<rparr>"] by (auto simp: pub_timeouts_def)
    qed
  qed
qed

text \<open>C8. One pass over the messages that wait for an acknowledgement, the clock standing still at \<open>t\<close> meanwhile: those that are
  marked as acknowledged disappear silently, and on a connected client those whose time is up (less than a millisecond
  left) disappear with exactly one timeout event each, oldest last; all others stay in their
  order. Off line nothing times out.\<close>

theorem pub_info_proc_exact:
  assumes clock: "\<And>w. fst (gettimeofday H w) = t" and malloc: "\<And>w. fst (hal_malloc H w)"
  shows "list_pub_wait_ack (cl (qcloud_iot_mqtt_pub_info_proc H s)) =
      filter (still_waiting t (is_connected (cl s) \<noteq> 0)) (list_pub_wait_ack (cl s)) \<and>
    events (qcloud_iot_mqtt_pub_info_proc H s) = events s @ pub_timeouts t (cl s) (rev (list_pub_wait_ack (cl s)))"
proof -
  obtain w where m: "HAL_Malloc H s = (True, s\<lparr>env := w\<rparr>)"
    using malloc [of "env s"] by (cases "hal_malloc H (env s)") (simp add: HAL_Malloc_def)
  obtain w' where "pub_proc_loop H (rev (list_pub_wait_ack (cl s))) (s\<lparr>env := w\<rparr>) =
      (filter (still_waiting t (is_connected (cl s) \<noteq> 0)) (rev (list_pub_wait_ack (cl s))),
       s\<lparr>env := w', events := events s @ pub_timeouts t (cl s) (rev (list_pub_wait_ack (cl s)))\<rparr>)"
    using pub_proc_loop_exact [OF clock, of "rev (list_pub_wait_ack (cl s))" "s\<lparr>env := w\<rparr>"] by auto
  with m show ?thesis
    by (cases "list_pub_wait_ack (cl s) = []") (simp_all add: qcloud_iot_mqtt_pub_info_proc_def rev_filter pub_timeouts_def)
qed

theorem pub_info_proc_exact_witness:
  "list_pub_wait_ack (cl (qcloud_iot_mqtt_pub_info_proc whole_hal
      \<lparr>cl = idle_client\<lparr>is_connected := 1, event_handle := True, list_pub_wait_ack :=
         [\<lparr>pub_start_time = 0, pub_node_state = MQTT_NODE_STATE_NORMANL, pub_msg_id = 1, pub_buf = []\<rparr>,
          \<lparr>pub_start_time = 0, pub_node_state = MQTT_NODE_STATE_INVALID, pub_msg_id = 2, pub_buf = []\<rparr>,
          \<lparr>pub_start_time = 9000, pub_node_state = MQTT_NODE_STATE_NORMANL, pub_msg_id = 3, pub_buf = []\<rparr>]\<rparr>,
       env = ([], []), events = []\<rparr>)) =
     [\<lparr>pub_start_time = 9000, pub_node_state = MQTT_NODE_STATE_NORMANL, pub_msg_id = 3, pub_buf = []\<rparr>]"
  using conjunct1 [OF pub_info_proc_exact [of whole_hal 0]] by (simp add: whole_hal_simps still_waiting_def)

section \<open>Keep alive\<close>

lemma serialize_zero_payload_returns:
  assumes "4 \<le> n" "2 \<le> length buf" "ty \<in> {PINGREQ, DISCONNECT}"
  shows "\<exists>b. serialize_packet_with_zero_payload buf n ty = Some (Inr (b, 2)) \<and> length b = length buf \<and>
    take 2 b = [if ty = PINGREQ then 0xC0 else 0xE0, 0]"
proof -
  obtain h where "mqtt_init_packet_header ty QOS0 0 0 = Inr h" "h = (if ty = PINGREQ then 0xC0 else 0xE0)"
    using assms(3) by (auto simp: mqtt_init_packet_header_def)
  then show ?thesis
    using assms(1,2) by (auto simp: serialize_packet_with_zero_payload_def writer_puts mqtt_write_packet_rem_len_put put_def
        wr_bytes_def rem_len_bytes.simps)
qed

text \<open>The client takes the connection for lost: it is disconnected, and the application is told once.\<close>

definition conn_lost :: "'w mqtt \<Rightarrow> int \<Rightarrow> 'w mqtt \<Rightarrow> bool" where
  "conn_lost s rc s' \<longleftrightarrow> rc = QCLOUD_ERR_MQTT_NO_CONN \<and> get_client_conn_state s' = 0 \<and>
     was_manually_disconnected (cl s') = 0 \<and> events s' = events (notify MQTT_EVENT_DISCONNECT NoMsg s)"

lemma disconnect_returns:
  assumes "net_sends H sent" "clock_steady H time" "client_ok within (cl s)" "get_client_conn_state s \<noteq> 0"
  shows "\<exists>rc s'. qcloud_iot_mqtt_disconnect H s = Some (rc, s') \<and> rc \<le> 0 \<and> events s' = events s \<and>
    event_handle (cl s') = event_handle (cl s) \<and> (rc = QCLOUD_RET_SUCCESS \<longrightarrow> get_client_conn_state s' = 0)"
proof -
  obtain b where b: "serialize_packet_with_zero_payload (write_buf (cl s)) (write_buf_size (cl s)) DISCONNECT = Some (Inr (b, 2))"
    "length b = length (write_buf (cl s))"
    using serialize_zero_payload_returns [of "write_buf_size (cl s)" "write_buf (cl s)" DISCONNECT] assms(3)
    by (auto simp: client_ok_def buffers_ok_def)
  let ?s1 = "cl_update (\<lambda>c. c\<lparr>write_buf := b\<rparr>) s"
  obtain t w where t: "countdown_ms H (unat (command_timeout_ms (cl s))) ?s1 = (t, ?s1\<lparr>env := w\<rparr>)"
    by (rule countdown_ms_cases)
  have "buffers_ok (cl (?s1\<lparr>env := w\<rparr>))" using assms(3) b(2) by (simp add: client_ok_def buffers_ok_def)
  from send_sends [OF assms(1,2) this, of 2 t]
  obtain rc w' where "send_mqtt_packet H 2 t (?s1\<lparr>env := w\<rparr>) = Some (rc, ?s1\<lparr>env := w'\<rparr>)" "rc \<le> 0" by auto
  then show ?thesis
    using assms(4) b(1) t
    by (auto simp: qcloud_iot_mqtt_disconnect_def set_client_conn_state_def get_client_conn_state_def network_disconnect_def)
qed

lemma handle_disconnect_returns:
  assumes "net_sends H sent" "clock_steady H time" "client_ok within (cl s)" "get_client_conn_state s \<noteq> 0"
  shows "\<exists>rc s'. handle_disconnect H s = Some (rc, s') \<and> conn_lost s rc s'"
proof -
  obtain rc s1 where d: "qcloud_iot_mqtt_disconnect H s = Some (rc, s1)" "events s1 = events s"
    "event_handle (cl s1) = event_handle (cl s)" "rc = QCLOUD_RET_SUCCESS \<longrightarrow> get_client_conn_state s1 = 0"
    using disconnect_returns [OF assms] by blast
  then show ?thesis
    using assms(4) by (auto simp: conn_lost_def handle_disconnect_def get_client_conn_state_def set_client_conn_state_def
        network_disconnect_def notify_def call_back_def)
qed

text \<open>The sending loop stops at the first attempt that succeeds; the attempts before it may have left bytes on the wire.\<close>

lemma ping_loop_sends:
  assumes net: "net_sends H sent" and clock: "clock_steady H time" and p: "0 < length p" "length p \<le> 1024"
  shows "buffers_ok (cl s) \<Longrightarrow> take (length p) (write_buf (cl s)) = p \<Longrightarrow>
    \<exists>rc w. ping_loop H (length p) n s = Some (rc, s\<lparr>env := w\<rparr>) \<and> rc \<le> 0 \<and>
      (rc = QCLOUD_RET_SUCCESS \<longrightarrow> (\<exists>junk. transmitted p (sent (env s) @ junk) (sent w))) \<and>
      (\<forall>T. net_works H T \<and> command_timeout_ms (cl s) \<noteq> 0 \<longrightarrow> rc = QCLOUD_RET_SUCCESS \<and> sent w = sent (env s) @ p)"
proof (induction n arbitrary: s)
  case 0
  obtain t w where t: "countdown_ms H (unat (command_timeout_ms (cl s))) s = (t, s\<lparr>env := w\<rparr>)" by (rule countdown_ms_cases)
  have keep: "sent w = sent (env s)" using clock_sends(3) [OF net t] by simp
  have later: "T < t" if "net_works H T" "command_timeout_ms (cl s) \<noteq> 0" for T
    using countdown_later [OF that(1) _ t] that(2) by (simp add: unat_gt_0)
  have "length p < write_buf_size (cl s)" using 0 p(2) by (simp add: buffers_ok_def)
  then obtain rc w' where "send_mqtt_packet H (length p) t (s\<lparr>env := w\<rparr>) = Some (rc, s\<lparr>env := w'\<rparr>)" "rc \<le> 0"
    "rc = QCLOUD_RET_SUCCESS \<longrightarrow> transmitted p (sent (env s)) (sent w')"
    "\<forall>T. net_works H T \<and> T < t \<longrightarrow> rc = QCLOUD_RET_SUCCESS \<and> sent w' = sent (env s) @ p"
    using send_packet [OF net clock, of "s\<lparr>env := w\<rparr>" p t] 0 p keep by auto
  moreover have "transmitted p old new \<Longrightarrow> \<exists>junk. transmitted p (old @ junk) new" for old new by (metis append_Nil2)
  ultimately show ?case using t later by (intro exI [of _ rc] exI [of _ w']) auto
next
  case (Suc n)
  obtain t w where t: "countdown_ms H (unat (command_timeout_ms (cl s))) s = (t, s\<lparr>env := w\<rparr>)" by (rule countdown_ms_cases)
  have keep: "sent w = sent (env s)" using clock_sends(3) [OF net t] by simp
  have later: "T < t" if "net_works H T" "command_timeout_ms (cl s) \<noteq> 0" for T
    using countdown_later [OF that(1) _ t] that(2) by (simp add: unat_gt_0)
  have "length p < write_buf_size (cl s)" using Suc.prems p(2) by (simp add: buffers_ok_def)
  then obtain rc w' where r: "send_mqtt_packet H (length p) t (s\<lparr>env := w\<rparr>) = Some (rc, s\<lparr>env := w'\<rparr>)" "rc \<le> 0"
    "rc = QCLOUD_RET_SUCCESS \<longrightarrow> transmitted p (sent (env s)) (sent w')"
    "\<forall>T. net_works H T \<and> T < t \<longrightarrow> rc = QCLOUD_RET_SUCCESS \<and> sent w' = sent (env s) @ p"
    using send_packet [OF net clock, of "s\<lparr>env := w\<rparr>" p t] Suc.prems p keep by auto
  show ?case
  proof (cases "rc = QCLOUD_RET_SUCCESS")
    case True
    moreover have "transmitted p old new \<Longrightarrow> \<exists>junk. transmitted p (old @ junk) new" for old new by (metis append_Nil2)
    ultimately show ?thesis using t r later by (intro exI [of _ rc] exI [of _ w']) auto
  next
    case False
    obtain wa m where a: "send_mqtt_packet H (length p) t (s\<lparr>env := w\<rparr>) = Some (rc, s\<lparr>env := wa\<rparr>)"
      "sent wa = sent (env s) @ take m (write_buf (cl s))"
      using send_sends [OF net clock, of "s\<lparr>env := w\<rparr>" "length p" t] Suc.prems p keep r(1) by auto
    have "env (s\<lparr>env := w'\<rparr>) = env (s\<lparr>env := wa\<rparr>)" using r(1) a(1) by simp
    then have m: "sent w' = sent (env s) @ take m (write_buf (cl s))" using a(2) by simp
    obtain rc' v where v: "ping_loop H (length p) n (s\<lparr>env := w'\<rparr>) = Some (rc', s\<lparr>env := v\<rparr>)" "rc' \<le> 0"
      "rc' = QCLOUD_RET_SUCCESS \<longrightarrow> (\<exists>junk. transmitted p (sent w' @ junk) (sent v))"
      using Suc.IH [of "s\<lparr>env := w'\<rparr>"] Suc.prems by auto
    have "\<not> (net_works H T \<and> command_timeout_ms (cl s) \<noteq> 0)" for T using r(4) later False by blast
    then show ?thesis using t r(1) False v m by auto
  qed
qed

text \<open>C5. Keep alive always returns. Without a keep-alive interval, or before the ping timer has run out, nothing
  changes and nothing is sent. After that, when two pings are unanswered already the connection is declared lost. When
  fewer are, the sending loop is run on the two bytes of a PINGREQ: if it succeeds, a PINGREQ has been put on the wire, the
  ping is counted and the client stays connected without a callback; if all its attempts fail, and only then, the
  connection is declared lost. On a network that takes writes whole, with a timeout above 0, it succeeds: exactly one
  PINGREQ is put on the wire, and the ping timer is set to half the interval, at most 5 seconds.\<close>

theorem keep_alive_exact:
  assumes net: "net_sends H sent" and clock: "clock_steady H time" and ok: "client_ok within (cl s)"
    and conn: "get_client_conn_state s \<noteq> 0"
  shows "\<exists>rc s'. mqtt_keep_alive H s = Some (rc, s') \<and>
    (if keep_alive_interval (options (cl s)) = 0 \<or> \<not> fst (expired H (ping_timer (cl s)) s)
     then rc = QCLOUD_RET_SUCCESS \<and> cl s' = cl s \<and> events s' = events s \<and> sent (env s') = sent (env s)
     else if is_ping_outstanding (cl s) \<ge> 2 then conn_lost s rc s'
     else (\<exists>b w rcp x. take 2 b = [0xC0, 0] \<and>
             ping_loop H 2 3 (cl_update (\<lambda>c. c\<lparr>write_buf := b\<rparr>) (s\<lparr>env := w\<rparr>)) = Some (rcp, x) \<and>
             (if rcp = QCLOUD_RET_SUCCESS
              then rc = QCLOUD_RET_SUCCESS \<and> is_ping_outstanding (cl s') = is_ping_outstanding (cl s) + 1 \<and>
                get_client_conn_state s' = get_client_conn_state s \<and> events s' = events s \<and>
                (\<exists>junk. transmitted [0xC0, 0] (sent (env s) @ junk) (sent (env s')))
              else conn_lost s rc s')) \<and>
          (\<forall>T. net_works H T \<and> command_timeout_ms (cl s) \<noteq> 0 \<longrightarrow>
             rc = QCLOUD_RET_SUCCESS \<and> sent (env s') = sent (env s) @ [0xC0, 0] \<and>
             ping_timer (cl s') = T + 1000000 * min 5 (unat (keep_alive_interval (options (cl s))) div 2)))"
proof (cases "keep_alive_interval (options (cl s)) = 0 \<or> \<not> fst (expired H (ping_timer (cl s)) s)")
  case True
  then show ?thesis
    using clock_sends(1) [OF net, of "ping_timer (cl s)" s]
    by (cases "expired H (ping_timer (cl s)) s") (auto simp: mqtt_keep_alive_def dest!: expired_env)
next
  case False
  obtain e w where e: "expired H (ping_timer (cl s)) s = (e, s\<lparr>env := w\<rparr>)" by (rule expired_cases)
  have keep: "sent w = sent (env s)" using clock_sends(1) [OF net e] by simp
  have hd: "\<exists>rc s'. handle_disconnect H (s\<lparr>cl := c, env := w'\<rparr>) = Some (rc, s') \<and> conn_lost s rc s'"
    if "client_ok within c" "is_connected c = is_connected (cl s)" "event_handle c = event_handle (cl s)" for c w'
    using handle_disconnect_returns [OF net clock, of within "s\<lparr>cl := c, env := w'\<rparr>"] that conn
    by (auto simp: conn_lost_def get_client_conn_state_def notify_def call_back_def)
  show ?thesis
  proof (cases "is_ping_outstanding (cl s) \<ge> MQTT_PING_RETRY_TIMES")
    case True
    then show ?thesis using False e hd [of "cl s" w] ok by (auto simp: mqtt_keep_alive_def)
  next
    case few: False
    obtain b where b: "serialize_packet_with_zero_payload (write_buf (cl s)) (write_buf_size (cl s)) PINGREQ = Some (Inr (b, 2))"
      "length b = length (write_buf (cl s))" "take 2 b = [0xC0, 0]"
      using serialize_zero_payload_returns [of "write_buf_size (cl s)" "write_buf (cl s)" PINGREQ] ok
      by (auto simp: client_ok_def buffers_ok_def)
    let ?c = "(cl s)\<lparr>write_buf := b\<rparr>"
    have ok': "client_ok within ?c" using ok b(2) by (rule client_ok_write_buf)
    obtain rc w' where p: "ping_loop H 2 3 (s\<lparr>cl := ?c, env := w\<rparr>) = Some (rc, s\<lparr>cl := ?c, env := w'\<rparr>)"
      "rc = QCLOUD_RET_SUCCESS \<longrightarrow> (\<exists>junk. transmitted [0xC0, 0] (sent (env s) @ junk) (sent w'))"
      "\<forall>T. net_works H T \<and> command_timeout_ms (cl s) \<noteq> 0 \<longrightarrow> rc = QCLOUD_RET_SUCCESS \<and> sent w' = sent (env s) @ [0xC0, 0]"
      using ping_loop_sends [OF net clock, of "[0xC0, 0]" "s\<lparr>cl := ?c, env := w\<rparr>" 3] ok' b(3) keep
      by (auto simp: client_ok_def numeral_2_eq_2)
    let ?s1 = "cl_update (\<lambda>c. c\<lparr>is_ping_outstanding := is_ping_outstanding c + 1\<rparr>) (s\<lparr>cl := ?c, env := w'\<rparr>)"
    obtain t w'' where t: "countdown H (min 5 (unat (keep_alive_interval (options (cl s))) div 2)) ?s1 = (t, ?s1\<lparr>env := w''\<rparr>)"
      by (rule countdown_cases)
    have keep2: "sent w'' = sent w'" using clock_sends(4) [OF net t] by simp
    have time: "t = T + 1000000 * min 5 (unat (keep_alive_interval (options (cl s))) div 2)" if "net_works H T" for T
      using t that by (cases "gettimeofday H w'") (auto simp: countdown_def now_def net_works_def dest: spec [of _ w'])
    have eq: "cl_update (\<lambda>c. c\<lparr>write_buf := b\<rparr>) (s\<lparr>env := w\<rparr>) = s\<lparr>cl := ?c, env := w\<rparr>" by (cases s) simp
    have loop: "ping_loop H 2 3 (cl_update (\<lambda>c. c\<lparr>write_buf := b\<rparr>) (s\<lparr>env := w\<rparr>)) = Some (rc, s\<lparr>cl := ?c, env := w'\<rparr>)"
      using p(1) unfolding eq .
    show ?thesis
    proof (cases "rc = 0")
      case True
      let ?s2 = "cl_update (\<lambda>c. c\<lparr>ping_timer := t\<rparr>) (?s1\<lparr>env := w''\<rparr>)"
      have "mqtt_keep_alive H s = Some (QCLOUD_RET_SUCCESS, ?s2)"
        using False few e b(1) p(1) t True by (simp add: mqtt_keep_alive_def eq)
      moreover have "\<exists>junk. transmitted [0xC0, 0] (sent (env s) @ junk) (sent (env ?s2))" using p(2) True keep2 by simp
      moreover have "\<forall>T. net_works H T \<and> command_timeout_ms (cl s) \<noteq> 0 \<longrightarrow> sent (env ?s2) = sent (env s) @ [0xC0, 0]"
        using p(3) keep2 by simp
      ultimately show ?thesis
        using False few True loop b(3) time by (rule_tac x = QCLOUD_RET_SUCCESS in exI, rule_tac x = ?s2 in exI)
          (simp add: get_client_conn_state_def, blast)
    next
      case no: False
      obtain rc2 s2 where d: "handle_disconnect H (s\<lparr>cl := ?c, env := w'\<rparr>) = Some (rc2, s2)" "conn_lost s rc2 s2"
        using hd [of ?c w'] ok' by auto
      have "mqtt_keep_alive H s = Some (rc2, s2)" using False few e b(1) p(1) d no by (simp add: mqtt_keep_alive_def eq)
      moreover have "\<not> (net_works H T \<and> command_timeout_ms (cl s) \<noteq> 0)" for T using p(3) no by blast
      ultimately show ?thesis
        using False few no loop b(3) d(2) by (rule_tac x = rc2 in exI, rule_tac x = s2 in exI) (simp, blast)
    qed
  qed
qed

theorem keep_alive_exact_witness:
  "\<exists>s'. mqtt_keep_alive whole_hal
      \<lparr>cl = idle_client\<lparr>is_connected := 1, is_ping_outstanding := 1, event_handle := True,
         options := no_options\<lparr>keep_alive_interval := 60\<rparr>\<rparr>, env = ([], []), events = []\<rparr> = Some (QCLOUD_RET_SUCCESS, s') \<and>
     concat (snd (env s')) = [0xC0, 0] \<and> ping_timer (cl s') = 5000000"
proof -
  let ?s = "\<lparr>cl = idle_client\<lparr>is_connected := 1, is_ping_outstanding := 1, event_handle := True,
     options := no_options\<lparr>keep_alive_interval := 60\<rparr>\<rparr>, env = ([], []), events = []\<rparr> :: (byte list \<times> byte list list) mqtt"
  have "client_ok (\<lambda>_. True) (cl ?s)" by (simp add: idle_client_def zero_client_def client_ok_def buffers_ok_def)
  moreover have "fst (expired whole_hal (ping_timer (cl ?s)) ?s)"
    by (simp add: expired_def now_def whole_hal_simps idle_client_def zero_client_def)
  moreover have "command_timeout_ms (cl ?s) \<noteq> 0" by (simp add: idle_client_def)
  moreover have "is_ping_outstanding (cl ?s) = 1" "keep_alive_interval (options (cl ?s)) = 60"
    "get_client_conn_state ?s \<noteq> 0" "(concat \<circ> snd) (env ?s) = []" "\<not> (2 :: u8) \<le> 1"
    by (simp_all add: get_client_conn_state_def word_le_nat_alt)
  ultimately show ?thesis
    using keep_alive_exact [OF whole_hal_sends(1) whole_hal_ok(2), of "\<lambda>_. True" ?s] whole_hal_sends(2) by force
qed

section \<open>Reconnection\<close>

text \<open>\<open>retries H n s s'\<close>: \<open>n\<close> attempts in a row that failed and were answered with another one to come. The world
  may have changed in any way before each of them.\<close>

inductive retries :: "'w hal \<Rightarrow> nat \<Rightarrow> 'w mqtt \<Rightarrow> 'w mqtt \<Rightarrow> bool" for H :: "'w hal" where
  None_yet: "retries H 0 s s"
| Retry: "retries H n s t \<Longrightarrow> fst (expired H (reconnect_delay_timer (cl t)) (t\<lparr>env := w\<rparr>)) \<Longrightarrow>
    handle_reconnect H (t\<lparr>env := w\<rparr>) = Some (QCLOUD_ERR_MQTT_ATTEMPTING_RECONNECT, u) \<Longrightarrow> retries H (Suc n) s u"

lemma attempt_reconnect_interval:
  assumes "qcloud_iot_mqtt_attempt_reconnect H s = Some (rc, s')" "client_ok within (cl s)"
  shows "client_ok (\<lambda>i. i = current_reconnect_wait_interval (cl s)) (cl s')"
  using client_bound.attempt_reconnect_ok [OF assms(1), of "\<lambda>i. i = current_reconnect_wait_interval (cl s)"] assms(2)
  by (simp add: client_ok_def)

lemma handle_reconnect_doubles:
  assumes "handle_reconnect H s = Some (QCLOUD_ERR_MQTT_ATTEMPTING_RECONNECT, s')" "client_ok within (cl s)"
    "fst (expired H (reconnect_delay_timer (cl s)) s)"
  shows "client_ok (\<lambda>i. i = current_reconnect_wait_interval (cl s) * 2 \<and> i \<le> MAX_RECONNECT_WAIT_INTERVAL) (cl s')"
proof -
  obtain w where e: "expired H (reconnect_delay_timer (cl s)) s = (True, s\<lparr>env := w\<rparr>)"
    using assms(3) expired_cases by (metis fst_conv)
  obtain rc s1 where a: "qcloud_iot_mqtt_attempt_reconnect H (s\<lparr>env := w\<rparr>) = Some (rc, s1)"
    using assms(1) e by (auto simp: handle_reconnect_def elim!: bind_SomeE)
  have "client_ok (\<lambda>i. i = current_reconnect_wait_interval (cl s)) (cl s1)"
    using attempt_reconnect_interval [OF a, of within] assms(2) by simp
  then show ?thesis
    using assms(1) e a
    by (auto simp: handle_reconnect_def Let_def client_ok_def buffers_ok_def not_less split: if_splits prod.splits dest!: countdown_ms_env)
qed

lemma retries_interval:
  "retries H n s s' \<Longrightarrow> client_ok (at_most MAX_RECONNECT_WAIT_INTERVAL) (cl s) \<Longrightarrow>
     client_ok (\<lambda>i. unat i = unat (current_reconnect_wait_interval (cl s)) * 2 ^ n \<and> i \<le> MAX_RECONNECT_WAIT_INTERVAL) (cl s')"
proof (induction rule: retries.induct)
  case (None_yet s)
  then show ?case by (simp add: client_ok_def)
next
  case (Retry n s t w u)
  then have t: "client_ok (\<lambda>i. unat i = unat (current_reconnect_wait_interval (cl s)) * 2 ^ n \<and> i \<le> MAX_RECONNECT_WAIT_INTERVAL) (cl t)"
    by blast
  then have "client_ok (\<lambda>i. i = current_reconnect_wait_interval (cl t) * 2 \<and> i \<le> MAX_RECONNECT_WAIT_INTERVAL) (cl u)"
    using handle_reconnect_doubles [OF Retry.hyps(3)] Retry.hyps(2) by simp
  moreover have "unat (current_reconnect_wait_interval (cl t) * 2) = unat (current_reconnect_wait_interval (cl t)) * 2"
    using t by (intro double_interval(1)) (simp add: client_ok_def)
  ultimately show ?case using t by (auto simp: client_ok_def)
qed

text \<open>A platform with no network whose world is the time.\<close>

definition down_hal :: "nat hal" where
  "down_hal = \<lparr>gettimeofday = (\<lambda>w. (w, w)), net_read = (\<lambda>n t w. ((QCLOUD_ERR_TCP_READ_FAIL, []), w)),
     net_write = (\<lambda>d t w. ((QCLOUD_ERR_FAILURE, 0), w)), net_connect = (\<lambda>w. (QCLOUD_ERR_FAILURE, w)),
     net_disconnect = (\<lambda>w. w), hal_malloc = (\<lambda>w. (True, w)), c_srand = (\<lambda>n w. w), c_rand = (\<lambda>w. (0, w)),
     hal_sleep = (\<lambda>n w. w + 1000 * n)\<rparr>"

lemma down_hal_simps: "gettimeofday down_hal w = (w, w)" "net_connect down_hal w = (QCLOUD_ERR_FAILURE, w)"
  "net_disconnect down_hal w = w" "c_srand down_hal n w = w" "c_rand down_hal w = (0, w)"
  by (simp_all add: down_hal_def)

text \<open>C6. The back-off: after the connection is lost the waiting interval starts between one and two seconds; every
  failed attempt doubles it, and at most five failed attempts are followed by another one. A
  further failure takes the interval over one minute, and the client gives up with
  \<open>QCLOUD_ERR_MQTT_RECONNECT_TIMEOUT\<close>.\<close>

theorem reconnect_backoff:
  assumes ok: "client_ok within (cl s)" and run: "retries H n (start_reconnect H s) s'"
  shows "\<exists>i. 1000 \<le> i \<and> i \<le> 1990 \<and> unat (current_reconnect_wait_interval (cl s')) = i * 2 ^ n \<and> n \<le> 5 \<and>
    unat (current_reconnect_wait_interval (cl s')) \<le> 60000"
proof -
  obtain i s1 where i: "get_random_interval H s = (i, s1)" by fastforce
  have r: "1000 \<le> unat i" "unat i \<le> 1990" using random_interval_range [OF i] by (simp_all add: word_le_nat_alt)
  let ?s = "start_reconnect H s"
  have "cl s1 = cl s" using get_random_interval_env [OF i] by auto
  then have s: "client_ok (\<lambda>j. j = i) (cl ?s)"
    using ok i by (auto simp: start_reconnect_def Let_def client_ok_def buffers_ok_def split: prod.splits dest!: countdown_ms_env)
  then have "client_ok (at_most MAX_RECONNECT_WAIT_INTERVAL) (cl ?s)"
    using r by (auto simp: client_ok_def word_le_nat_alt)
  from retries_interval [OF run this] s
  have u: "unat (current_reconnect_wait_interval (cl s')) = unat i * 2 ^ n" "unat (current_reconnect_wait_interval (cl s')) \<le> 60000"
    by (auto simp: client_ok_def word_le_nat_alt)
  have "n \<le> 5"
  proof (rule ccontr)
    assume "\<not> n \<le> 5"
    then have "(2 :: nat) ^ 6 \<le> 2 ^ n" by (intro power_increasing) simp_all
    then have "1000 * 2 ^ 6 \<le> unat i * 2 ^ n" using r(1) by (intro mult_le_mono) simp_all
    then show False using u by simp
  qed
  then show ?thesis using r u by blast
qed

theorem reconnect_backoff_witness:
  "\<exists>s' i. retries down_hal 1 (start_reconnect down_hal \<lparr>cl = idle_client, env = 0, events = []\<rparr>) s' \<and>
     1000 \<le> i \<and> i \<le> 1990 \<and> unat (current_reconnect_wait_interval (cl s')) = i * 2"
proof -
  let ?s = "\<lparr>cl = idle_client, env = 0 :: nat, events = []\<rparr>"
  have ok: "client_ok (\<lambda>_. True) (cl ?s)" by (simp add: idle_client_def zero_client_def client_ok_def buffers_ok_def)
  define t where "t = start_reconnect down_hal ?s"
  have t: "t = \<lparr>cl = idle_client\<lparr>current_reconnect_wait_interval := 1000, reconnect_delay_timer := 1000000\<rparr>, env = 0, events = []\<rparr>"
    by (simp add: t_def start_reconnect_def get_random_interval_def get_time_ms_def now_def srand_def rand_def countdown_ms_def
        down_hal_simps)
  have "fst (expired down_hal (reconnect_delay_timer (cl t)) (t\<lparr>env := 2000000\<rparr>))"
    by (simp add: t expired_def now_def down_hal_simps)
  moreover have "\<exists>u. handle_reconnect down_hal (t\<lparr>env := 2000000\<rparr>) = Some (QCLOUD_ERR_MQTT_ATTEMPTING_RECONNECT, u)"
    by (simp add: t handle_reconnect_def expired_def now_def down_hal_simps qcloud_iot_mqtt_attempt_reconnect_def
        qcloud_iot_mqtt_connect_def mqtt_connect_def countdown_ms_def get_client_conn_state_def network_disconnect_def
        idle_client_def zero_client_def)
  ultimately obtain u where run: "retries down_hal (Suc 0) t u"
    by (metis retries.None_yet retries.Retry)
  from reconnect_backoff [OF ok, of down_hal "Suc 0" u] run show ?thesis by (auto simp: t_def)
qed

end
