(* ===== verification/Mqtt_Client.thy ===== *)
theory Mqtt_Client
  imports Mqtt_Session
begin

text \<open>
  \<^verbatim>\<open>sdk_src/protocol/mqtt/mqtt_client.c\<close>: making, running and destroying a client, with
  \<^verbatim>\<open>iot_device_info_set\<close> of \<^verbatim>\<open>qcloud_iot_device.c\<close> and the domain table of \<^verbatim>\<open>qcloud_iot_ca.c\<close>.
\<close>

section \<open>Device information and server address\<close>

abbreviation MAX_SIZE_OF_PRODUCT_ID :: nat where "MAX_SIZE_OF_PRODUCT_ID \<equiv> 10"
abbreviation MAX_SIZE_OF_DEVICE_NAME :: nat where "MAX_SIZE_OF_DEVICE_NAME \<equiv> 48"
abbreviation MAX_SIZE_OF_CLIENT_ID :: nat where "MAX_SIZE_OF_CLIENT_ID \<equiv> 80"
abbreviation HOST_STR_LENGTH :: nat where "HOST_STR_LENGTH \<equiv> 64"
abbreviation MIN_COMMAND_TIMEOUT :: u32 where "MIN_COMMAND_TIMEOUT \<equiv> 500"
abbreviation MAX_COMMAND_TIMEOUT :: u32 where "MAX_COMMAND_TIMEOUT \<equiv> 20000"

record DeviceInfo =
  di_product_id :: "byte list"
  di_device_name :: "byte list"
  di_client_id :: "byte list"

definition iot_device_info_set :: "byte list \<Rightarrow> byte list \<Rightarrow> int + DeviceInfo" where
  "iot_device_info_set product device =
     (if MAX_SIZE_OF_PRODUCT_ID < length product then Inl QCLOUD_ERR_FAILURE
      else if MAX_SIZE_OF_DEVICE_NAME < length device then Inl QCLOUD_ERR_FAILURE
      else if length (product @ device) \<ge> MAX_SIZE_OF_CLIENT_ID then Inl QCLOUD_ERR_FAILURE
      else Inr \<lparr>di_product_id = product, di_device_name = device, di_client_id = product @ device\<rparr>)"

definition sg_iot_mqtt_coap_domain :: "(byte list \<times> byte list) list" where
  "sg_iot_mqtt_coap_domain =
     [(cstr ''china'', cstr ''iotcloud.tencentdevices.com''),
      (cstr ''us-east'', cstr ''us-east.iotcloud.tencentdevices.com''),
      (cstr ''europe'', cstr ''europe.iothub.tencentdevices.com''),
      (cstr ''ap-bangkok'', cstr ''ap-bangkok.iothub.tencentdevices.com'')]"

text \<open>\<^verbatim>\<open>iot_get_domain\<close> on that table; a null region is \<^const>\<open>None\<close>.\<close>

definition iot_get_mqtt_domain :: "byte list option \<Rightarrow> byte list" where
  "iot_get_mqtt_domain region =
     (case region of
        None \<Rightarrow> snd (hd sg_iot_mqtt_coap_domain)
      | Some r \<Rightarrow> (case map_of sg_iot_mqtt_coap_domain r of
                    None \<Rightarrow> snd (hd sg_iot_mqtt_coap_domain) | Some d \<Rightarrow> d))"

section \<open>Initialisation\<close>

record MQTTInitParams =
  ip_region :: "byte list option"
  ip_product_id :: "byte list"
  ip_device_name :: "byte list"
  ip_device_secret :: "byte list option"
  ip_command_timeout :: u32
  ip_keep_alive_interval_ms :: u32
  ip_clean_session :: u8
  ip_auto_connect_enable :: u8
  ip_event_handle :: bool
  ip_err_code :: int

definition get_random_start_packet_id :: "'w hal \<Rightarrow> 'w mqtt \<Rightarrow> u16 \<times> 'w mqtt" where
  "get_random_start_packet_id H s =
     (let (ms, s) = get_time_ms H s; s = srand H (ms mod 2 ^ 32) s; (r, s) = rand H s
      in (of_nat (r mod 65536 + 1), s))"

text \<open>The four locks and the two lists are allocations, tried in this order until one fails.\<close>

primrec allocate_all :: "'w hal \<Rightarrow> nat \<Rightarrow> 'w mqtt \<Rightarrow> bool \<times> 'w mqtt" where
  "allocate_all H 0 s = (True, s)"
| "allocate_all H (Suc n) s = (let (ok, s) = HAL_Malloc H s in if ok then allocate_all H n s else (False, s))"

text \<open>\<^verbatim>\<open>qcloud_iot_mqtt_init\<close>. The device secret is copied before anything has tested it: a null pointer
  is a fault here. The device information is part of the result.\<close>

definition qcloud_iot_mqtt_init :: "'w hal \<Rightarrow> MQTTInitParams \<Rightarrow> 'w mqtt \<Rightarrow> ((int + DeviceInfo) \<times> 'w mqtt) option" where
  "qcloud_iot_mqtt_init H pParams s = do {
     let s = s\<lparr>cl := zero_client\<rparr>;
     let device_info = iot_device_info_set (ip_product_id pParams) (ip_device_name pParams);
     region \<leftarrow> ip_region pParams;
     secret \<leftarrow> ip_device_secret pParams;
     (case device_info of
        Inl rc \<Rightarrow> Some (Inl rc, s)
      | Inr di \<Rightarrow>
          let host_size = length (ip_product_id pParams) + 1 + length (iot_get_mqtt_domain (Some region))
          in if host_size > HOST_STR_LENGTH - 1 then Some (Inl QCLOUD_ERR_FAILURE, s)
             else let timeout = (if ip_command_timeout pParams < MIN_COMMAND_TIMEOUT then MIN_COMMAND_TIMEOUT
                                 else ip_command_timeout pParams);
                      timeout = (if timeout > MAX_COMMAND_TIMEOUT then MAX_COMMAND_TIMEOUT else timeout);
                      (i, s) = get_random_start_packet_id H s;
                      s = cl_update (\<lambda>c. c\<lparr>command_timeout_ms := timeout, next_packet_id := i,
                            write_buf_size := QCLOUD_IOT_MQTT_TX_BUF_LEN, read_buf_size := QCLOUD_IOT_MQTT_RX_BUF_LEN,
                            event_handle := ip_event_handle pParams\<rparr>) s;
                      (ok, s) = allocate_all H 6 s
                  in Some (if ok then Inr di else Inl QCLOUD_ERR_FAILURE, s)) }"

definition qcloud_iot_mqtt_fini :: "'w mqtt \<Rightarrow> 'w mqtt" where
  "qcloud_iot_mqtt_fini s = cl_update (\<lambda>c. c\<lparr>list_pub_wait_ack := [], list_sub_wait_ack := []\<rparr>) s"

section \<open>Construction and destruction\<close>

definition connect_params :: "MQTTInitParams \<Rightarrow> DeviceInfo \<Rightarrow> byte list \<Rightarrow> MQTTConnectParams" where
  "connect_params pParams di secret =
     \<lparr>client_id = di_client_id di, username = None, password = None, conn_id = [], mqtt_version = 4,
      keep_alive_interval = of_nat (min (unat (ip_keep_alive_interval_ms pParams) div 1000) 690),
      clean_session = ip_clean_session pParams, auto_connect_enable = ip_auto_connect_enable pParams,
      device_secret = Some secret\<rparr>"

text \<open>\<^verbatim>\<open>IOT_MQTT_Construct\<close>: \<open>Inl\<close> is the null handle with \<open>pParams->err_code\<close>.\<close>

definition IOT_MQTT_Construct :: "'w hal \<Rightarrow> MQTTInitParams \<Rightarrow> 'w mqtt \<Rightarrow> ((int + unit) \<times> 'w mqtt) option" where
  "IOT_MQTT_Construct H pParams s =
     (if ip_product_id pParams = [] \<or> ip_device_name pParams = [] then Some (Inl (ip_err_code pParams), s)
      else let (ok, s) = HAL_Malloc H s
      in if \<not> ok then Some (Inl QCLOUD_ERR_MALLOC, s)
         else do {
           (r, s) \<leftarrow> qcloud_iot_mqtt_init H pParams s;
           (case r of
              Inl rc \<Rightarrow> Some (Inl rc, s)
            | Inr di \<Rightarrow>
                (case ip_device_secret pParams of
                   None \<Rightarrow> Some (Inl QCLOUD_ERR_INVAL, qcloud_iot_mqtt_fini s)
                 | Some secret \<Rightarrow> do {
                     (rc, len, psk) \<leftarrow> qcloud_iot_utils_base64decode (Some (replicate DECODE_PSK_LENGTH 0))
                                        DECODE_PSK_LENGTH (secret @ [0]) (length secret);
                     if rc \<noteq> QCLOUD_RET_SUCCESS then Some (Inl QCLOUD_ERR_INVAL, qcloud_iot_mqtt_fini s)
                     else do {
                       len \<leftarrow> len;
                       psk \<leftarrow> psk;
                       let s = cl_update (\<lambda>c. c\<lparr>psk_decode := psk\<rparr>) s;
                       (rc, s) \<leftarrow> qcloud_iot_mqtt_connect H (connect_params pParams di (take len psk)) s;
                       if rc \<noteq> QCLOUD_RET_SUCCESS then Some (Inl rc, qcloud_iot_mqtt_fini s)
                       else Some (Inr (), s) } })) })"

fun destroy_handles :: "SubTopicHandle list \<Rightarrow> 'w mqtt \<Rightarrow> SubTopicHandle list \<times> 'w mqtt" where
  "destroy_handles [] s = ([], s)"
| "destroy_handles (h # hs) s =
     (if topic_filter h = None then let (hs, s) = destroy_handles hs s in (h # hs, s)
      else let s = notify_sub h MQTT_EVENT_CLIENT_DESTROY s;
               (hs, s) = destroy_handles hs s
           in (h\<lparr>topic_filter := None\<rparr> # hs, s))"

definition IOT_MQTT_Destroy :: "'w hal \<Rightarrow> 'w mqtt \<Rightarrow> (int \<times> 'w mqtt) option" where
  "IOT_MQTT_Destroy H s = do {
     (rc, s) \<leftarrow> qcloud_iot_mqtt_disconnect H s;
     let s = (if rc \<noteq> QCLOUD_RET_SUCCESS then set_client_conn_state 0 (network_disconnect H s) else s);
     let (hs, s) = destroy_handles (sub_handles (cl s)) s;
     let s = cl_update (\<lambda>c. reset_repeat_packet_id_buffer (c\<lparr>sub_handles := hs\<rparr>)) s;
     Some (rc, qcloud_iot_mqtt_fini s) }"

section \<open>The yield thread\<close>

text \<open>\<^verbatim>\<open>_mqtt_yield_thread\<close>. Another thread clears \<open>thread_running\<close>; \<open>running\<close> is what the tests of the
  flag read, one after the other, and the thread goes on for as long as it is true.
  The \<open>rc\<close> of the loop body shadows the one that is stored in the end.\<close>

fun yield_thread_loop :: "'w hal \<Rightarrow> bool list \<Rightarrow> 'w mqtt \<Rightarrow> 'w mqtt option" where
  "yield_thread_loop H [] s = Some s"
| "yield_thread_loop H (r # rs) s =
     (if \<not> r then Some s
      else do {
        (rc, s) \<leftarrow> qcloud_iot_mqtt_yield H 500 s;
        if rc = QCLOUD_ERR_MQTT_ATTEMPTING_RECONNECT then yield_thread_loop H rs (HAL_SleepMs H 500 s)
        else if rc = QCLOUD_RET_MQTT_MANUALLY_DISCONNECTED \<or> rc = QCLOUD_ERR_MQTT_RECONNECT_TIMEOUT then Some s
        else yield_thread_loop H rs (HAL_SleepMs H 200 s) })"

definition mqtt_yield_thread :: "'w hal \<Rightarrow> bool list \<Rightarrow> 'w mqtt \<Rightarrow> 'w mqtt option" where
  "mqtt_yield_thread H running s = do {
     let rc = QCLOUD_RET_SUCCESS;
     s \<leftarrow> yield_thread_loop H running s;
     Some (cl_update (\<lambda>c. c\<lparr>thread_running := False, thread_exit_code := rc\<rparr>) s) }"

text \<open>\<open>created\<close> is the result of \<^verbatim>\<open>HAL_ThreadCreate\<close>.\<close>

definition IOT_MQTT_StartLoop :: "'w hal \<Rightarrow> int \<Rightarrow> 'w mqtt \<Rightarrow> int \<times> 'w mqtt" where
  "IOT_MQTT_StartLoop H created s =
     (let s = cl_update (\<lambda>c. c\<lparr>thread_running := True\<rparr>) s
      in if created \<noteq> 0 then (QCLOUD_ERR_FAILURE, s) else (QCLOUD_RET_SUCCESS, HAL_SleepMs H 500 s))"

definition IOT_MQTT_StopLoop :: "'w hal \<Rightarrow> 'w mqtt \<Rightarrow> 'w mqtt" where
  "IOT_MQTT_StopLoop H s = HAL_SleepMs H 1000 (cl_update (\<lambda>c. c\<lparr>thread_running := False\<rparr>) s)"

definition IOT_MQTT_GetLoopStatus :: "'w mqtt \<Rightarrow> bool \<times> int" where
  "IOT_MQTT_GetLoopStatus s = (thread_running (cl s), thread_exit_code (cl s))"

definition IOT_MQTT_SetLoopStatus :: "bool \<Rightarrow> 'w mqtt \<Rightarrow> 'w mqtt" where
  "IOT_MQTT_SetLoopStatus loop_status s = cl_update (\<lambda>c. c\<lparr>thread_running := loop_status\<rparr>) s"

definition IOT_MQTT_IsConnected :: "'w mqtt \<Rightarrow> bool" where
  "IOT_MQTT_IsConnected s \<longleftrightarrow> get_client_conn_state s = 1"

definition qcloud_iot_mqtt_set_autoreconnect :: "bool \<Rightarrow> 'w mqtt \<Rightarrow> 'w mqtt" where
  "qcloud_iot_mqtt_set_autoreconnect value s =
     cl_update (\<lambda>c. c\<lparr>options := (options c)\<lparr>auto_connect_enable := (if value then 1 else 0)\<rparr>\<rparr>) s"

definition qcloud_iot_mqtt_is_autoreconnect_enabled :: "'w mqtt \<Rightarrow> bool" where
  "qcloud_iot_mqtt_is_autoreconnect_enabled s \<longleftrightarrow> auto_connect_enable (options (cl s)) = 1"

definition qcloud_iot_mqtt_get_network_disconnected_count :: "'w mqtt \<Rightarrow> int" where
  "qcloud_iot_mqtt_get_network_disconnected_count s = sint (counter_network_disconnected (cl s))"

definition qcloud_iot_mqtt_reset_network_disconnected_count :: "'w mqtt \<Rightarrow> 'w mqtt" where
  "qcloud_iot_mqtt_reset_network_disconnected_count s = cl_update (\<lambda>c. c\<lparr>counter_network_disconnected := 0\<rparr>) s"


section \<open>The calls of an application\<close>

text \<open>One call of the interface on a constructed client, or one run of the yield thread. Calls are atomic: each of
  them holds the locks of what it touches, and callbacks do not call back into the client.\<close>

inductive client_step :: "'w hal \<Rightarrow> 'w mqtt \<Rightarrow> 'w mqtt \<Rightarrow> bool" for H :: "'w hal" where
  Publish: "qcloud_iot_mqtt_publish H topic p s = Some (r, s') \<Longrightarrow> client_step H s s'"
| Subscribe: "qcloud_iot_mqtt_subscribe H topic sp s = Some (r, s') \<Longrightarrow> client_step H s s'"
| Unsubscribe: "qcloud_iot_mqtt_unsubscribe H topic s = Some (r, s') \<Longrightarrow> client_step H s s'"
| Connect: "qcloud_iot_mqtt_connect H cp s = Some (r, s') \<Longrightarrow> client_step H s s'"
| Disconnect: "qcloud_iot_mqtt_disconnect H s = Some (r, s') \<Longrightarrow> client_step H s s'"
| Yield: "IOT_MQTT_Yield H n s = Some (r, s') \<Longrightarrow> client_step H s s'"
| Yield_mt: "qcloud_iot_mqtt_yield_mt H n s = Some (r, s') \<Longrightarrow> client_step H s s'"
| Start: "IOT_MQTT_StartLoop H created s = (r, s') \<Longrightarrow> client_step H s s'"
| Thread: "mqtt_yield_thread H running s = Some s' \<Longrightarrow> client_step H s s'"
| Stop: "client_step H s (IOT_MQTT_StopLoop H s)"
| Set_status: "client_step H s (IOT_MQTT_SetLoopStatus b s)"
| Autoreconnect: "client_step H s (qcloud_iot_mqtt_set_autoreconnect b s)"
| Reset_count: "client_step H s (qcloud_iot_mqtt_reset_network_disconnected_count s)"

inductive_cases client_stepE: "client_step H s s'"

lemma yield_thread_loop_ok:
  "yield_thread_loop H rs s = Some s' \<Longrightarrow> client_ok (at_most MAX_INTERVAL) (cl s) \<Longrightarrow> client_ok (at_most MAX_INTERVAL) (cl s')"
proof (induction rs arbitrary: s)
  case Nil
  then show ?case by simp
next
  case (Cons r rs)
  note IH = Cons.IH
  show ?case
    using Cons.prems by (auto simp: HAL_SleepMs_def elim!: bind_SomeE split: model_splits dest!: yield_ok IH)
qed

lemma client_ok_status:
  "client_ok within c \<Longrightarrow> client_ok within (c\<lparr>thread_running := b\<rparr>)"
  "client_ok within c \<Longrightarrow> client_ok within (c\<lparr>thread_running := b, thread_exit_code := r\<rparr>)"
  "client_ok within c \<Longrightarrow> client_ok within (c\<lparr>psk_decode := psk\<rparr>)"
  by (simp_all add: client_ok_def buffers_ok_def)

lemma client_step_ok: "client_step H s s' \<Longrightarrow> client_ok (at_most MAX_INTERVAL) (cl s) \<Longrightarrow> client_ok (at_most MAX_INTERVAL) (cl s')"
  by (auto simp: IOT_MQTT_Yield_def qcloud_iot_mqtt_yield_mt_def IOT_MQTT_StartLoop_def mqtt_yield_thread_def
      IOT_MQTT_StopLoop_def IOT_MQTT_SetLoopStatus_def HAL_SleepMs_def qcloud_iot_mqtt_set_autoreconnect_def Let_def
      qcloud_iot_mqtt_reset_network_disconnected_count_def client_ok_status client_ok_fields elim!: client_stepE bind_SomeE split: if_splits
      dest!: session.publish_ok session.subscribe_ok session.unsubscribe_ok session.connect_ok session.disconnect_ok
        yield_ok yield_thread_loop_ok)

lemma allocate_all_env: "allocate_all H n s = (ok, s') \<Longrightarrow> \<exists>w. s' = s\<lparr>env := w\<rparr>"
proof (induction n arbitrary: s)
  case 0
  then show ?case by (auto intro!: exI [of _ "env s"])
next
  case (Suc n)
  note IH = Suc.IH
  show ?case using Suc.prems by (auto simp: env_update_ex split: model_splits dest!: HAL_Malloc_env IH)
qed

lemma init_ok: "qcloud_iot_mqtt_init H p s = Some (Inr di, s') \<Longrightarrow> client_ok (at_most MAX_INTERVAL) (cl s')"
  by (auto simp: qcloud_iot_mqtt_init_def get_random_start_packet_id_def srand_def Let_def elim!: bind_SomeE split: model_splits
      dest!: allocate_all_env get_time_ms_env rand_env)
     (simp_all add: client_ok_def buffers_ok_def zero_client_def)

lemma construct_ok: "IOT_MQTT_Construct H p s = Some (Inr (), s') \<Longrightarrow> client_ok (at_most MAX_INTERVAL) (cl s')"
  by (auto simp: IOT_MQTT_Construct_def Let_def client_ok_status elim!: bind_SomeE split: model_splits
      dest!: init_ok session.connect_ok HAL_Malloc_env)

text \<open>A client that was set up, connected or not.\<close>

definition constructed :: "'w hal \<Rightarrow> 'w mqtt \<Rightarrow> bool" where
  "constructed H s \<longleftrightarrow>
     (\<exists>p s0 di. qcloud_iot_mqtt_init H p s0 = Some (Inr di, s)) \<or> (\<exists>p s0. IOT_MQTT_Construct H p s0 = Some (Inr (), s))"

interpretation client: component "constructed H" "client_step H" "\<lambda>s. client_ok (at_most MAX_INTERVAL) (cl s)" for H
  by unfold_locales (auto simp: constructed_def intro: init_ok construct_ok client_step_ok)

definition demo_params :: MQTTInitParams where
  "demo_params = \<lparr>ip_region = Some (cstr ''china''), ip_product_id = cstr ''P'', ip_device_name = cstr ''d'',
     ip_device_secret = Some (cstr ''c2VjcmV0''), ip_command_timeout = 100, ip_keep_alive_interval_ms = 240000,
     ip_clean_session = 1, ip_auto_connect_enable = 1, ip_event_handle = True, ip_err_code = 0\<rparr>"

lemma allocate_all_whole: "allocate_all whole_hal n s = (True, s)"
  by (induction n) (simp_all add: HAL_Malloc_def whole_hal_simps)

section \<open>Properties\<close>

text \<open>C3. Whatever an application calls in whatever order on a client that was set up, and whatever the
  network, the clock and the allocator do: the buffers and tables keep their sizes, at most 20 published messages
  and 10 (un)subscriptions wait for an acknowledgement, at most 2 pings are
  outstanding, the index into the remembered packet ids stays inside them, and the reconnection interval is at most
  two minutes (120000 ms), so that doubling it never wraps.\<close>

theorem client_invariant:
  assumes "constructed H s" "(client_step H)\<^sup>*\<^sup>* s s'"
  shows "length (write_buf (cl s')) = QCLOUD_IOT_MQTT_TX_BUF_LEN \<and> length (read_buf (cl s')) = QCLOUD_IOT_MQTT_RX_BUF_LEN \<and>
    write_buf_size (cl s') = QCLOUD_IOT_MQTT_TX_BUF_LEN \<and> read_buf_size (cl s') = QCLOUD_IOT_MQTT_RX_BUF_LEN \<and>
    length (sub_handles (cl s')) = MAX_MESSAGE_HANDLERS \<and>
    length (repeat_packet_id_buf (cl s')) = MQTT_MAX_REPEAT_BUF_LEN \<and> current_packet_id_cnt (cl s') < MQTT_MAX_REPEAT_BUF_LEN \<and>
    length (list_pub_wait_ack (cl s')) \<le> MAX_REPUB_NUM \<and> length (list_sub_wait_ack (cl s')) \<le> MAX_MESSAGE_HANDLERS \<and>
    is_ping_outstanding (cl s') \<le> MQTT_PING_RETRY_TIMES \<and>
    current_reconnect_wait_interval (cl s') \<le> 2 * MAX_RECONNECT_WAIT_INTERVAL"
  using client.reachable_inv [OF assms] by (simp add: client_ok_def buffers_ok_def)

theorem client_invariant_witness:
  "\<exists>s s' :: (byte list \<times> byte list list) mqtt. constructed whole_hal s \<and> s' = IOT_MQTT_StopLoop whole_hal s \<and>
     current_reconnect_wait_interval (cl s') \<le> 2 * MAX_RECONNECT_WAIT_INTERVAL"
proof -
  let ?z = "\<lparr>cl = zero_client, env = ([], []), events = []\<rparr>"
  have "\<exists>s. qcloud_iot_mqtt_init whole_hal demo_params ?z = Some (Inr \<lparr>di_product_id = cstr ''P'', di_device_name = cstr ''d'',
      di_client_id = cstr ''Pd''\<rparr>, s)"
    by (simp add: qcloud_iot_mqtt_init_def demo_params_def iot_device_info_set_def iot_get_mqtt_domain_def
        sg_iot_mqtt_coap_domain_def cstr_def get_random_start_packet_id_def get_time_ms_def now_def srand_def rand_def
        allocate_all_whole whole_hal_simps)
  then obtain s where s: "constructed whole_hal s" by (auto simp: constructed_def)
  have "(client_step whole_hal)\<^sup>*\<^sup>* s (IOT_MQTT_StopLoop whole_hal s)" by (intro r_into_rtranclp client_step.Stop)
  from client_invariant [OF s this] s show ?thesis by blast
qed

end
