(* ===== verification/Coap_Client.thy ===== *)
theory Coap_Client
  imports Coap_Codec Mqtt_Client
begin

text \<open>
  The CoAP client of \<^verbatim>\<open>sdk_src/protocol/coap\<close>: the list of requests that wait for their acknowledgement or their
  response (\<^verbatim>\<open>coap_client_message.c\<close>), authentication (\<^verbatim>\<open>coap_client_auth.c\<close>), and the interface functions
  (\<^verbatim>\<open>coap_client.c\<close>), on the platform of \<^verbatim>\<open>Mqtt_Net\<close>. The build is without DTLS.

  A callback of the user is recorded; the callback of the authentication exchange is run.
\<close>

section \<open>State\<close>

abbreviation COAP_SENDMSG_MAX_BUFLEN :: nat where "COAP_SENDMSG_MAX_BUFLEN \<equiv> 512"
abbreviation COAP_RECVMSG_MAX_BUFLEN :: nat where "COAP_RECVMSG_MAX_BUFLEN \<equiv> 512"
abbreviation COAP_MAX_CONN_ID_LEN :: nat where "COAP_MAX_CONN_ID_LEN \<equiv> 6"
abbreviation URI_PATH_MAX_LEN :: nat where "URI_PATH_MAX_LEN \<equiv> 128"
abbreviation COAP_MAX_COMMAND_TIMEOUT :: u32 where "COAP_MAX_COMMAND_TIMEOUT \<equiv> 5000"
abbreviation COAP_MSG_URI_PATH :: u32 where "COAP_MSG_URI_PATH \<equiv> 11"
abbreviation COAP_MSG_AUTH_TOKEN :: u32 where "COAP_MSG_AUTH_TOKEN \<equiv> 61"
abbreviation COAP_MSG_NEED_RESP :: u32 where "COAP_MSG_NEED_RESP \<equiv> 62"

datatype CoAPNodeState = COAP_NODE_STATE_NORMANL | COAP_NODE_STATE_INVALID

datatype CoAPEventType =
  COAP_EVENT_RECEIVE_ACK | COAP_EVENT_RECEIVE_RESPCONTENT | COAP_EVENT_UNAUTHORIZED | COAP_EVENT_FORBIDDEN
| COAP_EVENT_INTERNAL_SERVER_ERROR | COAP_EVENT_ACK_TIMEOUT | COAP_EVENT_SEPRESP_TIMEOUT

text \<open>\<open>si_token\<close> is the part of the array that was copied; \<open>si_message\<close> is null when its allocation failed.\<close>

record CoAPMsgSendInfo =
  si_node_state :: CoAPNodeState
  si_user_context :: nat
  si_msg_id :: u16
  si_acked :: bool
  si_token_len :: u8
  si_token :: "byte list"
  si_retrans_count :: u8
  si_start_time :: Timer
  si_message :: "byte list option"
  si_msglen :: nat
  si_handler :: "coap_callback option"

text \<open>\<open>list_made\<close>: whether \<^verbatim>\<open>list_new\<close> gave a list, which \<^verbatim>\<open>qcloud_iot_coap_init\<close> does not test.\<close>

record CoAPClient =
  is_authed :: int
  cc_conn_id :: "byte list"
  message_token :: u32
  auth_token :: "byte list option"
  auth_token_len :: nat
  next_msg_id :: u16
  send_buf_size :: nat
  recv_buf_size :: nat
  send_buf :: "byte list"
  recv_buf :: "byte list"
  cc_timeout_ms :: u32
  list_made :: bool
  message_list :: "CoAPMsgSendInfo list"
  max_retry_count :: u8
  cc_event_handle :: bool   \<comment> \<open>whether \<^verbatim>\<open>event_handle.h_fp\<close> is set\<close>
  cc_device_info :: DeviceInfo

definition zero_coap_client :: CoAPClient where
  "zero_coap_client = \<lparr>is_authed = 0, cc_conn_id = [], message_token = 0, auth_token = None, auth_token_len = 0, next_msg_id = 0,
     send_buf_size = 0, recv_buf_size = 0, send_buf = replicate COAP_SENDMSG_MAX_BUFLEN 0,
     recv_buf = replicate COAP_RECVMSG_MAX_BUFLEN 0, cc_timeout_ms = 0, list_made = False, message_list = [], max_retry_count = 0,
     cc_event_handle = False, cc_device_info = \<lparr>di_product_id = [], di_device_name = [], di_client_id = []\<rparr>\<rparr>"

text \<open>What the event handler gets as \<^verbatim>\<open>message\<close>: the message id as a pointer value, or the message.\<close>

datatype coap_event_msg = Event_Id u16 | Event_Message CoAPMessage

datatype coap_event =
  On_Response nat CoAPMessage nat
| On_Coap_Event CoAPEventType coap_event_msg

record 'w coap =
  cc :: CoAPClient
  cenv :: 'w
  cevents :: "coap_event list"

definition coap_call_back :: "coap_event \<Rightarrow> 'w coap \<Rightarrow> 'w coap" where
  "coap_call_back e s = s\<lparr>cevents := cevents s @ [e]\<rparr>"

section \<open>The platform as the CoAP client uses it\<close>

definition coap_now :: "'w hal \<Rightarrow> 'w coap \<Rightarrow> nat \<times> 'w coap" where
  "coap_now H s = (let (t, w) = gettimeofday H (cenv s) in (t, s\<lparr>cenv := w\<rparr>))"

definition coap_countdown_ms :: "'w hal \<Rightarrow> nat \<Rightarrow> 'w coap \<Rightarrow> Timer \<times> 'w coap" where
  "coap_countdown_ms H timeout_ms s =
     (let (t, s) = coap_now H s in (t + 1000000 * (timeout_ms div 1000) + 1000 * (timeout_ms mod 1000), s))"

definition coap_left_ms :: "'w hal \<Rightarrow> Timer \<Rightarrow> 'w coap \<Rightarrow> nat \<times> 'w coap" where
  "coap_left_ms H timer s =
     (let (t, s) = coap_now H s in (if timer < t then 0 else (timer - t) div 1000000 * 1000 + (timer - t) mod 1000000 div 1000, s))"

definition coap_malloc :: "'w hal \<Rightarrow> 'w coap \<Rightarrow> bool \<times> 'w coap" where
  "coap_malloc H s = (let (ok, w) = hal_malloc H (cenv s) in (ok, s\<lparr>cenv := w\<rparr>))"

definition coap_write :: "'w hal \<Rightarrow> byte list \<Rightarrow> nat \<Rightarrow> 'w coap \<Rightarrow> (int \<times> nat) \<times> 'w coap" where
  "coap_write H data timeout s = (let (r, w) = net_write H data timeout (cenv s) in (r, s\<lparr>cenv := w\<rparr>))"

text \<open>\<^verbatim>\<open>srand(time(NULL))\<close>.\<close>

definition coap_seed :: "'w hal \<Rightarrow> 'w coap \<Rightarrow> 'w coap" where
  "coap_seed H s = (let (t, s) = coap_now H s in s\<lparr>cenv := c_srand H (t div 1000000 mod 2 ^ 32) (cenv s)\<rparr>)"

definition coap_rand :: "'w hal \<Rightarrow> 'w coap \<Rightarrow> nat \<times> 'w coap" where
  "coap_rand H s = (let (r, w) = c_rand H (cenv s) in (r, s\<lparr>cenv := w\<rparr>))"

section \<open>Message ids and tokens\<close>

definition get_next_coap_msg_id :: "'w coap \<Rightarrow> u16 \<times> 'w coap" where
  "get_next_coap_msg_id s =
     (let i = (if next_msg_id (cc s) = 65535 then 1 else next_msg_id (cc s) + 1) in (i, cc_update (\<lambda>c. c\<lparr>next_msg_id := i\<rparr>) s))"

definition get_coap_message_token :: "'w coap \<Rightarrow> byte list \<times> 'w coap" where
  "get_coap_message_token s =
     (let v = message_token (cc s)
      in ([ucast (v AND 0xFF), ucast (drop_bit 8 (v AND 0xFF00)), ucast (drop_bit 16 (v AND 0xFF0000)),
           ucast (drop_bit 24 (v AND 0xFF000000))],
          cc_update (\<lambda>c. c\<lparr>message_token := v + 1\<rparr>) s))"

section \<open>Authentication callback\<close>

definition c_strlen :: "byte list \<Rightarrow> nat option" where
  "c_strlen bs = (if 0 \<in> set bs then Some (length (takeWhile (\<lambda>c. c \<noteq> 0) bs)) else None)"

definition c_strncpy :: "byte list \<Rightarrow> nat \<Rightarrow> byte list" where
  "c_strncpy bs n = take n (takeWhile (\<lambda>c. c \<noteq> 0) bs @ replicate n 0)"

definition set_authed :: "int \<Rightarrow> 'w coap \<Rightarrow> 'w coap" where
  "set_authed a s = cc_update (\<lambda>c. c\<lparr>is_authed := a\<rparr>) s"

text \<open>\<^verbatim>\<open>_coap_client_auth_callback\<close>: \<^verbatim>\<open>strlen\<close> runs on a payload that nothing has terminated.\<close>

definition coap_client_auth_callback :: "'w hal \<Rightarrow> CoAPMessage \<Rightarrow> nat \<Rightarrow> 'w coap \<Rightarrow> 'w coap option" where
  "coap_client_auth_callback H msg userContext s =
     (if userContext = 0 then Some s
      else if code_class msg = COAP_MSG_SUCCESS \<and> code_detail msg = 5
      then if pay_load_len msg = 0 then Some (set_authed 0 s)
           else (case pay_load msg of
                   None \<Rightarrow> Some (set_authed 0 s)
                 | Some bs \<Rightarrow> do {
                     n \<leftarrow> c_strlen bs;
                     if n = 0 then Some (set_authed 0 s)
                     else let (ok, s) = coap_malloc H s;
                              len = unat (pay_load_len msg)
                          in if \<not> ok then None
                             else Some (cc_update (\<lambda>c. c\<lparr>auth_token_len := len, auth_token := Some (c_strncpy bs len), is_authed := 1\<rparr>) s) })
      else Some (set_authed 0 s))"

definition coap_call_handler :: "'w hal \<Rightarrow> coap_callback \<Rightarrow> CoAPMessage \<Rightarrow> nat \<Rightarrow> 'w coap \<Rightarrow> 'w coap option" where
  "coap_call_handler H h message context s =
     (case h of
        Auth_Callback \<Rightarrow> coap_client_auth_callback H message context s
      | User_Callback f \<Rightarrow> Some (coap_call_back (On_Response f message context) s))"

section \<open>The list of waiting messages\<close>

datatype process_cmd = PROCESS_ACK_CMD | PROCESS_PIGGY_CMD | PROCESS_RESP_CMD | PROCESS_WAIT_CMD

definition event_message_type_set :: "CoAPMessage \<Rightarrow> process_cmd \<Rightarrow> CoAPEventType" where
  "event_message_type_set message processCmd =
     (if code_class message = COAP_MSG_SUCCESS \<and> code_detail message = 5
      then if processCmd = PROCESS_RESP_CMD then COAP_EVENT_RECEIVE_RESPCONTENT else COAP_EVENT_RECEIVE_ACK
      else if code_class message = COAP_MSG_CLIENT_ERR \<and> code_detail message = 1 then COAP_EVENT_UNAUTHORIZED
      else if code_class message = COAP_MSG_CLIENT_ERR \<and> code_detail message = 3 then COAP_EVENT_FORBIDDEN
      else COAP_EVENT_INTERNAL_SERVER_ERROR)"

definition coap_proc_ack :: "'w hal \<Rightarrow> CoAPMessage \<Rightarrow> CoAPMsgSendInfo \<Rightarrow> 'w coap \<Rightarrow> CoAPMsgSendInfo \<times> 'w coap" where
  "coap_proc_ack H message n s =
     (if si_msg_id n = coap_msg_id message
      then let (t, s) = coap_countdown_ms H (unat (cc_timeout_ms (cc s))) s in (n\<lparr>si_acked := True, si_start_time := t\<rparr>, s)
      else (n, s))"

definition token_matches :: "CoAPMsgSendInfo \<Rightarrow> CoAPMessage \<Rightarrow> bool" where
  "token_matches n message \<longleftrightarrow> si_token_len n \<noteq> 0 \<and> ucast (si_token_len n) = coap_token_len message \<and>
     take (unat (si_token_len n)) (si_token n) = take (unat (coap_token_len message)) (coap_token message)"

definition coap_proc_resp ::
  "'w hal \<Rightarrow> CoAPMessage \<Rightarrow> CoAPMsgSendInfo \<Rightarrow> 'w coap \<Rightarrow> ((CoAPMsgSendInfo \<times> CoAPMessage) \<times> 'w coap) option" where
  "coap_proc_resp H message n s =
     (if token_matches n message
      then let message = message\<lparr>user_context := si_user_context n\<rparr>
           in (case si_handler n of
                 Some h \<Rightarrow> do {
                   s \<leftarrow> coap_call_handler H h message (si_user_context n) s;
                   Some ((n\<lparr>si_node_state := COAP_NODE_STATE_INVALID\<rparr>, message), s) }
               | None \<Rightarrow>
                   if cc_event_handle (cc s)
                   then let e = event_message_type_set message PROCESS_RESP_CMD;
                            message = message\<lparr>coap_msg_id := si_msg_id n\<rparr>
                        in Some ((n\<lparr>si_node_state := COAP_NODE_STATE_INVALID\<rparr>, message),
                                 coap_call_back (On_Coap_Event e (Event_Message message)) s)
                   else Some ((n\<lparr>si_node_state := COAP_NODE_STATE_INVALID\<rparr>, message), s))
      else Some ((n, message), s))"

definition coap_proc_piggy ::
  "'w hal \<Rightarrow> CoAPMessage \<Rightarrow> CoAPMsgSendInfo \<Rightarrow> 'w coap \<Rightarrow> ((CoAPMsgSendInfo \<times> CoAPMessage) \<times> 'w coap) option" where
  "coap_proc_piggy H message n s =
     (if si_msg_id n = coap_msg_id message
      then let message = message\<lparr>user_context := si_user_context n\<rparr>;
               n' = n\<lparr>si_acked := True, si_node_state := COAP_NODE_STATE_INVALID\<rparr>
           in (case si_handler n of
                 Some h \<Rightarrow> do {
                   s \<leftarrow> coap_call_handler H h message (si_user_context n) s;
                   Some ((n', message), s) }
               | None \<Rightarrow>
                   if cc_event_handle (cc s)
                   then Some ((n', message), coap_call_back (On_Coap_Event (event_message_type_set message PROCESS_PIGGY_CMD)
                                                              (Event_Id (coap_msg_id message))) s)
                   else Some ((n', message), s))
      else Some ((n, message), s))"

text \<open>A request whose retransmissions are used up, or whose acknowledgement was not followed by a response.\<close>

definition coap_give_up ::
  "'w hal \<Rightarrow> CoAPMessage \<Rightarrow> CoAPMsgSendInfo \<Rightarrow> 'w coap \<Rightarrow> (CoAPMessage \<times> 'w coap) option" where
  "coap_give_up H message n s =
     (case si_handler n of
        Some h \<Rightarrow>
          let message = message\<lparr>coap_type := COAP_MSG_ACK, user_context := si_user_context n, code_class := COAP_MSG_SDKINTERNAL_ERR,
                code_detail := 0, coap_msg_id := si_msg_id n\<rparr>
          in do { s \<leftarrow> coap_call_handler H h message (si_user_context n) s; Some (message, s) }
      | None \<Rightarrow>
          if cc_event_handle (cc s)
          then Some (message, coap_call_back (On_Coap_Event (if si_acked n then COAP_EVENT_SEPRESP_TIMEOUT else COAP_EVENT_ACK_TIMEOUT)
                                                (Event_Id (si_msg_id n))) s)
          else Some (message, s))"

text \<open>The result is the node, or \<^const>\<open>None\<close> if it is removed.\<close>

definition coap_proc_wait ::
  "'w hal \<Rightarrow> CoAPMessage \<Rightarrow> CoAPMsgSendInfo \<Rightarrow> 'w coap \<Rightarrow> ((CoAPMsgSendInfo option \<times> CoAPMessage) \<times> 'w coap) option" where
  "coap_proc_wait H message n s =
     (if si_node_state n = COAP_NODE_STATE_INVALID then Some ((None, message), s)
      else let (ms, s) = coap_left_ms H (si_start_time n) s
           in if ms > 0 then Some ((Some n, message), s)
              else if si_retrans_count n < max_retry_count (cc s) \<and> \<not> si_acked n
              then let (t, s) = coap_countdown_ms H (unat (cc_timeout_ms (cc s))) s;
                       (ms, s) = coap_left_ms H t s
                   in do {
                     block \<leftarrow> si_message n;
                     data \<leftarrow> rd_bytes block 0 (si_msglen n);
                     let ((rc, written_len), s) = coap_write H data ms s;
                     Some ((Some (n\<lparr>si_start_time := t, si_retrans_count := si_retrans_count n + 1\<rparr>), message), s) }
              else do {
                (message, s) \<leftarrow> coap_give_up H message n s;
                Some ((None, message), s) })"

definition coap_proc_node ::
  "'w hal \<Rightarrow> process_cmd \<Rightarrow> CoAPMessage \<Rightarrow> CoAPMsgSendInfo \<Rightarrow> 'w coap \<Rightarrow> ((CoAPMsgSendInfo option \<times> CoAPMessage) \<times> 'w coap) option" where
  "coap_proc_node H processCmd message n s =
     (case processCmd of
        PROCESS_ACK_CMD \<Rightarrow> let (n, s) = coap_proc_ack H message n s in Some ((Some n, message), s)
      | PROCESS_RESP_CMD \<Rightarrow> do { ((n, message), s) \<leftarrow> coap_proc_resp H message n s; Some ((Some n, message), s) }
      | PROCESS_PIGGY_CMD \<Rightarrow> do { ((n, message), s) \<leftarrow> coap_proc_piggy H message n s; Some ((Some n, message), s) }
      | PROCESS_WAIT_CMD \<Rightarrow> coap_proc_wait H message n s)"

text \<open>The loop takes the list as the iterator walks it, from the tail, and gives what is left of it.\<close>

fun coap_list_loop ::
  "'w hal \<Rightarrow> process_cmd \<Rightarrow> CoAPMsgSendInfo list \<Rightarrow> CoAPMessage \<Rightarrow> 'w coap \<Rightarrow> ((CoAPMsgSendInfo list \<times> CoAPMessage) \<times> 'w coap) option" where
  "coap_list_loop H processCmd [] message s = Some (([], message), s)"
| "coap_list_loop H processCmd (n # ns) message s = do {
     ((r, message), s) \<leftarrow> coap_proc_node H processCmd message n s;
     ((ns, message), s) \<leftarrow> coap_list_loop H processCmd ns message s;
     Some (((case r of None \<Rightarrow> ns | Some n \<Rightarrow> n # ns), message), s) }"

definition coap_message_list_proc :: "'w hal \<Rightarrow> CoAPMessage \<Rightarrow> process_cmd \<Rightarrow> 'w coap \<Rightarrow> (int \<times> 'w coap) option" where
  "coap_message_list_proc H message processCmd s =
     (if \<not> list_made (cc s) then None
      else if message_list (cc s) = [] then Some (QCLOUD_ERR_FAILURE, s)
      else let (iter, s) = coap_malloc H s
           in if \<not> iter then Some (QCLOUD_RET_SUCCESS, s)
              else do {
                ((ns, message), s) \<leftarrow> coap_list_loop H processCmd (rev (message_list (cc s))) message s;
                Some (QCLOUD_RET_SUCCESS, cc_update (\<lambda>c. c\<lparr>message_list := rev ns\<rparr>) s) })"

section \<open>Sending\<close>

text \<open>\<^verbatim>\<open>_coap_message_list_add\<close>. Its only caller hands it confirmable messages, so that the timer and the counter are
  always set.\<close>

definition coap_message_list_add :: "'w hal \<Rightarrow> CoAPMessage \<Rightarrow> nat \<Rightarrow> 'w coap \<Rightarrow> (int \<times> 'w coap) option" where
  "coap_message_list_add H message len s =
     (let (ok, s) = coap_malloc H s
      in if \<not> ok then Some (QCLOUD_ERR_FAILURE, s)
         else do {
           let (t, s) = coap_countdown_ms H (unat (cc_timeout_ms (cc s))) s;
           tok \<leftarrow> rd_bytes (coap_token message) 0 (unat (coap_token_len message));
           let (ok, s) = coap_malloc H s;
           block \<leftarrow> (if ok then map_option Some (rd_bytes (send_buf (cc s)) 0 len) else Some None);
           let (node, s) = coap_malloc H s;
           if \<not> node then Some (QCLOUD_ERR_FAILURE, s)
           else if \<not> list_made (cc s) then None
           else Some (QCLOUD_RET_SUCCESS, cc_update (\<lambda>c. c\<lparr>message_list := message_list c @
                  [\<lparr>si_node_state = COAP_NODE_STATE_NORMANL, si_user_context = user_context message, si_msg_id = coap_msg_id message,
                    si_acked = False, si_token_len = ucast (coap_token_len message), si_token = tok, si_retrans_count = 0,
                    si_start_time = t, si_message = block, si_msglen = len, si_handler = coap_handler message\<rparr>]\<rparr>) s) })"

text \<open>\<^verbatim>\<open>coap_message_send\<close>. After a serialization error the buffer is left as it was here; nothing reads it before it is
  written again.\<close>

definition coap_message_send :: "'w hal \<Rightarrow> CoAPMessage \<Rightarrow> 'w coap \<Rightarrow> (int \<times> 'w coap) option" where
  "coap_message_send H message s = do {
     r \<leftarrow> serialize_coap_message message (send_buf (cc s)) (of_nat (send_buf_size (cc s)));
     (case r of
        Inl ret \<Rightarrow> Some (ret, s)
      | Inr (b, n) \<Rightarrow> do {
          let s = cc_update (\<lambda>c. c\<lparr>send_buf := b\<rparr>) s;
          data \<leftarrow> rd_bytes b 0 n;
          let ((ret, written_len), s) = coap_write H data 0 s;
          if ret = QCLOUD_RET_SUCCESS \<and> coap_type message = COAP_MSG_CON \<and> code_class message = COAP_MSG_REQ
          then coap_message_list_add H message written_len s
          else Some (ret, s) }) }"

definition coap_client_send_ack :: "'w hal \<Rightarrow> u16 \<Rightarrow> 'w coap \<Rightarrow> (int \<times> 'w coap) option" where
  "coap_client_send_ack H msgId s =
     (let (ret, ack) = coap_message_type_set COAP_MSG_ACK DEFAULT_COAP_MESSAGE
      in if ret \<noteq> QCLOUD_RET_SUCCESS then Some (ret, s)
         else let (ret, ack) = coap_message_id_set (ucast msgId) ack
              in if ret \<noteq> QCLOUD_RET_SUCCESS then Some (ret, s)
                 else coap_message_send H ack s)"

section \<open>Receiving\<close>

definition coap_resp_message_handle :: "'w hal \<Rightarrow> CoAPMessage \<Rightarrow> 'w coap \<Rightarrow> (int \<times> 'w coap) option" where
  "coap_resp_message_handle H message s = do {
     (rc, s) \<leftarrow> (if coap_type message = COAP_MSG_CON then coap_client_send_ack H (coap_msg_id message) s else Some (0, s));
     coap_message_list_proc H message PROCESS_RESP_CMD s }"

text \<open>\<^verbatim>\<open>_coap_message_handle\<close>: the result of the parser is only logged.\<close>

definition coap_message_handle :: "'w hal \<Rightarrow> nat \<Rightarrow> 'w coap \<Rightarrow> 'w coap option" where
  "coap_message_handle H datalen s = do {
     ((rc, recv_message), w) \<leftarrow> deserialize_coap_message (hal_malloc H) zero_message (recv_buf (cc s)) datalen (cenv s);
     let s = s\<lparr>cenv := w\<rparr>;
     let code = (code_class recv_message, code_detail recv_message);
     if coap_type recv_message = COAP_MSG_ACK \<and> code = (2, 3)
     then do { (rc, s) \<leftarrow> coap_message_list_proc H recv_message PROCESS_ACK_CMD s; Some s }
     else if coap_type recv_message = COAP_MSG_ACK \<and> code \<noteq> (0, 0)
     then do { (rc, s) \<leftarrow> coap_message_list_proc H recv_message PROCESS_PIGGY_CMD s; Some s }
     else if (coap_type recv_message = COAP_MSG_CON \<or> coap_type recv_message = COAP_MSG_NON) \<and> code = (2, 5)
     then do { (rc, s) \<leftarrow> coap_resp_message_handle H recv_message s; Some s }
     else Some s }"

definition coap_message_recv :: "'w hal \<Rightarrow> nat \<Rightarrow> 'w coap \<Rightarrow> (int \<times> 'w coap) option" where
  "coap_message_recv H timeout_ms s = do {
     let ((rc, bs), w) = net_read H (recv_buf_size (cc s)) timeout_ms (cenv s);
     b \<leftarrow> wr_bytes (recv_buf (cc s)) 0 bs;
     let s = cc_update (\<lambda>c. c\<lparr>recv_buf := b\<rparr>) (s\<lparr>cenv := w\<rparr>);
     if rc = QCLOUD_RET_SUCCESS
     then do { s \<leftarrow> coap_message_handle H (length bs mod 65536) s; Some (rc, s) }
     else Some (rc, s) }"

definition coap_message_cycle :: "'w hal \<Rightarrow> nat \<Rightarrow> 'w coap \<Rightarrow> (int \<times> 'w coap) option" where
  "coap_message_cycle H timeout_ms s = do {
     (rc, s) \<leftarrow> coap_message_recv H timeout_ms s;
     if rc \<noteq> QCLOUD_RET_SUCCESS \<and> rc \<noteq> QCLOUD_ERR_SSL_READ_TIMEOUT then Some (rc, s)
     else coap_message_list_proc H DEFAULT_COAP_MESSAGE PROCESS_WAIT_CMD s }"

section \<open>Interface\<close>

definition IOT_COAP_Yield :: "'w hal \<Rightarrow> nat \<Rightarrow> 'w coap \<Rightarrow> (int \<times> 'w coap) option" where
  "IOT_COAP_Yield H timeout_ms s = coap_message_cycle H timeout_ms s"

record SendMsgParams =
  need_resp :: bool
  sp_pay_load :: "byte list"
  sp_user_context :: nat
  resp_callback :: "coap_callback option"

text \<open>A setter that can only report an error or change the message, used where the code drops the result.\<close>

definition option_added :: "'w hal \<Rightarrow> u32 \<Rightarrow> byte list \<Rightarrow> CoAPMessage \<Rightarrow> 'w coap \<Rightarrow> CoAPMessage \<times> 'w coap" where
  "option_added H num v message s =
     (let ((rc, message), w) = coap_message_option_add (hal_malloc H) num v message (cenv s) in (message, s\<lparr>cenv := w\<rparr>))"

text \<open>The first part of \<^verbatim>\<open>IOT_COAP_SendMessage\<close> and of \<^verbatim>\<open>coap_client_auth\<close>: a confirmable POST with the next message id and
  the next token.\<close>

definition new_request :: "'w coap \<Rightarrow> (CoAPMessage \<times> 'w coap) option" where
  "new_request s = do {
     let (rc, message) = coap_message_type_set COAP_MSG_CON DEFAULT_COAP_MESSAGE;
     let (rc, message) = coap_message_code_set COAP_MSG_REQ COAP_MSG_POST message;
     let (i, s) = get_next_coap_msg_id s;
     let (rc, message) = coap_message_id_set (ucast i) message;
     let (tok, s) = get_coap_message_token s;
     (rc, message) \<leftarrow> coap_message_token_set tok message;
     Some (message, s) }"

text \<open>The payload is copied into a fresh block, whose content before does not matter. Without a token its length is 0.\<close>

definition IOT_COAP_SendMessage :: "'w hal \<Rightarrow> byte list \<Rightarrow> SendMsgParams \<Rightarrow> 'w coap \<Rightarrow> (int \<times> 'w coap) option" where
  "IOT_COAP_SendMessage H topicName sendParams s =
     (if length topicName > URI_PATH_MAX_LEN then Some (QCLOUD_ERR_MAX_TOPIC_LENGTH, s)
      else do {
        (message, s) \<leftarrow> new_request s;
        let (ok, s) = coap_malloc H s;
        if \<not> ok then Some (QCLOUD_ERR_INVAL, s)
        else do {
          let message = message\<lparr>pay_load := Some (replicate (length (sp_pay_load sendParams)) 0)\<rparr>;
          (rc, message) \<leftarrow> coap_message_payload_set (sp_pay_load sendParams) message;
          let (message, s) = option_added H COAP_MSG_URI_PATH topicName message s;
          tok \<leftarrow> (case auth_token (cc s) of None \<Rightarrow> if auth_token_len (cc s) = 0 then Some [] else None
                  | Some t \<Rightarrow> rd_bytes t 0 (auth_token_len (cc s)));
          let (message, s) = option_added H COAP_MSG_AUTH_TOKEN tok message s;
          let (message, s) =
            (if \<not> need_resp sendParams
             then let (message, s) = option_added H COAP_MSG_NEED_RESP (cstr ''0'') message s
                  in (coap_message_context_set (sp_user_context sendParams) message, s)
             else let (message, s) = option_added H COAP_MSG_NEED_RESP (cstr ''1'') message s
                  in (coap_message_context_set (sp_user_context sendParams)
                        (coap_message_callback_set (resp_callback sendParams) message), s));
          (ret, s) \<leftarrow> coap_message_send H message s;
          if ret \<noteq> QCLOUD_RET_SUCCESS then Some (ret, s) else Some (int (unat (coap_msg_id message)), s) } })"

definition IOT_COAP_GetDeviceInfo :: "'w coap \<Rightarrow> DeviceInfo" where
  "IOT_COAP_GetDeviceInfo s = cc_device_info (cc s)"

definition IOT_COAP_GetMessageId :: "CoAPMessage \<Rightarrow> int" where
  "IOT_COAP_GetMessageId message = int (unat (coap_msg_id message))"

definition IOT_COAP_GetMessagePayload :: "CoAPMessage \<Rightarrow> int \<times> (byte list option \<times> size_t) option" where
  "IOT_COAP_GetMessagePayload message =
     (if code_class message \<noteq> COAP_MSG_SUCCESS \<or> code_detail message \<noteq> 5 then (QCLOUD_ERR_FAILURE, None)
      else (QCLOUD_RET_SUCCESS, Some (pay_load message, pay_load_len message)))"

definition IOT_COAP_GetMessageCode :: "CoAPMessage \<Rightarrow> CoAPEventType" where
  "IOT_COAP_GetMessageCode message =
     (if code_class message = COAP_MSG_SUCCESS then COAP_EVENT_RECEIVE_RESPCONTENT
      else if code_class message = COAP_MSG_CLIENT_ERR
      then if code_detail message = 1 then COAP_EVENT_UNAUTHORIZED else COAP_EVENT_FORBIDDEN
      else if code_class message = COAP_MSG_SERVER_ERR then COAP_EVENT_INTERNAL_SERVER_ERROR
      else if code_class message = COAP_MSG_SDKINTERNAL_ERR then COAP_EVENT_SEPRESP_TIMEOUT
      else COAP_EVENT_ACK_TIMEOUT)"

section \<open>Authentication\<close>

definition COAP_AUTH_URI :: "byte list" where
  "COAP_AUTH_URI = cstr ''txauth9w0BAQsFA''"

definition coap_conn_id_char :: "'w hal \<Rightarrow> 'w coap \<Rightarrow> byte \<times> 'w coap" where
  "coap_conn_id_char H s =
     (let (r, s) = coap_rand H s; (d, s) = coap_rand H s
      in (of_nat (if r mod 3 = 0 then d mod 26 + 97 else if r mod 3 = 1 then d mod 26 + 65 else d mod 10 + 48), s))"

primrec coap_conn_id_loop :: "'w hal \<Rightarrow> nat \<Rightarrow> 'w coap \<Rightarrow> byte list \<times> 'w coap" where
  "coap_conn_id_loop H 0 s = ([], s)"
| "coap_conn_id_loop H (Suc n) s = (let (c, s) = coap_conn_id_char H s; (cs, s) = coap_conn_id_loop H n s in (c # cs, s))"

definition get_coap_next_conn_id :: "'w hal \<Rightarrow> 'w coap \<Rightarrow> 'w coap" where
  "get_coap_next_conn_id H s =
     (let (cs, s) = coap_conn_id_loop H (COAP_MAX_CONN_ID_LEN - 1) (coap_seed H s) in cc_update (\<lambda>c. c\<lparr>cc_conn_id := cs\<rparr>) s)"

text \<open>\<^verbatim>\<open>coap_client_auth\<close>; \<open>self\<close> is the address of the client, the context of the callback. The payload length counts one byte more
  than \<^verbatim>\<open>HAL_Snprintf\<close> has written, its terminating zero included: \<open>junk\<close> is what the heap holds there. The path always
  fits the block that is made for it.\<close>

definition coap_client_auth :: "'w hal \<Rightarrow> nat \<Rightarrow> byte \<Rightarrow> 'w coap \<Rightarrow> (int \<times> 'w coap) option" where
  "coap_client_auth H self junk s = do {
     (message, s) \<leftarrow> new_request s;
     let (ok, s) = coap_malloc H s;
     if \<not> ok then None
     else do {
       let auth_path = di_product_id (cc_device_info (cc s)) @ [47] @ di_device_name (cc_device_info (cc s)) @ [47] @ COAP_AUTH_URI;
       let (message, s) = option_added H COAP_MSG_URI_PATH auth_path message s;
       let (message, s) = option_added H COAP_MSG_NEED_RESP (cstr ''0'') message s;
       let message = coap_message_context_set self (coap_message_callback_set (Some Auth_Callback) message);
       let s = get_coap_next_conn_id H s;
       let len = length QCLOUD_IOT_DEVICE_SDK_APPID + COAP_MAX_CONN_ID_LEN + 2;
       let message = message\<lparr>pay_load_len := of_nat len\<rparr>;
       let (ok, s) = coap_malloc H s;
       if \<not> ok then Some (QCLOUD_ERR_INVAL, s)
       else do {
         let (ok, s) = coap_malloc H s;
         if \<not> ok then Some (QCLOUD_ERR_INVAL, s)
         else do {
           let temp_pay_load = QCLOUD_IOT_DEVICE_SDK_APPID @ [59] @ cc_conn_id (cc s) @ [0, junk];
           (rc, message) \<leftarrow> coap_message_payload_set temp_pay_load (message\<lparr>pay_load := Some (replicate len 0)\<rparr>);
           coap_message_send H message s } } } }"

section \<open>Construction and destruction\<close>

record CoAPInitParams =
  cip_region :: "byte list option"
  cip_product_id :: "byte list"
  cip_device_name :: "byte list"
  cip_command_timeout :: u32
  cip_max_retry_count :: u8
  cip_event_handle :: bool

definition coap_random_start_packet_id :: "'w hal \<Rightarrow> 'w coap \<Rightarrow> u16 \<times> 'w coap" where
  "coap_random_start_packet_id H s = (let (r, s) = coap_rand H (coap_seed H s) in (of_nat (r mod 65536 + 1), s))"

definition qcloud_iot_coap_init :: "'w hal \<Rightarrow> CoAPInitParams \<Rightarrow> 'w coap \<Rightarrow> int \<times> 'w coap" where
  "qcloud_iot_coap_init H pParams s =
     (let s = s\<lparr>cc := zero_coap_client\<rparr>
      in case iot_device_info_set (cip_product_id pParams) (cip_device_name pParams) of
           Inl rc \<Rightarrow> (rc, s)
         | Inr di \<Rightarrow>
             let host_size = length (cip_product_id pParams) + 1 + length (iot_get_mqtt_domain (cip_region pParams))
             in if host_size > HOST_STR_LENGTH - 1 then (QCLOUD_ERR_FAILURE, s)
                else let timeout = (if cip_command_timeout pParams < MIN_COMMAND_TIMEOUT then MIN_COMMAND_TIMEOUT
                                    else cip_command_timeout pParams);
                         timeout = (if timeout > COAP_MAX_COMMAND_TIMEOUT then COAP_MAX_COMMAND_TIMEOUT else timeout);
                         (i, s) = coap_random_start_packet_id H s;
                         s = cc_update (\<lambda>c. c\<lparr>cc_device_info := di, is_authed := - 1, cc_timeout_ms := timeout, next_msg_id := i,
                               recv_buf_size := COAP_RECVMSG_MAX_BUFLEN, send_buf_size := COAP_SENDMSG_MAX_BUFLEN\<rparr>) s;
                         (ok1, s) = coap_malloc H s
                     in if \<not> ok1 then (QCLOUD_ERR_FAILURE, s)
                        else let (ok2, s) = coap_malloc H s
                             in if \<not> ok2 then (QCLOUD_ERR_FAILURE, s)
                                else let (made, s) = coap_malloc H s
                                     in (QCLOUD_RET_SUCCESS, cc_update (\<lambda>c. c\<lparr>list_made := made, max_retry_count := cip_max_retry_count pParams,
                                           cc_event_handle := cip_event_handle pParams\<rparr>) s))"

definition IOT_COAP_Destroy :: "'w hal \<Rightarrow> 'w coap \<Rightarrow> 'w coap option" where
  "IOT_COAP_Destroy H s =
     (let s = s\<lparr>cenv := net_disconnect H (cenv s)\<rparr>
      in if \<not> list_made (cc s) then None
         else Some (cc_update (\<lambda>c. c\<lparr>message_list := [], auth_token := None, auth_token_len := 0, is_authed := - 1\<rparr>) s))"

text \<open>The loop of \<^verbatim>\<open>IOT_COAP_Construct\<close> that waits for the authentication.\<close>

partial_function (option) auth_wait :: "'w hal \<Rightarrow> 'w coap \<Rightarrow> 'w coap option" where
  "auth_wait H s = (if is_authed (cc s) = - 1 then do { (rc, s) \<leftarrow> IOT_COAP_Yield H 200 s; auth_wait H s } else Some s)"

text \<open>\<^verbatim>\<open>IOT_COAP_Construct\<close>: whether it gives a client.\<close>

definition IOT_COAP_Construct :: "'w hal \<Rightarrow> nat \<Rightarrow> byte \<Rightarrow> CoAPInitParams \<Rightarrow> 'w coap \<Rightarrow> (bool \<times> 'w coap) option" where
  "IOT_COAP_Construct H self junk pParams s =
     (if cip_product_id pParams = [] \<or> cip_device_name pParams = [] then Some (False, s)
      else let (ok, s) = coap_malloc H s
      in if \<not> ok then Some (False, s)
         else let (rc, s) = qcloud_iot_coap_init H pParams s
              in if rc \<noteq> QCLOUD_RET_SUCCESS then Some (False, s)
                 else let (rc, w) = net_connect H (cenv s); s = s\<lparr>cenv := w\<rparr>
                      in if rc \<noteq> QCLOUD_RET_SUCCESS then Some (False, s)
                         else do {
                           (rc, s) \<leftarrow> coap_client_auth H self junk s;
                           s \<leftarrow> auth_wait H s;
                           if is_authed (cc s) = 1 then Some (True, s)
                           else do { s \<leftarrow> IOT_COAP_Destroy H s; Some (False, s) } })"

section \<open>Frame lemmas\<close>

lemma coap_now_cases: obtains t w where "coap_now H s = (t, s\<lparr>cenv := w\<rparr>)" "gettimeofday H (cenv s) = (t, w)"
  by (cases "gettimeofday H (cenv s)") (simp add: coap_now_def)

lemma coap_left_ms_env: "coap_left_ms H t s = (ms, s') \<Longrightarrow> \<exists>w. s' = s\<lparr>cenv := w\<rparr>"
  by (auto simp: coap_left_ms_def coap_now_def split: prod.splits)

lemma coap_countdown_ms_env: "coap_countdown_ms H ms s = (t, s') \<Longrightarrow> \<exists>w. s' = s\<lparr>cenv := w\<rparr>"
  by (auto simp: coap_countdown_ms_def coap_now_def split: prod.splits)

lemma coap_malloc_env: "coap_malloc H s = (ok, s') \<Longrightarrow> \<exists>w. s' = s\<lparr>cenv := w\<rparr>"
  by (auto simp: coap_malloc_def split: prod.splits)

lemma coap_write_env: "coap_write H d t s = (r, s') \<Longrightarrow> \<exists>w. s' = s\<lparr>cenv := w\<rparr>"
  by (auto simp: coap_write_def split: prod.splits)

lemma coap_seed_env: "\<exists>w. coap_seed H s = s\<lparr>cenv := w\<rparr>"
  by (auto simp: coap_seed_def coap_now_def split: prod.splits)

lemma coap_rand_env: "coap_rand H s = (r, s') \<Longrightarrow> \<exists>w. s' = s\<lparr>cenv := w\<rparr>"
  by (auto simp: coap_rand_def split: prod.splits)

lemma option_added_env: "option_added H num v m s = (m', s') \<Longrightarrow>
    \<exists>w ops. s' = s\<lparr>cenv := w\<rparr> \<and> m' = m\<lparr>op_list := ops\<rparr>"
  by (auto simp: option_added_def coap_message_option_add_def split: prod.splits option.splits) (metis CoAPMessage.surjective CoAPMessage.update_convs(10))+

lemmas coap_env = coap_left_ms_env coap_countdown_ms_env coap_malloc_env coap_write_env coap_rand_env

lemma coap_call_back_simps [simp]: "cc (coap_call_back e s) = cc s" "cenv (coap_call_back e s) = cenv s"
    "cevents (coap_call_back e s) = cevents s @ [e]"
  by (simp_all add: coap_call_back_def)

definition grants :: "'w hal \<Rightarrow> bool" where
  "grants H \<longleftrightarrow> (\<forall>w. fst (hal_malloc H w))"

lemma granted_eq: "grants H \<Longrightarrow> coap_malloc H s = (True, s\<lparr>cenv := snd (hal_malloc H (cenv s))\<rparr>)"
  by (simp add: grants_def coap_malloc_def split_beta)

lemma granted: "grants H \<Longrightarrow> \<exists>w. coap_malloc H s = (True, s\<lparr>cenv := w\<rparr>)"
  by (auto simp: granted_eq)

section \<open>Invariant\<close>

definition node_ok :: "u8 \<Rightarrow> CoAPMsgSendInfo \<Rightarrow> bool" where
  "node_ok k n \<longleftrightarrow> si_retrans_count n \<le> k \<and> length (si_token n) = unat (si_token_len n) \<and> unat (si_token_len n) \<le> 8 \<and>
     (\<exists>bs. si_message n = Some bs \<and> length bs = si_msglen n)"

definition core_ok :: "CoAPClient \<Rightarrow> bool" where
  "core_ok c \<longleftrightarrow> list_made c \<and> send_buf_size c = COAP_SENDMSG_MAX_BUFLEN \<and> length (send_buf c) = COAP_SENDMSG_MAX_BUFLEN \<and>
     recv_buf_size c = COAP_RECVMSG_MAX_BUFLEN \<and> length (recv_buf c) = COAP_RECVMSG_MAX_BUFLEN \<and>
     500 \<le> cc_timeout_ms c \<and> cc_timeout_ms c \<le> COAP_MAX_COMMAND_TIMEOUT \<and>
     length (case auth_token c of None \<Rightarrow> [] | Some t \<Rightarrow> t) = auth_token_len c"

definition coap_ok :: "CoAPClient \<Rightarrow> bool" where
  "coap_ok c \<longleftrightarrow> core_ok c \<and> (\<forall>n\<in>set (message_list c). node_ok (max_retry_count c) n \<and> si_handler n \<noteq> Some Auth_Callback)"

lemma core_ok_update [simp]: "core_ok (c\<lparr>message_list := ns\<rparr>) = core_ok c" "core_ok (c\<lparr>next_msg_id := i\<rparr>) = core_ok c"
    "core_ok (c\<lparr>message_token := v\<rparr>) = core_ok c" "core_ok (c\<lparr>is_authed := a\<rparr>) = core_ok c" "core_ok (c\<lparr>cc_conn_id := cs\<rparr>) = core_ok c"
  by (simp_all add: core_ok_def)

lemma core_ok_buf: "core_ok c \<Longrightarrow> length b = length (send_buf c) \<Longrightarrow> core_ok (c\<lparr>send_buf := b\<rparr>)"
    "core_ok c \<Longrightarrow> length b = length (recv_buf c) \<Longrightarrow> core_ok (c\<lparr>recv_buf := b\<rparr>)"
  by (simp_all add: core_ok_def)

lemma core_ok_made: "core_ok c \<Longrightarrow> list_made c"
  by (simp add: core_ok_def)

lemma inc_retry: "(k :: u8) < m \<Longrightarrow> k + 1 \<le> m"
  by (simp add: inc_le)

lemma proc_node_user:
  assumes "node_ok (max_retry_count (cc s)) n" "si_handler n \<noteq> Some Auth_Callback"
  shows "\<exists>r m' s'. coap_proc_node H cmd m n s = Some ((r, m'), s') \<and> cc s' = cc s \<and>
    (\<forall>n'. r = Some n' \<longrightarrow> node_ok (max_retry_count (cc s)) n' \<and> si_handler n' = si_handler n)"
proof (cases cmd)
  case PROCESS_ACK_CMD
  then show ?thesis
    using assms by (auto simp: coap_proc_node_def coap_proc_ack_def node_ok_def split: prod.splits dest!: coap_env)
next
  case PROCESS_PIGGY_CMD
  then show ?thesis
    using assms by (auto simp: coap_proc_node_def coap_proc_piggy_def Let_def node_ok_def coap_call_handler_def coap_call_back_def
      split: option.splits coap_callback.splits)
next
  case PROCESS_RESP_CMD
  then show ?thesis
    using assms by (auto simp: coap_proc_node_def coap_proc_resp_def Let_def node_ok_def coap_call_handler_def coap_call_back_def
      split: option.splits coap_callback.splits)
next
  case PROCESS_WAIT_CMD
  obtain bs where bs: "si_message n = Some bs" "length bs = si_msglen n" using assms(1) by (auto simp: node_ok_def)
  then have "rd_bytes bs 0 (si_msglen n) = Some bs" by (simp add: rd_bytes_def)
  with bs show ?thesis
    using assms PROCESS_WAIT_CMD
    by (auto simp: coap_proc_node_def coap_proc_wait_def coap_give_up_def Let_def node_ok_def coap_call_handler_def coap_call_back_def inc_retry
      split: prod.splits option.splits coap_callback.splits dest!: coap_env)
qed


lemma list_loop_user:
  assumes "\<forall>n\<in>set ns. node_ok (max_retry_count (cc s)) n \<and> si_handler n \<noteq> Some Auth_Callback"
  shows "\<exists>ns' m' s'. coap_list_loop H cmd ns m s = Some ((ns', m'), s') \<and> cc s' = cc s \<and>
    (\<forall>n\<in>set ns'. node_ok (max_retry_count (cc s)) n \<and> si_handler n \<noteq> Some Auth_Callback)"
  using assms
proof (induction ns arbitrary: m s)
  case (Cons n ns)
  obtain r m1 s1 where r: "coap_proc_node H cmd m n s = Some ((r, m1), s1)" "cc s1 = cc s"
    "\<forall>n'. r = Some n' \<longrightarrow> node_ok (max_retry_count (cc s)) n' \<and> si_handler n' = si_handler n"
    using proc_node_user [of s n H cmd m] Cons.prems by auto
  obtain ns' m2 s2 where "coap_list_loop H cmd ns m1 s1 = Some ((ns', m2), s2)" "cc s2 = cc s"
    "\<forall>n\<in>set ns'. node_ok (max_retry_count (cc s)) n \<and> si_handler n \<noteq> Some Auth_Callback"
    using Cons.IH [of s1 m1] Cons.prems r(2) by auto
  with r Cons.prems show ?case by (cases r) auto
qed simp

lemma list_proc_user:
  assumes "coap_ok (cc s)"
  shows "\<exists>rc s'. coap_message_list_proc H m cmd s = Some (rc, s') \<and> coap_ok (cc s')"
proof (cases "message_list (cc s) = []")
  case True
  then show ?thesis using assms by (simp add: coap_message_list_proc_def coap_ok_def core_ok_def)
next
  case False
  obtain ok w where w: "coap_malloc H s = (ok, s\<lparr>cenv := w\<rparr>)" by (metis coap_malloc_env surj_pair)
  obtain ns' m' s' where l: "coap_list_loop H cmd (rev (message_list (cc s))) m (s\<lparr>cenv := w\<rparr>) = Some ((ns', m'), s')"
    "cc s' = cc s" "\<forall>n\<in>set ns'. node_ok (max_retry_count (cc s)) n \<and> si_handler n \<noteq> Some Auth_Callback"
    using list_loop_user [of "rev (message_list (cc s))" "s\<lparr>cenv := w\<rparr>" H cmd m] assms by (auto simp: coap_ok_def)
  then show ?thesis
    using False w assms by (cases ok) (auto simp: coap_message_list_proc_def coap_ok_def core_ok_made)
qed

section \<open>Sending\<close>

lemma serialize_options_length:
  "coap_message_serialize_options ops prev buf p len = Some (Inr (b, q)) \<Longrightarrow> length b = length buf \<and> (p \<le> length buf \<longrightarrow> q \<le> length buf)"
proof (induction ops arbitrary: prev buf p len)
  case (Cons op ops)
  then show ?case
    by (fastforce simp: format_op_put put_Some_iff elim!: bind_SomeE split: if_splits sum.splits prod.splits)
qed simp

lemma serialize_part_length:
  "coap_message_serialize_header m buf p len = Some (Inr (b, q)) \<Longrightarrow> length b = length buf \<and> q \<le> length buf"
  "coap_message_serialize_token m buf p len = Some (Inr (b, q)) \<Longrightarrow> length b = length buf \<and> q \<le> length buf"
  "coap_message_serialize_payload m buf p len = Some (Inr (b, q)) \<Longrightarrow> length b = length buf \<and> (p \<le> length buf \<longrightarrow> q \<le> length buf)"
  by (auto simp: coap_message_serialize_header_def coap_message_serialize_token_def coap_message_serialize_payload_def codec_simps
      put_Some_iff elim!: bind_SomeE split: if_splits)

lemma serialize_length:
  assumes "serialize_coap_message m buf len = Some (Inr (b, n))"
  shows "length b = length buf \<and> n \<le> length buf"
  using assms
  by (auto simp: serialize_coap_message_def elim!: bind_SomeE split: sum.splits prod.splits
      dest!: serialize_options_length serialize_part_length)

text \<open>The acknowledgement of a response.\<close>

definition ack_message :: "u16 \<Rightarrow> CoAPMessage" where
  "ack_message i = DEFAULT_COAP_MESSAGE\<lparr>coap_type := COAP_MSG_ACK, coap_msg_id := i\<rparr>"

lemma ack_message_bytes: "coap_bytes (ack_message i) = [0x60, 2, ucast (drop_bit 8 i), ucast i]"
proof -
  have "ucast (drop_bit 8 (i AND push_bit 8 (mask 8))) = (ucast (drop_bit 8 i) :: byte)" "ucast (i AND mask 8) = (ucast i :: byte)"
    by (intro bit_word_eqI; auto simp: bit_simps)+
  then have "ucast (drop_bit 8 (i AND 0xFF00)) = (ucast (drop_bit 8 i) :: byte)" "ucast (i AND 0x00FF) = (ucast i :: byte)"
    by (simp_all add: mask_eq_exp_minus_1)
  then show ?thesis
    by (simp add: coap_bytes_def coap_header_bytes_def coap_payload_bytes_def ack_message_def DEFAULT_COAP_MESSAGE_def)
qed

lemma id_set_u16: "coap_message_id_set (ucast i) m = (QCLOUD_RET_SUCCESS, m\<lparr>coap_msg_id := i\<rparr>)"
proof -
  have "unat (ucast i :: u32) < 65536"
    using unsigned_less [of i, where ?'a = nat] by (simp add: unsigned_ucast_eq take_bit_nat_eq_self)
  then have "\<not> (ucast i :: u32) > 65535" by (simp add: word_less_nat_alt)
  moreover have "ucast (ucast i :: u32) = i" by (intro bit_word_eqI) (simp add: bit_simps)
  ultimately show ?thesis by (simp add: coap_message_id_set_def)
qed

definition sent_state :: "CoAPMessage \<Rightarrow> 'w coap \<Rightarrow> 'w coap" where
  "sent_state m s = cc_update (\<lambda>c. c\<lparr>send_buf := coap_bytes m @ drop (length (coap_bytes m)) (send_buf (cc s))\<rparr>) s"

lemma sent_state_ok:
  assumes "length (coap_bytes m) \<le> COAP_SENDMSG_MAX_BUFLEN" "coap_ok (cc s)"
  shows "coap_ok (cc (sent_state m s))"
proof -
  have "length (send_buf (cc s)) = COAP_SENDMSG_MAX_BUFLEN" using assms(2) by (simp add: coap_ok_def core_ok_def)
  then show ?thesis using assms by (simp add: sent_state_def coap_ok_def core_ok_buf)
qed

lemma message_send_put:
  assumes "core_ok (cc s)" "message_fits m" "length (coap_bytes m) + length (op_list m) \<le> COAP_SENDMSG_MAX_BUFLEN"
  shows "coap_message_send H m s =
    (let ((ret, written_len), s) = coap_write H (coap_bytes m) 0 (sent_state m s)
     in if ret = QCLOUD_RET_SUCCESS \<and> coap_type m = COAP_MSG_CON \<and> code_class m = COAP_MSG_REQ
        then coap_message_list_add H m written_len s else Some (ret, s))"
proof -
  have "length (send_buf (cc s)) = COAP_SENDMSG_MAX_BUFLEN" "send_buf_size (cc s) = COAP_SENDMSG_MAX_BUFLEN"
    using assms(1) by (simp_all add: core_ok_def)
  then have "serialize_coap_message m (send_buf (cc s)) (of_nat (send_buf_size (cc s))) =
      Some (Inr (coap_bytes m @ drop (length (coap_bytes m)) (send_buf (cc s)), length (coap_bytes m)))"
    using assms(2,3) by (intro serialize_coap_put) simp_all
  then show ?thesis
    by (simp add: coap_message_send_def rd_bytes_def sent_state_def split_beta Let_def cong: if_cong)
qed

lemma send_ack_put:
  assumes "core_ok (cc s)"
  shows "coap_client_send_ack H i s =
      (let ((ret, written_len), s) = coap_write H (coap_bytes (ack_message i)) 0 (sent_state (ack_message i) s) in Some (ret, s))"
proof -
  have ack: "coap_client_send_ack H i s = coap_message_send H (ack_message i) s"
    by (simp add: coap_client_send_ack_def coap_message_type_set_def id_set_u16 ack_message_def)
  have "length (coap_bytes (ack_message i)) = 4" by (simp add: ack_message_bytes)
  moreover have "op_list (ack_message i) = []" "message_fits (ack_message i)" "coap_type (ack_message i) \<noteq> COAP_MSG_CON"
    by (simp_all add: ack_message_def DEFAULT_COAP_MESSAGE_def message_fits_def)
  ultimately show ?thesis using assms by (simp add: ack message_send_put)
qed

lemma coap_ack_returns:
  assumes "coap_ok (cc s)"
  shows "\<exists>rc s'. coap_client_send_ack H i s = Some (rc, s') \<and> coap_ok (cc s')"
  using send_ack_put [of s H i] sent_state_ok [of "ack_message i" s] assms
  by (auto simp: coap_ok_def [of "cc s"] ack_message_bytes split: prod.splits dest!: coap_write_env)

text \<open>What was received is handled unless the parser reads outside the buffer.\<close>

lemma message_handle_deserialized:
  assumes "coap_ok (cc s)"
    and d: "deserialize_coap_message (hal_malloc H) zero_message (recv_buf (cc s)) n (cenv s) = Some ((rc, m), w)"
  shows "\<exists>s'. coap_message_handle H n s = Some s' \<and> coap_ok (cc s')"
proof -
  let ?s = "s\<lparr>cenv := w\<rparr>"
  have ok: "coap_ok (cc ?s)" using assms(1) by simp
  have proc: "\<exists>rc s'. coap_message_list_proc H m cmd ?s = Some (rc, s') \<and> coap_ok (cc s')" for cmd
    using ok by (rule list_proc_user)
  have "\<exists>rc s'. coap_resp_message_handle H m ?s = Some (rc, s') \<and> coap_ok (cc s')"
  proof (cases "coap_type m = COAP_MSG_CON")
    case True
    obtain rc s1 where "coap_client_send_ack H (coap_msg_id m) ?s = Some (rc, s1)" "coap_ok (cc s1)"
      using coap_ack_returns [OF ok] by blast
    then show ?thesis using True list_proc_user [of s1 H m PROCESS_RESP_CMD] by (simp add: coap_resp_message_handle_def)
  qed (simp add: coap_resp_message_handle_def proc)
  then show ?thesis
    using d ok proc [of PROCESS_ACK_CMD] proc [of PROCESS_PIGGY_CMD]
    by (auto simp: coap_message_handle_def Let_def)
qed

text \<open>A stack that stores at most as many bytes as it was asked for.\<close>

definition bounded_reads :: "'w hal \<Rightarrow> bool" where
  "bounded_reads H \<longleftrightarrow> (\<forall>n t w. length (snd (fst (net_read H n t w))) \<le> n)"

text \<open>A datagram that fills the buffer and makes the parser read behind it.\<close>

definition parser_overruns :: "'w hal \<Rightarrow> nat \<Rightarrow> 'w coap \<Rightarrow> bool" where
  "parser_overruns H t s \<longleftrightarrow>
     (let ((rc, bs), w) = net_read H COAP_RECVMSG_MAX_BUFLEN t (cenv s)
      in rc = QCLOUD_RET_SUCCESS \<and> length bs = COAP_RECVMSG_MAX_BUFLEN \<and>
         deserialize_coap_message (hal_malloc H) zero_message bs COAP_RECVMSG_MAX_BUFLEN w = None)"

lemma message_recv_cases:
  assumes ok: "coap_ok (cc s)" and r: "net_read H COAP_RECVMSG_MAX_BUFLEN t (cenv s) = ((rc, bs), w)"
    and len: "length bs \<le> COAP_RECVMSG_MAX_BUFLEN"
  shows "if parser_overruns H t s then coap_message_recv H t s = None
    else \<exists>s1. coap_message_recv H t s = Some (rc, s1) \<and> coap_ok (cc s1)"
proof -
  have size: "length (recv_buf (cc s)) = COAP_RECVMSG_MAX_BUFLEN" "recv_buf_size (cc s) = COAP_RECVMSG_MAX_BUFLEN"
    using ok by (simp_all add: coap_ok_def core_ok_def)
  let ?b = "bs @ drop (length bs) (recv_buf (cc s))"
  let ?s = "cc_update (\<lambda>c. c\<lparr>recv_buf := ?b\<rparr>) (s\<lparr>cenv := w\<rparr>)"
  have b: "wr_bytes (recv_buf (cc s)) 0 bs = Some ?b" "length ?b = COAP_RECVMSG_MAX_BUFLEN"
    using len size by (simp_all add: wr_bytes_def)
  have ok': "coap_ok (cc ?s)" using ok b(2) size by (simp add: coap_ok_def core_ok_buf)
  have recv: "coap_message_recv H t s = (if rc = QCLOUD_RET_SUCCESS
      then do { s \<leftarrow> coap_message_handle H (length bs) ?s; Some (rc, s) } else Some (rc, ?s))"
    using r b(1) size len by (simp add: coap_message_recv_def)
  show ?thesis
  proof (cases "rc = QCLOUD_RET_SUCCESS")
    case False
    then show ?thesis using recv r ok' by (simp add: parser_overruns_def)
  next
    case True
    show ?thesis
    proof (cases "deserialize_coap_message (hal_malloc H) zero_message ?b (length bs) w")
      case None
      have "length bs < length ?b \<Longrightarrow> length bs < 2 ^ 64 \<Longrightarrow> False"
        using deserialize_message_safe [of "length bs" ?b "hal_malloc H" w] None by auto
      then have "length bs = COAP_RECVMSG_MAX_BUFLEN" using size(1) len by (cases "length bs = COAP_RECVMSG_MAX_BUFLEN") auto
      then show ?thesis
        using recv True None r size by (simp add: parser_overruns_def coap_message_handle_def)
    next
      case (Some x)
      then obtain s1 where s1: "coap_message_handle H (length bs) ?s = Some s1" "coap_ok (cc s1)"
        using message_handle_deserialized [OF ok', of H "length bs"] by (cases x) auto
      have "\<not> parser_overruns H t s" using Some r size by (cases x) (auto simp: parser_overruns_def)
      then show ?thesis using recv True s1 by simp
    qed
  qed
qed

lemma yield_cases:
  assumes "coap_ok (cc s)" "length (snd (fst (net_read H COAP_RECVMSG_MAX_BUFLEN t (cenv s)))) \<le> COAP_RECVMSG_MAX_BUFLEN"
  shows "if parser_overruns H t s then IOT_COAP_Yield H t s = None
    else \<exists>rc s'. IOT_COAP_Yield H t s = Some (rc, s') \<and> coap_ok (cc s')"
proof -
  obtain rc bs w where r: "net_read H COAP_RECVMSG_MAX_BUFLEN t (cenv s) = ((rc, bs), w)" by (metis surj_pair)
  have "length bs \<le> COAP_RECVMSG_MAX_BUFLEN" using assms(2) r by simp
  note recv = message_recv_cases [OF assms(1) r this]
  show ?thesis
  proof (cases "parser_overruns H t s")
    case True
    then show ?thesis using recv by (simp add: IOT_COAP_Yield_def coap_message_cycle_def)
  next
    case False
    with recv obtain s1 where s1: "coap_message_recv H t s = Some (rc, s1)" "coap_ok (cc s1)" by auto
    show ?thesis
      using False s1 list_proc_user [OF s1(2), of H DEFAULT_COAP_MESSAGE PROCESS_WAIT_CMD]
      by (auto simp: IOT_COAP_Yield_def coap_message_cycle_def)
  qed
qed

lemma coap_yield_ok:
  assumes "coap_ok (cc s)" "IOT_COAP_Yield H t s = Some (rc, s')"
  shows "coap_ok (cc s')"
proof -
  obtain rc1 bs w where r: "net_read H (recv_buf_size (cc s)) t (cenv s) = ((rc1, bs), w)" by (metis surj_pair)
  have size: "length (recv_buf (cc s)) = COAP_RECVMSG_MAX_BUFLEN" "recv_buf_size (cc s) = COAP_RECVMSG_MAX_BUFLEN"
    using assms(1) by (simp_all add: coap_ok_def core_ok_def)
  obtain b where "wr_bytes (recv_buf (cc s)) 0 bs = Some b"
    using assms(2) r by (auto simp: IOT_COAP_Yield_def coap_message_cycle_def coap_message_recv_def elim!: bind_SomeE)
  then have "length bs \<le> COAP_RECVMSG_MAX_BUFLEN" using size by (simp add: wr_bytes_def split: if_splits)
  then show ?thesis using yield_cases [OF assms(1), of H t] assms(2) r size by (auto split: if_splits)
qed

text \<open>Such a datagram exists: a header, and 508 bytes that are an empty option each. The loop over the options reads the byte
  behind the last one before it looks at the length.\<close>

lemma zero_option:
  assumes "\<And>m. fst (A m)" "p < length buf" "buf ! p = 0" "0 < len"
  shows "\<exists>msg' m'. coap_message_deserialize_option A msg buf p len m = Some (Inr (msg', p + 1), m')"
proof -
  have r: "rd buf p = Some 0" using assms(2,3) by (simp add: rd_def)
  have r2: "rd_bytes buf (p + 1) 0 = Some []" using assms(2) by (simp add: rd_bytes_def)
  have init: "\<exists>op w. qcloud_iot_coap_option_init A n [] m = (Some op, w)" for n
  proof -
    obtain w where "A m = (True, w)" using assms(1) [of m] by (cases "A m") simp
    moreover obtain w' where "A w = (True, w')" using assms(1) [of w] by (cases "A w") simp
    ultimately show ?thesis by (simp add: qcloud_iot_coap_option_init_def)
  qed
  have "\<exists>msg' w. coap_msg_op_list_add_last A n [] msg m = (Inr msg', w)" for n
    using init [of n] by (auto simp: coap_msg_op_list_add_last_def)
  then obtain msg' w where "coap_msg_op_list_add_last A (if op_list msg = [] then 0 else ucast (option_num (last (op_list msg)))) [] msg m = (Inr msg', w)"
    by blast
  then show ?thesis
    using assms(4) r r2 by (simp add: coap_message_deserialize_option_def option_field_def Let_def split: if_splits)
qed

lemma zero_options_overrun:
  assumes "\<And>m. fst (A m)"
  shows "k \<le> length buf \<Longrightarrow> \<forall>i. length buf - k \<le> i \<and> i < length buf \<longrightarrow> buf ! i = 0 \<Longrightarrow>
    coap_message_deserialize_options A msg buf (length buf - k) k m = None"
proof (induction k arbitrary: msg m)
  case 0
  then show ?case by (subst coap_message_deserialize_options.simps) (simp add: rd_def)
next
  case (Suc k)
  let ?p = "length buf - Suc k"
  have p: "?p < length buf" "buf ! ?p = 0" "rd buf ?p = Some 0" "?p + 1 = length buf - k" using Suc.prems by (simp_all add: rd_def)
  obtain msg' m' where o: "coap_message_deserialize_option A msg buf ?p (Suc k) m = Some (Inr (msg', ?p + 1), m')"
    using zero_option [of A ?p buf "Suc k" msg m] assms p by auto
  show ?case
    using Suc.IH [of msg' m'] Suc.prems p o
    by (subst coap_message_deserialize_options.simps) simp
qed

lemma zero_datagram:
  assumes "\<And>m. fst (A m)" "length d = 512" "\<And>i. 4 \<le> i \<Longrightarrow> i < 512 \<Longrightarrow> d ! i = 0"
    and "rd d 0 = Some 0x60" "rd d 1 = Some 0x45" "rd d 2 = Some 0" "rd d 3 = Some 2"
  shows "deserialize_coap_message A zero_message d 512 w = None"
proof -
  have opts: "coap_message_deserialize_options A msg d 4 508 m = None" for msg m
    using zero_options_overrun [of A 508 d msg m] assms(1-3) by simp
  have "rd_bytes d 4 0 = Some []" "rd d (Suc 0) = Some 0x45" "rd d (Suc (Suc 0)) = Some 0"
    using assms(2,5,6) by (simp_all add: rd_bytes_def numeral_2_eq_2)
  then show ?thesis
    using assms(4,7) by (simp add: deserialize_coap_message_def coap_message_deserialize_header_def coap_message_deserialize_token_def
        opts Let_def wr_bytes_def zero_message_def)
qed

theorem full_datagram_overruns:
  assumes "\<And>w. fst (hal_malloc H w)"
    and "net_read H COAP_RECVMSG_MAX_BUFLEN t (cenv s) = ((QCLOUD_RET_SUCCESS, [0x60, 0x45, 0, 2] @ replicate 508 0), w)"
  shows "parser_overruns H t s"
proof -
  define z where "z = replicate 508 (0 :: byte)"
  define d where "d = [0x60, 0x45, 0, 2] @ z"
  have z: "length z = 508" "\<And>i. i < 508 \<Longrightarrow> z ! i = 0" by (simp_all add: z_def)
  have "length d = 512" "\<And>i. 4 \<le> i \<Longrightarrow> i < 512 \<Longrightarrow> d ! i = 0" using z by (simp_all add: d_def nth_append del: append.simps)
  moreover have "rd d 0 = Some 0x60" "rd d 1 = Some 0x45" "rd d 2 = Some 0" "rd d 3 = Some 2" using z(1) by (simp_all add: d_def rd_def)
  ultimately have "deserialize_coap_message (hal_malloc H) zero_message d 512 w = None" "length d = 512"
    using zero_datagram [of "hal_malloc H" d w] assms(1) by blast+
  then show ?thesis using assms(2) unfolding z_def [symmetric] d_def [symmetric] by (simp add: parser_overruns_def)
qed

section \<open>A request\<close>

text \<open>The message that \<^verbatim>\<open>IOT_COAP_SendMessage\<close> builds.\<close>

definition token_bytes :: "u32 \<Rightarrow> byte list" where
  "token_bytes v = [ucast (v AND 0xFF), ucast (drop_bit 8 (v AND 0xFF00)), ucast (drop_bit 16 (v AND 0xFF0000)),
     ucast (drop_bit 24 (v AND 0xFF000000))]"

definition coap_next_id :: "CoAPClient \<Rightarrow> u16" where
  "coap_next_id c = (if next_msg_id c = 65535 then 1 else next_msg_id c + 1)"

lemma coap_next_id_nonzero: "coap_next_id c \<noteq> 0"
proof (cases "next_msg_id c = 65535")
  case False
  moreover have "next_msg_id c + 1 = 0 \<longleftrightarrow> next_msg_id c = - 1" "(- 1 :: u16) = 65535" by (simp_all add: eq_neg_iff_add_eq_0)
  ultimately have "next_msg_id c + 1 \<noteq> 0" by simp
  then show ?thesis using False by (simp add: coap_next_id_def)
qed (simp add: coap_next_id_def)

definition request_message :: "CoAPClient \<Rightarrow> CoAPMessage" where
  "request_message c = DEFAULT_COAP_MESSAGE\<lparr>coap_msg_id := coap_next_id c, coap_token := token_bytes (message_token c) @ replicate 4 0, coap_token_len := 4\<rparr>"

definition bumped :: "'w coap \<Rightarrow> 'w coap" where
  "bumped s = cc_update (\<lambda>c. c\<lparr>next_msg_id := coap_next_id (cc s), message_token := message_token (cc s) + 1\<rparr>) s"

lemma new_request_exact:
  "new_request s = Some (request_message (cc s), bumped s)"
  by (simp add: bumped_def o_def new_request_def coap_message_type_set_def coap_message_code_set_def get_next_coap_msg_id_def id_set_u16
      get_coap_message_token_def coap_message_token_set_def wr_bytes_def request_message_def token_bytes_def coap_next_id_def
      DEFAULT_COAP_MESSAGE_def Let_def eval_nat_numeral)


definition option_inserted :: "CoAPMsgOption \<Rightarrow> CoAPMsgOption list \<Rightarrow> CoAPMsgOption list" where
  "option_inserted op ops = (case ops of [] \<Rightarrow> [op] | f # fs \<Rightarrow> if option_num op < option_num f then op # f # fs else option_insert_after op (f # fs))"

lemma option_added_exact:
  assumes "grants H"
  shows "\<exists>w. option_added H num v m s = (m\<lparr>op_list := option_inserted \<lparr>option_num = ucast num, option_val = v\<rparr> (op_list m)\<rparr>, s\<lparr>cenv := w\<rparr>)"
proof -
  have "qcloud_iot_coap_option_init (hal_malloc H) num v (cenv s) = (Some \<lparr>option_num = ucast num, option_val = v\<rparr>,
      snd (hal_malloc H (snd (hal_malloc H (cenv s)))))"
    using assms by (simp add: grants_def qcloud_iot_coap_option_init_def split_beta Let_def)
  then show ?thesis by (auto simp: option_added_def coap_message_option_add_def option_inserted_def)
qed

text \<open>The options of a request, in the order they stand in the message.\<close>

definition sent_message :: "CoAPClient \<Rightarrow> byte list \<Rightarrow> SendMsgParams \<Rightarrow> CoAPMessage" where
  "sent_message c topicName p = (request_message c)\<lparr>
     pay_load := Some (sp_pay_load p), pay_load_len := of_nat (length (sp_pay_load p)),
     op_list := [\<lparr>option_num = 11, option_val = topicName\<rparr>,
        \<lparr>option_num = 61, option_val = (case auth_token c of None \<Rightarrow> [] | Some t \<Rightarrow> t)\<rparr>,
        \<lparr>option_num = 62, option_val = cstr (if need_resp p then ''1'' else ''0'')\<rparr>],
     coap_handler := (if need_resp p then resp_callback p else None), user_context := sp_user_context p\<rparr>"

lemma send_message_exact:
  assumes "grants H" "core_ok (cc s)" "length topicName \<le> URI_PATH_MAX_LEN"
  shows "\<exists>w. IOT_COAP_SendMessage H topicName p s = do {
     (ret, s') \<leftarrow> coap_message_send H (sent_message (cc s) topicName p) ((bumped s)\<lparr>cenv := w\<rparr>);
     if ret \<noteq> QCLOUD_RET_SUCCESS then Some (ret, s') else Some (int (unat (coap_next_id (cc s))), s') }"
proof -
  let ?s = "bumped s"
  obtain w1 where w1: "coap_malloc H ?s = (True, ?s\<lparr>cenv := w1\<rparr>)" using granted [OF assms(1)] by blast
  let ?m0 = "request_message (cc s)"
  let ?m1 = "?m0\<lparr>pay_load := Some (sp_pay_load p), pay_load_len := of_nat (length (sp_pay_load p))\<rparr>"
  have ops0: "op_list ?m0 = []" "pay_load_len ?m0 = 0" by (simp_all add: request_message_def DEFAULT_COAP_MESSAGE_def)
  have pl: "coap_message_payload_set (sp_pay_load p) (?m0\<lparr>pay_load := Some (replicate (length (sp_pay_load p)) 0)\<rparr>) =
      Some (QCLOUD_RET_SUCCESS, ?m1)"
    by (cases "sp_pay_load p = []") (simp_all add: coap_message_payload_set_def Let_def wr_bytes_def ops0)
  let ?o1 = "\<lparr>option_num = 11, option_val = topicName\<rparr>"
  obtain w2 where w2: "option_added H COAP_MSG_URI_PATH topicName ?m1 (?s\<lparr>cenv := w1\<rparr>) = (?m1\<lparr>op_list := [?o1]\<rparr>, ?s\<lparr>cenv := w2\<rparr>)"
    using option_added_exact [OF assms(1), of COAP_MSG_URI_PATH topicName ?m1 "?s\<lparr>cenv := w1\<rparr>"] by (auto simp: ops0 option_inserted_def)
  let ?t = "case auth_token (cc s) of None \<Rightarrow> [] | Some t \<Rightarrow> t"
  let ?o2 = "\<lparr>option_num = 61, option_val = ?t\<rparr>"
  have tok: "(case auth_token (cc (?s\<lparr>cenv := w2\<rparr>)) of None \<Rightarrow> if auth_token_len (cc (?s\<lparr>cenv := w2\<rparr>)) = 0 then Some [] else None
      | Some t \<Rightarrow> rd_bytes t 0 (auth_token_len (cc (?s\<lparr>cenv := w2\<rparr>)))) = Some ?t"
    using assms(2) by (auto simp: core_ok_def bumped_def rd_bytes_def split: option.splits)
  obtain w3 where w3: "option_added H COAP_MSG_AUTH_TOKEN ?t (?m1\<lparr>op_list := [?o1]\<rparr>) (?s\<lparr>cenv := w2\<rparr>) =
      (?m1\<lparr>op_list := [?o1, ?o2]\<rparr>, ?s\<lparr>cenv := w3\<rparr>)"
    using option_added_exact [OF assms(1), of COAP_MSG_AUTH_TOKEN ?t "?m1\<lparr>op_list := [?o1]\<rparr>" "?s\<lparr>cenv := w2\<rparr>"]
    by (auto simp: option_inserted_def)
  have o3: "\<exists>w. option_added H COAP_MSG_NEED_RESP v (?m1\<lparr>op_list := [?o1, ?o2]\<rparr>) (?s\<lparr>cenv := w3\<rparr>) =
      (?m1\<lparr>op_list := [?o1, ?o2, \<lparr>option_num = 62, option_val = v\<rparr>]\<rparr>, ?s\<lparr>cenv := w\<rparr>)" for v
    using option_added_exact [OF assms(1), of COAP_MSG_NEED_RESP v "?m1\<lparr>op_list := [?o1, ?o2]\<rparr>" "?s\<lparr>cenv := w3\<rparr>"]
    by (auto simp: option_inserted_def)
  obtain w4 where w4: "option_added H COAP_MSG_NEED_RESP (cstr (if need_resp p then ''1'' else ''0'')) (?m1\<lparr>op_list := [?o1, ?o2]\<rparr>)
      (?s\<lparr>cenv := w3\<rparr>) = (?m1\<lparr>op_list := [?o1, ?o2, \<lparr>option_num = 62, option_val = cstr (if need_resp p then ''1'' else ''0'')\<rparr>]\<rparr>,
      ?s\<lparr>cenv := w4\<rparr>)"
    using o3 by blast
  have id: "coap_msg_id (sent_message (cc s) topicName p) = coap_next_id (cc s)"
    by (simp add: sent_message_def request_message_def)
  have "IOT_COAP_SendMessage H topicName p s = do {
     (ret, s') \<leftarrow> coap_message_send H (sent_message (cc s) topicName p) (?s\<lparr>cenv := w4\<rparr>);
     if ret \<noteq> QCLOUD_RET_SUCCESS then Some (ret, s') else Some (int (unat (coap_next_id (cc s))), s') }"
    using assms(3) w1 w2 w3 w4 pl tok id
    by (cases "need_resp p") (simp_all add: IOT_COAP_SendMessage_def new_request_exact sent_message_def
        coap_message_context_set_def coap_message_callback_set_def request_message_def DEFAULT_COAP_MESSAGE_def cong: if_cong)
  then show ?thesis by blast
qed

definition request_node :: "CoAPMessage \<Rightarrow> Timer \<Rightarrow> byte list \<Rightarrow> CoAPMsgSendInfo" where
  "request_node m t bs = \<lparr>si_node_state = COAP_NODE_STATE_NORMANL, si_user_context = user_context m, si_msg_id = coap_msg_id m,
     si_acked = False, si_token_len = ucast (coap_token_len m), si_token = take (unat (coap_token_len m)) (coap_token m), si_retrans_count = 0,
     si_start_time = t, si_message = Some bs, si_msglen = length bs, si_handler = coap_handler m\<rparr>"

lemma request_node_ok: "message_fits m \<Longrightarrow> node_ok k (request_node m t bs)"
proof -
  assume "message_fits m"
  then have "coap_token_len m \<le> 8" "length (coap_token m) = 8" by (simp_all add: message_fits_def)
  moreover have "unat (coap_token_len m) \<le> 8" using \<open>coap_token_len m \<le> 8\<close> by (simp add: word_le_nat_alt)
  moreover from this have "unat (ucast (coap_token_len m) :: u8) = unat (coap_token_len m)"
    by (simp add: unsigned_ucast_eq take_bit_nat_eq_self)
  ultimately show ?thesis by (simp add: node_ok_def request_node_def)
qed

lemma request_node_handler [simp]: "si_handler (request_node m t bs) = coap_handler m"
  by (simp add: request_node_def)

lemma list_add_exact:
  assumes "grants H" "list_made (cc s)" "message_fits m" "len \<le> length (send_buf (cc s))"
  shows "\<exists>t w. coap_message_list_add H m len s =
    Some (QCLOUD_RET_SUCCESS, cc_update (\<lambda>c. c\<lparr>message_list := message_list c @ [request_node m t (take len (send_buf (cc s)))]\<rparr>) (s\<lparr>cenv := w\<rparr>))"
proof -
  obtain w1 where w1: "coap_malloc H s = (True, s\<lparr>cenv := w1\<rparr>)" using granted [OF assms(1)] by blast
  obtain t w2 where w2: "coap_countdown_ms H (unat (cc_timeout_ms (cc s))) (s\<lparr>cenv := w1\<rparr>) = (t, s\<lparr>cenv := w2\<rparr>)"
    by (cases "gettimeofday H w1") (simp add: coap_countdown_ms_def coap_now_def)
  obtain w3 where w3: "coap_malloc H (s\<lparr>cenv := w2\<rparr>) = (True, s\<lparr>cenv := w3\<rparr>)"
    using granted [OF assms(1), of "s\<lparr>cenv := w2\<rparr>"] by auto
  obtain w4 where w4: "coap_malloc H (s\<lparr>cenv := w3\<rparr>) = (True, s\<lparr>cenv := w4\<rparr>)"
    using granted [OF assms(1), of "s\<lparr>cenv := w3\<rparr>"] by auto
  have tok: "rd_bytes (coap_token m) 0 (unat (coap_token_len m)) = Some (take (unat (coap_token_len m)) (coap_token m))"
    using assms(3) by (simp add: message_fits_def rd_bytes_def word_le_nat_alt)
  show ?thesis
    using w1 w2 w3 w4 tok assms(2,4)
    by (auto simp: coap_message_list_add_def rd_bytes_def request_node_def)
qed

lemma list_add_effect:
  assumes "grants H" "core_ok (cc s)" "message_fits m" "coap_message_list_add H m len s = Some (ret, s')"
  shows "\<exists>t bs. cc s' = (cc s)\<lparr>message_list := message_list (cc s) @ [request_node m t bs]\<rparr>"
proof (cases "len \<le> length (send_buf (cc s))")
  case True
  obtain t w where "coap_message_list_add H m len s =
    Some (QCLOUD_RET_SUCCESS, cc_update (\<lambda>c. c\<lparr>message_list := message_list c @ [request_node m t (take len (send_buf (cc s)))]\<rparr>) (s\<lparr>cenv := w\<rparr>))"
    using list_add_exact [OF assms(1) core_ok_made [OF assms(2)] assms(3) True] by blast
  then show ?thesis using assms(4) by auto
next
  case False
  then show ?thesis
    using assms(4)
    by (auto simp: coap_message_list_add_def rd_bytes_def granted_eq [OF assms(1)] elim!: bind_SomeE split: prod.splits if_splits
        dest!: coap_countdown_ms_env)
qed

text \<open>Whatever its outcome, sending changes the send buffer and puts at most its message on the list.\<close>

lemma message_send_effect:
  assumes "grants H" "core_ok (cc s)" "message_fits m" "coap_message_send H m s = Some (ret, s')"
  shows "\<exists>b ns. cc s' = (cc s)\<lparr>send_buf := b, message_list := message_list (cc s) @ ns\<rparr> \<and> length b = length (send_buf (cc s)) \<and>
    (ns = [] \<or> (\<exists>t bs. ns = [request_node m t bs]))"
proof -
  obtain r where r: "serialize_coap_message m (send_buf (cc s)) (of_nat (send_buf_size (cc s))) = Some r"
    using assms(4) by (auto simp: coap_message_send_def elim!: bind_SomeE)
  show ?thesis
  proof (cases r)
    case (Inl rc)
    then have "s' = s" using r assms(4) by (simp add: coap_message_send_def)
    then show ?thesis by (intro exI [of _ "send_buf (cc s)"] exI [of _ "[]"]) simp
  next
    case (Inr y)
    obtain b n where y: "y = (b, n)" by (cases y)
    have len: "length b = length (send_buf (cc s))" using serialize_length r Inr y by blast
    obtain data where data: "rd_bytes b 0 n = Some data" using assms(4) r Inr y by (auto simp: coap_message_send_def elim!: bind_SomeE)
    obtain rc k s1 where w: "coap_write H data 0 (cc_update (\<lambda>c. c\<lparr>send_buf := b\<rparr>) s) = ((rc, k), s1)" by (metis surj_pair)
    then have c1: "cc s1 = (cc s)\<lparr>send_buf := b\<rparr>" by (auto dest!: coap_write_env)
    consider (add) "coap_message_list_add H m k s1 = Some (ret, s')" | (no) "s' = s1"
      using assms(4) r Inr y data w by (auto simp: coap_message_send_def split: if_splits)
    then show ?thesis
    proof cases
      case add
      have "core_ok (cc s1)" using assms(2) len c1 by (simp add: core_ok_buf)
      then obtain t bs where "cc s' = (cc s1)\<lparr>message_list := message_list (cc s1) @ [request_node m t bs]\<rparr>"
        using list_add_effect [OF assms(1) _ assms(3) add] by blast
      then show ?thesis using c1 len by (intro exI [of _ b] exI [of _ "[request_node m t bs]"]) auto
    next
      case no
      then show ?thesis using c1 len by (intro exI [of _ b] exI [of _ "[]"]) simp
    qed
  qed
qed

lemma message_send_ok:
  assumes "grants H" "coap_ok (cc s)" "message_fits m" "coap_handler m \<noteq> Some Auth_Callback" "coap_message_send H m s = Some (ret, s')"
  shows "coap_ok (cc s')"
proof -
  have "core_ok (cc s)" using assms(2) by (simp add: coap_ok_def)
  from message_send_effect [OF assms(1) this assms(3,5)] show ?thesis
    using assms(2,4) request_node_ok [OF assms(3)] by (auto simp: coap_ok_def core_ok_buf)
qed

lemma sent_message_fits: "length (sp_pay_load p) < 2 ^ 64 \<Longrightarrow> message_fits (sent_message c topicName p)"
  by (auto simp: message_fits_def sent_message_def request_message_def token_bytes_def unat_of_nat)

lemma send_message_ok:
  assumes "grants H" "coap_ok (cc s)" "resp_callback p \<noteq> Some Auth_Callback" "length (sp_pay_load p) < 2 ^ 64"
    "IOT_COAP_SendMessage H topicName p s = Some (rc, s')"
  shows "coap_ok (cc s')"
proof (cases "length topicName \<le> URI_PATH_MAX_LEN")
  case True
  have b: "coap_ok (cc ((bumped s)\<lparr>cenv := w\<rparr>))" for w using assms(2) by (simp add: bumped_def coap_ok_def)
  have h: "coap_handler (sent_message (cc s) topicName p) \<noteq> Some Auth_Callback" using assms(3) by (simp add: sent_message_def)
  have core: "core_ok (cc s)" using assms(2) by (simp add: coap_ok_def)
  obtain w where w: "IOT_COAP_SendMessage H topicName p s = do {
     (ret, s') \<leftarrow> coap_message_send H (sent_message (cc s) topicName p) ((bumped s)\<lparr>cenv := w\<rparr>);
     if ret \<noteq> QCLOUD_RET_SUCCESS then Some (ret, s') else Some (int (unat (coap_next_id (cc s))), s') }"
    using send_message_exact [OF assms(1) core True] by blast
  then obtain ret where "coap_message_send H (sent_message (cc s) topicName p) ((bumped s)\<lparr>cenv := w\<rparr>) = Some (ret, s')"
    using assms(5) by (cases "coap_message_send H (sent_message (cc s) topicName p) ((bumped s)\<lparr>cenv := w\<rparr>)") (auto split: if_splits)
  then show ?thesis by (rule message_send_ok [OF assms(1) b sent_message_fits [OF assms(4)] h])
qed (use assms in \<open>simp add: IOT_COAP_SendMessage_def\<close>)

text \<open>The size of the message.\<close>

lemma extension_le: "length (option_extension n) \<le> 2"
  by (simp add: option_extension_def)

lemma sent_message_size:
  "length (coap_bytes (sent_message c topicName p)) \<le>
     18 + length topicName + length (case auth_token c of None \<Rightarrow> [] | Some t \<Rightarrow> t) + length (sp_pay_load p)"
proof -
  have d: "option_extension 11 = []" "length (option_extension 50) = 1" "option_extension 1 = []" "length (option_extension (Suc 0)) = 0"
    by (simp_all add: option_extension_def)
  have "length (coap_payload_bytes (sent_message c topicName p)) \<le> 1 + length (sp_pay_load p)"
    by (auto simp: coap_payload_bytes_def sent_message_def)
  moreover have "length (option_extension (length topicName)) \<le> 2"
    "length (option_extension (length (case auth_token c of None \<Rightarrow> [] | Some t \<Rightarrow> t))) \<le> 2" by (rule extension_le)+
  moreover have "length (coap_bytes (sent_message c topicName p)) = 12 + length (option_extension (length topicName)) + length topicName +
      length (option_extension (length (case auth_token c of None \<Rightarrow> [] | Some t \<Rightarrow> t))) + length (case auth_token c of None \<Rightarrow> [] | Some t \<Rightarrow> t) + 1 +
      length (coap_payload_bytes (sent_message c topicName p))"
    by (simp add: coap_bytes_def coap_header_bytes_def option_bytes_def sent_message_def request_message_def token_bytes_def d cstr_def)
  ultimately show ?thesis by linarith
qed

end
