(* ===== verification/Coap_Exchange.thy ===== *)
theory Coap_Exchange
  imports Coap_Client
begin

text \<open>
  What the CoAP client does over time: retransmission and expiry of requests, replies, the authentication exchange and
  the loop of \<^verbatim>\<open>IOT_COAP_Construct\<close>, and the invariant of a constructed client.
\<close>

section \<open>Retransmission\<close>

text \<open>What one pass makes of a node at time \<open>t\<close>, and the callbacks it makes for it.\<close>

definition time_up :: "nat \<Rightarrow> CoAPMsgSendInfo \<Rightarrow> bool" where
  "time_up t n \<longleftrightarrow> si_start_time n < t + 1000"

definition wait_result :: "nat \<Rightarrow> CoAPClient \<Rightarrow> CoAPMsgSendInfo \<Rightarrow> CoAPMsgSendInfo list" where
  "wait_result t c n =
     (if si_node_state n = COAP_NODE_STATE_INVALID then []
      else if \<not> time_up t n then [n]
      else if si_retrans_count n < max_retry_count c \<and> \<not> si_acked n
      then [n\<lparr>si_start_time := t + 1000 * unat (cc_timeout_ms c), si_retrans_count := si_retrans_count n + 1\<rparr>]
      else [])"

definition timeout_message :: "CoAPMsgSendInfo \<Rightarrow> CoAPMessage \<Rightarrow> CoAPMessage" where
  "timeout_message n m = m\<lparr>coap_type := COAP_MSG_ACK, user_context := si_user_context n, code_class := COAP_MSG_SDKINTERNAL_ERR,
     code_detail := 0, coap_msg_id := si_msg_id n\<rparr>"

definition give_up_events :: "CoAPClient \<Rightarrow> CoAPMsgSendInfo \<Rightarrow> coap_event list" where
  "give_up_events c n =
     (case si_handler n of
        Some (User_Callback f) \<Rightarrow> [On_Response f (timeout_message n DEFAULT_COAP_MESSAGE) (si_user_context n)]
      | _ \<Rightarrow> if cc_event_handle c
             then [On_Coap_Event (if si_acked n then COAP_EVENT_SEPRESP_TIMEOUT else COAP_EVENT_ACK_TIMEOUT) (Event_Id (si_msg_id n))] else [])"

definition given_up :: "nat \<Rightarrow> CoAPClient \<Rightarrow> CoAPMsgSendInfo \<Rightarrow> bool" where
  "given_up t c n \<longleftrightarrow> si_node_state n \<noteq> COAP_NODE_STATE_INVALID \<and> time_up t n \<and> (max_retry_count c \<le> si_retrans_count n \<or> si_acked n)"

definition wait_events :: "nat \<Rightarrow> CoAPClient \<Rightarrow> CoAPMsgSendInfo \<Rightarrow> coap_event list" where
  "wait_events t c n = (if given_up t c n then give_up_events c n else [])"

text \<open>The datagram it sends for a node.\<close>

definition wait_sent :: "nat \<Rightarrow> CoAPClient \<Rightarrow> CoAPMsgSendInfo \<Rightarrow> byte list list" where
  "wait_sent t c n =
     (if si_node_state n \<noteq> COAP_NODE_STATE_INVALID \<and> time_up t n \<and> si_retrans_count n < max_retry_count c \<and> \<not> si_acked n
      then [the (si_message n)] else [])"

text \<open>\<open>out w\<close> are the datagrams that have been handed to the network so far, in a world \<open>w\<close>.\<close>

definition logs_writes :: "'w hal \<Rightarrow> ('w \<Rightarrow> byte list list) \<Rightarrow> bool" where
  "logs_writes H out \<longleftrightarrow> (\<forall>d t w. out (snd (net_write H d t w)) = out w @ [d]) \<and>
     (\<forall>w. out (snd (gettimeofday H w)) = out w \<and> out (snd (hal_malloc H w)) = out w)"

lemma coap_log:
  assumes "logs_writes H out"
  shows "coap_left_ms H timer s = (ms, s1) \<Longrightarrow> out (cenv s1) = out (cenv s)"
    "coap_countdown_ms H n s = (t, s1) \<Longrightarrow> out (cenv s1) = out (cenv s)"
    "coap_malloc H s = (ok, s1) \<Longrightarrow> out (cenv s1) = out (cenv s)"
    "coap_write H d ms s = (r, s1) \<Longrightarrow> out (cenv s1) = out (cenv s) @ [d]"
  using assms by (auto simp: logs_writes_def coap_left_ms_def coap_countdown_ms_def coap_now_def coap_malloc_def coap_write_def
      split: prod.splits) (metis snd_conv)+

lemma coap_left_ms_at:
  assumes "\<And>w. fst (gettimeofday H w) = t"
  shows "\<exists>ms w. coap_left_ms H timer s = (ms, s\<lparr>cenv := w\<rparr>) \<and> (ms = 0 \<longleftrightarrow> timer < t + 1000)"
proof -
  obtain w where w: "gettimeofday H (cenv s) = (t, w)" using assms [of "cenv s"] by (cases "gettimeofday H (cenv s)") simp
  show ?thesis
  proof (cases "timer < t")
    case True
    then show ?thesis using w by (auto simp: coap_left_ms_def coap_now_def)
  next
    case False
    then obtain d where d: "timer = t + d" using le_Suc_ex by (metis not_less)
    have "(d div 1000000 * 1000 + d mod 1000000 div 1000 = 0) = (d < 1000)"
      by (auto simp: div_eq_0_iff)
    then show ?thesis using w d by (auto simp: coap_left_ms_def coap_now_def)
  qed
qed

lemma coap_countdown_at:
  assumes "\<And>w. fst (gettimeofday H w) = t"
  shows "\<exists>w. coap_countdown_ms H ms s = (t + 1000 * ms, s\<lparr>cenv := w\<rparr>)"
proof -
  obtain w where w: "gettimeofday H (cenv s) = (t, w)" using assms [of "cenv s"] by (cases "gettimeofday H (cenv s)") simp
  have "1000000 * (ms div 1000) + 1000 * (ms mod 1000) = 1000 * ms" using mult_div_mod_eq [of 1000 ms] by linarith
  then show ?thesis using w by (auto simp: coap_countdown_ms_def coap_now_def)
qed

lemma timeout_message_idem [simp]: "timeout_message n (timeout_message n' m) = timeout_message n m"
  by (simp add: timeout_message_def)

lemma proc_wait_exact:
  assumes clock: "\<And>w. fst (gettimeofday H w) = t" and log: "logs_writes H out"
    and n: "node_ok (max_retry_count (cc s)) n" "si_handler n \<noteq> Some Auth_Callback"
    and m: "\<And>n'. timeout_message n' m = timeout_message n' DEFAULT_COAP_MESSAGE"
  shows "\<exists>r m' s'. coap_proc_wait H m n s = Some ((r, m'), s') \<and> cc s' = cc s \<and>
    (case r of None \<Rightarrow> [] | Some n' \<Rightarrow> [n']) = wait_result t (cc s) n \<and>
    cevents s' = cevents s @ wait_events t (cc s) n \<and> out (cenv s') = out (cenv s) @ wait_sent t (cc s) n \<and>
    (\<forall>n'. timeout_message n' m' = timeout_message n' DEFAULT_COAP_MESSAGE)"
proof (cases "si_node_state n = COAP_NODE_STATE_INVALID")
  case True
  then show ?thesis using m by (simp add: coap_proc_wait_def wait_result_def wait_events_def given_up_def wait_sent_def)
next
  case False
  obtain ms w where ms: "coap_left_ms H (si_start_time n) s = (ms, s\<lparr>cenv := w\<rparr>)" "ms = 0 \<longleftrightarrow> time_up t n"
    using coap_left_ms_at [of H t "si_start_time n" s] clock by (auto simp: time_up_def)
  have keep: "out w = out (cenv s)" using coap_log(1) [OF log ms(1)] by simp
  show ?thesis
  proof (cases "time_up t n")
    case up: True
    obtain bs where bs: "si_message n = Some bs" "rd_bytes bs 0 (si_msglen n) = Some bs"
      using n(1) by (auto simp: node_ok_def rd_bytes_def)
    obtain w2 where w2: "coap_countdown_ms H (unat (cc_timeout_ms (cc s))) (s\<lparr>cenv := w\<rparr>) =
        (t + 1000 * unat (cc_timeout_ms (cc s)), s\<lparr>cenv := w2\<rparr>)"
      using coap_countdown_at [of H t _ "s\<lparr>cenv := w\<rparr>"] clock by auto
    show ?thesis
    proof (cases "si_retrans_count n < max_retry_count (cc s) \<and> \<not> si_acked n")
      case True
      let ?t = "t + 1000 * unat (cc_timeout_ms (cc s))"
      obtain ms2 w3 where ms2: "coap_left_ms H ?t (s\<lparr>cenv := w2\<rparr>) = (ms2, s\<lparr>cenv := w3\<rparr>)"
        using coap_left_ms_at [of H t ?t "s\<lparr>cenv := w2\<rparr>"] clock by auto
      obtain rc k w4 where wr: "coap_write H bs ms2 (s\<lparr>cenv := w3\<rparr>) = ((rc, k), s\<lparr>cenv := w4\<rparr>)"
        using coap_write_env [of H bs ms2 "s\<lparr>cenv := w3\<rparr>"] by (cases "coap_write H bs ms2 (s\<lparr>cenv := w3\<rparr>)") auto
      have "out w4 = out (cenv s) @ [bs]"
        using coap_log(2) [OF log w2] coap_log(1) [OF log ms2] coap_log(4) [OF log wr] keep by simp
      then show ?thesis
        using True False up ms w2 ms2 wr bs m
        by (auto simp: coap_proc_wait_def wait_result_def wait_events_def given_up_def wait_sent_def not_le)
    next
      case gone: False
      then have "given_up t (cc s) n" using False up by (auto simp: given_up_def)
      moreover have "\<exists>m' s'. coap_give_up H m n (s\<lparr>cenv := w\<rparr>) = Some (m', s') \<and> cc s' = cc s \<and> cevents s' = cevents s @ give_up_events (cc s) n \<and>
          cenv s' = w \<and>
          (\<forall>n'. timeout_message n' m' = timeout_message n' DEFAULT_COAP_MESSAGE)"
        using n(2) m m [of n] timeout_message_idem [of _ n m]
        by (auto simp: coap_give_up_def Let_def coap_call_handler_def give_up_events_def timeout_message_def [symmetric]
            split: option.splits coap_callback.splits)
      ultimately show ?thesis
        using False up ms gone keep by (auto simp: coap_proc_wait_def wait_result_def wait_events_def wait_sent_def)
    qed
  next
    case False
    then show ?thesis
      using \<open>si_node_state n \<noteq> COAP_NODE_STATE_INVALID\<close> ms m keep
      by (simp add: coap_proc_wait_def wait_result_def wait_events_def given_up_def wait_sent_def)
  qed
qed


lemma wait_loop_exact:
  assumes clock: "\<And>w. fst (gettimeofday H w) = t" and log: "logs_writes H out"
    and ns: "\<forall>n\<in>set ns. node_ok (max_retry_count (cc s)) n \<and> si_handler n \<noteq> Some Auth_Callback"
    and m: "\<And>n. timeout_message n m = timeout_message n DEFAULT_COAP_MESSAGE"
  shows "\<exists>m' s'. coap_list_loop H PROCESS_WAIT_CMD ns m s = Some ((concat (map (wait_result t (cc s)) ns), m'), s') \<and> cc s' = cc s \<and>
    cevents s' = cevents s @ concat (map (wait_events t (cc s)) ns) \<and>
    out (cenv s') = out (cenv s) @ concat (map (wait_sent t (cc s)) ns)"
  using ns m
proof (induction ns arbitrary: m s)
  case (Cons n ns)
  obtain r m1 s1 where r: "coap_proc_wait H m n s = Some ((r, m1), s1)" "cc s1 = cc s"
    "(case r of None \<Rightarrow> [] | Some n' \<Rightarrow> [n']) = wait_result t (cc s) n" "cevents s1 = cevents s @ wait_events t (cc s) n"
    "\<forall>n'. timeout_message n' m1 = timeout_message n' DEFAULT_COAP_MESSAGE" "out (cenv s1) = out (cenv s) @ wait_sent t (cc s) n"
    using proc_wait_exact [of H t out s n m] clock log Cons.prems by auto
  obtain m2 s2 where "coap_list_loop H PROCESS_WAIT_CMD ns m1 s1 = Some ((concat (map (wait_result t (cc s)) ns), m2), s2)" "cc s2 = cc s"
    "cevents s2 = cevents s @ wait_events t (cc s) n @ concat (map (wait_events t (cc s)) ns)"
    "out (cenv s2) = out (cenv s) @ wait_sent t (cc s) n @ concat (map (wait_sent t (cc s)) ns)"
    using Cons.IH [of s1 m1] Cons.prems(1) r(2,4,5,6) by auto
  with r(1,3) show ?case by (cases r) (auto simp: coap_proc_node_def r(3) [symmetric])
qed simp

text \<open>C7. One pass over the requests that wait, the clock standing still at \<open>t\<close> meanwhile and allocation succeeding: answered
  requests disappear; those whose time is not up stay as they are; those whose time is up are sent again and counted while
  they are unacknowledged and have retransmissions left; all others are dropped, with exactly one callback each (the one of
  the request if it has one, else the event handler). The datagrams handed to the network are exactly the stored messages of the
  requests that are sent again. Callbacks and datagrams come latest request first.\<close>

theorem coap_retransmission:
  assumes clock: "\<And>w. fst (gettimeofday H w) = t" and "grants H" "coap_ok (cc s)" "message_list (cc s) \<noteq> []" and log: "logs_writes H out"
  shows "\<exists>s'. coap_message_list_proc H DEFAULT_COAP_MESSAGE PROCESS_WAIT_CMD s = Some (QCLOUD_RET_SUCCESS, s') \<and>
    message_list (cc s') = concat (map (wait_result t (cc s)) (message_list (cc s))) \<and>
    cevents s' = cevents s @ concat (map (wait_events t (cc s)) (rev (message_list (cc s)))) \<and>
    out (cenv s') = out (cenv s) @ concat (map (wait_sent t (cc s)) (rev (message_list (cc s))))"
proof -
  obtain w where w: "coap_malloc H s = (True, s\<lparr>cenv := w\<rparr>)" using granted [OF assms(2)] by blast
  have keep: "out w = out (cenv s)" using coap_log(3) [OF log w] by simp
  obtain m' s' where l: "coap_list_loop H PROCESS_WAIT_CMD (rev (message_list (cc s))) DEFAULT_COAP_MESSAGE (s\<lparr>cenv := w\<rparr>) =
      Some ((concat (map (wait_result t (cc s)) (rev (message_list (cc s)))), m'), s')" "cc s' = cc s"
      "cevents s' = cevents s @ concat (map (wait_events t (cc s)) (rev (message_list (cc s))))"
      "out (cenv s') = out w @ concat (map (wait_sent t (cc s)) (rev (message_list (cc s))))"
    using wait_loop_exact [of H t out "rev (message_list (cc s))" "s\<lparr>cenv := w\<rparr>" DEFAULT_COAP_MESSAGE] clock log assms(3)
    by (auto simp: coap_ok_def)
  have "rev (wait_result t (cc s) n) = wait_result t (cc s) n" for n by (simp add: wait_result_def)
  then have "rev (concat (map (wait_result t (cc s)) (rev (message_list (cc s))))) = concat (map (wait_result t (cc s)) (message_list (cc s)))"
    by (simp add: rev_concat rev_map o_def)
  then show ?thesis
    using w l keep assms(3,4) by (simp add: coap_message_list_proc_def coap_ok_def core_ok_made)
qed

section \<open>Replies\<close>

definition piggy_events :: "CoAPClient \<Rightarrow> CoAPMessage \<Rightarrow> CoAPMsgSendInfo \<Rightarrow> coap_event list" where
  "piggy_events c m n =
     (if si_msg_id n \<noteq> coap_msg_id m then []
      else case si_handler n of
             Some (User_Callback f) \<Rightarrow> [On_Response f (m\<lparr>user_context := si_user_context n\<rparr>) (si_user_context n)]
           | _ \<Rightarrow> if cc_event_handle c then [On_Coap_Event (event_message_type_set m PROCESS_PIGGY_CMD) (Event_Id (coap_msg_id m))] else [])"

definition piggy_result :: "CoAPMessage \<Rightarrow> CoAPMsgSendInfo \<Rightarrow> CoAPMsgSendInfo" where
  "piggy_result m n = (if si_msg_id n = coap_msg_id m then n\<lparr>si_acked := True, si_node_state := COAP_NODE_STATE_INVALID\<rparr> else n)"

lemma piggy_context [simp]: "piggy_events c (m\<lparr>user_context := x\<rparr>) n = piggy_events c m n" "piggy_result (m\<lparr>user_context := x\<rparr>) n = piggy_result m n"
  by (auto simp: piggy_events_def piggy_result_def event_message_type_set_def split: option.splits coap_callback.splits)

lemma piggy_loop_exact:
  assumes "\<forall>n\<in>set ns. si_handler n \<noteq> Some Auth_Callback"
  shows "\<exists>x. coap_list_loop H PROCESS_PIGGY_CMD ns m s = Some ((map (piggy_result m) ns, m\<lparr>user_context := x\<rparr>),
    s\<lparr>cevents := cevents s @ concat (map (piggy_events (cc s) m) ns)\<rparr>)"
  using assms
proof (induction ns arbitrary: m s)
  case Nil
  then show ?case by (auto intro: exI [of _ "user_context m"])
next
  case (Cons n ns)
  have "\<exists>x. coap_proc_node H PROCESS_PIGGY_CMD m n s = Some ((Some (piggy_result m n), m\<lparr>user_context := x\<rparr>),
      s\<lparr>cevents := cevents s @ piggy_events (cc s) m n\<rparr>)"
  proof (cases "si_msg_id n = coap_msg_id m")
    case True
    then show ?thesis
      using Cons.prems
      by (cases "si_handler n")
         (auto simp: coap_proc_node_def coap_proc_piggy_def Let_def piggy_result_def piggy_events_def coap_call_handler_def coap_call_back_def
            event_message_type_set_def split: coap_callback.splits)
  next
    case False
    then have "coap_proc_node H PROCESS_PIGGY_CMD m n s = Some ((Some (piggy_result m n), m\<lparr>user_context := user_context m\<rparr>),
        s\<lparr>cevents := cevents s @ piggy_events (cc s) m n\<rparr>)"
      by (simp add: coap_proc_node_def coap_proc_piggy_def piggy_result_def piggy_events_def)
    then show ?thesis by blast
  qed
  then obtain x where x: "coap_proc_node H PROCESS_PIGGY_CMD m n s = Some ((Some (piggy_result m n), m\<lparr>user_context := x\<rparr>),
      s\<lparr>cevents := cevents s @ piggy_events (cc s) m n\<rparr>)" ..
  show ?case
    using Cons.IH [of "m\<lparr>user_context := x\<rparr>" "s\<lparr>cevents := cevents s @ piggy_events (cc s) m n\<rparr>"] Cons.prems x
    by auto
qed

section \<open>Authentication\<close>

lemma c_strncpy_length: "length (c_strncpy bs n) = n"
  by (simp add: c_strncpy_def)

lemma auth_callback_effect:
  assumes "coap_client_auth_callback H m x s = Some s'" "core_ok (cc s)"
  shows "core_ok (cc s') \<and> message_list (cc s') = message_list (cc s) \<and> max_retry_count (cc s') = max_retry_count (cc s)"
proof -
  have "core_ok (c\<lparr>auth_token_len := n, auth_token := Some (c_strncpy bs n), is_authed := 1\<rparr>)" if "core_ok c" for c :: CoAPClient and bs n
    using that by (simp add: core_ok_def c_strncpy_length)
  then show ?thesis
    using assms
    by (auto simp: coap_client_auth_callback_def set_authed_def Let_def elim!: bind_SomeE split: model_splits dest!: coap_malloc_env)
qed

text \<open>While the client is being authenticated its list holds at most the authentication request. Between receiving and the
  pass over the list it may be marked as answered.\<close>

definition auth_node :: "CoAPClient \<Rightarrow> CoAPMsgSendInfo \<Rightarrow> bool" where
  "auth_node c n \<longleftrightarrow> node_ok (max_retry_count c) n \<and> si_handler n = Some Auth_Callback"

definition auth_waiting :: "CoAPClient \<Rightarrow> CoAPMsgSendInfo \<Rightarrow> bool" where
  "auth_waiting c n \<longleftrightarrow> si_node_state n = COAP_NODE_STATE_NORMANL \<and> is_authed c = - 1"

definition auth_mid :: "CoAPClient \<Rightarrow> bool" where
  "auth_mid c \<longleftrightarrow> core_ok c \<and> (message_list c = [] \<or>
     (\<exists>n. message_list c = [n] \<and> auth_node c n \<and> (si_node_state n = COAP_NODE_STATE_INVALID \<or> auth_waiting c n)))"

definition auth_pending :: "CoAPClient \<Rightarrow> bool" where
  "auth_pending c \<longleftrightarrow> core_ok c \<and> (message_list c = [] \<or> (\<exists>n. message_list c = [n] \<and> auth_node c n \<and> auth_waiting c n))"

lemma proc_node_auth:
  assumes "coap_proc_node H cmd m n s = Some ((r, m'), s')" "core_ok (cc s)" "auth_node (cc s) n"
    "si_node_state n = COAP_NODE_STATE_INVALID \<or> auth_waiting (cc s) n"
  shows "core_ok (cc s') \<and> max_retry_count (cc s') = max_retry_count (cc s) \<and>
    (\<forall>n'. r = Some n' \<longrightarrow> auth_node (cc s') n' \<and> (si_node_state n' = COAP_NODE_STATE_INVALID \<and> cmd \<noteq> PROCESS_WAIT_CMD \<or> auth_waiting (cc s') n'))"
proof (cases cmd)
  case PROCESS_ACK_CMD
  then show ?thesis
    using assms
    by (auto simp: coap_proc_node_def coap_proc_ack_def auth_node_def auth_waiting_def node_ok_def split: if_splits prod.splits dest!: coap_env)
next
  case PROCESS_PIGGY_CMD
  then show ?thesis
    using assms
    by (auto simp: coap_proc_node_def coap_proc_piggy_def auth_node_def auth_waiting_def node_ok_def Let_def coap_call_handler_def
        elim!: bind_SomeE split: if_splits dest!: auth_callback_effect)
next
  case PROCESS_RESP_CMD
  then show ?thesis
    using assms
    by (auto simp: coap_proc_node_def coap_proc_resp_def auth_node_def auth_waiting_def node_ok_def Let_def coap_call_handler_def
        elim!: bind_SomeE split: if_splits dest!: auth_callback_effect)
next
  case PROCESS_WAIT_CMD
  then show ?thesis
    using assms
    by (auto simp: coap_proc_node_def coap_proc_wait_def coap_give_up_def auth_node_def auth_waiting_def node_ok_def Let_def coap_call_handler_def
        inc_retry elim!: bind_SomeE split: if_splits prod.splits dest!: auth_callback_effect coap_env)
qed

lemma list_proc_auth:
  assumes "grants H" "auth_mid (cc s)" "coap_message_list_proc H m cmd s = Some (rc, s')"
  shows "auth_mid (cc s') \<and> (cmd = PROCESS_WAIT_CMD \<longrightarrow> auth_pending (cc s'))"
proof (cases "message_list (cc s) = []")
  case True
  then show ?thesis using assms by (auto simp: coap_message_list_proc_def auth_mid_def auth_pending_def split: if_splits)
next
  case False
  then obtain n where n: "message_list (cc s) = [n]" "auth_node (cc s) n" "si_node_state n = COAP_NODE_STATE_INVALID \<or> auth_waiting (cc s) n"
    and core: "core_ok (cc s)"
    using assms(2) by (auto simp: auth_mid_def)
  obtain w where w: "coap_malloc H s = (True, s\<lparr>cenv := w\<rparr>)" using granted [OF assms(1)] by blast
  obtain r m' s1 where p: "coap_proc_node H cmd m n (s\<lparr>cenv := w\<rparr>) = Some ((r, m'), s1)"
    and s': "s' = cc_update (\<lambda>c. c\<lparr>message_list := case r of None \<Rightarrow> [] | Some n \<Rightarrow> [n]\<rparr>) s1"
    using assms(3) n(1) w core by (auto simp: coap_message_list_proc_def core_ok_made elim!: bind_SomeE split: option.splits)
  show ?thesis
    using proc_node_auth [OF p] core n s'
    by (cases r) (auto simp: auth_mid_def auth_pending_def auth_node_def auth_waiting_def)
qed


lemma auth_mid_buf:
  "auth_mid c \<Longrightarrow> length b = length (send_buf c) \<Longrightarrow> auth_mid (c\<lparr>send_buf := b\<rparr>)"
  "auth_pending c \<Longrightarrow> length b = length (recv_buf c) \<Longrightarrow> auth_pending (c\<lparr>recv_buf := b\<rparr>)"
  by (auto simp: auth_mid_def auth_pending_def core_ok_buf auth_node_def auth_waiting_def)

lemma auth_pending_mid: "auth_pending c \<Longrightarrow> auth_mid c"
  by (auto simp: auth_pending_def auth_mid_def)

lemma send_ack_effect:
  assumes "core_ok (cc s)" "coap_client_send_ack H i s = Some (rc, s')"
  shows "\<exists>b. cc s' = (cc s)\<lparr>send_buf := b\<rparr> \<and> length b = length (send_buf (cc s))"
proof -
  have b: "length (coap_bytes (ack_message i)) = 4" by (simp add: ack_message_bytes)
  then have "coap_client_send_ack H i s =
      (let ((ret, written_len), s) = coap_write H (coap_bytes (ack_message i)) 0 (sent_state (ack_message i) s) in Some (ret, s))"
    using send_ack_put [OF assms(1)] by simp
  moreover have "length (send_buf (cc s)) = COAP_SENDMSG_MAX_BUFLEN" using assms(1) by (simp add: core_ok_def)
  ultimately show ?thesis using assms(2) b by (auto simp: sent_state_def split: prod.splits dest!: coap_write_env)
qed

lemma message_handle_auth:
  assumes "grants H" "auth_mid (cc s)" "coap_message_handle H n s = Some s'"
  shows "auth_mid (cc s')"
proof -
  obtain rc m w where d: "deserialize_coap_message (hal_malloc H) zero_message (recv_buf (cc s)) n (cenv s) = Some ((rc, m), w)"
    using assms(3) by (auto simp: coap_message_handle_def elim!: bind_SomeE)
  have mid: "auth_mid (cc (s\<lparr>cenv := w\<rparr>))" using assms(2) by simp
  have resp: "auth_mid (cc s2)" if resp: "coap_resp_message_handle H m (s\<lparr>cenv := w\<rparr>) = Some (rc2, s2)" for rc2 s2
  proof -
    obtain rc1 s1 where s1: "(if coap_type m = COAP_MSG_CON then coap_client_send_ack H (coap_msg_id m) (s\<lparr>cenv := w\<rparr>) else Some (0, s\<lparr>cenv := w\<rparr>)) = Some (rc1, s1)"
      and l: "coap_message_list_proc H m PROCESS_RESP_CMD s1 = Some (rc2, s2)"
      using resp by (auto simp: coap_resp_message_handle_def elim!: bind_SomeE)
    have "auth_mid (cc s1)"
      using s1 mid send_ack_effect [of "s\<lparr>cenv := w\<rparr>" H "coap_msg_id m" rc1 s1]
      by (auto simp: auth_mid_buf auth_mid_def [of "cc s"] split: if_splits)
    then show ?thesis using list_proc_auth [OF assms(1) _ l] by blast
  qed
  show ?thesis
    using assms(3) d mid resp list_proc_auth [OF assms(1) mid]
    by (auto simp: coap_message_handle_def Let_def elim!: bind_SomeE split: if_splits)
qed

lemma yield_auth:
  assumes "grants H" "auth_pending (cc s)" "IOT_COAP_Yield H t s = Some (rc, s')"
  shows "auth_pending (cc s')"
proof -
  obtain rc1 bs w where r: "net_read H (recv_buf_size (cc s)) t (cenv s) = ((rc1, bs), w)" by (metis surj_pair)
  obtain b where b: "wr_bytes (recv_buf (cc s)) 0 bs = Some b"
    using assms(3) r by (auto simp: IOT_COAP_Yield_def coap_message_cycle_def coap_message_recv_def elim!: bind_SomeE)
  let ?s = "cc_update (\<lambda>c. c\<lparr>recv_buf := b\<rparr>) (s\<lparr>cenv := w\<rparr>)"
  have pend: "auth_pending (cc ?s)" using assms(2) wr_bytes_length [OF b] by (simp add: auth_mid_buf)
  have recv: "coap_message_recv H t s = (if rc1 = QCLOUD_RET_SUCCESS
      then do { s \<leftarrow> coap_message_handle H (length bs mod 65536) ?s; Some (rc1, s) } else Some (rc1, ?s))"
    using r b by (simp add: coap_message_recv_def)
  show ?thesis
  proof (cases "rc1 = QCLOUD_RET_SUCCESS \<or> rc1 = QCLOUD_ERR_SSL_READ_TIMEOUT")
    case True
    obtain s1 where s1: "coap_message_recv H t s = Some (rc1, s1)" "coap_message_list_proc H DEFAULT_COAP_MESSAGE PROCESS_WAIT_CMD s1 = Some (rc, s')"
      using assms(3) recv True by (auto simp: IOT_COAP_Yield_def coap_message_cycle_def elim!: bind_SomeE split: if_splits)
    have "auth_mid (cc s1)"
      using s1(1) recv message_handle_auth [OF assms(1) auth_pending_mid [OF pend]] auth_pending_mid [OF pend]
      by (cases "rc1 = QCLOUD_RET_SUCCESS") (auto elim!: bind_SomeE)
    then show ?thesis using list_proc_auth [OF assms(1) _ s1(2)] by blast
  next
    case False
    then show ?thesis using assms(3) recv pend by (auto simp: IOT_COAP_Yield_def coap_message_cycle_def)
  qed
qed

lemma auth_wait_pending:
  "auth_wait H s = Some s' \<Longrightarrow> grants H \<Longrightarrow> auth_pending (cc s) \<Longrightarrow> auth_pending (cc s') \<and> is_authed (cc s') \<noteq> - 1"
proof (induction rule: auth_wait.raw_induct [rotated 1, consumes 1, case_names step])
  case (step loop H s s')
  show ?case
  proof (cases "is_authed (cc s) = - 1")
    case True
    then obtain rc s1 where "IOT_COAP_Yield H 200 s = Some (rc, s1)" "loop H s1 = Some s'"
      using step(2) by (auto elim!: bind_SomeE)
    then show ?thesis using step(1,3,4) yield_auth by blast
  qed (use step in auto)
qed

lemma coap_init_effect:
  assumes "grants H" "qcloud_iot_coap_init H p s = (QCLOUD_RET_SUCCESS, s')"
  shows "core_ok (cc s') \<and> message_list (cc s') = [] \<and> is_authed (cc s') = - 1"
proof -
  obtain di where di: "iot_device_info_set (cip_product_id p) (cip_device_name p) = Inr di"
    using assms(2) by (auto simp: qcloud_iot_coap_init_def iot_device_info_set_def Let_def split: if_splits)
  obtain i w where i: "coap_random_start_packet_id H (s\<lparr>cc := zero_coap_client\<rparr>) = (i, s\<lparr>cc := zero_coap_client, cenv := w\<rparr>)"
    using coap_seed_env [of H "s\<lparr>cc := zero_coap_client\<rparr>"]
    by (auto simp: coap_random_start_packet_id_def coap_rand_def split_beta Let_def)
  show ?thesis
    using assms(2) di i
    by (auto simp: qcloud_iot_coap_init_def Let_def granted_eq [OF assms(1)] core_ok_def zero_coap_client_def not_less split: if_splits)
qed

lemma conn_id_env: "coap_conn_id_loop H n s = (cs, s') \<Longrightarrow> cc s' = cc s \<and> length cs = n"
proof (induction n arbitrary: s cs)
  case (Suc n)
  then show ?case by (fastforce simp: coap_conn_id_char_def Let_def split: prod.splits dest!: coap_rand_env Suc.IH)
qed simp

lemma next_conn_id_effect: "\<exists>cs. cc (get_coap_next_conn_id H s) = (cc s)\<lparr>cc_conn_id := cs\<rparr> \<and> length cs = 5"
proof -
  obtain w where "coap_seed H s = s\<lparr>cenv := w\<rparr>" using coap_seed_env [of H s] by blast
  moreover obtain cs s1 where "coap_conn_id_loop H 5 (s\<lparr>cenv := w\<rparr>) = (cs, s1)" by fastforce
  ultimately show ?thesis using conn_id_env [of H 5 "s\<lparr>cenv := w\<rparr>" cs s1] by (auto simp: get_coap_next_conn_id_def)
qed

definition auth_path :: "CoAPClient \<Rightarrow> byte list" where
  "auth_path c = di_product_id (cc_device_info c) @ [47] @ di_device_name (cc_device_info c) @ [47] @ COAP_AUTH_URI"

definition auth_message :: "CoAPClient \<Rightarrow> nat \<Rightarrow> byte list \<Rightarrow> CoAPMessage" where
  "auth_message c self load = (request_message c)\<lparr>
     op_list := [\<lparr>option_num = 11, option_val = auth_path c\<rparr>, \<lparr>option_num = 62, option_val = cstr ''0''\<rparr>],
     coap_handler := Some Auth_Callback, user_context := self, pay_load := Some load, pay_load_len := 16\<rparr>"

lemma auth_exact:
  assumes "grants H"
  shows "\<exists>cs load s4. coap_client_auth H self junk s = coap_message_send H (auth_message (cc s) self load) s4 \<and> length load = 16 \<and>
    cc s4 = (cc (bumped s))\<lparr>cc_conn_id := cs\<rparr>"
proof -
  let ?m = "request_message (cc s)" and ?o1 = "\<lparr>option_num = 11, option_val = auth_path (cc s)\<rparr>"
    and ?o2 = "\<lparr>option_num = 62, option_val = cstr ''0''\<rparr>"
  have ops: "op_list ?m = []" by (simp add: request_message_def DEFAULT_COAP_MESSAGE_def)
  obtain w1 where w1: "coap_malloc H (bumped s) = (True, (bumped s)\<lparr>cenv := w1\<rparr>)" using granted [OF assms] by blast
  obtain w2 where w2: "option_added H COAP_MSG_URI_PATH (auth_path (cc s)) ?m ((bumped s)\<lparr>cenv := w1\<rparr>) = (?m\<lparr>op_list := [?o1]\<rparr>, (bumped s)\<lparr>cenv := w2\<rparr>)"
    using option_added_exact [OF assms, of COAP_MSG_URI_PATH "auth_path (cc s)" ?m "(bumped s)\<lparr>cenv := w1\<rparr>"] ops by (auto simp: option_inserted_def)
  obtain w3 where w3: "option_added H COAP_MSG_NEED_RESP (cstr ''0'') (?m\<lparr>op_list := [?o1]\<rparr>) ((bumped s)\<lparr>cenv := w2\<rparr>) =
      (?m\<lparr>op_list := [?o1, ?o2]\<rparr>, (bumped s)\<lparr>cenv := w3\<rparr>)"
    using option_added_exact [OF assms, of COAP_MSG_NEED_RESP "cstr ''0''" "?m\<lparr>op_list := [?o1]\<rparr>" "(bumped s)\<lparr>cenv := w2\<rparr>"]
    by (auto simp: option_inserted_def)
  define s4 where "s4 = get_coap_next_conn_id H ((bumped s)\<lparr>cenv := w3\<rparr>)"
  obtain cs where cs: "cc s4 = (cc (bumped s))\<lparr>cc_conn_id := cs\<rparr>" "length cs = 5"
    using next_conn_id_effect [of H "(bumped s)\<lparr>cenv := w3\<rparr>"] by (auto simp: s4_def)
  obtain w5 where w5: "coap_malloc H s4 = (True, s4\<lparr>cenv := w5\<rparr>)" using granted [OF assms] by blast
  obtain w6 where w6: "coap_malloc H (s4\<lparr>cenv := w5\<rparr>) = (True, s4\<lparr>cenv := w6\<rparr>)"
    using granted [OF assms, of "s4\<lparr>cenv := w5\<rparr>"] by auto
  define load where "load = QCLOUD_IOT_DEVICE_SDK_APPID @ 59 # cs @ [0, junk]"
  have load: "length load = 16" using cs(2) by (simp add: load_def cstr_def)
  have app: "length QCLOUD_IOT_DEVICE_SDK_APPID = 8" by (simp add: cstr_def)
  have path: "di_product_id (cc_device_info (cc (bumped s))) @ 47 # di_device_name (cc_device_info (cc (bumped s))) @ 47 # COAP_AUTH_URI = auth_path (cc s)"
    by (simp add: auth_path_def bumped_def)
  have pl: "coap_message_payload_set (QCLOUD_IOT_DEVICE_SDK_APPID @ 59 # cc_conn_id (cc s4) @ [0, junk])
      (?m\<lparr>op_list := [?o1, ?o2], coap_handler := Some Auth_Callback, user_context := self, pay_load_len := 16, pay_load := Some (replicate 16 0)\<rparr>) =
      Some (QCLOUD_RET_SUCCESS, auth_message (cc s) self load)"
    using load cs by (simp add: coap_message_payload_set_def Let_def wr_bytes_def auth_message_def load_def)
  have "coap_client_auth H self junk s = coap_message_send H (auth_message (cc s) self load) (s4\<lparr>cenv := w6\<rparr>)"
    using w1 w2 w3 w5 w6 pl
    by (simp add: coap_client_auth_def new_request_exact coap_message_context_set_def coap_message_callback_set_def s4_def [symmetric]
        path app)
  then show ?thesis using load cs(1) by (intro exI [of _ cs] exI [of _ load] exI [of _ "s4\<lparr>cenv := w6\<rparr>"]) simp
qed

lemma auth_message_fits: "length load = 16 \<Longrightarrow> message_fits (auth_message c self load)"
  by (simp add: message_fits_def auth_message_def request_message_def token_bytes_def)

lemma auth_effect:
  assumes "grants H" "core_ok (cc s)" "message_list (cc s) = []" "is_authed (cc s) = - 1" "coap_client_auth H self junk s = Some (rc, s')"
  shows "auth_pending (cc s')"
proof -
  obtain cs load s4 where send: "coap_message_send H (auth_message (cc s) self load) s4 = Some (rc, s')" and load: "length load = 16"
    and cc4: "cc s4 = (cc (bumped s))\<lparr>cc_conn_id := cs\<rparr>"
    using auth_exact [OF assms(1), of self junk s] assms(5) by auto
  note fits = auth_message_fits [OF load, of "cc s" self]
  have core4: "core_ok (cc s4)" using assms(2) by (simp add: cc4 bumped_def)
  obtain b ns where e: "cc s' = (cc s4)\<lparr>send_buf := b, message_list := message_list (cc s4) @ ns\<rparr>" "length b = length (send_buf (cc s4))"
      "ns = [] \<or> (\<exists>t bs. ns = [request_node (auth_message (cc s) self load) t bs])"
    using message_send_effect [OF assms(1) core4 fits send] by auto
  have "core_ok (cc s')" "message_list (cc s') = ns" "is_authed (cc s') = - 1" "coap_handler (auth_message (cc s) self load) = Some Auth_Callback"
    using e(1,2) core4 assms(3,4) by (simp_all add: core_ok_buf cc4 bumped_def auth_message_def)
  then show ?thesis
    using e(3) request_node_ok [OF fits] by (auto simp: auth_pending_def auth_node_def auth_waiting_def) (simp_all add: request_node_def)
qed

text \<open>A client that was made.\<close>

lemma coap_construct_ok:
  assumes "grants H" "IOT_COAP_Construct H self junk p s = Some (True, s')"
  shows "coap_ok (cc s') \<and> message_list (cc s') = [] \<and> is_authed (cc s') = 1"
proof -
  obtain w where w: "coap_malloc H s = (True, s\<lparr>cenv := w\<rparr>)" using granted [OF assms(1)] by blast
  obtain rc s1 where s1: "qcloud_iot_coap_init H p (s\<lparr>cenv := w\<rparr>) = (rc, s1)" by fastforce
  obtain rc2 w2 where w2: "net_connect H (cenv s1) = (rc2, w2)" by fastforce
  have rc: "rc = QCLOUD_RET_SUCCESS" and r: "do {
       (rc, s2) \<leftarrow> coap_client_auth H self junk (s1\<lparr>cenv := w2\<rparr>);
       s3 \<leftarrow> auth_wait H s2;
       if is_authed (cc s3) = 1 then Some (True, s3) else do { s4 \<leftarrow> IOT_COAP_Destroy H s3; Some (False, s4) } } = Some (True, s')"
    using assms(2) w s1 w2 by (auto simp: IOT_COAP_Construct_def Let_def split: if_splits)
  then obtain rc3 s2 where s2: "coap_client_auth H self junk (s1\<lparr>cenv := w2\<rparr>) = Some (rc3, s2)" "auth_wait H s2 = Some s'" "is_authed (cc s') = 1"
    by (auto elim!: bind_SomeE split: if_splits)
  have init: "core_ok (cc (s1\<lparr>cenv := w2\<rparr>))" "message_list (cc (s1\<lparr>cenv := w2\<rparr>)) = []" "is_authed (cc (s1\<lparr>cenv := w2\<rparr>)) = - 1"
    using coap_init_effect [OF assms(1)] s1 rc by auto
  have "auth_pending (cc s')" using auth_wait_pending [OF s2(2) assms(1) auth_effect [OF assms(1) init s2(1)]] by blast
  then show ?thesis using s2(3) by (auto simp: auth_pending_def auth_waiting_def coap_ok_def)
qed

section \<open>The client as a state machine\<close>

inductive coap_step :: "'w hal \<Rightarrow> 'w coap \<Rightarrow> 'w coap \<Rightarrow> bool" for H where
  Send: "IOT_COAP_SendMessage H topicName p s = Some (rc, s') \<Longrightarrow> resp_callback p \<noteq> Some Auth_Callback \<Longrightarrow>
    length (sp_pay_load p) < 2 ^ 64 \<Longrightarrow> coap_step H s s'"
| Yield: "IOT_COAP_Yield H timeout_ms s = Some (rc, s') \<Longrightarrow> coap_step H s s'"

definition coap_constructed :: "'w hal \<Rightarrow> 'w coap \<Rightarrow> bool" where
  "coap_constructed H s \<longleftrightarrow> (\<exists>self junk p s0. IOT_COAP_Construct H self junk p s0 = Some (True, s))"

interpretation coap_client: component "coap_constructed H" "coap_step H" "\<lambda>s. grants H \<longrightarrow> coap_ok (cc s)" for H :: "'w hal"
proof
  fix s :: "'w coap"
  assume "coap_constructed H s"
  then show "grants H \<longrightarrow> coap_ok (cc s)" by (auto simp: coap_constructed_def dest: coap_construct_ok)
next
  fix s s' :: "'w coap"
  assume "coap_step H s s'" "grants H \<longrightarrow> coap_ok (cc s)"
  then show "grants H \<longrightarrow> coap_ok (cc s')"
    by cases (use send_message_ok coap_yield_ok in blast)+
qed

text \<open>C4. Whatever an application calls in whatever order on a client that was constructed, on a platform whose allocations succeed and
  whose reads store at most as many bytes as they were asked for, and whatever datagrams arrive: as long as the calls return, buffers,
  authentication token and the copies of the requests keep the sizes the client says they have, no request is retransmitted more
  often than configured, and the authentication callback is never called again. And \<^verbatim>\<open>IOT_COAP_Yield\<close> returns, without an access outside
  an object, in every case but one: a datagram that fills the 512 bytes of the receive buffer and on which the parser reads behind its end.\<close>

theorem coap_client_invariant:
  assumes "grants H" "bounded_reads H" "coap_constructed H s" "(coap_step H)\<^sup>*\<^sup>* s s'"
  shows "coap_ok (cc s') \<and> (\<forall>t. IOT_COAP_Yield H t s' = None \<longleftrightarrow> parser_overruns H t s')"
proof -
  have "coap_ok (cc s')" using coap_client.reachable_inv [OF assms(3,4)] assms(1) by blast
  then have "IOT_COAP_Yield H t s' = None \<longleftrightarrow> parser_overruns H t s'" for t
    using yield_cases [of s' H t] assms(2) by (cases "parser_overruns H t s'") (auto simp: bounded_reads_def)
  with \<open>coap_ok (cc s')\<close> show ?thesis by blast
qed


text \<open>A reply that is carried by an acknowledgement marks exactly the requests with its message id as acknowledged and answered,
  and calls back once for each of them: the callback of the request with the message and its own user context, else the event
  handler with the event for the response code.\<close>

theorem coap_reply_exact:
  assumes "grants H" "coap_ok (cc s)" "message_list (cc s) \<noteq> []"
  shows "\<exists>s'. coap_message_list_proc H m PROCESS_PIGGY_CMD s = Some (QCLOUD_RET_SUCCESS, s') \<and>
    message_list (cc s') = map (piggy_result m) (message_list (cc s)) \<and>
    cevents s' = cevents s @ concat (map (piggy_events (cc s) m) (rev (message_list (cc s))))"
proof -
  obtain w where w: "coap_malloc H s = (True, s\<lparr>cenv := w\<rparr>)" using granted [OF assms(1)] by blast
  obtain x where "coap_list_loop H PROCESS_PIGGY_CMD (rev (message_list (cc s))) m (s\<lparr>cenv := w\<rparr>) =
      Some ((map (piggy_result m) (rev (message_list (cc s))), m\<lparr>user_context := x\<rparr>),
        s\<lparr>cenv := w, cevents := cevents s @ concat (map (piggy_events (cc s) m) (rev (message_list (cc s))))\<rparr>)"
    using piggy_loop_exact [of "rev (message_list (cc s))" H m "s\<lparr>cenv := w\<rparr>"] assms(2) by (auto simp: coap_ok_def)
  then show ?thesis
    using w assms(2,3) by (simp add: coap_message_list_proc_def coap_ok_def core_ok_made rev_map)
qed

section \<open>A construction that never ends\<close>

definition silent :: "'w hal \<Rightarrow> bool" where
  "silent H \<longleftrightarrow> (\<forall>n t w. fst (net_read H n t w) = (QCLOUD_ERR_SSL_READ_TIMEOUT, []))"

definition unauthed :: "CoAPClient \<Rightarrow> bool" where
  "unauthed c \<longleftrightarrow> core_ok c \<and> message_list c = [] \<and> is_authed c = - 1"

lemma silent_yield:
  assumes "silent H" "unauthed (cc s)"
  shows "\<exists>s'. IOT_COAP_Yield H t s = Some (QCLOUD_ERR_FAILURE, s') \<and> unauthed (cc s')"
proof -
  obtain w where "net_read H (recv_buf_size (cc s)) t (cenv s) = ((QCLOUD_ERR_SSL_READ_TIMEOUT, []), w)"
    using assms(1) by (metis silent_def surjective_pairing)
  moreover have "wr_bytes (recv_buf (cc s)) 0 [] = Some (recv_buf (cc s))" by (simp add: wr_bytes_def)
  ultimately show ?thesis
    using assms(2)
    by (simp add: IOT_COAP_Yield_def coap_message_cycle_def coap_message_recv_def coap_message_list_proc_def unauthed_def core_ok_made)
qed

lemma silent_auth_wait: "auth_wait H s = Some s' \<Longrightarrow> silent H \<Longrightarrow> unauthed (cc s) \<Longrightarrow> False"
proof (induction rule: auth_wait.raw_induct [rotated 1, consumes 1, case_names step])
  case (step loop H s s')
  obtain s1 where "IOT_COAP_Yield H 200 s = Some (QCLOUD_ERR_FAILURE, s1)" "unauthed (cc s1)"
    using silent_yield [OF step(3,4)] by blast
  then show ?case using step by (auto simp: unauthed_def [of "cc s"])
qed

lemma auth_message_size: "length load = 16 \<Longrightarrow> length (auth_path c) \<le> 400 \<Longrightarrow>
    length (coap_bytes (auth_message c self load)) + length (op_list (auth_message c self load)) \<le> COAP_SENDMSG_MAX_BUFLEN"
  using extension_le [of "length (auth_path c)"]
  by (simp add: coap_bytes_def coap_header_bytes_def option_bytes_def auth_message_def request_message_def token_bytes_def cstr_def
      coap_payload_bytes_def option_extension_def)

text \<open>C40. When the authentication request cannot be written and nothing arrives, \<^verbatim>\<open>coap_client_auth\<close> reports the error, which
  \<^verbatim>\<open>IOT_COAP_Construct\<close> drops: every pass of its loop returns and leaves the client as it is, and the loop never ends.\<close>

theorem coap_construct_hangs:
  assumes "grants H" "silent H" "\<forall>d t w. fst (fst (net_write H d t w)) \<noteq> QCLOUD_RET_SUCCESS" "unauthed (cc s)" "length (auth_path (cc s)) \<le> 400"
  shows "\<exists>rc s'. coap_client_auth H self junk s = Some (rc, s') \<and> rc \<noteq> QCLOUD_RET_SUCCESS \<and>
    (\<exists>s''. IOT_COAP_Yield H 200 s' = Some (QCLOUD_ERR_FAILURE, s'') \<and> unauthed (cc s'')) \<and> auth_wait H s' = None"
proof -
  obtain cs load s4 where send: "coap_client_auth H self junk s = coap_message_send H (auth_message (cc s) self load) s4"
    and load: "length load = 16" and cc4: "cc s4 = (cc (bumped s))\<lparr>cc_conn_id := cs\<rparr>"
    using auth_exact [OF assms(1), of self junk s] by auto
  let ?m = "auth_message (cc s) self load"
  have un4: "unauthed (cc s4)" using assms(4) by (simp add: unauthed_def cc4 bumped_def)
  then have core4: "core_ok (cc s4)" "length (send_buf (cc s4)) = COAP_SENDMSG_MAX_BUFLEN" by (simp_all add: unauthed_def core_ok_def)
  obtain ret k w where w: "coap_write H (coap_bytes ?m) 0 (sent_state ?m s4) = ((ret, k), (sent_state ?m s4)\<lparr>cenv := w\<rparr>)"
    by (metis coap_write_env surj_pair)
  have ret: "ret \<noteq> QCLOUD_RET_SUCCESS"
    using w assms(3) [rule_format, of "coap_bytes ?m" 0 "cenv (sent_state ?m s4)"] by (auto simp: coap_write_def split: prod.splits)
  note size = auth_message_size [OF load assms(5), of self]
  have s': "coap_client_auth H self junk s = Some (ret, (sent_state ?m s4)\<lparr>cenv := w\<rparr>)"
    using message_send_put [OF core4(1) auth_message_fits [OF load] size] w ret send by simp
  have un: "unauthed (cc ((sent_state ?m s4)\<lparr>cenv := w\<rparr>))"
    using un4 size core4 by (simp add: unauthed_def sent_state_def core_ok_buf)
  show ?thesis
    using s' ret silent_yield [OF assms(2) un] silent_auth_wait [OF _ assms(2) un] by (cases "auth_wait H ((sent_state ?m s4)\<lparr>cenv := w\<rparr>)") auto
qed


section \<open>Concrete runs\<close>

text \<open>A network that answers every read with the positive reply to message 2, with the token "T".\<close>

definition reply_hal :: "unit hal" where
  "reply_hal = \<lparr>gettimeofday = (\<lambda>w. (0, w)),
     net_read = (\<lambda>n t w. (if n \<le> 7 then (QCLOUD_ERR_SSL_READ_TIMEOUT, []) else (QCLOUD_RET_SUCCESS, [0x60, 0x45, 0, 2, 0xFF, 84, 0]), w)),
     net_write = (\<lambda>d t w. ((QCLOUD_RET_SUCCESS, length d), w)), net_connect = (\<lambda>w. (QCLOUD_RET_SUCCESS, w)), net_disconnect = (\<lambda>w. w),
     hal_malloc = (\<lambda>w. (True, w)), c_srand = (\<lambda>n w. w), c_rand = (\<lambda>w. (0, w)), hal_sleep = (\<lambda>n w. w)\<rparr>"

definition demo_coap_params :: CoAPInitParams where
  "demo_coap_params = \<lparr>cip_region = Some (cstr ''china''), cip_product_id = cstr ''P'', cip_device_name = cstr ''d'',
     cip_command_timeout = 2000, cip_max_retry_count = 5, cip_event_handle = True\<rparr>"

definition demo_coap_state :: "unit coap" where
  "demo_coap_state = \<lparr>cc = zero_coap_client, cenv = (), cevents = []\<rparr>"

lemma reply_hal_simps [simp]:
  "gettimeofday reply_hal w = (0, w)" "hal_malloc reply_hal w = (True, w)" "c_srand reply_hal n w = w" "c_rand reply_hal w = (0, w)"
  "net_connect reply_hal w = (QCLOUD_RET_SUCCESS, w)" "net_write reply_hal d t w = ((QCLOUD_RET_SUCCESS, length d), w)"
  "net_read reply_hal n t w = (if n \<le> 7 then (QCLOUD_ERR_SSL_READ_TIMEOUT, []) else (QCLOUD_RET_SUCCESS, [0x60, 0x45, 0, 2, 0xFF, 84, 0]), w)"
  by (simp_all add: reply_hal_def)

lemma unit_world [simp]: "(s :: unit coap)\<lparr>cenv := ()\<rparr> = s"
  by simp

lemma reply_hal_ok: "grants reply_hal" "bounded_reads reply_hal" "net_write_full reply_hal"
  by (simp_all add: grants_def bounded_reads_def net_write_full_def)

definition reply_message :: CoAPMessage where
  "reply_message = zero_message\<lparr>coap_version := 1, coap_type := COAP_MSG_ACK, code_class := 2, code_detail := 5, coap_msg_id := 2,
     pay_load := Some [84, 0], pay_load_len := 2\<rparr>"

lemma reply_read: "deserialize_coap_message (hal_malloc reply_hal) zero_message (0x60 # 0x45 # 0 # 2 # 0xFF # 84 # 0 # rest) 7 w =
    Some ((QCLOUD_RET_SUCCESS, reply_message), w)"
  by (simp add: deserialize_coap_message_def coap_message_deserialize_header_def coap_message_deserialize_token_def
      coap_message_deserialize_options.simps coap_message_deserialize_payload_def rd_def rd_bytes_def wr_bytes_def be16_def Let_def
      zero_message_def DEFAULT_COAP_MESSAGE_def coap_msg_check_def reply_message_def)

lemma reply_yield:
  assumes "core_ok (cc s)" "message_list (cc s) = [n]" "si_msg_id n = 2" "si_handler n = Some Auth_Callback" "si_user_context n \<noteq> 0"
  shows "\<exists>s'. IOT_COAP_Yield reply_hal 200 s = Some (QCLOUD_RET_SUCCESS, s') \<and> is_authed (cc s') = 1"
proof -
  have l: "recv_buf_size (cc s) = 512" "length (recv_buf (cc s)) = 512" "list_made (cc s)" using assms(1) by (simp_all add: core_ok_def)
  let ?s = "cc_update (\<lambda>c. c\<lparr>recv_buf := [0x60, 0x45, 0, 2, 0xFF, 84, 0] @ drop 7 (recv_buf (cc s))\<rparr>) s"
  have strlen: "c_strlen [84, 0] = Some 1" by (simp add: c_strlen_def)
  have "\<exists>s1. coap_message_handle reply_hal 7 ?s = Some s1 \<and> is_authed (cc s1) = 1 \<and> list_made (cc s1) \<and>
      (\<exists>n. message_list (cc s1) = [n] \<and> si_node_state n = COAP_NODE_STATE_INVALID)"
    using assms(2-5) l
    by (simp add: coap_message_handle_def reply_read Let_def coap_message_list_proc_def coap_malloc_def coap_proc_node_def
        coap_proc_piggy_def coap_call_handler_def coap_client_auth_callback_def strlen reply_message_def)
  then obtain s1 n1 where s1: "coap_message_handle reply_hal 7 ?s = Some s1" "is_authed (cc s1) = 1" "list_made (cc s1)"
      "message_list (cc s1) = [n1]" "si_node_state n1 = COAP_NODE_STATE_INVALID" by blast
  have "wr_bytes (recv_buf (cc s)) 0 [0x60, 0x45, 0, 2, 0xFF, 84, 0] = Some ([0x60, 0x45, 0, 2, 0xFF, 84, 0] @ drop 7 (recv_buf (cc s)))"
    using l by (simp add: wr_bytes_def eval_nat_numeral)
  then have "coap_message_recv reply_hal 200 s = Some (QCLOUD_RET_SUCCESS, s1)"
    using l s1(1) by (simp add: coap_message_recv_def)
  then show ?thesis
    using s1(2-5)
    by (simp add: IOT_COAP_Yield_def coap_message_cycle_def coap_message_list_proc_def coap_malloc_def coap_proc_node_def coap_proc_wait_def)
qed


text \<open>The client this network makes.\<close>

lemma reply_auth:
  assumes "core_ok (cc s)" "message_list (cc s) = []" "next_msg_id (cc s) = 1" "length (auth_path (cc s)) \<le> 400"
  shows "\<exists>s' n. coap_client_auth reply_hal 1 0 s = Some (QCLOUD_RET_SUCCESS, s') \<and> core_ok (cc s') \<and> message_list (cc s') = [n] \<and>
    si_msg_id n = 2 \<and> si_handler n = Some Auth_Callback \<and> si_user_context n = 1 \<and> is_authed (cc s') = is_authed (cc s)"
proof -
  obtain cs load s4 where send: "coap_client_auth reply_hal 1 0 s = coap_message_send reply_hal (auth_message (cc s) 1 load) s4"
    and load: "length load = 16" and cc4: "cc s4 = (cc (bumped s))\<lparr>cc_conn_id := cs\<rparr>"
    using auth_exact [OF reply_hal_ok(1), of 1 0 s] by auto
  let ?m = "auth_message (cc s) 1 load" and ?s = "sent_state (auth_message (cc s) 1 load) s4"
  note fits = auth_message_fits [OF load, of "cc s" 1] and size = auth_message_size [OF load assms(4), of 1]
  have core4: "core_ok (cc s4)" using assms(1) by (simp add: cc4 bumped_def)
  have core: "core_ok (cc ?s)" "length (coap_bytes ?m) \<le> length (send_buf (cc ?s))" "message_list (cc ?s) = []" "is_authed (cc ?s) = is_authed (cc s)"
    using core4 size assms(2) by (simp_all add: sent_state_def core_ok_def cc4 bumped_def)
  obtain t w where l: "coap_message_list_add reply_hal ?m (length (coap_bytes ?m)) ?s = Some (QCLOUD_RET_SUCCESS,
      cc_update (\<lambda>c. c\<lparr>message_list := message_list c @ [request_node ?m t (take (length (coap_bytes ?m)) (send_buf (cc ?s)))]\<rparr>) (?s\<lparr>cenv := w\<rparr>))"
    using list_add_exact [OF reply_hal_ok(1) core_ok_made [OF core(1)] fits core(2)] by blast
  have m: "coap_type ?m = COAP_MSG_CON" "code_class ?m = COAP_MSG_REQ" "coap_msg_id ?m = 2" "user_context ?m = 1" "coap_handler ?m = Some Auth_Callback"
    using assms(3) by (simp_all add: auth_message_def request_message_def DEFAULT_COAP_MESSAGE_def coap_next_id_def)
  have "coap_client_auth reply_hal 1 0 s = coap_message_list_add reply_hal ?m (length (coap_bytes ?m)) ?s"
    using send message_send_put [OF core4 fits size, of reply_hal] m by (simp add: coap_write_def)
  then show ?thesis using l core m by (simp add: request_node_def)
qed

lemma reply_construct: "\<exists>s. IOT_COAP_Construct reply_hal 1 0 demo_coap_params demo_coap_state = Some (True, s)"
proof -
  obtain s1 where s1: "qcloud_iot_coap_init reply_hal demo_coap_params demo_coap_state = (QCLOUD_RET_SUCCESS, s1)"
    "next_msg_id (cc s1) = 1" "cc_device_info (cc s1) = \<lparr>di_product_id = cstr ''P'', di_device_name = cstr ''d'', di_client_id = cstr ''Pd''\<rparr>"
    by (simp add: qcloud_iot_coap_init_def demo_coap_params_def iot_device_info_set_def iot_get_mqtt_domain_def sg_iot_mqtt_coap_domain_def
        cstr_def coap_random_start_packet_id_def coap_seed_def coap_now_def coap_rand_def coap_malloc_def demo_coap_state_def)
  have init: "core_ok (cc s1)" "message_list (cc s1) = []" "is_authed (cc s1) = - 1"
    using coap_init_effect [OF reply_hal_ok(1) s1(1)] by simp_all
  have path: "length (auth_path (cc s1)) \<le> 400" using s1(3) by (simp add: auth_path_def COAP_AUTH_URI_def cstr_def)
  obtain s2 n where s2: "coap_client_auth reply_hal 1 0 s1 = Some (QCLOUD_RET_SUCCESS, s2)" "core_ok (cc s2)" "message_list (cc s2) = [n]"
      "si_msg_id n = 2" "si_handler n = Some Auth_Callback" "si_user_context n = 1" "is_authed (cc s2) = - 1"
    using reply_auth [OF init(1,2) s1(2) path] init(3) by auto
  then obtain s3 where s3: "IOT_COAP_Yield reply_hal 200 s2 = Some (QCLOUD_RET_SUCCESS, s3)" "is_authed (cc s3) = 1"
    using reply_yield [OF s2(2,3,4,5)] by auto
  have "auth_wait reply_hal s2 = Some s3"
    using s2(7) s3 by (subst auth_wait.simps) (simp, subst auth_wait.simps, simp)
  then show ?thesis
    using s1(1) s2(1) s3(2) by (simp add: IOT_COAP_Construct_def demo_coap_params_def coap_malloc_def cstr_def demo_coap_state_def)
qed

theorem coap_client_invariant_witness:
  "\<exists>s :: unit coap. coap_constructed reply_hal s \<and> coap_ok (cc s) \<and> (\<exists>rc s'. IOT_COAP_Yield reply_hal 0 s = Some (rc, s'))"
proof -
  obtain s where s: "coap_constructed reply_hal s" using reply_construct unfolding coap_constructed_def by blast
  moreover have "\<not> parser_overruns reply_hal 0 s" by (simp add: parser_overruns_def)
  ultimately show ?thesis
    using coap_client_invariant [OF reply_hal_ok(1,2) s rtranclp.rtrancl_refl] by (cases "IOT_COAP_Yield reply_hal 0 s") auto
qed

definition demo_coap_client :: CoAPClient where
  "demo_coap_client = zero_coap_client\<lparr>is_authed := 1, auth_token := Some [84, 0], auth_token_len := 2, next_msg_id := 65535,
     send_buf_size := 512, recv_buf_size := 512, cc_timeout_ms := 2000, list_made := True, max_retry_count := 5, cc_event_handle := True\<rparr>"


lemma demo_coap_client_ok: "core_ok demo_coap_client"
  by (simp add: core_ok_def demo_coap_client_def zero_coap_client_def)


text \<open>A request of message 7 with a callback of the user.\<close>

definition demo_request :: CoAPMsgSendInfo where
  "demo_request = \<lparr>si_node_state = COAP_NODE_STATE_NORMANL, si_user_context = 9, si_msg_id = 7, si_acked = False, si_token_len = 1,
     si_token = [5], si_retrans_count = 4, si_start_time = 0, si_message = Some [64, 2, 0, 7], si_msglen = 4, si_handler = Some (User_Callback 3)\<rparr>"

lemma demo_waiting_ok: "coap_ok (demo_coap_client\<lparr>message_list := [demo_request, demo_request\<lparr>si_retrans_count := 5\<rparr>]\<rparr>)"
proof -
  have "max_retry_count demo_coap_client = 5" by (simp add: demo_coap_client_def)
  then show ?thesis using demo_coap_client_ok by (simp add: coap_ok_def node_ok_def demo_request_def)
qed

theorem coap_reply_exact_witness:
  "\<exists>s'. coap_message_list_proc reply_hal (reply_message\<lparr>coap_msg_id := 7\<rparr>) PROCESS_PIGGY_CMD
     \<lparr>cc = demo_coap_client\<lparr>message_list := [demo_request, demo_request\<lparr>si_retrans_count := 5\<rparr>]\<rparr>, cenv = (), cevents = []\<rparr> =
       Some (QCLOUD_RET_SUCCESS, s') \<and>
     map si_node_state (message_list (cc s')) = [COAP_NODE_STATE_INVALID, COAP_NODE_STATE_INVALID] \<and> length (cevents s') = 2"
  using coap_reply_exact [OF reply_hal_ok(1), of "\<lparr>cc = demo_coap_client\<lparr>message_list := [demo_request, demo_request\<lparr>si_retrans_count := 5\<rparr>]\<rparr>, cenv = (), cevents = []\<rparr>"
      "reply_message\<lparr>coap_msg_id := 7\<rparr>"] demo_waiting_ok
  by (auto simp: piggy_result_def piggy_events_def demo_request_def)

theorem coap_retransmission_witness:
  "\<exists>s'. coap_message_list_proc whole_hal DEFAULT_COAP_MESSAGE PROCESS_WAIT_CMD
     \<lparr>cc = demo_coap_client\<lparr>message_list := [demo_request, demo_request\<lparr>si_retrans_count := 5\<rparr>]\<rparr>, cenv = ([], []), cevents = []\<rparr> =
       Some (QCLOUD_RET_SUCCESS, s') \<and>
     message_list (cc s') = [demo_request\<lparr>si_start_time := 2000000, si_retrans_count := 5\<rparr>] \<and> length (cevents s') = 1 \<and>
     snd (cenv s') = [[64, 2, 0, 7]]"
proof -
  let ?s = "\<lparr>cc = demo_coap_client\<lparr>message_list := [demo_request, demo_request\<lparr>si_retrans_count := 5\<rparr>]\<rparr>, cenv = ([], []), cevents = []\<rparr>
    :: (byte list \<times> byte list list) coap"
  have c: "max_retry_count demo_coap_client = 5" "cc_timeout_ms demo_coap_client = 2000" by (simp_all add: demo_coap_client_def)
  have log: "logs_writes whole_hal snd" by (auto simp: logs_writes_def whole_hal_simps)
  have "grants whole_hal" "\<And>w. fst (gettimeofday whole_hal w) = 0" by (simp_all add: grants_def whole_hal_simps)
  with coap_retransmission [of whole_hal 0 ?s snd] demo_waiting_ok log c show ?thesis
    by (auto simp: wait_result_def wait_events_def given_up_def time_up_def give_up_events_def wait_sent_def demo_request_def)
qed

text \<open>A network that is connected and neither sends nor receives.\<close>

definition dead_hal :: "unit hal" where
  "dead_hal = reply_hal\<lparr>net_read := (\<lambda>n t w. ((QCLOUD_ERR_SSL_READ_TIMEOUT, []), w)), net_write := (\<lambda>d t w. ((QCLOUD_ERR_FAILURE, 0), w))\<rparr>"

theorem coap_construct_hangs_witness:
  "\<exists>rc s'. coap_client_auth dead_hal 1 0 \<lparr>cc = demo_coap_client\<lparr>is_authed := - 1\<rparr>, cenv = (), cevents = []\<rparr> = Some (rc, s') \<and>
     auth_wait dead_hal s' = None"
proof -
  have "grants dead_hal" "silent dead_hal" by (simp_all add: grants_def silent_def dead_hal_def)
  moreover have "unauthed (demo_coap_client\<lparr>is_authed := - 1\<rparr>)"
    using demo_coap_client_ok by (simp add: unauthed_def) (simp add: demo_coap_client_def zero_coap_client_def)
  moreover have "length (auth_path (demo_coap_client\<lparr>is_authed := - 1\<rparr>)) \<le> 400"
    by (simp add: auth_path_def demo_coap_client_def zero_coap_client_def COAP_AUTH_URI_def cstr_def)
  ultimately show ?thesis
    using coap_construct_hangs [of dead_hal "\<lparr>cc = demo_coap_client\<lparr>is_authed := - 1\<rparr>, cenv = (), cevents = []\<rparr>" 1 0]
    by (auto simp: dead_hal_def)
qed

end
