(* ===== verification/Utils_Json.thy ===== *)
theory Utils_Json
  imports Iot_Prelude
begin

text \<open>
  The JSON scanner of \<^verbatim>\<open>sdk_src/utils/json_parser.c\<close>, its iteration macros (\<^verbatim>\<open>json_parser.h\<close>) and the lookups of
  \<^verbatim>\<open>json_token.c\<close> that the services use on every message from the cloud.

  A C string is the list of its bytes before the terminating NUL, a pointer into it the rest of the string from there;
  \<^term>\<open>[]\<close> is a pointer at the NUL. A scanner may return the pointer behind the NUL (\<open>Past\<close>), and reading through it is a
  fault (\<^const>\<open>None\<close>). Strings are shorter than \<open>2 ^ 31\<close>, so lengths are natural numbers.
\<close>

section \<open>The scanner\<close>

datatype JSONTYPE = JSNONE | JSSTRING | JSOBJECT | JSARRAY | JSNUMBER | JSBOOLEAN | JSNULL

datatype JSON_PARSE_CODE = JSON_PARSE_ERR | JSON_PARSE_OK | JSON_PARSE_FINISH

datatype JSON_PARSE_RESULT = JSON_RESULT_ERR | JSON_RESULT_OK

datatype char_ptr = Null | At "byte list" | Past

text \<open>The characters the scanner looks for.\<close>

abbreviation SPACE :: byte where "SPACE \<equiv> 32"
abbreviation QUOTE :: byte where "QUOTE \<equiv> 34"
abbreviation COMMA :: byte where "COMMA \<equiv> 44"
abbreviation MINUS :: byte where "MINUS \<equiv> 45"
abbreviation DOT :: byte where "DOT \<equiv> 46"
abbreviation COLON :: byte where "COLON \<equiv> 58"
abbreviation LBRACKET :: byte where "LBRACKET \<equiv> 91"
abbreviation BACKSLASH :: byte where "BACKSLASH \<equiv> 92"
abbreviation RBRACKET :: byte where "RBRACKET \<equiv> 93"
abbreviation LBRACE :: byte where "LBRACE \<equiv> 123"
abbreviation RBRACE :: byte where "RBRACE \<equiv> 125"

definition is_digit :: "byte \<Rightarrow> bool" where
  "is_digit c \<longleftrightarrow> 48 \<le> c \<and> c \<le> 57"

text \<open>\<^verbatim>\<open>strchr\<close> for a character other than NUL, and \<^verbatim>\<open>!strncmp\<close>.\<close>

fun strchr :: "byte list \<Rightarrow> byte \<Rightarrow> byte list option" where
  "strchr [] c = None"
| "strchr (x # xs) c = (if x = c then Some (x # xs) else strchr xs c)"

definition strn_eq :: "byte list \<Rightarrow> byte list \<Rightarrow> nat \<Rightarrow> bool" where
  "strn_eq a b n \<longleftrightarrow> take n a = take n b"

fun json_get_object :: "JSONTYPE \<Rightarrow> byte list \<Rightarrow> char_ptr" where
  "json_get_object type [] = Null"
| "json_get_object type (c # cs) =
     (if c = SPACE then json_get_object type cs
      else if c = (if type = JSOBJECT then LBRACE else LBRACKET) then At (c # cs) else Null)"

text \<open>The first loop of \<^verbatim>\<open>json_get_next_object\<close>: the type of the value, the value and the place to go on from.\<close>

fun value_start :: "byte list \<Rightarrow> (JSONTYPE \<times> byte list \<times> byte list) option" where
  "value_start [] = None"
| "value_start (c # cs) =
     (if c = QUOTE then Some (JSSTRING, cs, cs)
      else if c = LBRACE then Some (JSOBJECT, c # cs, cs)
      else if c = LBRACKET then Some (JSARRAY, c # cs, cs)
      else if c = MINUS \<or> is_digit c then Some (JSNUMBER, c # cs, cs)
      else if c = 116 \<or> c = 84 \<or> c = 102 \<or> c = 70 then Some (JSBOOLEAN, c # cs, c # cs)
      else if c = 110 \<or> c = 78 then Some (JSNULL, c # cs, c # cs)
      else value_start cs)"

definition is_true_at :: "byte list \<Rightarrow> bool" where
  "is_true_at v \<longleftrightarrow> length v \<ge> 4 \<and> (strn_eq v (cstr ''true'') 4 \<or> strn_eq v (cstr ''TRUE'') 4)"

definition is_false_at :: "byte list \<Rightarrow> bool" where
  "is_false_at v \<longleftrightarrow> length v \<ge> 5 \<and> (strn_eq v (cstr ''false'') 5 \<or> strn_eq v (cstr ''FALSE'') 5)"

definition is_null_at :: "byte list \<Rightarrow> bool" where
  "is_null_at v \<longleftrightarrow> length v \<ge> 4 \<and> (strn_eq v (cstr ''null'') 4 \<or> strn_eq v (cstr ''NULL'') 4)"

definition json_mark :: "JSONTYPE \<Rightarrow> byte \<times> byte" where
  "json_mark type =
     (case type of JSSTRING \<Rightarrow> (QUOTE, QUOTE) | JSOBJECT \<Rightarrow> (LBRACE, RBRACE) | JSARRAY \<Rightarrow> (LBRACKET, RBRACKET) | _ \<Rightarrow> (48, SPACE))"

text \<open>The second loop: \<open>value\<close> and \<open>pos\<close> are \<open>p_cValue\<close> and \<open>p_cPos\<close>, the result is \<open>iValueLen\<close>.\<close>

fun value_len :: "JSONTYPE \<Rightarrow> byte list \<Rightarrow> byte list \<Rightarrow> nat \<Rightarrow> byte \<Rightarrow> nat \<Rightarrow> nat" where
  "value_len type value [] iMarkDepth lastchr iValueLen = iValueLen"
| "value_len type value (c # cs) iMarkDepth lastchr iValueLen =
     (let pos_off = length value - length (c # cs) in
      if type = JSBOOLEAN
      then if is_true_at value then 4
           else if is_false_at value then 5
           else value_len type value cs iMarkDepth c iValueLen
      else if type = JSNULL
      then if is_null_at value then 4 else value_len type value cs iMarkDepth c iValueLen
      else if type = JSNUMBER
      then if \<not> is_digit c \<and> c \<noteq> DOT then pos_off else value_len type value cs iMarkDepth c iValueLen
      else if c = snd (json_mark type)
      then if iMarkDepth = 0
           then let iValueLen = pos_off + (if type = JSSTRING then 0 else 1)
                in if type = JSSTRING \<and> lastchr = BACKSLASH
                   then value_len type value cs iMarkDepth (case cs of [] \<Rightarrow> 0 | x # _ \<Rightarrow> x) iValueLen
                   else iValueLen
           else value_len type value cs (iMarkDepth - 1) c iValueLen
      else if c = fst (json_mark type) then value_len type value cs (iMarkDepth + 1) c iValueLen
      else value_len type value cs iMarkDepth c iValueLen)"

text \<open>What \<^verbatim>\<open>json_get_next_object\<close> stores; \<open>je_key\<close> is not written for an array.\<close>

record json_entry =
  je_key :: "byte list"
  je_key_len :: nat
  je_val :: "byte list option"
  je_val_len :: nat
  je_type :: JSONTYPE

definition ptr_add :: "byte list \<Rightarrow> nat \<Rightarrow> char_ptr" where
  "ptr_add v n = (if n \<le> length v then At (drop n v) else Past)"

definition json_value :: "byte list \<Rightarrow> nat \<Rightarrow> byte list option \<Rightarrow> json_entry \<times> char_ptr" where
  "json_value name name_len pos =
     (case Option.bind pos value_start of
        None \<Rightarrow> (\<lparr>je_key = name, je_key_len = name_len, je_val = None, je_val_len = 0, je_type = JSNONE\<rparr>, Null)
      | Some (type, value, pos) \<Rightarrow>
          let n = value_len type value pos 0 (if type = JSSTRING then QUOTE else SPACE) 0
          in (\<lparr>je_key = name, je_key_len = name_len, je_val = Some value, je_val_len = n, je_type = type\<rparr>,
              ptr_add value (if type = JSSTRING then n + 1 else n)))"

text \<open>\<^const>\<open>None\<close>: no key, the function returns a null pointer and stores nothing.\<close>

definition json_get_next_object :: "JSONTYPE \<Rightarrow> byte list \<Rightarrow> (json_entry \<times> char_ptr) option" where
  "json_get_next_object type str =
     (if type = JSOBJECT
      then do {
        q \<leftarrow> strchr str QUOTE;
        let name = tl q;
        q \<leftarrow> strchr name QUOTE;
        Some (json_value name (length name - length q) (strchr q COLON)) }
      else Some (json_value [] 0 (Some str)))"

section \<open>Iteration\<close>

text \<open>\<^verbatim>\<open>json_object_for_each_kv\<close> and \<^verbatim>\<open>json_array_for_each_entry\<close>: \<open>body\<close> says whether it breaks the loop.\<close>

lemma ptr_add_At: "ptr_add v n = At s \<Longrightarrow> length s \<le> length v"
  by (auto simp: ptr_add_def split: if_splits)

lemma value_start_length:
  "value_start s = Some (type, value, pos) \<Longrightarrow> length value \<le> length s \<and> length pos \<le> length value"
  by (induction s) (auto split: if_splits)

lemma json_value_length: "json_value name n pos = (e, At s) \<Longrightarrow> \<exists>p. pos = Some p \<and> length s \<le> length p"
  by (auto simp: json_value_def Let_def split: Option.bind_splits option.splits prod.splits
    dest!: ptr_add_At value_start_length)

lemma strchr_Some: "strchr s c = Some t \<Longrightarrow> \<exists>xs. t = c # xs \<and> length xs < length s"
  by (induction s) (auto split: if_splits)

lemma json_get_next_object_length:
  "json_get_next_object type s = Some (e, At t) \<Longrightarrow> length t \<le> length s \<and> (type = JSOBJECT \<longrightarrow> length t < length s)"
  by (auto simp: json_get_next_object_def Let_def bind_eq_Some_conv split: if_splits
    dest!: json_value_length strchr_Some)

function json_for_each :: "JSONTYPE \<Rightarrow> (json_entry \<Rightarrow> 'd \<Rightarrow> bool \<times> 'd) \<Rightarrow> char_ptr \<Rightarrow> 'd \<Rightarrow> 'd option" where
  "json_for_each type body Null d = Some d"
| "json_for_each type body Past d = None"
| "json_for_each type body (At []) d = Some d"
| "json_for_each type body (At (c # cs)) d =
     (case json_get_next_object type (if type = JSOBJECT then c # cs else cs) of
        None \<Rightarrow> Some d
      | Some (e, pos) \<Rightarrow>
          if pos = Null then Some d
          else let (break, d) = body e d in if break then Some d else json_for_each type body pos d)"
  by pat_completeness auto

termination
  by (relation "measure (\<lambda>(type, body, pos, d). case pos of At s \<Rightarrow> Suc (length s) | _ \<Rightarrow> 0)")
     (auto split: char_ptr.splits if_splits dest!: json_get_next_object_length)

section \<open>Lookups\<close>

text \<open>
  \<^verbatim>\<open>json_parse_name_value\<close> cuts the string at \<open>iStrLen\<close>. The test that should undo this compares with the length of the
  string that has been cut, so it never does: the string the caller has left is part of the result. A length beyond the
  terminating NUL writes outside the string.
\<close>

definition name_value_body ::
  "(json_entry \<Rightarrow> 'd \<Rightarrow> JSON_PARSE_CODE \<times> 'd) \<Rightarrow> json_entry \<Rightarrow> JSON_PARSE_RESULT \<times> 'd \<Rightarrow> bool \<times> JSON_PARSE_RESULT \<times> 'd" where
  "name_value_body pfnCB e = (\<lambda>(ret, d).
     if je_key_len e \<noteq> 0 \<and> je_val e \<noteq> None \<and> je_val_len e \<noteq> 0
     then let (code, d) = pfnCB e d in (code = JSON_PARSE_FINISH, JSON_RESULT_OK, d)
     else (False, ret, d))"

definition json_parse_name_value ::
  "byte list \<Rightarrow> nat \<Rightarrow> (json_entry \<Rightarrow> 'd \<Rightarrow> JSON_PARSE_CODE \<times> 'd) \<Rightarrow> 'd \<Rightarrow>
   ((JSON_PARSE_RESULT \<times> 'd) \<times> byte list) option" where
  "json_parse_name_value str iStrLen pfnCB d =
     (if iStrLen = 0 then Some ((JSON_RESULT_ERR, d), str)
      else if iStrLen > length str then None
      else do {
        let str = take iStrLen str;
        r \<leftarrow> json_for_each JSOBJECT (name_value_body pfnCB) (json_get_object JSOBJECT str) (JSON_RESULT_ERR, d);
        Some (r, str) })"

record JSON_NV =
  nLen :: nat
  vLen :: nat
  vType :: JSONTYPE
  pN :: "byte list"
  pV :: "byte list option"

definition json_get_value_by_name_cb :: "json_entry \<Rightarrow> JSON_NV \<Rightarrow> JSON_PARSE_CODE \<times> JSON_NV" where
  "json_get_value_by_name_cb e nv =
     (if je_key_len e = nLen nv \<and> strn_eq (je_key e) (pN nv) (nLen nv)
      then (JSON_PARSE_FINISH, nv\<lparr>pV := je_val e, vLen := je_val_len e, vType := je_type e\<rparr>)
      else (JSON_PARSE_OK, nv))"

text \<open>The value with its length; \<open>want_type\<close>: \<open>p_iValueType\<close> is not null, as in no call of the SDK. A zeroed \<open>vType\<close> is
  \<^const>\<open>JSSTRING\<close>.\<close>

definition json_get_value_by_name ::
  "byte list \<Rightarrow> nat \<Rightarrow> byte list \<Rightarrow> bool \<Rightarrow> ((byte list option \<times> nat) \<times> byte list) option" where
  "json_get_value_by_name str iStrLen name want_type = do {
     ((result, nv), str) \<leftarrow> json_parse_name_value str iStrLen json_get_value_by_name_cb
        \<lparr>nLen = length name, vLen = 0, vType = JSSTRING, pN = name, pV = None\<rparr>;
     Some ((if result = JSON_RESULT_OK \<and> want_type \<and> vType nv = JSNULL then None else pV nv, vLen nv), str) }"

text \<open>
  \<^verbatim>\<open>LITE_json_value_of\<close>: a key with dots is a path. \<open>A\<close> says whether the heap grants the next request; the copy of a key
  component is written without a test. The result is a new string, or \<^const>\<open>None\<close> inside for a null pointer.
\<close>

function LITE_json_value_of ::
  "('h \<Rightarrow> bool \<times> 'h) \<Rightarrow> byte list \<Rightarrow> byte list \<Rightarrow> 'h \<Rightarrow> (byte list option \<times> 'h) option" where
  "LITE_json_value_of A key_iter src_iter h =
     (case strchr key_iter DOT of
        Some delim \<Rightarrow> (
          let (ok, h) = A h
          in if \<not> ok then None
             else do {
               ((value, value_len), u) \<leftarrow> json_get_value_by_name src_iter (length src_iter)
                  (take (length key_iter - length delim) key_iter) False;
               (case value of
                  None \<Rightarrow> Some (None, h)
                | Some src_iter \<Rightarrow> LITE_json_value_of A (tl delim) src_iter h) })
      | None \<Rightarrow> do {
          ((value, value_len), u) \<leftarrow> json_get_value_by_name src_iter (length src_iter) key_iter False;
          (case value of
             None \<Rightarrow> Some (None, h)
           | Some value \<Rightarrow> let (ok, h) = A h in Some (if ok then Some (take value_len value) else None, h)) })"
  by pat_completeness auto

termination
  by (relation "measure (\<lambda>(A, key, src, h). length key)") (auto dest!: strchr_Some)


section \<open>Specification: JSON texts\<close>

datatype json =
    JStr "byte list" | JNum "byte list" | JBool bool | JNull | JObj "(byte list \<times> json) list" | JArr "json list"

text \<open>Strings and keys without quotes, escapes and brackets: the scanner counts brackets inside strings, too.\<close>

definition plain :: "byte list \<Rightarrow> bool" where
  "plain s \<longleftrightarrow> set s \<inter> {QUOTE, BACKSLASH, LBRACE, RBRACE, LBRACKET, RBRACKET} = {}"

definition blank :: "byte list \<Rightarrow> bool" where
  "blank w \<longleftrightarrow> set w \<subseteq> {SPACE, 9, 10, 13}"

fun numeral_text :: "byte list \<Rightarrow> bool" where
  "numeral_text [] \<longleftrightarrow> False"
| "numeral_text (c # cs) \<longleftrightarrow> (c = MINUS \<or> is_digit c) \<and> (\<forall>x \<in> set cs. is_digit x \<or> x = DOT)"

inductive json_text :: "json \<Rightarrow> byte list \<Rightarrow> bool"
  and json_members :: "(byte list \<times> json) list \<Rightarrow> byte list \<Rightarrow> bool"
  and json_elements :: "json list \<Rightarrow> byte list \<Rightarrow> bool" where
  str: "plain s \<Longrightarrow> json_text (JStr s) (QUOTE # s @ [QUOTE])"
| num: "numeral_text n \<Longrightarrow> json_text (JNum n) n"
| bool: "json_text (JBool b) (if b then cstr ''true'' else cstr ''false'')"
| null: "json_text JNull (cstr ''null'')"
| obj: "json_members kvs t \<Longrightarrow> json_text (JObj kvs) (LBRACE # t @ [RBRACE])"
| arr: "json_elements js t \<Longrightarrow> json_text (JArr js) (LBRACKET # t @ [RBRACKET])"
| members_Nil: "blank w \<Longrightarrow> json_members [] w"
| members_One: "\<lbrakk>blank a; plain k; blank b; blank c; json_text v t; blank d\<rbrakk> \<Longrightarrow>
    json_members [(k, v)] (a @ QUOTE # k @ QUOTE # b @ COLON # c @ t @ d)"
| members_Cons: "\<lbrakk>blank a; plain k; blank b; blank c; json_text v t; blank d; json_members kvs u; kvs \<noteq> []\<rbrakk> \<Longrightarrow>
    json_members ((k, v) # kvs) (a @ QUOTE # k @ QUOTE # b @ COLON # c @ t @ d @ COMMA # u)"
| elements_Nil: "blank w \<Longrightarrow> json_elements [] w"
| elements_One: "\<lbrakk>blank a; json_text v t; blank d\<rbrakk> \<Longrightarrow> json_elements [v] (a @ t @ d)"
| elements_Cons: "\<lbrakk>blank a; json_text v t; blank d; json_elements js u; js \<noteq> []\<rbrakk> \<Longrightarrow>
    json_elements (v # js) (a @ t @ d @ COMMA # u)"

text \<open>What a lookup hands out for a value: its text, for a string without the quotes.\<close>

fun value_text :: "json \<Rightarrow> byte list \<Rightarrow> byte list" where
  "value_text (JStr s) t = s"
| "value_text _ t = t"

text \<open>Lookup by a path of keys. Members with an empty key or an empty string as their value do not count.\<close>

fun json_find :: "(byte list \<times> json) list \<Rightarrow> byte list \<Rightarrow> json option" where
  "json_find [] name = None"
| "json_find ((k, v) # kvs) name = (if k = name \<and> k \<noteq> [] \<and> v \<noteq> JStr [] then Some v else json_find kvs name)"

fun json_path :: "byte list list \<Rightarrow> json \<Rightarrow> json option" where
  "json_path [] j = Some j"
| "json_path (p # ps) (JObj kvs) = Option.bind (json_find kvs p) (json_path ps)"
| "json_path (p # ps) _ = None"

section \<open>Scanning a value\<close>

declare value_len.simps(2) [simp del]

definition bracketed :: "JSONTYPE \<Rightarrow> bool" where
  "bracketed type \<longleftrightarrow> type = JSOBJECT \<or> type = JSARRAY"

lemma value_len_bracket:
  assumes "bracketed type" "json_mark type = (a, b)"
  shows "value_len type v (c # cs) d l n =
    (if c = b then if d = 0 then length v - length (c # cs) + 1 else value_len type v cs (d - 1) c n
     else value_len type v cs (if c = a then d + 1 else d) c n)"
  using assms unfolding bracketed_def by (elim disjE) (simp_all add: value_len.simps(2) Let_def)

lemma json_mark_simps [simp]: "json_mark JSOBJECT = (LBRACE, RBRACE)" "json_mark JSARRAY = (LBRACKET, RBRACKET)"
    "json_mark JSSTRING = (QUOTE, QUOTE)"
  by (simp_all add: json_mark_def)

definition passes :: "JSONTYPE \<Rightarrow> byte list \<Rightarrow> bool" where
  "passes type t \<longleftrightarrow> (\<forall>v rest d l n. \<exists>l'. value_len type v (t @ rest) d l n = value_len type v rest d l' n)"

lemma passesE: "passes type t \<Longrightarrow> \<exists>l'. value_len type v (t @ rest) d l n = value_len type v rest d l' n"
  by (simp add: passes_def)

lemma passes_append [intro]: "passes type s \<Longrightarrow> passes type t \<Longrightarrow> passes type (s @ t)"
  unfolding passes_def by (metis append.assoc)

lemma passes_nested:
  assumes ty: "bracketed type" "json_mark type = (a, b)" "a \<noteq> b" and t: "passes type t"
  shows "passes type (a # t @ [b])"
  unfolding passes_def
proof (intro allI)
  fix v rest d l n
  have "value_len type v ((a # t @ [b]) @ rest) d l n = value_len type v (t @ b # rest) (Suc d) a n"
    using ty(3) by (simp add: value_len_bracket [OF ty(1,2)])
  moreover obtain l' where "value_len type v (t @ b # rest) (Suc d) a n = value_len type v (b # rest) (Suc d) l' n"
    using passesE [OF t] by blast
  moreover have "value_len type v (b # rest) (Suc d) l' n = value_len type v rest d b n"
    by (simp add: value_len_bracket [OF ty(1,2)])
  ultimately show "\<exists>l'. value_len type v ((a # t @ [b]) @ rest) d l n = value_len type v rest d l' n" by metis
qed

lemma passes_char:
  assumes "bracketed type" "json_mark type = (a, b)" "c \<noteq> a" "c \<noteq> b"
  shows "passes type [c]"
  using assms(3,4) by (auto simp: passes_def value_len_bracket [OF assms(1,2)])

lemma passes_chars:
  assumes "bracketed type" "set t \<inter> {LBRACE, RBRACE, LBRACKET, RBRACKET} = {}"
  shows "passes type t"
  using assms(2)
proof (induction t)
  case (Cons c t)
  have c: "c \<noteq> LBRACE" "c \<noteq> RBRACE" "c \<noteq> LBRACKET" "c \<noteq> RBRACKET" using Cons.prems by auto
  from assms(1) consider "type = JSOBJECT" | "type = JSARRAY" unfolding bracketed_def by blast
  then have "passes type [c]"
    using passes_char [OF assms(1) _ c(1,2)] passes_char [OF assms(1) _ c(3,4)] by cases simp_all
  moreover have "passes type t" using Cons by simp
  ultimately have "passes type ([c] @ t)" by (rule passes_append)
  then show ?case by simp
qed (auto simp: passes_def)

lemma numeral_chars: "numeral_text n \<Longrightarrow> c \<in> set n \<Longrightarrow> is_digit c \<or> c = MINUS \<or> c = DOT"
  by (cases n) auto

lemma digit_simps [simp]: "\<not> is_digit QUOTE" "\<not> is_digit LBRACE" "\<not> is_digit RBRACE" "\<not> is_digit LBRACKET"
    "\<not> is_digit RBRACKET" "\<not> is_digit COMMA" "\<not> is_digit MINUS" "\<not> is_digit DOT" "\<not> is_digit COLON"
    "\<not> is_digit SPACE" "\<not> is_digit 9" "\<not> is_digit 10" "\<not> is_digit 13" "\<not> is_digit 116" "\<not> is_digit 102" "\<not> is_digit 110"
  by (simp_all add: is_digit_def)

lemma passes_blank [intro]: "bracketed type \<Longrightarrow> blank w \<Longrightarrow> passes type w"
  by (rule passes_chars) (auto simp: blank_def)

lemma passes_key [intro]: "bracketed type \<Longrightarrow> plain k \<Longrightarrow> passes type (QUOTE # k @ [QUOTE])"
  by (rule passes_chars) (auto simp: plain_def)

lemma passes_outer:
  assumes "bracketed type" "passes type t"
  shows "passes type (LBRACE # t @ [RBRACE])" "passes type (LBRACKET # t @ [RBRACKET])"
proof -
  consider (o) "type = JSOBJECT" | (a) "type = JSARRAY" using assms(1) by (auto simp: bracketed_def)
  then have "passes type (LBRACE # t @ [RBRACE]) \<and> passes type (LBRACKET # t @ [RBRACKET])"
  proof cases
    case o
    have "passes type ([LBRACKET] @ t @ [RBRACKET])"
      using o assms by (intro passes_append passes_char [where a = LBRACE and b = RBRACE]) auto
    then show ?thesis using o assms by (auto intro!: passes_nested)
  next
    case a
    have "passes type ([LBRACE] @ t @ [RBRACE])"
      using a assms by (intro passes_append passes_char [where a = LBRACKET and b = RBRACKET]) auto
    then show ?thesis using a assms by (auto intro!: passes_nested)
  qed
  then show "passes type (LBRACE # t @ [RBRACE])" "passes type (LBRACKET # t @ [RBRACKET])" by auto
qed

lemma passes_one: "bracketed type \<Longrightarrow> c \<in> {COLON, COMMA} \<Longrightarrow> passes type [c]"
  by (rule passes_chars) auto

lemma passes_member:
  assumes "bracketed type" "blank a" "plain k" "blank b" "blank c" "passes type t" "passes type d"
  shows "passes type (a @ QUOTE # k @ QUOTE # b @ COLON # c @ t @ d)"
proof -
  have "passes type (a @ (QUOTE # k @ [QUOTE]) @ b @ [COLON] @ c @ t @ d)"
    by (intro passes_append passes_blank passes_key passes_one assms) simp
  then show ?thesis by simp
qed

lemma passes_comma:
  assumes "bracketed type" "blank d" "passes type u"
  shows "passes type (d @ COMMA # u)"
proof -
  have "passes type (d @ [COMMA] @ u)" by (intro passes_append passes_blank passes_one assms) simp
  then show ?thesis by simp
qed

lemma json_text_passes:
  assumes ty: "bracketed type"
  shows "json_text j t \<Longrightarrow> passes type t" and "json_members kvs u \<Longrightarrow> passes type u"
    and "json_elements js w \<Longrightarrow> passes type w"
proof (induction rule: json_text_json_members_json_elements.inducts)
  case (str s)
  then show ?case by (rule passes_key [OF ty])
next
  case (num n)
  then show ?case by (intro passes_chars [OF ty]) (auto dest: numeral_chars)
next
  case (bool b)
  show ?case by (intro passes_chars [OF ty]) (simp add: cstr_def)
next
  case null
  show ?case by (intro passes_chars [OF ty]) (simp add: cstr_def)
next
  case (obj kvs t)
  then show ?case by (intro passes_outer [OF ty])
next
  case (arr js t)
  then show ?case by (intro passes_outer [OF ty])
next
  case (members_Nil w)
  then show ?case by (rule passes_blank [OF ty])
next
  case (members_One a k b c v t d)
  then show ?case using ty passes_blank passes_member by blast
next
  case (members_Cons a k b c v t d kvs u)
  then show ?case by (intro passes_member [OF ty] passes_comma [OF ty])
next
  case (elements_Nil w)
  then show ?case by (rule passes_blank [OF ty])
next
  case (elements_One a v t d)
  then show ?case using ty by blast
next
  case (elements_Cons a v t d js u)
  then show ?case using ty passes_comma by blast
qed

definition stops :: "byte list \<Rightarrow> bool" where
  "stops rest \<longleftrightarrow> rest \<noteq> [] \<and> \<not> is_digit (hd rest) \<and> hd rest \<noteq> DOT"

lemma stops_after_blank: "blank d \<Longrightarrow> c \<in> {COMMA, RBRACE, RBRACKET} \<Longrightarrow> stops (d @ c # rest)"
  by (cases d) (auto simp: stops_def blank_def)

lemma value_len_string:
  "plain s \<Longrightarrow> l \<noteq> BACKSLASH \<Longrightarrow>
   value_len JSSTRING v (s @ QUOTE # rest) 0 l n = length v - length (QUOTE # rest)"
  by (induction s arbitrary: l) (auto simp: value_len.simps(2) plain_def Let_def)

lemma value_len_number:
  "(\<forall>x \<in> set cs. is_digit x \<or> x = DOT) \<Longrightarrow> stops rest \<Longrightarrow>
   value_len JSNUMBER v (cs @ rest) 0 l n = length v - length rest"
proof (induction cs arbitrary: l)
  case Nil
  then show ?case by (cases rest) (auto simp: value_len.simps(2) stops_def Let_def)
qed (auto simp: value_len.simps(2) Let_def)

lemma value_len_bracketed:
  assumes "bracketed type" "json_mark type = (a, b)" "passes type t"
  shows "value_len type v (t @ b # rest) 0 l n = length v - length rest - 1 + 1"
proof -
  obtain l' where "value_len type v (t @ b # rest) 0 l n = value_len type v (b # rest) 0 l' n"
    using passesE [OF assms(3)] by blast
  then show ?thesis by (simp add: value_len_bracket [OF assms(1,2)])
qed

fun jtype :: "json \<Rightarrow> JSONTYPE" where
  "jtype (JStr s) = JSSTRING"
| "jtype (JNum n) = JSNUMBER"
| "jtype (JBool b) = JSBOOLEAN"
| "jtype JNull = JSNULL"
| "jtype (JObj kvs) = JSOBJECT"
| "jtype (JArr js) = JSARRAY"

fun value_rest :: "json \<Rightarrow> byte list" where
  "value_rest (JStr s) = [QUOTE]"
| "value_rest _ = []"

lemma value_start_blank: "blank c \<Longrightarrow> value_start (c @ s) = value_start s"
  by (induction c) (auto simp: blank_def)

lemma json_value_text:
  assumes "json_text j t" "stops rest" "blank c"
  shows "json_value name n (Some (COLON # c @ t @ rest)) =
    (\<lparr>je_key = name, je_key_len = n, je_val = Some (value_text j t @ value_rest j @ rest),
      je_val_len = length (value_text j t), je_type = jtype j\<rparr>, At rest)"
  using assms(1)
proof cases
  case (str s)
  then show ?thesis
    by (simp add: json_value_def value_start_blank [OF assms(3)] value_len_string ptr_add_def Let_def)
next
  case num
  then obtain x xs where x: "t = x # xs" "x = MINUS \<or> is_digit x" "\<forall>x \<in> set xs. is_digit x \<or> x = DOT"
    by (cases t) auto
  then have "x \<noteq> QUOTE" "x \<noteq> LBRACE" "x \<noteq> LBRACKET" by auto
  with x num show ?thesis
    by (simp add: json_value_def value_start_blank [OF assms(3)] value_len_number [OF x(3) assms(2)] ptr_add_def Let_def)
next
  case (bool b)
  then show ?thesis
    by (cases b) (simp_all add: json_value_def value_start_blank [OF assms(3)] value_len.simps(2) ptr_add_def Let_def
      cstr_def is_true_at_def is_false_at_def strn_eq_def)
next
  case null
  then show ?thesis
    by (simp add: json_value_def value_start_blank [OF assms(3)] value_len.simps(2) ptr_add_def Let_def
      cstr_def is_null_at_def strn_eq_def)
next
  case (obj kvs u)
  have "passes JSOBJECT u" using json_text_passes(2) [of JSOBJECT] obj by (simp add: bracketed_def)
  from value_len_bracketed [OF _ _ this] obj show ?thesis
    by (simp add: json_value_def value_start_blank [OF assms(3)] ptr_add_def Let_def bracketed_def)
next
  case (arr js u)
  have "passes JSARRAY u" using json_text_passes(3) [of JSARRAY] arr by (simp add: bracketed_def)
  from value_len_bracketed [OF _ _ this] arr show ?thesis
    by (simp add: json_value_def value_start_blank [OF assms(3)] ptr_add_def Let_def bracketed_def)
qed


section \<open>Looking up a member\<close>

lemma strchr_skip: "c \<notin> set g \<Longrightarrow> strchr (g @ c # s) c = Some (c # s)"
  by (induction g) auto

lemma next_member:
  assumes "QUOTE \<notin> set g" "plain k" "blank b" "blank c" "json_text j t" "stops rest"
  shows "json_get_next_object JSOBJECT (g @ QUOTE # k @ QUOTE # b @ COLON # c @ t @ rest) =
    Some (\<lparr>je_key = k @ QUOTE # b @ COLON # c @ t @ rest, je_key_len = length k,
      je_val = Some (value_text j t @ value_rest j @ rest), je_val_len = length (value_text j t), je_type = jtype j\<rparr>, At rest)"
proof -
  have "QUOTE \<notin> set k" "COLON \<notin> set (QUOTE # b)" using assms(2,3) by (auto simp: plain_def blank_def)
  then have "strchr (k @ QUOTE # b @ COLON # c @ t @ rest) QUOTE = Some (QUOTE # b @ COLON # c @ t @ rest)"
    "strchr (QUOTE # b @ COLON # c @ t @ rest) COLON = Some (COLON # c @ t @ rest)"
    using strchr_skip [of COLON "QUOTE # b" "c @ t @ rest"] by (simp_all add: strchr_skip)
  then show ?thesis
    using json_value_text [OF assms(5,6,4)] by (simp add: json_get_next_object_def strchr_skip [OF assms(1)] Let_def)
qed

lemma value_text_Nil: "json_text j t \<Longrightarrow> value_text j t = [] \<longleftrightarrow> j = JStr []"
  by (cases rule: json_text.cases) (auto simp: cstr_def split: if_splits)

lemma cb_simps:
  assumes "pN nv = name" "nLen nv = length name"
  shows "json_get_value_by_name_cb \<lparr>je_key = k @ QUOTE # x, je_key_len = length k, je_val = v, je_val_len = n, je_type = ty\<rparr> nv =
    (if k = name then (JSON_PARSE_FINISH, nv\<lparr>pV := v, vLen := n, vType := ty\<rparr>) else (JSON_PARSE_OK, nv))"
  using assms by (auto simp: json_get_value_by_name_cb_def strn_eq_def)

lemma json_members_ConsE:
  assumes "json_members ((k, v) # kvs) t"
  obtains a b c u d w where "blank a" "plain k" "blank b" "blank c" "json_text v u" "blank d"
    "t = a @ QUOTE # k @ QUOTE # b @ COLON # c @ u @ d @ w" "w = [] \<and> kvs = [] \<or> (\<exists>w'. w = COMMA # w' \<and> json_members kvs w')"
  using assms by (cases rule: json_members.cases) fastforce+

abbreviation found :: "json \<Rightarrow> byte list \<Rightarrow> byte list \<Rightarrow> JSON_NV \<Rightarrow> JSON_NV" where
  "found j t rest nv \<equiv> nv\<lparr>pV := Some (value_text j t @ value_rest j @ rest), vLen := length (value_text j t), vType := jtype j\<rparr>"

text \<open>One round of the loop: a hit ends it, a miss goes on behind the member.\<close>

lemma for_each_member:
  assumes "g \<noteq> []" "QUOTE \<notin> set g" "plain k" "blank b" "blank c" "json_text j t" "stops rest"
    and "pN nv = name" "nLen nv = length name"
  shows "json_for_each JSOBJECT (name_value_body json_get_value_by_name_cb)
      (At (g @ QUOTE # k @ QUOTE # b @ COLON # c @ t @ rest)) (ret, nv) =
    (if k = name \<and> k \<noteq> [] \<and> j \<noteq> JStr [] then Some (JSON_RESULT_OK, found j t rest nv)
     else json_for_each JSOBJECT (name_value_body json_get_value_by_name_cb) (At rest)
       (if k \<noteq> [] \<and> j \<noteq> JStr [] then JSON_RESULT_OK else ret, nv))"
proof -
  obtain y ys where y: "g @ QUOTE # k @ QUOTE # b @ COLON # c @ t @ rest = y # ys" using assms(1) by (cases g) auto
  show ?thesis
    using next_member [OF assms(2-7)] value_text_Nil [OF assms(6)] unfolding y
    by (simp add: name_value_body_def cb_simps [OF assms(8,9)] Let_def del: append.simps)
qed

lemma find_in_members:
  assumes "json_members kvs t" "json_find kvs name = Some j" "g \<noteq> []" "QUOTE \<notin> set g"
    and nv: "pN nv = name" "nLen nv = length name"
  shows "\<exists>u rest. json_text j u \<and> stops rest \<and>
    json_for_each JSOBJECT (name_value_body json_get_value_by_name_cb) (At (g @ t @ RBRACE # r)) (ret, nv) =
      Some (JSON_RESULT_OK, found j u rest nv)"
  using assms(1-4)
proof (induction kvs arbitrary: t g ret)
  case (Cons kv kvs)
  obtain k v where kv: "kv = (k, v)" by fastforce
  with Cons.prems(1) obtain a b c u d w where m: "blank a" "plain k" "blank b" "blank c" "json_text v u" "blank d"
    and t: "t = a @ QUOTE # k @ QUOTE # b @ COLON # c @ u @ d @ w"
    and w: "w = [] \<and> kvs = [] \<or> (\<exists>w'. w = COMMA # w' \<and> json_members kvs w')"
    by (blast elim: json_members_ConsE)
  have g: "g @ a \<noteq> []" "QUOTE \<notin> set (g @ a)" using Cons.prems(3,4) m(1) by (auto simp: blank_def)
  have st: "stops (d @ w @ RBRACE # r)" using w m(6) stops_after_blank by auto
  note round = for_each_member [OF g m(2-5) st nv, of ret]
  show ?case
  proof (cases "k = name \<and> k \<noteq> [] \<and> v \<noteq> JStr []")
    case True
    then have "j = v" using Cons.prems(2) by (auto simp: kv)
    then show ?thesis using round True m(5) st by (auto simp: t)
  next
    case False
    then have find: "json_find kvs name = Some j" using Cons.prems(2) by (auto simp: kv split: if_splits)
    then obtain w' where w': "w = COMMA # w'" "json_members kvs w'" using w by auto
    have "d @ [COMMA] \<noteq> []" "QUOTE \<notin> set (d @ [COMMA])" using m(6) by (auto simp: blank_def)
    from Cons.IH [OF w'(2) find this] show ?thesis using round False by (simp add: t w'(1))
  qed
qed simp

lemma json_get_object_text: "json_text (JObj kvs) t \<Longrightarrow> json_get_object JSOBJECT (t @ r) = At (t @ r)"
  by (auto elim: json_text.cases)

lemma get_value_in_object:
  assumes "json_text (JObj kvs) t" "json_find kvs name = Some j"
  shows "\<exists>u rest. json_text j u \<and> json_get_value_by_name (t @ r) (length (t @ r)) name False =
    Some ((Some (value_text j u @ value_rest j @ rest), length (value_text j u)), t @ r)"
proof -
  obtain w where w: "t = LBRACE # w @ [RBRACE]" "json_members kvs w" using assms(1) by (auto elim: json_text.cases)
  let ?nv = "\<lparr>nLen = length name, vLen = 0, vType = JSSTRING, pN = name, pV = None\<rparr>"
  obtain u rest where "json_text j u"
    "json_for_each JSOBJECT (name_value_body json_get_value_by_name_cb) (At ([LBRACE] @ w @ RBRACE # r)) (JSON_RESULT_ERR, ?nv) =
      Some (JSON_RESULT_OK, found j u rest ?nv)"
    using find_in_members [OF w(2) assms(2), of "[LBRACE]" ?nv r JSON_RESULT_ERR] by auto
  then show ?thesis
    using json_get_object_text [OF assms(1), of r]
    by (auto simp: json_get_value_by_name_def json_parse_name_value_def w(1) Let_def)
qed

section \<open>Paths\<close>

fun dotted :: "byte list list \<Rightarrow> byte list" where
  "dotted [] = []"
| "dotted [k] = k"
| "dotted (k # ks) = k @ DOT # dotted ks"

lemma strchr_None: "strchr s c = None \<longleftrightarrow> c \<notin> set s"
  by (induction s) auto

lemma value_of_path:
  assumes "\<forall>h. fst (A h)" "\<forall>k \<in> set ks. DOT \<notin> set k" "ks \<noteq> []" "json_text j t" "json_path ks j = Some x"
  shows "\<exists>u h'. json_text x u \<and> LITE_json_value_of A (dotted ks) (t @ r) h = Some (Some (value_text x u), h')"
  using assms(2-5)
proof (induction ks arbitrary: j t r h)
  case (Cons k ks)
  from Cons.prems(4) obtain kvs y where j: "j = JObj kvs" "json_find kvs k = Some y" "json_path ks y = Some x"
    by (cases j) (auto simp: bind_eq_Some_conv)
  obtain u rest where u: "json_text y u"
    and get: "json_get_value_by_name (t @ r) (length (t @ r)) k False =
      Some ((Some (value_text y u @ value_rest y @ rest), length (value_text y u)), t @ r)"
    using get_value_in_object [OF _ j(2)] Cons.prems(3) j(1) by blast
  obtain h' where h: "A h = (True, h')" using assms(1) by (metis prod.collapse)
  have k: "DOT \<notin> set k" using Cons.prems(1) by simp
  show ?case
  proof (cases ks)
    case Nil
    then show ?thesis
      using u get j(3) h k by (auto simp: strchr_None [THEN iffD2])
  next
    case (Cons k' ks')
    then obtain kvs' where y: "y = JObj kvs'" using j(3) by (cases y) auto
    have "\<exists>u' h''. json_text x u' \<and> LITE_json_value_of A (dotted ks) (u @ rest) h' = Some (Some (value_text x u'), h'')"
      using Cons.IH [OF _ _ u j(3)] Cons.prems(1) Cons by auto
    then show ?thesis
      using Cons get h y strchr_skip [OF k, of "dotted ks"] by auto
  qed
qed simp


section \<open>Every lookup returns\<close>

definition open_quote :: "byte list \<Rightarrow> bool" where
  "open_quote s \<longleftrightarrow> s \<noteq> [] \<and> last s = QUOTE"

definition within_str :: "byte list \<Rightarrow> byte list \<Rightarrow> bool" where
  "within_str t s \<longleftrightarrow> (\<exists>g. s = g @ t)"

lemma within_refl [simp]: "within_str s s" "within_str [] s"
  by (auto simp: within_str_def)

lemma within_trans: "within_str t u \<Longrightarrow> within_str u s \<Longrightarrow> within_str t s"
  by (auto simp: within_str_def)

lemma within_Cons: "within_str t s \<Longrightarrow> within_str t (c # s)"
  by (auto simp: within_str_def)

lemma within_drop: "within_str (drop n v) v"
  by (metis append_take_drop_id within_str_def)

lemma within_open: "within_str t s \<Longrightarrow> open_quote t \<Longrightarrow> open_quote s"
  by (auto simp: within_str_def open_quote_def)

lemma within_length: "within_str t s \<Longrightarrow> length t \<le> length s"
  by (auto simp: within_str_def)

lemma strchr_within: "strchr s c = Some t \<Longrightarrow> within_str t s"
  by (induction s) (auto split: if_splits intro: within_Cons)

lemma value_start_within:
  "value_start s = Some (type, v, pos) \<Longrightarrow>
   within_str v s \<and> length pos \<le> length v \<and> (type = JSSTRING \<longrightarrow> v = [] \<longrightarrow> open_quote s)"
proof (induction s)
  case (Cons c s)
  then show ?case
    by (auto split: if_splits intro: within_Cons simp: open_quote_def)
qed simp

lemma value_len_le:
  "length pos \<le> length v \<Longrightarrow> n \<le> length v \<Longrightarrow> value_len type v pos d l n \<le> length v \<and>
   (type = JSSTRING \<longrightarrow> n < length v \<longrightarrow> value_len type v pos d l n < length v)"
proof (induction pos arbitrary: d l n)
  case (Cons c cs)
  have o: "length v - length (c # cs) < length v" using Cons.prems by auto
  have IH: "value_len type v cs d l n \<le> length v" "type = JSSTRING \<Longrightarrow> n < length v \<Longrightarrow> value_len type v cs d l n < length v"
    if "n \<le> length v" for d l n
    using Cons that by auto
  note step = value_len.simps(2) Let_def is_true_at_def is_false_at_def is_null_at_def
  show ?case
  proof (cases type)
    case JSSTRING
    then show ?thesis using IH [OF Cons.prems(2)] IH [of "length v - length (c # cs)"] o
      by (auto simp: step)
  next
    case JSOBJECT
    then show ?thesis using IH(1) [OF Cons.prems(2)] o by (auto simp: step)
  next
    case JSARRAY
    then show ?thesis using IH(1) [OF Cons.prems(2)] o by (auto simp: step)
  next
    case JSNUMBER
    then show ?thesis using IH(1) [OF Cons.prems(2)] by (simp add: step)
  next
    case JSBOOLEAN
    then show ?thesis using IH(1) [OF Cons.prems(2)] by (simp add: step)
  next
    case JSNULL
    then show ?thesis using IH(1) [OF Cons.prems(2)] by (simp add: step)
  next
    case JSNONE
    then show ?thesis using IH(1) [OF Cons.prems(2)] o by (auto simp: step json_mark_def)
  qed
qed simp

lemma json_value_safe:
  assumes "\<not> open_quote p" "json_value name n (Some p) = (e, pos)"
  shows "pos \<noteq> Past" "pos = At t \<Longrightarrow> within_str t p" "je_val e = Some v \<Longrightarrow> within_str v p"
proof -
  have "pos \<noteq> Past \<and> (pos = At t \<longrightarrow> within_str t p) \<and> (je_val e = Some v \<longrightarrow> within_str v p)"
  proof (cases "value_start p")
    case None
    then show ?thesis using assms(2) by (auto simp: json_value_def)
  next
    case (Some x)
    obtain type w q where x: "x = (type, w, q)" by (cases x)
    let ?n = "value_len type w q 0 (if type = JSSTRING then QUOTE else SPACE) 0"
    have w: "within_str w p" "length q \<le> length w" "type = JSSTRING \<Longrightarrow> w \<noteq> []"
      using value_start_within [of p type w q] Some x assms(1) by auto
    have "(if type = JSSTRING then ?n + 1 else ?n) \<le> length w"
      using value_len_le [OF w(2), of 0 type 0 "if type = JSSTRING then QUOTE else SPACE"] w(3)
      by (auto simp: Suc_le_eq)
    then have "pos = At (drop (if type = JSSTRING then ?n + 1 else ?n) w)" "je_val e = Some w"
      using assms(2) Some x by (auto simp: json_value_def ptr_add_def Let_def)
    then show ?thesis using w(1) within_trans [OF within_drop w(1)] by auto
  qed
  then show "pos \<noteq> Past" "pos = At t \<Longrightarrow> within_str t p" "je_val e = Some v \<Longrightarrow> within_str v p" by auto
qed

lemma next_object_safe:
  assumes "\<not> open_quote s" "json_get_next_object JSOBJECT s = Some (e, pos)"
  shows "pos \<noteq> Past" "pos = At t \<Longrightarrow> within_str t s \<and> length t < length s" "je_val e = Some v \<Longrightarrow> within_str v s"
proof -
  obtain q r where q: "strchr s QUOTE = Some q" "strchr (tl q) QUOTE = Some r"
    and j: "json_value (tl q) (length (tl q) - length r) (strchr r COLON) = (e, pos)"
    using assms(2) by (auto simp: json_get_next_object_def Let_def bind_eq_Some_conv)
  have q': "within_str (tl q) s" using strchr_within [OF q(1)] within_drop [of 1 q] within_trans by (auto simp: drop_Suc)
  then have r: "within_str r s" using strchr_within [OF q(2)] within_trans by blast
  have "pos \<noteq> Past \<and> (pos = At t \<longrightarrow> within_str t s) \<and> (je_val e = Some v \<longrightarrow> within_str v s)"
  proof (cases "strchr r COLON")
    case None
    then show ?thesis using j by (auto simp: json_value_def)
  next
    case (Some p)
    then have p: "within_str p s" using strchr_within within_trans r by blast
    then have "\<not> open_quote p" using within_open assms(1) by blast
    from json_value_safe [OF this] j Some p show ?thesis using within_trans by metis
  qed
  then show "pos \<noteq> Past" "pos = At t \<Longrightarrow> within_str t s \<and> length t < length s" "je_val e = Some v \<Longrightarrow> within_str v s"
    using json_get_next_object_length assms(2) by blast+
qed

lemma for_each_total:
  assumes "\<not> open_quote s"
  shows "\<exists>ret' nv'. json_for_each JSOBJECT (name_value_body json_get_value_by_name_cb) (At s) (ret, nv) = Some (ret', nv') \<and>
    (pV nv' = pV nv \<or> (\<exists>v. pV nv' = Some v \<and> within_str v s))"
  using assms
proof (induction s arbitrary: ret nv rule: length_induct)
  case (1 s)
  show ?case
  proof (cases s)
    case (Cons c cs)
    show ?thesis
    proof (cases "json_get_next_object JSOBJECT s")
      case None
      then show ?thesis using Cons by auto
    next
      case (Some x)
      obtain e pos where x: "x = (e, pos)" by fastforce
      note safe = next_object_safe [OF 1(2) Some [unfolded x]]
      obtain b ret' nv' where body: "name_value_body json_get_value_by_name_cb e (ret, nv) = (b, ret', nv')"
        by (metis prod.collapse)
      have nv': "pV nv' = pV nv \<or> (\<exists>v. pV nv' = Some v \<and> within_str v s)"
        using body safe(3) by (auto simp: name_value_body_def json_get_value_by_name_cb_def split: if_splits)
      show ?thesis
      proof (cases pos)
        case (At t)
        note t = safe(2) [OF At]
        then have "\<not> open_quote t" using within_open 1(2) by blast
        with 1(1) t obtain r n where "json_for_each JSOBJECT (name_value_body json_get_value_by_name_cb) (At t) (ret', nv') = Some (r, n)"
          "pV n = pV nv' \<or> (\<exists>v. pV n = Some v \<and> within_str v t)" by blast
        then show ?thesis using Some x Cons At body nv' t within_trans by (cases b) fastforce+
      qed (use Some x Cons safe(1) in auto)
    qed
  qed auto
qed

lemma get_object_within: "json_get_object type s = At t \<Longrightarrow> within_str t s"
  by (induction type s rule: json_get_object.induct) (auto split: if_splits intro: within_Cons)

lemma get_object_not_Past: "json_get_object type s \<noteq> Past"
  by (induction type s rule: json_get_object.induct) auto

lemma get_value_total:
  assumes "\<not> open_quote s"
  shows "\<exists>v n. json_get_value_by_name s (length s) name False = Some ((v, n), s) \<and> (\<forall>w. v = Some w \<longrightarrow> within_str w s)"
proof (cases "s = []")
  case True
  then show ?thesis by (simp add: json_get_value_by_name_def json_parse_name_value_def)
next
  case False
  let ?nv = "\<lparr>nLen = length name, vLen = 0, vType = JSSTRING, pN = name, pV = None\<rparr>"
  have "\<exists>ret' nv'. json_for_each JSOBJECT (name_value_body json_get_value_by_name_cb) (json_get_object JSOBJECT s)
      (JSON_RESULT_ERR, ?nv) = Some (ret', nv') \<and> (\<forall>w. pV nv' = Some w \<longrightarrow> within_str w s)"
  proof (cases "json_get_object JSOBJECT s")
    case (At t)
    then have t: "within_str t s" by (rule get_object_within)
    then have "\<not> open_quote t" using within_open assms by blast
    from for_each_total [OF this, of JSON_RESULT_ERR ?nv] show ?thesis using At t within_trans by fastforce
  qed (use get_object_not_Past in auto)
  then show ?thesis using False by (fastforce simp: json_get_value_by_name_def json_parse_name_value_def Let_def)
qed

lemma value_of_total:
  assumes "\<forall>h. fst (A h)"
  shows "\<not> open_quote s \<Longrightarrow> \<exists>r. LITE_json_value_of A key s h = Some r"
proof (induction key arbitrary: s h rule: length_induct)
  case (1 key)
  obtain h' where h: "A h = (True, h')" using assms by (metis prod.collapse)
  show ?case
  proof (cases "strchr key DOT")
    case None
    obtain v n where "json_get_value_by_name s (length s) key False = Some ((v, n), s)"
      using get_value_total [OF 1(2)] by blast
    then show ?thesis using None h by (cases v) auto
  next
    case (Some d)
    let ?k = "take (length key - length d) key"
    obtain v n where v: "json_get_value_by_name s (length s) ?k False = Some ((v, n), s)" "\<forall>w. v = Some w \<longrightarrow> within_str w s"
      using get_value_total [OF 1(2)] by blast
    have "length (tl d) < length key" using strchr_Some [OF Some] by auto
    then have "\<exists>r. LITE_json_value_of A (tl d) w h' = Some r" if "v = Some w" for w
      using 1 v(2) that within_open by blast
    then show ?thesis using Some h v(1) by (cases v) auto
  qed
qed

section \<open>Properties\<close>

text \<open>C22. A lookup by a path of keys in a JSON text finds what the path leads to: for every JSON text (with any white space, and
  strings without quotes, escapes and brackets) and every path of keys that leads to a value, each key taken at its first member with a
  value that is not an empty string, \<open>LITE_json_value_of\<close> returns the text of that value, without the quotes if it is
  a string, provided the heap grants its requests.\<close>

theorem json_value_of_path:
  assumes "\<forall>h. fst (A h)" "\<forall>k \<in> set ks. DOT \<notin> set k" "ks \<noteq> []" "json_text j t" "json_path ks j = Some x"
  shows "\<exists>u h'. json_text x u \<and> LITE_json_value_of A (dotted ks) t h = Some (Some (value_text x u), h')"
  using value_of_path [OF assms, of "[]" h] by simp

lemma sample_text:
  "json_text (JObj [([112], JObj [([113], JStr [111, 107])])])
     [123, 34, 112, 34, 58, 32, 123, 34, 113, 34, 58, 34, 111, 107, 34, 125, 125]"
proof -
  have "json_members [([113], JStr [111, 107])] ([] @ QUOTE # [113] @ QUOTE # [] @ COLON # [] @ (QUOTE # [111, 107] @ [QUOTE]) @ [])"
    by (intro members_One str) (simp_all add: blank_def plain_def)
  from obj [OF this] have "json_members [([112], JObj [([113], JStr [111, 107])])]
     ([] @ QUOTE # [112] @ QUOTE # [] @ COLON # [32] @ [123, 34, 113, 34, 58, 34, 111, 107, 34, 125] @ [])"
    by (intro members_One) (simp_all add: blank_def plain_def)
  from obj [OF this] show ?thesis by simp
qed

theorem json_value_of_path_witness:
  "json_path [[112], [113]] (JObj [([112], JObj [([113], JStr [111, 107])])]) = Some (JStr [111, 107]) \<and>
   (\<exists>u h'. json_text (JStr [111, 107]) u \<and>
      LITE_json_value_of (\<lambda>h. (True, h)) (dotted [[112], [113]])
        [123, 34, 112, 34, 58, 32, 123, 34, 113, 34, 58, 34, 111, 107, 34, 125, 125] () =
        Some (Some (value_text (JStr [111, 107]) u), h'))"
proof -
  have p: "json_path [[112], [113]] (JObj [([112], JObj [([113], JStr [111, 107])])]) = Some (JStr [111, 107])" by simp
  show ?thesis using json_value_of_path [OF _ _ _ sample_text p, of "\<lambda>h. (True, h)" "()"] p by simp
qed

text \<open>C24. Every lookup returns: whatever the string and the key, \<open>LITE_json_value_of\<close> ends after finitely many steps without
  reading behind the terminating NUL, unless the last character of the string is a quote, provided the heap grants its
  requests.\<close>

theorem json_lookup_returns:
  assumes "\<forall>h. fst (A h)" "s = [] \<or> last s \<noteq> QUOTE"
  shows "\<exists>r. LITE_json_value_of A key s h = Some r"
  using value_of_total [OF assms(1)] assms(2) by (auto simp: open_quote_def)

theorem json_lookup_returns_witness:
  "\<exists>r. LITE_json_value_of (\<lambda>h. (True, h)) [97, 46, 98] [123, 34, 97, 34, 58, 123] () = Some r"
  by (rule json_lookup_returns) simp_all

text \<open>The exception is real: the text \<open>{"a":"\<close> makes the scanner return a pointer behind the NUL, which the loop reads.\<close>

theorem json_open_quote_overrun: "LITE_json_value_of (\<lambda>h. (True, h)) [98] [123, 34, 97, 34, 58, 34] () = None"
  by (simp add: json_get_value_by_name_def json_parse_name_value_def name_value_body_def json_get_next_object_def
    json_value_def ptr_add_def Let_def)

text \<open>A path that leads nowhere may still be found: the search for a member does not end with the object. In
  \<open>{"a":{"x":1},"b":2}\<close> the path \<open>a.b\<close> leads to \<open>2\<close>.\<close>

theorem json_path_leaves_object:
  "LITE_json_value_of (\<lambda>h. (True, h)) [97, 46, 98]
     [123, 34, 97, 34, 58, 123, 34, 120, 34, 58, 49, 125, 44, 34, 98, 34, 58, 50, 125] () = Some (Some [50], ())"
  by (simp add: json_get_value_by_name_def json_parse_name_value_def name_value_body_def json_get_value_by_name_cb_def
    json_get_next_object_def json_value_def ptr_add_def value_len.simps(2) is_digit_def strn_eq_def Let_def)

end
