(* ===== verification/Utils_Format.thy ===== *)
theory Utils_Format
  imports Utils_Json
begin

text \<open>
  Formatted text: what the services use of \<^verbatim>\<open>snprintf\<close> and \<^verbatim>\<open>sscanf\<close>, and the conversions \<^verbatim>\<open>LITE_get_*\<close> of
  \<^verbatim>\<open>sdk_src/utils/json_token.c\<close> on top of the latter.
\<close>

section \<open>Numbers as text\<close>

definition digit_char :: "nat \<Rightarrow> byte" where
  "digit_char d = of_nat (48 + d)"

fun dec :: "nat \<Rightarrow> byte list" where
  "dec n = (if n < 10 then [digit_char n] else dec (n div 10) @ [digit_char (n mod 10)])"

definition dec_int :: "int \<Rightarrow> byte list" where
  "dec_int n = (if n < 0 then MINUS # dec (nat (- n)) else dec (nat n))"

definition digit_val :: "byte \<Rightarrow> nat option" where
  "digit_val c =
     (if 48 \<le> c \<and> c \<le> 57 then Some (unat c - 48)
      else if 97 \<le> c \<and> c \<le> 102 then Some (unat c - 87)
      else if 65 \<le> c \<and> c \<le> 70 then Some (unat c - 55) else None)"

definition digit_of :: "nat \<Rightarrow> byte \<Rightarrow> nat option" where
  "digit_of base c = (case digit_val c of Some d \<Rightarrow> if d < base then Some d else None | None \<Rightarrow> None)"

fun scan_digits :: "nat \<Rightarrow> nat \<Rightarrow> byte list \<Rightarrow> nat" where
  "scan_digits base acc [] = acc"
| "scan_digits base acc (c # cs) =
     (case digit_of base c of Some d \<Rightarrow> scan_digits base (acc * base + d) cs | None \<Rightarrow> acc)"

definition scan_base :: "nat \<Rightarrow> byte list \<Rightarrow> nat option" where
  "scan_base base s = (if s \<noteq> [] \<and> digit_of base (hd s) \<noteq> None then Some (scan_digits base 0 s) else None)"

text \<open>\<open>detect\<close>: the conversion \<^verbatim>\<open>%i\<close>, which takes the base from a prefix; otherwise \<^verbatim>\<open>%u\<close>.\<close>

definition scan_nat :: "bool \<Rightarrow> byte list \<Rightarrow> nat option" where
  "scan_nat detect s =
     (if detect \<and> s \<noteq> [] \<and> hd s = 48
      then if tl s \<noteq> [] \<and> (hd (tl s) = 120 \<or> hd (tl s) = 88) then scan_base 16 (tl (tl s)) else scan_base 8 s
      else scan_base 10 s)"

definition is_space :: "byte \<Rightarrow> bool" where
  "is_space c \<longleftrightarrow> c = 32 \<or> 9 \<le> c \<and> c \<le> 13"

text \<open>\<^verbatim>\<open>sscanf\<close> with one integer conversion into an object with the range from \<open>lo\<close> to \<open>hi\<close>. Inside: \<^const>\<open>None\<close> when the input does
  not match. A number the object cannot hold is undefined behaviour.\<close>

definition sscanf_int :: "bool \<Rightarrow> int \<Rightarrow> int \<Rightarrow> byte list \<Rightarrow> int option option" where
  "sscanf_int detect lo hi s =
     (let s = dropWhile is_space s;
          n = (if s \<noteq> [] \<and> hd s = MINUS then map_option (\<lambda>n. - int n) (scan_nat detect (tl s))
               else if s \<noteq> [] \<and> hd s = 43 then map_option int (scan_nat detect (tl s))
               else map_option int (scan_nat detect s))
      in case n of None \<Rightarrow> Some None | Some n \<Rightarrow> if lo \<le> n \<and> n \<le> hi then Some (Some n) else None)"

section \<open>Conversions\<close>

text \<open>The return code and the number that has been stored, if any.\<close>

definition LITE_get_int :: "bool \<Rightarrow> int \<Rightarrow> int \<Rightarrow> byte list \<Rightarrow> (int \<times> int option) option" where
  "LITE_get_int detect lo hi src = do {
     r \<leftarrow> sscanf_int detect lo hi src;
     Some (case r of Some n \<Rightarrow> (QCLOUD_RET_SUCCESS, Some n) | None \<Rightarrow> (QCLOUD_ERR_FAILURE, None)) }"

definition LITE_get_int32 :: "byte list \<Rightarrow> (int \<times> int option) option" where
  "LITE_get_int32 = LITE_get_int True (- (2 ^ 31)) (2 ^ 31 - 1)"

definition LITE_get_int16 :: "byte list \<Rightarrow> (int \<times> int option) option" where
  "LITE_get_int16 = LITE_get_int True (- (2 ^ 15)) (2 ^ 15 - 1)"

definition LITE_get_int8 :: "byte list \<Rightarrow> (int \<times> int option) option" where
  "LITE_get_int8 = LITE_get_int True (- (2 ^ 7)) (2 ^ 7 - 1)"

definition LITE_get_uint32 :: "byte list \<Rightarrow> (int \<times> int option) option" where
  "LITE_get_uint32 = LITE_get_int False 0 (2 ^ 32 - 1)"

definition LITE_get_uint16 :: "byte list \<Rightarrow> (int \<times> int option) option" where
  "LITE_get_uint16 = LITE_get_int False 0 (2 ^ 16 - 1)"

definition LITE_get_uint8 :: "byte list \<Rightarrow> (int \<times> int option) option" where
  "LITE_get_uint8 = LITE_get_int False 0 (2 ^ 8 - 1)"

definition LITE_get_boolean :: "byte list \<Rightarrow> int \<times> bool" where
  "LITE_get_boolean src = (QCLOUD_RET_SUCCESS, src \<noteq> cstr ''false'')"

section \<open>Writing text into a buffer\<close>

text \<open>
  \<^verbatim>\<open>HAL_Snprintf\<close> of a text at an offset of a buffer: the size is passed on as an \<^verbatim>\<open>int\<close>, which \<^verbatim>\<open>vsnprintf\<close> takes as a \<open>size_t\<close>
  again. The result is the length of the whole text and the buffer.
\<close>

definition HAL_Snprintf :: "byte list \<Rightarrow> nat \<Rightarrow> size_t \<Rightarrow> byte list \<Rightarrow> (int \<times> byte list) option" where
  "HAL_Snprintf buf p len text =
     (let n = unat (scast (ucast len :: u32) :: size_t)
      in if n = 0 then Some (int (length text), buf)
         else do { b \<leftarrow> wr_bytes buf p (take (n - 1) text @ [0]); Some (int (length text), b) })"

definition strlen :: "byte list \<Rightarrow> nat option" where
  "strlen buf = (if 0 \<in> set buf then Some (length (takeWhile (\<lambda>c. c \<noteq> 0) buf)) else None)"

section \<open>Lemmas\<close>

declare dec.simps [simp del]

lemma length_cstr [simp]: "length (cstr s) = length s"
  by (simp add: cstr_def)

lemma unat_digit_char: "d < 10 \<Longrightarrow> unat (digit_char d) = 48 + d"
  using unat_of_nat_u8 [of "48 + d"] by (simp add: digit_char_def)

lemma digit_char_range: "d < 10 \<Longrightarrow> 48 \<le> digit_char d \<and> digit_char d \<le> 57"
  by (simp add: word_le_nat_alt unat_digit_char)

lemma dec_digits: "c \<in> set (dec n) \<Longrightarrow> 48 \<le> c \<and> c \<le> 57"
proof (induction n rule: dec.induct)
  case (1 n)
  then show ?case
    using digit_char_range [of n] digit_char_range [of "n mod 10"]
    by (subst (asm) (2) dec.simps) (auto split: if_splits)
qed

lemma dec_not_Nil [simp]: "dec n \<noteq> []"
  by (subst dec.simps) simp

lemma digit_of_char: "d < 10 \<Longrightarrow> 10 \<le> base \<Longrightarrow> digit_of base (digit_char d) = Some d"
  using digit_char_range [of d] by (simp add: digit_of_def digit_val_def unat_digit_char)

lemma scan_digits_append:
  assumes "\<forall>c \<in> set s. 48 \<le> c \<and> c \<le> 57"
  shows "scan_digits 10 acc (s @ t) = scan_digits 10 (scan_digits 10 acc s) t"
  using assms
proof (induction s arbitrary: acc)
  case (Cons c s)
  then have "unat c - 48 < 10" by (auto simp: word_le_nat_alt)
  with Cons show ?case by (auto simp: digit_of_def digit_val_def)
qed simp

lemma scan_dec: "scan_digits 10 0 (dec n) = n"
proof (induction n rule: dec.induct)
  case (1 n)
  show ?case
  proof (cases "n < 10")
    case True
    then show ?thesis by (subst dec.simps) (simp add: digit_of_char)
  next
    case False
    have "\<forall>c \<in> set (dec (n div 10)). 48 \<le> c \<and> c \<le> 57" using dec_digits by blast
    then show ?thesis using False 1
      by (subst dec.simps) (simp add: scan_digits_append digit_of_char)
  qed
qed

lemma hd_dec: "hd (dec n) = 48 \<longleftrightarrow> n = 0"
proof (induction n rule: dec.induct)
  case (1 n)
  show ?case
  proof (cases "n < 10")
    case True
    then have "digit_char n = 48 \<longleftrightarrow> n = 0"
      by (simp add: word_unat_eq_iff unat_digit_char)
    then show ?thesis using True by (subst dec.simps) simp
  next
    case False
    then show ?thesis using 1 by (subst dec.simps) (simp add: hd_append)
  qed
qed

lemma scan_nat_dec: "scan_nat detect (dec n) = Some n"
proof -
  have d: "digit_of 10 (hd (dec n)) \<noteq> None"
  proof -
    have "48 \<le> hd (dec n) \<and> hd (dec n) \<le> 57" using dec_digits dec_not_Nil by (metis list.set_sel(1))
    then show ?thesis by (auto simp: digit_of_def digit_val_def word_le_nat_alt)
  qed
  show ?thesis
  proof (cases "n = 0")
    case True
    then have "dec n = [48]" by (simp add: dec.simps digit_char_def)
    then show ?thesis using True
      by (simp add: scan_nat_def scan_base_def digit_of_def digit_val_def)
  next
    case False
    then show ?thesis using d by (simp add: scan_nat_def hd_dec scan_base_def scan_dec)
  qed
qed

lemma sscanf_dec_int: "lo \<le> n \<Longrightarrow> n \<le> hi \<Longrightarrow> sscanf_int detect lo hi (dec_int n) = Some (Some n)"
proof -
  assume r: "lo \<le> n" "n \<le> hi"
  have h: "48 \<le> hd (dec m) \<and> hd (dec m) \<le> 57" for m using dec_digits dec_not_Nil by (metis list.set_sel(1))
  have sp: "dropWhile is_space (dec_int n) = dec_int n"
  proof -
    have "\<not> is_space (hd (dec_int n))"
      using h [of "nat n"] by (auto simp: dec_int_def is_space_def word_le_nat_alt)
    then show ?thesis by (cases "dec_int n") (auto simp: dec_int_def)
  qed
  show ?thesis
  proof (cases "n < 0")
    case True
    then have "sscanf_int detect lo hi (dec_int n) = (case map_option (\<lambda>n. - int n) (scan_nat detect (dec (nat (- n)))) of
        None \<Rightarrow> Some None | Some n \<Rightarrow> if lo \<le> n \<and> n \<le> hi then Some (Some n) else None)"
      using sp by (simp add: sscanf_int_def dec_int_def Let_def)
    then show ?thesis using True r by (simp add: scan_nat_dec)
  next
    case False
    have "hd (dec (nat n)) \<noteq> MINUS" "hd (dec (nat n)) \<noteq> 43" using h [of "nat n"] by (auto simp: word_le_nat_alt)
    then show ?thesis using False r sp by (simp add: sscanf_int_def dec_int_def Let_def scan_nat_dec)
  qed
qed

end
