(* ===== verification/Shadow_Json.thy ===== *)
theory Shadow_Json
  imports Utils_Format Mqtt_Client
begin

text \<open>
  The documents of the device shadow: \<^verbatim>\<open>sdk_src/services/shadow/shadow_client_json.c\<close> and the builders
  \<^verbatim>\<open>IOT_Shadow_JSON_*\<close> of \<^verbatim>\<open>shadow_client.c\<close>.

  A document is built in a buffer of the application. \<open>sizeOfBuffer\<close> is a \<open>size_t\<close>, which wraps; a write outside the
  buffer is \<^const>\<open>None\<close>. The text of floating point numbers is a parameter: \<open>F\<close> prints and scans them.
\<close>

section \<open>Properties\<close>

datatype JsonDataType =
  JINT32 | JINT16 | JINT8 | JUINT32 | JUINT16 | JUINT8 | JFLOAT | JDOUBLE | JBOOL | JSTRING | JOBJECT

text \<open>What the data pointer of a property leads to.\<close>

datatype 'f prop_value = VInt int | VFloat 'f | VBool bool | VText "byte list"

record 'f DeviceProperty =
  prop_key :: "byte list option"
  prop_data :: "'f prop_value option"
  prop_type :: JsonDataType

record 'f float_text =
  print_float :: "'f \<Rightarrow> byte list"   \<comment> \<open>\<^verbatim>\<open>%f\<close>\<close>
  scan_float :: "byte list \<Rightarrow> 'f option"

section \<open>Writing a member\<close>

abbreviation QCLOUD_ERR_JSON_BUFFER_TRUNCATED :: int where "QCLOUD_ERR_JSON_BUFFER_TRUNCATED \<equiv> - 133"
abbreviation QCLOUD_ERR_JSON_BUFFER_TOO_SMALL :: int where "QCLOUD_ERR_JSON_BUFFER_TOO_SMALL \<equiv> - 134"
abbreviation QCLOUD_ERR_JSON :: int where "QCLOUD_ERR_JSON \<equiv> - 135"

text \<open>A negative return code becomes a large \<open>size_t\<close> in the comparison.\<close>

definition check_snprintf_return :: "int \<Rightarrow> size_t \<Rightarrow> int" where
  "check_snprintf_return returnCode maxSizeOfWrite =
     (if (of_int returnCode :: size_t) \<ge> maxSizeOfWrite then QCLOUD_ERR_JSON_BUFFER_TRUNCATED
      else if returnCode < 0 then QCLOUD_ERR_JSON else QCLOUD_RET_SUCCESS)"

text \<open>The value of a member with the comma behind it; \<^const>\<open>None\<close>: the data is not of the type the property names.\<close>

definition node_text :: "'f float_text \<Rightarrow> 'f prop_value option \<Rightarrow> JsonDataType \<Rightarrow> byte list option" where
  "node_text F pData type =
     (case pData of
        None \<Rightarrow> Some (cstr ''null,'')
      | Some (VInt n) \<Rightarrow>
          if type \<in> {JINT32, JINT16, JINT8, JUINT32, JUINT16, JUINT8} then Some (dec_int n @ [COMMA]) else None
      | Some (VFloat f) \<Rightarrow> if type \<in> {JDOUBLE, JFLOAT} then Some (print_float F f @ [COMMA]) else None
      | Some (VBool b) \<Rightarrow>
          if type = JBOOL then Some ((if b then cstr ''true'' else cstr ''false'') @ [COMMA]) else None
      | Some (VText s) \<Rightarrow>
          if type = JSTRING then Some (QUOTE # s @ [QUOTE, COMMA])
          else if type = JOBJECT then Some (s @ [COMMA]) else None)"

text \<open>One append with its guard: \<open>back\<close> is how far before the terminating NUL the text begins (0 or 1).\<close>

definition append_text :: "nat \<Rightarrow> byte list \<Rightarrow> byte list \<Rightarrow> size_t \<Rightarrow> (int \<times> byte list) option" where
  "append_text back text jsonBuffer sizeOfBuffer = do {
     n \<leftarrow> strlen jsonBuffer;
     let remain_size = sizeOfBuffer - of_nat n;
     if remain_size \<le> 1 then Some (QCLOUD_ERR_JSON_BUFFER_TOO_SMALL, jsonBuffer)
     else if n < back then None
     else do {
       (rc_of_snprintf, b) \<leftarrow> HAL_Snprintf jsonBuffer (n - back) remain_size text;
       Some (check_snprintf_return rc_of_snprintf remain_size, b) } }"

text \<open>A step of a builder: it goes on with the next one only after a success.\<close>

definition and_then :: "(int \<times> byte list) option \<Rightarrow> (byte list \<Rightarrow> (int \<times> byte list) option) \<Rightarrow> (int \<times> byte list) option" where
  "and_then r f = do { (rc, b) \<leftarrow> r; if rc \<noteq> QCLOUD_RET_SUCCESS then Some (rc, b) else f b }"

definition printed_key :: "byte list option \<Rightarrow> byte list" where
  "printed_key pKey = (case pKey of None \<Rightarrow> cstr ''null'' | Some k \<Rightarrow> k)"

definition put_json_node ::
  "'f float_text \<Rightarrow> byte list \<Rightarrow> size_t \<Rightarrow> byte list option \<Rightarrow> 'f prop_value option \<Rightarrow> JsonDataType \<Rightarrow> (int \<times> byte list) option" where
  "put_json_node F jsonBuffer sizeOfBuffer pKey pData type =
     and_then (append_text 0 (QUOTE # printed_key pKey @ [QUOTE, COLON]) jsonBuffer sizeOfBuffer) (\<lambda>jsonBuffer. do {
       text \<leftarrow> node_text F pData type;
       append_text 0 text jsonBuffer sizeOfBuffer })"

text \<open>\<^verbatim>\<open>event_put_json_node\<close> writes a truth value as a number.\<close>

definition event_put_json_node ::
  "'f float_text \<Rightarrow> byte list \<Rightarrow> size_t \<Rightarrow> byte list option \<Rightarrow> 'f prop_value option \<Rightarrow> JsonDataType \<Rightarrow> (int \<times> byte list) option" where
  "event_put_json_node F jsonBuffer sizeOfBuffer pKey pData type =
     and_then (append_text 0 (QUOTE # printed_key pKey @ [QUOTE, COLON]) jsonBuffer sizeOfBuffer) (\<lambda>jsonBuffer. do {
       text \<leftarrow> (case pData of
                 Some (VBool b) \<Rightarrow> if type = JBOOL then Some ((if b then [49] else [48]) @ [COMMA]) else None
               | _ \<Rightarrow> node_text F pData type);
       append_text 0 text jsonBuffer sizeOfBuffer })"

section \<open>Tokens\<close>

definition client_token_text :: "byte list \<Rightarrow> u32 \<Rightarrow> byte list" where
  "client_token_text product_id tokenNumber = product_id @ MINUS # dec (unat tokenNumber)"

text \<open>\<^verbatim>\<open>generate_client_token\<close> at an offset; the token number goes up in any case.\<close>

definition generate_client_token ::
  "byte list \<Rightarrow> nat \<Rightarrow> size_t \<Rightarrow> u32 \<Rightarrow> byte list \<Rightarrow> ((int \<times> byte list) \<times> u32) option" where
  "generate_client_token buf p sizeOfBuffer tokenNumber product_id = do {
     r \<leftarrow> HAL_Snprintf buf p sizeOfBuffer (client_token_text product_id tokenNumber);
     Some (r, tokenNumber + 1) }"

abbreviation MAX_SIZE_OF_CLIENT_TOKEN :: nat where "MAX_SIZE_OF_CLIENT_TOKEN \<equiv> 90"
abbreviation MAX_SIZE_OF_JSON_WITH_CLIENT_TOKEN :: nat where "MAX_SIZE_OF_JSON_WITH_CLIENT_TOKEN \<equiv> 110"

definition build_empty_json :: "u32 \<Rightarrow> byte list \<Rightarrow> byte list \<Rightarrow> (byte list \<times> u32) option" where
  "build_empty_json tokenNumber pJsonBuffer product_id = do {
     (rc, b) \<leftarrow> HAL_Snprintf pJsonBuffer 0 (of_nat MAX_SIZE_OF_JSON_WITH_CLIENT_TOKEN)
        (LBRACE # QUOTE # cstr ''clientToken'' @ [QUOTE, COLON, QUOTE] @ client_token_text product_id tokenNumber @ [QUOTE, RBRACE]);
     Some (b, tokenNumber + 1) }"

section \<open>Building a document\<close>

definition IOT_Shadow_JSON_Init :: "byte list option \<Rightarrow> size_t \<Rightarrow> bool \<Rightarrow> (int \<times> byte list option) option" where
  "IOT_Shadow_JSON_Init jsonBuffer sizeOfBuffer overwrite =
     (case jsonBuffer of
        None \<Rightarrow> Some (QCLOUD_ERR_INVAL, None)
      | Some b \<Rightarrow> do {
          (rc_of_snprintf, b) \<leftarrow> HAL_Snprintf b 0 sizeOfBuffer
             (if overwrite then cstr ''{'' @ QUOTE # cstr ''overwriteUpdate'' @ QUOTE # cstr '':true, '' @ QUOTE # cstr ''state'' @ QUOTE # cstr '':{''
              else cstr ''{'' @ QUOTE # cstr ''state'' @ QUOTE # cstr '':{'');
          Some (check_snprintf_return rc_of_snprintf sizeOfBuffer, Some b) })"

text \<open>The tail: the closing brace takes the place of the last comma, then comes the token.\<close>

definition IOT_Shadow_JSON_Finalize ::
  "byte list \<Rightarrow> u32 \<Rightarrow> byte list \<Rightarrow> size_t \<Rightarrow> ((int \<times> byte list) \<times> u32) option" where
  "IOT_Shadow_JSON_Finalize product_id token_num jsonBuffer sizeOfBuffer = do {
     (rc, b) \<leftarrow> append_text 1 (cstr ''}, '' @ QUOTE # cstr ''clientToken'' @ [QUOTE, COLON, QUOTE]) jsonBuffer sizeOfBuffer;
     if rc \<noteq> QCLOUD_RET_SUCCESS then Some ((rc, b), token_num)
     else do {
       n \<leftarrow> strlen b;
       let remain_size = sizeOfBuffer - of_nat n;
       if remain_size \<le> 1 then Some ((QCLOUD_ERR_JSON_BUFFER_TOO_SMALL, b), token_num)
       else do {
         ((r, b), token_num) \<leftarrow> generate_client_token b n remain_size token_num product_id;
         let rc = check_snprintf_return r remain_size;
         if rc \<noteq> QCLOUD_RET_SUCCESS then Some ((rc, b), token_num)
         else do {
           r \<leftarrow> append_text 0 [QUOTE, RBRACE] b sizeOfBuffer;
           Some (r, token_num) } } } }"

text \<open>
  The loop over the properties. It is called with the \<open>remain_size\<close> from before the loop in the place of the size of the
  buffer, so the space left is computed from a size that is too small, and wraps when it is smaller than the document.
  A missing property or key ends the loop with an error. The counter is an \<open>int8_t\<close>: there are at most 127 properties.
\<close>

fun put_nodes :: "'f float_text \<Rightarrow> 'f DeviceProperty option list \<Rightarrow> byte list \<Rightarrow> size_t \<Rightarrow> (int \<times> byte list) option" where
  "put_nodes F [] jsonBuffer remain_size = Some (QCLOUD_RET_SUCCESS, jsonBuffer)"
| "put_nodes F (n # ns) jsonBuffer remain_size =
     (case n of
        None \<Rightarrow> Some (QCLOUD_ERR_INVAL, jsonBuffer)
      | Some p \<Rightarrow>
          if prop_key p = None then Some (QCLOUD_ERR_INVAL, jsonBuffer)
          else and_then (put_json_node F jsonBuffer remain_size (prop_key p) (prop_data p) (prop_type p))
                 (\<lambda>jsonBuffer. put_nodes F ns jsonBuffer remain_size))"

text \<open>
  A section \<open>"reported":{...},\<close> or \<open>"desired":{...},\<close>. With more than 127 properties the counter wraps to a negative number
  and the loop goes on behind the last one: a fault unless an error has ended it.
\<close>

definition put_section ::
  "'f float_text \<Rightarrow> byte list \<Rightarrow> 'f DeviceProperty option list \<Rightarrow> byte list \<Rightarrow> size_t \<Rightarrow> (int \<times> byte list) option" where
  "put_section F name nodes jsonBuffer sizeOfBuffer = do {
     n \<leftarrow> strlen jsonBuffer;
     and_then (append_text 0 (QUOTE # name @ [QUOTE, COLON, LBRACE]) jsonBuffer sizeOfBuffer) (\<lambda>jsonBuffer.
       and_then (put_nodes F nodes jsonBuffer (sizeOfBuffer - of_nat n)) (\<lambda>jsonBuffer.
         if length nodes > 127 then None else append_text 1 [RBRACE, COMMA] jsonBuffer sizeOfBuffer)) }"

text \<open>The builders: \<open>body\<close> is what comes between the two ends.\<close>

definition construct ::
  "bool \<Rightarrow> (byte list \<Rightarrow> (int \<times> byte list) option) \<Rightarrow> byte list \<Rightarrow> u32 \<Rightarrow> byte list option \<Rightarrow> size_t \<Rightarrow>
   ((int \<times> byte list option) \<times> u32) option" where
  "construct overwrite body product_id token_num jsonBuffer sizeOfBuffer = do {
     (rc, b) \<leftarrow> IOT_Shadow_JSON_Init jsonBuffer sizeOfBuffer overwrite;
     if rc \<noteq> QCLOUD_RET_SUCCESS then Some ((rc, b), token_num)
     else do {
       jsonBuffer \<leftarrow> b;
       (rc, b) \<leftarrow> body jsonBuffer;
       if rc \<noteq> QCLOUD_RET_SUCCESS then Some ((rc, Some b), token_num)
       else do {
         ((rc, b), token_num) \<leftarrow> IOT_Shadow_JSON_Finalize product_id token_num b sizeOfBuffer;
         Some ((rc, Some b), token_num) } } }"

definition IOT_Shadow_JSON_ConstructReport where
  "IOT_Shadow_JSON_ConstructReport F product_id token_num jsonBuffer sizeOfBuffer nodes =
     construct False (\<lambda>b. put_section F (cstr ''reported'') nodes b sizeOfBuffer) product_id token_num jsonBuffer sizeOfBuffer"

definition IOT_Shadow_JSON_ConstructReportArray where
  "IOT_Shadow_JSON_ConstructReportArray F product_id token_num jsonBuffer sizeOfBuffer nodes =
     (case nodes of
        None \<Rightarrow> Some ((QCLOUD_ERR_INVAL, jsonBuffer), token_num)
      | Some nodes \<Rightarrow>
          construct False
            (\<lambda>b. and_then (put_section F (cstr ''reported'') (take 128 nodes) b sizeOfBuffer)
               (\<lambda>b. if length nodes > 127 then None else Some (QCLOUD_RET_SUCCESS, b)))
            product_id token_num jsonBuffer sizeOfBuffer)"

definition IOT_Shadow_JSON_Construct_OverwriteReport where
  "IOT_Shadow_JSON_Construct_OverwriteReport F product_id token_num jsonBuffer sizeOfBuffer nodes =
     construct True (\<lambda>b. put_section F (cstr ''reported'') nodes b sizeOfBuffer) product_id token_num jsonBuffer sizeOfBuffer"

text \<open>Here the text after the section is written with the size that was left before the section was closed.\<close>

definition IOT_Shadow_JSON_ConstructReportAndDesireAllNull where
  "IOT_Shadow_JSON_ConstructReportAndDesireAllNull F product_id token_num jsonBuffer sizeOfBuffer nodes =
     construct False
       (\<lambda>b. do {
          m \<leftarrow> strlen b;
          and_then (append_text 0 (QUOTE # cstr ''reported'' @ [QUOTE, COLON, LBRACE]) b sizeOfBuffer) (\<lambda>b.
            and_then (put_nodes F nodes b (sizeOfBuffer - of_nat m)) (\<lambda>b.
              if length nodes > 127 then None
              else do {
                n \<leftarrow> strlen b;
                and_then (append_text 1 [RBRACE, COMMA] b sizeOfBuffer) (\<lambda>b. do {
                  k \<leftarrow> strlen b;
                  let remain_size = sizeOfBuffer - of_nat n;
                  (r, b) \<leftarrow> HAL_Snprintf b k remain_size (QUOTE # cstr ''desired'' @ QUOTE # cstr '': null '');
                  Some (check_snprintf_return r remain_size, b) }) })) })
       product_id token_num jsonBuffer sizeOfBuffer"

definition IOT_Shadow_JSON_ConstructDesireAllNull where
  "IOT_Shadow_JSON_ConstructDesireAllNull product_id token_num jsonBuffer sizeOfBuffer =
     construct False (\<lambda>b. append_text 0 (QUOTE # cstr ''desired'' @ QUOTE # cstr '': null '') b sizeOfBuffer)
       product_id token_num jsonBuffer sizeOfBuffer"

definition IOT_Shadow_JSON_ConstructDesirePropNull where
  "IOT_Shadow_JSON_ConstructDesirePropNull F product_id token_num jsonBuffer sizeOfBuffer nodes =
     construct False (\<lambda>b. put_section F (cstr ''desired'') nodes b sizeOfBuffer) product_id token_num jsonBuffer sizeOfBuffer"

section \<open>Reading a document\<close>

definition parse_client_token where
  "parse_client_token A pJsonDoc = LITE_json_value_of A (cstr ''clientToken'') pJsonDoc"

definition parse_status_return where
  "parse_status_return A pJsonDoc = LITE_json_value_of A (cstr ''status'') pJsonDoc"

definition parse_shadow_operation_type where
  "parse_shadow_operation_type A pJsonDoc = LITE_json_value_of A (cstr ''type'') pJsonDoc"

definition parse_shadow_operation_delta where
  "parse_shadow_operation_delta A pJsonDoc = LITE_json_value_of A (cstr ''payload.state'') pJsonDoc"

definition parse_shadow_operation_get where
  "parse_shadow_operation_get A pJsonDoc = LITE_json_value_of A (cstr ''payload.state.delta'') pJsonDoc"

text \<open>As in the source, the state is looked up under the key of the version.\<close>

definition parse_shadow_state where
  "parse_shadow_state A pJsonDoc = LITE_json_value_of A (cstr ''payload.version'') pJsonDoc"

text \<open>The three functions that scan a number: \<^const>\<open>None\<close> inside when there is none.\<close>

definition parse_number ::
  "byte list \<Rightarrow> (byte list \<Rightarrow> int option option) \<Rightarrow> ('h \<Rightarrow> bool \<times> 'h) \<Rightarrow> byte list \<Rightarrow> 'h \<Rightarrow> (int option \<times> 'h) option" where
  "parse_number field scan A pJsonDoc h = do {
     (v, h) \<leftarrow> LITE_json_value_of A field pJsonDoc h;
     (case v of None \<Rightarrow> Some (None, h) | Some t \<Rightarrow> do { n \<leftarrow> scan t; Some (n, h) }) }"

definition parse_version_num where
  "parse_version_num = parse_number (cstr ''payload.version'') (sscanf_int False 0 (2 ^ 32 - 1))"

definition parse_code_return where
  "parse_code_return = parse_number (cstr ''code'') (sscanf_int True (- (2 ^ 31)) (2 ^ 31 - 1))"

definition parse_shadow_operation_result_code where
  "parse_shadow_operation_result_code = parse_number (cstr ''result'') (sscanf_int True (- (2 ^ 15)) (2 ^ 15 - 1))"

text \<open>\<^verbatim>\<open>_direct_update_value\<close>: a text that is not a number leaves the property as it is; texts and objects are not stored.
  Writing through a null data pointer is a fault.\<close>

definition store_int :: "(int \<times> int option) option \<Rightarrow> 'f DeviceProperty \<Rightarrow> (int \<times> 'f DeviceProperty) option" where
  "store_int r p = do {
     (rc, n) \<leftarrow> r;
     (case n of
        None \<Rightarrow> Some (rc, p)
      | Some n \<Rightarrow> if prop_data p = None then None else Some (rc, p\<lparr>prop_data := Some (VInt n)\<rparr>)) }"

definition direct_update_value :: "'f float_text \<Rightarrow> byte list \<Rightarrow> 'f DeviceProperty \<Rightarrow> (int \<times> 'f DeviceProperty) option" where
  "direct_update_value F v p =
     (case prop_type p of
        JBOOL \<Rightarrow> let (rc, b) = LITE_get_boolean v
                 in if prop_data p = None then None else Some (rc, p\<lparr>prop_data := Some (VBool b)\<rparr>)
      | JINT32 \<Rightarrow> store_int (LITE_get_int32 v) p
      | JINT16 \<Rightarrow> store_int (LITE_get_int16 v) p
      | JINT8 \<Rightarrow> store_int (LITE_get_int8 v) p
      | JUINT32 \<Rightarrow> store_int (LITE_get_uint32 v) p
      | JUINT16 \<Rightarrow> store_int (LITE_get_uint16 v) p
      | JUINT8 \<Rightarrow> store_int (LITE_get_uint8 v) p
      | JSTRING \<Rightarrow> Some (QCLOUD_RET_SUCCESS, p)
      | JOBJECT \<Rightarrow> Some (QCLOUD_RET_SUCCESS, p)
      | _ \<Rightarrow> (case scan_float F v of
               None \<Rightarrow> Some (QCLOUD_ERR_FAILURE, p)
             | Some f \<Rightarrow> if prop_data p = None then None else Some (QCLOUD_RET_SUCCESS, p\<lparr>prop_data := Some (VFloat f)\<rparr>)))"

definition update_value_if_key_match ::
  "'f float_text \<Rightarrow> ('h \<Rightarrow> bool \<times> 'h) \<Rightarrow> byte list \<Rightarrow> 'f DeviceProperty \<Rightarrow> 'h \<Rightarrow> ((bool \<times> 'f DeviceProperty) \<times> 'h) option" where
  "update_value_if_key_match F A pJsonDoc p h = do {
     key \<leftarrow> prop_key p;
     (property_data, h) \<leftarrow> LITE_json_value_of A key pJsonDoc h;
     (case property_data of
        None \<Rightarrow> Some ((False, p), h)
      | Some v \<Rightarrow>
          if strn_eq v (cstr ''null'') 4 \<or> strn_eq v (cstr ''NULL'') 4 then Some ((False, p), h)
          else do { (rc, p) \<leftarrow> direct_update_value F v p; Some ((True, p), h) }) }"

section \<open>Strings in buffers\<close>

definition holds :: "byte list \<Rightarrow> byte list \<Rightarrow> bool" where
  "holds buf t \<longleftrightarrow> 0 \<notin> set t \<and> (\<exists>r. buf = t @ 0 # r)"

lemma takeWhile_string: "0 \<notin> set t \<Longrightarrow> takeWhile (\<lambda>c. c \<noteq> 0) (t @ 0 # r) = t"
  for t :: "byte list"
  by (induction t) auto

lemma holds_strlen: "holds buf t \<Longrightarrow> strlen buf = Some (length t)"
  by (auto simp: holds_def strlen_def takeWhile_string)

lemma holds_length: "holds buf t \<Longrightarrow> length t < length buf"
  by (auto simp: holds_def)

lemma snprintf_size:
  assumes "unat (n :: size_t) < 2 ^ 31"
  shows "unat (scast (ucast n :: u32) :: size_t) = unat n"
proof -
  have n: "uint n < 2 ^ 31" using assms nat_less_iff [of "uint n" "2 ^ 31"] by simp
  then have u: "uint (ucast n :: u32) = uint n" by (subst unsigned_ucast_eq) (simp add: take_bit_int_eq_self)
  have "sint (ucast n :: u32) = uint n"
    unfolding sint_uint u
  proof (rule signed_take_bit_int_eq_self)
    show "- (2 ^ (LENGTH(32) - Suc 0)) \<le> uint n" by (rule order_trans [of _ 0]) simp_all
  qed (use n in simp)
  then show ?thesis by (simp add: scast_eq)
qed

lemma snprintf_holds:
  assumes "p \<le> length buf" "0 \<notin> set (take p buf)" "0 \<notin> set text"
    and "0 < unat n" "unat n < 2 ^ 31" "p + unat n \<le> length buf"
  shows "\<exists>b. HAL_Snprintf buf p n text = Some (int (length text), b) \<and> length b = length buf \<and>
    holds b (take p buf @ take (unat n - 1) text)"
proof -
  let ?x = "take (unat n - 1) text @ [0]"
  have fit: "p + length ?x \<le> length buf" using assms(4,6) by auto
  then obtain b where b: "wr_bytes buf p ?x = Some b" by (auto simp: wr_bytes_def)
  have "b = take p buf @ ?x @ drop (p + length ?x) buf" using b fit by (auto simp: wr_bytes_def)
  then have "holds b (take p buf @ take (unat n - 1) text)"
    using assms(2,3) by (auto simp: holds_def dest: in_set_takeD)
  then show ?thesis using b wr_bytes_length [OF b] assms(4) by (simp add: HAL_Snprintf_def snprintf_size [OF assms(5)])
qed

lemma unat_neg:
  assumes "0 < m" "m < 2 ^ 31"
  shows "unat (- of_nat m :: size_t) = 2 ^ 64 - m"
proof -
  have "take_bit 64 (- int m) = 2 ^ 64 - int m" using assms by (simp add: take_bit_eq_mod zmod_zminus1_eq_if)
  then have "unat (word_of_int (- int m) :: size_t) = 2 ^ 64 - m"
    using assms by (simp add: unsigned_of_int del: of_int_minus of_int_of_nat_eq)
  then show ?thesis by simp
qed

lemma neg_size:
  assumes "0 < m" "m < 2 ^ 31"
  shows "unat (scast (ucast (- of_nat m :: size_t) :: u32) :: size_t) = 2 ^ 64 - m"
proof -
  have wi: "(- of_nat m :: 'a::len word) = word_of_int (- int m)" by simp
  have u: "(ucast (- of_nat m :: size_t) :: u32) = word_of_int (- int m)"
    unfolding wi by (simp add: unsigned_of_int word_of_int_eq_iff take_bit_take_bit del: of_int_minus)
  have s: "sint (word_of_int (- int m) :: u32) = - int m"
    using assms by (simp add: signed_of_int signed_take_bit_int_eq_self del: of_int_minus)
  have "(scast (word_of_int (- int m) :: u32) :: size_t) = word_of_int (- int m)" unfolding scast_eq s ..
  then show ?thesis using unat_neg [OF assms] by (simp add: u del: of_int_minus) simp
qed

text \<open>\<open>writes n r c t\<close>: the step \<open>r\<close> stays inside a buffer of \<open>n\<close> bytes and leaves a string there; it succeeds if and only if \<open>c\<close>,
  and then the string is \<open>t\<close>.\<close>

definition writes :: "nat \<Rightarrow> (int \<times> byte list) option \<Rightarrow> bool \<Rightarrow> byte list \<Rightarrow> bool" where
  "writes n r c t \<longleftrightarrow> (\<exists>rc b t'. r = Some (rc, b) \<and> length b = n \<and> holds b t' \<and>
     (rc = QCLOUD_RET_SUCCESS \<longleftrightarrow> c) \<and> (rc = QCLOUD_RET_SUCCESS \<longrightarrow> t' = t))"

lemma writes_and_then:
  assumes "writes n r c t" "\<And>b. c \<Longrightarrow> length b = n \<Longrightarrow> holds b t \<Longrightarrow> writes n (f b) d u" "d \<Longrightarrow> c"
  shows "writes n (and_then r f) d u"
proof -
  obtain rc b t' where r: "r = Some (rc, b)" "length b = n" "holds b t'" "rc = QCLOUD_RET_SUCCESS \<longleftrightarrow> c"
    "rc = QCLOUD_RET_SUCCESS \<Longrightarrow> t' = t" using assms(1) by (auto simp: writes_def)
  show ?thesis
  proof (cases "rc = QCLOUD_RET_SUCCESS")
    case True
    then show ?thesis using r assms(2) [of b] by (simp add: and_then_def)
  next
    case False
    then show ?thesis using r assms(3) by (auto simp: and_then_def writes_def)
  qed
qed

lemma writes_cond: "writes n r c t \<Longrightarrow> c = d \<Longrightarrow> writes n r d t"
  by simp

text \<open>A guarded append: it succeeds when the text fits, and it never leaves the buffer when the guard does not wrap.\<close>

lemma unat_size_diff: "n \<le> unat sz \<Longrightarrow> unat (sz - of_nat n :: size_t) = unat sz - n"
  using unat_sub [of "of_nat n" sz] le_unat_uoi [of n sz] by (simp add: word_le_nat_alt)

lemma check_success:
  assumes "unat (remain :: size_t) < 2 ^ 31" "n < 2 ^ 31"
  shows "check_snprintf_return (int n) remain = QCLOUD_RET_SUCCESS \<longleftrightarrow> n < unat remain"
proof -
  have "unat (of_int (int n) :: size_t) = n" using assms(2) by (simp add: unat_of_nat)
  then show ?thesis using assms(1) by (auto simp: check_snprintf_return_def word_le_nat_alt not_le)
qed

lemma append_text_writes:
  assumes "holds buf t" "back \<le> length t" "0 \<notin> set text" "length text < 2 ^ 31" "text \<noteq> []"
    and "length t \<le> unat sz" "unat sz \<le> length buf" "unat sz < 2 ^ 31"
  shows "writes (length buf) (append_text back text buf sz) (length t + length text < unat sz) (take (length t - back) t @ text)"
proof -
  let ?r = "sz - of_nat (length t)"
  have r: "unat ?r = unat sz - length t" using assms(6) by (rule unat_size_diff)
  show ?thesis
  proof (cases "?r \<le> 1")
    case True
    then have "append_text back text buf sz = Some (QCLOUD_ERR_JSON_BUFFER_TOO_SMALL, buf)"
      using holds_strlen [OF assms(1)] by (simp add: append_text_def Let_def)
    moreover have "\<not> length t + length text < unat sz"
      using True r assms(5) by (auto simp: word_le_nat_alt neq_Nil_conv)
    ultimately show ?thesis using assms(1) by (auto simp: writes_def)
  next
    case False
    then have r1: "1 < unat ?r" by (simp add: word_le_nat_alt not_le)
    have tk: "take (length t - back) buf = take (length t - back) t" "0 \<notin> set (take (length t - back) t)"
      using assms(1) by (auto simp: holds_def dest: in_set_takeD)
    have "\<exists>b. HAL_Snprintf buf (length t - back) ?r text = Some (int (length text), b) \<and> length b = length buf \<and>
        holds b (take (length t - back) buf @ take (unat ?r - 1) text)"
      using assms r r1 tk holds_length [OF assms(1)] by (intro snprintf_holds) auto
    then obtain b where b: "HAL_Snprintf buf (length t - back) ?r text = Some (int (length text), b)"
      "length b = length buf" "holds b (take (length t - back) t @ take (unat ?r - 1) text)" using tk by auto
    have "append_text back text buf sz = Some (check_snprintf_return (int (length text)) ?r, b)"
      using holds_strlen [OF assms(1)] False b(1) assms(2) by (simp add: append_text_def Let_def)
    moreover have "check_snprintf_return (int (length text)) ?r = QCLOUD_RET_SUCCESS \<longleftrightarrow> length text < unat ?r"
      using assms(4,8) r by (intro check_success) auto
    ultimately show ?thesis using b r r1 by (auto simp: writes_def)
  qed
qed


section \<open>The text of a document\<close>

text \<open>The text of a member, and the properties a builder can write: NUL-free texts, data of the type they name.\<close>

definition node_bytes :: "'f float_text \<Rightarrow> 'f DeviceProperty \<Rightarrow> byte list" where
  "node_bytes F p = (QUOTE # the (prop_key p) @ [QUOTE, COLON]) @ the (node_text F (prop_data p) (prop_type p))"

definition writable :: "'f float_text \<Rightarrow> 'f DeviceProperty \<Rightarrow> bool" where
  "writable F p \<longleftrightarrow> prop_key p \<noteq> None \<and> node_text F (prop_data p) (prop_type p) \<noteq> None \<and>
     0 \<notin> set (node_bytes F p) \<and> length (node_bytes F p) < 2 ^ 31"

lemma node_text_comma: "node_text F d ty = Some text \<Longrightarrow> text \<noteq> [] \<and> last text = COMMA"
  by (auto simp: node_text_def cstr_def split: option.splits prop_value.splits if_splits)

lemma node_bytes_comma: "writable F p \<Longrightarrow> node_bytes F p \<noteq> [] \<and> last (node_bytes F p) = COMMA"
  using node_text_comma by (fastforce simp: writable_def node_bytes_def)

lemma put_json_node_writes:
  assumes "holds buf t" "writable F p" "length t \<le> unat sz" "unat sz \<le> length buf" "unat sz < 2 ^ 31"
  shows "writes (length buf) (put_json_node F buf sz (prop_key p) (prop_data p) (prop_type p))
    (length t + length (node_bytes F p) < unat sz) (t @ node_bytes F p)"
proof -
  from assms(2) obtain k x where k: "prop_key p = Some k" "node_text F (prop_data p) (prop_type p) = Some x"
    and z: "0 \<notin> set k" "0 \<notin> set x" and l: "length k + length x + 3 < 2 ^ 31"
    by (auto simp: writable_def node_bytes_def)
  let ?key = "QUOTE # k @ [QUOTE, COLON]"
  have x: "x \<noteq> []" using node_text_comma [OF k(2)] by simp
  have nb: "node_bytes F p = ?key @ x" using k by (simp add: node_bytes_def)
  have "writes (length buf) (append_text 0 ?key buf sz) (length t + length ?key < unat sz) (t @ ?key)"
    using append_text_writes [OF assms(1), of 0 ?key sz] z l assms by simp
  moreover have "writes (length buf) (append_text 0 x b sz) (length t + length (node_bytes F p) < unat sz) (t @ node_bytes F p)"
    if "length t + length ?key < unat sz" "length b = length buf" "holds b (t @ ?key)" for b
    using append_text_writes [OF that(3), of 0 x sz] z l assms x that by (simp add: nb add.assoc)
  ultimately have "writes (length buf) (and_then (append_text 0 ?key buf sz) (\<lambda>b. append_text 0 x b sz))
      (length t + length (node_bytes F p) < unat sz) (t @ node_bytes F p)"
    by (rule writes_and_then) (auto simp: nb)
  then show ?thesis by (simp add: put_json_node_def k printed_key_def)
qed

definition nodes_bytes :: "'f float_text \<Rightarrow> 'f DeviceProperty list \<Rightarrow> byte list" where
  "nodes_bytes F ps = concat (map (node_bytes F) ps)"

lemma put_nodes_writes:
  assumes "holds buf t" "\<forall>p \<in> set ps. writable F p" "length t \<le> unat sz" "unat sz \<le> length buf" "unat sz < 2 ^ 31"
  shows "writes (length buf) (put_nodes F (map Some ps) buf sz) (ps = [] \<or> length t + length (nodes_bytes F ps) < unat sz)
    (t @ nodes_bytes F ps)"
  using assms
proof (induction ps arbitrary: buf t)
  case Nil
  then show ?case by (auto simp: nodes_bytes_def writes_def)
next
  case (Cons p ps)
  have k: "prop_key p \<noteq> None" using Cons.prems(2) by (auto simp: writable_def)
  have "writes (length buf) (and_then (put_json_node F buf sz (prop_key p) (prop_data p) (prop_type p)) (\<lambda>b. put_nodes F (map Some ps) b sz))
      (length t + length (nodes_bytes F (p # ps)) < unat sz) (t @ nodes_bytes F (p # ps))"
  proof (rule writes_and_then [OF put_json_node_writes [OF Cons.prems(1) _ Cons.prems(3-5)]])
    fix b assume b: "length t + length (node_bytes F p) < unat sz" "length b = length buf" "holds b (t @ node_bytes F p)"
    have "writes (length b) (put_nodes F (map Some ps) b sz)
        (ps = [] \<or> length (t @ node_bytes F p) + length (nodes_bytes F ps) < unat sz) ((t @ node_bytes F p) @ nodes_bytes F ps)"
      using Cons.prems b by (intro Cons.IH) auto
    then show "writes (length buf) (put_nodes F (map Some ps) b sz)
        (length t + length (nodes_bytes F (p # ps)) < unat sz) (t @ nodes_bytes F (p # ps))"
      using b by (cases "ps = []") (simp_all add: nodes_bytes_def add.assoc)
  qed (use Cons.prems in \<open>auto simp: nodes_bytes_def\<close>)
  then show ?case using k by auto
qed

lemma nodes_bytes_comma:
  "\<forall>p \<in> set ps. writable F p \<Longrightarrow> ps \<noteq> [] \<Longrightarrow> nodes_bytes F ps \<noteq> [] \<and> last (nodes_bytes F ps) = COMMA"
proof (induction ps)
  case (Cons p ps)
  then show ?case using node_bytes_comma [of F p] by (cases ps) (auto simp: nodes_bytes_def)
qed simp

section \<open>Reports\<close>

definition report_text :: "'f float_text \<Rightarrow> byte list \<Rightarrow> u32 \<Rightarrow> 'f DeviceProperty list \<Rightarrow> byte list" where
  "report_text F product_id token_num ps =
     cstr ''{'' @ QUOTE # cstr ''state'' @ QUOTE # cstr '':{'' @ QUOTE # cstr ''reported'' @ [QUOTE, COLON, LBRACE] @
     butlast (nodes_bytes F ps) @ cstr ''}}, '' @ QUOTE # cstr ''clientToken'' @ [QUOTE, COLON, QUOTE] @
     client_token_text product_id token_num @ [QUOTE, RBRACE]"

lemma init_writes:
  assumes "10 < unat sz" "unat sz < 2 ^ 31" "unat sz \<le> length buf"
  shows "\<exists>b. IOT_Shadow_JSON_Init (Some buf) sz False = Some (QCLOUD_RET_SUCCESS, Some b) \<and> length b = length buf \<and>
    holds b (cstr ''{'' @ QUOTE # cstr ''state'' @ QUOTE # cstr '':{'')"
proof -
  let ?t = "cstr ''{'' @ QUOTE # cstr ''state'' @ QUOTE # cstr '':{''"
  have l: "length ?t = 10" "0 \<notin> set ?t" by (simp_all add: cstr_def)
  have "\<exists>b. HAL_Snprintf buf 0 sz ?t = Some (int (length ?t), b) \<and> length b = length buf \<and>
      holds b (take 0 buf @ take (unat sz - 1) ?t)"
    using assms l by (intro snprintf_holds) auto
  then obtain b where b: "HAL_Snprintf buf 0 sz ?t = Some (10, b)" "length b = length buf" "holds b (take (unat sz - 1) ?t)"
    using l by auto
  have "take (unat sz - 1) ?t = ?t" using assms(1) l(1) by (intro take_all) simp
  moreover have "check_snprintf_return 10 sz = QCLOUD_RET_SUCCESS" using check_success [of sz 10] assms by simp
  ultimately show ?thesis using b by (simp add: IOT_Shadow_JSON_Init_def)
qed

lemma section_writes:
  assumes "holds buf t" "\<forall>p \<in> set ps. writable F p" "ps \<noteq> []" "length ps \<le> 127" "0 \<notin> set name" "length name < 2 ^ 30"
    and "2 * length t + length name + 4 \<le> unat sz" "unat sz \<le> length buf" "unat sz < 2 ^ 31"
  shows "writes (length buf) (put_section F name (map Some ps) buf sz)
    (length t + (length t + length name + 4 + length (nodes_bytes F ps)) < unat sz \<and>
     length t + length name + 4 + length (nodes_bytes F ps) + 2 < unat sz)
    (t @ QUOTE # name @ [QUOTE, COLON, LBRACE] @ butlast (nodes_bytes F ps) @ [RBRACE, COMMA])"
proof -
  let ?h = "QUOTE # name @ [QUOTE, COLON, LBRACE]" and ?N = "nodes_bytes F ps" and ?z = "sz - of_nat (length t)"
  have z: "unat ?z = unat sz - length t" using assms(7) by (intro unat_size_diff) simp
  have N: "?N \<noteq> []" using nodes_bytes_comma [OF assms(2,3)] by blast
  have "writes (length buf) (append_text 0 ?h buf sz) (length t + length ?h < unat sz) (t @ ?h)"
    using append_text_writes [OF assms(1), of 0 ?h sz] assms by simp
  then have "writes (length buf) (and_then (append_text 0 ?h buf sz) (\<lambda>b. and_then (put_nodes F (map Some ps) b ?z)
       (\<lambda>b. append_text 1 [RBRACE, COMMA] b sz)))
     (length t + (length t + length name + 4 + length ?N) < unat sz \<and> length t + length name + 4 + length ?N + 2 < unat sz)
     (t @ ?h @ butlast ?N @ [RBRACE, COMMA])"
  proof (rule writes_and_then)
    fix b assume b: "length t + length ?h < unat sz" "length b = length buf" "holds b (t @ ?h)"
    have "writes (length b) (put_nodes F (map Some ps) b ?z) (ps = [] \<or> length (t @ ?h) + length ?N < unat ?z) ((t @ ?h) @ ?N)"
      using assms b z by (intro put_nodes_writes) auto
    then have w: "writes (length buf) (put_nodes F (map Some ps) b ?z)
        (length t + (length t + length name + 4 + length ?N) < unat sz) ((t @ ?h) @ ?N)"
      using assms(3,7) b(2) z by (auto elim!: writes_cond)
    show "writes (length buf) (and_then (put_nodes F (map Some ps) b ?z) (\<lambda>b. append_text 1 [RBRACE, COMMA] b sz))
       (length t + (length t + length name + 4 + length ?N) < unat sz \<and> length t + length name + 4 + length ?N + 2 < unat sz)
       (t @ ?h @ butlast ?N @ [RBRACE, COMMA])"
    proof (rule writes_and_then [OF w])
      fix b' assume b': "length t + (length t + length name + 4 + length ?N) < unat sz" "length b' = length buf"
        "holds b' ((t @ ?h) @ ?N)"
      let ?u = "(t @ ?h) @ ?N"
      have "writes (length b') (append_text 1 [RBRACE, COMMA] b' sz) (length ?u + length [RBRACE, COMMA] < unat sz)
          (take (length ?u - 1) ?u @ [RBRACE, COMMA])"
        using b' assms by (intro append_text_writes) auto
      moreover have "take (length ?u - 1) ?u = (t @ ?h) @ butlast ?N"
        using N butlast_conv_take [of ?u] by (simp add: butlast_append)
      ultimately show "writes (length buf) (append_text 1 [RBRACE, COMMA] b' sz)
         (length t + (length t + length name + 4 + length ?N) < unat sz \<and> length t + length name + 4 + length ?N + 2 < unat sz)
         (t @ ?h @ butlast ?N @ [RBRACE, COMMA])"
        using b'(1,2) by (auto elim!: writes_cond)
    qed simp
  qed simp
  then show ?thesis
    using holds_strlen [OF assms(1)] assms(4) by (simp add: put_section_def not_less)
qed

definition token_member :: "byte list" where
  "token_member = cstr ''}, '' @ QUOTE # cstr ''clientToken'' @ [QUOTE, COLON, QUOTE]"

lemma token_member_props: "length token_member = 18" "0 \<notin> set token_member" "token_member \<noteq> []"
  by (simp_all add: token_member_def cstr_def)

lemma dec_NUL: "0 \<notin> set (dec n)"
  using dec_digits [of 0 n] by auto

lemma finalize_exact:
  assumes "holds buf t" "t \<noteq> []" "0 \<notin> set pid" "length (client_token_text pid tok) < 2 ^ 30"
    and "length t \<le> unat sz" "unat sz \<le> length buf" "unat sz < 2 ^ 31"
  shows "\<exists>rc b tok'. IOT_Shadow_JSON_Finalize pid tok buf sz = Some ((rc, b), tok') \<and> length b = length buf \<and>
    (rc = QCLOUD_RET_SUCCESS \<longleftrightarrow> length t + 20 + length (client_token_text pid tok) \<le> unat sz) \<and>
    (rc = QCLOUD_RET_SUCCESS \<longrightarrow> tok' = tok + 1 \<and>
       holds b (butlast t @ token_member @ client_token_text pid tok @ [QUOTE, RBRACE]))"
proof -
  let ?tok = "client_token_text pid tok" and ?u = "butlast t @ token_member"
  have tok: "0 \<notin> set ?tok" using assms(3) dec_NUL by (auto simp: client_token_text_def)
  have tn: "?tok \<noteq> []" by (simp add: client_token_text_def)
  have lt: "0 < length t" using assms(2) by simp
  have "writes (length buf) (append_text 1 token_member buf sz) (length t + length token_member < unat sz)
      (take (length t - 1) t @ token_member)"
    using assms token_member_props lt by (intro append_text_writes) (auto simp: Suc_le_eq)
  then obtain rc1 b1 t1 where 1: "append_text 1 token_member buf sz = Some (rc1, b1)" "length b1 = length buf" "holds b1 t1"
    "rc1 = QCLOUD_RET_SUCCESS \<longleftrightarrow> length t + 18 < unat sz" "rc1 = QCLOUD_RET_SUCCESS \<Longrightarrow> t1 = ?u"
    by (auto simp: writes_def token_member_props butlast_conv_take)
  note fin = IOT_Shadow_JSON_Finalize_def [folded token_member_def, of pid tok buf sz]
  show ?thesis
  proof (cases "rc1 = QCLOUD_RET_SUCCESS")
    case False
    then have "\<not> length t + 20 + length ?tok \<le> unat sz" using 1(4) by simp
    then show ?thesis using 1 False by (auto simp: fin)
  next
    case True
    have t1: "t1 = ?u" "length t1 = length t + 17" using 1(5) True lt by (auto simp: token_member_props)
    have s18: "length t + 18 < unat sz" using 1(4) True by simp
    define r where "r = sz - of_nat (length t1)"
    have r: "unat r = unat sz - length t1" unfolding r_def using t1 s18 by (intro unat_size_diff) simp
    have n: "strlen b1 = Some (length t1)" using holds_strlen [OF 1(3)] .
    have r1: "\<not> r \<le> 1" using r t1(2) s18 by (simp add: word_le_nat_alt)
    have b1: "take (length t1) b1 = t1" "0 \<notin> set t1" "length t1 < length b1" using 1(3) by (auto simp: holds_def)
    have "\<exists>b. HAL_Snprintf b1 (length t1) r ?tok = Some (int (length ?tok), b) \<and> length b = length b1 \<and>
        holds b (take (length t1) b1 @ take (unat r - 1) ?tok)"
      using assms b1 r t1 s18 tok 1(2) by (intro snprintf_holds) auto
    then obtain b2 where 2: "HAL_Snprintf b1 (length t1) r ?tok = Some (int (length ?tok), b2)" "length b2 = length buf"
      "holds b2 (t1 @ take (unat r - 1) ?tok)" using b1 1(2) by auto
    have c: "check_snprintf_return (int (length ?tok)) r = QCLOUD_RET_SUCCESS \<longleftrightarrow> length ?tok < unat r"
      using assms(4,7) r by (intro check_success) auto
    have step: "IOT_Shadow_JSON_Finalize pid tok buf sz =
      (if check_snprintf_return (int (length ?tok)) r \<noteq> QCLOUD_RET_SUCCESS
       then Some ((check_snprintf_return (int (length ?tok)) r, b2), tok + 1)
       else do { x \<leftarrow> append_text 0 [QUOTE, RBRACE] b2 sz; Some (x, tok + 1) })"
      using 1(1) True n r1 2(1) by (simp add: fin generate_client_token_def Let_def flip: r_def)
    show ?thesis
    proof (cases "length ?tok < unat r")
      case False
      then have "\<not> length t + 20 + length ?tok \<le> unat sz" using r t1 by simp
      then show ?thesis using step c False 2(2) by auto
    next
      case fits: True
      then have tk: "take (unat r - 1) ?tok = ?tok" by simp
      have "writes (length b2) (append_text 0 [QUOTE, RBRACE] b2 sz) (length (t1 @ ?tok) + length [QUOTE, RBRACE] < unat sz)
          (take (length (t1 @ ?tok) - 0) (t1 @ ?tok) @ [QUOTE, RBRACE])"
        using assms 2 tk fits r t1 s18 by (intro append_text_writes) auto
      then obtain rc b t' where "append_text 0 [QUOTE, RBRACE] b2 sz = Some (rc, b)" "length b = length buf" "holds b t'"
        "rc = QCLOUD_RET_SUCCESS \<longleftrightarrow> length t + 17 + length ?tok + 2 < unat sz"
        "rc = QCLOUD_RET_SUCCESS \<longrightarrow> t' = t1 @ ?tok @ [QUOTE, RBRACE]"
        using 2(2) t1(2) by (auto simp: writes_def)
      then show ?thesis using step c fits t1(1) by (auto simp: less_eq_Suc_le)
    qed
  qed
qed


lemma report_text_length:
  assumes "\<forall>p \<in> set ps. writable F p" "ps \<noteq> []"
  shows "length (report_text F pid tok ps) = length (nodes_bytes F ps) + 42 + length (client_token_text pid tok)"
proof -
  have "0 < length (nodes_bytes F ps)" using nodes_bytes_comma [OF assms] by simp
  then show ?thesis by (simp add: report_text_def cstr_def)
qed

lemma report_exact:
  assumes ps: "\<forall>p \<in> set ps. writable F p" "ps \<noteq> []" "length ps \<le> 127"
    and pid: "0 \<notin> set pid" "length (client_token_text pid tok) < 2 ^ 30"
    and sz: "length buf = unat sz" "32 \<le> unat sz" "unat sz < 2 ^ 31"
  shows "\<exists>rc b tok'. IOT_Shadow_JSON_ConstructReport F pid tok (Some buf) sz (map Some ps) = Some ((rc, Some b), tok') \<and>
    length b = length buf \<and> (rc = QCLOUD_RET_SUCCESS \<longleftrightarrow> length (report_text F pid tok ps) < unat sz) \<and>
    (rc = QCLOUD_RET_SUCCESS \<longrightarrow> tok' = tok + 1 \<and> holds b (report_text F pid tok ps))"
proof -
  let ?t = "cstr ''{'' @ QUOTE # cstr ''state'' @ QUOTE # cstr '':{''" and ?N = "nodes_bytes F ps"
  let ?u = "?t @ QUOTE # cstr ''reported'' @ [QUOTE, COLON, LBRACE] @ butlast ?N @ [RBRACE, COMMA]"
  have lt: "length ?t = 10" "length (cstr ''reported'') = 8" "0 \<notin> set (cstr ''reported'')" by (simp_all add: cstr_def)
  have N: "0 < length ?N" using nodes_bytes_comma [OF ps(1,2)] by simp
  have lu: "length ?u = length ?N + 23" using N by (simp add: cstr_def)
  obtain b0 where b0: "IOT_Shadow_JSON_Init (Some buf) sz False = Some (QCLOUD_RET_SUCCESS, Some b0)"
    "length b0 = length buf" "holds b0 ?t" using init_writes [of sz buf] sz by auto
  have "writes (length b0) (put_section F (cstr ''reported'') (map Some ps) b0 sz)
     (length ?t + (length ?t + length (cstr ''reported'') + 4 + length ?N) < unat sz \<and>
      length ?t + length (cstr ''reported'') + 4 + length ?N + 2 < unat sz) ?u"
    using ps sz b0 lt by (intro section_writes) auto
  then have "writes (length b0) (put_section F (cstr ''reported'') (map Some ps) b0 sz) (32 + length ?N < unat sz) ?u"
    by (rule writes_cond) (auto simp: lt)
  then obtain rc1 b1 t1 where 1: "put_section F (cstr ''reported'') (map Some ps) b0 sz = Some (rc1, b1)"
    "length b1 = length buf" "holds b1 t1" "rc1 = QCLOUD_RET_SUCCESS \<longleftrightarrow> 32 + length ?N < unat sz"
    "rc1 = QCLOUD_RET_SUCCESS \<Longrightarrow> t1 = ?u"
    using b0(2) by (auto simp: writes_def)
  note con = IOT_Shadow_JSON_ConstructReport_def construct_def
  note len = report_text_length [OF ps(1,2), of pid tok]
  show ?thesis
  proof (cases "rc1 = QCLOUD_RET_SUCCESS")
    case False
    then show ?thesis using 1 b0(1) len by (simp add: con)
  next
    case True
    then have t1: "t1 = ?u" "32 + length ?N < unat sz" using 1(4,5) by blast+
    have "t1 \<noteq> []" "length t1 \<le> unat sz" using t1 lu by (simp_all add: cstr_def)
    with finalize_exact [OF 1(3) _ pid, of sz] 1(2) sz obtain rc b tok' where f:
      "IOT_Shadow_JSON_Finalize pid tok b1 sz = Some ((rc, b), tok')" "length b = length buf"
      "rc = QCLOUD_RET_SUCCESS \<longleftrightarrow> length t1 + 20 + length (client_token_text pid tok) \<le> unat sz"
      "rc = QCLOUD_RET_SUCCESS \<longrightarrow> tok' = tok + 1 \<and>
         holds b (butlast t1 @ token_member @ client_token_text pid tok @ [QUOTE, RBRACE])" by auto
    have "butlast t1 @ token_member @ client_token_text pid tok @ [QUOTE, RBRACE] = report_text F pid tok ps"
      by (simp add: t1(1) butlast_append report_text_def token_member_def cstr_def)
    moreover have "rc = QCLOUD_RET_SUCCESS \<longleftrightarrow> length (report_text F pid tok ps) < unat sz"
      unfolding f(3) len using t1(1) lu by simp arith
    ultimately show ?thesis using 1(1) b0(1) True f by (simp add: con)
  qed
qed

section \<open>Overwriting reports\<close>

lemma overwrite_overruns:
  assumes sz: "length buf = unat sz" "46 < unat sz" "unat sz < 80"
    and p: "prop_key p = Some k" "unat sz \<le> length k + 48" "0 \<notin> set k" "length k < 2 ^ 30"
  shows "IOT_Shadow_JSON_Construct_OverwriteReport F pid tok (Some buf) sz (Some p # ps) = None"
proof -
  let ?t = "cstr ''{'' @ QUOTE # cstr ''overwriteUpdate'' @ QUOTE # cstr '':true, '' @ QUOTE # cstr ''state'' @ QUOTE # cstr '':{''"
  let ?h = "QUOTE # cstr ''reported'' @ [QUOTE, COLON, LBRACE]" and ?x = "QUOTE # k @ [QUOTE, COLON]"
  have l: "length ?t = 34" "0 \<notin> set ?t" "length ?h = 12" "0 \<notin> set ?h" by (simp_all add: cstr_def)
  have "\<exists>b. HAL_Snprintf buf 0 sz ?t = Some (int (length ?t), b) \<and> length b = length buf \<and>
      holds b (take 0 buf @ take (unat sz - 1) ?t)"
    using sz l by (intro snprintf_holds) auto
  then obtain b where b: "HAL_Snprintf buf 0 sz ?t = Some (34, b)" "length b = length buf" "holds b ?t"
    using l(1) sz by auto
  have init: "IOT_Shadow_JSON_Init (Some buf) sz True = Some (QCLOUD_RET_SUCCESS, Some b)"
    using b check_success [of sz 34] sz by (simp add: IOT_Shadow_JSON_Init_def)
  have "writes (length b) (append_text 0 ?h b sz) (length ?t + length ?h < unat sz) (take (length ?t - 0) ?t @ ?h)"
    using b sz l by (intro append_text_writes) auto
  then obtain b1 where b1: "append_text 0 ?h b sz = Some (QCLOUD_RET_SUCCESS, b1)" "length b1 = length buf" "holds b1 (?t @ ?h)"
    using b(2) l sz by (auto simp: writes_def)
  have n1: "strlen b1 = Some 46" using holds_strlen [OF b1(3)] l by simp
  define m where "m = 80 - unat sz"
  have m: "0 < m" "m < 2 ^ 31" "sz - 34 - 46 = - of_nat m"
  proof -
    have "unat sz + m = 80" using sz by (simp add: m_def)
    then have "sz + of_nat m = 80" by (metis of_nat_add of_nat_numeral of_nat_unat ucast_id)
    then have "sz = 80 - of_nat m" by (simp add: eq_diff_eq)
    then show "sz - 34 - 46 = - of_nat m" by simp
  qed (use sz in \<open>auto simp: m_def\<close>)
  have "HAL_Snprintf b1 46 (sz - 34 - 46) ?x = None"
    unfolding m(3) HAL_Snprintf_def neg_size [OF m(1,2)] using p(2,4) sz b1(2) m(2) by (simp add: Let_def wr_bytes_def)
  moreover have "\<not> sz - 34 - 46 \<le> 1"
  proof -
    have "unat (- of_nat m :: size_t) = 2 ^ 64 - m" using m(1,2) by (rule unat_neg)
    then show ?thesis unfolding m(3) word_le_nat_alt using m(2) by simp
  qed
  ultimately have "append_text 0 ?x b1 (sz - 34) = None"
    using n1 by (simp add: append_text_def Let_def)
  then have "put_nodes F (Some p # ps) b1 (sz - 34) = None"
    by (simp add: p(1) put_json_node_def and_then_def printed_key_def)
  moreover have "strlen b = Some 34" using holds_strlen [OF b(3)] l(1) by simp
  ultimately have "put_section F (cstr ''reported'') (Some p # ps) b sz = None"
    using b1(1) by (simp add: put_section_def and_then_def del: put_nodes.simps)
  then show ?thesis using init by (simp add: IOT_Shadow_JSON_Construct_OverwriteReport_def construct_def)
qed


section \<open>Reading a report back\<close>

fun int_range :: "JsonDataType \<Rightarrow> (int \<times> int) option" where
  "int_range JINT32 = Some (- (2 ^ 31), 2 ^ 31 - 1)"
| "int_range JINT16 = Some (- (2 ^ 15), 2 ^ 15 - 1)"
| "int_range JINT8 = Some (- (2 ^ 7), 2 ^ 7 - 1)"
| "int_range JUINT32 = Some (0, 2 ^ 32 - 1)"
| "int_range JUINT16 = Some (0, 2 ^ 16 - 1)"
| "int_range JUINT8 = Some (0, 2 ^ 8 - 1)"
| "int_range _ = None"

text \<open>Properties that hold a number of their type or a truth value, with a key the JSON scanner can read.\<close>

definition reportable :: "'f DeviceProperty \<Rightarrow> bool" where
  "reportable p \<longleftrightarrow> (\<exists>k. prop_key p = Some k \<and> plain k \<and> k \<noteq> [] \<and> DOT \<notin> set k \<and> 0 \<notin> set k \<and> length k < 2 ^ 30) \<and>
     (\<exists>n lo hi. prop_data p = Some (VInt n) \<and> int_range (prop_type p) = Some (lo, hi) \<and> lo \<le> n \<and> n \<le> hi \<or>
        (\<exists>b. prop_data p = Some (VBool b) \<and> prop_type p = JBOOL))"

fun prop_json :: "'f prop_value option \<Rightarrow> json" where
  "prop_json (Some (VInt n)) = JNum (dec_int n)"
| "prop_json (Some (VBool b)) = JBool b"
| "prop_json _ = JNull"

definition json_of_text :: "json \<Rightarrow> byte list" where
  "json_of_text j = (case j of JNum n \<Rightarrow> n | JBool b \<Rightarrow> (if b then cstr ''true'' else cstr ''false'') | _ \<Rightarrow> cstr ''null'')"

lemma numeral_dec_int: "numeral_text (dec_int n)"
proof -
  have d: "\<forall>c \<in> set (dec m). is_digit c" for m using dec_digits by (auto simp: is_digit_def)
  obtain x xs where x: "dec (nat n) = x # xs" by (meson dec_not_Nil list.exhaust)
  show ?thesis using d [of "nat n"] d [of "nat (- n)"] x by (simp add: dec_int_def)
qed

lemma range_types: "int_range ty = Some r \<Longrightarrow> ty \<in> {JINT32, JINT16, JINT8, JUINT32, JUINT16, JUINT8}"
  by (cases ty) auto

lemma reportable_value:
  assumes "reportable p"
  shows "node_text F (prop_data p) (prop_type p) = Some (json_of_text (prop_json (prop_data p)) @ [COMMA])"
    and "json_text (prop_json (prop_data p)) (json_of_text (prop_json (prop_data p)))"
    and "direct_update_value F (json_of_text (prop_json (prop_data p))) (p\<lparr>prop_data := Some d\<rparr>) = Some (QCLOUD_RET_SUCCESS, p)"
proof -
  consider (int) n lo hi where "prop_data p = Some (VInt n)" "int_range (prop_type p) = Some (lo, hi)" "lo \<le> n" "n \<le> hi"
    | (bool) b where "prop_data p = Some (VBool b)" "prop_type p = JBOOL"
    using assms by (auto simp: reportable_def)
  then have "node_text F (prop_data p) (prop_type p) = Some (json_of_text (prop_json (prop_data p)) @ [COMMA]) \<and>
    json_text (prop_json (prop_data p)) (json_of_text (prop_json (prop_data p))) \<and>
    direct_update_value F (json_of_text (prop_json (prop_data p))) (p\<lparr>prop_data := Some d\<rparr>) = Some (QCLOUD_RET_SUCCESS, p)"
  proof cases
    case int
    have "sscanf_int detect lo hi (dec_int n) = Some (Some n)" for detect using int by (intro sscanf_dec_int)
    moreover have "p\<lparr>prop_data := Some (VInt n)\<rparr> = p" using int(1) by (cases p) simp
    ultimately have "direct_update_value F (dec_int n) (p\<lparr>prop_data := Some d\<rparr>) = Some (QCLOUD_RET_SUCCESS, p)"
      using int(2) by (cases "prop_type p") (auto simp: direct_update_value_def store_int_def LITE_get_int_def LITE_get_int32_def
        LITE_get_int16_def LITE_get_int8_def LITE_get_uint32_def LITE_get_uint16_def LITE_get_uint8_def)
    then show ?thesis
      using int range_types [OF int(2)] num [OF numeral_dec_int [of n]] by (simp add: node_text_def json_of_text_def)
  next
    case bool
    have "p\<lparr>prop_data := Some (VBool b)\<rparr> = p" using bool(1) by (cases p) simp
    then show ?thesis
      using bool json_text_json_members_json_elements.bool [of b]
      by (auto simp: node_text_def json_of_text_def direct_update_value_def LITE_get_boolean_def cstr_def)
  qed
  then show "node_text F (prop_data p) (prop_type p) = Some (json_of_text (prop_json (prop_data p)) @ [COMMA])"
    "json_text (prop_json (prop_data p)) (json_of_text (prop_json (prop_data p)))"
    "direct_update_value F (json_of_text (prop_json (prop_data p))) (p\<lparr>prop_data := Some d\<rparr>) = Some (QCLOUD_RET_SUCCESS, p)"
    by auto
qed

abbreviation report_members :: "'f DeviceProperty list \<Rightarrow> (byte list \<times> json) list" where
  "report_members ps \<equiv> map (\<lambda>p. (the (prop_key p), prop_json (prop_data p))) ps"

lemma reportable_bytes:
  assumes "reportable p"
  shows "node_bytes F p = QUOTE # the (prop_key p) @ QUOTE # COLON # json_of_text (prop_json (prop_data p)) @ [COMMA]"
  using reportable_value(1) [OF assms] by (simp add: node_bytes_def)

lemma report_members_text:
  "\<forall>p \<in> set ps. reportable p \<Longrightarrow> ps \<noteq> [] \<Longrightarrow> json_members (report_members ps) (butlast (nodes_bytes F ps))"
proof (induction ps)
  case (Cons p ps)
  let ?k = "the (prop_key p)" and ?j = "prop_json (prop_data p)"
  let ?t = "json_of_text ?j"
  have p: "reportable p" "plain ?k" using Cons.prems(1) by (auto simp: reportable_def)
  note t = reportable_value(2) [OF p(1)] and nb = reportable_bytes [OF p(1), of F]
  have bl: "blank []" by (simp add: blank_def)
  show ?case
  proof (cases "ps = []")
    case True
    then show ?thesis using members_One [OF bl p(2) bl bl t bl] by (simp add: nodes_bytes_def nb butlast_append)
  next
    case False
    have w: "nodes_bytes F ps \<noteq> []" using False Cons.prems(1) reportable_bytes [of "hd ps" F]
      by (cases ps) (auto simp: nodes_bytes_def)
    have "json_members (report_members ps) (butlast (nodes_bytes F ps))" using Cons False by simp
    from members_Cons [OF bl p(2) bl bl t bl this] False w show ?thesis
      by (auto simp: nodes_bytes_def nb butlast_append)
  qed
qed simp

definition report_json :: "byte list \<Rightarrow> u32 \<Rightarrow> 'f DeviceProperty list \<Rightarrow> json" where
  "report_json pid tok ps = JObj [(cstr ''state'', JObj [(cstr ''reported'', JObj (report_members ps))]),
     (cstr ''clientToken'', JStr (client_token_text pid tok))]"

lemma plain_token: "plain pid \<Longrightarrow> plain (client_token_text pid tok)"
  using dec_digits [of _ "unat tok"] by (fastforce simp: plain_def client_token_text_def)

lemma report_is_json:
  assumes "\<forall>p \<in> set ps. reportable p" "ps \<noteq> []" "plain pid"
  shows "json_text (report_json pid tok ps) (report_text F pid tok ps)"
proof -
  have bl: "blank []" "blank [SPACE]" by (simp_all add: blank_def)
  have pl: "plain (cstr ''state'')" "plain (cstr ''reported'')" "plain (cstr ''clientToken'')"
    by (simp_all add: plain_def cstr_def)
  let ?N = "butlast (nodes_bytes F ps)"
  have "json_members [(cstr ''reported'', JObj (report_members ps))]
     ([] @ QUOTE # cstr ''reported'' @ QUOTE # [] @ COLON # [] @ (LBRACE # ?N @ [RBRACE]) @ [])"
    by (intro members_One obj report_members_text assms bl pl)
  from obj [OF this] have s: "json_text (JObj [(cstr ''reported'', JObj (report_members ps))])
     (LBRACE # QUOTE # cstr ''reported'' @ [QUOTE, COLON, LBRACE] @ ?N @ [RBRACE, RBRACE])" by simp
  have "json_members [(cstr ''clientToken'', JStr (client_token_text pid tok))]
     ([SPACE] @ QUOTE # cstr ''clientToken'' @ QUOTE # [] @ COLON # [] @ (QUOTE # client_token_text pid tok @ [QUOTE]) @ [])"
    by (intro members_One str plain_token assms bl pl)
  from members_Cons [OF bl(1) pl(1) bl(1) bl(1) s bl(1) this]
  have "json_members [(cstr ''state'', JObj [(cstr ''reported'', JObj (report_members ps))]),
      (cstr ''clientToken'', JStr (client_token_text pid tok))]
     (QUOTE # cstr ''state'' @ QUOTE # COLON # (LBRACE # QUOTE # cstr ''reported'' @ [QUOTE, COLON, LBRACE] @ ?N @ [RBRACE, RBRACE]) @
      COMMA # SPACE # QUOTE # cstr ''clientToken'' @ QUOTE # COLON # QUOTE # client_token_text pid tok @ [QUOTE])" by simp
  from obj [OF this] show ?thesis by (simp add: report_json_def report_text_def cstr_def)
qed

lemma find_member:
  assumes "distinct (map prop_key ps)" "p \<in> set ps" "\<forall>p \<in> set ps. reportable p" "prop_key p = Some k"
  shows "json_find (report_members ps) k = Some (prop_json (prop_data p))"
  using assms
proof (induction ps)
  case (Cons q ps)
  have v: "prop_json (prop_data q) \<noteq> JStr []" by (cases "prop_data q" rule: prop_json.cases) auto
  show ?case
  proof (cases "q = p")
    case True
    then show ?thesis using Cons.prems v by (auto simp: reportable_def)
  next
    case False
    then have "p \<in> set ps" "prop_key q \<noteq> Some k" "prop_key q \<noteq> None"
      using Cons.prems by (auto simp: reportable_def image_iff)
    then show ?thesis using Cons by auto
  qed
qed simp

lemma reported_value:
  assumes "\<forall>h. fst (A h)" "\<forall>p \<in> set ps. reportable p" "distinct (map prop_key ps)" "plain pid" "p \<in> set ps" "prop_key p = Some k"
  shows "\<exists>v h'. LITE_json_value_of A (dotted [cstr ''state'', cstr ''reported'', k]) (report_text F pid tok ps) h = Some (Some v, h') \<and>
    direct_update_value F v (p\<lparr>prop_data := Some d\<rparr>) = Some (QCLOUD_RET_SUCCESS, p)"
proof -
  have ne: "ps \<noteq> []" and p: "reportable p" using assms(2,5) by auto
  have k: "DOT \<notin> set k" using p assms(6) by (auto simp: reportable_def)
  have "json_path [cstr ''state'', cstr ''reported'', k] (report_json pid tok ps) = Some (prop_json (prop_data p))"
    using find_member [OF assms(3,5,2,6)] by (simp add: report_json_def cstr_def)
  from value_of_path [OF assms(1) _ _ report_is_json [OF assms(2) ne assms(4)] this, of F "[]" h] k
  obtain u h' where u: "json_text (prop_json (prop_data p)) u"
    "LITE_json_value_of A (dotted [cstr ''state'', cstr ''reported'', k]) (report_text F pid tok ps) h =
      Some (Some (value_text (prop_json (prop_data p)) u), h')" by (auto simp: cstr_def)
  have "value_text (prop_json (prop_data p)) u = json_of_text (prop_json (prop_data p))"
    using u(1) by (cases "prop_data p" rule: prop_json.cases) (auto simp: json_of_text_def elim: json_text.cases)
  then show ?thesis using u(2) reportable_value(3) [OF p] by auto
qed

lemma dec_length: "n < 10 ^ Suc k \<Longrightarrow> length (dec n) \<le> Suc k"
proof (induction k arbitrary: n)
  case 0
  then show ?case by (simp add: dec.simps)
next
  case (Suc k)
  have "n div 10 < 10 ^ Suc k" using Suc.prems by (simp add: less_mult_imp_div_less)
  then show ?case using Suc.IH by (subst dec.simps) simp
qed

lemma range_bounds: "int_range ty = Some (lo, hi) \<Longrightarrow> - (2 ^ 31) \<le> lo \<and> hi \<le> 2 ^ 32 - 1"
  by (cases ty) auto

lemma reportable_writable:
  assumes "reportable p"
  shows "writable F p"
proof -
  obtain k where k: "prop_key p = Some k" "0 \<notin> set k" "length k < 2 ^ 30" using assms by (auto simp: reportable_def)
  have v: "0 \<notin> set (json_of_text (prop_json (prop_data p)))" "length (json_of_text (prop_json (prop_data p))) \<le> 11"
  proof -
    consider (int) n lo hi where "prop_data p = Some (VInt n)" "int_range (prop_type p) = Some (lo, hi)" "lo \<le> n" "n \<le> hi"
      | (bool) b where "prop_data p = Some (VBool b)"
      using assms by (auto simp: reportable_def)
    then have "0 \<notin> set (json_of_text (prop_json (prop_data p))) \<and> length (json_of_text (prop_json (prop_data p))) \<le> 11"
    proof cases
      case int
      then have "nat n < 10 ^ Suc 9" "nat (- n) < 10 ^ Suc 9" using range_bounds [OF int(2)] by auto
      then show ?thesis using int(1) dec_length [of "nat n" 9] dec_length [of "nat (- n)" 9] dec_NUL
        by (auto simp: json_of_text_def dec_int_def)
    qed (simp add: json_of_text_def cstr_def)
    then show "0 \<notin> set (json_of_text (prop_json (prop_data p)))" "length (json_of_text (prop_json (prop_data p))) \<le> 11" by auto
  qed
  then show ?thesis
    using k reportable_bytes [OF assms, of F] reportable_value(1) [OF assms, of F] by (auto simp: writable_def)
qed

section \<open>Theorems\<close>

text \<open>Building a report is exact. For a buffer of at least 32 bytes and one to 127 properties, \<open>IOT_Shadow_JSON_ConstructReport\<close>
  stays inside the buffer; it succeeds if and only if the document with its terminating NUL fits, and the buffer then holds exactly
  \<open>{"state":{"reported":{"key":value,...}}, "clientToken":"product-number"}\<close>, and the token number has gone up.\<close>

theorem shadow_report_exact:
  assumes "\<forall>p \<in> set ps. writable F p" "ps \<noteq> []" "length ps \<le> 127"
    and "0 \<notin> set pid" "length (client_token_text pid tok) < 2 ^ 30"
    and "length buf = unat sz" "32 \<le> unat sz" "unat sz < 2 ^ 31"
  shows "\<exists>rc b tok'. IOT_Shadow_JSON_ConstructReport F pid tok (Some buf) sz (map Some ps) = Some ((rc, Some b), tok') \<and>
    length b = length buf \<and> (rc = QCLOUD_RET_SUCCESS \<longleftrightarrow> length (report_text F pid tok ps) < unat sz) \<and>
    (rc = QCLOUD_RET_SUCCESS \<longrightarrow> tok' = tok + 1 \<and> holds b (report_text F pid tok ps))"
  using assms by (rule report_exact)

definition no_floats :: "unit float_text" where
  "no_floats = \<lparr>print_float = (\<lambda>_. []), scan_float = (\<lambda>_. None)\<rparr>"

definition temperature :: "unit DeviceProperty" where
  "temperature = \<lparr>prop_key = Some [84], prop_data = Some (VInt 25), prop_type = JINT16\<rparr>"

lemma temperature_reportable: "reportable temperature"
  by (auto simp: reportable_def temperature_def plain_def)

theorem shadow_report_exact_witness:
  "\<exists>rc b tok'. IOT_Shadow_JSON_ConstructReport no_floats [80] 7 (Some (replicate 100 0)) 100 (map Some [temperature]) =
      Some ((rc, Some b), tok') \<and> length b = length (replicate 100 (0 :: byte)) \<and>
    (rc = QCLOUD_RET_SUCCESS \<longleftrightarrow> length (report_text no_floats [80] 7 [temperature]) < unat (100 :: size_t)) \<and>
    (rc = QCLOUD_RET_SUCCESS \<longrightarrow> tok' = 7 + 1 \<and> holds b (report_text no_floats [80] 7 [temperature]))"
  by (rule shadow_report_exact)
     (simp_all add: reportable_writable [OF temperature_reportable] client_token_text_def dec.simps)

text \<open>C21. A report of integers and truth values can be read back. All properties of the report are \<open>reportable\<close>: of an integer type with
  a number of its range, or of type \<^verbatim>\<open>JBOOL\<close>, and with a key that is not empty, contains no dot, NUL, quote, backslash, brace or bracket, and is used
  once. Then a document that \<open>IOT_Shadow_JSON_ConstructReport\<close> has built has each of them under \<open>state.reported\<close>: \<open>LITE_json_value_of\<close> finds a
  text there from which \<open>_direct_update_value\<close> restores the property, whatever its data was before. Strings and objects are outside this:
  \<open>_direct_update_value\<close> stores nothing for them. So are floating-point numbers, whose text is the C library's.\<close>

theorem shadow_report_round_trip:
  assumes "IOT_Shadow_JSON_ConstructReport F pid tok (Some buf) sz (map Some ps) = Some ((QCLOUD_RET_SUCCESS, Some b), tok')"
    and "\<forall>p \<in> set ps. reportable p" "ps \<noteq> []" "length ps \<le> 127" "distinct (map prop_key ps)"
    and "plain pid" "0 \<notin> set pid" "length (client_token_text pid tok) < 2 ^ 30"
    and "length buf = unat sz" "32 \<le> unat sz" "unat sz < 2 ^ 31"
    and "p \<in> set ps" "prop_key p = Some k" "\<forall>h. fst (A h)"
  shows "\<exists>doc v h'. holds b doc \<and>
    LITE_json_value_of A (dotted [cstr ''state'', cstr ''reported'', k]) doc h = Some (Some v, h') \<and>
    direct_update_value F v (p\<lparr>prop_data := Some d\<rparr>) = Some (QCLOUD_RET_SUCCESS, p)"
proof -
  have "\<forall>p \<in> set ps. writable F p" using assms(2) reportable_writable by blast
  from report_exact [OF this assms(3,4,7-11)] assms(1) have "holds b (report_text F pid tok ps)" by auto
  then show ?thesis using reported_value [OF assms(14,2,5,6,12,13), of F tok h d] by blast
qed

theorem shadow_report_round_trip_witness:
  "\<exists>b tok' doc v h'.
     IOT_Shadow_JSON_ConstructReport no_floats [80] 7 (Some (replicate 100 0)) 100 (map Some [temperature]) =
       Some ((QCLOUD_RET_SUCCESS, Some b), tok') \<and> holds b doc \<and>
     LITE_json_value_of (\<lambda>h. (True, h)) (dotted [cstr ''state'', cstr ''reported'', [84]]) doc () = Some (Some v, h') \<and>
     direct_update_value no_floats v (temperature\<lparr>prop_data := Some (VInt 0)\<rparr>) = Some (QCLOUD_RET_SUCCESS, temperature)"
proof -
  have w: "\<forall>p \<in> set [temperature]. writable no_floats p" using reportable_writable [OF temperature_reportable] by simp
  have l: "length (report_text no_floats [80] 7 [temperature]) < 100"
    using report_text_length [OF w, of "[80]" 7] reportable_bytes [OF temperature_reportable, of no_floats]
    by (simp add: client_token_text_def dec.simps nodes_bytes_def json_of_text_def temperature_def dec_int_def)
  have "\<exists>b tok'. IOT_Shadow_JSON_ConstructReport no_floats [80] 7 (Some (replicate 100 0)) 100 (map Some [temperature]) =
      Some ((QCLOUD_RET_SUCCESS, Some b), tok')"
    using report_exact [OF w, of "[80]" 7 "replicate 100 0" 100] l by (auto simp: client_token_text_def dec.simps)
  then obtain b tok' where c: "IOT_Shadow_JSON_ConstructReport no_floats [80] 7 (Some (replicate 100 0)) 100 (map Some [temperature]) =
      Some ((QCLOUD_RET_SUCCESS, Some b), tok')" by blast
  have "\<exists>doc v h'. holds b doc \<and>
      LITE_json_value_of (\<lambda>h. (True, h)) (dotted [cstr ''state'', cstr ''reported'', [84]]) doc () = Some (Some v, h') \<and>
      direct_update_value no_floats v (temperature\<lparr>prop_data := Some (VInt 0)\<rparr>) = Some (QCLOUD_RET_SUCCESS, temperature)"
    by (rule shadow_report_round_trip [OF c])
       (simp_all add: temperature_reportable plain_def client_token_text_def dec.simps, simp add: temperature_def)
  then show ?thesis using c by blast
qed

text \<open>C27. An overwriting report overruns small buffers. When the size of the buffer is from 47 to 79, \<open>put_json_node\<close> gets a size
  smaller than what is already in the buffer, the space left wraps around, and the first key is written without a bound: if it does not
  fit, \<open>IOT_Shadow_JSON_Construct_OverwriteReport\<close> writes behind the end of the buffer.\<close>

theorem overwrite_report_overruns:
  assumes "length buf = unat sz" "46 < unat sz" "unat sz < 80"
    and "prop_key p = Some k" "unat sz \<le> length k + 48" "0 \<notin> set k" "length k < 2 ^ 30"
  shows "IOT_Shadow_JSON_Construct_OverwriteReport F pid tok (Some buf) sz (Some p # ps) = None"
  using assms by (rule overwrite_overruns)

theorem overwrite_report_overruns_witness:
  "IOT_Shadow_JSON_Construct_OverwriteReport no_floats [80] 7 (Some (replicate 64 0)) 64
     [Some (temperature\<lparr>prop_key := Some (replicate 16 97)\<rparr>)] = None"
  by (rule overwrite_report_overruns [where k = "replicate 16 97"]) simp_all

end
