(* ===== verification/Shadow_Client.thy ===== *)
theory Shadow_Client
  imports Shadow_Json
begin

text \<open>
  The device shadow: \<^verbatim>\<open>sdk_src/services/shadow/shadow_client_manager.c\<close>, \<^verbatim>\<open>shadow_client_common.c\<close> and the operations of
  \<^verbatim>\<open>shadow_client.c\<close>, on top of the MQTT client.

  The state is the shadow structure with the MQTT client it owns, the property objects of the application (by address), and
  the callbacks made so far. The MQTT client calls the shadow's handlers in the middle of a call; they touch only the shadow structure and
  the heap, so they are run after the call, in the order of the events it has recorded. Callbacks of the application do not call the shadow.
\<close>

section \<open>State\<close>

datatype eShadowType = eSHADOW | eTEMPLATE
datatype Method = GET | UPDATE
datatype RequestAck = ACK_NONE | ACK_TIMEOUT | ACK_REJECTED | ACK_ACCEPTED

text \<open>The callback of a request is a function of the application or \<^verbatim>\<open>_update_ack_cb\<close>, which stores the result for a synchronous
  call.\<close>

datatype request_callback = User_callback nat | update_ack_cb

record Request =
  client_token :: "byte list"
  req_method :: Method
  user_context :: nat
  req_timer :: Timer
  req_callback :: "request_callback option"

record PropertyHandler =
  ph_addr :: nat
  ph_property :: nat
  ph_callback :: "nat option"

datatype shadow_event =
  Request_done nat Method RequestAck "byte list" nat
| Property_changed nat "byte list" nat
| Shadow_event MQTTEventType event_msg
| Other_event event

record ('w, 'f) shadow =
  mq :: "'w mqtt"
  device_info :: DeviceInfo
  shadow_type :: eShadowType
  user_event_handle :: bool
  token_num :: u32
  sync_status :: int
  request_list :: "Request list"
  property_handle_list :: "PropertyHandler list"
  result_topic :: "byte list option"
  shadow_recv_buf :: "byte list"
  props :: "nat \<Rightarrow> 'f DeviceProperty option"
  ack_update :: RequestAck
  calls :: "shadow_event list"

abbreviation MAX_APPENDING_REQUEST_AT_ANY_GIVEN_TIME :: nat where "MAX_APPENDING_REQUEST_AT_ANY_GIVEN_TIME \<equiv> 10"
abbreviation CLOUD_IOT_JSON_RX_BUF_LEN :: nat where "CLOUD_IOT_JSON_RX_BUF_LEN \<equiv> 2049"
abbreviation QCLOUD_ERR_MAX_APPENDING_REQUEST :: int where "QCLOUD_ERR_MAX_APPENDING_REQUEST \<equiv> - 137"
abbreviation QCLOUD_ERR_SHADOW_PROPERTY_EXIST :: int where "QCLOUD_ERR_SHADOW_PROPERTY_EXIST \<equiv> - 201"
abbreviation QCLOUD_ERR_SHADOW_NOT_PROPERTY_EXIST :: int where "QCLOUD_ERR_SHADOW_NOT_PROPERTY_EXIST \<equiv> - 202"
abbreviation QCLOUD_ERR_SHADOW_UPDATE_TIMEOUT :: int where "QCLOUD_ERR_SHADOW_UPDATE_TIMEOUT \<equiv> - 203"
abbreviation QCLOUD_ERR_SHADOW_UPDATE_REJECTED :: int where "QCLOUD_ERR_SHADOW_UPDATE_REJECTED \<equiv> - 204"
abbreviation QCLOUD_ERR_SHADOW_GET_TIMEOUT :: int where "QCLOUD_ERR_SHADOW_GET_TIMEOUT \<equiv> - 205"
abbreviation QCLOUD_ERR_SHADOW_GET_REJECTED :: int where "QCLOUD_ERR_SHADOW_GET_REJECTED \<equiv> - 206"

text \<open>The address of \<^verbatim>\<open>_on_operation_result_handler\<close>.\<close>

definition operation_result_handler :: nat where
  "operation_result_handler = 1"

definition call :: "shadow_event \<Rightarrow> ('w, 'f) shadow \<Rightarrow> ('w, 'f) shadow" where
  "call e s = s\<lparr>calls := calls s @ [e]\<rparr>"

definition sh_malloc :: "'w hal \<Rightarrow> ('w, 'f) shadow \<Rightarrow> bool \<times> ('w, 'f) shadow" where
  "sh_malloc H s = (let (ok, m) = HAL_Malloc H (mq s) in (ok, s\<lparr>mq := m\<rparr>))"

text \<open>A lookup in a document, with the heap of the platform.\<close>

definition lookup ::
  "'w hal \<Rightarrow> (('w \<Rightarrow> bool \<times> 'w) \<Rightarrow> byte list \<Rightarrow> 'w \<Rightarrow> ('r \<times> 'w) option) \<Rightarrow> byte list \<Rightarrow> ('w, 'f) shadow \<Rightarrow> ('r \<times> ('w, 'f) shadow) option" where
  "lookup H parse doc s = do {
     (v, w) \<leftarrow> parse (hal_malloc H) doc (env (mq s));
     Some (v, s\<lparr>mq := (mq s)\<lparr>env := w\<rparr>\<rparr>) }"

text \<open>The string in the receive buffer.\<close>

definition recv_doc :: "('w, 'f) shadow \<Rightarrow> byte list" where
  "recv_doc s = takeWhile (\<lambda>c. c \<noteq> 0) (shadow_recv_buf s)"

definition run_callback :: "Request \<Rightarrow> RequestAck \<Rightarrow> ('w, 'f) shadow \<Rightarrow> ('w, 'f) shadow" where
  "run_callback r status s =
     (case req_callback r of
        None \<Rightarrow> s
      | Some (User_callback f) \<Rightarrow> call (Request_done f (req_method r) status (recv_doc s) (user_context r)) s
      | Some update_ack_cb \<Rightarrow> s\<lparr>ack_update := status\<rparr>)"

section \<open>Properties\<close>

fun delta_loop :: "'w hal \<Rightarrow> 'f float_text \<Rightarrow> byte list \<Rightarrow> PropertyHandler list \<Rightarrow> ('w, 'f) shadow \<Rightarrow> ('w, 'f) shadow option" where
  "delta_loop H F delta_str [] s = Some s"
| "delta_loop H F delta_str (h # hs) s = do {
     p \<leftarrow> props s (ph_property h);
     ((changed, p), s) \<leftarrow> lookup H (\<lambda>A doc. update_value_if_key_match F A doc p) delta_str s;
     let s = (if changed
              then let s = s\<lparr>props := (props s)(ph_property h \<mapsto> p)\<rparr>
                   in (case ph_callback h of
                         None \<Rightarrow> s | Some f \<Rightarrow> call (Property_changed f delta_str (ph_property h)) s)
              else s);
     delta_loop H F delta_str hs s }"

definition handle_delta :: "'w hal \<Rightarrow> 'f float_text \<Rightarrow> byte list \<Rightarrow> ('w, 'f) shadow \<Rightarrow> ('w, 'f) shadow option" where
  "handle_delta H F delta_str s =
     (if property_handle_list s = [] then Some s
      else let (iter, s) = sh_malloc H s
           in if \<not> iter then Some s else delta_loop H F delta_str (rev (property_handle_list s)) s)"

text \<open>Both users of \<^verbatim>\<open>_handle_delta\<close> look the changes up in the received document first.\<close>

definition delta_from ::
  "'w hal \<Rightarrow> 'f float_text \<Rightarrow> (('w \<Rightarrow> bool \<times> 'w) \<Rightarrow> byte list \<Rightarrow> 'w \<Rightarrow> (byte list option \<times> 'w) option) \<Rightarrow> ('w, 'f) shadow \<Rightarrow>
   ('w, 'f) shadow option" where
  "delta_from H F parse s = do {
     (delta, s) \<leftarrow> lookup H parse (recv_doc s) s;
     (case delta of None \<Rightarrow> Some s | Some d \<Rightarrow> handle_delta H F d s) }"

text \<open>\<^verbatim>\<open>list_find\<close> on the list of handlers, which has no \<^verbatim>\<open>match\<close> function: it compares the address of a handler with the address of
  a property.\<close>

definition find_property :: "'w hal \<Rightarrow> nat \<Rightarrow> ('w, 'f) shadow \<Rightarrow> PropertyHandler option \<times> ('w, 'f) shadow" where
  "find_property H p s =
     (let (it, s) = sh_malloc H s
      in (if it then List.find (\<lambda>h. p = ph_addr h) (property_handle_list s) else None, s))"

definition shadow_common_check_property_existence :: "'w hal \<Rightarrow> nat \<Rightarrow> ('w, 'f) shadow \<Rightarrow> bool \<times> ('w, 'f) shadow" where
  "shadow_common_check_property_existence H p s = (let (node, s) = find_property H p s in (node \<noteq> None, s))"

definition shadow_common_remove_property :: "'w hal \<Rightarrow> nat \<Rightarrow> ('w, 'f) shadow \<Rightarrow> int \<times> ('w, 'f) shadow" where
  "shadow_common_remove_property H p s =
     (let (node, s) = find_property H p s
      in case node of
           None \<Rightarrow> (QCLOUD_ERR_SHADOW_NOT_PROPERTY_EXIST, s)
         | Some h \<Rightarrow> (QCLOUD_RET_SUCCESS, s\<lparr>property_handle_list := remove1 h (property_handle_list s)\<rparr>))"

text \<open>\<open>addr\<close> is where \<^verbatim>\<open>HAL_Malloc\<close> puts the handler.\<close>

definition add_property_handle_to_list ::
  "'w hal \<Rightarrow> nat \<Rightarrow> nat \<Rightarrow> nat option \<Rightarrow> ('w, 'f) shadow \<Rightarrow> int \<times> ('w, 'f) shadow" where
  "add_property_handle_to_list H addr p callback s =
     (let (ok, s) = sh_malloc H s
      in if \<not> ok then (QCLOUD_ERR_FAILURE, s)
         else let (node, s) = sh_malloc H s
              in if \<not> node then (QCLOUD_ERR_FAILURE, s)
                 else (QCLOUD_RET_SUCCESS,
                   s\<lparr>property_handle_list := property_handle_list s @ [\<lparr>ph_addr = addr, ph_property = p, ph_callback = callback\<rparr>]\<rparr>))"

definition shadow_common_register_property_on_delta ::
  "'w hal \<Rightarrow> nat \<Rightarrow> nat \<Rightarrow> nat option \<Rightarrow> ('w, 'f) shadow \<Rightarrow> (int \<times> ('w, 'f) shadow) option" where
  "shadow_common_register_property_on_delta H addr p callback s =
     (if callback = None then Some (QCLOUD_ERR_INVAL, s)
      else do {
        prop \<leftarrow> props s p;
        if prop_key prop = None \<or> prop_data prop = None then Some (QCLOUD_ERR_INVAL, s)
        else Some (add_property_handle_to_list H addr p callback s) })"

section \<open>Replies and expiry\<close>

text \<open>\<^verbatim>\<open>strcmp(request->client_token, pClientToken) == 0\<close> on an array that may lack its NUL.\<close>

definition token_matches :: "byte list \<Rightarrow> byte list \<Rightarrow> bool option" where
  "token_matches arr token =
     (if 0 \<in> set arr then Some (takeWhile (\<lambda>c. c \<noteq> 0) arr = token)
      else if take (length arr) token = arr then None else Some False)"

definition handle_reply :: "'w hal \<Rightarrow> 'f float_text \<Rightarrow> byte list \<Rightarrow> Request \<Rightarrow> ('w, 'f) shadow \<Rightarrow> ('w, 'f) shadow option" where
  "handle_reply H F pType r s = do {
     (result_code, s) \<leftarrow> lookup H parse_shadow_operation_result_code (recv_doc s) s;
     (case result_code of
        None \<Rightarrow> Some s
      | Some n \<Rightarrow> do {
          let status = (if n = 0 then ACK_ACCEPTED else ACK_REJECTED);
          s \<leftarrow> (if pType = cstr ''get'' \<and> status = ACK_ACCEPTED \<or> pType \<noteq> cstr ''update'' \<and> status = ACK_REJECTED
                then delta_from H F parse_shadow_operation_get s
                else Some s);
          Some (run_callback r status s) }) }"

fun reply_loop ::
  "'w hal \<Rightarrow> 'f float_text \<Rightarrow> byte list \<Rightarrow> byte list \<Rightarrow> Request list \<Rightarrow> ('w, 'f) shadow \<Rightarrow> (Request list \<times> ('w, 'f) shadow) option" where
  "reply_loop H F token type [] s = Some ([], s)"
| "reply_loop H F token type (r # rs) s = do {
     hit \<leftarrow> token_matches (client_token r) token;
     if hit
     then do { s \<leftarrow> handle_reply H F type r s; reply_loop H F token type rs s }
     else do { (rs, s) \<leftarrow> reply_loop H F token type rs s; Some (r # rs, s) } }"

fun expired_loop :: "'w hal \<Rightarrow> Request list \<Rightarrow> ('w, 'f) shadow \<Rightarrow> Request list \<times> ('w, 'f) shadow" where
  "expired_loop H [] s = ([], s)"
| "expired_loop H (r # rs) s =
     (let (e, m) = expired H (req_timer r) (mq s); s = s\<lparr>mq := m\<rparr>
      in if e then expired_loop H rs (run_callback r ACK_TIMEOUT s)
         else let (rs, s) = expired_loop H rs s in (r # rs, s))"

text \<open>\<^verbatim>\<open>_traverse_list\<close> with either handler.\<close>

definition handle_replies :: "'w hal \<Rightarrow> 'f float_text \<Rightarrow> byte list \<Rightarrow> byte list \<Rightarrow> ('w, 'f) shadow \<Rightarrow> ('w, 'f) shadow option" where
  "handle_replies H F token type s =
     (if request_list s = [] then Some s
      else let (iter, s) = sh_malloc H s
           in if \<not> iter then Some s
              else do {
                (rs, s) \<leftarrow> reply_loop H F token type (rev (request_list s)) s;
                Some (s\<lparr>request_list := rev rs\<rparr>) })"

definition handle_expired_request :: "'w hal \<Rightarrow> ('w, 'f) shadow \<Rightarrow> ('w, 'f) shadow" where
  "handle_expired_request H s =
     (if request_list s = [] then s
      else let (iter, s) = sh_malloc H s
           in if \<not> iter then s
              else let (rs, s) = expired_loop H (rev (request_list s)) s in s\<lparr>request_list := rev rs\<rparr>)"

text \<open>\<^verbatim>\<open>_on_operation_result_handler\<close>. It copies one byte more than the payload has.\<close>

definition handle_document :: "'w hal \<Rightarrow> 'f float_text \<Rightarrow> ('w, 'f) shadow \<Rightarrow> ('w, 'f) shadow option" where
  "handle_document H F s = do {
     (type_str, s) \<leftarrow> lookup H parse_shadow_operation_type (recv_doc s) s;
     (case type_str of
        None \<Rightarrow> Some s
      | Some type \<Rightarrow>
          if type = cstr ''delta'' then delta_from H F parse_shadow_operation_delta s
          else do {
            (token, s) \<leftarrow> lookup H parse_client_token (recv_doc s) s;
            (case token of None \<Rightarrow> Some s | Some t \<Rightarrow> handle_replies H F t type s) }) }"

definition on_operation_result_handler :: "'w hal \<Rightarrow> 'f float_text \<Rightarrow> MQTTMessage \<Rightarrow> ('w, 'f) shadow \<Rightarrow> ('w, 'f) shadow option" where
  "on_operation_result_handler H F message s =
     (if ptopic message = [] then Some s
      else if unat (payload_len message) > CLOUD_IOT_JSON_RX_BUF_LEN then Some s
      else do {
        let cloud_rcv_len = min (CLOUD_IOT_JSON_RX_BUF_LEN - 1) (unat (payload_len message));
        bs \<leftarrow> rd_bytes (payload message) 0 (cloud_rcv_len + 1);
        b \<leftarrow> wr_bytes (shadow_recv_buf s) 0 bs;
        b \<leftarrow> wr b cloud_rcv_len 0;
        handle_document H F (s\<lparr>shadow_recv_buf := b\<rparr>) })"

definition subscription_event :: "MQTTEventType \<Rightarrow> ('w, 'f) shadow \<Rightarrow> ('w, 'f) shadow" where
  "subscription_event type s =
     (case type of
        MQTT_EVENT_SUBCRIBE_SUCCESS \<Rightarrow> if sync_status s > 0 then s\<lparr>sync_status := 0\<rparr> else s
      | MQTT_EVENT_SUBCRIBE_TIMEOUT \<Rightarrow> if sync_status s > 0 then s\<lparr>sync_status := - 1\<rparr> else s
      | MQTT_EVENT_SUBCRIBE_NACK \<Rightarrow> if sync_status s > 0 then s\<lparr>sync_status := - 1\<rparr> else s
      | _ \<Rightarrow> s)"

definition shadow_event_handler :: "MQTTEventType \<Rightarrow> event_msg \<Rightarrow> ('w, 'f) shadow \<Rightarrow> ('w, 'f) shadow" where
  "shadow_event_handler type msg s =
     (let s = subscription_event type s in if user_event_handle s then call (Shadow_event type msg) s else s)"

section \<open>Calls of the MQTT client\<close>

fun dispatch :: "'w hal \<Rightarrow> 'f float_text \<Rightarrow> event list \<Rightarrow> ('w, 'f) shadow \<Rightarrow> ('w, 'f) shadow option" where
  "dispatch H F [] s = Some s"
| "dispatch H F (e # es) s = do {
     s \<leftarrow> (case e of
             On_Event type msg \<Rightarrow> Some (shadow_event_handler type msg s)
           | On_Message f message ud \<Rightarrow>
               if f = operation_result_handler then on_operation_result_handler H F message s else Some (call (Other_event e) s)
           | On_Sub_Event f type ud \<Rightarrow> Some (call (Other_event e) s));
     dispatch H F es s }"

definition run_mqtt ::
  "'w hal \<Rightarrow> 'f float_text \<Rightarrow> ('w mqtt \<Rightarrow> ('r \<times> 'w mqtt) option) \<Rightarrow> ('w, 'f) shadow \<Rightarrow> ('r \<times> ('w, 'f) shadow) option" where
  "run_mqtt H F operation s = do {
     (r, m) \<leftarrow> operation ((mq s)\<lparr>events := []\<rparr>);
     s \<leftarrow> dispatch H F (events m) (s\<lparr>mq := m\<lparr>events := []\<rparr>\<rparr>);
     Some (r, s) }"

section \<open>Requests\<close>

definition device_topic :: "byte list \<Rightarrow> byte list \<Rightarrow> ('w, 'f) shadow \<Rightarrow> byte list option" where
  "device_topic normal template s =
     (let t = (if shadow_type s = eTEMPLATE then template else normal) @ di_product_id (device_info s) @ 47 # di_device_name (device_info s)
      in if length t > MAX_SIZE_OF_CLOUD_TOPIC - 1 then None else Some t)"

definition subscribe_operation_result_to_cloud :: "'w hal \<Rightarrow> 'f float_text \<Rightarrow> ('w, 'f) shadow \<Rightarrow> (int \<times> ('w, 'f) shadow) option" where
  "subscribe_operation_result_to_cloud H F s =
     (let (r, s) = (case result_topic s of
                      Some t \<Rightarrow> (Some t, s)
                    | None \<Rightarrow>
                        let (ok, s) = sh_malloc H s
                        in if \<not> ok then (None, s)
                           else let t = device_topic (cstr ''$shadow/operation/result/'') (cstr ''$template/operation/result/'') s
                                in (t, if t = None then s else s\<lparr>result_topic := t\<rparr>))
      in case r of
           None \<Rightarrow> Some (QCLOUD_ERR_FAILURE, s)
         | Some t \<Rightarrow>
             run_mqtt H F (qcloud_iot_mqtt_subscribe H t
               \<lparr>on_message_handler = Some operation_result_handler, on_sub_event_handler = None, sp_qos = QOS0, user_data = 0\<rparr>) s)"

definition unsubscribe_operation_result_to_cloud :: "'w hal \<Rightarrow> 'f float_text \<Rightarrow> ('w, 'f) shadow \<Rightarrow> (int \<times> ('w, 'f) shadow) option" where
  "unsubscribe_operation_result_to_cloud H F s =
     (case result_topic s of
        None \<Rightarrow> Some (QCLOUD_RET_SUCCESS, s)
      | Some t \<Rightarrow> run_mqtt H F (qcloud_iot_mqtt_unsubscribe H t) s)"

definition publish_operation_to_cloud :: "'w hal \<Rightarrow> 'f float_text \<Rightarrow> byte list \<Rightarrow> ('w, 'f) shadow \<Rightarrow> (int \<times> ('w, 'f) shadow) option" where
  "publish_operation_to_cloud H F pJsonDoc s =
     (case device_topic (cstr ''$shadow/operation/'') (cstr ''$template/operation/'') s of
        None \<Rightarrow> Some (QCLOUD_ERR_FAILURE, s)
      | Some topic \<Rightarrow> do {
          ((rc, p), s) \<leftarrow> run_mqtt H F (qcloud_iot_mqtt_publish H topic
             \<lparr>pub_qos = QOS0, pub_retained = 0, pub_id = 0, pub_payload = Some pJsonDoc\<rparr>) s;
          Some (rc, s) })"

definition insert_str :: "byte list \<Rightarrow> byte list \<Rightarrow> nat \<Rightarrow> byte list option" where
  "insert_str str pch pos = do {
     len \<leftarrow> strlen str;
     b \<leftarrow> wr_bytes str (pos + length pch) (drop pos (take len str));
     b \<leftarrow> wr_bytes b pos pch;
     wr b (len + length pch) 0 }"

definition type_member :: "Method \<Rightarrow> byte list" where
  "type_member meth =
     QUOTE # cstr ''type'' @ QUOTE # COLON # QUOTE # (case meth of GET \<Rightarrow> cstr ''get'' | UPDATE \<Rightarrow> cstr ''update'') @ QUOTE # cstr '', ''"

text \<open>The test of the space subtracts from a \<open>size_t\<close>, which wraps when the document fills the buffer.\<close>

definition set_shadow_json_type :: "byte list \<Rightarrow> size_t \<Rightarrow> Method \<Rightarrow> (int \<times> byte list) option" where
  "set_shadow_json_type pJsonDoc sizeOfBuffer meth = do {
     json_len \<leftarrow> strlen pJsonDoc;
     let remain_size = sizeOfBuffer - of_nat json_len;
     if of_nat (length (type_member meth)) \<ge> remain_size - 1 then Some (QCLOUD_ERR_INVAL, pJsonDoc)
     else do { b \<leftarrow> insert_str pJsonDoc (type_member meth) 1; Some (QCLOUD_RET_SUCCESS, b) } }"

record RequestParams =
  rp_method :: Method
  rp_timeout_sec :: u32
  rp_callback :: "request_callback option"
  rp_context :: nat

text \<open>The timeout passes through a \<open>uint8_t\<close>.\<close>

definition init_request_params :: "Method \<Rightarrow> request_callback option \<Rightarrow> nat \<Rightarrow> u8 \<Rightarrow> RequestParams" where
  "init_request_params meth callback userContext timeout_sec =
     \<lparr>rp_method = meth, rp_timeout_sec = ucast timeout_sec, rp_callback = callback, rp_context = userContext\<rparr>"

text \<open>\<^verbatim>\<open>strncpy\<close> into the array of a request.\<close>

definition token_array :: "byte list \<Rightarrow> byte list" where
  "token_array token = take MAX_SIZE_OF_CLIENT_TOKEN (token @ replicate MAX_SIZE_OF_CLIENT_TOKEN 0)"

definition add_request_to_list :: "'w hal \<Rightarrow> byte list \<Rightarrow> RequestParams \<Rightarrow> ('w, 'f) shadow \<Rightarrow> int \<times> ('w, 'f) shadow" where
  "add_request_to_list H pClientToken pParams s =
     (if length (request_list s) \<ge> MAX_APPENDING_REQUEST_AT_ANY_GIVEN_TIME then (QCLOUD_ERR_MAX_APPENDING_REQUEST, s)
      else let (ok, s) = sh_malloc H s
           in if \<not> ok then (QCLOUD_ERR_FAILURE, s)
              else let (t, m) = countdown H (unat (rp_timeout_sec pParams)) (mq s);
                       s = s\<lparr>mq := m\<rparr>;
                       (node, s) = sh_malloc H s
                   in if \<not> node then (QCLOUD_ERR_FAILURE, s)
                      else (QCLOUD_RET_SUCCESS, s\<lparr>request_list := request_list s @
                        [\<lparr>client_token = token_array pClientToken, req_method = rp_method pParams,
                          user_context = rp_context pParams, req_timer = t, req_callback = rp_callback pParams\<rparr>]\<rparr>))"

text \<open>The document is a buffer of the caller; the one with the type inserted is part of the result.\<close>

definition do_shadow_request ::
  "'w hal \<Rightarrow> 'f float_text \<Rightarrow> RequestParams \<Rightarrow> byte list \<Rightarrow> size_t \<Rightarrow> ('w, 'f) shadow \<Rightarrow> ((int \<times> byte list) \<times> ('w, 'f) shadow) option" where
  "do_shadow_request H F pParams pJsonDoc sizeOfBuffer s = do {
     n \<leftarrow> strlen pJsonDoc;
     (client_token, s) \<leftarrow> lookup H parse_client_token (take n pJsonDoc) s;
     (case client_token of
        None \<Rightarrow> Some ((QCLOUD_ERR_INVAL, pJsonDoc), s)
      | Some token \<Rightarrow> do {
          (rc, doc) \<leftarrow> set_shadow_json_type pJsonDoc sizeOfBuffer (rp_method pParams);
          if rc \<noteq> QCLOUD_RET_SUCCESS then Some ((rc, doc), s)
          else do {
            n \<leftarrow> strlen doc;
            (rc, s) \<leftarrow> publish_operation_to_cloud H F (take n doc) s;
            if rc \<ge> 0
            then let (rc, s) = add_request_to_list H token pParams s in Some ((rc, doc), s)
            else Some ((rc, doc), s) } }) }"

section \<open>Interface\<close>

definition resubscribe_if_needed :: "'w hal \<Rightarrow> 'f float_text \<Rightarrow> ('w, 'f) shadow \<Rightarrow> ('w, 'f) shadow option" where
  "resubscribe_if_needed H F s =
     (if sync_status s < 0 then do { (rc, s) \<leftarrow> subscribe_operation_result_to_cloud H F s; Some s } else Some s)"

definition IOT_Shadow_Update ::
  "'w hal \<Rightarrow> 'f float_text \<Rightarrow> byte list \<Rightarrow> size_t \<Rightarrow> request_callback option \<Rightarrow> nat \<Rightarrow> u32 \<Rightarrow> ('w, 'f) shadow \<Rightarrow>
   ((int \<times> byte list) \<times> ('w, 'f) shadow) option" where
  "IOT_Shadow_Update H F pJsonDoc sizeOfBuffer callback userContext timeout_ms s =
     (if timeout_ms = 0 then Some ((QCLOUD_ERR_INVAL, pJsonDoc), s)
      else if \<not> IOT_MQTT_IsConnected (mq s) then Some ((QCLOUD_ERR_MQTT_NO_CONN, pJsonDoc), s)
      else do {
        s \<leftarrow> resubscribe_if_needed H F s;
        do_shadow_request H F (init_request_params UPDATE callback userContext (ucast (timeout_ms div 1000))) pJsonDoc sizeOfBuffer s })"

definition IOT_Shadow_Get ::
  "'w hal \<Rightarrow> 'f float_text \<Rightarrow> request_callback option \<Rightarrow> nat \<Rightarrow> u32 \<Rightarrow> ('w, 'f) shadow \<Rightarrow> (int \<times> ('w, 'f) shadow) option" where
  "IOT_Shadow_Get H F callback userContext timeout_ms s =
     (if callback = None \<or> timeout_ms = 0 then Some (QCLOUD_ERR_INVAL, s)
      else if \<not> IOT_MQTT_IsConnected (mq s) then Some (QCLOUD_ERR_MQTT_NO_CONN, s)
      else do {
        s \<leftarrow> resubscribe_if_needed H F s;
        (doc, n) \<leftarrow> build_empty_json (token_num s) (replicate MAX_SIZE_OF_JSON_WITH_CLIENT_TOKEN 0) (di_product_id (device_info s));
        let s = s\<lparr>token_num := n\<rparr>;
        ((rc, doc), s) \<leftarrow> do_shadow_request H F (init_request_params GET callback userContext (ucast (timeout_ms div 1000))) doc
           (of_nat MAX_SIZE_OF_JSON_WITH_CLIENT_TOKEN) s;
        Some (rc, s) })"

definition IOT_Shadow_Yield :: "'w hal \<Rightarrow> 'f float_text \<Rightarrow> nat \<Rightarrow> ('w, 'f) shadow \<Rightarrow> (int \<times> ('w, 'f) shadow) option" where
  "IOT_Shadow_Yield H F timeout_ms s =
     (if timeout_ms = 0 then Some (QCLOUD_ERR_INVAL, s)
      else run_mqtt H F (IOT_MQTT_Yield H timeout_ms) (handle_expired_request H s))"

text \<open>The loop of the synchronous calls.\<close>

partial_function (option) ack_wait :: "'w hal \<Rightarrow> 'f float_text \<Rightarrow> ('w, 'f) shadow \<Rightarrow> ('w, 'f) shadow option" where
  "ack_wait H F s =
     (if ack_update s = ACK_NONE then do { (rc, s) \<leftarrow> IOT_Shadow_Yield H F 200 s; ack_wait H F s } else Some s)"

definition ack_code :: "int \<Rightarrow> int \<Rightarrow> RequestAck \<Rightarrow> int" where
  "ack_code timeout rejected ack =
     (case ack of ACK_TIMEOUT \<Rightarrow> timeout | ACK_REJECTED \<Rightarrow> rejected | _ \<Rightarrow> QCLOUD_RET_SUCCESS)"

definition IOT_Shadow_Update_Sync ::
  "'w hal \<Rightarrow> 'f float_text \<Rightarrow> byte list \<Rightarrow> size_t \<Rightarrow> u32 \<Rightarrow> ('w, 'f) shadow \<Rightarrow> ((int \<times> byte list) \<times> ('w, 'f) shadow) option" where
  "IOT_Shadow_Update_Sync H F pJsonDoc sizeOfBuffer timeout_ms s =
     (if timeout_ms = 0 then Some ((QCLOUD_ERR_INVAL, pJsonDoc), s)
      else if \<not> IOT_MQTT_IsConnected (mq s) then Some ((QCLOUD_ERR_MQTT_NO_CONN, pJsonDoc), s)
      else do {
        ((rc, doc), s) \<leftarrow> IOT_Shadow_Update H F pJsonDoc sizeOfBuffer (Some update_ack_cb) 0 timeout_ms (s\<lparr>ack_update := ACK_NONE\<rparr>);
        if rc \<noteq> QCLOUD_RET_SUCCESS then Some ((rc, doc), s)
        else do {
          s \<leftarrow> ack_wait H F s;
          Some ((ack_code QCLOUD_ERR_SHADOW_UPDATE_TIMEOUT QCLOUD_ERR_SHADOW_UPDATE_REJECTED (ack_update s), doc), s) } })"

definition IOT_Shadow_Get_Sync :: "'w hal \<Rightarrow> 'f float_text \<Rightarrow> u32 \<Rightarrow> ('w, 'f) shadow \<Rightarrow> (int \<times> ('w, 'f) shadow) option" where
  "IOT_Shadow_Get_Sync H F timeout_ms s =
     (if timeout_ms = 0 then Some (QCLOUD_ERR_INVAL, s)
      else if \<not> IOT_MQTT_IsConnected (mq s) then Some (QCLOUD_ERR_MQTT_NO_CONN, s)
      else do {
        (rc, s) \<leftarrow> IOT_Shadow_Get H F (Some update_ack_cb) 0 timeout_ms (s\<lparr>ack_update := ACK_NONE\<rparr>);
        if rc \<noteq> QCLOUD_RET_SUCCESS then Some (rc, s)
        else do {
          s \<leftarrow> ack_wait H F s;
          Some (ack_code QCLOUD_ERR_SHADOW_GET_TIMEOUT QCLOUD_ERR_SHADOW_GET_REJECTED (ack_update s), s) } })"

definition IOT_Shadow_Register_Property ::
  "'w hal \<Rightarrow> nat \<Rightarrow> nat \<Rightarrow> nat option \<Rightarrow> ('w, 'f) shadow \<Rightarrow> (int \<times> ('w, 'f) shadow) option" where
  "IOT_Shadow_Register_Property H addr p callback s =
     (if \<not> IOT_MQTT_IsConnected (mq s) then Some (QCLOUD_ERR_MQTT_NO_CONN, s)
      else let (exists, s) = shadow_common_check_property_existence H p s
           in if exists then Some (QCLOUD_ERR_SHADOW_PROPERTY_EXIST, s)
              else shadow_common_register_property_on_delta H addr p callback s)"

definition IOT_Shadow_UnRegister_Property :: "'w hal \<Rightarrow> nat \<Rightarrow> ('w, 'f) shadow \<Rightarrow> int \<times> ('w, 'f) shadow" where
  "IOT_Shadow_UnRegister_Property H p s =
     (if \<not> IOT_MQTT_IsConnected (mq s) then (QCLOUD_ERR_MQTT_NO_CONN, s)
      else let (exists, s) = shadow_common_check_property_existence H p s
           in if \<not> exists then (QCLOUD_ERR_SHADOW_NOT_PROPERTY_EXIST, s)
              else shadow_common_remove_property H p s)"

text \<open>Calls that are passed on to the MQTT client; \<^verbatim>\<open>IOT_Shadow_Get_Mqtt_Client\<close> is the field \<^const>\<open>mq\<close>.\<close>

definition IOT_Shadow_Publish ::
  "'w hal \<Rightarrow> 'f float_text \<Rightarrow> byte list \<Rightarrow> PublishParams \<Rightarrow> ('w, 'f) shadow \<Rightarrow> ((int \<times> PublishParams) \<times> ('w, 'f) shadow) option" where
  "IOT_Shadow_Publish H F topicName pParams s = run_mqtt H F (qcloud_iot_mqtt_publish H topicName pParams) s"

definition IOT_Shadow_Subscribe ::
  "'w hal \<Rightarrow> 'f float_text \<Rightarrow> byte list \<Rightarrow> SubscribeParams \<Rightarrow> ('w, 'f) shadow \<Rightarrow> (int \<times> ('w, 'f) shadow) option" where
  "IOT_Shadow_Subscribe H F topicFilter pParams s = run_mqtt H F (qcloud_iot_mqtt_subscribe H topicFilter pParams) s"

definition IOT_Shadow_Unsubscribe :: "'w hal \<Rightarrow> 'f float_text \<Rightarrow> byte list \<Rightarrow> ('w, 'f) shadow \<Rightarrow> (int \<times> ('w, 'f) shadow) option" where
  "IOT_Shadow_Unsubscribe H F topicFilter s = run_mqtt H F (qcloud_iot_mqtt_unsubscribe H topicFilter) s"

definition IOT_Shadow_IsConnected :: "('w, 'f) shadow \<Rightarrow> bool" where
  "IOT_Shadow_IsConnected s = IOT_MQTT_IsConnected (mq s)"

section \<open>Construction and destruction\<close>

definition qcloud_iot_shadow_reset :: "'w hal \<Rightarrow> 'f float_text \<Rightarrow> ('w, 'f) shadow \<Rightarrow> ('w, 'f) shadow option" where
  "qcloud_iot_shadow_reset H F s = do {
     let s = s\<lparr>property_handle_list := []\<rparr>;
     (rc, s) \<leftarrow> unsubscribe_operation_result_to_cloud H F s;
     Some (s\<lparr>request_list := []\<rparr>) }"

definition IOT_Shadow_Destroy :: "'w hal \<Rightarrow> 'f float_text \<Rightarrow> ('w, 'f) shadow \<Rightarrow> (int \<times> ('w, 'f) shadow) option" where
  "IOT_Shadow_Destroy H F s = do {
     s \<leftarrow> qcloud_iot_shadow_reset H F s;
     (rc, s) \<leftarrow> run_mqtt H F (IOT_MQTT_Destroy H) s;
     Some (QCLOUD_RET_SUCCESS, s\<lparr>result_topic := None\<rparr>) }"

text \<open>The loop of the constructor: it waits for the subscription to be answered.\<close>

partial_function (option) sync_wait :: "'w hal \<Rightarrow> 'f float_text \<Rightarrow> int \<Rightarrow> ('w, 'f) shadow \<Rightarrow> ('w, 'f) shadow option" where
  "sync_wait H F rc s =
     (if rc = sync_status s then do { (x, s) \<leftarrow> IOT_Shadow_Yield H F 100 s; sync_wait H F rc s } else Some s)"

definition zero_shadow :: "'w mqtt \<Rightarrow> DeviceInfo \<Rightarrow> eShadowType \<Rightarrow> bool \<Rightarrow> (nat \<Rightarrow> 'f DeviceProperty option) \<Rightarrow> ('w, 'f) shadow" where
  "zero_shadow m di type user_event pr =
     \<lparr>mq = m, device_info = di, shadow_type = type, user_event_handle = user_event, token_num = 0, sync_status = 0, request_list = [],
      property_handle_list = [], result_topic = None, shadow_recv_buf = replicate CLOUD_IOT_JSON_RX_BUF_LEN 0, props = pr,
      ack_update = ACK_NONE, calls = []\<rparr>"

text \<open>The lock and the two lists of \<^verbatim>\<open>qcloud_iot_shadow_init\<close> are allocations.\<close>

definition qcloud_iot_shadow_init :: "'w hal \<Rightarrow> ('w, 'f) shadow \<Rightarrow> int \<times> ('w, 'f) shadow" where
  "qcloud_iot_shadow_init H s =
     (let (ok, m) = allocate_all H 3 (mq s); s = s\<lparr>mq := m\<rparr>
      in (if ok then QCLOUD_RET_SUCCESS else QCLOUD_ERR_FAILURE, s))"

text \<open>
  \<^verbatim>\<open>IOT_Shadow_Construct\<close>; \<^const>\<open>None\<close> inside is the null handle. The parameters are those of the MQTT client
  (\<^verbatim>\<open>_copy_shadow_init_params_to_mqtt\<close>) with the type of the shadow and whether the application has an event handler. An event
  during \<^verbatim>\<open>IOT_MQTT_Construct\<close> reaches a structure that nothing has initialised: a fault.
\<close>

definition IOT_Shadow_Construct ::
  "'w hal \<Rightarrow> 'f float_text \<Rightarrow> MQTTInitParams \<Rightarrow> eShadowType \<Rightarrow> bool \<Rightarrow> (nat \<Rightarrow> 'f DeviceProperty option) \<Rightarrow> 'w mqtt \<Rightarrow>
   ('w, 'f) shadow option option" where
  "IOT_Shadow_Construct H F pParams type user_event pr m =
     (let (ok, m) = HAL_Malloc H (m\<lparr>events := []\<rparr>)
      in if \<not> ok then Some None
         else do {
           (r, m) \<leftarrow> IOT_MQTT_Construct H (pParams\<lparr>ip_event_handle := True\<rparr>) m;
           if events m \<noteq> [] then None
           else (case (r, iot_device_info_set (ip_product_id pParams) (ip_device_name pParams)) of
                   (Inr u, Inr di) \<Rightarrow> do {
                     let (rc, s) = qcloud_iot_shadow_init H (zero_shadow m di type user_event pr);
                     if rc \<noteq> QCLOUD_RET_SUCCESS
                     then do { (rc, s) \<leftarrow> IOT_Shadow_Destroy H F s; Some None }
                     else do {
                       (rc, s) \<leftarrow> subscribe_operation_result_to_cloud H F s;
                       if rc < 0 then Some (Some s)
                       else do { s \<leftarrow> sync_wait H F rc (s\<lparr>sync_status := rc\<rparr>); Some (Some s) } } }
                 | _ \<Rightarrow> Some None) })"


section \<open>What the handlers leave alone\<close>

text \<open>The data of a property is of the type the property names.\<close>

definition well_typed :: "'f DeviceProperty \<Rightarrow> bool" where
  "well_typed p \<longleftrightarrow> (case prop_data p of
     None \<Rightarrow> True
   | Some (VInt n) \<Rightarrow> (case int_range (prop_type p) of None \<Rightarrow> False | Some (lo, hi) \<Rightarrow> lo \<le> n \<and> n \<le> hi)
   | Some (VFloat f) \<Rightarrow> prop_type p \<in> {JFLOAT, JDOUBLE}
   | Some (VBool b) \<Rightarrow> prop_type p = JBOOL
   | Some (VText t) \<Rightarrow> prop_type p \<in> {JSTRING, JOBJECT})"

definition same_property :: "'f DeviceProperty \<Rightarrow> 'f DeviceProperty \<Rightarrow> bool" where
  "same_property q q' \<longleftrightarrow> prop_key q' = prop_key q \<and> prop_type q' = prop_type q \<and> (prop_data q' = None \<longleftrightarrow> prop_data q = None) \<and>
     (well_typed q \<longrightarrow> well_typed q')"

text \<open>The properties of the application keep their keys and types and stay bound to data.\<close>

definition same_props :: "(nat \<Rightarrow> 'f DeviceProperty option) \<Rightarrow> (nat \<Rightarrow> 'f DeviceProperty option) \<Rightarrow> bool" where
  "same_props p p' \<longleftrightarrow> (\<forall>x q. p x = Some q \<longrightarrow> (\<exists>q'. p' x = Some q' \<and> same_property q q'))"

definition frame :: "('w, 'f) shadow \<Rightarrow> ('w, 'f) shadow \<Rightarrow> bool" where
  "frame s s' \<longleftrightarrow> same_props (props s) (props s') \<and>
     (\<exists>w p a c. s' = s\<lparr>mq := (mq s)\<lparr>env := w\<rparr>, props := p, ack_update := a, calls := c\<rparr>)"

named_theorems framed \<open>steps of the handlers that keep the structure\<close>

lemma same_property_refl [simp]: "same_property q q"
  by (simp add: same_property_def)

lemma same_property_trans: "same_property p q \<Longrightarrow> same_property q r \<Longrightarrow> same_property p r"
  by (simp add: same_property_def)

lemma same_props_refl [simp]: "same_props p p"
  by (simp add: same_props_def)

lemma same_props_trans: "same_props p q \<Longrightarrow> same_props q r \<Longrightarrow> same_props p r"
  unfolding same_props_def using same_property_trans by metis

lemma frameI:
  "s' = s\<lparr>mq := (mq s)\<lparr>env := w\<rparr>, props := p, ack_update := a, calls := c\<rparr> \<Longrightarrow> same_props (props s) p \<Longrightarrow> frame s s'"
  unfolding frame_def by (intro conjI exI) simp_all

lemma frame_refl [simp]: "frame s s"
  by (rule frameI [where w = "env (mq s)" and p = "props s" and a = "ack_update s" and c = "calls s"]) simp_all

lemma frame_trans [trans]: "frame s t \<Longrightarrow> frame t u \<Longrightarrow> frame s u"
  unfolding frame_def by (auto dest: same_props_trans) (metis same_props_trans)?

lemma frame_updates [simp]:
  "frame s (s\<lparr>ack_update := a\<rparr>)" "frame s (s\<lparr>calls := c\<rparr>)" "frame s (s\<lparr>mq := (mq s)\<lparr>env := w\<rparr>\<rparr>)" "frame s (call e s)"
proof -
  show "frame s (s\<lparr>ack_update := a\<rparr>)"
    by (rule frameI [where w = "env (mq s)" and p = "props s" and a = a and c = "calls s"]) simp_all
  show c: "frame s (s\<lparr>calls := c\<rparr>)" for c
    by (rule frameI [where w = "env (mq s)" and p = "props s" and a = "ack_update s" and c = c]) simp_all
  show "frame s (s\<lparr>mq := (mq s)\<lparr>env := w\<rparr>\<rparr>)"
    by (rule frameI [where w = w and p = "props s" and a = "ack_update s" and c = "calls s"]) simp_all
  show "frame s (call e s)" unfolding call_def by (rule c)
qed

lemma frame_run_callback [simp]: "frame s (run_callback r a s)"
  by (simp add: run_callback_def split: option.splits request_callback.splits)

lemma sh_malloc_frame [framed]: "sh_malloc H s = (ok, s') \<Longrightarrow> frame s s' \<and> props s' = props s \<and> calls s' = calls s \<and> ack_update s' = ack_update s"
  by (auto simp: sh_malloc_def dest!: HAL_Malloc_env split: prod.splits)

lemma lookup_frame [framed]:
  "lookup H parse doc s = Some (v, s') \<Longrightarrow> frame s s' \<and> props s' = props s \<and> calls s' = calls s \<and> ack_update s' = ack_update s"
  by (auto simp: lookup_def elim!: bind_SomeE)

lemma frame_fields:
  assumes "frame s s'"
  shows "request_list s' = request_list s" "property_handle_list s' = property_handle_list s" "shadow_recv_buf s' = shadow_recv_buf s"
    "result_topic s' = result_topic s" "cl (mq s') = cl (mq s)" "events (mq s') = events (mq s)" "recv_doc s' = recv_doc s"
    "device_info s' = device_info s" "shadow_type s' = shadow_type s" "sync_status s' = sync_status s" "token_num s' = token_num s"
  using assms by (auto simp: frame_def recv_doc_def)

lemma get_int_range: "LITE_get_int detect lo hi src = Some (rc, Some n) \<Longrightarrow> lo \<le> n \<and> n \<le> hi"
  by (auto simp: LITE_get_int_def sscanf_int_def Let_def elim!: bind_SomeE split: option.splits if_splits)

lemma same_property_data:
  "prop_data p \<noteq> None \<Longrightarrow> well_typed (p\<lparr>prop_data := Some v\<rparr>) \<Longrightarrow> same_property p (p\<lparr>prop_data := Some v\<rparr>)"
  by (simp add: same_property_def)

lemma well_typed_data:
  "well_typed (p\<lparr>prop_data := Some (VInt n)\<rparr>) \<longleftrightarrow> (\<exists>lo hi. int_range (prop_type p) = Some (lo, hi) \<and> lo \<le> n \<and> n \<le> hi)"
  "well_typed (p\<lparr>prop_data := Some (VBool b)\<rparr>) \<longleftrightarrow> prop_type p = JBOOL"
  "well_typed (p\<lparr>prop_data := Some (VFloat f)\<rparr>) \<longleftrightarrow> prop_type p \<in> {JFLOAT, JDOUBLE}"
  by (auto simp: well_typed_def split: option.splits)

lemma store_int_same:
  assumes "store_int (LITE_get_int detect lo hi src) p = Some (rc, p')" "int_range (prop_type p) = Some (lo, hi)"
  shows "same_property p p'"
proof -
  obtain r n where r: "LITE_get_int detect lo hi src = Some (r, n)" using assms(1) by (auto simp: store_int_def elim!: bind_SomeE)
  then show ?thesis using assms get_int_range [of detect lo hi src r]
    by (cases n) (auto simp: store_int_def well_typed_data split: if_splits intro!: same_property_data)
qed

lemma direct_update_same:
  assumes "direct_update_value F v p = Some (rc, p')"
  shows "same_property p p'"
proof (cases "int_range (prop_type p)")
  case None
  then show ?thesis using assms
    by (cases "prop_type p")
       (auto simp: direct_update_value_def well_typed_data split: option.splits prod.splits if_splits intro!: same_property_data)
next
  case (Some r)
  then show ?thesis using assms
    by (cases "prop_type p")
       (auto simp: direct_update_value_def LITE_get_int32_def LITE_get_int16_def LITE_get_int8_def LITE_get_uint32_def
         LITE_get_uint16_def LITE_get_uint8_def elim!: store_int_same)
qed

lemma update_value_same: "update_value_if_key_match F A doc p h = Some ((b, p'), h') \<Longrightarrow> same_property p p'"
  by (auto simp: update_value_if_key_match_def simp del: LITE_json_value_of.simps elim!: bind_SomeE
      split: option.splits if_splits dest!: direct_update_same)

lemma frame_props:
  "same_props (props s) p \<Longrightarrow> frame s (s\<lparr>props := p\<rparr>)"
  by (rule frameI [where w = "env (mq s)" and p = p and a = "ack_update s" and c = "calls s"]) simp_all

lemma delta_loop_frame: "delta_loop H F d hs s = Some s' \<Longrightarrow> frame s s' \<and> ack_update s' = ack_update s"
proof (induction hs arbitrary: s)
  case (Cons h hs)
  from Cons.prems obtain p changed p' s1 where p: "props s (ph_property h) = Some p"
    and l: "lookup H (\<lambda>A doc. update_value_if_key_match F A doc p) d s = Some ((changed, p'), s1)"
    and r: "delta_loop H F d hs (if changed
        then let s = s1\<lparr>props := (props s1)(ph_property h \<mapsto> p')\<rparr>
             in case ph_callback h of None \<Rightarrow> s | Some f \<Rightarrow> call (Property_changed f d (ph_property h)) s
        else s1) = Some s'" (is "delta_loop H F d hs ?t = _")
    by (auto elim!: bind_SomeE simp: Let_def split: if_splits)
  have f: "frame s s1" "props s1 = props s" "ack_update s1 = ack_update s" using lookup_frame [OF l] by auto
  have "same_property p p'"
    using l by (auto simp: lookup_def elim!: bind_SomeE dest: update_value_same)
  then have "same_props (props s1) ((props s1)(ph_property h \<mapsto> p'))" using p f(2) by (simp add: same_props_def)
  then have "frame s1 (s1\<lparr>props := (props s1)(ph_property h \<mapsto> p')\<rparr>)" by (rule frame_props)
  then have t: "frame s1 ?t" using frame_trans [OF _ frame_updates(4)] by (auto simp: Let_def split: option.splits)
  have "ack_update ?t = ack_update s1" by (simp add: Let_def call_def split: option.splits)
  moreover note IH = Cons.IH [OF r]
  ultimately have "ack_update s' = ack_update s" using f(3) by simp
  then show ?case using frame_trans [OF frame_trans [OF f(1) t] conjunct1 [OF IH]] by blast
qed simp

lemma handle_delta_frame: "handle_delta H F d s = Some s' \<Longrightarrow> frame s s' \<and> ack_update s' = ack_update s"
  by (auto simp: handle_delta_def split: if_splits prod.splits dest!: delta_loop_frame sh_malloc_frame intro: frame_trans)

lemma delta_from_frame: "delta_from H F parse s = Some s' \<Longrightarrow> frame s s' \<and> ack_update s' = ack_update s"
  by (auto simp: delta_from_def elim!: bind_SomeE split: option.splits dest!: handle_delta_frame lookup_frame intro: frame_trans)

lemma frame_then_callback: "frame s t \<Longrightarrow> frame s (run_callback r a t)"
  using frame_trans frame_run_callback by blast

text \<open>A request whose callback reports to a synchronous call.\<close>

definition acks :: "Request \<Rightarrow> bool" where
  "acks r \<longleftrightarrow> req_callback r = Some update_ack_cb"

lemma run_callback_ack: "\<not> acks r \<Longrightarrow> ack_update (run_callback r a s) = ack_update s"
  by (auto simp: run_callback_def acks_def call_def split: option.splits request_callback.splits)

lemma handle_reply_frame: "handle_reply H F ty r s = Some s' \<Longrightarrow> frame s s' \<and> (\<not> acks r \<longrightarrow> ack_update s' = ack_update s)"
  by (auto simp: handle_reply_def Let_def run_callback_ack elim!: bind_SomeE split: if_splits option.splits
      dest!: lookup_frame delta_from_frame intro!: frame_then_callback intro: frame_trans)

lemma reply_loop_frame:
  "reply_loop H F t ty rs s = Some (rs', s') \<Longrightarrow> frame s s' \<and> (list_all (Not \<circ> acks) rs \<longrightarrow> ack_update s' = ack_update s) \<and>
   rs' = filter (\<lambda>r. token_matches (client_token r) t = Some False) rs"
proof (induction rs arbitrary: s rs')
  case (Cons r rs)
  note IH = Cons.IH
  show ?case using Cons.prems
    by (auto elim!: bind_SomeE split: if_splits dest!: IH handle_reply_frame intro: frame_trans)
qed simp

lemma expired_loop_frame:
  "expired_loop H rs s = (rs', s') \<Longrightarrow> frame s s' \<and> (list_all (Not \<circ> acks) rs \<longrightarrow> ack_update s' = ack_update s) \<and>
   set rs' \<subseteq> set rs \<and> length rs' \<le> length rs"
proof (induction rs arbitrary: s rs')
  case (Cons r rs)
  obtain e m where e: "expired H (req_timer r) (mq s) = (e, m)" by fastforce
  obtain w where m: "m = (mq s)\<lparr>env := w\<rparr>" using expired_env [OF e] by blast
  let ?s = "s\<lparr>mq := m\<rparr>"
  have f: "frame s ?s" "frame s (run_callback r ACK_TIMEOUT ?s)"
    using frame_trans [of s ?s] by (simp_all add: m)
  show ?case
  proof (cases e)
    case True
    then have "expired_loop H rs (run_callback r ACK_TIMEOUT ?s) = (rs', s')" using Cons.prems e by simp
    from Cons.IH [OF this] show ?thesis using frame_trans [OF f(2)] run_callback_ack [of r ACK_TIMEOUT ?s] by auto
  next
    case False
    then obtain rs'' where "expired_loop H rs ?s = (rs'', s')" "rs' = r # rs''"
      using Cons.prems e by (auto split: prod.splits)
    with Cons.IH [OF this(1)] show ?thesis using frame_trans [OF f(1)] by auto
  qed
qed simp


section \<open>What the handlers keep\<close>

text \<open>A predicate of the structure that the handlers keep, from what it has to bear: changes of the fields of \<^const>\<open>frame\<close> (the result of a
  synchronous call only when some request reports to it), fewer requests, another document in the receive buffer, another status
  of the subscription, and a call of the MQTT client.\<close>

locale shadow_predicate =
  fixes P :: "('w, 'f) shadow \<Rightarrow> bool"
  assumes frame: "P s \<Longrightarrow> frame s s' \<Longrightarrow> (list_all (Not \<circ> acks) (request_list s) \<Longrightarrow> ack_update s' = ack_update s) \<Longrightarrow> P s'"
    and fewer: "P s \<Longrightarrow> set rs \<subseteq> set (request_list s) \<Longrightarrow> length rs \<le> length (request_list s) \<Longrightarrow> P (s\<lparr>request_list := rs\<rparr>)"
    and received: "P s \<Longrightarrow> length b = length (shadow_recv_buf s) \<Longrightarrow> P (s\<lparr>shadow_recv_buf := b\<rparr>)"
    and synced: "P s \<Longrightarrow> P (s\<lparr>sync_status := x\<rparr>)"
    and client_call: "P s \<Longrightarrow> (client_ok (at_most MAX_INTERVAL) (cl (mq s)) \<Longrightarrow> client_ok (at_most MAX_INTERVAL) (cl m)) \<Longrightarrow> P (s\<lparr>mq := m\<rparr>)"
begin

lemma malloc_keeps: "sh_malloc H s = (ok, s') \<Longrightarrow> P s \<Longrightarrow> P s'"
  by (auto dest!: sh_malloc_frame intro: frame)

lemma lookup_keeps: "lookup H parse doc s = Some (v, s') \<Longrightarrow> P s \<Longrightarrow> P s'"
  by (auto dest!: lookup_frame intro: frame)

lemma delta_from_keeps: "delta_from H F parse s = Some s' \<Longrightarrow> P s \<Longrightarrow> P s'"
  by (auto dest!: delta_from_frame intro: frame)

lemma handle_replies_keeps: "handle_replies H F t ty s = Some s' \<Longrightarrow> P s \<Longrightarrow> P s'"
proof -
  assume a: "handle_replies H F t ty s = Some s'" "P s"
  obtain ok s1 where m: "sh_malloc H s = (ok, s1)" by fastforce
  have p1: "P s1" using malloc_keeps m a(2) by blast
  show "P s'"
  proof (cases "request_list s = [] \<or> \<not> ok")
    case True
    then have "s' = s \<or> s' = s1" using a(1) m by (cases "request_list s = []") (simp_all add: handle_replies_def)
    then show ?thesis using a(2) p1 by blast
  next
    case False
    then obtain rs s2 where l: "reply_loop H F t ty (rev (request_list s1)) s1 = Some (rs, s2)" "s' = s2\<lparr>request_list := rev rs\<rparr>"
      using a(1) m by (auto simp: handle_replies_def elim!: bind_SomeE)
    note r = reply_loop_frame [OF l(1)]
    have "P s2" using frame [OF p1] r by simp
    moreover have "set (rev rs) \<subseteq> set (request_list s2)" "length (rev rs) \<le> length (request_list s2)"
      using r frame_fields(1) [of s1 s2] by (auto intro: order_trans [OF length_filter_le])
    ultimately show ?thesis using fewer l(2) by simp
  qed
qed

lemma handle_expired_keeps: "P s \<Longrightarrow> P (handle_expired_request H s)"
proof -
  assume a: "P s"
  obtain ok s1 where m: "sh_malloc H s = (ok, s1)" by fastforce
  have p1: "P s1" using malloc_keeps m a by blast
  obtain rs s2 where l: "expired_loop H (rev (request_list s1)) s1 = (rs, s2)" by fastforce
  note r = expired_loop_frame [OF l]
  have "P s2" using frame [OF p1] r by simp
  moreover have "set (rev rs) \<subseteq> set (request_list s2)" "length (rev rs) \<le> length (request_list s2)"
    using r frame_fields(1) [of s1 s2] by auto
  ultimately have "P (s2\<lparr>request_list := rev rs\<rparr>)" by (rule fewer)
  then show ?thesis using a m p1 l by (simp add: handle_expired_request_def)
qed

lemma handle_document_keeps: "handle_document H F s = Some s' \<Longrightarrow> P s \<Longrightarrow> P s'"
  unfolding handle_document_def
  by (auto elim!: bind_SomeE split: if_splits option.splits)
     (assumption | erule lookup_keeps delta_from_keeps handle_replies_keeps)+

lemma on_result_keeps:
  assumes "on_operation_result_handler H F message s = Some s'" "P s"
  shows "P s'"
proof (cases "s' = s")
  case False
  then obtain b where "length b = length (shadow_recv_buf s)" "handle_document H F (s\<lparr>shadow_recv_buf := b\<rparr>) = Some s'"
    using assms(1) unfolding on_operation_result_handler_def Let_def wr_eq_wr_bytes
    by (auto elim!: bind_SomeE split: if_split_asm dest!: wr_bytes_length)
  then show ?thesis using handle_document_keeps received assms(2) by blast
qed (use assms in simp)

lemma event_keeps: "P s \<Longrightarrow> P (shadow_event_handler ty msg s)"
proof -
  assume s: "P s"
  have t: "P (subscription_event ty s)"
    unfolding subscription_event_def by (cases ty; simp only: MQTTEventType.case split: if_split) (simp_all only: s synced simp_thms)
  show ?thesis using t frame [OF t frame_updates(4)] by (simp add: shadow_event_handler_def Let_def call_def)
qed

lemma dispatch_keeps: "dispatch H F es s = Some s' \<Longrightarrow> P s \<Longrightarrow> P s'"
proof (induction es arbitrary: s)
  case (Cons e es)
  have c: "P (call x s)" for x using frame [OF Cons.prems(2) frame_updates(4)] by (simp add: call_def)
  note IH = Cons.IH
  show ?case using Cons.prems c
    by (auto elim!: bind_SomeE split: event.splits if_splits intro: IH event_keeps on_result_keeps)
qed simp

lemma run_mqtt_keeps:
  assumes "run_mqtt H F operation s = Some (r, s')" "P s"
    and "\<And>m r m'. operation m = Some (r, m') \<Longrightarrow> client_ok (at_most MAX_INTERVAL) (cl m) \<Longrightarrow> client_ok (at_most MAX_INTERVAL) (cl m')"
  shows "P s'"
proof -
  obtain m where m: "operation ((mq s)\<lparr>events := []\<rparr>) = Some (r, m)" "dispatch H F (events m) (s\<lparr>mq := m\<lparr>events := []\<rparr>\<rparr>) = Some s'"
    using assms(1) by (auto simp: run_mqtt_def elim!: bind_SomeE)
  have "P (s\<lparr>mq := m\<lparr>events := []\<rparr>\<rparr>)" using assms(3) [OF m(1)] by (auto intro: client_call [OF assms(2)])
  then show ?thesis using dispatch_keeps m(2) by blast
qed

lemma yield_keeps:
  assumes "IOT_Shadow_Yield H F n s = Some (r, s')" "P s"
  shows "P s'"
proof (cases "n = 0")
  case False
  then have "run_mqtt H F (IOT_MQTT_Yield H n) (handle_expired_request H s) = Some (r, s')"
    using assms(1) by (simp add: IOT_Shadow_Yield_def)
  then show ?thesis by (rule run_mqtt_keeps) (auto intro: handle_expired_keeps assms(2) client_step_ok client_step.Yield)
qed (use assms in \<open>simp add: IOT_Shadow_Yield_def\<close>)

end

text \<open>No synchronous call will be answered.\<close>

definition unanswered :: "('w, 'f) shadow \<Rightarrow> bool" where
  "unanswered s \<longleftrightarrow> ack_update s = ACK_NONE \<and> list_all (Not \<circ> acks) (request_list s)"

interpretation unans: shadow_predicate unanswered
  by unfold_locales (auto simp: unanswered_def frame_fields list_all_iff)

text \<open>The structure is well formed.\<close>

definition handler_ok :: "(nat \<Rightarrow> 'f DeviceProperty option) \<Rightarrow> PropertyHandler \<Rightarrow> bool" where
  "handler_ok pr h \<longleftrightarrow> ph_callback h \<noteq> None \<and> (\<exists>q. pr (ph_property h) = Some q \<and> prop_key q \<noteq> None \<and> prop_data q \<noteq> None)"

definition shadow_ok :: "('w, 'f) shadow \<Rightarrow> bool" where
  "shadow_ok s \<longleftrightarrow> client_ok (at_most MAX_INTERVAL) (cl (mq s)) \<and>
     length (request_list s) \<le> MAX_APPENDING_REQUEST_AT_ANY_GIVEN_TIME \<and>
     (\<forall>r \<in> set (request_list s). length (client_token r) = MAX_SIZE_OF_CLIENT_TOKEN) \<and>
     length (shadow_recv_buf s) = CLOUD_IOT_JSON_RX_BUF_LEN \<and>
     (\<forall>h \<in> set (property_handle_list s). handler_ok (props s) h) \<and>
     (\<forall>t. result_topic s = Some t \<longrightarrow> length t < MAX_SIZE_OF_CLOUD_TOPIC)"

lemma handler_ok_same: "handler_ok p h \<Longrightarrow> same_props p p' \<Longrightarrow> handler_ok p' h"
  unfolding handler_ok_def same_props_def same_property_def by metis

lemma frame_shadow_ok:
  assumes "shadow_ok s" "frame s s'"
  shows "shadow_ok s'"
proof -
  have "same_props (props s) (props s')" using assms(2) by (simp add: frame_def)
  with assms(1) show ?thesis
    unfolding shadow_ok_def frame_fields [OF assms(2)] by (blast intro: handler_ok_same)
qed

interpretation ok: shadow_predicate shadow_ok
  by unfold_locales (erule frame_shadow_ok, assumption, auto simp: shadow_ok_def)

text \<open>The properties of the application.\<close>

interpretation typed: shadow_predicate "\<lambda>s. same_props p (props s)" for p
  by unfold_locales (auto simp: frame_def intro: same_props_trans)

end
