(* ===== verification/Shadow_Session.thy ===== *)
theory Shadow_Session
  imports Shadow_Client
begin

text \<open>
  Properties of the device shadow of \<open>Shadow_Client\<close>: the structure stays well formed, requests are tracked, answered and expire.
\<close>

section \<open>The structure stays well formed\<close>

text \<open>One call of the interface on a constructed shadow; the application may also change the data of its properties in between.\<close>

inductive shadow_step :: "'w hal \<Rightarrow> 'f float_text \<Rightarrow> ('w, 'f) shadow \<Rightarrow> ('w, 'f) shadow \<Rightarrow> bool" for H :: "'w hal" and F :: "'f float_text" where
  Update: "IOT_Shadow_Update H F doc sz cb ctx ms s = Some (r, s') \<Longrightarrow> shadow_step H F s s'"
| Get: "IOT_Shadow_Get H F cb ctx ms s = Some (rc, s') \<Longrightarrow> shadow_step H F s s'"
| Update_Sync: "IOT_Shadow_Update_Sync H F doc sz ms s = Some (r, s') \<Longrightarrow> shadow_step H F s s'"
| Get_Sync: "IOT_Shadow_Get_Sync H F ms s = Some (rc, s') \<Longrightarrow> shadow_step H F s s'"
| Yield: "IOT_Shadow_Yield H F n s = Some (rc, s') \<Longrightarrow> shadow_step H F s s'"
| Register: "IOT_Shadow_Register_Property H addr p f s = Some (rc, s') \<Longrightarrow> shadow_step H F s s'"
| UnRegister: "IOT_Shadow_UnRegister_Property H p s = (rc, s') \<Longrightarrow> shadow_step H F s s'"
| Publish: "IOT_Shadow_Publish H F topic pp s = Some (r, s') \<Longrightarrow> shadow_step H F s s'"
| Subscribe: "IOT_Shadow_Subscribe H F topic sp s = Some (rc, s') \<Longrightarrow> shadow_step H F s s'"
| Unsubscribe: "IOT_Shadow_Unsubscribe H F topic s = Some (rc, s') \<Longrightarrow> shadow_step H F s s'"
| Change: "same_props (props s) pr \<Longrightarrow> shadow_step H F s (s\<lparr>props := pr\<rparr>)"

inductive_cases shadow_stepE: "shadow_step H F s s'"

lemma shadow_ok_updates:
  "shadow_ok s \<Longrightarrow> shadow_ok (s\<lparr>ack_update := a\<rparr>)" "shadow_ok s \<Longrightarrow> shadow_ok (s\<lparr>token_num := n\<rparr>)"
  by (simp_all add: shadow_ok_def)

lemma run_subscribe_ok: "run_mqtt H F (qcloud_iot_mqtt_subscribe H t sp) s = Some (r, s') \<Longrightarrow> shadow_ok s \<Longrightarrow> shadow_ok s'"
  by (erule ok.run_mqtt_keeps) (auto dest: session.subscribe_ok)

lemma run_publish_ok: "run_mqtt H F (qcloud_iot_mqtt_publish H t p) s = Some (r, s') \<Longrightarrow> shadow_ok s \<Longrightarrow> shadow_ok s'"
  by (erule ok.run_mqtt_keeps) (auto dest: session.publish_ok)

lemma run_unsubscribe_ok: "run_mqtt H F (qcloud_iot_mqtt_unsubscribe H t) s = Some (r, s') \<Longrightarrow> shadow_ok s \<Longrightarrow> shadow_ok s'"
  by (erule ok.run_mqtt_keeps) (auto dest: session.unsubscribe_ok)

lemma subscribe_operation_ok:
  assumes "subscribe_operation_result_to_cloud H F s = Some (rc, s')" "shadow_ok s"
  shows "shadow_ok s'"
proof -
  obtain ok s1 where m: "sh_malloc H s = (ok, s1)" by fastforce
  have o1: "shadow_ok s1" using ok.malloc_keeps [OF m assms(2)] .
  have t: "shadow_ok (s1\<lparr>result_topic := Some t\<rparr>)"
    if "device_topic (cstr ''$shadow/operation/result/'') (cstr ''$template/operation/result/'') s1 = Some t" for t
    using o1 that by (auto simp: shadow_ok_def device_topic_def Let_def split: if_splits)
  have "\<exists>s2. shadow_ok s2 \<and> (s' = s2 \<or> (\<exists>t sp. run_mqtt H F (qcloud_iot_mqtt_subscribe H t sp) s2 = Some (rc, s')))"
    using assms m o1 t unfolding subscribe_operation_result_to_cloud_def Let_def
    by (auto split: option.splits if_splits)
  then show ?thesis using run_subscribe_ok by blast
qed

lemma publish_operation_ok:
  "publish_operation_to_cloud H F doc s = Some (rc, s') \<Longrightarrow> shadow_ok s \<Longrightarrow> shadow_ok s'"
  by (auto simp: publish_operation_to_cloud_def elim!: bind_SomeE split: option.splits intro: run_publish_ok)

lemma token_array_length [simp]: "length (token_array t) = MAX_SIZE_OF_CLIENT_TOKEN"
  by (simp add: token_array_def)

text \<open>Adding a request either appends it or fails and keeps the list.\<close>

lemma add_request_cases:
  assumes "add_request_to_list H token p s = (rc, s')"
  obtains "rc \<noteq> QCLOUD_RET_SUCCESS" "frame s s'" "calls s' = calls s"
  | t s1 m m' where "countdown H (unat (rp_timeout_sec p)) m = (t, m')" "rc = QCLOUD_RET_SUCCESS" "length (request_list s) < MAX_APPENDING_REQUEST_AT_ANY_GIVEN_TIME"
      "frame s s1" "calls s1 = calls s"
      "s' = s1\<lparr>request_list := request_list s @ [\<lparr>client_token = token_array token, req_method = rp_method p,
         user_context = rp_context p, req_timer = t, req_callback = rp_callback p\<rparr>]\<rparr>"
proof -
  obtain ok s1 where m1: "sh_malloc H s = (ok, s1)" by fastforce
  obtain t m where c: "countdown H (unat (rp_timeout_sec p)) (mq s1) = (t, m)" by fastforce
  obtain w where w: "m = (mq s1)\<lparr>env := w\<rparr>" using countdown_env [OF c] by blast
  let ?s2 = "s1\<lparr>mq := m\<rparr>"
  obtain node s3 where m2: "sh_malloc H ?s2 = (node, s3)" by fastforce
  note f = sh_malloc_frame [OF m1] sh_malloc_frame [OF m2]
  have f2: "frame s1 ?s2" by (simp add: w)
  have f3: "frame s s3" using frame_trans [OF frame_trans [OF _ f2]] f by blast
  have c3: "calls s3 = calls s" using f by simp
  note def = assms [unfolded add_request_to_list_def, simplified m1 c m2 prod.case Let_def]
  show ?thesis
  proof (cases "length (request_list s) \<ge> MAX_APPENDING_REQUEST_AT_ANY_GIVEN_TIME")
    case True
    then show ?thesis using assms that(1) by (auto simp: add_request_to_list_def)
  next
    case False
    show ?thesis
    proof (cases "ok \<and> node")
      case True
      then show ?thesis using def False f3 c3 frame_fields(1) [OF f3] that(2) [OF c] by auto
    next
      case no: False
      then show ?thesis using def False f f3 c3 that(1) by (auto split: if_splits)
    qed
  qed
qed

lemma add_request_ok: "add_request_to_list H token p s = (rc, s') \<Longrightarrow> shadow_ok s \<Longrightarrow> shadow_ok s'"
proof (erule add_request_cases)
  fix t s1 m m'
  let ?r = "\<lparr>client_token = token_array token, req_method = rp_method p, user_context = rp_context p, req_timer = t,
    req_callback = rp_callback p\<rparr>"
  assume *: "length (request_list s) < MAX_APPENDING_REQUEST_AT_ANY_GIVEN_TIME" "frame s s1" "shadow_ok s"
    "s' = s1\<lparr>request_list := request_list s @ [?r]\<rparr>"
  then have "shadow_ok s1" "request_list s1 = request_list s" using frame_shadow_ok frame_fields(1) by blast+
  then show "shadow_ok s'" using * by (auto simp: shadow_ok_def)
qed (rule frame_shadow_ok)

lemma do_shadow_request_ok: "do_shadow_request H F p doc sz s = Some (r, s') \<Longrightarrow> shadow_ok s \<Longrightarrow> shadow_ok s'"
  unfolding do_shadow_request_def Let_def
  by (auto elim!: bind_SomeE split: option.splits if_splits prod.splits)
     (assumption | erule ok.lookup_keeps publish_operation_ok add_request_ok)+

lemma resubscribe_if_needed_ok: "resubscribe_if_needed H F s = Some s' \<Longrightarrow> shadow_ok s \<Longrightarrow> shadow_ok s'"
  by (auto simp: resubscribe_if_needed_def elim!: bind_SomeE split: if_splits intro: subscribe_operation_ok)

lemma update_ok: "IOT_Shadow_Update H F doc sz cb ctx ms s = Some (r, s') \<Longrightarrow> shadow_ok s \<Longrightarrow> shadow_ok s'"
  by (auto simp: IOT_Shadow_Update_def elim!: bind_SomeE split: if_splits intro: do_shadow_request_ok resubscribe_if_needed_ok)

lemma get_ok: "IOT_Shadow_Get H F cb ctx ms s = Some (rc, s') \<Longrightarrow> shadow_ok s \<Longrightarrow> shadow_ok s'"
  by (auto simp: IOT_Shadow_Get_def Let_def elim!: bind_SomeE split: if_splits
      intro: do_shadow_request_ok shadow_ok_updates resubscribe_if_needed_ok)

lemma ack_wait_ok: "ack_wait H F s = Some s' \<Longrightarrow> shadow_ok s \<Longrightarrow> shadow_ok s'"
proof (induction rule: ack_wait.raw_induct [rotated 1, consumes 1, case_names step])
  case (step loop H F s s')
  note IH = step(1)
  show ?case using step(2,3) by (auto elim!: bind_SomeE split: if_splits dest: ok.yield_keeps IH)
qed

lemma update_sync_ok: "IOT_Shadow_Update_Sync H F doc sz ms s = Some (r, s') \<Longrightarrow> shadow_ok s \<Longrightarrow> shadow_ok s'"
  unfolding IOT_Shadow_Update_Sync_def
  by (auto elim!: bind_SomeE split: if_splits) (assumption | erule ack_wait_ok update_ok shadow_ok_updates)+

lemma get_sync_ok: "IOT_Shadow_Get_Sync H F ms s = Some (rc, s') \<Longrightarrow> shadow_ok s \<Longrightarrow> shadow_ok s'"
  unfolding IOT_Shadow_Get_Sync_def
  by (auto elim!: bind_SomeE split: if_splits) (assumption | erule ack_wait_ok get_ok shadow_ok_updates)+

lemma find_property_cases: "find_property H p s = (h, s') \<Longrightarrow> frame s s' \<and> props s' = props s \<and>
    (h = None \<or> h = List.find (\<lambda>h. p = ph_addr h) (property_handle_list s))"
  by (auto simp: find_property_def frame_fields dest!: sh_malloc_frame split: prod.splits if_splits)

lemma register_ok: "IOT_Shadow_Register_Property H addr p f s = Some (rc, s') \<Longrightarrow> shadow_ok s \<Longrightarrow> shadow_ok s'"
proof -
  assume a: "IOT_Shadow_Register_Property H addr p f s = Some (rc, s')" "shadow_ok s"
  obtain node s1 where n: "find_property H p s = (node, s1)" by fastforce
  note f = find_property_cases [OF n]
  have o1: "shadow_ok s1" using frame_shadow_ok a(2) f by blast
  obtain k1 s2 where m1: "sh_malloc H s1 = (k1, s2)" by fastforce
  obtain k2 s3 where m2: "sh_malloc H s2 = (k2, s3)" by fastforce
  have o3: "shadow_ok s2" "shadow_ok s3" using ok.malloc_keeps o1 m1 m2 by blast+
  have p3: "props s3 = props s1" using sh_malloc_frame [OF m1] sh_malloc_frame [OF m2] by simp
  have new: "shadow_ok (s3\<lparr>property_handle_list := property_handle_list s3 @ [\<lparr>ph_addr = addr, ph_property = p, ph_callback = f\<rparr>]\<rparr>)"
    if "f \<noteq> None" "props s1 p = Some q" "prop_key q \<noteq> None" "prop_data q \<noteq> None" for q
    using that o3(2) p3 by (auto simp: shadow_ok_def handler_ok_def)
  show "shadow_ok s'"
    using a n m1 m2 o1 o3 new
    by (auto simp: IOT_Shadow_Register_Property_def shadow_common_check_property_existence_def
        shadow_common_register_property_on_delta_def add_property_handle_to_list_def elim!: bind_SomeE split: if_splits)
qed

lemma unregister_ok: "IOT_Shadow_UnRegister_Property H p s = (rc, s') \<Longrightarrow> shadow_ok s \<Longrightarrow> shadow_ok s'"
proof -
  assume a: "IOT_Shadow_UnRegister_Property H p s = (rc, s')" "shadow_ok s"
  obtain n1 s1 where n: "find_property H p s = (n1, s1)" by fastforce
  obtain n2 s2 where n': "find_property H p s1 = (n2, s2)" by fastforce
  have "shadow_ok s1" "shadow_ok s2" using frame_shadow_ok a(2) find_property_cases n n' by blast+
  moreover from this have "shadow_ok (s2\<lparr>property_handle_list := remove1 h (property_handle_list s2)\<rparr>)" for h
    by (auto simp: shadow_ok_def dest: notin_set_remove1 set_mp [OF set_remove1_subset])
  ultimately show "shadow_ok s'" using a n n'
    by (auto simp: IOT_Shadow_UnRegister_Property_def shadow_common_check_property_existence_def
        shadow_common_remove_property_def split: if_splits option.splits)
qed

lemma shadow_step_ok: "shadow_step H F s s' \<Longrightarrow> shadow_ok s \<Longrightarrow> shadow_ok s'"
  by (erule shadow_stepE)
     (auto simp: IOT_Shadow_Publish_def IOT_Shadow_Subscribe_def IOT_Shadow_Unsubscribe_def intro: run_publish_ok run_subscribe_ok
       run_unsubscribe_ok update_ok get_ok update_sync_ok get_sync_ok ok.yield_keeps register_ok unregister_ok frame_shadow_ok frame_props)

lemma sync_wait_ok: "sync_wait H F rc s = Some s' \<Longrightarrow> shadow_ok s \<Longrightarrow> shadow_ok s'"
proof (induction rule: sync_wait.raw_induct [rotated 1, consumes 1, case_names step])
  case (step loop H F rc s s')
  note IH = step(1)
  show ?case using step(2,3) by (auto elim!: bind_SomeE split: if_splits dest: ok.yield_keeps IH)
qed

lemma zero_shadow_ok: "client_ok (at_most MAX_INTERVAL) (cl m) \<Longrightarrow> shadow_ok (zero_shadow m di ty ue pr)"
  by (simp add: zero_shadow_def shadow_ok_def)

lemma shadow_construct_ok: "IOT_Shadow_Construct H F ip ty ue pr m = Some (Some s) \<Longrightarrow> shadow_ok s"
proof -
  assume a: "IOT_Shadow_Construct H F ip ty ue pr m = Some (Some s)"
  have i: "shadow_ok t" if "qcloud_iot_shadow_init H u = (rc, t)" "shadow_ok u" for u t rc
    using that by (auto simp: qcloud_iot_shadow_init_def Let_def shadow_ok_def dest!: allocate_all_env split: prod.splits)
  show ?thesis
    using a unfolding IOT_Shadow_Construct_def Let_def
    by (auto elim!: bind_SomeE split: if_splits prod.splits sum.splits)
       (assumption | erule subscribe_operation_ok sync_wait_ok i | rule ok.synced zero_shadow_ok construct_ok)+
qed

text \<open>A shadow that was constructed, or only set up on a client as \<^verbatim>\<open>IOT_Shadow_Construct\<close> does before it subscribes.\<close>

definition shadow_constructed :: "'w hal \<Rightarrow> 'f float_text \<Rightarrow> ('w, 'f) shadow \<Rightarrow> bool" where
  "shadow_constructed H F s \<longleftrightarrow>
     (\<exists>ip ty ue pr m. IOT_Shadow_Construct H F ip ty ue pr m = Some (Some s)) \<or>
     (\<exists>m di ty ue pr. constructed H m \<and> qcloud_iot_shadow_init H (zero_shadow m di ty ue pr) = (QCLOUD_RET_SUCCESS, s))"

lemma shadow_init_ok: "qcloud_iot_shadow_init H u = (rc, t) \<Longrightarrow> shadow_ok u \<Longrightarrow> shadow_ok t"
  by (auto simp: qcloud_iot_shadow_init_def Let_def shadow_ok_def dest!: allocate_all_env split: prod.splits)

interpretation shadow: component "shadow_constructed H F" "shadow_step H F" shadow_ok for H F
  by unfold_locales
     (auto simp: shadow_constructed_def intro: shadow_construct_ok shadow_step_ok shadow_init_ok zero_shadow_ok client.initial_inv)

section \<open>Expiry\<close>

text \<open>The callbacks of the application for a list of requests that end with the same status.\<close>

definition answers :: "RequestAck \<Rightarrow> byte list \<Rightarrow> Request list \<Rightarrow> shadow_event list" where
  "answers status doc rs = concat (map (\<lambda>r. case req_callback r of
     Some (User_callback f) \<Rightarrow> [Request_done f (req_method r) status doc (user_context r)] | _ \<Rightarrow> []) rs)"

definition ack_after :: "RequestAck \<Rightarrow> Request list \<Rightarrow> RequestAck \<Rightarrow> RequestAck" where
  "ack_after status rs ack = (if \<exists>r \<in> set rs. acks r then status else ack)"

lemma answers_simps [simp]:
  "answers status doc [] = []" "answers status doc (rs @ rs') = answers status doc rs @ answers status doc rs'"
  by (simp_all add: answers_def)

lemma ack_after_simps [simp]:
  "ack_after status [] ack = ack" "ack_after status rs (ack_after status rs' ack) = ack_after status (rs' @ rs) ack"
  by (auto simp: ack_after_def)

lemma run_callback_exact:
  "calls (run_callback r status s) = calls s @ answers status (recv_doc s) [r]"
  "ack_update (run_callback r status s) = ack_after status [r] (ack_update s)"
  by (simp_all add: run_callback_def answers_def ack_after_def acks_def call_def split: option.splits request_callback.splits)

lemma expired_loop_exact:
  assumes clock: "\<And>w. fst (gettimeofday H w) = t"
  shows "expired_loop H rs s = (rs', s') \<Longrightarrow>
    rs' = filter (\<lambda>r. t < req_timer r) rs \<and>
    calls s' = calls s @ answers ACK_TIMEOUT (recv_doc s) (filter (\<lambda>r. req_timer r \<le> t) rs) \<and>
    ack_update s' = ack_after ACK_TIMEOUT (filter (\<lambda>r. req_timer r \<le> t) rs) (ack_update s)"
proof (induction rs arbitrary: s rs')
  case (Cons r rs)
  obtain m where e: "expired H (req_timer r) (mq s) = (req_timer r \<le> t, m)"
    using clock [of "env (mq s)"] by (cases "gettimeofday H (env (mq s))") (simp add: expired_def now_def)
  obtain w where m: "m = (mq s)\<lparr>env := w\<rparr>" using expired_env [OF e] by blast
  let ?s = "s\<lparr>mq := m\<rparr>"
  show ?case
  proof (cases "req_timer r \<le> t")
    case True
    then have "expired_loop H rs (run_callback r ACK_TIMEOUT ?s) = (rs', s')" using Cons.prems e by simp
    from Cons.IH [OF this] show ?thesis
      using True frame_fields(7) [OF frame_run_callback [of ?s r ACK_TIMEOUT]]
        answers_simps(2) [of ACK_TIMEOUT "recv_doc s" "[r]" "filter (\<lambda>r. req_timer r \<le> t) rs"]
      by (simp add: run_callback_exact recv_doc_def)
  next
    case False
    then obtain rs'' where "expired_loop H rs ?s = (rs'', s')" "rs' = r # rs''"
      using Cons.prems e by (auto split: prod.splits)
    with Cons.IH [OF this(1)] False show ?thesis by (simp add: recv_doc_def)
  qed
qed simp

section \<open>Replies\<close>

text \<open>A lookup of a top-level key in a document of the receive buffer.\<close>

lemma lookup_key:
  assumes "\<And>w. fst (hal_malloc H w)" "DOT \<notin> set k" "json_text j t" "json_path [k] j = Some x"
  shows "\<exists>w u. json_text x u \<and> lookup H (\<lambda>A. LITE_json_value_of A k) t s = Some (Some (value_text x u), s\<lparr>mq := (mq s)\<lparr>env := w\<rparr>\<rparr>)"
proof -
  have "\<forall>w. fst (hal_malloc H w)" "\<forall>k' \<in> set [k]. DOT \<notin> set k'" "[k] \<noteq> []" using assms by auto
  from value_of_path [OF this assms(3,4), of "[]" "env (mq s)"] obtain u w where u: "json_text x u"
    "LITE_json_value_of (hal_malloc H) k t (env (mq s)) = Some (Some (value_text x u), w)" by auto
  then have "lookup H (\<lambda>A. LITE_json_value_of A k) t s = Some (Some (value_text x u), s\<lparr>mq := (mq s)\<lparr>env := w\<rparr>\<rparr>)"
    by (simp add: lookup_def del: LITE_json_value_of.simps)
  then show ?thesis using u(1) by blast
qed

lemma parse_keys:
  "parse_client_token = (\<lambda>A. LITE_json_value_of A (cstr ''clientToken''))"
  "parse_shadow_operation_type = (\<lambda>A. LITE_json_value_of A (cstr ''type''))"
  by (simp_all add: fun_eq_iff parse_client_token_def parse_shadow_operation_type_def)

lemma plain_keys: "DOT \<notin> set (cstr ''clientToken'')" "DOT \<notin> set (cstr ''type'')" "DOT \<notin> set (cstr ''result'')"
  by (simp_all add: cstr_def)

lemma parse_number_lookup:
  "lookup H (parse_number field scan) doc s = do {
     (v, s) \<leftarrow> lookup H (\<lambda>A. LITE_json_value_of A field) doc s;
     (case v of None \<Rightarrow> Some (None, s) | Some t \<Rightarrow> do { n \<leftarrow> scan t; Some (n, s) }) }"
  by (auto simp: lookup_def parse_number_def simp del: LITE_json_value_of.simps split: bind_splits option.splits)

lemma result_code_lookup:
  assumes "\<And>w. fst (hal_malloc H w)" "json_text j t" "json_path [cstr ''result''] j = Some (JNum (dec_int n))"
    and "- (2 ^ 15) \<le> n" "n \<le> 2 ^ 15 - 1"
  shows "\<exists>w. lookup H parse_shadow_operation_result_code t s = Some (Some n, s\<lparr>mq := (mq s)\<lparr>env := w\<rparr>\<rparr>)"
proof -
  from lookup_key [OF assms(1) plain_keys(3) assms(2,3), of s] obtain w u where u: "json_text (JNum (dec_int n)) u"
    "lookup H (\<lambda>A. LITE_json_value_of A (cstr ''result'')) t s = Some (Some (value_text (JNum (dec_int n)) u), s\<lparr>mq := (mq s)\<lparr>env := w\<rparr>\<rparr>)"
    by blast
  have "u = dec_int n" using u(1) by (auto elim: json_text.cases)
  then have "lookup H parse_shadow_operation_result_code t s = Some (Some n, s\<lparr>mq := (mq s)\<lparr>env := w\<rparr>\<rparr>)"
    using u(2) sscanf_dec_int [OF assms(4,5)] by (simp add: parse_shadow_operation_result_code_def parse_number_lookup)
  then show ?thesis by blast
qed

lemma handle_reply_exact:
  assumes "\<And>w. fst (hal_malloc H w)" "json_text j (recv_doc s)" "json_path [cstr ''result''] j = Some (JNum (dec_int n))"
    and "- (2 ^ 15) \<le> n" "n \<le> 2 ^ 15 - 1"
  shows "\<exists>w. handle_reply H F (cstr ''update'') r s =
    Some (run_callback r (if n = 0 then ACK_ACCEPTED else ACK_REJECTED) (s\<lparr>mq := (mq s)\<lparr>env := w\<rparr>\<rparr>))"
proof -
  from result_code_lookup [OF assms, of s] obtain w where
    "lookup H parse_shadow_operation_result_code (recv_doc s) s = Some (Some n, s\<lparr>mq := (mq s)\<lparr>env := w\<rparr>\<rparr>)" by blast
  moreover have "cstr ''update'' \<noteq> cstr ''get''" by (simp add: cstr_def)
  ultimately show ?thesis by (auto simp: handle_reply_def Let_def)
qed

definition has_token :: "byte list \<Rightarrow> Request \<Rightarrow> bool" where
  "has_token token r \<longleftrightarrow> takeWhile (\<lambda>c. c \<noteq> 0) (client_token r) = token"

lemma reply_loop_exact:
  assumes "\<And>w. fst (hal_malloc H w)" "json_path [cstr ''result''] j = Some (JNum (dec_int n))" "- (2 ^ 15) \<le> n" "n \<le> 2 ^ 15 - 1"
  defines "status \<equiv> if n = 0 then ACK_ACCEPTED else ACK_REJECTED"
  shows "\<forall>r \<in> set rs. 0 \<in> set (client_token r) \<Longrightarrow> json_text j (recv_doc s) \<Longrightarrow>
    \<exists>s'. reply_loop H F token (cstr ''update'') rs s = Some (filter (\<lambda>r. \<not> has_token token r) rs, s') \<and> frame s s' \<and>
      calls s' = calls s @ answers status (recv_doc s) (filter (has_token token) rs) \<and>
      ack_update s' = ack_after status (filter (has_token token) rs) (ack_update s)"
proof (induction rs arbitrary: s)
  case (Cons r rs)
  have hit: "token_matches (client_token r) token = Some (has_token token r)"
    using Cons.prems(1) by (simp add: token_matches_def has_token_def)
  show ?case
  proof (cases "has_token token r")
    case True
    obtain w where h: "handle_reply H F (cstr ''update'') r s = Some (run_callback r status (s\<lparr>mq := (mq s)\<lparr>env := w\<rparr>\<rparr>))"
      using handle_reply_exact [OF assms(1) Cons.prems(2) assms(2-4)] unfolding status_def by blast
    let ?s = "run_callback r status (s\<lparr>mq := (mq s)\<lparr>env := w\<rparr>\<rparr>)"
    have f: "frame s ?s" by (simp add: frame_then_callback)
    have d: "recv_doc ?s = recv_doc s" using frame_fields(7) [OF f] .
    from Cons.IH [of ?s] Cons.prems d obtain s' where s': "reply_loop H F token (cstr ''update'') rs ?s = Some (filter (\<lambda>r. \<not> has_token token r) rs, s')"
      "frame ?s s'" "calls s' = calls ?s @ answers status (recv_doc s) (filter (has_token token) rs)"
      "ack_update s' = ack_after status (filter (has_token token) rs) (ack_update ?s)" by auto
    have c: "calls s' = calls s @ answers status (recv_doc s) (filter (has_token token) (r # rs))"
      using s'(3) True answers_simps(2) [of status "recv_doc s" "[r]" "filter (has_token token) rs"]
      by (simp add: run_callback_exact) (simp add: recv_doc_def)
    have a: "ack_update s' = ack_after status (filter (has_token token) (r # rs)) (ack_update s)"
      using s'(4) True by (simp add: run_callback_exact)
    show ?thesis using hit True h s'(1) frame_trans [OF f s'(2)] c a by simp
  next
    case False
    with Cons.IH [of s] Cons.prems hit show ?thesis by auto
  qed
qed simp

text \<open>The document in the buffer after the copy.\<close>

lemma received_document:
  assumes "length (shadow_recv_buf s) = CLOUD_IOT_JSON_RX_BUF_LEN"
    and "ptopic message \<noteq> []" "unat (payload_len message) = length t" "length t < CLOUD_IOT_JSON_RX_BUF_LEN"
      "payload message = t @ rest" "rest \<noteq> []"
    and "0 \<notin> set t"
  obtains b where "on_operation_result_handler H F message s = handle_document H F (s\<lparr>shadow_recv_buf := b\<rparr>)"
    "takeWhile (\<lambda>c. c \<noteq> 0) b = t"
proof -
  obtain x xs where x: "rest = x # xs" using assms(6) by (cases rest) auto
  have "rd_bytes (payload message) 0 (length t + 1) = Some (t @ [x])" using assms(5) x by (simp add: rd_bytes_def)
  moreover have "wr_bytes (shadow_recv_buf s) 0 (t @ [x]) = Some (t @ x # drop (length t + 1) (shadow_recv_buf s))"
    using assms(1,4) by (simp add: wr_bytes_def)
  moreover have "wr (t @ x # drop (length t + 1) (shadow_recv_buf s)) (length t) 0 =
      Some (t @ 0 # drop (length t + 1) (shadow_recv_buf s))" by (simp add: wr_def)
  ultimately have "on_operation_result_handler H F message s =
      handle_document H F (s\<lparr>shadow_recv_buf := t @ 0 # drop (length t + 1) (shadow_recv_buf s)\<rparr>)"
    using assms(2,3) less_imp_le [OF assms(4)] min_absorb2 [of "length t" "CLOUD_IOT_JSON_RX_BUF_LEN - 1"] assms(4)
    by (simp add: on_operation_result_handler_def Let_def)
  then show ?thesis using that takeWhile_string [OF assms(7)] by blast
qed

text \<open>A document of the type \<open>update\<close> with a token is a reply.\<close>

lemma document_is_reply:
  assumes malloc: "\<And>w. fst (hal_malloc H w)" and json: "json_text j (recv_doc s)"
    and fields: "json_path [cstr ''type''] j = Some (JStr (cstr ''update''))" "json_path [cstr ''clientToken''] j = Some (JStr token)"
  shows "\<exists>w. handle_document H F s = (if request_list s = [] then Some (s\<lparr>mq := (mq s)\<lparr>env := w\<rparr>\<rparr>) else do {
    (rs, s) \<leftarrow> reply_loop H F token (cstr ''update'') (rev (request_list s)) (s\<lparr>mq := (mq s)\<lparr>env := w\<rparr>\<rparr>);
    Some (s\<lparr>request_list := rev rs\<rparr>) })"
proof -
  let ?s = "\<lambda>w. s\<lparr>mq := (mq s)\<lparr>env := w\<rparr>\<rparr>"
  have d: "recv_doc (?s w) = recv_doc s" for w by (simp add: recv_doc_def)
  from lookup_key [OF malloc plain_keys(2) json fields(1), of s] obtain w1 where
    l1: "lookup H parse_shadow_operation_type (recv_doc s) s = Some (Some (cstr ''update''), ?s w1)"
    by (auto simp: parse_keys)
  from lookup_key [OF malloc plain_keys(1) json fields(2), of "?s w1"] obtain w2 where
    l2: "lookup H parse_client_token (recv_doc s) (?s w1) = Some (Some token, ?s w2)"
    by (auto simp: parse_keys)
  have h: "handle_document H F s = handle_replies H F token (cstr ''update'') (?s w2)"
    using l1 l2 by (simp add: handle_document_def d) (simp add: cstr_def)
  obtain w3 where m: "sh_malloc H (?s w2) = (True, ?s w3)"
    using malloc [of w2] by (cases "hal_malloc H w2") (simp add: sh_malloc_def HAL_Malloc_def)
  show ?thesis
  proof (cases "request_list s = []")
    case True
    then show ?thesis using h by (auto simp: handle_replies_def)
  next
    case False
    then show ?thesis using h m by (auto simp: handle_replies_def)
  qed
qed

lemma handle_document_exact:
  assumes malloc: "\<And>w. fst (hal_malloc H w)" and tokens: "\<forall>r \<in> set (request_list s). 0 \<in> set (client_token r)"
    and json: "json_text j (recv_doc s)"
    and fields: "json_path [cstr ''type''] j = Some (JStr (cstr ''update''))" "json_path [cstr ''clientToken''] j = Some (JStr token)"
      "json_path [cstr ''result''] j = Some (JNum (dec_int n))" "- (2 ^ 15) \<le> n" "n \<le> 2 ^ 15 - 1"
  defines "status \<equiv> if n = 0 then ACK_ACCEPTED else ACK_REJECTED"
  shows "\<exists>s'. handle_document H F s = Some s' \<and> recv_doc s' = recv_doc s \<and>
    request_list s' = filter (\<lambda>r. \<not> has_token token r) (request_list s) \<and>
    calls s' = calls s @ answers status (recv_doc s) (filter (has_token token) (rev (request_list s))) \<and>
    ack_update s' = ack_after status (filter (has_token token) (rev (request_list s))) (ack_update s)"
proof -
  from document_is_reply [OF malloc json fields(1,2), of F] obtain w where
    h: "handle_document H F s = (if request_list s = [] then Some (s\<lparr>mq := (mq s)\<lparr>env := w\<rparr>\<rparr>) else do {
      (rs, s) \<leftarrow> reply_loop H F token (cstr ''update'') (rev (request_list s)) (s\<lparr>mq := (mq s)\<lparr>env := w\<rparr>\<rparr>);
      Some (s\<lparr>request_list := rev rs\<rparr>) })" by blast
  let ?s = "s\<lparr>mq := (mq s)\<lparr>env := w\<rparr>\<rparr>"
  have d: "recv_doc ?s = recv_doc s" by (simp add: recv_doc_def)
  from reply_loop_exact [OF malloc fields(3-5), of "rev (request_list s)" ?s F token] tokens json d obtain s' where
    r: "reply_loop H F token (cstr ''update'') (rev (request_list s)) ?s = Some (filter (\<lambda>r. \<not> has_token token r) (rev (request_list s)), s')"
      "frame ?s s'" "calls s' = calls s @ answers status (recv_doc s) (filter (has_token token) (rev (request_list s)))"
      "ack_update s' = ack_after status (filter (has_token token) (rev (request_list s))) (ack_update s)"
    unfolding status_def by auto
  show ?thesis
    using h r(1,3,4) frame_fields(7) [OF r(2)] d by (cases "request_list s = []") (auto simp: rev_filter recv_doc_def)
qed

section \<open>Lost replies\<close>

lemma unanswered_no_end: "ack_wait H F s = Some s' \<Longrightarrow> unanswered s \<Longrightarrow> False"
proof (induction rule: ack_wait.raw_induct [rotated 1, consumes 1, case_names step])
  case (step loop H F s s')
  note IH = step(1)
  show ?case using step(2,3) by (auto simp: unanswered_def [of s] elim!: bind_SomeE dest: unans.yield_keeps [of H F _ s] IH)
qed

lemma unanswered_hangs: "unanswered s \<Longrightarrow> ack_wait H F s = None"
  using unanswered_no_end by (cases "ack_wait H F s") auto

lemma reply_loop_lost:
  assumes "\<And>w. \<exists>w'. parse_shadow_operation_result_code (hal_malloc H) (recv_doc s) w = Some (None, w')"
  shows "\<forall>r \<in> set rs. 0 \<in> set (client_token r) \<Longrightarrow>
    \<exists>w'. reply_loop H F token ty rs (s\<lparr>mq := (mq s)\<lparr>env := w\<rparr>\<rparr>) =
      Some (filter (\<lambda>r. \<not> has_token token r) rs, s\<lparr>mq := (mq s)\<lparr>env := w'\<rparr>\<rparr>)"
proof (induction rs arbitrary: w)
  case Nil
  then show ?case by auto
next
  case (Cons r rs)
  let ?s = "\<lambda>w. s\<lparr>mq := (mq s)\<lparr>env := w\<rparr>\<rparr>"
  have hit: "token_matches (client_token r) token = Some (has_token token r)"
    using Cons.prems by (simp add: token_matches_def has_token_def)
  obtain w1 where "parse_shadow_operation_result_code (hal_malloc H) (recv_doc s) w = Some (None, w1)" using assms by blast
  then have "handle_reply H F ty r (?s w) = Some (?s w1)" by (simp add: handle_reply_def lookup_def recv_doc_def)
  then show ?case using hit Cons.IH [of w1] Cons.IH [of w] Cons.prems by auto
qed

section \<open>Requests\<close>

text \<open>A message of quality 0 is sent without reading from the network: no callback runs.\<close>

lemma publish_quiet:
  "qcloud_iot_mqtt_publish H t p m = Some (r, m') \<Longrightarrow> pub_qos p = QOS0 \<Longrightarrow> events m' = events m"
  by (auto simp: qcloud_iot_mqtt_publish_def Let_def elim!: bind_SomeE split: model_splits dest!: countdown_ms_env send_mqtt_packet_env)

lemma publish_operation_quiet:
  "publish_operation_to_cloud H F doc s = Some (rc, s') \<Longrightarrow> \<exists>m. s' = s\<lparr>mq := m\<rparr>"
  by (auto simp: publish_operation_to_cloud_def run_mqtt_def elim!: bind_SomeE split: option.splits dest!: publish_quiet
      intro: exI [of _ "mq s"])

text \<open>Inserting the type.\<close>

lemma insert_str_holds:
  assumes "holds str (c # t)" "0 \<notin> set pch" "insert_str str pch 1 = Some b"
  shows "holds b (c # pch @ t)"
proof -
  obtain r where str: "str = c # t @ 0 # r" "c \<noteq> 0" "0 \<notin> set t" using assms(1) by (auto simp: holds_def)
  have n: "strlen str = Some (Suc (length t))" using holds_strlen [OF assms(1)] by simp
  obtain b1 b2 where b: "wr_bytes str (Suc (length pch)) t = Some b1" "wr_bytes b1 1 pch = Some b2"
    "wr b2 (Suc (length t) + length pch) 0 = Some b" using assms(3) n str by (auto simp: insert_str_def elim!: bind_SomeE)
  have b1: "b1 = take (Suc (length pch)) str @ t @ drop (Suc (length pch) + length t) str"
    using b(1) by (auto simp: wr_bytes_Some_iff)
  have l: "Suc (length pch) + length t \<le> length str" using b(1) by (auto simp: wr_bytes_Some_iff)
  then have "b2 = c # pch @ t @ drop (Suc (length pch) + length t) str"
    using b(2) str by (auto simp: wr_bytes_Some_iff b1)
  moreover have "Suc (length t) + length pch < length b2" "b = b2[Suc (length t) + length pch := 0]"
    using b(3) by (auto simp: wr_def split: if_splits)
  ultimately have "\<exists>r. b = c # pch @ t @ 0 # r"
    by (cases "drop (Suc (length pch) + length t) str") (auto simp: list_update_append split: if_splits)
  then show ?thesis using str(2,3) assms(2) by (auto simp: holds_def)
qed

lemma set_type_holds:
  assumes "set_shadow_json_type buf sz meth = Some (QCLOUD_RET_SUCCESS, b)" "holds buf (c # doc)"
  shows "holds b (c # type_member meth @ doc)"
proof -
  have "0 \<notin> set (type_member meth)" by (cases meth) (simp_all add: type_member_def cstr_def)
  then show ?thesis
    using assms insert_str_holds by (auto simp: set_shadow_json_type_def Let_def elim!: bind_SomeE split: if_splits)
qed

text \<open>What a request does to the list of the pending ones and to the buffer of the caller.\<close>

lemma do_shadow_request_cases:
  assumes "do_shadow_request H F p buf sz s = Some ((rc, b), s')" "holds buf (c # doc)"
  shows "calls s' = calls s \<and>
    (if rc = QCLOUD_RET_SUCCESS
     then holds b (c # type_member (rp_method p) @ doc) \<and>
       (\<exists>token w t m m'. parse_client_token (hal_malloc H) (c # doc) (env (mq s)) = Some (Some token, w) \<and>
         countdown H (unat (rp_timeout_sec p)) m = (t, m') \<and>
         request_list s' = request_list s @ [\<lparr>client_token = token_array token, req_method = rp_method p,
           user_context = rp_context p, req_timer = t, req_callback = rp_callback p\<rparr>])
     else request_list s' = request_list s)"
proof -
  have n: "strlen buf = Some (length (c # doc))" "take (length (c # doc)) buf = c # doc"
    using holds_strlen [OF assms(2)] assms(2) by (auto simp: holds_def)
  obtain tok s1 where l: "lookup H parse_client_token (c # doc) s = Some (tok, s1)"
    using assms(1) n by (auto simp: do_shadow_request_def elim!: bind_SomeE)
  have f: "request_list s1 = request_list s" "calls s1 = calls s" using lookup_frame [OF l] frame_fields(1) by auto
  have rest: "(case tok of
        None \<Rightarrow> Some ((QCLOUD_ERR_INVAL, buf), s1)
      | Some token \<Rightarrow> do {
          (rc, doc) \<leftarrow> set_shadow_json_type buf sz (rp_method p);
          if rc \<noteq> QCLOUD_RET_SUCCESS then Some ((rc, doc), s1)
          else do {
            n \<leftarrow> strlen doc;
            (rc, s) \<leftarrow> publish_operation_to_cloud H F (take n doc) s1;
            if rc \<ge> 0
            then let (rc, s) = add_request_to_list H token p s in Some ((rc, doc), s)
            else Some ((rc, doc), s) } }) = Some ((rc, b), s')"
    using assms(1) n l by (simp add: do_shadow_request_def)
  show ?thesis
  proof (cases "rc = QCLOUD_RET_SUCCESS")
    case True
    from rest True obtain token k rc' s2 where t: "tok = Some token"
      and ty: "set_shadow_json_type buf sz (rp_method p) = Some (QCLOUD_RET_SUCCESS, b)"
      and p: "publish_operation_to_cloud H F (take k b) s1 = Some (rc', s2)" and a: "add_request_to_list H token p s2 = (rc, s')"
      by (auto elim!: bind_SomeE split: option.splits if_splits prod.splits)
    obtain m where m: "s2 = s1\<lparr>mq := m\<rparr>" using publish_operation_quiet [OF p] by blast
    have "\<exists>w. parse_client_token (hal_malloc H) (c # doc) (env (mq s)) = Some (Some token, w)"
      using l t by (auto simp: lookup_def elim!: bind_SomeE)
    with a show ?thesis using True f m set_type_holds [OF ty assms(2)] by (elim add_request_cases) (simp, force)
  next
    case False
    then show ?thesis using rest f
      by (auto elim!: bind_SomeE split: option.splits if_splits prod.splits dest!: publish_operation_quiet elim!: add_request_cases
          simp: frame_fields)
  qed
qed

text \<open>A request puts its packet on the wire when it succeeds. It returns when the packet fits half the write buffer, or when the network takes
  writes whole.\<close>

lemma publish0_sends:
  assumes net: "net_sends H sent" and clock: "clock_steady H time" and ok: "client_ok within (cl m)"
    and topic: "length topic \<le> MAX_SIZE_OF_CLOUD_TOPIC" and pay: "length pay < 2 ^ 27"
    and bs: "bs = publish_bytes 0 QOS0 0 0 topic pay"
    and p: "p = \<lparr>pub_qos = QOS0, pub_retained = 0, pub_id = 0, pub_payload = Some pay\<rparr>"
  shows "(length bs \<le> 1024 \<or> (\<exists>T. net_works H T) \<longrightarrow> qcloud_iot_mqtt_publish H topic p m \<noteq> None) \<and>
    (\<forall>rc p' m'. qcloud_iot_mqtt_publish H topic p m = Some ((rc, p'), m') \<longrightarrow>
       (0 \<le> rc \<longrightarrow> transmitted bs (sent (env m)) (sent (env m'))) \<and>
       ((\<exists>T. net_works H T) \<and> topic \<noteq> [] \<and> get_client_conn_state m \<noteq> 0 \<and> command_timeout_ms (cl m) \<noteq> 0 \<and>
          length bs < QCLOUD_IOT_MQTT_TX_BUF_LEN \<longrightarrow> 0 \<le> rc \<and> sent (env m') = sent (env m) @ bs))"
proof (cases "topic = [] \<or> get_client_conn_state m = 0")
  case True
  then show ?thesis using topic p by (auto simp: qcloud_iot_mqtt_publish_def)
next
  case False
  have len: "publish_rem_len QOS0 topic pay < 128 ^ 4" using topic pay by (simp add: publish_rem_len_def)
  have buf: "length (write_buf (cl m)) = 2048" "write_buf_size (cl m) = 2048" using ok by (simp_all add: client_ok_def buffers_ok_def)
  obtain timer w where t: "countdown_ms H (unat (command_timeout_ms (cl m))) m = (timer, m\<lparr>env := w\<rparr>)" by (rule countdown_ms_cases)
  have keep: "sent w = sent (env m)" using clock_sends(3) [OF net t] by simp
  have later: "T < timer" if "net_works H T" "command_timeout_ms (cl m) \<noteq> 0" for T
    using countdown_later [OF that(1) _ t] that(2) by (simp add: unat_gt_0)
  show ?thesis
  proof (cases "get_mqtt_packet_len (publish_rem_len QOS0 topic pay) > 2048")
    case True
    then have "serialize_publish_packet (write_buf (cl m)) (write_buf_size (cl m)) 0 QOS0 0 0 topic (Some pay) = Some (Inl QCLOUD_ERR_BUF_TOO_SHORT)"
      using serialize_publish_put [of QOS0 topic pay] len buf by simp
    moreover have "\<not> length bs < 2048" using True packet_len_close [OF len] by (simp add: bs length_publish_bytes)
    ultimately show ?thesis using t False topic p by (auto simp: qcloud_iot_mqtt_publish_def)
  next
    case fits: False
    let ?m = "cl_update (\<lambda>c. c\<lparr>write_buf := bs @ drop (length bs) (write_buf (cl m))\<rparr>) (m\<lparr>env := w\<rparr>)"
    have l: "length bs \<le> 2048" "0 < length bs" using packet_len_covers [OF len] fits by (simp_all add: bs length_publish_bytes)
    have "serialize_publish_packet (write_buf (cl m)) (write_buf_size (cl m)) 0 QOS0 0 0 topic (Some pay) =
        Some (Inr (bs @ drop (length bs) (write_buf (cl m)), length bs))"
      using l fits serialize_publish_put [of QOS0 topic pay] len buf by (simp add: put_fits bs)
    then have pub: "qcloud_iot_mqtt_publish H topic p m = send_mqtt_packet H (length bs) timer ?m \<bind> (\<lambda>(rc, m).
        if rc \<noteq> QCLOUD_RET_SUCCESS then Some ((rc, p), m) else Some ((0, p), m))"
      using t False topic by (simp add: qcloud_iot_mqtt_publish_def p cong: if_cong)
    have ok': "buffers_ok (cl ?m)" "take (length bs) (write_buf (cl ?m)) = bs" "write_buf_size (cl ?m) = 2048" "sent (env ?m) = sent (env m)"
      using ok l buf keep by (simp_all add: client_ok_def buffers_ok_def)
    have le: "length bs \<le> write_buf_size (cl ?m)" using l ok'(3) by simp
    show ?thesis
    proof (cases "send_mqtt_packet H (length bs) timer ?m")
      case None
      have "\<not> length bs \<le> 1024" using send_packet [OF net clock ok'(1) l(2) le ok'(2), of timer] None by auto
      moreover have "\<not> (\<exists>T. net_works H T)" using send_works_returns [OF _ clock ok'(1)] None by blast
      ultimately show ?thesis using pub None by simp
    next
      case (Some r)
      then have ret: "length bs \<le> 1024 \<or> send_mqtt_packet H (length bs) timer ?m \<noteq> None" by simp
      from send_packet [OF net clock ok'(1) l(2) le ok'(2) ret] obtain rc w' where
        "send_mqtt_packet H (length bs) timer ?m = Some (rc, ?m\<lparr>env := w'\<rparr>)" "rc \<le> 0"
        "rc = QCLOUD_RET_SUCCESS \<longrightarrow> transmitted bs (sent (env ?m)) (sent w')"
        "\<forall>T. net_works H T \<and> T < timer \<and> length bs < write_buf_size (cl ?m) \<longrightarrow>
           rc = QCLOUD_RET_SUCCESS \<and> sent w' = sent (env ?m) @ bs" by blast
      then show ?thesis using pub ok'(3,4) later by (cases "rc = QCLOUD_RET_SUCCESS") auto
    qed
  qed
qed

text \<open>The packet of a document, unless the topic of the device is too long.\<close>

definition operation_packet :: "byte list \<Rightarrow> ('w, 'f) shadow \<Rightarrow> byte list option" where
  "operation_packet doc s = map_option (\<lambda>topic. publish_bytes 0 QOS0 0 0 topic doc)
     (device_topic (cstr ''$shadow/operation/'') (cstr ''$template/operation/'') s)"

text \<open>The network is one that takes writes whole, and nothing of the client stops a packet that is shorter than the write buffer.\<close>

definition clear_way :: "'w hal \<Rightarrow> byte list \<Rightarrow> ('w, 'f) shadow \<Rightarrow> bool" where
  "clear_way H bs s \<longleftrightarrow> (\<exists>T. net_works H T) \<and> IOT_MQTT_IsConnected (mq s) \<and> command_timeout_ms (cl (mq s)) \<noteq> 0 \<and>
     length bs < QCLOUD_IOT_MQTT_TX_BUF_LEN"

lemma publish_operation_sends:
  assumes net: "net_sends H sent" and clock: "clock_steady H time" and ok: "shadow_ok s" and doc: "length doc < 2 ^ 27"
  shows "((\<forall>bs. operation_packet doc s = Some bs \<longrightarrow> length bs \<le> 1024) \<or> (\<exists>T. net_works H T) \<longrightarrow>
      publish_operation_to_cloud H F doc s \<noteq> None) \<and>
    (\<forall>rc s'. publish_operation_to_cloud H F doc s = Some (rc, s') \<longrightarrow>
       (0 \<le> rc \<longrightarrow> (\<exists>bs. operation_packet doc s = Some bs \<and> transmitted bs (sent (env (mq s))) (sent (env (mq s'))))) \<and>
       (\<forall>bs. operation_packet doc s = Some bs \<and> clear_way H bs s \<longrightarrow> 0 \<le> rc \<and> sent (env (mq s')) = sent (env (mq s)) @ bs))"
proof (cases "device_topic (cstr ''$shadow/operation/'') (cstr ''$template/operation/'') s")
  case None
  then show ?thesis by (auto simp: publish_operation_to_cloud_def operation_packet_def)
next
  case (Some topic)
  let ?p = "\<lparr>pub_qos = QOS0, pub_retained = 0, pub_id = 0, pub_payload = Some doc\<rparr>" and ?m = "(mq s)\<lparr>events := []\<rparr>"
  have l: "length topic \<le> MAX_SIZE_OF_CLOUD_TOPIC" "topic \<noteq> []" using Some by (auto simp: device_topic_def Let_def split: if_splits)
  have ok': "client_ok (at_most MAX_INTERVAL) (cl ?m)" using ok by (simp add: shadow_ok_def)
  note pub = publish0_sends [OF net clock ok' l(1) doc refl refl]
  have op: "publish_operation_to_cloud H F doc s = (case qcloud_iot_mqtt_publish H topic ?p ?m of None \<Rightarrow> None
      | Some ((rc, p), m) \<Rightarrow> Some (rc, s\<lparr>mq := m\<rparr>))"
    using Some by (auto simp: publish_operation_to_cloud_def run_mqtt_def dest: publish_quiet split: option.splits)
  have packet: "operation_packet doc s = Some (publish_bytes 0 QOS0 0 0 topic doc)" using Some by (simp add: operation_packet_def)
  show ?thesis
  proof (cases "qcloud_iot_mqtt_publish H topic ?p ?m")
    case None
    then show ?thesis using op pub packet by auto
  next
    case pubd: (Some x)
    obtain rc q m where x: "x = ((rc, q), m)" by (metis surj_pair)
    then show ?thesis using op pubd pub packet l(2) by (auto simp: clear_way_def IOT_MQTT_IsConnected_def get_client_conn_state_def)
  qed
qed

lemma set_type_returns:
  assumes "holds buf (c # doc)" "length buf = unat sz"
  shows "\<exists>rc b. set_shadow_json_type buf sz meth = Some (rc, b) \<and> length b = length buf \<and> (rc = QCLOUD_RET_SUCCESS \<or> rc = QCLOUD_ERR_INVAL)"
proof -
  let ?n = "Suc (length doc)" and ?k = "length (type_member meth)"
  have n: "strlen buf = Some ?n" "?n < unat sz" using holds_strlen [OF assms(1)] holds_length [OF assms(1)] assms(2) by simp_all
  have k: "?k \<le> 18" by (cases meth) (simp_all add: type_member_def cstr_def)
  have r: "unat (sz - of_nat ?n) = unat sz - ?n" using n(2) by (intro unat_size_diff) simp
  then have r1: "unat (sz - of_nat ?n - 1) = unat sz - ?n - 1" using n(2) unat_size_diff [of 1 "sz - of_nat ?n"] by simp
  show ?thesis
  proof (cases "of_nat ?k \<ge> sz - of_nat ?n - (1 :: size_t)")
    case True
    then show ?thesis using n by (simp add: set_shadow_json_type_def Let_def)
  next
    case False
    have "unat (of_nat ?k :: size_t) = ?k" using k by (simp add: unat_of_nat)
    then have fit: "?k + Suc ?n < length buf" using False r1 assms(2) by (simp add: word_le_nat_alt)
    then have "\<exists>b. insert_str buf (type_member meth) 1 = Some b \<and> length b = length buf"
      using n(1) by (simp add: insert_str_def wr_bytes_def wr_def) arith
    then show ?thesis using n False by (auto simp: set_shadow_json_type_def Let_def)
  qed
qed

text \<open>Looking up a value only allocates.\<close>

lemma value_of_heap:
  "LITE_json_value_of A key src h = Some (v, h') \<Longrightarrow> (\<And>h. kept (snd (A h)) = kept h) \<Longrightarrow> kept h' = kept h"
proof (induction A key src h arbitrary: v h' rule: LITE_json_value_of.induct)
  case (1 A key src h)
  obtain ok h1 where h1: "A h = (ok, h1)" by fastforce
  then have k: "kept h1 = kept h" using 1(3) [of h] by simp
  note unfolded = 1(2) [unfolded LITE_json_value_of.simps [of A key src h]]
  show ?case
  proof (cases "strchr key DOT")
    case None
    then show ?thesis using unfolded h1 k by (auto simp del: LITE_json_value_of.simps elim!: bind_SomeE split: option.splits)
  next
    case (Some d)
    with unfolded h1 obtain val vl u where g: "ok"
      "json_get_value_by_name src (length src) (take (length key - length d) key) False = Some ((val, vl), u)"
      "(case val of None \<Rightarrow> Some (None, h1) | Some w \<Rightarrow> LITE_json_value_of A (tl d) w h1) = Some (v, h')"
      by (auto simp del: LITE_json_value_of.simps elim!: bind_SomeE split: if_splits)
    show ?thesis
    proof (cases val)
      case None
      then show ?thesis using g k by simp
    next
      case val: (Some w)
      with g(3) have "LITE_json_value_of A (tl d) w h1 = Some (v, h')" by (simp del: LITE_json_value_of.simps)
      with 1(1) [OF Some h1 [symmetric] refl] g val 1(3) k show ?thesis by (simp del: LITE_json_value_of.simps)
    qed
  qed
qed

lemma lookup_sends:
  assumes "net_sends H sent" "lookup H parse_client_token doc s = Some (v, s')"
  shows "sent (env (mq s')) = sent (env (mq s))"
proof -
  obtain w where w: "LITE_json_value_of (hal_malloc H) (cstr ''clientToken'') doc (env (mq s)) = Some (v, w)"
    "s' = s\<lparr>mq := (mq s)\<lparr>env := w\<rparr>\<rparr>"
    using assms(2) by (auto simp: lookup_def parse_client_token_def simp del: LITE_json_value_of.simps elim!: bind_SomeE)
  have "sent w = sent (env (mq s))"
    by (rule value_of_heap [OF w(1), of sent]) (use assms(1) in \<open>simp add: net_sends_def\<close>)
  then show ?thesis using w(2) by simp
qed

lemma add_request_sends:
  assumes net: "net_sends H sent" and malloc: "\<And>w. fst (hal_malloc H w)" and add: "add_request_to_list H token p s = (rc, s')"
  shows "sent (env (mq s')) = sent (env (mq s)) \<and>
    (length (request_list s) < MAX_APPENDING_REQUEST_AT_ANY_GIVEN_TIME \<longrightarrow> rc = QCLOUD_RET_SUCCESS)"
proof -
  have grant: "sh_malloc H x = (ok, x') \<Longrightarrow> ok \<and> sent (env (mq x')) = sent (env (mq x)) \<and> request_list x' = request_list x" for x x' ok
    using malloc [of "env (mq x)"] clock_sends(5) [OF net, of "mq x"]
    by (auto simp: sh_malloc_def HAL_Malloc_def split: prod.splits)
  obtain s1 where m1: "sh_malloc H s = (True, s1)" "sent (env (mq s1)) = sent (env (mq s))"
    using grant [of s] by (cases "sh_malloc H s") auto
  obtain t m where c: "countdown H (unat (rp_timeout_sec p)) (mq s1) = (t, m)" by fastforce
  obtain s3 where m2: "sh_malloc H (s1\<lparr>mq := m\<rparr>) = (True, s3)" "sent (env (mq s3)) = sent (env m)"
    using grant [of "s1\<lparr>mq := m\<rparr>"] by (cases "sh_malloc H (s1\<lparr>mq := m\<rparr>)") auto
  show ?thesis
    using add m1 c m2 clock_sends(4) [OF net c] by (auto simp: add_request_to_list_def split: if_splits)
qed

lemma set_type_room:
  assumes "holds buf (c # doc)" "length buf = unat sz" "length (c # type_member meth @ doc) + 1 < unat sz"
  shows "fst (the (set_shadow_json_type buf sz meth)) = QCLOUD_RET_SUCCESS"
proof -
  let ?n = "Suc (length doc)" and ?k = "length (type_member meth)"
  have n: "strlen buf = Some ?n" using holds_strlen [OF assms(1)] by simp
  have k: "?k \<le> 18" by (cases meth) (simp_all add: type_member_def cstr_def)
  have r: "unat (sz - of_nat ?n) = unat sz - ?n" using assms(3) by (intro unat_size_diff) simp
  have r1: "unat (sz - of_nat ?n - 1) = unat sz - ?n - 1" using assms(3) r unat_size_diff [of 1 "sz - of_nat ?n"] by simp
  have "unat (of_nat ?k :: size_t) = ?k" using k by (simp add: unat_of_nat)
  then have room: "\<not> of_nat ?k \<ge> sz - of_nat ?n - (1 :: size_t)" using r1 assms(3) by (simp add: word_le_nat_alt)
  obtain rc b where "set_shadow_json_type buf sz meth = Some (rc, b)" using set_type_returns [OF assms(1,2)] by blast
  then show ?thesis using n room by (auto simp: set_shadow_json_type_def Let_def elim!: bind_SomeE)
qed

lemma do_shadow_request_sends:
  assumes net: "net_sends H sent" and clock: "clock_steady H time" and malloc: "\<And>w. fst (hal_malloc H w)" and ok: "shadow_ok s"
    and buf: "holds buf (c # doc)" "length buf = unat sz" "unat sz < 2 ^ 27"
    and json: "json_text j (c # doc)" "json_path [cstr ''clientToken''] j = Some (JStr token)"
    and packet: "packet = operation_packet (c # type_member (rp_method p) @ doc) s"
  shows "((\<forall>bs. packet = Some bs \<longrightarrow> length bs \<le> 1024) \<or> (\<exists>T. net_works H T) \<longrightarrow> do_shadow_request H F p buf sz s \<noteq> None) \<and>
    (\<forall>rc b s'. do_shadow_request H F p buf sz s = Some ((rc, b), s') \<longrightarrow>
       (rc = QCLOUD_RET_SUCCESS \<longrightarrow> (\<exists>bs. packet = Some bs \<and> transmitted bs (sent (env (mq s))) (sent (env (mq s'))))) \<and>
       (\<forall>bs. packet = Some bs \<and> clear_way H bs s \<and> length (c # type_member (rp_method p) @ doc) + 1 < unat sz \<and>
          length (request_list s) < MAX_APPENDING_REQUEST_AT_ANY_GIVEN_TIME \<longrightarrow>
          rc = QCLOUD_RET_SUCCESS \<and> sent (env (mq s')) = sent (env (mq s)) @ bs))"
proof -
  let ?doc = "c # type_member (rp_method p) @ doc"
  have n: "strlen buf = Some (length (c # doc))" "take (length (c # doc)) buf = c # doc"
    using holds_strlen [OF buf(1)] buf(1) by (auto simp: holds_def)
  from lookup_key [OF malloc plain_keys(1) json, of s] obtain w where
    l: "lookup H parse_client_token (c # doc) s = Some (Some token, s\<lparr>mq := (mq s)\<lparr>env := w\<rparr>\<rparr>)" by (auto simp: parse_keys)
  let ?s = "s\<lparr>mq := (mq s)\<lparr>env := w\<rparr>\<rparr>"
  have keep: "sent (env (mq ?s)) = sent (env (mq s))" using lookup_sends [OF net l] .
  from set_type_returns [OF buf(1,2), of "rp_method p"] obtain rc b where
    b: "set_shadow_json_type buf sz (rp_method p) = Some (rc, b)" "length b = length buf" by blast
  note room = set_type_room [OF buf(1,2), of "rp_method p", unfolded b(1)]
  show ?thesis
  proof (cases "rc = QCLOUD_RET_SUCCESS")
    case False
    then show ?thesis using n l b(1) room by (auto simp: do_shadow_request_def)
  next
    case True
    with b(1) have h: "holds b ?doc" using set_type_holds buf(1) by blast
    have k: "strlen b = Some (length ?doc)" "take (length ?doc) b = ?doc" using holds_strlen [OF h] h by (auto simp: holds_def)
    have ok': "shadow_ok ?s" using ok by (simp add: shadow_ok_def)
    have short: "length ?doc < 2 ^ 27" using holds_length [OF h] b(2) buf(2,3) by simp
    have same: "operation_packet ?doc ?s = packet" "clear_way H bs ?s = clear_way H bs s" for bs
      by (simp_all add: packet operation_packet_def device_topic_def clear_way_def IOT_MQTT_IsConnected_def get_client_conn_state_def)
    note pub = publish_operation_sends [OF net clock ok' short, of F, unfolded same keep]
    have step: "do_shadow_request H F p buf sz s = publish_operation_to_cloud H F ?doc ?s \<bind> (\<lambda>(rc, s).
        if rc \<ge> 0 then let (rc, s) = add_request_to_list H token p s in Some ((rc, b), s) else Some ((rc, b), s))"
      using n l b(1) True k by (simp add: do_shadow_request_def cong: if_cong)
    show ?thesis
    proof (cases "publish_operation_to_cloud H F ?doc ?s")
      case None
      then show ?thesis using step pub by auto
    next
      case (Some r)
      obtain rc1 s1 where r: "r = (rc1, s1)" by fastforce
      obtain rc2 s2 where add: "add_request_to_list H token p s1 = (rc2, s2)" by fastforce
      have q: "request_list s1 = request_list s" using publish_operation_quiet [OF Some [unfolded r]] by auto
      note a = add_request_sends [OF net malloc add, unfolded q]
      show ?thesis using step Some r add a pub by (auto split: if_splits)
    qed
  qed
qed

section \<open>Properties\<close>

text \<open>C20. Whatever an application does with a shadow, and whatever the network, the clock and the allocator do: at most 10 requests are
  pending, the receive buffer keeps its size, every registered property still has a key, data and a callback, the topic of the results
  fits its buffer, and the MQTT client underneath stays well formed.\<close>

theorem shadow_invariant:
  assumes "shadow_constructed H F s" "(shadow_step H F)\<^sup>*\<^sup>* s s'"
  shows "length (request_list s') \<le> MAX_APPENDING_REQUEST_AT_ANY_GIVEN_TIME \<and>
    length (shadow_recv_buf s') = CLOUD_IOT_JSON_RX_BUF_LEN \<and>
    (\<forall>r \<in> set (request_list s'). length (client_token r) = MAX_SIZE_OF_CLIENT_TOKEN) \<and>
    (\<forall>h \<in> set (property_handle_list s'). ph_callback h \<noteq> None \<and>
       (\<exists>q. props s' (ph_property h) = Some q \<and> prop_key q \<noteq> None \<and> prop_data q \<noteq> None)) \<and>
    (\<forall>t. result_topic s' = Some t \<longrightarrow> length t < MAX_SIZE_OF_CLOUD_TOPIC) \<and>
    client_ok (at_most MAX_INTERVAL) (cl (mq s'))"
  using shadow.reachable_inv [OF assms] by (simp add: shadow_ok_def handler_ok_def)

theorem shadow_invariant_witness:
  "\<exists>s s' :: (byte list \<times> byte list list, unit) shadow. shadow_constructed whole_hal no_floats s \<and>
     shadow_step whole_hal no_floats s s' \<and> length (request_list s') \<le> MAX_APPENDING_REQUEST_AT_ANY_GIVEN_TIME"
proof -
  let ?z = "\<lparr>cl = zero_client, env = ([], []), events = []\<rparr>"
  have "\<exists>m. qcloud_iot_mqtt_init whole_hal demo_params ?z = Some (Inr \<lparr>di_product_id = cstr ''P'', di_device_name = cstr ''d'',
      di_client_id = cstr ''Pd''\<rparr>, m)"
    by (simp add: qcloud_iot_mqtt_init_def demo_params_def iot_device_info_set_def iot_get_mqtt_domain_def
        sg_iot_mqtt_coap_domain_def cstr_def get_random_start_packet_id_def get_time_ms_def now_def srand_def rand_def
        allocate_all_whole whole_hal_simps)
  then obtain m where "constructed whole_hal m" by (auto simp: constructed_def)
  moreover have "qcloud_iot_shadow_init whole_hal s = (QCLOUD_RET_SUCCESS, s)" for s :: "(byte list \<times> byte list list, unit) shadow"
    by (simp add: qcloud_iot_shadow_init_def allocate_all_whole)
  ultimately obtain s :: "(byte list \<times> byte list list, unit) shadow" where s: "shadow_constructed whole_hal no_floats s"
    unfolding shadow_constructed_def by blast
  have "shadow_step whole_hal no_floats s (s\<lparr>props := props s\<rparr>)" by (rule shadow_step.Change) simp
  moreover from this have "(shadow_step whole_hal no_floats)\<^sup>*\<^sup>* s (s\<lparr>props := props s\<rparr>)" by (rule r_into_rtranclp)
  ultimately show ?thesis using shadow_invariant [OF s] s by blast
qed

text \<open>A shadow with an expired request of the application and a pending one of a synchronous call.\<close>

definition demo_request :: Request where
  "demo_request = \<lparr>client_token = token_array [80], req_method = UPDATE, user_context = 3, req_timer = 0,
     req_callback = Some (User_callback 7)\<rparr>"

definition demo_sync_request :: Request where
  "demo_sync_request = \<lparr>client_token = token_array [81], req_method = UPDATE, user_context = 0, req_timer = 5000000,
     req_callback = Some update_ack_cb\<rparr>"

definition demo_shadow :: "(byte list \<times> byte list list, unit) shadow" where
  "demo_shadow = (zero_shadow \<lparr>cl = idle_client, env = ([], []), events = []\<rparr>
     \<lparr>di_product_id = [80], di_device_name = [100], di_client_id = [80, 100]\<rparr> eSHADOW False (\<lambda>_. None))
     \<lparr>request_list := [demo_request, demo_sync_request]\<rparr>"

lemma token_array_nul: "length t < MAX_SIZE_OF_CLIENT_TOKEN \<Longrightarrow> 0 \<notin> set t \<Longrightarrow>
    0 \<in> set (token_array t) \<and> takeWhile (\<lambda>c. c \<noteq> 0) (token_array t) = t"
  by (simp add: token_array_def takeWhile_append2 [of t, simplified] Suc_diff_Suc [symmetric] numeral_eq_Suc)
     (auto simp: takeWhile_append)?

lemma demo_request_simps:
  "0 \<in> set (client_token demo_request)" "0 \<in> set (client_token demo_sync_request)"
  "has_token t demo_request \<longleftrightarrow> t = [80]" "has_token t demo_sync_request \<longleftrightarrow> t = [81]"
  "\<not> acks demo_request" "acks demo_sync_request" "req_timer demo_request = 0" "req_timer demo_sync_request = 5000000"
  "req_callback demo_request = Some (User_callback 7)" "req_callback demo_sync_request = Some update_ack_cb"
  "req_method demo_request = UPDATE" "user_context demo_request = 3"
  using token_array_nul [of "[80]"] token_array_nul [of "[81]"]
  by (auto simp: demo_request_def demo_sync_request_def has_token_def acks_def)

lemma demo_shadow_simps:
  "length (shadow_recv_buf demo_shadow) = CLOUD_IOT_JSON_RX_BUF_LEN" "ack_update demo_shadow = ACK_NONE" "calls demo_shadow = []"
  "request_list demo_shadow = [demo_request, demo_sync_request]" "sync_status demo_shadow = 0" "recv_doc demo_shadow = []"
  by (simp_all add: demo_shadow_def zero_shadow_def recv_doc_def)

text \<open>C25. Expiry is exact. With the clock at \<open>t\<close> and a heap that grants the iterator, \<open>handle_expired_request\<close> removes exactly the requests whose
  time is up, keeps the others in their order, calls the callback of each removed request once with \<open>ACK_TIMEOUT\<close>, the newest first, and
  ends a synchronous call with \<open>ACK_TIMEOUT\<close> when its request is among them.\<close>

theorem shadow_expiry_exact:
  assumes clock: "\<And>w. fst (gettimeofday H w) = t" and malloc: "\<And>w. fst (hal_malloc H w)"
  shows "request_list (handle_expired_request H s) = filter (\<lambda>r. t < req_timer r) (request_list s) \<and>
    calls (handle_expired_request H s) =
      calls s @ answers ACK_TIMEOUT (recv_doc s) (filter (\<lambda>r. req_timer r \<le> t) (rev (request_list s))) \<and>
    ack_update (handle_expired_request H s) =
      ack_after ACK_TIMEOUT (filter (\<lambda>r. req_timer r \<le> t) (rev (request_list s))) (ack_update s)"
proof -
  obtain w where m: "sh_malloc H s = (True, s\<lparr>mq := (mq s)\<lparr>env := w\<rparr>\<rparr>)"
    using malloc [of "env (mq s)"] by (cases "hal_malloc H (env (mq s))") (simp add: sh_malloc_def HAL_Malloc_def)
  obtain rs s2 where l: "expired_loop H (rev (request_list s)) (s\<lparr>mq := (mq s)\<lparr>env := w\<rparr>\<rparr>) = (rs, s2)" by fastforce
  show ?thesis
    using expired_loop_exact [OF clock l] m l
    by (cases "request_list s = []") (simp_all add: handle_expired_request_def recv_doc_def rev_filter)
qed


theorem shadow_expiry_exact_witness:
  "calls (handle_expired_request whole_hal demo_shadow) = [Request_done 7 UPDATE ACK_TIMEOUT [] 3] \<and>
   ack_update (handle_expired_request whole_hal demo_shadow) = ACK_NONE"
  using shadow_expiry_exact [of whole_hal 0 demo_shadow]
  by (simp add: whole_hal_simps demo_shadow_simps demo_request_simps answers_def ack_after_def)

text \<open>C18. A reply reaches its request. When a message on the result topic carries a JSON object with type \<open>update\<close>, a client token and a result
  code, \<open>_on_operation_result_handler\<close> stores it in the receive buffer, removes exactly the pending requests with that token, calls
  the callback of each of them once, the newest first, with \<open>ACK_ACCEPTED\<close> for the code 0 and \<open>ACK_REJECTED\<close> for any other, ends a
  synchronous call that waits for it in the same way, and leaves the other requests in their order.\<close>

theorem shadow_reply_exact:
  assumes malloc: "\<And>w. fst (hal_malloc H w)" and ok: "length (shadow_recv_buf s) = CLOUD_IOT_JSON_RX_BUF_LEN"
    and tokens: "\<forall>r \<in> set (request_list s). 0 \<in> set (client_token r)"
    and msg: "ptopic message \<noteq> []" "unat (payload_len message) = length t" "length t < CLOUD_IOT_JSON_RX_BUF_LEN"
      "payload message = t @ rest" "rest \<noteq> []"
    and json: "json_text j t" "0 \<notin> set t"
    and fields: "json_path [cstr ''type''] j = Some (JStr (cstr ''update''))" "json_path [cstr ''clientToken''] j = Some (JStr token)"
      "json_path [cstr ''result''] j = Some (JNum (dec_int n))" "- (2 ^ 15) \<le> n" "n \<le> 2 ^ 15 - 1"
  shows "\<exists>s'. on_operation_result_handler H F message s = Some s' \<and> recv_doc s' = t \<and>
    request_list s' = filter (\<lambda>r. \<not> has_token token r) (request_list s) \<and>
    calls s' = calls s @ answers (if n = 0 then ACK_ACCEPTED else ACK_REJECTED) t (filter (has_token token) (rev (request_list s))) \<and>
    ack_update s' = ack_after (if n = 0 then ACK_ACCEPTED else ACK_REJECTED) (filter (has_token token) (rev (request_list s))) (ack_update s)"
proof (rule received_document [OF ok msg json(2), of H F])
  fix b
  let ?s = "s\<lparr>shadow_recv_buf := b\<rparr>"
  assume b: "on_operation_result_handler H F message s = handle_document H F ?s" "takeWhile (\<lambda>c. c \<noteq> 0) b = t"
  then have "recv_doc ?s = t" by (simp add: recv_doc_def)
  then show ?thesis using handle_document_exact [OF malloc, of ?s j token n F] tokens json(1) fields b(1) by simp
qed


text \<open>The document \<open>{"type":"update","clientToken":"x", \<dots>}\<close> of one character as the token, with further members.\<close>

definition reply_members :: "byte \<Rightarrow> (byte list \<times> json) list \<Rightarrow> (byte list \<times> json) list" where
  "reply_members x kvs = (cstr ''type'', JStr (cstr ''update'')) # (cstr ''clientToken'', JStr [x]) # kvs"

definition reply_text :: "byte \<Rightarrow> byte list \<Rightarrow> byte list" where
  "reply_text x extra = LBRACE # (QUOTE # cstr ''type'' @ [QUOTE, COLON, QUOTE] @ cstr ''update'' @ [QUOTE, COMMA, QUOTE] @ cstr ''clientToken'' @
     [QUOTE, COLON, QUOTE, x, QUOTE] @ extra) @ [RBRACE]"

lemma reply_is_json:
  assumes "plain [x]" "kvs = [] \<and> extra = [] \<or> (\<exists>m. extra = COMMA # m \<and> json_members kvs m \<and> kvs \<noteq> [])"
  shows "json_text (JObj (reply_members x kvs)) (reply_text x extra)"
proof -
  have bl: "blank []" by (simp add: blank_def)
  have pl: "plain (cstr ''type'')" "plain (cstr ''clientToken'')" "plain (cstr ''update'')" by (simp_all add: plain_def cstr_def)
  have "json_members ((cstr ''clientToken'', JStr [x]) # kvs) (QUOTE # cstr ''clientToken'' @ [QUOTE, COLON, QUOTE, x, QUOTE] @ extra)"
    using members_One [OF bl pl(2) bl bl str [OF assms(1)] bl] members_Cons [OF bl pl(2) bl bl str [OF assms(1)] bl] assms(2) by auto
  from obj [OF members_Cons [OF bl pl(1) bl bl str [OF pl(3)] bl this]] show ?thesis
    by (simp add: reply_members_def reply_text_def)
qed

definition demo_message :: "byte list \<Rightarrow> MQTTMessage" where
  "demo_message t = \<lparr>msg_qos = QOS0, msg_retained = 0, msg_dup = 0, msg_id = None, ptopic = [36], payload = t @ [0],
     payload_len = of_nat (length t)\<rparr>"

lemma reply_text_props:
  "length (reply_text x extra) = 35 + length extra" "0 \<notin> set (reply_text x extra) \<longleftrightarrow> x \<noteq> 0 \<and> 0 \<notin> set extra"
  by (auto simp: reply_text_def cstr_def)

lemma reply_paths:
  "json_path [cstr ''type''] (JObj (reply_members x kvs)) = Some (JStr (cstr ''update''))"
  "json_path [cstr ''clientToken''] (JObj (reply_members x kvs)) = Some (JStr [x])"
  by (simp_all add: reply_members_def cstr_def)

definition accepted :: "byte list" where
  "accepted = reply_text 80 (COMMA # QUOTE # cstr ''result'' @ [QUOTE, COLON, 48])"

theorem shadow_reply_exact_witness:
  "\<exists>s'. on_operation_result_handler whole_hal no_floats (demo_message accepted) demo_shadow = Some s' \<and>
     length (request_list s') = 1 \<and> calls s' = [Request_done 7 UPDATE ACK_ACCEPTED accepted 3] \<and> ack_update s' = ACK_NONE"
proof -
  let ?kvs = "[(cstr ''result'', JNum (dec_int 0))]" and ?extra = "QUOTE # cstr ''result'' @ [QUOTE, COLON, 48]"
  have bl: "blank []" and pl: "plain (cstr ''result'')" "plain [80]" by (simp_all add: blank_def plain_def cstr_def)
  have z: "dec_int 0 = [48]" by (simp add: dec_int_def dec.simps digit_char_def)
  have "json_members ?kvs ?extra" using members_One [OF bl pl(1) bl bl num [OF numeral_dec_int [of 0]] bl] by (simp add: z)
  then have j: "json_text (JObj (reply_members 80 ?kvs)) accepted"
    unfolding accepted_def using reply_is_json [OF pl(2), of ?kvs "COMMA # ?extra"] by simp
  have l: "length accepted = 46" "0 \<notin> set accepted" by (simp_all add: accepted_def reply_text_props cstr_def)
  have r: "json_path [cstr ''result''] (JObj (reply_members 80 ?kvs)) = Some (JNum (dec_int 0))"
    by (simp add: reply_members_def cstr_def)
  have "\<exists>s'. on_operation_result_handler whole_hal no_floats (demo_message accepted) demo_shadow = Some s' \<and> recv_doc s' = accepted \<and>
      request_list s' = filter (\<lambda>r. \<not> has_token [80] r) (request_list demo_shadow) \<and>
      calls s' = calls demo_shadow @ answers (if (0 :: int) = 0 then ACK_ACCEPTED else ACK_REJECTED) accepted
        (filter (has_token [80]) (rev (request_list demo_shadow))) \<and>
      ack_update s' = ack_after (if (0 :: int) = 0 then ACK_ACCEPTED else ACK_REJECTED)
        (filter (has_token [80]) (rev (request_list demo_shadow))) (ack_update demo_shadow)"
    by (rule shadow_reply_exact [where rest = "[0]", OF _ _ _ _ _ _ _ _ j l(2) reply_paths r])
       (simp_all add: whole_hal_simps demo_message_def demo_shadow_simps demo_request_simps l(1))
  then show ?thesis by (auto simp: demo_shadow_simps demo_request_simps answers_def ack_after_def)
qed

text \<open>C26. A reply without a result code is lost. When the reply to the request of a synchronous call has the right type and token but no result code,
  the request is removed and nobody is told: afterwards nothing can end the wait of the synchronous call, whatever arrives later and
  however long it waits. The call never returns, its own timeout included.\<close>

theorem shadow_lost_reply:
  assumes malloc: "\<And>w. fst (hal_malloc H w)" and ok: "length (shadow_recv_buf s) = CLOUD_IOT_JSON_RX_BUF_LEN"
    and tokens: "\<forall>r \<in> set (request_list s). 0 \<in> set (client_token r)"
    and msg: "ptopic message \<noteq> []" "unat (payload_len message) = length t" "length t < CLOUD_IOT_JSON_RX_BUF_LEN"
      "payload message = t @ rest" "rest \<noteq> []"
    and json: "json_text j t" "0 \<notin> set t"
    and fields: "json_path [cstr ''type''] j = Some (JStr (cstr ''update''))" "json_path [cstr ''clientToken''] j = Some (JStr token)"
    and lost: "\<And>w. \<exists>w'. parse_shadow_operation_result_code (hal_malloc H) t w = Some (None, w')"
    and waiting: "ack_update s = ACK_NONE" "\<forall>r \<in> set (request_list s). req_callback r = Some update_ack_cb \<longrightarrow> has_token token r"
  shows "\<exists>s'. on_operation_result_handler H F message s = Some s' \<and> calls s' = calls s \<and>
    request_list s' = filter (\<lambda>r. \<not> has_token token r) (request_list s) \<and> ack_wait H F s' = None"
proof (rule received_document [OF ok msg json(2), of H F])
  fix b
  let ?s = "s\<lparr>shadow_recv_buf := b\<rparr>"
  assume b: "on_operation_result_handler H F message s = handle_document H F ?s" "takeWhile (\<lambda>c. c \<noteq> 0) b = t"
  then have d: "recv_doc ?s = t" by (simp add: recv_doc_def)
  let ?s' = "\<lambda>w. ?s\<lparr>mq := (mq s)\<lparr>env := w\<rparr>, request_list := filter (\<lambda>r. \<not> has_token token r) (request_list s)\<rparr>"
  have "\<exists>w. handle_document H F ?s = Some (?s' w)"
  proof -
    from document_is_reply [OF malloc, of j ?s token F] json(1) fields d obtain w where
      h: "handle_document H F ?s = (if request_list ?s = [] then Some (?s\<lparr>mq := (mq ?s)\<lparr>env := w\<rparr>\<rparr>) else do {
        (rs, s) \<leftarrow> reply_loop H F token (cstr ''update'') (rev (request_list ?s)) (?s\<lparr>mq := (mq ?s)\<lparr>env := w\<rparr>\<rparr>);
        Some (s\<lparr>request_list := rev rs\<rparr>) })" by auto
    from reply_loop_lost [of H ?s "rev (request_list s)" F token "cstr ''update''" w] lost d tokens obtain w' where
      "reply_loop H F token (cstr ''update'') (rev (request_list s)) (?s\<lparr>mq := (mq ?s)\<lparr>env := w\<rparr>\<rparr>) =
        Some (filter (\<lambda>r. \<not> has_token token r) (rev (request_list s)), ?s\<lparr>mq := (mq ?s)\<lparr>env := w'\<rparr>\<rparr>)" by auto
    with h show ?thesis
      by (cases "request_list s = []") (auto simp: rev_filter intro: exI [of _ w] exI [of _ w'])
  qed
  then obtain w where w: "handle_document H F ?s = Some (?s' w)" by blast
  moreover have "unanswered (?s' w)" using waiting by (auto simp: unanswered_def acks_def list_all_iff)
  ultimately show ?thesis using b(1) unanswered_hangs [of "?s' w" H F] by simp
qed


lemma no_result_code: "parse_shadow_operation_result_code (hal_malloc whole_hal) (reply_text 81 []) w = Some (None, w)"
  by (simp add: parse_shadow_operation_result_code_def parse_number_def reply_text_def cstr_def json_get_value_by_name_def
      json_parse_name_value_def name_value_body_def json_get_value_by_name_cb_def json_get_next_object_def json_value_def ptr_add_def
      value_len.simps(2) is_digit_def strn_eq_def Let_def)

theorem shadow_lost_reply_witness:
  "\<exists>s'. on_operation_result_handler whole_hal no_floats (demo_message (reply_text 81 [])) demo_shadow = Some s' \<and>
     request_list s' = [demo_request] \<and> ack_wait whole_hal no_floats s' = None"
proof -
  have j: "json_text (JObj (reply_members 81 [])) (reply_text 81 [])" by (rule reply_is_json) (simp_all add: plain_def)
  have "\<exists>s'. on_operation_result_handler whole_hal no_floats (demo_message (reply_text 81 [])) demo_shadow = Some s' \<and>
      calls s' = calls demo_shadow \<and> request_list s' = filter (\<lambda>r. \<not> has_token [81] r) (request_list demo_shadow) \<and>
      ack_wait whole_hal no_floats s' = None"
    by (rule shadow_lost_reply [where rest = "[0]", OF _ _ _ _ _ _ _ _ j _ reply_paths])
       (simp_all add: whole_hal_simps demo_message_def demo_shadow_simps demo_request_simps reply_text_props no_result_code)
  then show ?thesis by (auto simp: demo_shadow_simps demo_request_simps)
qed

text \<open>C19. A request is sent and tracked. The packet of a document is the message of quality 0 with the document, the type inserted, on the
  operation topic of the device. \<open>IOT_Shadow_Update\<close> returns when that packet has at most 1024 bytes, half the write buffer, or when the network takes
  writes whole. When it returns success, the packet has been put on the wire, exactly one request has been appended to the pending ones, with the
  client token of the document, the callback and the context of the caller, due at the time \<open>t\<close> of the call plus the whole seconds of the timeout,
  these taken modulo 256, and the buffer of the caller holds the document with the type inserted. Otherwise the pending requests are as before. No
  callback runs. It does succeed, with exactly the packet put on the wire, when the client is connected, its packet and its document fit their buffers,
  fewer than 10 requests are pending and the network takes writes whole.\<close>

theorem shadow_update_tracked:
  assumes net: "net_sends H sent" and clock: "\<And>w. fst (gettimeofday H w) = t" and malloc: "\<And>w. fst (hal_malloc H w)"
    and ok: "shadow_ok s" and subscribed: "0 \<le> sync_status s"
    and buf: "holds buf (c # doc)" "length buf = unat sz" "unat sz < 2 ^ 27"
    and json: "json_text j (c # doc)" "json_path [cstr ''clientToken''] j = Some (JStr token)"
    and packet: "packet = operation_packet (c # type_member UPDATE @ doc) s"
  shows "((\<forall>bs. packet = Some bs \<longrightarrow> length bs \<le> 1024) \<or> (\<exists>T. net_works H T) \<longrightarrow> IOT_Shadow_Update H F buf sz cb ctx ms s \<noteq> None) \<and>
    (\<forall>rc buf' s'. IOT_Shadow_Update H F buf sz cb ctx ms s = Some ((rc, buf'), s') \<longrightarrow>
       calls s' = calls s \<and>
       (if rc = QCLOUD_RET_SUCCESS
        then holds buf' (c # type_member UPDATE @ doc) \<and>
          (\<exists>bs. packet = Some bs \<and> transmitted bs (sent (env (mq s))) (sent (env (mq s')))) \<and>
          request_list s' = request_list s @ [\<lparr>client_token = token_array token, req_method = UPDATE, user_context = ctx,
            req_timer = t + 1000000 * (unat ms div 1000 mod 256), req_callback = cb\<rparr>]
        else request_list s' = request_list s) \<and>
       (\<forall>bs. packet = Some bs \<and> clear_way H bs s \<and> length (c # type_member UPDATE @ doc) + 1 < unat sz \<and>
          length (request_list s) < MAX_APPENDING_REQUEST_AT_ANY_GIVEN_TIME \<and> ms \<noteq> 0 \<longrightarrow>
          rc = QCLOUD_RET_SUCCESS \<and> sent (env (mq s')) = sent (env (mq s)) @ bs))"
proof -
  let ?p = "init_request_params UPDATE cb ctx (ucast (ms div 1000))"
  have p: "rp_method ?p = UPDATE" "rp_context ?p = ctx" "rp_callback ?p = cb" "unat (rp_timeout_sec ?p) = unat ms div 1000 mod 256"
    by (simp_all add: init_request_params_def unsigned_ucast_eq unsigned_take_bit_eq take_bit_eq_mod unat_div unat_mod)
  have t: "countdown H n m = (x, m') \<Longrightarrow> x = t + 1000000 * n" for n m x m'
    using clock [of "env m"] by (auto simp: countdown_def now_def Let_def split: prod.splits)
  have steady: "clock_steady H (\<lambda>_. t)" using clock by (auto simp: clock_steady_def)
  from lookup_key [OF malloc plain_keys(1) json, of s] have tok: "\<exists>w. parse_client_token (hal_malloc H) (c # doc) (env (mq s)) = Some (Some token, w)"
    by (auto simp: parse_keys lookup_def simp del: LITE_json_value_of.simps elim!: bind_SomeE)
  show ?thesis
  proof (cases "ms = 0 \<or> \<not> IOT_MQTT_IsConnected (mq s)")
    case True
    then show ?thesis by (auto simp: IOT_Shadow_Update_def clear_way_def)
  next
    case False
    then have u: "IOT_Shadow_Update H F buf sz cb ctx ms s = do_shadow_request H F ?p buf sz s"
      using subscribed by (simp add: IOT_Shadow_Update_def resubscribe_if_needed_def)
    note d = do_shadow_request_sends [OF net steady malloc ok buf json, of packet ?p F, unfolded p, OF packet]
    show ?thesis
    proof (intro conjI allI impI)
      fix rc buf' s'
      assume r: "IOT_Shadow_Update H F buf sz cb ctx ms s = Some ((rc, buf'), s')"
      note r' = r [unfolded u]
      note a = do_shadow_request_cases [OF r' buf(1), unfolded p]
      show "calls s' = calls s" using a by simp
      show "if rc = QCLOUD_RET_SUCCESS
        then holds buf' (c # type_member UPDATE @ doc) \<and>
          (\<exists>bs. packet = Some bs \<and> transmitted bs (sent (env (mq s))) (sent (env (mq s')))) \<and>
          request_list s' = request_list s @ [\<lparr>client_token = token_array token, req_method = UPDATE, user_context = ctx,
            req_timer = t + 1000000 * (unat ms div 1000 mod 256), req_callback = cb\<rparr>]
        else request_list s' = request_list s"
        using a t tok d r' by (auto split: if_splits)
    qed (use d u in auto)
  qed
qed

definition connected_shadow :: "(byte list \<times> byte list list, unit) shadow" where
  "connected_shadow = demo_shadow\<lparr>mq := \<lparr>cl = idle_client\<lparr>is_connected := 1\<rparr>, env = ([], []), events = []\<rparr>, props := [5 \<mapsto> temperature]\<rparr>"

theorem shadow_update_tracked_witness:
  "\<exists>buf' s' bs. IOT_Shadow_Update whole_hal no_floats (reply_text 80 [] @ replicate 60 0) 95 (Some (User_callback 9)) 1 4000 connected_shadow =
     Some ((QCLOUD_RET_SUCCESS, buf'), s') \<and> calls s' = [] \<and> concat (snd (env (mq s'))) = bs \<and>
     operation_packet (LBRACE # type_member UPDATE @ tl (reply_text 80 [])) connected_shadow = Some bs"
proof -
  have j: "json_text (JObj (reply_members 80 [])) (reply_text 80 [])" by (rule reply_is_json) (simp_all add: plain_def)
  define doc where "doc = tl (reply_text 80 [])"
  have r: "reply_text 80 [] = LBRACE # doc" "length doc = 34" using reply_text_props(1) [of 80 "[]"] by (simp_all add: doc_def reply_text_def)
  have h: "holds (reply_text 80 [] @ replicate 60 0) (LBRACE # doc)"
    using reply_text_props(2) [of 80 "[]"] r replicate_Suc [of 59 "0 :: byte"] by (auto simp: holds_def)
  have ok: "shadow_ok connected_shadow"
    by (simp add: shadow_ok_def connected_shadow_def demo_shadow_def zero_shadow_def demo_request_def demo_sync_request_def idle_client_def zero_client_def
        client_ok_def buffers_ok_def)
  let ?d = "LBRACE # type_member UPDATE @ doc"
  have len: "length ?d = 52" using r(2) by (simp add: type_member_def cstr_def)
  define bs where "bs = publish_bytes 0 QOS0 0 0 (cstr ''$shadow/operation/'' @ [80, 47, 100]) ?d"
  have packet: "Some bs = operation_packet ?d connected_shadow"
    by (simp add: bs_def operation_packet_def device_topic_def connected_shadow_def demo_shadow_def zero_shadow_def cstr_def)
  have "length bs = 77" using len by (simp add: bs_def length_publish_bytes publish_rem_len_def rem_len_bytes.simps cstr_def)
  then have clear: "clear_way whole_hal bs connected_shadow"
    using whole_hal_sends(2) by (auto simp: clear_way_def connected_shadow_def IOT_MQTT_IsConnected_def get_client_conn_state_def idle_client_def)
  have side: "\<And>w. fst (gettimeofday whole_hal w) = 0" "\<And>w. fst (hal_malloc whole_hal w)" "0 \<le> sync_status connected_shadow"
    "length (reply_text 80 [] @ replicate 60 0) = unat (95 :: size_t)" "unat (95 :: size_t) < 2 ^ 27"
    by (simp_all add: whole_hal_simps connected_shadow_def demo_shadow_simps reply_text_props)
  note t = shadow_update_tracked [OF whole_hal_sends(1) side(1,2) ok side(3) h side(4,5) j [unfolded r] reply_paths(2) packet]
  have "IOT_Shadow_Update whole_hal no_floats (reply_text 80 [] @ replicate 60 0) 95 (Some (User_callback 9)) 1 4000 connected_shadow \<noteq> None"
    using conjunct1 [OF t] whole_hal_sends(2) by blast
  then obtain rc buf' s' where u: "IOT_Shadow_Update whole_hal no_floats (reply_text 80 [] @ replicate 60 0) 95 (Some (User_callback 9)) 1 4000
      connected_shadow = Some ((rc, buf'), s')" by auto
  have "calls connected_shadow = []" "(concat \<circ> snd) (env (mq connected_shadow)) = []" "length (request_list connected_shadow) = 2"
    by (simp_all add: connected_shadow_def demo_shadow_simps)
  then show ?thesis
    using conjunct2 [OF t, rule_format, OF u] clear len packet [symmetric] u unfolding doc_def [symmetric] by auto
qed

text \<open>C23. Properties keep their types. Whatever documents arrive while \<open>IOT_Shadow_Yield\<close> runs, every property keeps its key and its type, stays
  bound to data, and data that was of the type the property names (a number within the range of its width, a truth value, a
  floating point number or a text) still is.\<close>

theorem shadow_yield_typed:
  assumes "IOT_Shadow_Yield H F n s = Some (rc, s')" "props s x = Some q"
  shows "\<exists>q'. props s' x = Some q' \<and> prop_key q' = prop_key q \<and> prop_type q' = prop_type q \<and>
    (prop_data q' = None \<longleftrightarrow> prop_data q = None) \<and> (well_typed q \<longrightarrow> well_typed q')"
proof -
  have "same_props (props s) (props s')" by (rule typed.yield_keeps [OF assms(1)]) simp
  then show ?thesis using assms(2) unfolding same_props_def same_property_def by blast
qed

theorem shadow_yield_typed_witness:
  "\<exists>rc s' q'. IOT_Shadow_Yield whole_hal no_floats 200
      (connected_shadow\<lparr>mq := (mq connected_shadow)\<lparr>cl := idle_client\<lparr>is_connected := 1, thread_running := True\<rparr>\<rparr>\<rparr>) = Some (rc, s') \<and>
     props s' 5 = Some q' \<and> well_typed q'"
proof -
  let ?s = "connected_shadow\<lparr>mq := (mq connected_shadow)\<lparr>cl := idle_client\<lparr>is_connected := 1, thread_running := True\<rparr>\<rparr>\<rparr>"
  have p: "props ?s 5 = Some temperature" by (simp add: connected_shadow_def)
  have "well_typed temperature" by (simp add: well_typed_def temperature_def)
  moreover have "\<exists>rc s'. IOT_Shadow_Yield whole_hal no_floats 200 ?s = Some (rc, s')"
    by (simp add: IOT_Shadow_Yield_def handle_expired_request_def connected_shadow_def demo_shadow_def demo_request_def demo_sync_request_def
        zero_shadow_def sh_malloc_def HAL_Malloc_def whole_hal_simps expired_def now_def run_callback_def call_def run_mqtt_def
        IOT_MQTT_Yield_def HAL_SleepMs_def)
  ultimately show ?thesis using shadow_yield_typed [OF _ p] by blast
qed

text \<open>C28. Registered properties cannot be removed. The list of handlers is searched for the address of the property, but its elements are
  the handlers: as long as no handler lives at the address of the property, \<open>IOT_Shadow_UnRegister_Property\<close> fails and the list stays as
  it is, even right after the property was registered.\<close>

theorem shadow_unregister_fails:
  assumes "\<forall>h \<in> set (property_handle_list s). ph_addr h \<noteq> p"
  shows "\<exists>rc s'. IOT_Shadow_UnRegister_Property H p s = (rc, s') \<and> rc \<noteq> QCLOUD_RET_SUCCESS \<and>
    property_handle_list s' = property_handle_list s"
proof -
  obtain node s1 where n: "find_property H p s = (node, s1)" by fastforce
  note f = find_property_cases [OF n]
  have "node = None" using f assms by (auto simp: find_None_iff)
  then show ?thesis using n f
    by (auto simp: IOT_Shadow_UnRegister_Property_def shadow_common_check_property_existence_def frame_fields)
qed


theorem shadow_unregister_fails_witness:
  "\<exists>s' rc s''. IOT_Shadow_Register_Property whole_hal 100 5 (Some 1) connected_shadow = Some (QCLOUD_RET_SUCCESS, s') \<and>
     IOT_Shadow_UnRegister_Property whole_hal 5 s' = (rc, s'') \<and> rc \<noteq> QCLOUD_RET_SUCCESS"
proof -
  let ?h = "\<lparr>ph_addr = 100, ph_property = 5, ph_callback = Some 1\<rparr>"
  have "IOT_Shadow_Register_Property whole_hal 100 5 (Some 1) connected_shadow = Some (QCLOUD_RET_SUCCESS, connected_shadow\<lparr>property_handle_list := [?h]\<rparr>)"
    by (simp add: IOT_Shadow_Register_Property_def IOT_MQTT_IsConnected_def get_client_conn_state_def
        shadow_common_check_property_existence_def find_property_def sh_malloc_def HAL_Malloc_def whole_hal_simps
        shadow_common_register_property_on_delta_def add_property_handle_to_list_def connected_shadow_def demo_shadow_def zero_shadow_def temperature_def)
  then show ?thesis using shadow_unregister_fails [of "connected_shadow\<lparr>property_handle_list := [?h]\<rparr>" 5 whole_hal] by auto
qed

end
