(* ===== verification/Http_Client.thy ===== *)
theory Http_Client
  imports Utils_Format Mqtt_Net Utils_Base64
begin

text \<open>
  The HTTP client \<^verbatim>\<open>sdk_src/protocol/http/utils_httpc.c\<close>: building a request from a URL, and receiving the response piece by piece
  into a buffer of the caller.

  The TCP connection of the client is a parameter \<open>W\<close>: a clock, the connection to a host and port, and reads and writes with a
  timeout. A network structure is initialised or not, and connected or not. The receive buffer of \<^verbatim>\<open>HTTP_CLIENT_CHUNK_SIZE\<close> bytes and the buffer of
  the caller are byte lists; an access outside them is \<^const>\<open>None\<close>. URLs, keys and header texts are C strings without their NUL.
\<close>

section \<open>State\<close>

record 'w web =
  web_clock :: "'w \<Rightarrow> nat \<times> 'w"
  web_connect :: "byte list \<Rightarrow> int \<Rightarrow> 'w \<Rightarrow> bool \<times> 'w"
  web_read :: "nat \<Rightarrow> nat \<Rightarrow> 'w \<Rightarrow> (int \<times> byte list) \<times> 'w"
  web_write :: "byte list \<Rightarrow> nat \<Rightarrow> 'w \<Rightarrow> (int \<times> nat) \<times> 'w"
  web_disconnect :: "'w \<Rightarrow> 'w"

datatype HttpMethod = HTTP_GET | HTTP_POST | HTTP_PUT | HTTP_DELETE | HTTP_HEAD

record HTTPClient =
  response_code :: int
  http_header :: "byte list option"
  auth_user :: "byte list option"
  auth_password :: "byte list option"
  net_inited :: bool
  net_handle :: bool

record HTTPClientData =
  is_more :: bool
  is_chunked :: bool
  retrieve_len :: int
  response_content_len :: int
  post_content_type :: "byte list option"
  post_buf :: "byte list option"
  response_buf :: "byte list"
  response_buf_len :: int

record 'w http =
  hc :: HTTPClient
  hdata :: HTTPClientData
  wd :: 'w

abbreviation QCLOUD_ERR_HTTP_CLOSED :: int where "QCLOUD_ERR_HTTP_CLOSED \<equiv> - 3"
abbreviation QCLOUD_ERR_HTTP :: int where "QCLOUD_ERR_HTTP \<equiv> - 4"
abbreviation QCLOUD_ERR_HTTP_UNRESOLVED_DNS :: int where "QCLOUD_ERR_HTTP_UNRESOLVED_DNS \<equiv> - 6"
abbreviation QCLOUD_ERR_HTTP_PARSE :: int where "QCLOUD_ERR_HTTP_PARSE \<equiv> - 7"
abbreviation QCLOUD_ERR_HTTP_CONN :: int where "QCLOUD_ERR_HTTP_CONN \<equiv> - 8"
abbreviation QCLOUD_ERR_HTTP_AUTH :: int where "QCLOUD_ERR_HTTP_AUTH \<equiv> - 9"
abbreviation QCLOUD_ERR_HTTP_NOT_FOUND :: int where "QCLOUD_ERR_HTTP_NOT_FOUND \<equiv> - 10"
abbreviation QCLOUD_ERR_HTTP_TIMEOUT :: int where "QCLOUD_ERR_HTTP_TIMEOUT \<equiv> - 11"

abbreviation HTTP_CLIENT_CHUNK_SIZE :: nat where "HTTP_CLIENT_CHUNK_SIZE \<equiv> 1025"
abbreviation HTTP_CLIENT_SEND_BUF_SIZE :: nat where "HTTP_CLIENT_SEND_BUF_SIZE \<equiv> 1024"
abbreviation HTTP_CLIENT_AUTHB_SIZE :: nat where "HTTP_CLIENT_AUTHB_SIZE \<equiv> 128"
abbreviation HTTP_CLIENT_MAX_HOST_LEN :: nat where "HTTP_CLIENT_MAX_HOST_LEN \<equiv> 64"
abbreviation HTTP_CLIENT_MAX_URL_LEN :: nat where "HTTP_CLIENT_MAX_URL_LEN \<equiv> 1024"
abbreviation HTTP_RETRIEVE_MORE_DATA :: int where "HTTP_RETRIEVE_MORE_DATA \<equiv> 1"

abbreviation CR :: byte where "CR \<equiv> 13"
abbreviation LF :: byte where "LF \<equiv> 10"
abbreviation SLASH :: byte where "SLASH \<equiv> 47"

abbreviation hc_update :: "(HTTPClient \<Rightarrow> HTTPClient) \<Rightarrow> 'w http \<Rightarrow> 'w http" where
  "hc_update f s \<equiv> s\<lparr>hc := f (hc s)\<rparr>"

abbreviation hd_update :: "(HTTPClientData \<Rightarrow> HTTPClientData) \<Rightarrow> 'w http \<Rightarrow> 'w http" where
  "hd_update f s \<equiv> s\<lparr>hdata := f (hdata s)\<rparr>"

text \<open>Timers on the clock of the connection.\<close>

definition web_countdown_ms :: "'w web \<Rightarrow> nat \<Rightarrow> 'w http \<Rightarrow> Timer \<times> 'w http" where
  "web_countdown_ms W timeout_ms s = (let (t, w) = web_clock W (wd s) in (t + 1000 * timeout_ms, s\<lparr>wd := w\<rparr>))"

definition web_left_ms :: "'w web \<Rightarrow> Timer \<Rightarrow> 'w http \<Rightarrow> nat \<times> 'w http" where
  "web_left_ms W timer s = (let (t, w) = web_clock W (wd s) in ((timer - t) div 1000, s\<lparr>wd := w\<rparr>))"

text \<open>\<^verbatim>\<open>strstr\<close> and \<^verbatim>\<open>strchr\<close> as offsets, and \<^verbatim>\<open>atoi\<close>; numbers an \<^verbatim>\<open>int\<close> cannot hold are undefined behaviour.\<close>

fun strstr :: "byte list \<Rightarrow> byte list \<Rightarrow> nat option" where
  "strstr s pat = (if take (length pat) s = pat then Some 0 else case s of [] \<Rightarrow> None | c # cs \<Rightarrow> map_option Suc (strstr cs pat))"

definition strchr_at :: "byte list \<Rightarrow> byte \<Rightarrow> nat option" where
  "strchr_at s c = (if c \<in> set s then Some (length (takeWhile (\<lambda>x. x \<noteq> c) s)) else None)"

definition atoi :: "byte list \<Rightarrow> int option" where
  "atoi s = do { r \<leftarrow> sscanf_int False (- (2 ^ 31)) (2 ^ 31 - 1) s; Some (case r of None \<Rightarrow> 0 | Some n \<Rightarrow> n) }"

definition str_at :: "byte list \<Rightarrow> nat \<Rightarrow> byte list option" where
  "str_at buf p = (if 0 \<in> set (drop p buf) then Some (takeWhile (\<lambda>c. c \<noteq> 0) (drop p buf)) else None)"

text \<open>\<^verbatim>\<open>strtoul\<close> with base 16, as an \<^verbatim>\<open>unsigned long\<close> of 64 bits.\<close>

definition strtoul16 :: "byte list \<Rightarrow> nat" where
  "strtoul16 s =
     (let s = dropWhile is_space s;
          neg = (s \<noteq> [] \<and> hd s = MINUS);
          s = (if s \<noteq> [] \<and> (hd s = MINUS \<or> hd s = 43) then tl s else s);
          s = (if length s > 2 \<and> s ! 0 = 48 \<and> (s ! 1 = 120 \<or> s ! 1 = 88) \<and> digit_val (s ! 2) \<noteq> None then drop 2 s else s);
          n = scan_digits 16 0 s
      in if n \<ge> 2 ^ 64 then 2 ^ 64 - 1 else if neg \<and> n > 0 then 2 ^ 64 - n else n)"

text \<open>A number that has been computed as an \<^verbatim>\<open>int\<close>; overflow is undefined behaviour.\<close>

definition int32 :: "int \<Rightarrow> int option" where
  "int32 n = (if - (2 ^ 31) \<le> n \<and> n < 2 ^ 31 then Some n else None)"

text \<open>\<^verbatim>\<open>memcpy\<close> and \<^verbatim>\<open>memmove\<close> with a size that has been computed as an \<^verbatim>\<open>int\<close>: a negative one is a huge \<open>size_t\<close>.\<close>

definition rd_int :: "byte list \<Rightarrow> nat \<Rightarrow> int \<Rightarrow> byte list option" where
  "rd_int buf p n = (if n < 0 then None else rd_bytes buf p (nat n))"

section \<open>Requests\<close>

text \<open>The base64 of \<^verbatim>\<open>_http_client_base64enc\<close>: a \<^verbatim>\<open>char\<close> is signed. The shift of the
  \<^verbatim>\<open>int\<close>, undefined in C once it leaves its range, is the wrap of the 32 bits that compilers make of it. The output is the text without its NUL.\<close>

definition base64_code :: "u32 \<Rightarrow> byte" where
  "base64_code x = base64_enc_map ! unat (x AND 0x3f)"

fun base64enc_loop :: "byte list \<Rightarrow> u32 \<Rightarrow> nat \<Rightarrow> byte list" where
  "base64enc_loop [] x l = (if l > 0 then [base64_code (push_bit (6 - l) x)] else [])"
| "base64enc_loop (c # cs) x l =
     (let x = push_bit 8 x OR scast c; l = l + 8
      in if l \<ge> 12
         then base64_code (drop_bit (l - 6) x) # base64_code (drop_bit (l - 12) x) # base64enc_loop cs x (l - 12)
         else base64_code (drop_bit (l - 6) x) # base64enc_loop cs x (l - 6))"

definition http_client_base64enc :: "byte list \<Rightarrow> byte list" where
  "http_client_base64enc s = (let t = base64enc_loop s 0 0 in t @ replicate ((4 - length t mod 4) mod 4) 61)"

text \<open>
  \<^verbatim>\<open>_http_client_parse_url\<close>: scheme, host and path, for arrays of the given sizes. Without a path the host is copied without a test of its size.
  A \<open>#\<close> right before the path makes the length of the path wrap to zero in the test.
\<close>

definition http_client_parse_url :: "byte list \<Rightarrow> nat \<Rightarrow> nat \<Rightarrow> nat \<Rightarrow> (int + byte list \<times> byte list \<times> byte list) option" where
  "http_client_parse_url url max_scheme_len maxhost_len max_path_len =
     (case strstr url (cstr ''://'') of
        None \<Rightarrow> Some (Inl QCLOUD_ERR_HTTP_PARSE)
      | Some n \<Rightarrow>
          if max_scheme_len < n + 1 then Some (Inl QCLOUD_ERR_HTTP_PARSE)
          else let scheme = take n url; host_ptr = drop (n + 3) url
               in (case strchr_at host_ptr SLASH of
                    None \<Rightarrow> if length host_ptr + 1 > maxhost_len \<or> max_path_len < 2 then None
                            else Some (Inr (scheme, host_ptr, [SLASH]))
                  | Some host_len \<Rightarrow>
                      if maxhost_len < host_len + 1 then Some (Inl QCLOUD_ERR_HTTP_PARSE)
                      else let path_ptr = drop host_len host_ptr;
                               path_len = (case strchr_at host_ptr 35 of
                                             Some f \<Rightarrow> (of_nat f - of_nat host_len :: u32) | None \<Rightarrow> of_nat (length path_ptr))
                           in if of_nat max_path_len < path_len + 1 then Some (Inl QCLOUD_ERR_HTTP_PARSE)
                              else do {
                                path \<leftarrow> rd_bytes path_ptr 0 (unat path_len);
                                if unat path_len \<ge> max_path_len then None else Some (Inr (scheme, take host_len host_ptr, path)) }))"

definition http_client_parse_host :: "byte list \<Rightarrow> nat \<Rightarrow> int + byte list" where
  "http_client_parse_host url host_max_len =
     (case strstr url (cstr ''://'') of
        None \<Rightarrow> Inl QCLOUD_ERR_HTTP_PARSE
      | Some n \<Rightarrow>
          let host_ptr = drop (n + 3) url;
              host_len = (case strchr_at host_ptr SLASH of Some k \<Rightarrow> k | None \<Rightarrow> length host_ptr)
          in if host_max_len < host_len + 1 then Inl QCLOUD_ERR_HTTP_PARSE else Inr (take host_len host_ptr))"

text \<open>
  \<^verbatim>\<open>_http_client_get_info\<close>: appending to the send buffer. When the buffer is full it is written out, and if that wrote anything the
  function returns with the old position; if not, it tries again.
\<close>

partial_function (option) get_info_loop ::
  "'w web \<Rightarrow> nat \<Rightarrow> byte list \<Rightarrow> nat \<Rightarrow> byte list \<Rightarrow> nat \<Rightarrow> 'w http \<Rightarrow> ((int \<times> byte list \<times> nat) \<times> 'w http) option" where
  "get_info_loop W send_idx send_buf idx buf len s = do {
     let cp_len = (if HTTP_CLIENT_SEND_BUF_SIZE - idx \<ge> len then len else HTTP_CLIENT_SEND_BUF_SIZE - idx);
     bs \<leftarrow> rd_bytes buf 0 cp_len;
     send_buf \<leftarrow> wr_bytes send_buf idx bs;
     if idx + cp_len = HTTP_CLIENT_SEND_BUF_SIZE
     then let ((rc, byte_written_len), w) = web_write W (take HTTP_CLIENT_SEND_BUF_SIZE send_buf) 5000 (wd s); s = s\<lparr>wd := w\<rparr>
          in if byte_written_len \<noteq> 0 then Some ((int byte_written_len, send_buf, send_idx), s)
             else if len - cp_len = 0 then Some ((rc, send_buf, idx + cp_len), s)
             else get_info_loop W send_idx send_buf (idx + cp_len) buf (len - cp_len) s
     else if len - cp_len = 0 then Some ((QCLOUD_RET_SUCCESS, send_buf, idx + cp_len), s)
     else get_info_loop W send_idx send_buf (idx + cp_len) buf (len - cp_len) s }"

definition http_client_get_info ::
  "'w web \<Rightarrow> byte list \<Rightarrow> nat \<Rightarrow> byte list \<Rightarrow> 'w http \<Rightarrow> ((int \<times> byte list \<times> nat) \<times> 'w http) option" where
  "http_client_get_info W send_buf send_idx buf s = get_info_loop W send_idx send_buf send_idx buf (length buf) s"

text \<open>A text printed into an array of \<open>n\<close> bytes.\<close>

definition snprintf_text :: "nat \<Rightarrow> byte list \<Rightarrow> byte list" where
  "snprintf_text n t = take (n - 1) t"

definition printed_str :: "byte list option \<Rightarrow> byte list" where
  "printed_str s = (case s of None \<Rightarrow> cstr ''null'' | Some t \<Rightarrow> t)"

definition http_client_send_auth ::
  "'w web \<Rightarrow> byte list \<Rightarrow> nat \<Rightarrow> 'w http \<Rightarrow> ((byte list \<times> nat) \<times> 'w http) option" where
  "http_client_send_auth W send_buf send_idx s = do {
     ((rc, send_buf, send_idx), s) \<leftarrow> http_client_get_info W send_buf send_idx (cstr ''Authorization: Basic '') s;
     let b_auth = http_client_base64enc
           (snprintf_text (HTTP_CLIENT_AUTHB_SIZE + 3) (printed_str (auth_user (hc s)) @ COLON # printed_str (auth_password (hc s))));
     if length b_auth + 2 > (HTTP_CLIENT_AUTHB_SIZE + 3) * 4 div 3 + 1 then None
     else do {
       ((rc, send_buf, send_idx), s) \<leftarrow> http_client_get_info W send_buf send_idx (b_auth @ [LF]) s;
       Some ((send_buf, send_idx), s) } }"

definition http_method :: "HttpMethod \<Rightarrow> byte list" where
  "http_method m = (case m of HTTP_GET \<Rightarrow> cstr ''GET'' | HTTP_POST \<Rightarrow> cstr ''POST'' | HTTP_PUT \<Rightarrow> cstr ''PUT''
     | HTTP_DELETE \<Rightarrow> cstr ''DELETE'' | HTTP_HEAD \<Rightarrow> cstr ''HEAD'')"

definition request_line :: "HttpMethod \<Rightarrow> byte list \<Rightarrow> byte list \<Rightarrow> byte list" where
  "request_line m path host = snprintf_text HTTP_CLIENT_SEND_BUF_SIZE
     (http_method m @ SPACE # path @ cstr '' HTTP/1.1'' @ [CR, LF] @ cstr ''Host: '' @ host @ [CR, LF])"

text \<open>One more piece of the header; its return code is dropped.\<close>

definition add_info :: "'w web \<Rightarrow> byte list \<Rightarrow> (byte list \<times> nat) \<times> 'w http \<Rightarrow> ((byte list \<times> nat) \<times> 'w http) option" where
  "add_info W buf = (\<lambda>((send_buf, len), s). do {
     ((rc, send_buf, len), s) \<leftarrow> http_client_get_info W send_buf len buf s;
     Some ((send_buf, len), s) })"

definition http_client_send_header :: "'w web \<Rightarrow> byte list \<Rightarrow> HttpMethod \<Rightarrow> 'w http \<Rightarrow> (int \<times> 'w http) option" where
  "http_client_send_header W url m s = do {
     r \<leftarrow> http_client_parse_url url 8 HTTP_CLIENT_MAX_HOST_LEN HTTP_CLIENT_MAX_URL_LEN;
     (case r of
        Inl rc \<Rightarrow> Some (rc, s)
      | Inr (scheme, host, path) \<Rightarrow> do {
          ((rc, send_buf, len), s) \<leftarrow> http_client_get_info W (replicate HTTP_CLIENT_SEND_BUF_SIZE 0) 0 (request_line m path host) s;
          if rc \<noteq> 0 then Some (QCLOUD_ERR_HTTP_CONN, s)
          else do {
            ((send_buf, len), s) \<leftarrow> (if auth_user (hc s) \<noteq> None then http_client_send_auth W send_buf len s else Some ((send_buf, len), s));
            ((send_buf, len), s) \<leftarrow> (case http_header (hc s) of
                 Some h \<Rightarrow> add_info W h ((send_buf, len), s) | None \<Rightarrow> Some ((send_buf, len), s));
            ((send_buf, len), s) \<leftarrow> (case post_buf (hdata s) of
                 None \<Rightarrow> Some ((send_buf, len), s)
               | Some b \<Rightarrow> do {
                   x \<leftarrow> add_info W (cstr ''Content-Length: '' @ dec (length b) @ [CR, LF]) ((send_buf, len), s);
                   (case post_content_type (hdata (snd x)) of
                      None \<Rightarrow> Some x
                    | Some t \<Rightarrow> add_info W (snprintf_text HTTP_CLIENT_SEND_BUF_SIZE (cstr ''Content-Type: '' @ t @ [CR, LF])) x) });
            ((send_buf, len), s) \<leftarrow> add_info W [CR, LF] ((send_buf, len), s);
            let ((rc, written_len), w) = web_write W (take len send_buf) 5000 (wd s);
            Some (if written_len > 0 then QCLOUD_RET_SUCCESS else QCLOUD_ERR_HTTP_CLOSED, s\<lparr>wd := w\<rparr>) } }) }"

definition http_client_send_userdata :: "'w web \<Rightarrow> nat \<Rightarrow> 'w http \<Rightarrow> int \<times> 'w http" where
  "http_client_send_userdata W timeout_ms s =
     (case post_buf (hdata s) of
        None \<Rightarrow> (QCLOUD_RET_SUCCESS, s)
      | Some b \<Rightarrow>
          if b = [] then (QCLOUD_RET_SUCCESS, s)
          else let ((rc, written_len), w) = web_write W b timeout_ms (wd s)
               in (if written_len > 0 then QCLOUD_RET_SUCCESS else QCLOUD_ERR_HTTP_CLOSED, s\<lparr>wd := w\<rparr>))"

definition http_client_send_request :: "'w web \<Rightarrow> byte list \<Rightarrow> HttpMethod \<Rightarrow> 'w http \<Rightarrow> (int \<times> 'w http) option" where
  "http_client_send_request W url m s = do {
     (rc, s) \<leftarrow> http_client_send_header W url m s;
     if rc \<noteq> 0 then Some (rc, s)
     else if m = HTTP_POST \<or> m = HTTP_PUT then Some (http_client_send_userdata W 5000 s)
     else Some (rc, s) }"

section \<open>Responses\<close>

abbreviation QCLOUD_ERR_TCP_READ_TIMEOUT :: int where "QCLOUD_ERR_TCP_READ_TIMEOUT \<equiv> - 604"

definition http_disconnect :: "'w web \<Rightarrow> 'w http \<Rightarrow> 'w http" where
  "http_disconnect W s =
     (if net_handle (hc s) then hc_update (\<lambda>c. c\<lparr>net_handle := False\<rparr>) (s\<lparr>wd := web_disconnect W (wd s)\<rparr>) else s)"

text \<open>\<^verbatim>\<open>_http_client_recv\<close> into \<open>data\<close> at an offset: the return code, the number of bytes, and the buffer.\<close>

definition http_client_recv ::
  "'w web \<Rightarrow> byte list \<Rightarrow> nat \<Rightarrow> int \<Rightarrow> nat \<Rightarrow> 'w http \<Rightarrow> ((int \<times> nat \<times> byte list) \<times> 'w http) option" where
  "http_client_recv W data off max_len timeout_ms s =
     (if max_len < 0 then None
      else do {
        let (timer, s) = web_countdown_ms W timeout_ms s;
        let (ms, s) = web_left_ms W timer s;
        let ((rc, bs), w) = web_read W (nat max_len) ms (wd s);
        let s = s\<lparr>wd := w\<rparr>;
        data \<leftarrow> wr_bytes data off bs;
        if rc = QCLOUD_ERR_SSL_NOTHING_TO_READ \<or> rc = QCLOUD_ERR_TCP_NOTHING_TO_READ
        then Some ((QCLOUD_RET_SUCCESS, length bs, data), s)
        else if rc = QCLOUD_ERR_SSL_READ_TIMEOUT \<or> rc = QCLOUD_ERR_TCP_READ_TIMEOUT
        then Some ((if int (length bs) = retrieve_len (hdata s) \<or> retrieve_len (hdata s) = 0 then QCLOUD_RET_SUCCESS else rc,
                    length bs, data), s)
        else if rc = QCLOUD_ERR_TCP_PEER_SHUTDOWN \<and> bs \<noteq> []
        then Some ((QCLOUD_RET_SUCCESS, length bs, data), http_disconnect W s)
        else Some ((rc, length bs, data), s) })"

text \<open>
  \<^verbatim>\<open>_http_client_retrieve_content\<close>, the loop for a response without a length: the first \<open>len\<close> bytes of \<open>data\<close> go to the buffer of the caller,
  then the next piece is read.
\<close>

definition set_response :: "nat \<Rightarrow> byte list \<Rightarrow> 'w http \<Rightarrow> 'w http option" where
  "set_response p bs s = do {
     buf \<leftarrow> wr_bytes (response_buf (hdata s)) p bs;
     Some (hd_update (\<lambda>d. d\<lparr>response_buf := buf\<rparr>) s) }"

definition fill_response :: "byte list \<Rightarrow> nat \<Rightarrow> 'w http \<Rightarrow> 'w http option" where
  "fill_response data count s = do {
     bs \<leftarrow> rd_int data 0 (response_buf_len (hdata s) - 1 - int count);
     s \<leftarrow> set_response count bs s;
     if response_buf_len (hdata s) < 1 then None else set_response (nat (response_buf_len (hdata s)) - 1) [0] s }"

partial_function (option) retrieve_plain ::
  "'w web \<Rightarrow> Timer \<Rightarrow> byte list \<Rightarrow> nat \<Rightarrow> nat \<Rightarrow> 'w http \<Rightarrow> (int \<times> 'w http) option" where
  "retrieve_plain W timer data len count s =
     (if int (count + len) < response_buf_len (hdata s) - 1
      then do {
        bs \<leftarrow> rd_bytes data 0 len;
        s \<leftarrow> set_response count (bs @ [0]) s;
        let count = count + len;
        let max_len = min (int HTTP_CLIENT_CHUNK_SIZE - 1) (response_buf_len (hdata s) - 1 - int count);
        let (ms, s) = web_left_ms W timer s;
        ((rc, len, data), s) \<leftarrow> http_client_recv W data 0 max_len ms s;
        if rc \<noteq> QCLOUD_RET_SUCCESS then Some (rc, s)
        else let (left, s) = web_left_ms W timer s
             in if left = 0 then Some (QCLOUD_ERR_HTTP_TIMEOUT, s)
                else if len = 0 then Some (QCLOUD_RET_SUCCESS, hd_update (\<lambda>d. d\<lparr>is_more := False\<rparr>) s)
                else retrieve_plain W timer data len count s }
      else do {
        s \<leftarrow> fill_response data count s;
        Some (HTTP_RETRIEVE_MORE_DATA, s) })"

text \<open>The header of a chunk: the position of the line end in the first \<open>len\<close> bytes. When time is up the function returns \<open>0\<close>.\<close>

definition find_crlf :: "byte list \<Rightarrow> nat \<Rightarrow> nat option" where
  "find_crlf data len = List.find (\<lambda>p. data ! p = CR \<and> data ! (p + 1) = LF) [0..<len - 2]"

partial_function (option) chunk_header ::
  "'w web \<Rightarrow> Timer \<Rightarrow> byte list \<Rightarrow> nat \<Rightarrow> 'w http \<Rightarrow> ((int + nat \<times> byte list \<times> nat) \<times> 'w http) option" where
  "chunk_header W timer data len s = do {
     data \<leftarrow> wr_bytes data len [0];
     (case find_crlf data len of
        Some crlf_pos \<Rightarrow> Some (Inr (crlf_pos, data, len), s)
      | None \<Rightarrow>
          if len < HTTP_CLIENT_CHUNK_SIZE
          then let (ms, s) = web_left_ms W timer s
               in do {
                 ((rc, new_trf_len, data), s) \<leftarrow> http_client_recv W data len (int HTTP_CLIENT_CHUNK_SIZE - int len - 1) ms s;
                 if rc \<noteq> QCLOUD_RET_SUCCESS then Some (Inl rc, snd (web_left_ms W timer s))
                 else let (left, s) = web_left_ms W timer s
                      in if left = 0 then Some (Inl rc, snd (web_left_ms W timer s))
                         else chunk_header W timer data (len + new_trf_len) s }
          else Some (Inl QCLOUD_ERR_HTTP, s)) }"

text \<open>The length of the chunk; the text of the header is removed from \<open>data\<close>. A zero length ends the content.\<close>

definition chunk_start ::
  "'w web \<Rightarrow> Timer \<Rightarrow> byte list \<Rightarrow> nat \<Rightarrow> 'w http \<Rightarrow> ((int + u32 \<times> byte list \<times> nat) \<times> 'w http) option" where
  "chunk_start W timer data len s = do {
     (h, s) \<leftarrow> chunk_header W timer data len s;
     (case h of
        Inl rc \<Rightarrow> Some (Inl rc, s)
      | Inr (crlf_pos, data, len) \<Rightarrow> do {
          data \<leftarrow> wr_bytes data crlf_pos [0];
          t \<leftarrow> str_at data 0;
          let readLen = (of_nat (strtoul16 t) :: u32);
          total \<leftarrow> int32 (response_content_len (hdata s) + sint readLen);
          let s = hd_update (\<lambda>d. d\<lparr>retrieve_len := sint readLen, response_content_len := total\<rparr>) s;
          if readLen = 0 then Some (Inl QCLOUD_RET_SUCCESS, hd_update (\<lambda>d. d\<lparr>is_more := False\<rparr>) s)
          else do {
            bs \<leftarrow> rd_bytes data (crlf_pos + 2) (len - (crlf_pos + 2));
            data \<leftarrow> wr_bytes data 0 bs;
            Some (Inr (readLen, data, len - (crlf_pos + 2)), s) } }) }"

text \<open>The inner loop: \<open>readLen\<close> bytes go to the buffer of the caller.\<close>

definition take_response :: "nat \<Rightarrow> 'w http \<Rightarrow> 'w http option" where
  "take_response n s = do {
     r \<leftarrow> int32 (retrieve_len (hdata s) - int n);
     Some (hd_update (\<lambda>d. d\<lparr>retrieve_len := r\<rparr>) s) }"

partial_function (option) retrieve_body ::
  "'w web \<Rightarrow> Timer \<Rightarrow> byte list \<Rightarrow> nat \<Rightarrow> nat \<Rightarrow> u32 \<Rightarrow> 'w http \<Rightarrow> ((int + byte list \<times> nat) \<times> 'w http) option" where
  "retrieve_body W timer data len count readLen s = (
     let templen = (if of_nat len < readLen then len else unat readLen)
     in if int (count + templen) < response_buf_len (hdata s) - 1
        then do {
          bs \<leftarrow> rd_bytes data 0 templen;
          s \<leftarrow> set_response count (bs @ [0]) s;
          let count = count + templen;
          s \<leftarrow> take_response templen s;
          if of_nat len > readLen
          then do {
            bs \<leftarrow> rd_bytes data (unat readLen) (len - unat readLen);
            data \<leftarrow> wr_bytes data 0 bs;
            Some (Inr (data, count), hd_update (\<lambda>d. d\<lparr>retrieve_len := 0\<rparr>) s) }
          else let readLen = readLen - of_nat len
               in if readLen = 0 then Some (Inr (data, count), s)
                  else let max_len = min (int HTTP_CLIENT_CHUNK_SIZE - 1) (response_buf_len (hdata s) - 1 - int count);
                           max_len = (if word_of_int max_len < readLen then max_len else sint readLen);
                           (ms, s) = web_left_ms W timer s
                       in do {
                         ((rc, len, data), s) \<leftarrow> http_client_recv W data 0 max_len ms s;
                         if rc \<noteq> QCLOUD_RET_SUCCESS then Some (Inl rc, snd (web_left_ms W timer s))
                         else let (left, s) = web_left_ms W timer s
                              in if left = 0 then Some (Inl QCLOUD_ERR_HTTP_TIMEOUT, s)
                                 else retrieve_body W timer data len count readLen s } }
        else do {
          s \<leftarrow> fill_response data count s;
          s \<leftarrow> take_response (nat (response_buf_len (hdata s)) - 1 - count) s;
          Some (Inl HTTP_RETRIEVE_MORE_DATA, s) })"

text \<open>The line end after a chunk. What the inner loop had already read of it has been dropped: the source sets \<^verbatim>\<open>len = readLen\<close>, which is zero.\<close>

definition chunk_end :: "'w web \<Rightarrow> Timer \<Rightarrow> byte list \<Rightarrow> nat \<Rightarrow> 'w http \<Rightarrow> ((int + byte list \<times> nat) \<times> 'w http) option" where
  "chunk_end W timer data len s = do {
     (r, s) \<leftarrow>
       (if len < 2
        then let (ms, s) = web_left_ms W timer s
             in do {
               ((rc, new_trf_len, data), s) \<leftarrow> http_client_recv W data len 7 ms s;
               if rc \<noteq> QCLOUD_RET_SUCCESS then Some (Inl rc, snd (web_left_ms W timer s))
               else let (left, s) = web_left_ms W timer s
                    in if left = 0 then Some (Inl rc, snd (web_left_ms W timer s))
                       else Some (Inr (data, len + new_trf_len), s) }
        else Some (Inr (data, len), s));
     (case r of
        Inl rc \<Rightarrow> Some (Inl rc, s)
      | Inr (data, len) \<Rightarrow> do {
          c \<leftarrow> rd data 0;
          d \<leftarrow> rd data 1;
          if c \<noteq> CR \<or> d \<noteq> LF then Some (Inl QCLOUD_ERR_HTTP_UNRESOLVED_DNS, s)
          else do {
            bs \<leftarrow> rd_int data 2 (int len - 2);
            data \<leftarrow> wr_bytes data 0 bs;
            Some (Inr (data, len - 2), s) } }) }"

partial_function (option) retrieve_loop ::
  "'w web \<Rightarrow> Timer \<Rightarrow> byte list \<Rightarrow> nat \<Rightarrow> nat \<Rightarrow> 'w http \<Rightarrow> (int \<times> 'w http) option" where
  "retrieve_loop W timer data len count s = do {
     (h, s) \<leftarrow>
       (if is_chunked (hdata s) \<and> retrieve_len (hdata s) \<le> 0 then chunk_start W timer data len s
        else Some (Inr (word_of_int (retrieve_len (hdata s)), data, len), s));
     (case h of
        Inl rc \<Rightarrow> Some (rc, s)
      | Inr (readLen, data, len) \<Rightarrow> do {
          (b, s) \<leftarrow> retrieve_body W timer data len count readLen s;
          (case b of
             Inl rc \<Rightarrow> Some (rc, s)
           | Inr (data, count) \<Rightarrow>
               if is_chunked (hdata s)
               then do {
                 (e, s) \<leftarrow> chunk_end W timer data 0 s;
                 (case e of
                    Inl rc \<Rightarrow> Some (rc, s)
                  | Inr (data, len) \<Rightarrow> retrieve_loop W timer data len count s) }
               else Some (QCLOUD_RET_SUCCESS, hd_update (\<lambda>d. d\<lparr>is_more := False\<rparr>) s)) }) }"

definition http_client_retrieve_content ::
  "'w web \<Rightarrow> byte list \<Rightarrow> nat \<Rightarrow> nat \<Rightarrow> 'w http \<Rightarrow> (int \<times> 'w http) option" where
  "http_client_retrieve_content W data len timeout_ms s =
     (let (timer, s) = web_countdown_ms W timeout_ms s;
          s = hd_update (\<lambda>d. d\<lparr>is_more := True\<rparr>) s
      in if response_content_len (hdata s) = - 1 \<and> \<not> is_chunked (hdata s) then retrieve_plain W timer data len 0 s
         else retrieve_loop W timer data len 0 s)"

text \<open>
  \<^verbatim>\<open>_http_client_response_parse\<close>: status line, headers, and the first part of the body. The end of the headers has to come with the first or
  the second read. The headers are searched in everything that has arrived, the body included.
\<close>

definition header_end :: "'w web \<Rightarrow> Timer \<Rightarrow> byte list \<Rightarrow> nat \<Rightarrow> 'w http \<Rightarrow> ((int + nat \<times> byte list \<times> nat) \<times> 'w http) option" where
  "header_end W timer data len s = do {
     t \<leftarrow> str_at data 0;
     (case strstr t [CR, LF, CR, LF] of
        Some p \<Rightarrow> Some (Inr (p, data, len), s)
      | None \<Rightarrow>
          let (ms, s) = web_left_ms W timer s
          in do {
            ((rc, new_trf_len, data), s) \<leftarrow> http_client_recv W data len (int HTTP_CLIENT_CHUNK_SIZE - int len - 1) ms s;
            if rc \<noteq> QCLOUD_RET_SUCCESS then Some (Inl rc, s)
            else do {
              let len = len + new_trf_len;
              data \<leftarrow> wr_bytes data len [0];
              t \<leftarrow> str_at data 0;
              Some (case strstr t [CR, LF, CR, LF] of Some p \<Rightarrow> Inr (p, data, len) | None \<Rightarrow> Inl QCLOUD_ERR_FAILURE, s) } }) }"

definition read_headers :: "byte list \<Rightarrow> 'w http \<Rightarrow> (int \<times> 'w http) option" where
  "read_headers data s = do {
     t \<leftarrow> str_at data 0;
     (case strstr t (cstr ''Content-Length'') of
        Some p \<Rightarrow> do {
          v \<leftarrow> str_at data (p + 16);
          n \<leftarrow> atoi v;
          Some (QCLOUD_RET_SUCCESS, hd_update (\<lambda>d. d\<lparr>response_content_len := n, retrieve_len := n\<rparr>) s) }
      | None \<Rightarrow>
          (case strstr t (cstr ''Transfer-Encoding'') of
             Some p \<Rightarrow> do {
               v \<leftarrow> rd_bytes data (p + 19) 7;
               Some (QCLOUD_RET_SUCCESS,
                 if v = cstr ''Chunked'' \<or> v = cstr ''chunked''
                 then hd_update (\<lambda>d. d\<lparr>is_chunked := True, response_content_len := 0, retrieve_len := 0\<rparr>) s else s) }
           | None \<Rightarrow> Some (QCLOUD_ERR_HTTP, s))) }"

definition http_client_response_parse ::
  "'w web \<Rightarrow> byte list \<Rightarrow> nat \<Rightarrow> nat \<Rightarrow> 'w http \<Rightarrow> (int \<times> 'w http) option" where
  "http_client_response_parse W data len timeout_ms s = do {
     let (timer, s) = web_countdown_ms W timeout_ms s;
     let s = hd_update (\<lambda>d. d\<lparr>response_content_len := - 1\<rparr>) s;
     t \<leftarrow> str_at data 0;
     (case strstr t [CR, LF] of
        None \<Rightarrow> Some (QCLOUD_ERR_HTTP_UNRESOLVED_DNS, s)
      | Some crlf_pos \<Rightarrow> do {
          data \<leftarrow> wr_bytes data crlf_pos [0];
          v \<leftarrow> str_at data 9;
          code \<leftarrow> atoi v;
          let s = hc_update (\<lambda>c. c\<lparr>response_code := code\<rparr>) s;
          if code = 403 then Some (QCLOUD_ERR_HTTP_AUTH, s)
          else if code = 404 then Some (QCLOUD_ERR_HTTP_NOT_FOUND, s)
          else do {
            bs \<leftarrow> rd_int data (crlf_pos + 2) (int len - int (crlf_pos + 2) + 1);
            data \<leftarrow> wr_bytes data 0 bs;
            let s = hd_update (\<lambda>d. d\<lparr>is_chunked := False\<rparr>) s;
            (e, s) \<leftarrow> header_end W timer data (len - (crlf_pos + 2)) s;
            (case e of
               Inl rc \<Rightarrow> Some (rc, s)
             | Inr (p, data, len) \<Rightarrow> do {
                 (rc, s) \<leftarrow> read_headers data s;
                 if rc \<noteq> QCLOUD_RET_SUCCESS then Some (rc, s)
                 else do {
                   bs \<leftarrow> rd_bytes data (p + 4) (len - (p + 4) + 1);
                   data \<leftarrow> wr_bytes data 0 bs;
                   let (ms, s) = web_left_ms W timer s;
                   http_client_retrieve_content W data (len - (p + 4)) ms s } }) } }) }"

definition http_client_recv_response :: "'w web \<Rightarrow> nat \<Rightarrow> 'w http \<Rightarrow> (int \<times> 'w http) option" where
  "http_client_recv_response W timeout_ms s = do {
     let buf = replicate HTTP_CLIENT_CHUNK_SIZE 0;
     let (timer, s) = web_countdown_ms W timeout_ms s;
     if \<not> net_handle (hc s) then Some (QCLOUD_ERR_HTTP_CONN, s)
     else if is_more (hdata s)
     then do {
       s \<leftarrow> set_response 0 [0] s;
       let (ms, s) = web_left_ms W timer s;
       http_client_retrieve_content W buf 0 ms s }
     else do {
       let s = hd_update (\<lambda>d. d\<lparr>is_more := True\<rparr>) s;
       let (ms, s) = web_left_ms W timer s;
       ((rc, reclen, buf), s) \<leftarrow> http_client_recv W buf 0 (int HTTP_CLIENT_CHUNK_SIZE - 1) ms s;
       if rc \<noteq> QCLOUD_RET_SUCCESS then Some (rc, s)
       else do {
         buf \<leftarrow> wr_bytes buf reclen [0];
         if reclen \<noteq> 0
         then let (ms, s) = web_left_ms W timer s in http_client_response_parse W buf reclen ms s
         else Some (rc, s) } } }"

section \<open>The operations of the client\<close>

text \<open>\<^verbatim>\<open>_http_network_init\<close> with \<^verbatim>\<open>network_init\<close> for a TCP connection: the handle is cleared. Connecting to the host sets it.\<close>

definition http_network_init :: "'w http \<Rightarrow> 'w http" where
  "http_network_init s = hc_update (\<lambda>c. c\<lparr>net_inited := True, net_handle := False\<rparr>) s"

definition http_client_connect :: "'w web \<Rightarrow> byte list \<Rightarrow> int \<Rightarrow> 'w http \<Rightarrow> int \<times> 'w http" where
  "http_client_connect W host port s =
     (let (ok, w) = web_connect W host port (wd s); s = hc_update (\<lambda>c. c\<lparr>net_handle := ok\<rparr>) (s\<lparr>wd := w\<rparr>)
      in (if ok then QCLOUD_RET_SUCCESS else QCLOUD_ERR_HTTP_CONN, s))"

definition qcloud_http_client_close :: "'w web \<Rightarrow> 'w http \<Rightarrow> 'w http" where
  "qcloud_http_client_close W s = (if net_handle (hc s) then http_disconnect W s else s)"

definition qcloud_http_client_connect :: "'w web \<Rightarrow> byte list \<Rightarrow> int \<Rightarrow> 'w http \<Rightarrow> int \<times> 'w http" where
  "qcloud_http_client_connect W url port s =
     (if net_handle (hc s) then (QCLOUD_ERR_HTTP_CONN, s)
      else case http_client_parse_host url HTTP_CLIENT_MAX_HOST_LEN of
             Inl rc \<Rightarrow> (rc, s)
           | Inr host \<Rightarrow>
               let (rc, s) = http_client_connect W host port (http_network_init s)
               in (rc, if rc \<noteq> QCLOUD_RET_SUCCESS then qcloud_http_client_close W s else s))"

definition qcloud_http_client_common ::
  "'w web \<Rightarrow> byte list \<Rightarrow> int \<Rightarrow> HttpMethod \<Rightarrow> 'w http \<Rightarrow> (int \<times> 'w http) option" where
  "qcloud_http_client_common W url port m s =
     (let (rc, s) = (if net_handle (hc s) then (QCLOUD_RET_SUCCESS, s) else qcloud_http_client_connect W url port s)
      in if rc \<noteq> QCLOUD_RET_SUCCESS then Some (rc, s)
         else do {
           (rc, s) \<leftarrow> http_client_send_request W url m s;
           Some (if rc \<noteq> QCLOUD_RET_SUCCESS then (rc, qcloud_http_client_close W s) else (QCLOUD_RET_SUCCESS, s)) })"

definition qcloud_http_recv_data :: "'w web \<Rightarrow> nat \<Rightarrow> 'w http \<Rightarrow> (int \<times> 'w http) option" where
  "qcloud_http_recv_data W timeout_ms s =
     (let (timer, s) = web_countdown_ms W timeout_ms s
      in if response_buf_len (hdata s) \<noteq> 0
         then let (ms, s) = web_left_ms W timer s
              in do {
                (rc, s) \<leftarrow> http_client_recv_response W ms s;
                Some (if rc < 0 then (rc, qcloud_http_client_close W s) else (QCLOUD_RET_SUCCESS, s)) }
         else Some (QCLOUD_RET_SUCCESS, s))"

definition qcloud_http_send_data :: "'w web \<Rightarrow> HttpMethod \<Rightarrow> nat \<Rightarrow> 'w http \<Rightarrow> int \<times> 'w http" where
  "qcloud_http_send_data W m timeout_ms s =
     (if m = HTTP_POST \<or> m = HTTP_PUT then http_client_send_userdata W timeout_ms s else (QCLOUD_ERR_INVAL, s))"

end
