(* ===== verification/Ota_Client.thy ===== *)
theory Ota_Client
  imports Http_Client Mqtt_Session Utils_Json Utils_Hash
begin

text \<open>
  The firmware update: \<^verbatim>\<open>sdk_src/services/ota/ota_lib.c\<close> (messages and MD5), \<^verbatim>\<open>ota_fetch.c\<close> (the download over HTTP),
  \<^verbatim>\<open>ota_mqtt.c\<close> (the signals over MQTT) and \<^verbatim>\<open>ota_client.c\<close> (the operations).

  The state is the OTA structure with the MQTT client it uses and, while a file is fetched, an HTTP client; the world of the two clients is one.
  The MQTT client calls the handlers of the module in the middle of a call; they touch only the OTA structure and the heap, so they
  are run after the call, in the order of the events it has recorded. A null pointer that is followed is \<^const>\<open>None\<close>; so is a division by zero.
  The contents of a block that is freed or overwritten while it is still allocated are not modelled.
\<close>

section \<open>State\<close>

datatype IOT_OTA_State_Code = IOT_OTAS_UNINITED | IOT_OTAS_INITED | IOT_OTAS_FETCHING | IOT_OTAS_FETCHED | IOT_OTAS_DISCONNECTED

datatype IOT_OTAReportType =
  IOT_OTAR_DOWNLOAD_TIMEOUT | IOT_OTAR_FILE_NOT_EXIST | IOT_OTAR_AUTH_FAIL | IOT_OTAR_MD5_NOT_MATCH | IOT_OTAR_UPGRADE_FAIL
| IOT_OTAR_NONE | IOT_OTAR_DOWNLOAD_BEGIN | IOT_OTAR_DOWNLOADING | IOT_OTAR_UPGRADE_BEGIN | IOT_OTAR_UPGRADE_SUCCESS

datatype IOT_OTA_CmdType = IOT_OTAG_FETCHED_SIZE | IOT_OTAG_FILE_SIZE | IOT_OTAG_MD5SUM | IOT_OTAG_VERSION | IOT_OTAG_CHECK_FIRMWARE

text \<open>The order of the states, as the enumeration has it.\<close>

definition state_code :: "IOT_OTA_State_Code \<Rightarrow> nat" where
  "state_code st = (case st of IOT_OTAS_UNINITED \<Rightarrow> 0 | IOT_OTAS_INITED \<Rightarrow> 1 | IOT_OTAS_FETCHING \<Rightarrow> 2 | IOT_OTAS_FETCHED \<Rightarrow> 3 | IOT_OTAS_DISCONNECTED \<Rightarrow> 4)"

definition report_code :: "IOT_OTAReportType \<Rightarrow> int" where
  "report_code r = (case r of IOT_OTAR_DOWNLOAD_TIMEOUT \<Rightarrow> - 1 | IOT_OTAR_FILE_NOT_EXIST \<Rightarrow> - 2 | IOT_OTAR_AUTH_FAIL \<Rightarrow> - 3
     | IOT_OTAR_MD5_NOT_MATCH \<Rightarrow> - 4 | IOT_OTAR_UPGRADE_FAIL \<Rightarrow> - 5 | IOT_OTAR_NONE \<Rightarrow> 0 | IOT_OTAR_DOWNLOAD_BEGIN \<Rightarrow> 1
     | IOT_OTAR_DOWNLOADING \<Rightarrow> 2 | IOT_OTAR_UPGRADE_BEGIN \<Rightarrow> 3 | IOT_OTAR_UPGRADE_SUCCESS \<Rightarrow> 4)"

abbreviation IOT_OTA_ERR_FAIL :: int where "IOT_OTA_ERR_FAIL \<equiv> - 1"
abbreviation IOT_OTA_ERR_INVALID_PARAM :: int where "IOT_OTA_ERR_INVALID_PARAM \<equiv> - 2"
abbreviation IOT_OTA_ERR_INVALID_STATE :: int where "IOT_OTA_ERR_INVALID_STATE \<equiv> - 3"
abbreviation IOT_OTA_ERR_STR_TOO_LONG :: int where "IOT_OTA_ERR_STR_TOO_LONG \<equiv> - 4"
abbreviation IOT_OTA_ERR_FETCH_FAILED :: int where "IOT_OTA_ERR_FETCH_FAILED \<equiv> - 5"
abbreviation IOT_OTA_ERR_FETCH_NOT_EXIST :: int where "IOT_OTA_ERR_FETCH_NOT_EXIST \<equiv> - 6"
abbreviation IOT_OTA_ERR_FETCH_AUTH_FAIL :: int where "IOT_OTA_ERR_FETCH_AUTH_FAIL \<equiv> - 7"
abbreviation IOT_OTA_ERR_FETCH_TIMEOUT :: int where "IOT_OTA_ERR_FETCH_TIMEOUT \<equiv> - 8"
abbreviation IOT_OTA_ERR_NOMEM :: int where "IOT_OTA_ERR_NOMEM \<equiv> - 9"
abbreviation IOT_OTA_ERR_OSC_FAILED :: int where "IOT_OTA_ERR_OSC_FAILED \<equiv> - 10"
abbreviation IOT_OTA_ERR_REPORT_VERSION :: int where "IOT_OTA_ERR_REPORT_VERSION \<equiv> - 11"
abbreviation OTA_MAX_TOPIC_LEN :: nat where "OTA_MAX_TOPIC_LEN \<equiv> 64"
abbreviation OTA_FILESIZE_STR_LEN :: nat where "OTA_FILESIZE_STR_LEN \<equiv> 16"
abbreviation OTA_HTTP_HEAD_CONTENT_LEN :: nat where "OTA_HTTP_HEAD_CONTENT_LEN \<equiv> 256"

text \<open>\<open>msg_callback\<close>: the callback of the client has been entered.\<close>

record OTASignal =
  topic_upgrade :: "byte list"
  topic_ready :: bool
  msg_callback :: bool

record OTAHTTPStruct =
  of_url :: "byte list option"
  of_http :: HTTPClient
  of_data :: HTTPClientData

record 'w ota =
  om :: "'w mqtt"
  ota_product_id :: "byte list"
  ota_device_name :: "byte list"
  ota_state :: IOT_OTA_State_Code
  size_last_fetched :: u32
  size_fetched :: u32
  size_file :: u32
  purl :: "byte list option"
  ota_version :: "byte list option"
  md5sum :: "byte list"
  ota_md5 :: "md5_state md_context option"
  ch_signal :: "OTASignal option"
  ch_fetch :: "OTAHTTPStruct option"
  ota_err :: int
  report_timer :: Timer
  other_events :: "event list"

definition ota_malloc :: "'w hal \<Rightarrow> 'w ota \<Rightarrow> bool \<times> 'w ota" where
  "ota_malloc H s = (let (ok, m) = HAL_Malloc H (om s) in (ok, s\<lparr>om := m\<rparr>))"

section \<open>Messages\<close>

text \<open>
  \<^verbatim>\<open>_qcloud_otalib_get_firmware_varlen_para\<close>: copies of the key and of the document, then the lookup. The string the caller gets is set only if
  there was memory for the copies.
\<close>

definition get_varlen_para :: "'w hal \<Rightarrow> byte list \<Rightarrow> byte list \<Rightarrow> byte list option \<Rightarrow> 'w ota \<Rightarrow> ((int \<times> byte list option) \<times> 'w ota) option" where
  "get_varlen_para H json_doc key dest s =
     (let (ok, s) = ota_malloc H s
      in if \<not> ok then Some ((IOT_OTA_ERR_FAIL, dest), s)
         else let (ok, s) = ota_malloc H s
              in if \<not> ok then Some ((IOT_OTA_ERR_FAIL, dest), s)
                 else do {
                   (v, w) \<leftarrow> LITE_json_value_of (hal_malloc H) key json_doc (env (om s));
                   Some ((if v = None then IOT_OTA_ERR_FAIL else QCLOUD_RET_SUCCESS, v), s\<lparr>om := (om s)\<lparr>env := w\<rparr>\<rparr>) })"

text \<open>\<^verbatim>\<open>_qcloud_otalib_get_firmware_fixlen_para\<close>: the value goes to the front of an array, without a NUL.\<close>

definition get_fixlen_para ::
  "'w hal \<Rightarrow> byte list \<Rightarrow> byte list \<Rightarrow> byte list \<Rightarrow> nat \<Rightarrow> 'w ota \<Rightarrow> ((int \<times> byte list) \<times> 'w ota) option" where
  "get_fixlen_para H json_doc key dest dest_len s = do {
     ((rc, v), s) \<leftarrow> get_varlen_para H json_doc key None s;
     (case v of
        None \<Rightarrow> Some ((IOT_OTA_ERR_FAIL, dest), s)
      | Some value \<Rightarrow>
          if length value > dest_len then Some ((IOT_OTA_ERR_FAIL, dest), s)
          else do { dest \<leftarrow> wr_bytes dest 0 value; Some ((QCLOUD_RET_SUCCESS, dest), s) }) }"

definition qcloud_otalib_get_firmware_type :: "'w hal \<Rightarrow> byte list \<Rightarrow> 'w ota \<Rightarrow> ((int \<times> byte list option) \<times> 'w ota) option" where
  "qcloud_otalib_get_firmware_type H json s = get_varlen_para H json (cstr ''type'') None s"

definition qcloud_otalib_get_report_version_result :: "'w hal \<Rightarrow> byte list \<Rightarrow> 'w ota \<Rightarrow> (int \<times> 'w ota) option" where
  "qcloud_otalib_get_report_version_result H json s = do {
     ((rc, result_code), s) \<leftarrow> get_varlen_para H json (cstr ''result_code'') None s;
     Some (if rc \<noteq> QCLOUD_RET_SUCCESS \<or> result_code \<noteq> Some (cstr ''0'') then IOT_OTA_ERR_FAIL else QCLOUD_RET_SUCCESS, s) }"

text \<open>\<^verbatim>\<open>qcloud_otalib_get_params\<close>, which fills the fields of the structure one after the other.\<close>

definition qcloud_otalib_get_params :: "'w hal \<Rightarrow> byte list \<Rightarrow> 'w ota \<Rightarrow> (int \<times> 'w ota) option" where
  "qcloud_otalib_get_params H json s = do {
     ((rc, type), s) \<leftarrow> get_varlen_para H json (cstr ''type'') None s;
     if rc \<noteq> 0 then Some (IOT_OTA_ERR_FAIL, s)
     else do {
       ((rc, v), s) \<leftarrow> get_varlen_para H json (cstr ''version'') (ota_version s) s;
       let s = s\<lparr>ota_version := v\<rparr>;
       if rc \<noteq> 0 then Some (IOT_OTA_ERR_FAIL, s)
       else do {
         ((rc, u), s) \<leftarrow> get_varlen_para H json (cstr ''url'') (purl s) s;
         let s = s\<lparr>purl := u\<rparr>;
         if rc \<noteq> 0 then Some (IOT_OTA_ERR_FAIL, s)
         else do {
           ((rc, m), s) \<leftarrow> get_fixlen_para H json (cstr ''md5sum'') (md5sum s) 32 s;
           let s = s\<lparr>md5sum := m\<rparr>;
           if rc \<noteq> 0 then Some (IOT_OTA_ERR_FAIL, s)
           else do {
             ((rc, f), s) \<leftarrow> get_fixlen_para H json (cstr ''file_size'') (replicate (OTA_FILESIZE_STR_LEN + 1) 0) OTA_FILESIZE_STR_LEN s;
             if rc \<noteq> 0 then Some (IOT_OTA_ERR_FAIL, s)
             else do {
               f \<leftarrow> wr f OTA_FILESIZE_STR_LEN 0;
               t \<leftarrow> str_at f 0;
               n \<leftarrow> atoi t;
               Some (QCLOUD_RET_SUCCESS, s\<lparr>size_file := word_of_int n\<rparr>) } } } } } }"

text \<open>The messages of the client, into a block of \<open>bufLen\<close> bytes: the text without its NUL, or an error code.\<close>

definition json_str :: "byte list \<Rightarrow> byte list" where
  "json_str t = QUOTE # t @ [QUOTE]"

definition gen_info_msg :: "nat \<Rightarrow> byte list option \<Rightarrow> byte list" where
  "gen_info_msg bufLen version = snprintf_text bufLen
     (LBRACE # json_str (cstr ''type'') @ cstr '': '' @ json_str (cstr ''report_version'') @ cstr '', '' @ json_str (cstr ''report'') @
      COLON # LBRACE # json_str (cstr ''version'') @ COLON # json_str (printed_str version) @ [RBRACE, RBRACE])"

definition progress_msg :: "byte list \<Rightarrow> byte list \<Rightarrow> byte list \<Rightarrow> byte list \<Rightarrow> byte list" where
  "progress_msg gap state_members gap2 version =
     LBRACE # json_str (cstr ''type'') @ cstr '': '' @ json_str (cstr ''report_progress'') @ cstr '', '' @ json_str (cstr ''report'') @
     COLON # gap @ LBRACE # json_str (cstr ''progress'') @ COLON # gap @ LBRACE # state_members @ cstr ''}, '' @
     json_str (cstr ''version'') @ COLON # gap2 @ json_str version @ [RBRACE, RBRACE]"

definition str_member :: "string \<Rightarrow> byte list \<Rightarrow> byte list" where
  "str_member k v = json_str (cstr k) @ COLON # json_str v"

definition state_members :: "string \<Rightarrow> byte list option \<Rightarrow> int \<Rightarrow> byte list \<Rightarrow> byte list" where
  "state_members st percent result msg =
     str_member ''state'' (cstr st) @ cstr '', '' @
     (case percent of None \<Rightarrow> [] | Some p \<Rightarrow> str_member ''percent'' p @ cstr '', '') @
     str_member ''result_code'' (dec_int result) @ cstr '', '' @ str_member ''result_msg'' msg"

definition ota_report_text :: "byte list option \<Rightarrow> int \<Rightarrow> IOT_OTAReportType \<Rightarrow> byte list option" where
  "ota_report_text version progress reportType =
     (let v = printed_str version; sp = [SPACE]
      in if reportType = IOT_OTAR_DOWNLOAD_BEGIN then Some (progress_msg sp (state_members ''downloading'' (Some (cstr ''0'')) 0 []) sp v)
         else if reportType = IOT_OTAR_DOWNLOADING then Some (progress_msg sp (state_members ''downloading'' (Some (dec_int progress)) 0 []) sp v)
         else if report_code reportType < 0 then Some (progress_msg sp (state_members ''fail'' None (report_code reportType) (cstr ''time_out'')) sp v)
         else if reportType = IOT_OTAR_UPGRADE_BEGIN then Some (progress_msg [] (state_members ''burning'' None 0 []) [] v)
         else if reportType = IOT_OTAR_UPGRADE_SUCCESS then Some (progress_msg [] (state_members ''done'' None 0 []) [] v)
         else None)"

definition qcloud_otalib_gen_report_msg :: "nat \<Rightarrow> byte list option \<Rightarrow> int \<Rightarrow> IOT_OTAReportType \<Rightarrow> int + byte list" where
  "qcloud_otalib_gen_report_msg bufLen version progress reportType =
     (case ota_report_text version progress reportType of
        None \<Rightarrow> Inl IOT_OTA_ERR_FAIL
      | Some t \<Rightarrow> if length t \<ge> bufLen then Inl IOT_OTA_ERR_STR_TOO_LONG else Inr t)"

section \<open>Signals over MQTT\<close>

definition ota_topic :: "byte list \<Rightarrow> byte list \<Rightarrow> byte list \<Rightarrow> byte list option" where
  "ota_topic type product_id device_name =
     (let t = cstr ''$ota/'' @ type @ SLASH # product_id @ SLASH # device_name
      in if length t \<ge> OTA_MAX_TOPIC_LEN then None else Some t)"

text \<open>The addresses of \<^verbatim>\<open>_otamqtt_upgrage_cb\<close> and \<^verbatim>\<open>_otamqtt_event_callback\<close>.\<close>

definition upgrade_cb :: nat where "upgrade_cb = 2"
definition ota_event_cb :: nat where "ota_event_cb = 3"

definition set_topic_ready :: "bool \<Rightarrow> 'w ota \<Rightarrow> 'w ota option" where
  "set_topic_ready b s = do { c \<leftarrow> ch_signal s; Some (s\<lparr>ch_signal := Some (c\<lparr>topic_ready := b\<rparr>)\<rparr>) }"

definition ota_event_callback :: "MQTTEventType \<Rightarrow> 'w ota \<Rightarrow> 'w ota option" where
  "ota_event_callback type s =
     (case type of
        MQTT_EVENT_SUBCRIBE_SUCCESS \<Rightarrow> set_topic_ready True s
      | MQTT_EVENT_SUBCRIBE_TIMEOUT \<Rightarrow> set_topic_ready False s
      | MQTT_EVENT_SUBCRIBE_NACK \<Rightarrow> set_topic_ready False s
      | MQTT_EVENT_UNSUBSCRIBE \<Rightarrow> set_topic_ready False s
      | MQTT_EVENT_CLIENT_DESTROY \<Rightarrow> set_topic_ready False s
      | _ \<Rightarrow> Some s)"

text \<open>\<^verbatim>\<open>_ota_callback\<close>. The document is the C string at the payload: it ends with the first NUL, not with the payload.\<close>

definition ota_callback :: "'w hal \<Rightarrow> byte list \<Rightarrow> nat \<Rightarrow> 'w ota \<Rightarrow> 'w ota option" where
  "ota_callback H msg msg_len s =
     (if state_code (ota_state s) \<ge> state_code IOT_OTAS_FETCHING then Some s
      else if msg_len = 0 then Some s
      else do {
        doc \<leftarrow> str_at msg 0;
        ((rc, json_type), s) \<leftarrow> qcloud_otalib_get_firmware_type H doc s;
        (case json_type of
           None \<Rightarrow> Some s
         | Some type \<Rightarrow>
             if type = cstr ''report_version_rsp''
             then do {
               (rc, s) \<leftarrow> qcloud_otalib_get_report_version_result H doc s;
               Some (if rc < QCLOUD_RET_SUCCESS then s\<lparr>ota_err := IOT_OTA_ERR_REPORT_VERSION, ota_state := IOT_OTAS_FETCHED\<rparr> else s) }
             else if type \<noteq> cstr ''update_firmware'' then Some s
             else do {
               (rc, s) \<leftarrow> qcloud_otalib_get_params H doc s;
               Some (if rc \<noteq> 0 then s else s\<lparr>ota_state := IOT_OTAS_FETCHING\<rparr>) }) })"

text \<open>The callbacks have the address of the channel: when it has been freed they follow a dangling pointer.\<close>

definition upgrade_callback :: "'w hal \<Rightarrow> MQTTMessage \<Rightarrow> 'w ota \<Rightarrow> 'w ota option" where
  "upgrade_callback H message s = do {
     c \<leftarrow> ch_signal s;
     if msg_callback c then ota_callback H (payload message) (unat (payload_len message)) s else Some s }"

fun ota_dispatch :: "'w hal \<Rightarrow> event list \<Rightarrow> 'w ota \<Rightarrow> 'w ota option" where
  "ota_dispatch H [] s = Some s"
| "ota_dispatch H (e # es) s = do {
     s \<leftarrow> (case e of
             On_Message f message ud \<Rightarrow>
               if f = upgrade_cb then upgrade_callback H message s else Some (s\<lparr>other_events := other_events s @ [e]\<rparr>)
           | On_Sub_Event f type ud \<Rightarrow>
               if f = ota_event_cb then ota_event_callback type s else Some (s\<lparr>other_events := other_events s @ [e]\<rparr>)
           | On_Event type msg \<Rightarrow> Some (s\<lparr>other_events := other_events s @ [e]\<rparr>));
     ota_dispatch H es s }"

text \<open>A call of the MQTT client, by the module or by the application, and then the callbacks it has made.\<close>

definition ota_mqtt :: "'w hal \<Rightarrow> ('w mqtt \<Rightarrow> ('r \<times> 'w mqtt) option) \<Rightarrow> 'w ota \<Rightarrow> ('r \<times> 'w ota) option" where
  "ota_mqtt H operation s = do {
     (r, m) \<leftarrow> operation ((om s)\<lparr>events := []\<rparr>);
     s \<leftarrow> ota_dispatch H (events m) (s\<lparr>om := m\<lparr>events := []\<rparr>\<rparr>);
     Some (r, s) }"

definition otamqtt_publish :: "'w hal \<Rightarrow> byte list \<Rightarrow> QoS \<Rightarrow> byte list \<Rightarrow> 'w ota \<Rightarrow> (int \<times> 'w ota) option" where
  "otamqtt_publish H topicType qos msg s =
     (case ota_topic topicType (ota_product_id s) (ota_device_name s) of
        None \<Rightarrow> Some (IOT_OTA_ERR_FAIL, s)
      | Some topic \<Rightarrow> do {
          ((rc, p), s) \<leftarrow> ota_mqtt H (qcloud_iot_mqtt_publish H topic
             \<lparr>pub_qos = qos, pub_retained = 0, pub_id = 0, pub_payload = Some msg\<rparr>) s;
          Some (if rc < 0 then IOT_OTA_ERR_OSC_FAILED else rc, s) })"

definition qcloud_osc_report_progress :: "'w hal \<Rightarrow> byte list \<Rightarrow> 'w ota \<Rightarrow> (int \<times> 'w ota) option" where
  "qcloud_osc_report_progress H = otamqtt_publish H (cstr ''report'') QOS0"

definition qcloud_osc_report_version :: "'w hal \<Rightarrow> byte list \<Rightarrow> 'w ota \<Rightarrow> (int \<times> 'w ota) option" where
  "qcloud_osc_report_version H = otamqtt_publish H (cstr ''report'') QOS1"

definition qcloud_osc_report_upgrade_result :: "'w hal \<Rightarrow> byte list \<Rightarrow> 'w ota \<Rightarrow> (int \<times> 'w ota) option" where
  "qcloud_osc_report_upgrade_result H = otamqtt_publish H (cstr ''report'') QOS1"

definition topic_is_ready :: "'w ota \<Rightarrow> bool" where
  "topic_is_ready s = (case ch_signal s of None \<Rightarrow> False | Some c \<Rightarrow> topic_ready c)"

primrec osc_wait :: "'w hal \<Rightarrow> nat \<Rightarrow> 'w ota \<Rightarrow> (nat \<times> 'w ota) option" where
  "osc_wait H 0 s = Some (0, s)"
| "osc_wait H (Suc n) s =
     (if topic_is_ready s then Some (Suc n, s)
      else do { (rc, s) \<leftarrow> ota_mqtt H (IOT_MQTT_Yield H 200) s; osc_wait H n s })"

text \<open>The result says whether there is a channel; the structure is freed if not.\<close>

definition qcloud_osc_init :: "'w hal \<Rightarrow> byte list \<Rightarrow> byte list \<Rightarrow> 'w ota \<Rightarrow> (bool \<times> 'w ota) option" where
  "qcloud_osc_init H product_id device_name s =
     (let (ok, s) = ota_malloc H s
      in if \<not> ok then Some (False, s)
         else case ota_topic (cstr ''update'') product_id device_name of
                None \<Rightarrow> Some (False, s)
              | Some topic \<Rightarrow> do {
                  let s = s\<lparr>ch_signal := Some \<lparr>topic_upgrade = topic, topic_ready = False, msg_callback = False\<rparr>\<rparr>;
                  (rc, s) \<leftarrow> ota_mqtt H (qcloud_iot_mqtt_subscribe H topic
                    \<lparr>on_message_handler = Some upgrade_cb, on_sub_event_handler = Some ota_event_cb, sp_qos = QOS1, user_data = 0\<rparr>) s;
                  if rc < 0 then Some (False, s\<lparr>ch_signal := None\<rparr>)
                  else do {
                    (n, s) \<leftarrow> osc_wait H 10 s;
                    if n = 0 then Some (False, s\<lparr>ch_signal := None\<rparr>)
                    else Some (True, s\<lparr>ch_signal := map_option (\<lambda>c. c\<lparr>msg_callback := True\<rparr>) (ch_signal s),
                                       ota_product_id := product_id, ota_device_name := device_name\<rparr>) } })"

definition qcloud_osc_deinit :: "'w hal \<Rightarrow> 'w ota \<Rightarrow> 'w ota option" where
  "qcloud_osc_deinit H s =
     (case ch_signal s of
        None \<Rightarrow> Some s
      | Some c \<Rightarrow> do {
          (rc, s) \<leftarrow> ota_mqtt H (qcloud_iot_mqtt_unsubscribe H (topic_upgrade c)) s;
          Some (s\<lparr>ch_signal := None\<rparr>) })"

section \<open>The download over HTTP\<close>

definition zero_http :: HTTPClient where
  "zero_http = \<lparr>response_code = 0, http_header = None, auth_user = None, auth_password = None, net_inited = False, net_handle = False\<rparr>"

definition zero_http_data :: HTTPClientData where
  "zero_http_data = \<lparr>is_more = False, is_chunked = False, retrieve_len = 0, response_content_len = 0, post_content_type = None,
     post_buf = None, response_buf = [], response_buf_len = 0\<rparr>"

text \<open>An operation of the HTTP client, in the world of the MQTT client.\<close>

definition with_http :: "('w http \<Rightarrow> (int \<times> 'w http) option) \<Rightarrow> OTAHTTPStruct \<Rightarrow> 'w ota \<Rightarrow> ((int \<times> OTAHTTPStruct) \<times> 'w ota) option" where
  "with_http operation h s = do {
     (rc, t) \<leftarrow> operation \<lparr>hc = of_http h, hdata = of_data h, wd = env (om s)\<rparr>;
     Some ((rc, h\<lparr>of_http := hc t, of_data := hdata t\<rparr>), s\<lparr>om := (om s)\<lparr>env := wd t\<rparr>\<rparr>) }"

definition range_header :: "u32 \<Rightarrow> u32 \<Rightarrow> byte list" where
  "range_header offset sz = snprintf_text OTA_HTTP_HEAD_CONTENT_LEN
     (cstr ''Accept: text/html,application/xhtml+xml,application/xml;q=0.9,*/*;q=0.8'' @ [CR, LF] @
      cstr ''Accept-Encoding: gzip, deflate'' @ [CR, LF] @
      cstr ''Range: bytes='' @ dec_int (sint offset) @ MINUS # dec_int (sint sz) @ [CR, LF])"

definition ofc_Init :: "'w hal \<Rightarrow> byte list option \<Rightarrow> u32 \<Rightarrow> u32 \<Rightarrow> 'w ota \<Rightarrow> OTAHTTPStruct option \<times> 'w ota" where
  "ofc_Init H url offset sz s =
     (let (ok, s) = ota_malloc H s
      in (if ok then Some \<lparr>of_url = url, of_http = zero_http\<lparr>http_header := Some (range_header offset sz)\<rparr>, of_data = zero_http_data\<rparr>
          else None, s))"

definition qcloud_ofc_connect :: "'w web \<Rightarrow> OTAHTTPStruct \<Rightarrow> 'w ota \<Rightarrow> ((int \<times> OTAHTTPStruct) \<times> 'w ota) option" where
  "qcloud_ofc_connect W h s = do {
     url \<leftarrow> of_url h;
     with_http (qcloud_http_client_common W url 80 HTTP_GET) h s }"

text \<open>The number of bytes fetched, or an error code; \<open>buf\<close> has \<open>bufLen\<close> bytes.\<close>

definition fetch_error :: "int \<Rightarrow> int" where
  "fetch_error rc =
     (if rc = QCLOUD_ERR_HTTP_NOT_FOUND then IOT_OTA_ERR_FETCH_NOT_EXIST
      else if rc = QCLOUD_ERR_HTTP_AUTH then IOT_OTA_ERR_FETCH_AUTH_FAIL
      else if rc = QCLOUD_ERR_HTTP_TIMEOUT then IOT_OTA_ERR_FETCH_TIMEOUT else rc)"

definition qcloud_ofc_fetch ::
  "'w web \<Rightarrow> OTAHTTPStruct \<Rightarrow> byte list \<Rightarrow> u32 \<Rightarrow> u32 \<Rightarrow> 'w ota \<Rightarrow> ((int \<times> OTAHTTPStruct) \<times> 'w ota) option" where
  "qcloud_ofc_fetch W h buf bufLen timeout_s s = do {
     let h = h\<lparr>of_data := (of_data h)\<lparr>response_buf := buf, response_buf_len := sint bufLen\<rparr>\<rparr>;
     diff \<leftarrow> int32 (response_content_len (of_data h) - retrieve_len (of_data h));
     ((rc, h), s) \<leftarrow> with_http (qcloud_http_recv_data W (unat (timeout_s * 1000))) h s;
     if rc \<noteq> QCLOUD_RET_SUCCESS then Some ((fetch_error rc, h), s)
     else do {
       done \<leftarrow> int32 (response_content_len (of_data h) - retrieve_len (of_data h));
       n \<leftarrow> int32 (done - diff);
       Some ((n, h), s) } }"

text \<open>\<^verbatim>\<open>qcloud_ofc_deinit\<close> asks the network whether it is connected: a null function pointer before \<^verbatim>\<open>network_init\<close> has run.\<close>

definition qcloud_ofc_deinit :: "'w web \<Rightarrow> 'w ota \<Rightarrow> 'w ota option" where
  "qcloud_ofc_deinit W s =
     (case ch_fetch s of
        None \<Rightarrow> Some s
      | Some h \<Rightarrow>
          if \<not> net_inited (of_http h) then None
          else do {
            ((rc, h), s) \<leftarrow> with_http (\<lambda>t. Some (QCLOUD_RET_SUCCESS, http_disconnect W t)) h s;
            Some (s\<lparr>ch_fetch := None\<rparr>) })"

section \<open>Reports\<close>

definition IOT_OTA_ResetStatus :: "'w ota \<Rightarrow> 'w ota" where
  "IOT_OTA_ResetStatus s = s\<lparr>ota_state := IOT_OTAS_INITED, ota_err := 0, purl := None, ota_version := None\<rparr>"

definition check_progress :: "int \<Rightarrow> bool" where
  "check_progress progress \<longleftrightarrow> - 4 \<le> progress \<and> progress \<le> 100"

definition IOT_OTA_ReportProgress :: "'w hal \<Rightarrow> int \<Rightarrow> IOT_OTAReportType \<Rightarrow> 'w ota \<Rightarrow> (int \<times> 'w ota) option" where
  "IOT_OTA_ReportProgress H progress reportType s =
     (if ota_state s = IOT_OTAS_UNINITED then Some (QCLOUD_ERR_FAILURE, s\<lparr>ota_err := IOT_OTA_ERR_INVALID_STATE\<rparr>)
      else if \<not> check_progress progress then Some (QCLOUD_ERR_FAILURE, s\<lparr>ota_err := IOT_OTA_ERR_INVALID_PARAM\<rparr>)
      else let (ok, s) = ota_malloc H s
           in if \<not> ok then Some (QCLOUD_ERR_FAILURE, s\<lparr>ota_err := IOT_OTA_ERR_NOMEM\<rparr>)
              else (case qcloud_otalib_gen_report_msg 256 (ota_version s) progress reportType of
                      Inl ret \<Rightarrow> Some (ret, s\<lparr>ota_err := ret\<rparr>)
                    | Inr msg \<Rightarrow> do {
                        (ret, s) \<leftarrow> qcloud_osc_report_progress H msg s;
                        Some (ret, if ret \<noteq> QCLOUD_RET_SUCCESS then s\<lparr>ota_err := ret\<rparr> else s) }))"

definition version_length_ok :: "byte list \<Rightarrow> bool" where
  "version_length_ok v \<longleftrightarrow> 1 \<le> length v \<and> length v \<le> 32"

definition final_report :: "IOT_OTAReportType \<Rightarrow> bool" where
  "final_report r \<longleftrightarrow> r = IOT_OTAR_UPGRADE_FAIL \<or> r = IOT_OTAR_UPGRADE_SUCCESS \<or> r = IOT_OTAR_MD5_NOT_MATCH"

definition IOT_OTA_ReportUpgradeResult :: "'w hal \<Rightarrow> byte list option \<Rightarrow> IOT_OTAReportType \<Rightarrow> 'w ota \<Rightarrow> (int \<times> 'w ota) option" where
  "IOT_OTA_ReportUpgradeResult H version reportType s =
     (case version of
        None \<Rightarrow> Some (IOT_OTA_ERR_INVALID_PARAM, s)
      | Some v \<Rightarrow>
          if ota_state s = IOT_OTAS_UNINITED then Some (QCLOUD_ERR_FAILURE, s\<lparr>ota_err := IOT_OTA_ERR_INVALID_STATE\<rparr>)
          else if \<not> version_length_ok v then Some (QCLOUD_ERR_FAILURE, s\<lparr>ota_err := IOT_OTA_ERR_INVALID_PARAM\<rparr>)
          else let (ok, s) = ota_malloc H s
               in if \<not> ok then Some (QCLOUD_ERR_FAILURE, s\<lparr>ota_err := IOT_OTA_ERR_NOMEM\<rparr>)
                  else (case qcloud_otalib_gen_report_msg 256 (Some v) 1 reportType of
                          Inl ret \<Rightarrow> Some (QCLOUD_ERR_FAILURE, s\<lparr>ota_err := ret\<rparr>)
                        | Inr msg \<Rightarrow> do {
                            (ret, s) \<leftarrow> qcloud_osc_report_upgrade_result H msg s;
                            Some (if ret < 0 then (QCLOUD_ERR_FAILURE, s\<lparr>ota_err := ret\<rparr>)
                                  else (ret, if final_report reportType then IOT_OTA_ResetStatus s else s)) }))"

definition IOT_OTA_ReportVersion :: "'w hal \<Rightarrow> byte list \<Rightarrow> 'w ota \<Rightarrow> (int \<times> 'w ota) option" where
  "IOT_OTA_ReportVersion H v s =
     (if \<not> version_length_ok v then Some (QCLOUD_ERR_FAILURE, s\<lparr>ota_err := IOT_OTA_ERR_INVALID_PARAM\<rparr>)
      else if ota_state s = IOT_OTAS_UNINITED then Some (QCLOUD_ERR_FAILURE, s\<lparr>ota_err := IOT_OTA_ERR_INVALID_STATE\<rparr>)
      else let (ok, s) = ota_malloc H (IOT_OTA_ResetStatus s)
           in if \<not> ok then Some (QCLOUD_ERR_FAILURE, s\<lparr>ota_err := IOT_OTA_ERR_NOMEM\<rparr>)
              else do {
                (ret, s) \<leftarrow> qcloud_osc_report_version H (gen_info_msg 128 (Some v)) s;
                Some (if ret < 0 then (QCLOUD_ERR_FAILURE, s\<lparr>ota_err := ret\<rparr>) else (ret, s)) })"

definition IOT_OTA_ReportUpgradeBegin :: "'w hal \<Rightarrow> 'w ota \<Rightarrow> (int \<times> 'w ota) option" where
  "IOT_OTA_ReportUpgradeBegin H s = IOT_OTA_ReportUpgradeResult H (ota_version s) IOT_OTAR_UPGRADE_BEGIN s"

definition version_or_own :: "byte list option \<Rightarrow> 'w ota \<Rightarrow> byte list option" where
  "version_or_own version s = (if version = None then ota_version s else version)"

definition IOT_OTA_ReportUpgradeSuccess :: "'w hal \<Rightarrow> byte list option \<Rightarrow> 'w ota \<Rightarrow> (int \<times> 'w ota) option" where
  "IOT_OTA_ReportUpgradeSuccess H version s = IOT_OTA_ReportUpgradeResult H (version_or_own version s) IOT_OTAR_UPGRADE_SUCCESS s"

definition IOT_OTA_ReportUpgradeFail :: "'w hal \<Rightarrow> byte list option \<Rightarrow> 'w ota \<Rightarrow> (int \<times> 'w ota) option" where
  "IOT_OTA_ReportUpgradeFail H version s = IOT_OTA_ReportUpgradeResult H (version_or_own version s) IOT_OTAR_UPGRADE_FAIL s"

section \<open>Operations\<close>

definition zero_ota :: "'w mqtt \<Rightarrow> 'w ota" where
  "zero_ota m = \<lparr>om = m, ota_product_id = [], ota_device_name = [], ota_state = IOT_OTAS_UNINITED, size_last_fetched = 0, size_fetched = 0,
     size_file = 0, purl = None, ota_version = None, md5sum = replicate 33 0, ota_md5 = None, ch_signal = None, ch_fetch = None,
     ota_err = 0, report_timer = 0, other_events = []\<rparr>"

definition qcloud_otalib_md5_init :: "'w hal \<Rightarrow> 'w ota \<Rightarrow> 'w ota" where
  "qcloud_otalib_md5_init H s = (let (ok, s) = ota_malloc H s in s\<lparr>ota_md5 := (if ok then Some utils_md5_starts else None)\<rparr>)"

text \<open>\<^verbatim>\<open>IOT_OTA_Init\<close>; \<^const>\<open>None\<close> inside is the null handle.\<close>

definition IOT_OTA_Init :: "'w hal \<Rightarrow> byte list \<Rightarrow> byte list \<Rightarrow> 'w mqtt \<Rightarrow> 'w ota option option" where
  "IOT_OTA_Init H product_id device_name m =
     (let (ok, s) = ota_malloc H (zero_ota m)
      in if \<not> ok then Some None
         else do {
           (ready, s) \<leftarrow> qcloud_osc_init H product_id device_name s;
           if \<not> ready then Some None
           else let s = qcloud_otalib_md5_init H s
                in if ota_md5 s = None then do { s \<leftarrow> qcloud_osc_deinit H s; Some None }
                   else Some (Some (s\<lparr>ota_state := IOT_OTAS_INITED\<rparr>)) })"

definition IOT_OTA_Destroy :: "'w hal \<Rightarrow> 'w web \<Rightarrow> 'w ota \<Rightarrow> (int \<times> 'w ota) option" where
  "IOT_OTA_Destroy H W s =
     (if ota_state s = IOT_OTAS_UNINITED then Some (QCLOUD_ERR_FAILURE, s\<lparr>ota_err := IOT_OTA_ERR_INVALID_STATE\<rparr>)
      else do {
        s \<leftarrow> qcloud_osc_deinit H s;
        s \<leftarrow> qcloud_ofc_deinit W s;
        Some (QCLOUD_RET_SUCCESS, s\<lparr>ota_md5 := None, purl := None, ota_version := None\<rparr>) })"

definition IOT_OTA_ResetClientMD5 :: "'w hal \<Rightarrow> 'w ota \<Rightarrow> int \<times> 'w ota" where
  "IOT_OTA_ResetClientMD5 H s =
     (let s = qcloud_otalib_md5_init H s in (if ota_md5 s = None then QCLOUD_ERR_FAILURE else QCLOUD_RET_SUCCESS, s))"

definition IOT_OTA_UpdateClientMd5 :: "byte list \<Rightarrow> 'w ota \<Rightarrow> 'w ota option" where
  "IOT_OTA_UpdateClientMd5 buff s = do {
     ctx \<leftarrow> ota_md5 s;
     ctx \<leftarrow> utils_md5_update ctx buff;
     Some (s\<lparr>ota_md5 := Some ctx\<rparr>) }"

definition IOT_OTA_StartDownload :: "'w hal \<Rightarrow> 'w web \<Rightarrow> u32 \<Rightarrow> u32 \<Rightarrow> 'w ota \<Rightarrow> (int \<times> 'w ota) option" where
  "IOT_OTA_StartDownload H W offset sz s =
     (let s = s\<lparr>size_fetched := offset\<rparr>;
          (ret, s) = (if offset = 0 then IOT_OTA_ResetClientMD5 H s else (QCLOUD_RET_SUCCESS, s))
      in if ret \<noteq> 0 then Some (QCLOUD_ERR_FAILURE, s)
         else do {
           s \<leftarrow> qcloud_ofc_deinit W s;
           let (f, s) = ofc_Init H (purl s) offset sz s;
           let s = s\<lparr>ch_fetch := f\<rparr>;
           (case f of
              None \<Rightarrow> Some (QCLOUD_ERR_FAILURE, s)
            | Some h \<Rightarrow> do {
                ((ret, h), s) \<leftarrow> qcloud_ofc_connect W h s;
                let s = s\<lparr>ch_fetch := Some h\<rparr>;
                Some (ret, if ret \<noteq> QCLOUD_RET_SUCCESS then s\<lparr>ota_state := IOT_OTAS_DISCONNECTED\<rparr> else s) }) })"

definition IOT_OTA_IsFetching :: "'w ota \<Rightarrow> bool \<times> 'w ota" where
  "IOT_OTA_IsFetching s =
     (if ota_state s = IOT_OTAS_UNINITED then (False, s\<lparr>ota_err := IOT_OTA_ERR_INVALID_STATE\<rparr>) else (ota_state s = IOT_OTAS_FETCHING, s))"

definition IOT_OTA_IsFetchFinish :: "'w ota \<Rightarrow> bool \<times> 'w ota" where
  "IOT_OTA_IsFetchFinish s =
     (if ota_state s = IOT_OTAS_UNINITED then (False, s\<lparr>ota_err := IOT_OTA_ERR_INVALID_STATE\<rparr>) else (ota_state s = IOT_OTAS_FETCHED, s))"

text \<open>\<^verbatim>\<open>IOT_OTA_FetchYield\<close>: the report after a failed fetch, and the accounting after a successful one. The result has the buffer of the caller.\<close>

definition fetch_failed :: "'w hal \<Rightarrow> int \<Rightarrow> 'w ota \<Rightarrow> 'w ota option" where
  "fetch_failed H ret s =
     (let s = s\<lparr>ota_state := IOT_OTAS_FETCHED, ota_err := IOT_OTA_ERR_FETCH_FAILED\<rparr>;
          r = (if ret = IOT_OTA_ERR_FETCH_AUTH_FAIL then Some IOT_OTAR_AUTH_FAIL
               else if ret = IOT_OTA_ERR_FETCH_NOT_EXIST then Some IOT_OTAR_FILE_NOT_EXIST
               else if ret = IOT_OTA_ERR_FETCH_TIMEOUT then Some IOT_OTAR_DOWNLOAD_TIMEOUT else None)
      in case r of
           None \<Rightarrow> Some s
         | Some report \<Rightarrow> do {
             (rc, s) \<leftarrow> IOT_OTA_ReportUpgradeResult H (ota_version s) report s;
             Some (s\<lparr>ota_err := ret\<rparr>) })"

definition ota_countdown :: "'w hal \<Rightarrow> nat \<Rightarrow> 'w ota \<Rightarrow> 'w ota" where
  "ota_countdown H timeout s = (let (t, m) = countdown H timeout (om s) in s\<lparr>om := m, report_timer := t\<rparr>)"

definition ota_expired :: "'w hal \<Rightarrow> 'w ota \<Rightarrow> bool \<times> 'w ota" where
  "ota_expired H s = (let (e, m) = expired H (report_timer s) (om s) in (e, s\<lparr>om := m\<rparr>))"

definition report_begin :: "'w hal \<Rightarrow> 'w ota \<Rightarrow> 'w ota option" where
  "report_begin H s =
     (if size_fetched s \<noteq> 0 then Some s
      else do {
        (rc, s) \<leftarrow> IOT_OTA_ReportProgress H 0 IOT_OTAR_DOWNLOAD_BEGIN s;
        Some (ota_countdown H 1 s) })"

definition report_percent :: "'w hal \<Rightarrow> u32 \<Rightarrow> 'w ota \<Rightarrow> 'w ota option" where
  "report_percent H percent s =
     (if percent = 100
      then do { (rc, s) \<leftarrow> IOT_OTA_ReportProgress H (sint percent) IOT_OTAR_DOWNLOADING s; Some s }
      else if size_last_fetched s > 0
      then let (e, s) = ota_expired H s
           in if e then do {
                (rc, s) \<leftarrow> IOT_OTA_ReportProgress H (sint percent) IOT_OTAR_DOWNLOADING s;
                Some (ota_countdown H 1 s) }
              else Some s
      else Some s)"

definition IOT_OTA_FetchYield ::
  "'w hal \<Rightarrow> 'w web \<Rightarrow> byte list \<Rightarrow> u32 \<Rightarrow> u32 \<Rightarrow> 'w ota \<Rightarrow> ((int \<times> byte list) \<times> 'w ota) option" where
  "IOT_OTA_FetchYield H W buf buf_len timeout_s s =
     (if buf_len = 0 then Some ((IOT_OTA_ERR_INVALID_PARAM, buf), s)
      else if ota_state s \<noteq> IOT_OTAS_FETCHING then Some ((IOT_OTA_ERR_INVALID_STATE, buf), s\<lparr>ota_err := IOT_OTA_ERR_INVALID_STATE\<rparr>)
      else do {
        h \<leftarrow> ch_fetch s;
        ((ret, h), s) \<leftarrow> qcloud_ofc_fetch W h buf buf_len timeout_s s;
        let s = s\<lparr>ch_fetch := Some h\<rparr>;
        let buf = response_buf (of_data h);
        if ret < 0 then do { s \<leftarrow> fetch_failed H ret s; Some ((ret, buf), s) }
        else do {
          s \<leftarrow> report_begin H s;
          let s = s\<lparr>size_last_fetched := word_of_int ret, size_fetched := size_fetched s + word_of_int ret\<rparr>;
          if size_file s = 0 then None
          else do {
            s \<leftarrow> report_percent H ((size_fetched s * 100) div size_file s) s;
            let s = (if size_fetched s \<ge> size_file s then s\<lparr>ota_state := IOT_OTAS_FETCHED\<rparr> else s);
            bs \<leftarrow> rd_bytes buf 0 (nat ret);
            s \<leftarrow> IOT_OTA_UpdateClientMd5 bs s;
            Some ((ret, buf), s) } } })"

text \<open>What \<^verbatim>\<open>IOT_OTA_Ioctl\<close> stores at \<^verbatim>\<open>buf\<close>: a number, or an array of characters; \<open>aligned\<close> says whether \<^verbatim>\<open>buf\<close> is a multiple of 4.\<close>

datatype ioctl_out = Out_none | Out_u32 u32 | Out_str "byte list"

definition strncpy_nul :: "byte list \<Rightarrow> nat \<Rightarrow> byte list" where
  "strncpy_nul t n = take (n - 1) (t @ replicate n 0) @ [0]"

definition check_firmware :: "'w hal \<Rightarrow> 'w ota \<Rightarrow> ((int \<times> ioctl_out) \<times> 'w ota) option" where
  "check_firmware H s = do {
     ctx \<leftarrow> ota_md5 s;
     ctx \<leftarrow> md_finish utils_md5_process md5_msglen ctx;
     let s = s\<lparr>ota_md5 := Some ctx\<rparr>;
     let md5_str = hex_string (md5_output (md_state ctx));
     expected \<leftarrow> str_at (md5sum s) 0;
     if expected = md5_str then Some ((0, Out_u32 1), s)
     else do {
       (rc, s) \<leftarrow> IOT_OTA_ReportUpgradeResult H (ota_version s) IOT_OTAR_MD5_NOT_MATCH s;
       Some ((0, Out_u32 0), s) } }"

definition IOT_OTA_Ioctl :: "'w hal \<Rightarrow> IOT_OTA_CmdType \<Rightarrow> bool \<Rightarrow> nat \<Rightarrow> 'w ota \<Rightarrow> ((int \<times> ioctl_out) \<times> 'w ota) option" where
  "IOT_OTA_Ioctl H type aligned buf_len s =
     (let bad = (\<lambda>rc e. Some ((rc, Out_none), s\<lparr>ota_err := e\<rparr>)); word_ok = (buf_len = 4 \<and> aligned)
      in if buf_len = 0 then Some ((IOT_OTA_ERR_INVALID_PARAM, Out_none), s)
         else if state_code (ota_state s) < state_code IOT_OTAS_FETCHING then bad IOT_OTA_ERR_INVALID_STATE IOT_OTA_ERR_INVALID_STATE
         else case type of
                IOT_OTAG_FETCHED_SIZE \<Rightarrow>
                  if \<not> word_ok then bad QCLOUD_ERR_FAILURE IOT_OTA_ERR_INVALID_PARAM else Some ((0, Out_u32 (size_fetched s)), s)
              | IOT_OTAG_FILE_SIZE \<Rightarrow>
                  if \<not> word_ok then bad QCLOUD_ERR_FAILURE IOT_OTA_ERR_INVALID_PARAM else Some ((0, Out_u32 (size_file s)), s)
              | IOT_OTAG_VERSION \<Rightarrow> do { v \<leftarrow> ota_version s; Some ((0, Out_str (strncpy_nul v buf_len)), s) }
              | IOT_OTAG_MD5SUM \<Rightarrow> do { v \<leftarrow> str_at (md5sum s) 0; Some ((0, Out_str (strncpy_nul v buf_len)), s) }
              | IOT_OTAG_CHECK_FIRMWARE \<Rightarrow>
                  if \<not> word_ok then bad QCLOUD_ERR_FAILURE IOT_OTA_ERR_INVALID_PARAM
                  else if ota_state s \<noteq> IOT_OTAS_FETCHED then bad QCLOUD_ERR_FAILURE IOT_OTA_ERR_INVALID_STATE
                  else check_firmware H s)"

definition IOT_OTA_GetLastError :: "'w ota \<Rightarrow> int" where
  "IOT_OTA_GetLastError s = ota_err s"

end
