(* ===== verification/Http_Transfer.thy ===== *)
theory Http_Transfer
  imports Http_Client
begin

text \<open>
  What a transfer of the HTTP client delivers. The connection is a byte stream: \<open>rest w\<close> are the bytes the server sends from the world \<open>w\<close> on, and a
  read takes a piece from its front. The theorems say which piece of the stream is in the buffer of the caller after a call, and that the
  calls return.
\<close>

section \<open>The connection as a byte stream\<close>

definition web_stream :: "'w web \<Rightarrow> ('w \<Rightarrow> byte list) \<Rightarrow> bool" where
  "web_stream W rest \<longleftrightarrow>
     (\<forall>n t w. case web_read W n t w of ((rc, bs), w') \<Rightarrow> rc \<le> 0 \<and> length bs \<le> n \<and> rest w = bs @ rest w') \<and>
     (\<forall>w. rest (snd (web_clock W w)) = rest w) \<and>
     (\<forall>w. rest (web_disconnect W w) = rest w)"

lemma web_stream_read:
  "web_stream W rest \<Longrightarrow> web_read W n t w = ((rc, bs), w') \<Longrightarrow> rc \<le> 0 \<and> length bs \<le> n \<and> rest w = bs @ rest w'"
  unfolding web_stream_def by (metis (mono_tags, lifting) case_prod_conv)

lemma web_stream_clock: "web_stream W rest \<Longrightarrow> web_clock W w = (t, w') \<Longrightarrow> rest w' = rest w"
  unfolding web_stream_def by (metis snd_conv)

lemma web_countdown_ms_cases: obtains t w where "web_countdown_ms W ms s = (t, s\<lparr>wd := w\<rparr>)"
  and "\<And>rest. web_stream W rest \<Longrightarrow> rest w = rest (wd s)"
proof -
  obtain t w where "web_clock W (wd s) = (t, w)" by fastforce
  then show thesis using that [of "t + 1000 * ms" w] by (auto simp: web_countdown_ms_def web_stream_clock)
qed

lemma web_left_ms_cases: obtains ms w where "web_left_ms W t s = (ms, s\<lparr>wd := w\<rparr>)"
  and "\<And>rest. web_stream W rest \<Longrightarrow> rest w = rest (wd s)"
proof -
  obtain u w where "web_clock W (wd s) = (u, w)" by fastforce
  then show thesis using that [of "(t - u) div 1000" w] by (auto simp: web_left_ms_def web_stream_clock)
qed

text \<open>Calls that only touch the connection, and what one receive does.\<close>

definition only_net :: "'w http \<Rightarrow> 'w http \<Rightarrow> bool" where
  "only_net s s' \<longleftrightarrow> hdata s' = hdata s \<and> hc s' = (hc s)\<lparr>net_handle := net_handle (hc s')\<rparr>"

lemma only_net_wd [simp]: "only_net s (s\<lparr>wd := w\<rparr>)" "only_net s s"
  by (simp_all add: only_net_def)

lemma http_client_recv_cases:
  assumes "web_stream W rest" and "http_client_recv W data off max_len ms s = Some ((rc, n, data'), s')"
  obtains bs where "rc \<le> 0" "0 \<le> max_len" "n = length bs" "int n \<le> max_len" "rest (wd s) = bs @ rest (wd s')"
    "wr_bytes data off bs = Some data'" "only_net s s'"
proof -
  obtain t w1 where c: "web_countdown_ms W ms s = (t, s\<lparr>wd := w1\<rparr>)" and r1: "rest w1 = rest (wd s)"
    using web_countdown_ms_cases assms(1) by metis
  obtain l w2 where l: "web_left_ms W t (s\<lparr>wd := w1\<rparr>) = (l, s\<lparr>wd := w2\<rparr>)" and r2: "rest w2 = rest (wd s)"
    using web_left_ms_cases [of W t "s\<lparr>wd := w1\<rparr>"] assms(1) r1 by (metis http.select_convs(3) http.surjective http.update_convs(3))
  obtain rc0 bs w3 where rd: "web_read W (nat max_len) l w2 = ((rc0, bs), w3)" by (metis surj_pair)
  have st: "rc0 \<le> 0" "length bs \<le> nat max_len" "rest w2 = bs @ rest w3"
    using web_stream_read [OF assms(1) rd] by simp_all
  have d: "rest (web_disconnect W w) = rest w" for w using assms(1) by (simp add: web_stream_def)
  have m: "0 \<le> max_len" using assms(2) by (simp add: http_client_recv_def split: if_splits)
  obtain d where w: "wr_bytes data off bs = Some d"
    using assms(2) m c l rd by (auto simp: http_client_recv_def Let_def elim!: bind_SomeE)
  show thesis
    using assms(2) m st c l rd r2 w
    by (intro that [of bs])
       (auto simp: http_client_recv_def http_disconnect_def only_net_def d Let_def split: if_splits)
qed

lemma http_client_recv_reads:
  assumes "web_stream W rest" and "http_client_recv W data off max_len ms s = Some ((rc, n, data'), s')"
  obtains l w where "rest w = rest (wd s)" "n = length (snd (fst (web_read W (nat max_len) l w)))"
proof -
  obtain t w1 where c: "web_countdown_ms W ms s = (t, s\<lparr>wd := w1\<rparr>)" "\<And>rest. web_stream W rest \<Longrightarrow> rest w1 = rest (wd s)"
    by (rule web_countdown_ms_cases) (rule that)
  obtain l w2 where l: "web_left_ms W t (s\<lparr>wd := w1\<rparr>) = (l, s\<lparr>wd := w1, wd := w2\<rparr>)"
      "\<And>rest. web_stream W rest \<Longrightarrow> rest w2 = rest (wd (s\<lparr>wd := w1\<rparr>))"
    by (rule web_left_ms_cases) (rule that)
  have "rest w2 = rest (wd s)" using c(2) [OF assms(1)] l(2) [OF assms(1)] by simp
  moreover have "n = length (snd (fst (web_read W (nat max_len) l w2)))"
    using assms(2) c(1) l(1) by (auto simp: http_client_recv_def Let_def split: if_splits prod.splits elim!: bind_SomeE)
  ultimately show thesis by (rule that)
qed

section \<open>Delivery\<close>

text \<open>Nothing but the contents of the buffer, the remaining length and the connection has changed.\<close>

definition same_session :: "'w http \<Rightarrow> 'w http \<Rightarrow> bool" where
  "same_session s s' \<longleftrightarrow>
     (hdata s')\<lparr>response_buf := [], retrieve_len := 0\<rparr> = (hdata s)\<lparr>response_buf := [], retrieve_len := 0\<rparr> \<and>
     (hc s')\<lparr>net_handle := False\<rparr> = (hc s)\<lparr>net_handle := False\<rparr>"

lemma same_session_simps:
  assumes "same_session s s'"
  shows "is_more (hdata s') = is_more (hdata s)" "is_chunked (hdata s') = is_chunked (hdata s)"
    "response_content_len (hdata s') = response_content_len (hdata s)" "response_buf_len (hdata s') = response_buf_len (hdata s)"
    "response_code (hc s') = response_code (hc s)"
  using assms by (cases "hdata s"; cases "hdata s'"; cases "hc s"; cases "hc s'"; simp add: same_session_def)+

text \<open>From \<open>s\<close> to \<open>s'\<close> the first \<open>k\<close> of the pending bytes have been stored at \<open>count\<close>, with a NUL behind them, and the stream continues after them.\<close>

definition web_delivered :: "('w \<Rightarrow> byte list) \<Rightarrow> nat \<Rightarrow> nat \<Rightarrow> byte list \<Rightarrow> 'w http \<Rightarrow> 'w http \<Rightarrow> bool" where
  "web_delivered rest count k pend s s' \<longleftrightarrow>
     k \<le> length pend \<and> rest (wd s') = drop k pend \<and>
     length (response_buf (hdata s')) = length (response_buf (hdata s)) \<and> count + k < length (response_buf (hdata s)) \<and>
     take (count + k + 1) (response_buf (hdata s')) = take count (response_buf (hdata s)) @ take k pend @ [0] \<and>
     retrieve_len (hdata s') = retrieve_len (hdata s) - int k \<and> same_session s s'"

lemma set_response_Some:
  "set_response p bs s = Some s' \<longleftrightarrow>
     p + length bs \<le> length (response_buf (hdata s)) \<and>
     s' = hd_update (\<lambda>d. d\<lparr>response_buf := take p (response_buf d) @ bs @ drop (p + length bs) (response_buf d)\<rparr>) s"
  by (auto simp: set_response_def wr_bytes_def)

lemma take_response_Some:
  "take_response n s = Some s' \<Longrightarrow> s' = hd_update (\<lambda>d. d\<lparr>retrieve_len := retrieve_len d - int n\<rparr>) s"
  by (auto simp: take_response_def int32_def elim!: bind_SomeE split: if_splits)

lemma web_delivered_trans:
  assumes "web_delivered rest c k (bs @ rest (wd s1)) s s1" "k = length bs" "web_delivered rest (c + k) k' (rest (wd s1)) s1 s'"
  shows "web_delivered rest c (k + k') (bs @ rest (wd s1)) s s'"
proof -
  have "take c (response_buf (hdata s1)) = take c (response_buf (hdata s))"
       "take (c + k) (response_buf (hdata s1)) = take c (response_buf (hdata s)) @ bs"
    using assms(1,2) by (auto simp: web_delivered_def dest: arg_cong [where f="take c"] arg_cong [where f="take (c + k)"])
  then show ?thesis using assms by (auto simp: web_delivered_def same_session_def add.assoc)
qed

lemma web_delivered_after_net: "only_net s s1 \<Longrightarrow> web_delivered rest c k pend s1 s' \<Longrightarrow> web_delivered rest c k pend s s'"
  by (cases "hc s"; cases "hc s1") (simp add: web_delivered_def only_net_def same_session_def)

text \<open>One round of the inner loop: the \<open>len\<close> bytes in \<open>data\<close> are stored, or they fill the buffer.\<close>

lemma piece_delivered:
  assumes "rd_bytes data 0 len = Some bs" "set_response count (bs @ [0]) s = Some s1" "take_response len s1 = Some s2"
  shows "web_delivered rest count len (bs @ rest (wd s)) s s2 \<and> wd s2 = wd s \<and> hc s2 = hc s \<and> length bs = len"
  using assms by (auto simp: set_response_Some rd_bytes_Some_iff web_delivered_def same_session_def dest!: take_response_Some)

lemma fill_delivered:
  assumes "fill_response data count s = Some s1" "take_response len s1 = Some s2"
    and "int (count + len) = response_buf_len (hdata s) - 1"
  shows "len \<le> length data \<and> web_delivered rest count len (take len data @ rest (wd s)) s s2"
proof -
  have n: "nat (response_buf_len (hdata s)) - 1 = count + len" "response_buf_len (hdata s) - 1 - int count = int len"
    using assms(3) by auto
  obtain bs s0 where f: "rd_int data 0 (int len) = Some bs" "set_response count bs s = Some s0"
      "set_response (nat (response_buf_len (hdata s0)) - 1) [0] s0 = Some s1"
    using assms(1) n by (auto simp: fill_response_def elim!: bind_SomeE split: if_splits)
  have b: "bs = take len data" "len \<le> length data" using f(1) by (auto simp: rd_int_def rd_bytes_Some_iff)
  have l: "length bs = len" "bs = take len data" using b by simp_all
  have s0: "response_buf (hdata s0) = take count (response_buf (hdata s)) @ bs @ drop (count + len) (response_buf (hdata s))"
      "count + len \<le> length (response_buf (hdata s))" "wd s0 = wd s" "retrieve_len (hdata s0) = retrieve_len (hdata s)"
      "same_session s s0" "response_buf_len (hdata s0) = response_buf_len (hdata s)"
    using f(2) l by (auto simp: set_response_Some same_session_def)
  have f3: "set_response (count + len) [0] s0 = Some s1" using f(3) n(1) s0(6) by simp
  have s1: "response_buf (hdata s1) = take (count + len) (response_buf (hdata s0)) @ [0] @ drop (count + len + 1) (response_buf (hdata s0))"
      "count + len + 1 \<le> length (response_buf (hdata s0))" "wd s1 = wd s0" "retrieve_len (hdata s1) = retrieve_len (hdata s0)"
      "same_session s0 s1"
    using f3 by (auto simp: set_response_Some same_session_def)
  have s2: "response_buf (hdata s2) = response_buf (hdata s1)" "wd s2 = wd s1" "retrieve_len (hdata s2) = retrieve_len (hdata s1) - int len"
      "same_session s1 s2"
    using take_response_Some [OF assms(2)] by (auto simp: same_session_def)
  have "same_session s s2" using s0(5) s1(5) s2(4) by (simp add: same_session_def)
  then show ?thesis
    using b(2) s0(2) s1(2) unfolding web_delivered_def s2(1-3) s1(1,3,4) s0(1,3,4) l(2) by simp
qed

definition body_outcome :: "('w \<Rightarrow> byte list) \<Rightarrow> nat \<Rightarrow> u32 \<Rightarrow> byte list \<Rightarrow> 'w http \<Rightarrow> int + byte list \<times> nat \<Rightarrow> 'w http \<Rightarrow> bool" where
  "body_outcome rest count readLen pend s r s' \<longleftrightarrow>
     (case r of
        Inr (data, count') \<Rightarrow>
          count' = count + unat readLen \<and> int count' < response_buf_len (hdata s) - 1 \<and>
          web_delivered rest count (unat readLen) pend s s'
      | Inl rc \<Rightarrow> rc \<noteq> 0 \<and> rc \<le> 1 \<and>
          (rc = 1 \<longrightarrow> (\<exists>k. int (count + k) = response_buf_len (hdata s) - 1 \<and> k \<le> unat readLen \<and> web_delivered rest count k pend s s')))"

lemma chunk_limit:
  fixes more_len :: u32
  assumes "0 \<le> m" "m \<le> 1024"
  shows "(if word_of_int m < more_len then m else sint more_len) = min m (int (unat more_len))"
proof -
  have m: "uint (word_of_int m :: u32) = m" using assms by (simp add: uint_word_of_int take_bit_eq_mod)
  show ?thesis
  proof (cases "word_of_int m < more_len")
    case True
    then show ?thesis using m by (simp add: word_less_def)
  next
    case False
    then have le: "uint more_len \<le> m" using m by (simp add: word_less_def)
    have "- 2147483648 \<le> uint more_len" by (rule order.trans [OF _ uint_ge_0]) simp
    then have "sint more_len = uint more_len"
      using assms le by (simp add: sint_uint signed_take_bit_int_eq_self_iff)
    then show ?thesis using False le by simp
  qed
qed

lemma retrieve_body_outcome:
  "retrieve_body W timer data len count readLen s = Some y \<Longrightarrow> web_stream W rest \<Longrightarrow>
    len \<le> unat readLen \<Longrightarrow> int (count + len) \<le> response_buf_len (hdata s) - 1 \<Longrightarrow>
    body_outcome rest count readLen (take len data @ rest (wd s)) s (fst y) (snd y)"
proof (induction rule: retrieve_body.raw_induct [rotated 1, consumes 1, case_names step])
  case (step loop W timer data len count readLen s y)
  note IH = step(1)
  note run = step(2)
  have len32: "len < 2 ^ 32" using step(4) unat_u32_lt [of readLen] by simp
  then have u: "unat (of_nat len :: u32) = len" by (simp add: unat_of_nat_u32)
  have templen: "(if of_nat len < readLen then len else unat readLen) = len"
    using step(4) u by (auto simp: word_less_nat_alt)
  have ngt: "\<not> of_nat len > readLen" using step(4) u by (simp add: word_less_nat_alt)
  show ?case
  proof (cases "int (count + len) < response_buf_len (hdata s) - 1")
    case False
    then have full: "int (count + len) = response_buf_len (hdata s) - 1" using step(5) by simp
    have k: "nat (response_buf_len (hdata s)) - 1 - count = len" using full by auto
    obtain s1 where f: "fill_response data count s = Some s1" using run False templen
      by (auto simp: Let_def elim!: bind_SomeE)
    have "response_buf_len (hdata s1) = response_buf_len (hdata s)" 
      using f by (auto simp: fill_response_def set_response_Some elim!: bind_SomeE split: if_splits)
    then obtain s2 where t: "take_response len s1 = Some s2" "y = (Inl 1, s2)"
      using run False templen f k by (auto simp: Let_def elim!: bind_SomeE)
    show ?thesis using fill_delivered [OF f t(1) full] t(2) full step(4) by (auto simp: body_outcome_def)
  next
    case True
    obtain bs s1 s2 where p: "rd_bytes data 0 len = Some bs" "set_response count (bs @ [0]) s = Some s1" "take_response len s1 = Some s2"
      using run True templen by (auto simp: Let_def elim!: bind_SomeE)
    note pd = piece_delivered [OF p, of rest]
    have bs: "bs = take len data" "length bs = len" using p(1) by (auto simp: rd_bytes_Some_iff)
    define more_len where "more_len = readLen - of_nat len"
    have um: "unat more_len = unat readLen - len"
      using step(4) u by (simp add: more_len_def unat_sub word_le_nat_alt)
    show ?thesis
    proof (cases "more_len = 0")
      case True
      then have "unat readLen = len" using um step(4) by simp
      moreover have "y = (Inr (data, count + len), s2)"
        using run \<open>int (count + len) < _\<close> True templen p ngt by (simp add: more_len_def)
      ultimately show ?thesis using pd bs(1) \<open>int (count + len) < _\<close> by (simp add: body_outcome_def)
    next
      case nz: False
      have len2: "response_buf_len (hdata s2) = response_buf_len (hdata s)"
        using pd by (auto simp: web_delivered_def dest: same_session_simps)
      define ml where "ml = (let m = min (int HTTP_CLIENT_CHUNK_SIZE - 1) (response_buf_len (hdata s2) - 1 - int (count + len))
        in if word_of_int m < more_len then m else sint more_len)"
      obtain ms w3 where l: "web_left_ms W timer s2 = (ms, s2\<lparr>wd := w3\<rparr>)" "rest w3 = rest (wd s2)"
        using web_left_ms_cases step(3) by metis
      obtain rc n data4 s4 where recv: "http_client_recv W data 0 ml ms (s2\<lparr>wd := w3\<rparr>) = Some ((rc, n, data4), s4)"
        using run True templen p ngt nz l(1) unfolding more_len_def ml_def by (auto simp: Let_def elim!: bind_SomeE)
      have "ml = min (min 1024 (response_buf_len (hdata s) - 1 - int (count + len))) (int (unat more_len))"
        using True len2 by (simp add: ml_def chunk_limit)
      then have ml: "ml \<le> int (unat more_len)" "ml \<le> response_buf_len (hdata s) - 1 - int (count + len)" by simp_all
      obtain bs4 where b4: "rc \<le> 0" "n = length bs4" "int n \<le> ml" "rest w3 = bs4 @ rest (wd s4)" "wr_bytes data 0 bs4 = Some data4"
          "only_net (s2\<lparr>wd := w3\<rparr>) s4"
        using http_client_recv_cases [OF step(3) recv] by auto
      obtain lf w5 where lf: "web_left_ms W timer s4 = (lf, s4\<lparr>wd := w5\<rparr>)" "rest w5 = rest (wd s4)"
        using web_left_ms_cases step(3) by metis
      show ?thesis
      proof (cases "rc = 0 \<and> lf \<noteq> 0")
        case False
        then have "fst y = Inl rc \<and> rc \<noteq> 0 \<or> fst y = Inl QCLOUD_ERR_HTTP_TIMEOUT"
          using run True templen p ngt nz l(1) recv lf(1) unfolding more_len_def ml_def by (auto simp: Let_def split: if_splits)
        then show ?thesis using b4(1) by (auto simp: body_outcome_def)
      next
        case go: True
        define s5 where "s5 = s4\<lparr>wd := w5\<rparr>"
        have "loop W timer data4 n (count + len) more_len s5 = Some y"
          using run True templen p ngt nz l(1) recv lf(1) go unfolding more_len_def ml_def s5_def by (simp add: Let_def)
        moreover have net: "only_net s2 s5" using b4(6) by (simp add: only_net_def s5_def)
        moreover have h5: "response_buf_len (hdata s5) = response_buf_len (hdata s)" using net len2 by (simp add: only_net_def)
        moreover have "n \<le> unat more_len" using ml(1) b4(3) by (metis of_nat_le_iff order.trans)
        moreover have "int (count + len + n) \<le> response_buf_len (hdata s5) - 1" using ml(2) b4(3) h5 by simp
        ultimately have "body_outcome rest (count + len) more_len (take n data4 @ rest (wd s5)) s5 (fst y) (snd y)"
          using step(3) by (intro IH)
        moreover have "take n data4 @ rest (wd s5) = rest (wd s2)"
          using b4 l(2) lf(2) by (auto simp: s5_def wr_bytes_Some_iff)
        ultimately have rec: "body_outcome rest (count + len) more_len (rest (wd s2)) s5 (fst y) (snd y)" by simp
        have join: "web_delivered rest count (len + k) (take len data @ rest (wd s)) s (snd y)"
          if "web_delivered rest (count + len) k (rest (wd s2)) s5 (snd y)" for k
        proof -
          have "web_delivered rest count len (bs @ rest (wd s2)) s s2" "rest (wd s2) = rest (wd s)" using pd by simp_all
          then show ?thesis
            using web_delivered_trans [OF _ bs(2) [symmetric] web_delivered_after_net [OF net that]] bs(1) by metis
        qed
        show ?thesis
        proof (cases "fst y")
          case (Inl rc')
          then have rc': "rc' \<noteq> 0" "rc' \<le> 1" using rec by (simp_all add: body_outcome_def)
          moreover have "\<exists>k. int (count + k) = response_buf_len (hdata s) - 1 \<and> k \<le> unat readLen \<and>
              web_delivered rest count k (take len data @ rest (wd s)) s (snd y)" if one: "rc' = 1"
          proof -
            obtain k where k: "int (count + len + k) = response_buf_len (hdata s) - 1" "k \<le> unat more_len"
                "web_delivered rest (count + len) k (rest (wd s2)) s5 (snd y)"
              using rec Inl one h5 by (auto simp: body_outcome_def)
            have "int (count + (len + k)) = response_buf_len (hdata s) - 1" "len + k \<le> unat readLen"
              using k(1,2) um step(4) by simp_all
            then show ?thesis using join [OF k(3)] by blast
          qed
          ultimately show ?thesis using Inl by (simp add: body_outcome_def)
        next
          case (Inr b)
          obtain d count' where b: "b = (d, count')" by fastforce
          have r: "count' = count + len + unat more_len" "int count' < response_buf_len (hdata s) - 1"
              "web_delivered rest (count + len) (unat more_len) (rest (wd s2)) s5 (snd y)"
            using rec Inr b h5 by (auto simp: body_outcome_def)
          have "len + unat more_len = unat readLen" using um step(4) by simp
          then show ?thesis using Inr b r(1,2) join [OF r(3)] by (simp add: body_outcome_def)
        qed
      qed
    qed
  qed
qed

section \<open>Transfers return\<close>

text \<open>The clock does not run backwards, and a read that has delivered nothing, without an error, has waited for its time.\<close>

definition web_steady :: "'w web \<Rightarrow> ('w \<Rightarrow> nat) \<Rightarrow> bool" where
  "web_steady W time \<longleftrightarrow>
     (\<forall>w. time w \<le> fst (web_clock W w) \<and> fst (web_clock W w) \<le> time (snd (web_clock W w))) \<and>
     (\<forall>n t w. time w \<le> time (snd (web_read W n t w)) \<and>
        (snd (fst (web_read W n t w)) = [] \<longrightarrow> time w + 1000 * t \<le> time (snd (web_read W n t w)) \<or>
           fst (fst (web_read W n t w)) \<notin> {0, QCLOUD_ERR_TCP_NOTHING_TO_READ, QCLOUD_ERR_SSL_NOTHING_TO_READ,
             QCLOUD_ERR_TCP_READ_TIMEOUT, QCLOUD_ERR_SSL_READ_TIMEOUT}))"

lemma web_steady_left:
  assumes "web_steady W time" "web_left_ms W timer s = (ms, s')"
  obtains t where "time (wd s) \<le> t" "t \<le> time (wd s')" "ms = (timer - t) div 1000"
  using assms unfolding web_steady_def web_left_ms_def by (metis (mono_tags, lifting) case_prod_unfold http.select_convs(3) http.surjective http.update_convs(3) prod.inject)

lemma web_steady_recv:
  assumes "web_steady W time" "http_client_recv W data off max_len ms s = Some ((0, 0, data'), s')"
  shows "time (wd s) + 1000 * ms \<le> time (wd s') \<or> time (wd s) < time (wd s')"
proof -
  obtain t1 w1 where c1: "web_clock W (wd s) = (t1, w1)" by fastforce
  obtain t2 w2 where c2: "web_clock W w1 = (t2, w2)" by fastforce
  obtain rc bs w3 where rd: "web_read W (nat max_len) ((t1 + 1000 * ms - t2) div 1000) w2 = ((rc, bs), w3)" by (metis surj_pair)
  have t: "time (wd s) \<le> t1" "t1 \<le> time w1" "time w1 \<le> t2" "t2 \<le> time w2" "time w2 \<le> time w3"
    using assms(1) c1 c2 rd unfolding web_steady_def by (metis fst_conv snd_conv)+
  have r: "bs = []" "rc \<in> {0, QCLOUD_ERR_TCP_NOTHING_TO_READ, QCLOUD_ERR_SSL_NOTHING_TO_READ, QCLOUD_ERR_TCP_READ_TIMEOUT, QCLOUD_ERR_SSL_READ_TIMEOUT}"
      "wd s' = w3"
    using assms(2) c1 c2 rd
    by (auto simp: http_client_recv_def web_countdown_ms_def web_left_ms_def Let_def split: if_splits elim!: bind_SomeE)
  then have "time w2 + 1000 * ((t1 + 1000 * ms - t2) div 1000) \<le> time w3"
    using assms(1) rd unfolding web_steady_def by (metis fst_conv snd_conv)
  moreover have "t1 = time (wd s)" if "t2 = time (wd s)" using t that by simp
  ultimately show ?thesis using t r(3) by (cases "t2 = time (wd s)") auto
qed

lemma set_response_fits:
  "p + length bs \<le> length (response_buf (hdata s)) \<Longrightarrow> \<exists>s'. set_response p bs s = Some s'"
  by (simp add: set_response_Some)

lemma take_response_fits:
  "0 \<le> retrieve_len (hdata s) \<Longrightarrow> retrieve_len (hdata s) < 2 ^ 31 \<Longrightarrow> int n \<le> retrieve_len (hdata s) \<Longrightarrow> \<exists>s'. take_response n s = Some s'"
  by (simp add: take_response_def int32_def)

lemma http_client_recv_fits:
  assumes "web_stream W rest" "0 \<le> max_len" "off + nat max_len \<le> length data"
  obtains rc n data' s' where "http_client_recv W data off max_len ms s = Some ((rc, n, data'), s')"
proof -
  obtain t w1 where c: "web_countdown_ms W ms s = (t, s\<lparr>wd := w1\<rparr>)" using web_countdown_ms_cases by metis
  obtain l w2 where l: "web_left_ms W t (s\<lparr>wd := w1\<rparr>) = (l, s\<lparr>wd := w2\<rparr>)"
    using web_left_ms_cases [of W t "s\<lparr>wd := w1\<rparr>"] by (metis http.surjective http.update_convs(3))
  obtain rc bs w3 where rd: "web_read W (nat max_len) l w2 = ((rc, bs), w3)" by (metis surj_pair)
  then have "off + length bs \<le> length data" using web_stream_read [OF assms(1) rd] assms(3) by simp
  then obtain d where "wr_bytes data off bs = Some d" by (simp add: wr_bytes_def)
  then show thesis using that assms(2) c l rd by (auto simp: http_client_recv_def Let_def split: if_splits) metis+
qed

lemma fill_response_fits:
  assumes "int (count + len) = response_buf_len (hdata s) - 1" "len \<le> length data"
    "response_buf_len (hdata s) \<le> int (length (response_buf (hdata s)))"
  obtains s1 where "fill_response data count s = Some s1" "hdata s1 = (hdata s)\<lparr>response_buf := response_buf (hdata s1)\<rparr>"
proof -
  have n: "nat (response_buf_len (hdata s)) - 1 = count + len" "response_buf_len (hdata s) - 1 - int count = int len"
      "\<not> response_buf_len (hdata s) < 1" "count + len + 1 \<le> length (response_buf (hdata s))"
    using assms(1,3) by auto
  have bs: "rd_int data 0 (int len) = Some (take len data)" using assms(2) by (simp add: rd_int_def rd_bytes_def)
  obtain s0 where s0: "set_response count (take len data) s = Some s0"
    using set_response_fits [of count "take len data" s] n(4) assms(2) by auto
  then have h0: "hdata s0 = (hdata s)\<lparr>response_buf := response_buf (hdata s0)\<rparr>" "length (response_buf (hdata s0)) = length (response_buf (hdata s))"
    using n(4) assms(2) by (auto simp: set_response_Some)
  then have r0: "response_buf_len (hdata s0) = response_buf_len (hdata s)" by (metis HTTPClientData.select_convs(8) HTTPClientData.surjective HTTPClientData.update_convs(7))
  obtain s1 where s1: "set_response (count + len) [0] s0 = Some s1"
    using set_response_fits [of "count + len" "[0]" s0] n(4) h0(2) by auto
  then have "hdata s1 = (hdata s0)\<lparr>response_buf := response_buf (hdata s1)\<rparr>" by (auto simp: set_response_Some)
  then have "hdata s1 = (hdata s)\<lparr>response_buf := response_buf (hdata s1)\<rparr>" using h0(1) by (cases "hdata s"; cases "hdata s0"; cases "hdata s1"; simp)
  then show thesis using that [of s1] s0 s1 bs n r0 by (simp add: fill_response_def)
qed

lemma retrieve_body_returns:
  assumes "web_stream W rest" "web_steady W time"
  shows "len \<le> unat readLen \<Longrightarrow> int (count + len) \<le> response_buf_len (hdata s) - 1 \<Longrightarrow>
    retrieve_len (hdata s) = int (unat readLen) \<Longrightarrow> unat readLen < 2 ^ 31 \<Longrightarrow>
    response_buf_len (hdata s) \<le> int (length (response_buf (hdata s))) \<Longrightarrow> length data = HTTP_CLIENT_CHUNK_SIZE \<Longrightarrow> len \<le> length data \<Longrightarrow>
    retrieve_body W timer data len count readLen s \<noteq> None"
proof (induction "(unat readLen - len, timer - time (wd s))" arbitrary: data len count readLen s
    rule: wf_induct_rule [OF wf_lex_prod [OF wf_less wf_less]])
  case (1 len readLen s data count)
  note IH = "1.hyps" and pre = "1.prems"
  have rl: "0 \<le> retrieve_len (hdata s)" "retrieve_len (hdata s) < 2 ^ 31" "int len \<le> retrieve_len (hdata s)"
    unfolding pre(3) using pre(1) of_nat_less_iff [of "unat readLen" "2 ^ 31", where 'a = int] pre(4)
    by (simp_all only: of_nat_0_le_iff of_nat_le_iff of_nat_power of_nat_numeral)
  have len32: "len < 2 ^ 32" using pre(1,4) by simp
  then have u: "unat (of_nat len :: u32) = len" by (simp add: unat_of_nat_u32)
  have templen: "(if of_nat len < readLen then len else unat readLen) = len"
    using pre(1) u by (auto simp: word_less_nat_alt)
  have ngt: "\<not> of_nat len > readLen" using pre(1) u by (simp add: word_less_nat_alt)
  show ?case
  proof (cases "int (count + len) < response_buf_len (hdata s) - 1")
    case False
    then have full: "int (count + len) = response_buf_len (hdata s) - 1" using pre(2) by simp
    have k: "nat (response_buf_len (hdata s)) - 1 - count = len" using full by auto
    obtain s1 where f: "fill_response data count s = Some s1" "hdata s1 = (hdata s)\<lparr>response_buf := response_buf (hdata s1)\<rparr>"
      using fill_response_fits [OF full pre(7,5)] by metis
    have h: "response_buf_len (hdata s1) = response_buf_len (hdata s)" "retrieve_len (hdata s1) = retrieve_len (hdata s)"
      using f(2) by (cases "hdata s"; cases "hdata s1"; simp)+
    obtain s2 where "take_response len s1 = Some s2" using take_response_fits [of s1 len] h rl by auto
    then show ?thesis using False templen f(1) h k by (subst retrieve_body.simps) (simp add: Let_def)
  next
    case True
    have p1: "rd_bytes data 0 len = Some (take len data)" using pre(7) by (simp add: rd_bytes_def)
    obtain s1 where p2: "set_response count (take len data @ [0]) s = Some s1"
      using set_response_fits [of count "take len data @ [0]" s] True pre(5,7) by auto
    have h1: "retrieve_len (hdata s1) = retrieve_len (hdata s)" using p2 by (simp add: set_response_Some)
    obtain s2 where p3: "take_response len s1 = Some s2" using take_response_fits [of s1 len] h1 rl by auto
    note pd = piece_delivered [OF p1 p2 p3, of rest]
    have h2: "response_buf_len (hdata s2) = response_buf_len (hdata s)" "length (response_buf (hdata s2)) = length (response_buf (hdata s))"
        "retrieve_len (hdata s2) = int (unat readLen) - int len" "wd s2 = wd s"
      using pd unfolding pre(3) [symmetric] by (auto simp: web_delivered_def dest: same_session_simps)
    define more_len where "more_len = readLen - of_nat len"
    have um: "unat more_len = unat readLen - len" using pre(1) u by (simp add: more_len_def unat_sub word_le_nat_alt)
    show ?thesis
    proof (cases "more_len = 0")
      case z: True
      then show ?thesis using True z templen p1 p2 p3 ngt by (subst retrieve_body.simps) (simp add: Let_def more_len_def)
    next
      case nz: False
      define ml where "ml = (let m = min (int HTTP_CLIENT_CHUNK_SIZE - 1) (response_buf_len (hdata s2) - 1 - int (count + len))
        in if word_of_int m < more_len then m else sint more_len)"
      have ml_eq: "ml = min (min 1024 (response_buf_len (hdata s) - 1 - int (count + len))) (int (unat more_len))"
        using True h2(1) by (simp add: ml_def chunk_limit)
      then have ml: "ml \<le> int (unat more_len)" "ml \<le> response_buf_len (hdata s) - 1 - int (count + len)" "0 \<le> ml" "ml \<le> 1024"
        using True by simp_all
      obtain ms w3 where l: "web_left_ms W timer s2 = (ms, s2\<lparr>wd := w3\<rparr>)" using web_left_ms_cases by metis
      obtain rc n data4 s4 where recv: "http_client_recv W data 0 ml ms (s2\<lparr>wd := w3\<rparr>) = Some ((rc, n, data4), s4)"
      proof -
        have "0 + nat ml \<le> length data" using ml(4) pre(6) by simp
        then show thesis using http_client_recv_fits [OF assms(1) ml(3)] that by metis
      qed
      obtain lf w5 where lf: "web_left_ms W timer s4 = (lf, s4\<lparr>wd := w5\<rparr>)" using web_left_ms_cases by metis
      show ?thesis
      proof (cases "rc = 0 \<and> lf \<noteq> 0")
        case False
        then show ?thesis
          using True templen p1 p2 p3 ngt nz l recv lf unfolding more_len_def ml_def
          by (subst retrieve_body.simps) (auto simp: Let_def)
      next
        case go: True
        define s5 where "s5 = s4\<lparr>wd := w5\<rparr>"
        obtain bs4 where b4: "n = length bs4" "int n \<le> ml" "wr_bytes data 0 bs4 = Some data4" "only_net (s2\<lparr>wd := w3\<rparr>) s4"
          using http_client_recv_cases [OF assms(1) recv] by auto
        have h5: "hdata s5 = hdata s2" using b4(4) by (simp add: only_net_def s5_def)
        have d4: "length data4 = HTTP_CLIENT_CHUNK_SIZE" using wr_bytes_length [OF b4(3)] pre(6) by simp
        have nle: "n \<le> unat more_len" "n \<le> 1024" using b4(2) ml(1,4) by linarith+
        have time: "n = 0 \<Longrightarrow> timer - time (wd s5) < timer - time (wd s)"
        proof -
          assume n0: "n = 0"
          obtain t0 where t0: "time (wd s2) \<le> t0" "t0 \<le> time w3" "ms = (timer - t0) div 1000"
            using web_steady_left [OF assms(2) l] by auto
          obtain t3 where t3: "time (wd s4) \<le> t3" "t3 \<le> time w5" "lf = (timer - t3) div 1000"
            using web_steady_left [OF assms(2) lf] by auto
          have "time w3 + 1000 * ms \<le> time (wd s4) \<or> time w3 < time (wd s4)"
            using web_steady_recv [OF assms(2)] recv go n0 by fastforce
          moreover have "t0 < t3" if "time w3 + 1000 * ms \<le> time (wd s4)"
            using that t0 t3 go by (cases "ms = 0") auto
          ultimately have "time (wd s) < time (wd s5)" "time (wd s) < timer" using t0 t3 go h2(4) by (auto simp: s5_def)
          then show ?thesis by (simp add: diff_less_mono2)
        qed
        have "retrieve_body W timer data4 n (count + len) more_len s5 \<noteq> None"
        proof (rule IH)
          show "((unat more_len - n, timer - time (wd s5)), unat readLen - len, timer - time (wd s)) \<in>
              {(x, y). x < y} <*lex*> {(x, y). x < y}"
            using time nle um nz by (auto simp: unat_eq_zero)
          show "n \<le> unat more_len" by (rule nle(1))
          show "int (count + len + n) \<le> response_buf_len (hdata s5) - 1" using b4(2) ml(2) h5 h2(1) by simp
          show "retrieve_len (hdata s5) = int (unat more_len)" unfolding um h5 h2(3) using pre(1) by linarith
          show "unat more_len < 2 ^ 31" using um pre(4) by simp
          show "response_buf_len (hdata s5) \<le> int (length (response_buf (hdata s5)))" using h5 h2(1,2) pre(5) by simp
          show "length data4 = HTTP_CLIENT_CHUNK_SIZE" by (rule d4)
          show "n \<le> length data4" using nle(2) d4 by simp
        qed
        then show ?thesis
          using True templen p1 p2 p3 ngt nz l recv lf go unfolding more_len_def ml_def s5_def
          by (subst retrieve_body.simps) (auto simp: Let_def)
      qed
    qed
  qed
qed

section \<open>The calls of the client\<close>

text \<open>A response with a length, of which \<open>n\<close> bytes have not been fetched, and a buffer of the caller.\<close>

definition awaiting :: "nat \<Rightarrow> 'w http \<Rightarrow> bool" where
  "awaiting n s \<longleftrightarrow>
     \<not> is_chunked (hdata s) \<and> response_content_len (hdata s) \<noteq> - 1 \<and> retrieve_len (hdata s) = int n \<and> n < 2 ^ 31 \<and>
     1 \<le> response_buf_len (hdata s) \<and> response_buf_len (hdata s) \<le> int (length (response_buf (hdata s)))"

text \<open>The next \<open>k\<close> of the pending bytes are in the buffer, with a NUL behind them.\<close>

definition received :: "('w \<Rightarrow> byte list) \<Rightarrow> nat \<Rightarrow> byte list \<Rightarrow> 'w http \<Rightarrow> 'w http \<Rightarrow> bool" where
  "received rest k pend s s' \<longleftrightarrow>
     k \<le> length pend \<and> rest (wd s') = drop k pend \<and> k < length (response_buf (hdata s')) \<and>
     take (k + 1) (response_buf (hdata s')) = take k pend @ [0] \<and>
     retrieve_len (hdata s') = retrieve_len (hdata s) - int k \<and>
     length (response_buf (hdata s')) = length (response_buf (hdata s)) \<and>
     response_buf_len (hdata s') = response_buf_len (hdata s) \<and> is_chunked (hdata s') = is_chunked (hdata s) \<and>
     response_content_len (hdata s') = response_content_len (hdata s) \<and> response_code (hc s') = response_code (hc s)"

text \<open>What fits of \<open>n\<close> bytes; more may come when the buffer has been filled.\<close>

definition portion :: "nat \<Rightarrow> 'w http \<Rightarrow> nat" where
  "portion n s = min n (nat (response_buf_len (hdata s)) - 1)"

definition content_outcome :: "('w \<Rightarrow> byte list) \<Rightarrow> nat \<Rightarrow> byte list \<Rightarrow> 'w http \<Rightarrow> int \<Rightarrow> 'w http \<Rightarrow> bool" where
  "content_outcome rest n pend s rc s' \<longleftrightarrow>
     rc < 0 \<or> rc \<in> {0, 1} \<and> received rest (portion n s) pend s s' \<and>
     (is_more (hdata s') \<longleftrightarrow> int n \<ge> response_buf_len (hdata s) - 1)"

lemma web_delivered_received:
  "web_delivered rest 0 k pend s s1 \<Longrightarrow> received rest k pend s (hd_update (\<lambda>d. d\<lparr>is_more := b\<rparr>) s1)"
  by (auto simp: web_delivered_def received_def same_session_simps)

lemma web_delivered_received_more: "web_delivered rest 0 k pend s s1 \<Longrightarrow> received rest k pend s s1"
  by (auto simp: web_delivered_def received_def same_session_simps)

lemma retrieve_content_outcome:
  assumes W: "web_stream W rest" "web_steady W time" and s: "awaiting n s"
    and data: "len \<le> n" "len < nat (response_buf_len (hdata s))" "length data = HTTP_CLIENT_CHUNK_SIZE" "len \<le> length data"
  obtains rc s' where "http_client_retrieve_content W data len ms s = Some (rc, s')"
    "content_outcome rest n (take len data @ rest (wd s)) s rc s'"
proof -
  obtain timer w1 where c: "web_countdown_ms W ms s = (timer, s\<lparr>wd := w1\<rparr>)" "rest w1 = rest (wd s)"
    using web_countdown_ms_cases W(1) by metis
  define s1 where "s1 = hd_update (\<lambda>d. d\<lparr>is_more := True\<rparr>) (s\<lparr>wd := w1\<rparr>)"
  define readLen :: u32 where "readLen = word_of_int (int n)"
  have n: "unat readLen = n" using s by (simp add: readLen_def awaiting_def unat_of_nat_u32)
  have s1: "response_buf_len (hdata s1) = response_buf_len (hdata s)" "retrieve_len (hdata s1) = int n" "\<not> is_chunked (hdata s1)"
      "response_content_len (hdata s1) \<noteq> - 1" "response_buf (hdata s1) = response_buf (hdata s)" "rest (wd s1) = rest (wd s)" "is_more (hdata s1)"
      "response_code (hc s1) = response_code (hc s)" "response_content_len (hdata s1) = response_content_len (hdata s)"
    using s c(2) by (simp_all add: s1_def awaiting_def)
  have "retrieve_body W timer data len 0 readLen s1 \<noteq> None"
    using s data s1 n by (intro retrieve_body_returns [OF W]) (auto simp: awaiting_def)
  then obtain b s2 where b: "retrieve_body W timer data len 0 readLen s1 = Some (b, s2)" by auto
  have out: "body_outcome rest 0 readLen (take len data @ rest (wd s)) s1 b s2"
    using retrieve_body_outcome [OF b W(1)] data s1 n by auto
  have "http_client_retrieve_content W data len ms s = retrieve_loop W timer data len 0 s1"
    using c(1) s by (simp add: http_client_retrieve_content_def s1_def awaiting_def)
  also have "\<dots> =
      (case b of Inl rc \<Rightarrow> Some (rc, s2)
       | Inr (data, count) \<Rightarrow>
           if is_chunked (hdata s2)
           then chunk_end W timer data 0 s2 \<bind> (\<lambda>(e, s). case e of Inl rc \<Rightarrow> Some (rc, s) | Inr (data, len) \<Rightarrow> retrieve_loop W timer data len count s)
           else Some (QCLOUD_RET_SUCCESS, hd_update (\<lambda>d. d\<lparr>is_more := False\<rparr>) s2))"
    using s1(2,3) b by (subst retrieve_loop.simps) (simp add: readLen_def)
  finally have run: "http_client_retrieve_content W data len ms s = \<dots>" .
  have to: "received rest k pend s s'" if "received rest k pend s1 s'" for k pend s'
    using that s1 s by (simp add: received_def awaiting_def s1_def)
  show thesis
  proof (cases b)
    case (Inl rc)
    have "content_outcome rest n (take len data @ rest (wd s)) s rc s2"
    proof (cases "rc = 1")
      case True
      then obtain k where k: "int k = response_buf_len (hdata s) - 1" "k \<le> n" "web_delivered rest 0 k (take len data @ rest (wd s)) s1 s2"
        using out Inl s1(1) n by (auto simp: body_outcome_def)
      have "portion n s = k" using k(1,2) by (auto simp: portion_def)
      moreover have "is_more (hdata s2)" using k(3) s1(7) by (auto simp: web_delivered_def same_session_simps)
      ultimately show ?thesis
        using True k(1,2) to [OF web_delivered_received_more [OF k(3)]] by (simp add: content_outcome_def)
    next
      case False
      then show ?thesis using out Inl by (auto simp: body_outcome_def content_outcome_def)
    qed
    then show thesis using that run Inl by simp
  next
    case (Inr p)
    then obtain data' count where p: "b = Inr (data', count)" by (cases p) auto
    have d: "web_delivered rest 0 n (take len data @ rest (wd s)) s1 s2" "int n < response_buf_len (hdata s) - 1"
      using out p s1(1) n by (auto simp: body_outcome_def)
    have "\<not> is_chunked (hdata s2)" using d(1) s1(3) by (auto simp: web_delivered_def same_session_simps)
    moreover have "portion n s = n" using d(2) by (auto simp: portion_def)
    ultimately show thesis
      using that run p d(2) to [OF web_delivered_received [OF d(1), of False]] by (simp add: content_outcome_def)
  qed
qed

lemma close_rest [simp]:
  "web_stream W rest \<Longrightarrow> rest (wd (qcloud_http_client_close W s)) = rest (wd s)"
  by (simp add: qcloud_http_client_close_def http_disconnect_def web_stream_def)

lemma recv_data_cases:
  assumes "web_stream W rest" "response_buf_len (hdata s) \<noteq> 0"
  obtains ms' w where "rest w = rest (wd s)" "qcloud_http_recv_data W ms s =
    http_client_recv_response W ms' (s\<lparr>wd := w\<rparr>) \<bind>
      (\<lambda>(rc, s). Some (if rc < 0 then (rc, qcloud_http_client_close W s) else (QCLOUD_RET_SUCCESS, s)))"
proof -
  obtain t w1 where c: "web_countdown_ms W ms s = (t, s\<lparr>wd := w1\<rparr>)" "rest w1 = rest (wd s)"
    using web_countdown_ms_cases assms(1) by metis
  obtain l w2 where l: "web_left_ms W t (s\<lparr>wd := w1\<rparr>) = (l, s\<lparr>wd := w2\<rparr>)" "rest w2 = rest (wd s)"
    using web_left_ms_cases [of W t "s\<lparr>wd := w1\<rparr>"] assms(1) c(2) by (metis http.select_convs(3) http.surjective http.update_convs(3))
  show thesis by (rule that [OF l(2)]) (use assms(2) c(1) l(1) in \<open>simp add: qcloud_http_recv_data_def\<close>)
qed

lemma recv_next:
  assumes W: "web_stream W rest" "web_steady W time" and s: "awaiting n s" "is_more (hdata s)" "net_handle (hc s)"
  shows "\<exists>rc s'. qcloud_http_recv_data W ms s = Some (rc, s') \<and> rc \<le> 0 \<and>
    (rc = 0 \<longrightarrow> received rest (portion n s) (rest (wd s)) s s' \<and>
       (is_more (hdata s') \<longleftrightarrow> int n \<ge> response_buf_len (hdata s) - 1))"
proof -
  have nz: "response_buf_len (hdata s) \<noteq> 0" using s(1) by (simp add: awaiting_def)
  obtain ms' w where run: "rest w = rest (wd s)" "qcloud_http_recv_data W ms s =
    http_client_recv_response W ms' (s\<lparr>wd := w\<rparr>) \<bind>
      (\<lambda>(rc, s). Some (if rc < 0 then (rc, qcloud_http_client_close W s) else (QCLOUD_RET_SUCCESS, s)))"
    by (rule recv_data_cases [OF W(1) nz]) (rule that)
  obtain t w1 where c: "web_countdown_ms W ms' (s\<lparr>wd := w\<rparr>) = (t, s\<lparr>wd := w1\<rparr>)" "rest w1 = rest (wd s)"
    using web_countdown_ms_cases [of W ms' "s\<lparr>wd := w\<rparr>"] W(1) run(1) by (metis http.select_convs(3) http.surjective http.update_convs(3))
  obtain s1 where s1: "set_response 0 [0] (s\<lparr>wd := w1\<rparr>) = Some s1"
    using set_response_fits [of 0 "[0]" "s\<lparr>wd := w1\<rparr>"] s(1) by (auto simp: awaiting_def)
  obtain l w2 where l: "web_left_ms W t s1 = (l, s1\<lparr>wd := w2\<rparr>)" "rest w2 = rest (wd s1)"
    using web_left_ms_cases W(1) by metis
  define s2 where "s2 = s1\<lparr>wd := w2\<rparr>"
  have s2: "awaiting n s2" "rest (wd s2) = rest (wd s)" "response_buf_len (hdata s2) = response_buf_len (hdata s)"
    using s(1) s1 l(2) c(2) by (auto simp: s2_def awaiting_def set_response_Some)
  have recv0: "received rest k pend s s'" if "received rest k pend s2 s'" for k pend s'
    using that s1 by (auto simp: received_def s2_def set_response_Some)
  obtain rc s' where r: "http_client_retrieve_content W (replicate HTTP_CLIENT_CHUNK_SIZE 0) 0 l s2 = Some (rc, s')"
      "content_outcome rest n (rest (wd s)) s2 rc s'"
    using retrieve_content_outcome [OF W s2(1), of 0 "replicate HTTP_CLIENT_CHUNK_SIZE 0" l] s2 s(1) by (auto simp: awaiting_def)
  have "http_client_recv_response W ms' (s\<lparr>wd := w\<rparr>) = Some (rc, s')"
    using r(1) s(2,3) c(1) s1 l(1) by (simp add: http_client_recv_response_def Let_def s2_def)
  then show ?thesis
    using run(2) r(2) s2(3) recv0 by (auto simp: content_outcome_def portion_def)
qed

text \<open>C10. Fetching more of a response. While \<open>n\<close> bytes of the content are outstanding, one call of \<^verbatim>\<open>qcloud_http_recv_data\<close> returns, and if it succeeds
  the buffer holds exactly the next \<open>min n (response_buf_len - 1)\<close> bytes the server has sent, with a NUL behind them; as many are no
  longer outstanding, the stream continues right after them, and the client expects more exactly if the buffer has been filled. Nothing is lost,
  repeated or reordered, however the network cuts the stream into reads.
\<close>

theorem http_recv_next:
  assumes W: "web_stream W rest" "web_steady W time" and s: "awaiting n s" "is_more (hdata s)" "net_handle (hc s)"
  shows "\<exists>rc s'. qcloud_http_recv_data W ms s = Some (rc, s') \<and> rc \<le> 0 \<and>
    (rc = 0 \<longrightarrow> received rest (portion n s) (rest (wd s)) s s' \<and>
       (is_more (hdata s') \<longleftrightarrow> int n \<ge> response_buf_len (hdata s) - 1))"
  using recv_next [OF assms] .

section \<open>The head of a response\<close>

declare strstr.simps [simp del]

lemma strstr_Nil: "strstr [] pat = (if pat = [] then Some 0 else None)"
  by (simp add: strstr.simps [of "[]"])

lemma strstr_Cons:
  "strstr (c # cs) pat = (if take (length pat) (c # cs) = pat then Some 0 else map_option Suc (strstr cs pat))"
  by (simp add: strstr.simps [of "c # cs"])

lemma strstr_bound: "strstr s pat = Some i \<Longrightarrow> i + length pat \<le> length s"
proof (induction s arbitrary: i)
  case (Cons c s)
  then show ?case by (auto simp: strstr_Cons split: if_split_asm dest: arg_cong [where f = length])
qed (simp add: strstr_Nil split: if_splits)

lemma strstr_append: "strstr s pat = Some i \<Longrightarrow> strstr (s @ t) pat = Some i"
proof (induction s arbitrary: i)
  case (Cons c s)
  have l: "length pat \<le> length (c # s)" using strstr_bound [OF Cons.prems] by simp
  then have "take (length pat) (c # s @ t) = take (length pat) (c # s)" by (cases pat) auto
  then show ?case using Cons by (auto simp: strstr_Cons split: if_splits)
qed (cases t; simp add: strstr_Nil strstr_Cons split: if_splits)

text \<open>A response head: the status line, then header lines, with the length of the content in one of them.\<close>

definition response_headers :: "byte list \<Rightarrow> nat \<Rightarrow> byte list \<Rightarrow> byte list" where
  "response_headers pre n post = pre @ cstr ''Content-Length: '' @ dec n @ post @ [CR, LF, CR, LF]"

definition response_head :: "byte list \<Rightarrow> byte list \<Rightarrow> nat \<Rightarrow> byte list \<Rightarrow> byte list" where
  "response_head line pre n post = line @ [CR, LF] @ response_headers pre n post"

definition head_ok :: "byte list \<Rightarrow> byte list \<Rightarrow> nat \<Rightarrow> byte list \<Rightarrow> int \<Rightarrow> bool" where
  "head_ok line pre n post code \<longleftrightarrow>
     0 \<notin> set (response_head line pre n post) \<and> 9 \<le> length line \<and> atoi (drop 9 line) = Some code \<and> code \<noteq> 403 \<and> code \<noteq> 404 \<and>
     strstr (line @ [CR, LF]) [CR, LF] = Some (length line) \<and>
     strstr (response_headers pre n post) [CR, LF, CR, LF] = Some (length (response_headers pre n post) - 4) \<and>
     strstr (response_headers pre n post) (cstr ''Content-Length'') = Some (length pre) \<and>
     (post = [] \<or> hd post = CR) \<and> n < 2 ^ 31"

text \<open>The client after the head.\<close>

definition parsed_state :: "int \<Rightarrow> nat \<Rightarrow> 'w http \<Rightarrow> 'w http" where
  "parsed_state code n s =
     hc_update (\<lambda>c. c\<lparr>response_code := code\<rparr>)
       (hd_update (\<lambda>d. d\<lparr>is_chunked := False, response_content_len := int n, retrieve_len := int n\<rparr>) s)"

lemma str_at_0: "0 \<notin> set a \<Longrightarrow> str_at (a @ 0 # b) 0 = Some a"
  by (simp add: str_at_def) (induction a; auto)

lemma takeWhile_nz_append: "0 \<notin> set a \<Longrightarrow> takeWhile (\<lambda>c. c \<noteq> 0) (a @ b) = a @ takeWhile (\<lambda>c. c \<noteq> (0 :: byte)) b"
  by (induction a) auto

lemma str_at_0_append: "0 \<notin> set a \<Longrightarrow> 0 \<in> set b \<Longrightarrow> str_at (a @ b) 0 = Some (a @ takeWhile (\<lambda>c. c \<noteq> 0) b)"
  by (simp add: str_at_def takeWhile_nz_append)

lemma scan_digits_stop: "digit_of base c = None \<Longrightarrow> scan_digits base acc (ds @ c # t) = scan_digits base acc ds"
  by (induction base acc ds rule: scan_digits.induct) (auto split: option.splits)

lemma atoi_dec: 
  assumes "n < 2 ^ 31"
  shows "atoi (dec n @ CR # t) = Some (int n)"
proof -
  have h: "48 \<le> hd (dec n) \<and> hd (dec n) \<le> 57" using dec_digits dec_not_Nil by (metis list.set_sel(1))
  then have sp: "\<not> is_space (hd (dec n))" "hd (dec n) \<noteq> MINUS" "hd (dec n) \<noteq> 43" "digit_of 10 (hd (dec n)) \<noteq> None"
    by (auto simp: is_space_def digit_of_def digit_val_def word_le_nat_alt)
  have dw: "dropWhile is_space (dec n @ CR # t) = dec n @ CR # t" using sp(1) by (cases "dec n") auto
  have "digit_of 10 CR = None" by (simp add: digit_of_def digit_val_def)
  then have "scan_digits 10 0 (dec n @ CR # t) = n" by (simp add: scan_digits_stop scan_dec)
  then have "scan_nat False (dec n @ CR # t) = Some n" using sp(4) by (simp add: scan_nat_def scan_base_def)
  then show ?thesis using dw sp assms by (simp add: atoi_def sscanf_int_def)
qed

text \<open>The head and the first part of the content in the receive buffer: the status line is cut off, then the headers.\<close>

lemma header_end_found:
  assumes "0 \<notin> set h" "0 \<in> set b" "strstr h [CR, LF, CR, LF] = Some (length h - 4)"
  shows "header_end W timer (h @ b) len s = Some (Inr (length h - 4, h @ b, len), s)"
  using assms by (simp add: header_end_def str_at_0_append strstr_append)

lemma read_headers_length:
  assumes "0 \<notin> set (response_headers pre n post)" "0 \<in> set b" "post = [] \<or> hd post = CR" "n < 2 ^ 31"
    and "strstr (response_headers pre n post) (cstr ''Content-Length'') = Some (length pre)"
  shows "read_headers (response_headers pre n post @ b) s =
    Some (0, hd_update (\<lambda>d. d\<lparr>response_content_len := int n, retrieve_len := int n\<rparr>) s)"
proof -
  let ?h = "response_headers pre n post"
  obtain t where t: "post @ [CR, LF, CR, LF] = CR # t" using assms(3) by (cases post) auto
  have "drop (length pre + 16) (?h @ b) = dec n @ CR # t @ b"
    by (simp add: response_headers_def t [symmetric])
  moreover have "0 \<notin> set (dec n @ CR # t)" using assms(1) by (auto simp: response_headers_def t [symmetric])
  ultimately have "str_at (?h @ b) (length pre + 16) = Some (dec n @ CR # t @ takeWhile (\<lambda>c. c \<noteq> 0) b)"
    using str_at_0_append [of "dec n @ CR # t" b] assms(2) by (simp add: str_at_def)
  then show ?thesis
    using assms strstr_append [OF assms(5)] by (simp add: read_headers_def str_at_0_append atoi_dec)
qed

lemma response_parse_head:
  assumes "head_ok line pre n post code"
    and data: "data = response_head line pre n post @ part @ [0] @ junk"
    and len: "len = length (response_head line pre n post) + length part"
  obtains data' ms' w where "\<And>rest. web_stream W rest \<Longrightarrow> rest w = rest (wd s)" "length data' = length data" "take (length part) data' = part"
    "http_client_response_parse W data len ms s = http_client_retrieve_content W data' (length part) ms' (parsed_state code n (s\<lparr>wd := w\<rparr>))"
proof -
  let ?h = "response_headers pre n post"
  note ok = assms(1) [unfolded head_ok_def]
  obtain timer w1 where c: "web_countdown_ms W ms s = (timer, s\<lparr>wd := w1\<rparr>)" "\<And>rest. web_stream W rest \<Longrightarrow> rest w1 = rest (wd s)"
    using web_countdown_ms_cases by metis
  have z: "0 \<notin> set line" "0 \<notin> set ?h" using ok by (simp_all add: response_head_def)
  have d: "data = (line @ [CR, LF]) @ ?h @ part @ [0] @ junk" using data by (simp add: response_head_def)
  have t: "str_at data 0 = Some ((line @ [CR, LF]) @ ?h @ takeWhile (\<lambda>c. c \<noteq> 0) (part @ [0] @ junk))"
    using str_at_0_append [of "line @ [CR, LF] @ ?h" "part @ [0] @ junk"] z unfolding d by simp
  have crlf: "strstr ((line @ [CR, LF]) @ x) [CR, LF] = Some (length line)" for x
    by (rule strstr_append) (use ok in simp)
  define data1 where "data1 = line @ [0, LF] @ ?h @ part @ [0] @ junk"
  have d1: "wr_bytes data (length line) [0] = Some data1" unfolding d data1_def by (simp add: wr_bytes_def)
  have v: "str_at data1 9 = Some (drop 9 line)"
    using ok z(1) str_at_0 [of "drop 9 line" "LF # ?h @ part @ [0] @ junk"] 
    by (simp add: str_at_def data1_def) (metis in_set_dropD)
  have cut: "rd_int data1 (length line + 2) (int len - int (length line + 2) + 1) = Some (?h @ part @ [0])"
    unfolding len data1_def by (simp add: rd_int_def rd_bytes_def response_head_def nat_add_distrib)
  define junk2 where "junk2 = drop (length (?h @ part @ [0])) data1"
  have d2: "wr_bytes data1 0 (?h @ part @ [0]) = Some (?h @ part @ [0] @ junk2)"
    by (simp add: wr_bytes_def junk2_def data1_def)
  define s1 where "s1 = hd_update (\<lambda>d. d\<lparr>is_chunked := False\<rparr>)
    (hc_update (\<lambda>c. c\<lparr>response_code := code\<rparr>) (hd_update (\<lambda>d. d\<lparr>response_content_len := - 1\<rparr>) (s\<lparr>wd := w1\<rparr>)))"
  have e: "header_end W timer (?h @ part @ [0] @ junk2) l s1 = Some (Inr (length ?h - 4, ?h @ part @ [0] @ junk2, l), s1)" for l
    using ok z(2) by (intro header_end_found) simp_all
  have r: "read_headers (?h @ part @ [0] @ junk2) s1 = Some (0, parsed_state code n (s\<lparr>wd := w1\<rparr>))"
    using read_headers_length [of pre n post "part @ [0] @ junk2" s1] ok z(2) by (simp add: s1_def parsed_state_def)
  have h4: "length ?h - 4 + 4 = length ?h" by (simp add: response_headers_def)
  have b3: "rd_bytes (?h @ part @ [0] @ junk2) (length ?h - 4 + 4) (length ?h + length part - (length ?h - 4 + 4) + 1) = Some (part @ [0])"
    unfolding h4 by (simp add: rd_bytes_def)
  define data3 where "data3 = part @ [0] @ drop (length part + 1) (?h @ part @ [0] @ junk2)"
  have d3: "wr_bytes (?h @ part @ [0] @ junk2) 0 (part @ [0]) = Some data3"
    by (simp add: wr_bytes_def data3_def)
  define s2 where "s2 = parsed_state code n (s\<lparr>wd := w1\<rparr>)"
  obtain l w2 where l: "web_left_ms W timer s2 = (l, s2\<lparr>wd := w2\<rparr>)" "\<And>rest. web_stream W rest \<Longrightarrow> rest w2 = rest (wd s2)"
    by (rule web_left_ms_cases) (rule that)
  have s2: "s2\<lparr>wd := w2\<rparr> = parsed_state code n (s\<lparr>wd := w2\<rparr>)" "wd s2 = w1" by (simp_all add: s2_def parsed_state_def)
  have rest: "rest w2 = rest (wd s)" if "web_stream W rest" for rest
    using c(2) [OF that] l(2) [OF that] s2(2) by simp
  have "length data3 = length data"
    using wr_bytes_length [OF d1] wr_bytes_length [OF d2] wr_bytes_length [OF d3] by simp
  moreover have "len - (length line + 2) = length ?h + length part" using len by (simp add: response_head_def)
  then have "http_client_response_parse W data len ms s =
      http_client_retrieve_content W data3 (length part) l (parsed_state code n (s\<lparr>wd := w2\<rparr>))"
    using c(1) t crlf [of "?h @ takeWhile (\<lambda>c. c \<noteq> 0) (part @ [0] @ junk)"] d1 v ok cut d2 e [of "length ?h + length part"] r b3 d3 l(1) h4 s2(1)
    unfolding http_client_response_parse_def by (simp add: s1_def s2_def)
  moreover have "take (length part) data3 = part" by (simp add: data3_def)
  ultimately show thesis using that [of w2 data3 l] rest by blast
qed

lemma first_response:
  assumes W: "web_stream W rest" "web_steady W time" and head: "head_ok line pre n post code"
    and stream: "rest (wd s) = response_head line pre n post @ content" "length content = n"
    and first: "\<And>t w. rest w = rest (wd s) \<Longrightarrow> length (response_head line pre n post) \<le> length (snd (fst (web_read W 1024 t w)))"
    and s: "\<not> is_more (hdata s)" "net_handle (hc s)" "1024 \<le> response_buf_len (hdata s)"
      "response_buf_len (hdata s) \<le> int (length (response_buf (hdata s)))"
  shows "\<exists>rc s'. qcloud_http_recv_data W ms s = Some (rc, s') \<and> rc \<le> 0 \<and>
    (rc = 0 \<longrightarrow> received rest (portion n s) content (parsed_state code n s) s' \<and> response_code (hc s') = code \<and>
       (is_more (hdata s') \<longleftrightarrow> int n \<ge> response_buf_len (hdata s) - 1))"
proof -
  let ?head = "response_head line pre n post"
  have nz: "response_buf_len (hdata s) \<noteq> 0" using s(3) by simp
  obtain ms' w where run: "rest w = rest (wd s)" "qcloud_http_recv_data W ms s =
    http_client_recv_response W ms' (s\<lparr>wd := w\<rparr>) \<bind>
      (\<lambda>(rc, s). Some (if rc < 0 then (rc, qcloud_http_client_close W s) else (QCLOUD_RET_SUCCESS, s)))"
    by (rule recv_data_cases [OF W(1) nz]) (rule that)
  define s0 where "s0 = s\<lparr>wd := w\<rparr>"
  obtain t w1 where c: "web_countdown_ms W ms' s0 = (t, s0\<lparr>wd := w1\<rparr>)" "\<And>rest. web_stream W rest \<Longrightarrow> rest w1 = rest (wd s0)"
    by (rule web_countdown_ms_cases) (rule that)
  define s1 where "s1 = hd_update (\<lambda>d. d\<lparr>is_more := True\<rparr>) (s0\<lparr>wd := w1\<rparr>)"
  obtain l w2 where l: "web_left_ms W t s1 = (l, s1\<lparr>wd := w2\<rparr>)" "\<And>rest. web_stream W rest \<Longrightarrow> rest w2 = rest (wd s1)"
    by (rule web_left_ms_cases) (rule that)
  define s2 where "s2 = s1\<lparr>wd := w2\<rparr>"
  have rest2: "rest (wd s2) = rest (wd s)"
    using c(2) [OF W(1)] l(2) [OF W(1)] run(1) by (simp add: s2_def s1_def s0_def)
  define buf :: "byte list" where "buf = replicate HTTP_CLIENT_CHUNK_SIZE 0"
  obtain rc n0 buf1 s3 where recv: "http_client_recv W buf 0 (int HTTP_CLIENT_CHUNK_SIZE - 1) l s2 = Some ((rc, n0, buf1), s3)"
  proof (rule http_client_recv_fits [OF W(1), of "int HTTP_CLIENT_CHUNK_SIZE - 1" 0 buf l s2])
    show "0 + nat (int HTTP_CLIENT_CHUNK_SIZE - 1) \<le> length buf" by (simp add: buf_def)
  qed simp_all
  obtain bs where b: "rc \<le> 0" "n0 = length bs" "n0 \<le> 1024" "rest (wd s2) = bs @ rest (wd s3)" "wr_bytes buf 0 bs = Some buf1" "only_net s2 s3"
    using http_client_recv_cases [OF W(1) recv] by auto
  have resp: "http_client_recv_response W ms' s0 =
      (if rc \<noteq> 0 then Some (rc, s3)
       else wr_bytes buf1 n0 [0] \<bind> (\<lambda>buf. if n0 \<noteq> 0 then (let (ms, s) = web_left_ms W t s3 in http_client_response_parse W buf n0 ms s) else Some (0, s3)))"
    using s(1,2) c(1) l(1) recv unfolding http_client_recv_response_def
    by (simp add: Let_def s1_def [symmetric] s2_def [symmetric] buf_def [symmetric]) (auto simp: s0_def s1_def s2_def)
  show ?thesis
  proof (cases "rc = 0")
    case False
    then show ?thesis using b(1) resp run(2) by (simp add: s0_def)
  next
    case True
    have "length ?head \<le> length bs"
    proof -
      obtain lr wr where "rest wr = rest (wd s2)" "n0 = length (snd (fst (web_read W (nat (int HTTP_CLIENT_CHUNK_SIZE - 1)) lr wr)))"
        by (rule http_client_recv_reads [OF W(1) recv]) (rule that)
      then show ?thesis using first [of wr lr] rest2 b(2) by simp
    qed
    then obtain part where part: "bs = ?head @ part" "content = part @ rest (wd s3)"
      using b(4) rest2 stream(1) by (auto simp: append_eq_append_conv2)
    have short: "length ?head + length part \<le> 1024" using b(2,3) part(1) by simp
    have buf1: "buf1 = ?head @ part @ replicate (1025 - n0) 0"
      using b(2,3,5) part(1) by (auto simp: wr_bytes_Some_iff buf_def)
    have n0: "n0 = length ?head + length part" using b(2) part(1) by simp
    define data where "data = ?head @ part @ [0] @ replicate (1024 - n0) (0 :: byte)"
    have w: "wr_bytes buf1 n0 [0] = Some data"
      using short n0 by (simp add: buf1 wr_bytes_def data_def)
    have ld: "length data = HTTP_CLIENT_CHUNK_SIZE" using short n0 by (simp add: data_def)
    obtain l4 w4 where l4: "web_left_ms W t s3 = (l4, s3\<lparr>wd := w4\<rparr>)" "\<And>rest. web_stream W rest \<Longrightarrow> rest w4 = rest (wd s3)"
      by (rule web_left_ms_cases) (rule that)
    obtain data' ms5 w5 where p: "\<And>rest. web_stream W rest \<Longrightarrow> rest w5 = rest (wd (s3\<lparr>wd := w4\<rparr>))" "length data' = length data"
        "take (length part) data' = part"
        "http_client_response_parse W data n0 l4 (s3\<lparr>wd := w4\<rparr>) =
          http_client_retrieve_content W data' (length part) ms5 (parsed_state code n ((s3\<lparr>wd := w4\<rparr>)\<lparr>wd := w5\<rparr>))"
      by (rule response_parse_head [OF head data_def n0, where W = W and ms = l4 and s = "s3\<lparr>wd := w4\<rparr>"]) (rule that)
    define s5 where "s5 = parsed_state code n ((s3\<lparr>wd := w4\<rparr>)\<lparr>wd := w5\<rparr>)"
    have s5: "response_buf_len (hdata s5) = response_buf_len (hdata s)" "response_buf (hdata s5) = response_buf (hdata s)"
        "rest (wd s5) = rest (wd s3)" "response_code (hc s5) = code"
      using b(6) p(1) [OF W(1)] l4(2) [OF W(1)] by (simp_all add: s5_def parsed_state_def only_net_def s2_def s1_def s0_def)
    have aw: "awaiting n s5" using head s(3,4) s5 by (simp add: awaiting_def s5_def parsed_state_def head_ok_def)
    have hl: "length ?head > 0" by (simp add: response_head_def)
    obtain rc' s' where r: "http_client_retrieve_content W data' (length part) ms5 s5 = Some (rc', s')"
        "content_outcome rest n (take (length part) data' @ rest (wd s5)) s5 rc' s'"
    proof (rule retrieve_content_outcome [OF W aw, of "length part" data' ms5])
      show "length part \<le> n" using part(2) stream(2) by auto
      have "length part < 1024" using short hl by linarith
      then show "length part < nat (response_buf_len (hdata s5))" using s(3) s5(1) by simp
      show "length data' = HTTP_CLIENT_CHUNK_SIZE" using p(2) ld by simp
      then show "length part \<le> length data'" using short by simp
    qed
    have pend: "take (length part) data' @ rest (wd s5) = content" using p(3) part(2) s5(3) by simp
    have fwd: "received rest k pend (parsed_state code n s) s'" if "received rest k pend s5 s'" for k pend
      using that s5 by (simp add: received_def s5_def parsed_state_def)
    have por: "portion n s5 = portion n s" using s5(1) by (simp add: portion_def)
    have "http_client_recv_response W ms' s0 = Some (rc', s')"
      using resp True w n0 hl l4(1) p(4) r(1) by (simp add: s5_def)
    then have call: "qcloud_http_recv_data W ms s = Some (if rc' < 0 then (rc', qcloud_http_client_close W s') else (0, s'))"
      using run(2) by (simp add: s0_def)
    show ?thesis
    proof (cases "rc' < 0")
      case False
      then have "received rest (portion n s) content s5 s'" "is_more (hdata s') \<longleftrightarrow> int n \<ge> response_buf_len (hdata s) - 1"
        using r(2) pend por s5(1) unfolding content_outcome_def by simp_all
      moreover have "response_code (hc s') = code" using calculation(1) s5(4) by (simp add: received_def)
      ultimately show ?thesis using call False fwd by simp
    qed (simp add: call)
  qed
qed

text \<open>C11. The first call for a response. If the first read brings the whole head (a status line other than 403 and 404, and headers with a
  content length \<open>n\<close>) and any part of the content, the call returns, and if it succeeds the response code is the one in the status line and the
  buffer holds exactly the first \<open>min n (response_buf_len - 1)\<close> bytes of the content.
\<close>

theorem http_first_response:
  assumes W: "web_stream W rest" "web_steady W time" and head: "head_ok line pre n post code"
    and stream: "rest (wd s) = response_head line pre n post @ content" "length content = n"
    and first: "\<And>t w. rest w = rest (wd s) \<Longrightarrow> length (response_head line pre n post) \<le> length (snd (fst (web_read W 1024 t w)))"
    and s: "\<not> is_more (hdata s)" "net_handle (hc s)" "1024 \<le> response_buf_len (hdata s)"
      "response_buf_len (hdata s) \<le> int (length (response_buf (hdata s)))"
  shows "\<exists>rc s'. qcloud_http_recv_data W ms s = Some (rc, s') \<and> rc \<le> 0 \<and>
    (rc = 0 \<longrightarrow> received rest (portion n s) content (parsed_state code n s) s' \<and> response_code (hc s') = code \<and>
       (is_more (hdata s') \<longleftrightarrow> int n \<ge> response_buf_len (hdata s) - 1))"
  using first_response [OF assms] .

end
