(* ===== verification/Http_Request.thy ===== *)
theory Http_Request
  imports Http_Transfer
begin

text \<open>
  What the HTTP client sends: the base64 of its credentials, the parts of a URL, and the bytes of a request.
\<close>

section \<open>Credentials\<close>

lemma base64_code_sextet: "base64_code w = sextet w"
  by (simp add: base64_code_def sextet_def)

lemma sextet_cong: "take_bit 6 v = take_bit 6 w \<Longrightarrow> sextet v = sextet w"
proof -
  have "u AND 63 = take_bit 6 u" for u :: u32 by (simp add: take_bit_eq_mask mask_eq_exp_minus_1)
  then show "take_bit 6 v = take_bit 6 w \<Longrightarrow> ?thesis" by (simp add: sextet_def)
qed

lemma scast_ascii: "c < 128 \<Longrightarrow> (scast (c :: byte) :: u32) = ucast c"
proof -
  assume "c < 128"
  then have "\<not> bit (unat c) 7" by (simp add: word_less_nat_alt bit_iff_odd)
  then have "\<not> bit c 7" by (simp add: bit_unsigned_iff)
  then have "n < 7" if "bit c n" for n using that u8_bit_bound [of c n] by (cases "n = 7") auto
  then show ?thesis by (intro bit_word_eqI) (force simp: bit_simps min_def split: if_splits)
qed

lemma low_bits: "w AND 3 = take_bit 2 w" "w AND 15 = take_bit 4 (w :: u32)"
  by (simp_all add: take_bit_eq_mask mask_eq_exp_minus_1)

lemma sextet_regroup:
  fixes a b c :: u8 and x :: u32
  shows "sextet (drop_bit 2 (push_bit 8 x OR ucast a)) = sextet (drop_bit 2 (ucast a))"
    "sextet (drop_bit 4 (push_bit 8 (push_bit 8 x OR ucast a) OR ucast b)) = sextet (push_bit 4 (take_bit 2 (ucast a)) OR drop_bit 4 (ucast b))"
    "sextet (drop_bit 6 (push_bit 8 (push_bit 8 x OR ucast b) OR ucast c)) = sextet (push_bit 2 (take_bit 4 (ucast b)) OR drop_bit 6 (ucast c))"
    "sextet (push_bit 8 x OR ucast c) = sextet (ucast c)"
    "sextet (push_bit 4 (push_bit 8 x OR ucast a)) = sextet (push_bit 4 (take_bit 2 (ucast a)))"
    "sextet (push_bit 2 (push_bit 8 x OR ucast b)) = sextet (push_bit 2 (take_bit 4 (ucast b)))"
  by (rule sextet_cong, rule bit_word_eqI, auto simp: bit_simps dest: u8_bit_bound)+

lemma base64enc_loop_3:
  assumes "a < 128" "b < 128" "c < 128"
  shows "\<exists>y. base64enc_loop (a # b # c # r) x 0 = b64 [a, b, c] @ base64enc_loop r y 0"
    "base64enc_loop [a, b] x 0 @ [61] = b64 [a, b]"
    "base64enc_loop [a] x 0 @ [61, 61] = b64 [a]"
proof -
  note e = base64enc_loop.simps Let_def base64_code_sextet scast_ascii [OF assms(1)] scast_ascii [OF assms(2)] scast_ascii [OF assms(3)]
  have n: "(8 :: nat) - 6 = 2" "(2 :: nat) + 8 - 6 = 4" "(4 :: nat) + 8 - 6 = 6" "(4 :: nat) + 8 - 12 = 0" "(0 :: nat) + 8 = 8"
      "\<not> (8 :: nat) \<ge> 12" "\<not> (2 :: nat) + 8 \<ge> 12" "(4 :: nat) + 8 \<ge> 12" "(2 :: nat) > 0" "(4 :: nat) > 0" "(6 :: nat) - 2 = 4" "(6 :: nat) - 4 = 2"
      "\<not> (0 :: nat) > 0"
    by simp_all
  note sums = sextet_sum [unfolded low_bits]
  show "\<exists>y. base64enc_loop (a # b # c # r) x 0 = b64 [a, b, c] @ base64enc_loop r y 0"
    by (rule exI [of _ "push_bit 8 (push_bit 8 (push_bit 8 x OR ucast a) OR ucast b) OR ucast c"])
      (simp only: e n if_True if_False b64.simps append.simps low_bits sums sextet_regroup drop_bit_0 id_apply)
  show "base64enc_loop [a, b] x 0 @ [61] = b64 [a, b]" "base64enc_loop [a] x 0 @ [61, 61] = b64 [a]"
    by (simp_all only: e n if_True if_False b64.simps append.simps low_bits sums sextet_regroup)
qed

lemma http_base64_agrees_aux:
  assumes "\<forall>c \<in> set s. c < 128"
  shows "http_client_base64enc s = b64 s"
proof -
  have "\<forall>c \<in> set s. c < 128 \<Longrightarrow> base64enc_loop s x 0 @ replicate ((4 - length (base64enc_loop s x 0) mod 4) mod 4) 61 = b64 s" for x
  proof (induction s arbitrary: x rule: b64.induct)
    case (1 a b c r)
    obtain y where "base64enc_loop (a # b # c # r) x 0 = b64 [a, b, c] @ base64enc_loop r y 0"
      using base64enc_loop_3(1) 1(2) by (metis list.set_intros)
    then show ?case using 1 by simp
  next
    case (2 a b)
    then show ?case using base64enc_loop_3(2) [of a b 0 x] by simp
  next
    case (3 a)
    have "replicate 2 (61 :: byte) = [61, 61]" by (simp add: numeral_2_eq_2)
    then show ?case using 3 base64enc_loop_3(3) [of a 0 0 x] by simp
  qed simp
  then show ?thesis using assms by (simp add: http_client_base64enc_def Let_def)
qed

text \<open>The two base64 encoders of the SDK agree. The encoder of the HTTP client for credentials, a shift register over the characters of a C string, gives for
  every ASCII text the base64 that \<^verbatim>\<open>qcloud_iot_utils_base64encode\<close> gives.
\<close>

theorem http_base64_agrees:
  assumes "\<forall>c \<in> set s. c < 128"
  shows "http_client_base64enc s = b64 s"
  using http_base64_agrees_aux [OF assms] .

section \<open>URLs\<close>

lemma strchr_at_first: "c \<notin> set a \<Longrightarrow> strchr_at (a @ c # b) c = Some (length a)"
  by (simp add: strchr_at_def) (induction a; auto)

lemma strchr_at_none: "c \<notin> set a \<Longrightarrow> strchr_at a c = None"
  by (simp add: strchr_at_def)

definition web_url :: "byte list \<Rightarrow> byte list \<Rightarrow> byte list \<Rightarrow> byte list" where
  "web_url scheme host path = scheme @ cstr ''://'' @ host @ path"

text \<open>The parts of a URL. For a URL with a scheme of at most 7 characters, a host of at most 63 characters, and a path of at most 1,023 characters that begins with
  a slash and has no fragment, \<^verbatim>\<open>_http_client_parse_url\<close> returns exactly these three parts for the arrays of the client.
\<close>

theorem http_parse_url_parts:
  assumes "strstr (web_url scheme host path) (cstr ''://'') = Some (length scheme)" "length scheme \<le> 7"
    and "SLASH \<notin> set host" "length host \<le> 63"
    and "path \<noteq> []" "hd path = SLASH" "35 \<notin> set (host @ path)" "length path \<le> 1023"
  shows "http_client_parse_url (web_url scheme host path) 8 HTTP_CLIENT_MAX_HOST_LEN HTTP_CLIENT_MAX_URL_LEN = Some (Inr (scheme, host, path))"
proof -
  obtain p where p: "path = SLASH # p" using assms(5,6) by (cases path) auto
  have h: "drop (length scheme + 3) (web_url scheme host path) = host @ path" "take (length scheme) (web_url scheme host path) = scheme"
    by (simp_all add: web_url_def)
  have l: "unat (of_nat (length path) :: u32) = length path" using assms(8) by (intro unat_of_nat_u32) simp
  have "unat (of_nat (length path) + 1 :: u32) = length path + 1"
    using unat_of_nat_u32 [of "length path + 1"] assms(8) by (simp add: add.commute)
  then have "\<not> of_nat HTTP_CLIENT_MAX_URL_LEN < (of_nat (length path) + 1 :: u32)"
    using assms(8) by (simp add: word_less_nat_alt)
  moreover have "strchr_at (host @ path) SLASH = Some (length host)" using strchr_at_first [OF assms(3)] p by simp
  moreover have "strchr_at (host @ path) 35 = None" by (rule strchr_at_none) (use assms(7) in simp)
  ultimately show ?thesis
    using assms(1,2,4,8) h l by (simp add: http_client_parse_url_def Let_def rd_bytes_def)
qed

text \<open>Without a path the host is not measured: a host of 64 or more characters is written behind the array.\<close>

lemma http_parse_url_overruns:
  assumes "strstr (scheme @ cstr ''://'' @ host) (cstr ''://'') = Some (length scheme)" "length scheme \<le> 7" "SLASH \<notin> set host" "length host \<ge> 64"
  shows "http_client_parse_url (scheme @ cstr ''://'' @ host) 8 HTTP_CLIENT_MAX_HOST_LEN HTTP_CLIENT_MAX_URL_LEN = None"
  using assms by (simp add: http_client_parse_url_def Let_def strchr_at_none)

section \<open>Requests\<close>

lemma get_info_fits:
  assumes "length sb = HTTP_CLIENT_SEND_BUF_SIZE" "idx + length buf < HTTP_CLIENT_SEND_BUF_SIZE"
  shows "http_client_get_info W sb idx buf s =
    Some ((0, take idx sb @ buf @ drop (idx + length buf) sb, idx + length buf), s)"
proof -
  have "length buf \<le> HTTP_CLIENT_SEND_BUF_SIZE - idx" using assms(2) by linarith
  then show ?thesis using assms unfolding http_client_get_info_def
    by (subst get_info_loop.simps) (simp add: rd_bytes_def wr_bytes_def Let_def)
qed

text \<open>A send buffer that begins with the bytes \<open>t\<close>.\<close>

definition sendbuf_holds :: "byte list \<Rightarrow> byte list \<times> nat \<Rightarrow> bool" where
  "sendbuf_holds t b \<longleftrightarrow> (case b of (sb, len) \<Rightarrow> length sb = HTTP_CLIENT_SEND_BUF_SIZE \<and> len = length t \<and> take len sb = t)"

lemma sendbuf_holdsD: "sendbuf_holds t (sb, len) \<Longrightarrow> take len sb = t"
  by (auto simp: sendbuf_holds_def)

lemma get_info_holds:
  assumes "sendbuf_holds t (sb, len)" "length t + length buf < HTTP_CLIENT_SEND_BUF_SIZE"
  obtains sb' len' where "http_client_get_info W sb len buf s = Some ((0, sb', len'), s)" "sendbuf_holds (t @ buf) (sb', len')"
  using assms get_info_fits [of sb len buf W s] that [of "take len sb @ buf @ drop (len + length buf) sb" "len + length buf"]
  by (auto simp: sendbuf_holds_def)

lemma add_info_holds:
  assumes "sendbuf_holds t (sb, len)" "length t + length buf < HTTP_CLIENT_SEND_BUF_SIZE"
  obtains sb' len' where "add_info W buf ((sb, len), s) = Some ((sb', len'), s)" "sendbuf_holds (t @ buf) (sb', len')"
proof -
  obtain sb' len' where g: "http_client_get_info W sb len buf s = Some ((0, sb', len'), s)" "sendbuf_holds (t @ buf) (sb', len')"
    by (rule get_info_holds [OF assms]) (rule that)
  then show thesis by (intro that) (simp_all add: add_info_def)
qed

text \<open>The text of a request, piece by piece.\<close>

definition start_text :: "HttpMethod \<Rightarrow> byte list \<Rightarrow> byte list \<Rightarrow> byte list" where
  "start_text m path host = http_method m @ SPACE # path @ cstr '' HTTP/1.1'' @ [CR, LF] @ cstr ''Host: '' @ host @ [CR, LF]"

definition credentials :: "HTTPClient \<Rightarrow> byte list" where
  "credentials c = printed_str (auth_user c) @ COLON # printed_str (auth_password c)"

definition auth_text :: "HTTPClient \<Rightarrow> byte list" where
  "auth_text c = (if auth_user c = None then [] else cstr ''Authorization: Basic '' @ b64 (credentials c) @ [LF])"

definition post_text :: "HTTPClientData \<Rightarrow> byte list" where
  "post_text d =
     (case post_buf d of
        None \<Rightarrow> []
      | Some b \<Rightarrow> (cstr ''Content-Length: '' @ dec (length b) @ [CR, LF]) @
          (case post_content_type d of None \<Rightarrow> [] | Some t \<Rightarrow> cstr ''Content-Type: '' @ t @ [CR, LF]))"

definition request_text :: "HttpMethod \<Rightarrow> byte list \<Rightarrow> byte list \<Rightarrow> HTTPClient \<Rightarrow> HTTPClientData \<Rightarrow> byte list" where
  "request_text m path host c d =
     start_text m path host @ auth_text c @ (case http_header c of None \<Rightarrow> [] | Some h \<Rightarrow> h) @ post_text d @ [CR, LF]"

lemma send_auth_holds:
  assumes "sendbuf_holds t (sb, len)" "length (t @ auth_text (hc s)) < HTTP_CLIENT_SEND_BUF_SIZE" "auth_user (hc s) \<noteq> None"
    and "\<forall>c \<in> set (credentials (hc s)). c < 128" "length (credentials (hc s)) \<le> 129"
  obtains sb' len' where "http_client_send_auth W sb len s = Some ((sb', len'), s)" "sendbuf_holds (t @ auth_text (hc s)) (sb', len')"
proof -
  have snp: "snprintf_text (HTTP_CLIENT_AUTHB_SIZE + 3) (credentials (hc s)) = credentials (hc s)"
    using assms(5) by (simp add: snprintf_text_def)
  have enc: "http_client_base64enc (credentials (hc s)) = b64 (credentials (hc s))"
    using http_base64_agrees_aux assms(4) by blast
  have "n div 3 + (if n mod 3 \<noteq> 0 then 1 else 0) \<le> 43" if "n \<le> 129" for n :: nat using that by presburger
  then have "length (b64 (credentials (hc s))) \<le> 4 * 43" unfolding length_b64 using assms(5) by (intro mult_le_mono2)
  then have fits: "\<not> length (b64 (credentials (hc s))) + 2 > (HTTP_CLIENT_AUTHB_SIZE + 3) * 4 div 3 + 1" by simp
  obtain sb1 len1 where g1: "http_client_get_info W sb len (cstr ''Authorization: Basic '') s = Some ((0, sb1, len1), s)"
      "sendbuf_holds (t @ cstr ''Authorization: Basic '') (sb1, len1)"
    by (rule get_info_holds [OF assms(1), of "cstr ''Authorization: Basic ''" W s]) (use assms(2,3) in \<open>simp_all add: auth_text_def that\<close>)
  obtain sb2 len2 where g2: "http_client_get_info W sb1 len1 (b64 (credentials (hc s)) @ [LF]) s = Some ((0, sb2, len2), s)"
      "sendbuf_holds ((t @ cstr ''Authorization: Basic '') @ b64 (credentials (hc s)) @ [LF]) (sb2, len2)"
    by (rule get_info_holds [OF g1(2), of "b64 (credentials (hc s)) @ [LF]" W s]) (use assms(2,3) in \<open>simp_all add: auth_text_def that\<close>)
  have a: "auth_text (hc s) = cstr ''Authorization: Basic '' @ b64 (credentials (hc s)) @ [LF]"
    using assms(3) by (simp add: auth_text_def)
  have "http_client_send_auth W sb len s = Some ((sb2, len2), s)"
    using g1(1) g2(1) snp enc fits
    unfolding http_client_send_auth_def credentials_def [symmetric] by simp
  moreover have "sendbuf_holds (t @ auth_text (hc s)) (sb2, len2)" using g2(2) by (simp add: a)
  ultimately show thesis by (rule that)
qed

text \<open>C14. The bytes of a request. For a URL whose parts are parsed, ASCII credentials of at most 129 characters and a request of less than 1,024 bytes in all,
  \<^verbatim>\<open>_http_client_send_header\<close> writes the request line, the host, the credentials, the headers of the caller, the length and type of the posted
  data and the empty line, in this order, in one write to the connection; it succeeds exactly if that write has sent something.
\<close>

theorem http_request_exact:
  assumes parts: "http_client_parse_url url 8 HTTP_CLIENT_MAX_HOST_LEN HTTP_CLIENT_MAX_URL_LEN = Some (Inr (scheme, host, path))"
    and short: "length (request_text m path host (hc s) (hdata s)) < HTTP_CLIENT_SEND_BUF_SIZE"
    and auth: "\<forall>c \<in> set (credentials (hc s)). c < 128" "length (credentials (hc s)) \<le> 129"
  shows "http_client_send_header W url m s =
    (let ((rc, n), w) = web_write W (request_text m path host (hc s) (hdata s)) 5000 (wd s)
     in Some (if n > 0 then QCLOUD_RET_SUCCESS else QCLOUD_ERR_HTTP_CLOSED, s\<lparr>wd := w\<rparr>))"
proof -
  note rt = short [unfolded request_text_def, simplified]
  have line: "request_line m path host = start_text m path host"
    using rt by (simp add: request_line_def start_text_def snprintf_text_def)
  let ?sb0 = "replicate HTTP_CLIENT_SEND_BUF_SIZE (0 :: byte)"
  obtain sb1 l1 where g1: "http_client_get_info W ?sb0 0 (start_text m path host) s = Some ((0, sb1, l1), s)"
      "sendbuf_holds (start_text m path host) (sb1, l1)"
    by (rule get_info_holds [of "[]" ?sb0 0 "start_text m path host" W s]) (use rt in \<open>simp_all add: sendbuf_holds_def that\<close>)
  obtain sb2 l2 where g2: "(if auth_user (hc s) \<noteq> None then http_client_send_auth W sb1 l1 s else Some ((sb1, l1), s)) = Some ((sb2, l2), s)"
      "sendbuf_holds (start_text m path host @ auth_text (hc s)) (sb2, l2)"
  proof (cases "auth_user (hc s) = None")
    case True
    then show thesis using that g1(2) by (simp add: auth_text_def)
  next
    case False
    show thesis
      by (rule send_auth_holds [OF g1(2) _ False auth, of W]) (use rt False in \<open>simp_all add: that\<close>)
  qed
  let ?t3 = "start_text m path host @ auth_text (hc s) @ (case http_header (hc s) of None \<Rightarrow> [] | Some h \<Rightarrow> h)"
  obtain sb3 l3 where g3: "(case http_header (hc s) of Some h \<Rightarrow> add_info W h ((sb2, l2), s) | None \<Rightarrow> Some ((sb2, l2), s)) = Some ((sb3, l3), s)"
      "sendbuf_holds ?t3 (sb3, l3)"
  proof (cases "http_header (hc s)")
    case None
    then show thesis using that g2(2) by simp
  next
    case (Some h)
    show thesis by (rule add_info_holds [OF g2(2), of h W s]) (use rt Some in \<open>simp_all add: that\<close>)
  qed
  let ?t4 = "?t3 @ post_text (hdata s)"
  let ?cl = "\<lambda>b. cstr ''Content-Length: '' @ dec (length b) @ [CR, LF]"
  obtain sb4 l4 where g4: "(case post_buf (hdata s) of None \<Rightarrow> Some ((sb3, l3), s)
        | Some b \<Rightarrow> do {
            x \<leftarrow> add_info W (?cl b) ((sb3, l3), s);
            (case post_content_type (hdata (snd x)) of
               None \<Rightarrow> Some x
             | Some t \<Rightarrow> add_info W (snprintf_text HTTP_CLIENT_SEND_BUF_SIZE (cstr ''Content-Type: '' @ t @ [CR, LF])) x) }) = Some ((sb4, l4), s)"
      "sendbuf_holds ?t4 (sb4, l4)"
  proof (cases "post_buf (hdata s)")
    case None
    then show thesis using that g3(2) by (simp add: post_text_def)
  next
    case (Some b)
    obtain sb' l' where p1: "add_info W (?cl b) ((sb3, l3), s) = Some ((sb', l'), s)" "sendbuf_holds (?t3 @ ?cl b) (sb', l')"
      by (rule add_info_holds [OF g3(2), of "?cl b" W s]) (use rt Some in \<open>simp_all add: post_text_def that\<close>)
    show thesis
    proof (cases "post_content_type (hdata s)")
      case None
      then show thesis using that [of sb' l'] p1 Some by (simp add: post_text_def)
    next
      case ct: (Some t)
      let ?ct = "cstr ''Content-Type: '' @ t @ [CR, LF]"
      have snp: "snprintf_text HTTP_CLIENT_SEND_BUF_SIZE ?ct = ?ct" using rt Some ct by (simp add: snprintf_text_def post_text_def)
      obtain sb'' l'' where p2: "add_info W ?ct ((sb', l'), s) = Some ((sb'', l''), s)" "sendbuf_holds ((?t3 @ ?cl b) @ ?ct) (sb'', l'')"
        by (rule add_info_holds [OF p1(2), of ?ct W s]) (use rt Some ct in \<open>simp_all add: post_text_def that\<close>)
      show thesis using that [of sb'' l''] p1(1) p2 Some ct snp by (simp add: post_text_def)
    qed
  qed
  obtain sb5 l5 where g5: "add_info W [CR, LF] ((sb4, l4), s) = Some ((sb5, l5), s)" "sendbuf_holds (?t4 @ [CR, LF]) (sb5, l5)"
    by (rule add_info_holds [OF g4(2), of "[CR, LF]" W s]) (use rt in \<open>simp_all add: that\<close>)
  have "take l5 sb5 = ?t4 @ [CR, LF]" using g5(2) by (rule sendbuf_holdsD)
  then have "take l5 sb5 = request_text m path host (hc s) (hdata s)" by (simp add: request_text_def)
  then show ?thesis
    unfolding http_client_send_header_def using parts line g1(1) g2(1) g3(1) g4(1) g5(1) by (simp add: Let_def split: prod.splits)
qed

section \<open>Examples\<close>

text \<open>A server that sends a byte sequence, in pieces of at most \<open>k\<close> bytes, and accepts everything; reads that find nothing wait.\<close>

definition pipe_web :: "nat \<Rightarrow> (nat \<times> byte list) web" where
  "pipe_web k =
     \<lparr>web_clock = (\<lambda>(t, r). (t, (t, r))),
      web_connect = (\<lambda>host port w. (True, w)),
      web_read = (\<lambda>n tmo (t, r).
        if r = [] \<or> n = 0 \<or> k = 0 then ((QCLOUD_ERR_TCP_NOTHING_TO_READ, []), (t + 1000 * tmo, r))
        else ((0, take (min n k) r), (t, drop (min n k) r))),
      web_write = (\<lambda>d tmo w. ((0, length d), w)),
      web_disconnect = (\<lambda>w. w)\<rparr>"

lemma pipe_web_stream: "web_stream (pipe_web k) snd"
  by (auto simp: web_stream_def pipe_web_def min_def split: prod.splits)

lemma pipe_web_steady: "web_steady (pipe_web k) fst"
  by (auto simp: web_steady_def pipe_web_def split: prod.splits)

definition pipe_http :: "bool \<Rightarrow> int \<Rightarrow> byte list \<Rightarrow> (nat \<times> byte list) http" where
  "pipe_http pending n r =
     \<lparr>hc = \<lparr>response_code = 0, http_header = None, auth_user = Some (cstr ''me''), auth_password = Some (cstr ''pw''), net_inited = True, net_handle = True\<rparr>,
      hdata = \<lparr>is_more = pending, is_chunked = False, retrieve_len = n, response_content_len = n, post_content_type = Some (cstr ''text''),
        post_buf = Some (cstr ''hi''), response_buf = replicate 1100 0, response_buf_len = 1100\<rparr>,
      wd = (0, r)\<rparr>"

lemma pipe_http_sel [simp]:
  "is_more (hdata (pipe_http b n r)) = b" "is_chunked (hdata (pipe_http b n r)) = False" "retrieve_len (hdata (pipe_http b n r)) = n"
  "response_content_len (hdata (pipe_http b n r)) = n" "response_buf_len (hdata (pipe_http b n r)) = 1100"
  "length (response_buf (hdata (pipe_http b n r))) = 1100" "net_handle (hc (pipe_http b n r))" "wd (pipe_http b n r) = (0, r)"
  "(pipe_http b n r)\<lparr>wd := (0, r')\<rparr> = pipe_http b n r'"
  by (simp_all add: pipe_http_def)

text \<open>Five bytes outstanding, delivered in pieces of two.\<close>

lemma http_recv_next_witness:
  "\<exists>rc s'. qcloud_http_recv_data (pipe_web 2) 100 (pipe_http True 5 [1, 2, 3, 4, 5, 6]) = Some (rc, s') \<and> rc \<le> 0 \<and>
    (rc = 0 \<longrightarrow> received snd (portion 5 (pipe_http True 5 [1, 2, 3, 4, 5, 6])) [1, 2, 3, 4, 5, 6] (pipe_http True 5 [1, 2, 3, 4, 5, 6]) s' \<and>
       (is_more (hdata s') \<longleftrightarrow> int 5 \<ge> response_buf_len (hdata (pipe_http True 5 [1, 2, 3, 4, 5, 6])) - 1))"
  using http_recv_next [OF pipe_web_stream pipe_web_steady, of 5 "pipe_http True 5 [1, 2, 3, 4, 5, 6]" 2 100]
  by (simp add: awaiting_def)

lemma example_head:
  "head_ok (cstr ''HTTP/1.1 200 OK'') (cstr ''A: b'' @ [CR, LF]) 3 [] 200"
proof -
  have n: "(3 :: nat) < 2 ^ 31" by simp
  show ?thesis unfolding head_ok_def by (intro conjI; (rule n | code_simp))
qed

text \<open>A response with three bytes of content.\<close>

lemma http_first_response_witness:
  "\<exists>rc s'. qcloud_http_recv_data (pipe_web 1024) 100
       (pipe_http False 0 (response_head (cstr ''HTTP/1.1 200 OK'') (cstr ''A: b'' @ [CR, LF]) 3 [] @ [7, 8, 9])) = Some (rc, s') \<and> rc \<le> 0 \<and>
     (rc = 0 \<longrightarrow> response_code (hc s') = 200 \<and> \<not> is_more (hdata s') \<and> take 3 (response_buf (hdata s')) = [7, 8, 9])"
proof -
  let ?h = "response_head (cstr ''HTTP/1.1 200 OK'') (cstr ''A: b'' @ [CR, LF]) 3 []"
  let ?s = "pipe_http False 0 (?h @ [7, 8, 9])"
  have first: "length ?h \<le> length (snd (fst (web_read (pipe_web 1024) 1024 t w)))" if "snd w = snd (wd ?s)" for t w
    using that by (cases w) (simp add: pipe_web_def response_head_def response_headers_def dec.simps cstr_def)
  have p: "portion 3 ?s = 3" by (simp add: portion_def)
  obtain rc s' where r: "qcloud_http_recv_data (pipe_web 1024) 100 ?s = Some (rc, s')" "rc \<le> 0"
      "rc = 0 \<Longrightarrow> received snd (portion 3 ?s) [7, 8, 9] (parsed_state 200 3 ?s) s' \<and> response_code (hc s') = 200 \<and> \<not> is_more (hdata s')"
    using http_first_response [OF pipe_web_stream pipe_web_steady example_head _ _ first, where content = "[7, 8, 9]" and ms = 100 and s = ?s]
    by auto
  have "take 3 (response_buf (hdata s')) = [7, 8, 9]" if "rc = 0"
  proof -
    have "take 4 (response_buf (hdata s')) = [7, 8, 9] @ [0]" using r(3) [OF that] unfolding p by (simp add: received_def)
    then have "take 3 (take 4 (response_buf (hdata s'))) = [7, 8, 9]" by (simp only: take_append) simp
    then show ?thesis by simp
  qed
  then show ?thesis using r by auto
qed

lemma http_base64_agrees_witness: "http_client_base64enc (cstr ''me:pw'') = b64 (cstr ''me:pw'')"
  using http_base64_agrees [of "cstr ''me:pw''"] by (simp add: cstr_def) 

lemma http_parse_url_parts_witness:
  "http_client_parse_url (web_url (cstr ''http'') (cstr ''a.b'') (cstr ''/c'')) 8 HTTP_CLIENT_MAX_HOST_LEN HTTP_CLIENT_MAX_URL_LEN =
     Some (Inr (cstr ''http'', cstr ''a.b'', cstr ''/c''))"
  by (rule http_parse_url_parts) (code_simp)+

lemma http_request_exact_witness:
  "http_client_send_header (pipe_web 2) (web_url (cstr ''http'') (cstr ''a.b'') (cstr ''/c'')) HTTP_POST (pipe_http False 0 []) =
     Some (0, pipe_http False 0 [])"
proof -
  have p: "http_client_parse_url (web_url (cstr ''http'') (cstr ''a.b'') (cstr ''/c'')) 8 HTTP_CLIENT_MAX_HOST_LEN HTTP_CLIENT_MAX_URL_LEN =
     Some (Inr (cstr ''http'', cstr ''a.b'', cstr ''/c''))" by code_simp
  have c: "\<forall>c \<in> set (credentials (hc (pipe_http False 0 []))). c < 128" "length (credentials (hc (pipe_http False 0 []))) \<le> 129"
    by (code_simp)+
  have l: "length (request_text HTTP_POST (cstr ''/c'') (cstr ''a.b'') (hc (pipe_http False 0 [])) (hdata (pipe_http False 0 []))) < HTTP_CLIENT_SEND_BUF_SIZE"
    by code_simp
  show ?thesis
    using http_request_exact [OF p _ c, of HTTP_POST "pipe_web 2"] l by (simp add: pipe_web_def request_text_def)
qed

end
