(* ===== verification/Ota_Session.thy ===== *)
theory Ota_Session
  imports Ota_Client Http_Request
begin

text \<open>
  Firmware updates as a whole: what a sequence of calls keeps, which bytes a fetch hands out, and what the check of the firmware says about
  them. The messages that arrive during a call of the MQTT client are part of the calls.
\<close>

section \<open>Signals during a download\<close>

text \<open>What a message must not change while a file is fetched.\<close>

definition same_download :: "'w ota \<Rightarrow> 'w ota \<Rightarrow> bool" where
  "same_download s s' \<longleftrightarrow>
     ota_state s' = ota_state s \<and> size_last_fetched s' = size_last_fetched s \<and> size_fetched s' = size_fetched s \<and> size_file s' = size_file s \<and>
     purl s' = purl s \<and> ota_version s' = ota_version s \<and> md5sum s' = md5sum s \<and> ota_md5 s' = ota_md5 s \<and> ch_fetch s' = ch_fetch s"

lemma same_download_refl [simp]: "same_download s s"
  by (simp add: same_download_def)

lemma same_download_trans: "same_download a b \<Longrightarrow> same_download b c \<Longrightarrow> same_download a c"
  by (simp add: same_download_def)

lemma same_download_upd [simp]:
  "same_download a (s\<lparr>ota_err := e\<rparr>) \<longleftrightarrow> same_download a s"
  "same_download a (s\<lparr>om := m\<rparr>) \<longleftrightarrow> same_download a s"
  "same_download a (s\<lparr>report_timer := t\<rparr>) \<longleftrightarrow> same_download a s"
  "same_download a (s\<lparr>other_events := es\<rparr>) \<longleftrightarrow> same_download a s"
  "same_download a (s\<lparr>ch_signal := c\<rparr>) \<longleftrightarrow> same_download a s"
  "same_download (s\<lparr>om := m\<rparr>) b \<longleftrightarrow> same_download s b"
  "same_download (s\<lparr>other_events := es\<rparr>) b \<longleftrightarrow> same_download s b"
  by (simp_all add: same_download_def)

definition busy :: "'w ota \<Rightarrow> bool" where
  "busy s \<longleftrightarrow> state_code (ota_state s) \<ge> state_code IOT_OTAS_FETCHING"

lemma busy_same: "same_download s s' \<Longrightarrow> busy s' = busy s"
  by (simp add: same_download_def busy_def)

lemma busy_om [simp]: "busy (s\<lparr>om := m\<rparr>) = busy s" "busy (s\<lparr>other_events := es\<rparr>) = busy s"
  by (simp_all add: busy_def)

lemma ota_event_callback_same: "ota_event_callback type s = Some s' \<Longrightarrow> same_download s s'"
  by (auto simp: ota_event_callback_def set_topic_ready_def split: Option.bind_splits MQTTEventType.splits)

lemma upgrade_callback_busy: "busy s \<Longrightarrow> upgrade_callback H message s = Some s' \<Longrightarrow> s' = s"
  by (auto simp: upgrade_callback_def ota_callback_def busy_def split: Option.bind_splits if_splits)

lemma ota_dispatch_busy:
  "busy s \<Longrightarrow> ota_dispatch H es s = Some s' \<Longrightarrow> same_download s s'"
proof (induction es arbitrary: s)
  case Nil
  then show ?case by simp
next
  case (Cons e es)
  show ?case
  proof (cases e)
    case (On_Message f message ud)
    then show ?thesis using Cons.prems by (auto split: if_splits Option.bind_splits dest!: Cons.IH [rotated] upgrade_callback_busy [rotated])
  next
    case (On_Sub_Event f type ud)
    show ?thesis
    proof (cases "f = ota_event_cb")
      case True
      then obtain s1 where s1: "ota_event_callback type s = Some s1" "ota_dispatch H es s1 = Some s'"
        using On_Sub_Event Cons.prems(2) by (auto split: Option.bind_splits)
      note same = ota_event_callback_same [OF s1(1)]
      then have "busy s1" using Cons.prems(1) busy_same by blast
      from same_download_trans [OF same Cons.IH [OF this s1(2)]] show ?thesis .
    next
      case False
      then show ?thesis using On_Sub_Event Cons.prems by (auto dest!: Cons.IH [rotated])
    qed
  next
    case (On_Event type msg)
    then show ?thesis using Cons.prems by (auto dest!: Cons.IH [rotated])
  qed
qed

lemma ota_mqtt_busy: "busy s \<Longrightarrow> ota_mqtt H operation s = Some (r, s') \<Longrightarrow> same_download s s'"
  by (auto simp: ota_mqtt_def split: Option.bind_splits dest!: ota_dispatch_busy [rotated])

lemma otamqtt_publish_busy: "busy s \<Longrightarrow> otamqtt_publish H t q msg s = Some (r, s') \<Longrightarrow> same_download s s'"
  by (auto simp: otamqtt_publish_def split: Option.bind_splits option.splits dest!: ota_mqtt_busy [rotated])

lemma ota_malloc_same: "ota_malloc H s = (ok, s') \<Longrightarrow> same_download s s'"
  by (auto simp: ota_malloc_def split: prod.splits)

lemma report_progress_busy: "busy s \<Longrightarrow> IOT_OTA_ReportProgress H p t s = Some (r, s') \<Longrightarrow> same_download s s'"
  using ota_malloc_same [of H s]
  by (auto simp: IOT_OTA_ReportProgress_def qcloud_osc_report_progress_def Let_def busy_same
      split: if_splits prod.splits sum.splits Option.bind_splits
      dest!: otamqtt_publish_busy [rotated] intro: same_download_trans)

lemma report_result_busy:
  "busy s \<Longrightarrow> \<not> final_report t \<Longrightarrow> IOT_OTA_ReportUpgradeResult H v t s = Some (r, s') \<Longrightarrow> same_download s s'"
  using ota_malloc_same [of H s]
  by (auto simp: IOT_OTA_ReportUpgradeResult_def qcloud_osc_report_upgrade_result_def Let_def busy_same
      split: if_splits prod.splits sum.splits Option.bind_splits option.splits
      dest!: otamqtt_publish_busy [rotated] intro: same_download_trans)

lemma ota_countdown_same [simp]: "same_download s (ota_countdown H t s')  = same_download s s'"
  by (simp add: ota_countdown_def split: prod.splits)

lemma ota_expired_same: "ota_expired H s = (e, s') \<Longrightarrow> same_download s s'"
  by (auto simp: ota_expired_def split: prod.splits)

lemma report_begin_busy: "busy s \<Longrightarrow> report_begin H s = Some s' \<Longrightarrow> same_download s s'"
  by (auto simp: report_begin_def split: if_splits Option.bind_splits dest!: report_progress_busy [rotated])

lemma report_percent_busy: "busy s \<Longrightarrow> report_percent H p s = Some s' \<Longrightarrow> same_download s s'"
  using ota_expired_same [of H s]
  by (auto simp: report_percent_def busy_same split: if_splits Option.bind_splits prod.splits
      dest!: report_progress_busy [rotated] intro: same_download_trans)

section \<open>A fetch\<close>

lemma recv_data_rc: "qcloud_http_recv_data W ms t = Some (rc, t') \<Longrightarrow> rc \<le> 0"
  by (auto simp: qcloud_http_recv_data_def Let_def split: prod.splits if_splits Option.bind_splits)

lemma ofc_fetch_cases:
  assumes "qcloud_ofc_fetch W h buf n t s = Some ((ret, h'), s')"
  obtains w where "s' = s\<lparr>om := (om s)\<lparr>env := w\<rparr>\<rparr>" "ret < 2 ^ 31"
proof -
  have neg: "rc \<le> 0 \<Longrightarrow> rc \<noteq> 0 \<Longrightarrow> fetch_error rc < 2 ^ 31" for rc
    by (simp add: fetch_error_def)
  have "\<exists>w. s' = s\<lparr>om := (om s)\<lparr>env := w\<rparr>\<rparr> \<and> ret < 2 ^ 31"
    by (use assms neg in \<open>auto simp: qcloud_ofc_fetch_def with_http_def Let_def int32_def
        split: Option.bind_splits if_splits prod.splits dest!: recv_data_rc\<close>)
  then show thesis using that by blast
qed

lemma fetch_failed_keeps:
  assumes "fetch_failed H ret s = Some s'"
  shows "same_download (s\<lparr>ota_state := IOT_OTAS_FETCHED\<rparr>) s'"
proof -
  define s1 where "s1 = s\<lparr>ota_state := IOT_OTAS_FETCHED, ota_err := IOT_OTA_ERR_FETCH_FAILED\<rparr>"
  have b: "busy s1" by (simp add: s1_def busy_def state_code_def)
  have "same_download s1 s'"
    using assms
    by (auto simp: fetch_failed_def Let_def final_report_def simp flip: s1_def split: if_splits Option.bind_splits option.splits
        dest!: report_result_busy [OF b, rotated])
  then show ?thesis by (simp add: s1_def same_download_def)
qed

text \<open>A fetch that succeeds: the digest is fed with what is handed out, and the sizes follow.\<close>

lemma fetch_yield_success:
  assumes run: "IOT_OTA_FetchYield H W buf n t s = Some ((ret, buf'), s')" and ret: "0 \<le> ret"
  obtains ctx ctx' where "ota_md5 s = Some ctx" "utils_md5_update ctx (take (nat ret) buf') = Some ctx'" "ota_md5 s' = Some ctx'"
    "nat ret \<le> length buf'" "ret < 2 ^ 31" "size_fetched s' = size_fetched s + word_of_int ret" "size_file s' = size_file s"
    "ota_state s' = (if size_fetched s' \<ge> size_file s' then IOT_OTAS_FETCHED else IOT_OTAS_FETCHING)"
    "md5sum s' = md5sum s" "purl s' = purl s" "ota_version s' = ota_version s" "ota_state s = IOT_OTAS_FETCHING"
proof -
  have st: "n \<noteq> 0" "ota_state s = IOT_OTAS_FETCHING" using run ret by (auto simp: IOT_OTA_FetchYield_def split: if_splits)
  obtain h h1 s1 where h: "ch_fetch s = Some h" "qcloud_ofc_fetch W h buf n t s = Some ((ret, h1), s1)"
    using run st ret by (auto simp: IOT_OTA_FetchYield_def Let_def split: Option.bind_splits if_splits)
  obtain w where s1: "s1 = s\<lparr>om := (om s)\<lparr>env := w\<rparr>\<rparr>" "ret < 2 ^ 31" by (rule ofc_fetch_cases [OF h(2)]) (rule that)
  define a where "a = s1\<lparr>ch_fetch := Some h1\<rparr>"
  obtain b where b: "report_begin H a = Some b"
    using run st ret h by (auto simp: IOT_OTA_FetchYield_def Let_def a_def split: Option.bind_splits if_splits)
  define c where "c = b\<lparr>size_last_fetched := word_of_int ret, size_fetched := size_fetched b + word_of_int ret\<rparr>"
  obtain d where d: "report_percent H ((size_fetched c * 100) div size_file c) c = Some d"
    using run st ret h b by (auto simp: IOT_OTA_FetchYield_def Let_def a_def c_def split: Option.bind_splits if_splits)
  have ab: "same_download a b"
    by (rule report_begin_busy [OF _ b]) (simp add: a_def s1 busy_def st(2))
  have cd: "same_download c d"
    by (rule report_percent_busy [OF _ d]) (use ab st(2) in \<open>simp add: c_def busy_def same_download_def a_def s1\<close>)
  define e where "e = (if size_fetched d \<ge> size_file d then d\<lparr>ota_state := IOT_OTAS_FETCHED\<rparr> else d)"
  have fin: "buf' = response_buf (of_data h1)" "rd_bytes buf' 0 (nat ret) \<bind> (\<lambda>bs. IOT_OTA_UpdateClientMd5 bs e) = Some s'"
    using run st ret h b d by (auto simp: IOT_OTA_FetchYield_def Let_def e_def a_def [symmetric] c_def [symmetric] split: Option.bind_splits if_splits)
  then obtain ctx ctx' where "nat ret \<le> length buf'" "ota_md5 e = Some ctx" "utils_md5_update ctx (take (nat ret) buf') = Some ctx'"
    "s' = e\<lparr>ota_md5 := Some ctx'\<rparr>"
    by (auto simp: rd_bytes_def IOT_OTA_UpdateClientMd5_def split: if_splits Option.bind_splits)
  moreover have "ota_md5 e = ota_md5 s" "size_fetched e = size_fetched s + word_of_int ret" "size_file e = size_file s" "md5sum e = md5sum s"
    "purl e = purl s" "ota_version e = ota_version s"
    "ota_state e = (if size_fetched e \<ge> size_file e then IOT_OTAS_FETCHED else IOT_OTAS_FETCHING)"
    using ab cd st(2) by (simp_all add: e_def c_def a_def s1 same_download_def)
  ultimately show thesis using s1(2) st(2) by (intro that [of ctx ctx']) simp_all
qed

section \<open>A download\<close>

text \<open>
  The calls between the start of a download and its end, and the bytes they hand out: fetches that succeed, fetches that fail,
  yields of the MQTT client, whose messages reach the module, and reports of the application.
\<close>

inductive downloads :: "'w hal \<Rightarrow> 'w web \<Rightarrow> 'w ota \<Rightarrow> byte list \<Rightarrow> 'w ota \<Rightarrow> bool" for H W s where
  start: "downloads H W s [] s"
| fetched: "\<lbrakk>downloads H W s got s1; IOT_OTA_FetchYield H W buf n t s1 = Some ((ret, buf'), s2); 0 \<le> ret\<rbrakk>
    \<Longrightarrow> downloads H W s (got @ take (nat ret) buf') s2"
| failed: "\<lbrakk>downloads H W s got s1; IOT_OTA_FetchYield H W buf n t s1 = Some ((ret, buf'), s2); ret < 0\<rbrakk> \<Longrightarrow> downloads H W s got s2"
| messages: "\<lbrakk>downloads H W s got s1; ota_mqtt H (IOT_MQTT_Yield H ms) s1 = Some (rc, s2)\<rbrakk> \<Longrightarrow> downloads H W s got s2"
| reported: "\<lbrakk>downloads H W s got s1; IOT_OTA_ReportProgress H p r s1 = Some (rc, s2)\<rbrakk> \<Longrightarrow> downloads H W s got s2"

lemma fetch_yield_failure:
  assumes run: "IOT_OTA_FetchYield H W buf n t s = Some ((ret, buf'), s')" and ret: "ret < 0" and busy: "busy s"
  shows "busy s'" "ota_md5 s' = ota_md5 s" "size_fetched s' = size_fetched s" "md5sum s' = md5sum s" "purl s' = purl s" "ota_version s' = ota_version s"
    "size_file s' = size_file s" "ota_state s' = ota_state s \<or> ota_state s' = IOT_OTAS_FETCHED"
proof -
  consider "same_download s s'" | h h1 s1 where "qcloud_ofc_fetch W h buf n t s = Some ((ret, h1), s1)" "fetch_failed H ret (s1\<lparr>ch_fetch := Some h1\<rparr>) = Some s'"
    using run ret by (auto simp: IOT_OTA_FetchYield_def Let_def split: Option.bind_splits if_splits)
  then have "busy s' \<and> ota_md5 s' = ota_md5 s \<and> size_fetched s' = size_fetched s \<and> md5sum s' = md5sum s \<and> purl s' = purl s \<and>
      ota_version s' = ota_version s \<and> size_file s' = size_file s \<and> (ota_state s' = ota_state s \<or> ota_state s' = IOT_OTAS_FETCHED)"
  proof cases
    case 1
    then show ?thesis using busy busy_same by (auto simp: same_download_def)
  next
    case 2
    obtain w where s1: "s1 = s\<lparr>om := (om s)\<lparr>env := w\<rparr>\<rparr>" by (rule ofc_fetch_cases [OF 2(1)]) (rule that)
    have "same_download (s1\<lparr>ch_fetch := Some h1, ota_state := IOT_OTAS_FETCHED\<rparr>) s'" using fetch_failed_keeps [OF 2(2)] .
    then show ?thesis by (simp add: s1 same_download_def busy_def state_code_def)
  qed
  then show "busy s'" "ota_md5 s' = ota_md5 s" "size_fetched s' = size_fetched s" "md5sum s' = md5sum s" "purl s' = purl s" "ota_version s' = ota_version s"
    "size_file s' = size_file s" "ota_state s' = ota_state s \<or> ota_state s' = IOT_OTAS_FETCHED"
    by blast+
qed

text \<open>The state of a download of which \<open>m\<close> has been handed out.\<close>

definition hashed :: "byte list \<Rightarrow> byte list \<Rightarrow> 'w ota \<Rightarrow> bool" where
  "hashed md m s \<longleftrightarrow> busy s \<and> md5sum s = md \<and> size_fetched s = of_nat (length m) \<and> (\<exists>ctx. ota_md5 s = Some ctx \<and> md5.holds ctx m)"

lemma hashed_same: "hashed md m s \<Longrightarrow> same_download s s' \<Longrightarrow> hashed md m s'"
  using busy_same [of s s'] by (simp add: hashed_def same_download_def)

lemma downloads_hashed:
  assumes "downloads H W s got s'" and "hashed md m s"
  shows "hashed md (m @ got) s'"
  using assms
proof (induction rule: downloads.induct)
  case start
  then show ?case by simp
next
  case (fetched got s1 buf n t ret buf' s2)
  then have h: "hashed md (m @ got) s1" by simp
  then obtain c where c: "ota_md5 s1 = Some c" "md5.holds c (m @ got)" by (auto simp: hashed_def)
  obtain c2 where y: "utils_md5_update c (take (nat ret) buf') = Some c2" "ota_md5 s2 = Some c2" "nat ret \<le> length buf'" "ret < 2 ^ 31"
      "size_fetched s2 = size_fetched s1 + word_of_int ret" "md5sum s2 = md5sum s1"
      "ota_state s2 = (if size_fetched s2 \<ge> size_file s2 then IOT_OTAS_FETCHED else IOT_OTAS_FETCHING)"
    by (rule fetch_yield_success [OF fetched.hyps(2,3)]) (use c(1) in \<open>auto intro: that\<close>)
  have len: "length (take (nat ret) buf') = nat ret" "nat ret < 2 ^ 32" using y(3,4) by simp_all
  have "md5.holds c2 ((m @ got) @ take (nat ret) buf')"
    using md5.update_holds [OF c(2), of "take (nat ret) buf'"] len y(1) by (auto simp: utils_md5_update_def)
  moreover have "word_of_int ret = (of_nat (nat ret) :: u32)"
    using fetched.hyps(3) by (simp flip: word_of_int_nat) 
  ultimately show ?case
    using h y(2,5,6,7) len(1) by (simp add: hashed_def busy_def state_code_def)
next
  case (failed got s1 buf n t ret buf' s2)
  then have h: "hashed md (m @ got) s1" by simp
  then have "busy s1" by (simp add: hashed_def)
  from fetch_yield_failure [OF failed.hyps(2,3) this] h show ?case by (simp add: hashed_def)
next
  case (messages got s1 ms rc s2)
  then have h: "hashed md (m @ got) s1" by simp
  then have "busy s1" by (simp add: hashed_def)
  then show ?case using hashed_same [OF h] ota_mqtt_busy [OF _ messages.hyps(2)] by blast
next
  case (reported got s1 p r rc s2)
  then have h: "hashed md (m @ got) s1" by simp
  then have "busy s1" by (simp add: hashed_def)
  then show ?case using hashed_same [OF h] report_progress_busy [OF _ reported.hyps(2)] by blast
qed

lemma ofc_deinit_keeps:
  "qcloud_ofc_deinit W s = Some s' \<Longrightarrow> \<exists>w. s' = s\<lparr>ch_fetch := None, om := (om s)\<lparr>env := w\<rparr>\<rparr>"
  by (cases "ch_fetch s"; rule exI [of _ "env (om s')"])
    (auto simp: qcloud_ofc_deinit_def with_http_def split: if_splits)

lemma start_download_hashed:
  assumes run: "IOT_OTA_StartDownload H W 0 sz s = Some (QCLOUD_RET_SUCCESS, s')" and st: "ota_state s = IOT_OTAS_FETCHING"
  shows "hashed (md5sum s) [] s'" "ota_state s' = IOT_OTAS_FETCHING" "size_file s' = size_file s"
proof -
  define a where "a = qcloud_otalib_md5_init H (s\<lparr>size_fetched := 0\<rparr>)"
  have a: "ota_md5 a \<noteq> None"
    using run by (auto simp: IOT_OTA_StartDownload_def IOT_OTA_ResetClientMD5_def Let_def simp flip: a_def split: if_splits)
  then have a': "ota_md5 a = Some utils_md5_starts" "md5sum a = md5sum s" "size_fetched a = 0" "size_file a = size_file s" "ota_state a = ota_state s"
    by (auto simp: a_def qcloud_otalib_md5_init_def ota_malloc_def Let_def split: prod.splits if_splits)
  obtain b f c h rc h' d where b: "qcloud_ofc_deinit W a = Some b" "ofc_Init H (purl b) 0 sz b = (f, c)" "f = Some h"
      "qcloud_ofc_connect W h (c\<lparr>ch_fetch := f\<rparr>) = Some ((rc, h'), d)" "rc = QCLOUD_RET_SUCCESS" "s' = d\<lparr>ch_fetch := Some h'\<rparr>"
    using run a by (auto simp: IOT_OTA_StartDownload_def IOT_OTA_ResetClientMD5_def Let_def simp flip: a_def
        split: if_splits Option.bind_splits prod.splits option.splits)
  obtain w where w: "b = a\<lparr>ch_fetch := None, om := (om a)\<lparr>env := w\<rparr>\<rparr>" using ofc_deinit_keeps [OF b(1)] by blast
  obtain m where m: "c = b\<lparr>om := m\<rparr>" using b(2) by (auto simp: ofc_Init_def ota_malloc_def split: prod.splits)
  obtain w' where w': "d = c\<lparr>ch_fetch := f, om := (om c)\<lparr>env := w'\<rparr>\<rparr>"
    using b(4) by (auto simp: qcloud_ofc_connect_def with_http_def split: Option.bind_splits)
  show "hashed (md5sum s) [] s'" "ota_state s' = IOT_OTAS_FETCHING" "size_file s' = size_file s"
    using a' st by (simp_all add: b(6) w' m w hashed_def busy_def state_code_def md5.holds_start)
qed

text \<open>C9. The check of a firmware covers the whole download. After a download has been started at offset 0 and whatever fetches, failed fetches, reports of the progress (\<^verbatim>\<open>IOT_OTA_ReportProgress\<close>) and
  arriving messages have followed until it is over, \<^verbatim>\<open>IOT_OTA_Ioctl\<close> with \<^verbatim>\<open>IOT_OTAG_CHECK_FIRMWARE\<close> stores 1 exactly if the MD5 text
  that was announced before the download is the one of all bytes the fetches have handed out, in their order; and as many bytes are reported as fetched.
\<close>

theorem ota_check_covers_download:
  assumes start: "ota_state s0 = IOT_OTAS_FETCHING" "IOT_OTA_StartDownload H W 0 sz s0 = Some (QCLOUD_RET_SUCCESS, s1)"
    and download: "downloads H W s1 got s2" "ota_state s2 = IOT_OTAS_FETCHED"
  shows "((\<exists>s3. IOT_OTA_Ioctl H IOT_OTAG_CHECK_FIRMWARE True 4 s2 = Some ((0, Out_u32 1), s3)) \<longleftrightarrow>
      str_at (md5sum s0) 0 = Some (hex_string (md5_digest got))) \<and> size_fetched s2 = of_nat (length got)"
proof -
  have h: "hashed (md5sum s0) got s2"
    using downloads_hashed [OF download(1) start_download_hashed(1) [OF start(2,1)]] by simp
  then obtain c where c: "ota_md5 s2 = Some c" "md5.holds c got" by (auto simp: hashed_def)
  obtain c' where "md_finish utils_md5_process md5_msglen c = Some c'"
      "md_state c' = md_hash utils_md5_process md5_msglen (md_state utils_md5_starts) got"
    using md5.finish_hashed [OF c(2)] by blast
  then have "(\<exists>s3. IOT_OTA_Ioctl H IOT_OTAG_CHECK_FIRMWARE True 4 s2 = Some ((0, Out_u32 1), s3)) \<longleftrightarrow>
      str_at (md5sum s0) 0 = Some (hex_string (md5_digest got))"
    using c(1) download(2) h
    by (auto simp: IOT_OTA_Ioctl_def check_firmware_def Let_def state_code_def md5_digest_def hashed_def split: Option.bind_splits if_splits)
  then show ?thesis using h by (simp add: hashed_def)
qed

section \<open>The bytes of a fetch\<close>

text \<open>An open connection with \<open>n\<close> bytes of a response outstanding.\<close>

definition outstanding :: "nat \<Rightarrow> OTAHTTPStruct \<Rightarrow> bool" where
  "outstanding n h \<longleftrightarrow> net_handle (of_http h) \<and> is_more (of_data h) \<and> \<not> is_chunked (of_data h) \<and>
     retrieve_len (of_data h) = int n \<and> int n \<le> response_content_len (of_data h) \<and> response_content_len (of_data h) < 2 ^ 31"

lemma sint_small:
  assumes "unat (x :: u32) < 2 ^ 31"
  shows "sint x = int (unat x)"
proof -
  have n: "uint x < 2 ^ 31" using assms nat_less_iff [of "uint x" "2 ^ 31"] by simp
  have "sint x = uint x"
    unfolding sint_uint
  proof (rule signed_take_bit_int_eq_self)
    show "- (2 ^ (LENGTH(32) - Suc 0)) \<le> uint x" by (rule order_trans [of _ 0]) simp_all
  qed (use n in simp)
  then show ?thesis by simp
qed

lemma fetch_error_neg: "rc < 0 \<Longrightarrow> fetch_error rc < 0"
  by (simp add: fetch_error_def)

text \<open>C12. A fetch hands out the next bytes of the file. While \<open>n\<close> bytes of the response are outstanding, \<^verbatim>\<open>qcloud_ofc_fetch\<close> returns; a result that is not
  negative is \<open>min n (buf_len - 1)\<close>, and as many bytes of the stream, from where it stands, are at the front of the buffer. The
  stream stands behind them after the call, and as many bytes are no longer outstanding.
\<close>

theorem ota_fetch_next:
  assumes W: "web_stream W rest" "web_steady W time" and h: "outstanding n h"
    and buf: "0 < buf_len" "unat buf_len \<le> length buf" "unat buf_len < 2 ^ 31"
  shows "\<exists>ret h' s'. qcloud_ofc_fetch W h buf buf_len t s = Some ((ret, h'), s') \<and>
    (0 \<le> ret \<longrightarrow> nat ret = min n (unat buf_len - 1) \<and> take (nat ret) (response_buf (of_data h')) = take (nat ret) (rest (env (om s))) \<and>
       rest (env (om s')) = drop (nat ret) (rest (env (om s))) \<and> nat ret \<le> length (rest (env (om s))) \<and>
       (is_more (of_data h') \<and> net_handle (of_http h') \<longrightarrow> outstanding (n - nat ret) h'))"
proof -
  define d where "d = (of_data h)\<lparr>response_buf := buf, response_buf_len := sint buf_len\<rparr>"
  define x where "x = \<lparr>hc = of_http h, hdata = d, wd = env (om s)\<rparr>"
  obtain m where m: "unat buf_len = m" "sint buf_len = int m" using sint_small [OF buf(3)] by blast
  have pos: "0 < m" using buf(1) m(1) by (simp add: word_less_nat_alt)
  note len = m(2)
  then have x: "awaiting n x" "is_more (hdata x)" "net_handle (hc x)"
    using h buf(2) pos m unfolding x_def d_def outstanding_def awaiting_def by auto
  obtain rc x' where r: "qcloud_http_recv_data W (unat (t * 1000)) x = Some (rc, x')" "rc \<le> 0"
      "rc = 0 \<Longrightarrow> received rest (portion n x) (rest (wd x)) x x'"
    using recv_next [OF W x] by blast
  show ?thesis
  proof (cases "rc = 0")
    case False
    then have "qcloud_ofc_fetch W h buf buf_len t s = Some ((fetch_error rc, h\<lparr>of_http := hc x', of_data := hdata x'\<rparr>), s\<lparr>om := (om s)\<lparr>env := wd x'\<rparr>\<rparr>)"
      using r(1) h len by (simp add: qcloud_ofc_fetch_def with_http_def Let_def x_def d_def int32_def outstanding_def)
    moreover have "fetch_error rc < 0" using False r(2) by (intro fetch_error_neg) simp
    ultimately show ?thesis by fastforce
  next
    case True
    define k where "k = portion n x"
    have k: "k = min n (unat buf_len - 1)" by (simp add: k_def portion_def x_def d_def m)
    note rec = r(3) [OF True, folded k_def]
    have kn: "k \<le> n" using k by simp
    have "qcloud_ofc_fetch W h buf buf_len t s = Some ((int k, h\<lparr>of_http := hc x', of_data := hdata x'\<rparr>), s\<lparr>om := (om s)\<lparr>env := wd x'\<rparr>\<rparr>)"
      using r(1) h len rec True kn
      by (simp add: qcloud_ofc_fetch_def with_http_def Let_def x_def d_def int32_def outstanding_def received_def)
    moreover have "take k (response_buf (hdata x')) = take k (rest (env (om s)))"
      using rec by (auto simp: received_def x_def dest: arg_cong [where f = "take k"])
    moreover have "outstanding (n - k) (h\<lparr>of_http := hc x', of_data := hdata x'\<rparr>)" if "is_more (hdata x')" "net_handle (hc x')"
      using that rec h kn by (auto simp: outstanding_def received_def x_def d_def)
    ultimately show ?thesis using rec k by (auto simp: received_def x_def)
  qed
qed

section \<open>The announcement of a file\<close>

text \<open>
  The array of the MD5 text always ends with its NUL, so no operation that reads it leaves it; and while a file is fetched, its URL and its version are
  known.
\<close>

definition ota_ok :: "'w ota \<Rightarrow> bool" where
  "ota_ok s \<longleftrightarrow> length (md5sum s) = 33 \<and> md5sum s ! 32 = 0 \<and>
     (ota_state s = IOT_OTAS_FETCHING \<longrightarrow> purl s \<noteq> None \<and> ota_version s \<noteq> None)"


lemma ota_ok_upd [simp]:
  "ota_ok (s\<lparr>om := m\<rparr>) = ota_ok s" "ota_ok (s\<lparr>ota_err := e\<rparr>) = ota_ok s" "ota_ok (s\<lparr>ota_md5 := c\<rparr>) = ota_ok s"
  "ota_ok (s\<lparr>ch_fetch := h\<rparr>) = ota_ok s" "ota_ok (s\<lparr>ch_signal := g\<rparr>) = ota_ok s" "ota_ok (s\<lparr>other_events := es\<rparr>) = ota_ok s"
  "ota_ok (s\<lparr>size_fetched := n\<rparr>) = ota_ok s"
  by (simp_all add: ota_ok_def)




























section \<open>The interface\<close>


section \<open>An example\<close>

lemma retrieve_whole:
  assumes s: "awaiting n s" "int n < response_buf_len (hdata s) - 1" and data: "n \<le> length data"
  obtains s' where "http_client_retrieve_content W data n ms s = Some (0, s')"
proof -
  obtain timer w where c: "web_countdown_ms W ms s = (timer, s\<lparr>wd := w\<rparr>)" using web_countdown_ms_cases by metis
  define s1 where "s1 = hd_update (\<lambda>d. d\<lparr>is_more := True\<rparr>) (s\<lparr>wd := w\<rparr>)"
  have s1: "retrieve_len (hdata s1) = int n" "n < 2 ^ 31" "\<not> is_chunked (hdata s1)" "response_buf_len (hdata s1) = response_buf_len (hdata s)"
      "response_buf (hdata s1) = response_buf (hdata s)" "response_content_len (hdata s1) \<noteq> - 1"
    using s(1) by (simp_all add: s1_def awaiting_def)
  obtain s2 where s2: "set_response 0 (take n data @ [0]) s1 = Some s2"
    using set_response_fits [of 0 "take n data @ [0]" s1] s data s1 by (auto simp: awaiting_def)
  then have l2: "retrieve_len (hdata s2) = int n" "is_chunked (hdata s2) = is_chunked (hdata s1)" using s1(1) by (auto simp: set_response_Some)
  obtain s3 where s3: "take_response n s2 = Some s3" using take_response_fits [of s2 n] l2 s1(2) by auto
  then have c3: "\<not> is_chunked (hdata s3)" using l2 s1(3) by (auto simp: take_response_def split: Option.bind_splits)
  have u: "unat (of_nat n :: u32) = n" using s1(2) by (simp add: unat_of_nat_u32)
  have "retrieve_body W timer data n 0 (of_nat n) s1 = Some (Inr (data, n), s3)"
    using s2 s3 s data u s1(4) by (subst retrieve_body.simps) (simp add: Let_def rd_bytes_def)
  then have "retrieve_loop W timer data n 0 s1 = Some (0, hd_update (\<lambda>d. d\<lparr>is_more := False\<rparr>) s3)"
    using s1 c3 by (subst retrieve_loop.simps) simp
  then have "http_client_retrieve_content W data n ms s = Some (0, hd_update (\<lambda>d. d\<lparr>is_more := False\<rparr>) s3)"
    using c s1 by (simp add: http_client_retrieve_content_def Let_def s1_def)
  then show thesis by (rule that)
qed

lemma pipe_timers:
  "web_countdown_ms (pipe_web k) ms s = (fst (wd s) + 1000 * ms, s)"
  "web_left_ms (pipe_web k) timer s = ((timer - fst (wd s)) div 1000, s)"
  by (simp_all add: web_countdown_ms_def web_left_ms_def pipe_web_def split: prod.splits)

lemma pipe_recv_all:
  assumes "wd s = (t, r)" "r \<noteq> []" "length r \<le> 1024" "length buf = HTTP_CLIENT_CHUNK_SIZE"
  shows "http_client_recv (pipe_web 1024) buf 0 (int HTTP_CLIENT_CHUNK_SIZE - 1) ms s =
    Some ((0, length r, r @ drop (length r) buf), s\<lparr>wd := (t, [])\<rparr>)"
proof -
  have rd: "web_read (pipe_web 1024) 1024 l (t, r) = ((0, r), (t, []))" for l using assms(2,3) by (simp add: pipe_web_def)
  show ?thesis using assms rd by (simp add: http_client_recv_def pipe_timers Let_def wr_bytes_def)
qed

text \<open>A server that sends the whole of a small response at once.\<close>

lemma pipe_whole:
  assumes head: "head_ok line pre n post code" and wd: "wd s = (t, response_head line pre n post @ content)"
    and len: "length content = n" "length (response_head line pre n post) + n \<le> 1024"
    and s: "\<not> is_more (hdata s)" "net_handle (hc s)" "int n < response_buf_len (hdata s) - 1"
      "response_buf_len (hdata s) \<le> int (length (response_buf (hdata s)))"
  shows "\<exists>s'. qcloud_http_recv_data (pipe_web 1024) ms s = Some (0, s')"
proof -
  let ?r = "response_head line pre n post @ content"
  let ?W = "pipe_web 1024"
  define s1 where "s1 = hd_update (\<lambda>d. d\<lparr>is_more := True\<rparr>) s"
  define s2 where "s2 = s1\<lparr>wd := (t, [])\<rparr>"
  have r: "?r \<noteq> []" "length ?r \<le> 1024" "length ?r = length (response_head line pre n post) + n" "0 < length ?r" using len by (simp_all add: response_head_def)
  let ?buf = "replicate HTTP_CLIENT_CHUNK_SIZE (0 :: byte)"
  have recv: "http_client_recv ?W ?buf 0 (int HTTP_CLIENT_CHUNK_SIZE - 1) ms s1 = Some ((0, length ?r, ?r @ drop (length ?r) ?buf), s2)" for ms
    unfolding s2_def by (rule pipe_recv_all) (use wd r in \<open>simp_all add: s1_def\<close>)
  define data where "data = response_head line pre n post @ content @ [0] @ replicate (1024 - length ?r) (0 :: byte)"
  have w: "wr_bytes (?r @ drop (length ?r) ?buf) (length ?r) [0] = Some data"
    using r by (simp add: wr_bytes_def data_def)
  obtain data' ms' w' where p: "length data' = length data"
      "http_client_response_parse ?W data (length ?r) ((1000 * ms) div 1000) s2 = http_client_retrieve_content ?W data' n ms' (parsed_state code n (s2\<lparr>wd := w'\<rparr>))"
    using response_parse_head [OF head data_def, where len = "length ?r" and W = ?W and ms = "(1000 * ms) div 1000" and s = s2] len(1) r(3) that
    by simp metis
  have aw: "awaiting n (parsed_state code n (s2\<lparr>wd := w'\<rparr>))"
    using head s by (simp add: awaiting_def parsed_state_def head_ok_def s2_def s1_def)
  obtain s' where s': "http_client_retrieve_content ?W data' n ms' (parsed_state code n (s2\<lparr>wd := w'\<rparr>)) = Some (0, s')"
    by (rule retrieve_whole [OF aw, of data' ?W ms']) (use p(1) r s(3) in \<open>simp_all add: parsed_state_def s2_def s1_def data_def that\<close>)
  have set: "http_client_recv_response ?W ms s = Some (0, s')"
    using s(1,2) wd recv w r(4) p(2) s' unfolding http_client_recv_response_def
    by (simp add: pipe_timers Let_def flip: s1_def) (simp add: s2_def s1_def)
  show ?thesis using set wd s(3) by (simp add: qcloud_http_recv_data_def pipe_timers Let_def)
qed

text \<open>A platform without an MQTT connection, on the world of the server, and a device a file has been announced to.\<close>

definition offline_hal :: "(nat \<times> byte list) hal" where
  "offline_hal = \<lparr>gettimeofday = (\<lambda>w. (fst w, w)), net_read = (\<lambda>n t w. ((QCLOUD_ERR_TCP_READ_FAIL, []), w)),
     net_write = (\<lambda>d t w. ((QCLOUD_ERR_FAILURE, 0), w)), net_connect = (\<lambda>w. (QCLOUD_ERR_FAILURE, w)),
     net_disconnect = (\<lambda>w. w), hal_malloc = (\<lambda>w. (True, w)), c_srand = (\<lambda>n w. w), c_rand = (\<lambda>w. (0, w)),
     hal_sleep = (\<lambda>n w. w)\<rparr>"

definition announced :: "byte list \<Rightarrow> byte list \<Rightarrow> (nat \<times> byte list) ota" where
  "announced sent md = (zero_ota \<lparr>cl = zero_client, env = (0, sent), events = []\<rparr>)
     \<lparr>ota_state := IOT_OTAS_FETCHING, purl := Some (web_url (cstr ''http'') (cstr ''a.b'') (cstr ''/c'')), ota_version := Some (cstr ''2''),
      md5sum := md, size_file := 3\<rparr>"

abbreviation example_response :: "byte list" where
  "example_response \<equiv> response_head (cstr ''HTTP/1.1 200 OK'') (cstr ''A: b'' @ [CR, LF]) 3 [] @ [7, 8, 9]"

declare get_info_loop.simps [code]

lemma example_start:
  obtains s h where "IOT_OTA_StartDownload offline_hal (pipe_web 1024) 0 3 (announced example_response md) = Some (0, s)"
    "ch_fetch s = Some h" "\<not> is_more (of_data h)" "net_handle (of_http h)" "response_content_len (of_data h) = 0" "retrieve_len (of_data h) = 0"
    "env (om s) = (0, example_response)" "is_connected (cl (om s)) = 0"
proof -
  have "map_option (\<lambda>(rc, s). (rc, map_option (\<lambda>h. (is_more (of_data h), net_handle (of_http h), response_content_len (of_data h), retrieve_len (of_data h))) (ch_fetch s),
      env (om s) = (0, example_response), is_connected (cl (om s))))
      (IOT_OTA_StartDownload offline_hal (pipe_web 1024) 0 3 (announced example_response md)) = Some (0, Some (False, True, 0, 0), True, 0)"
    by code_simp
  then show thesis using that by auto
qed

lemma offline_malloc: "ota_malloc offline_hal s = (True, s)"
  by (simp add: ota_malloc_def HAL_Malloc_def offline_hal_def)

definition offline :: "'w ota \<Rightarrow> bool" where
  "offline s \<longleftrightarrow> is_connected (cl (om s)) = 0"

lemma offline_progress:
  assumes "offline s"
  obtains r s' where "IOT_OTA_ReportProgress offline_hal p t s = Some (r, s')" "offline s'"
proof -
  have pub: "\<exists>r s'. otamqtt_publish H ty q msg s = Some (r, s') \<and> offline s'" for H ty q msg
    using assms by (auto simp: otamqtt_publish_def ota_mqtt_def qcloud_iot_mqtt_publish_def get_client_conn_state_def offline_def
        split: option.splits)
  have "\<exists>r s'. IOT_OTA_ReportProgress offline_hal p t s = Some (r, s') \<and> offline s'"
  proof (cases "qcloud_otalib_gen_report_msg 256 (ota_version s) p t")
    case (Inl rc)
    then show ?thesis using assms by (simp add: IOT_OTA_ReportProgress_def offline_malloc offline_def)
  next
    case (Inr msg)
    obtain r s' where "otamqtt_publish offline_hal (cstr ''report'') QOS0 msg s = Some (r, s')" "offline s'" using pub by blast
    then show ?thesis
      using assms Inr by (auto simp: IOT_OTA_ReportProgress_def offline_malloc qcloud_osc_report_progress_def offline_def)
  qed
  then show thesis using that by blast
qed

lemma offline_countdown: "offline (ota_countdown offline_hal n s) = offline s"
  by (simp add: ota_countdown_def countdown_def now_def offline_hal_def offline_def)

lemma offline_begin: 
  assumes "offline s"
  obtains s' where "report_begin offline_hal s = Some s'" "offline s'"
proof -
  obtain r t where "IOT_OTA_ReportProgress offline_hal 0 IOT_OTAR_DOWNLOAD_BEGIN s = Some (r, t)" "offline t"
    by (rule offline_progress [OF assms]) (rule that)
  then show thesis using that [of s] that [of "ota_countdown offline_hal 1 t"] assms
    by (cases "size_fetched s = 0") (simp_all add: report_begin_def offline_countdown)
qed

lemma offline_full:
  assumes "offline s"
  obtains s' where "report_percent offline_hal 100 s = Some s'"
proof -
  obtain r t where "IOT_OTA_ReportProgress offline_hal (sint (100 :: u32)) IOT_OTAR_DOWNLOADING s = Some (r, t)"
    by (rule offline_progress [OF assms]) (rule that)
  then show thesis using that by (auto simp: report_percent_def)
qed

text \<open>The only fetch of the example brings the whole file.\<close>

lemma example_fetch:
  assumes s: "ch_fetch s = Some h" "\<not> is_more (of_data h)" "net_handle (of_http h)" "response_content_len (of_data h) = 0" "retrieve_len (of_data h) = 0"
    "env (om s) = (0, example_response)" "is_connected (cl (om s)) = 0" "ota_state s = IOT_OTAS_FETCHING" "size_fetched s = 0" "size_file s = 3"
    "ota_md5 s = Some ctx" "md5.holds ctx []"
  obtains s' buf' where "IOT_OTA_FetchYield offline_hal (pipe_web 1024) (replicate 1100 0) 1100 5 s = Some ((3, buf'), s')"
    "take 3 buf' = [7, 8, 9]" "ota_state s' = IOT_OTAS_FETCHED"
proof -
  let ?buf = "replicate 1100 0 :: byte list"
  define x where "x = \<lparr>hc = of_http h, hdata = (of_data h)\<lparr>response_buf := ?buf, response_buf_len := 1100\<rparr>, wd = (0 :: nat, example_response)\<rparr>"
  have l: "length example_response \<le> 1024" "length (response_head (cstr ''HTTP/1.1 200 OK'') (cstr ''A: b'' @ [CR, LF]) 3 []) + 3 \<le> 1024"
    by code_simp+
  obtain x' where x': "qcloud_http_recv_data (pipe_web 1024) 5000 x = Some (0, x')"
    using pipe_whole [OF example_head, of x 0 "[7, 8, 9]" 5000] l s by (auto simp: x_def)
  have first: "length (response_head (cstr ''HTTP/1.1 200 OK'') (cstr ''A: b'' @ [CR, LF]) 3 []) \<le> length (snd (fst (web_read (pipe_web 1024) 1024 t w)))"
    if "snd w = snd (wd x)" for t w
    using that l by (cases w) (simp add: pipe_web_def x_def)
  have rec: "received snd (portion 3 x) [7, 8, 9] (parsed_state 200 3 x) x'"
    using first_response [OF pipe_web_stream pipe_web_steady example_head _ _ first, where content = "[7, 8, 9]" and ms = 5000 and s = x] s x'
    by (auto simp: x_def)
  have p: "portion 3 x = 3" by (simp add: portion_def x_def)
  define h' where "h' = h\<lparr>of_http := hc x', of_data := hdata x'\<rparr>"
  define t where "t = s\<lparr>om := (om s)\<lparr>env := wd x'\<rparr>, ch_fetch := Some h'\<rparr>"
  have off: "offline t" "size_fetched t = 0" "size_file t = 3" "ota_state t = IOT_OTAS_FETCHING" "ota_md5 t = Some ctx"
    using s by (simp_all add: t_def offline_def)
  have fetch: "qcloud_ofc_fetch (pipe_web 1024) h ?buf 1100 5 s = Some ((3, h'), s\<lparr>om := (om s)\<lparr>env := wd x'\<rparr>\<rparr>)"
    using s x' rec p by (simp add: qcloud_ofc_fetch_def with_http_def Let_def x_def int32_def h'_def received_def parsed_state_def)
  obtain b where b: "report_begin offline_hal t = Some b" "offline b" by (rule offline_begin [OF off(1)]) (rule that)
  have tb: "same_download t b" by (rule report_begin_busy [OF _ b(1)]) (simp add: busy_def off state_code_def)
  define c where "c = b\<lparr>size_last_fetched := 3, size_fetched := size_fetched b + 3\<rparr>"
  have c: "offline c" "size_fetched c = 3" "size_file c = 3" "ota_state c = IOT_OTAS_FETCHING" "ota_md5 c = Some ctx"
    using b(2) tb off by (simp_all add: c_def offline_def same_download_def)
  have c_file: "size_file b = 3" using tb off by (simp add: same_download_def)
  obtain d where d: "report_percent offline_hal 100 c = Some d" by (rule offline_full [OF c(1)]) (rule that)
  have cd: "same_download c d" by (rule report_percent_busy [OF _ d]) (simp add: busy_def c state_code_def)
  define buf' where "buf' = response_buf (hdata x')"
  have buf': "take 4 buf' = [7, 8, 9, 0]" "3 < length buf'" using rec by (simp_all add: received_def p buf'_def)
  have "take 3 (take 4 buf') = [7, 8, 9]" unfolding buf'(1) by simp
  then have t3: "take 3 buf' = [7, 8, 9]" by simp
  obtain ctx' where u: "utils_md5_update ctx [7, 8, 9] = Some ctx'"
    using md5.update_holds [OF s(12), of "[7, 8, 9]"] by (auto simp: utils_md5_update_def)
  have "IOT_OTA_FetchYield offline_hal (pipe_web 1024) ?buf 1100 5 s = Some ((3, buf'), d\<lparr>ota_state := IOT_OTAS_FETCHED, ota_md5 := Some ctx'\<rparr>)"
    using s(1,8) fetch b(1) c d cd t3 buf'(2) u
    by (simp add: IOT_OTA_FetchYield_def c_file flip: t_def c_def) (simp add: same_download_def c rd_bytes_def IOT_OTA_UpdateClientMd5_def h'_def buf'_def Let_def)
  then show thesis using that t3 by simp
qed

lemma hb2hex_not_0: "utils_hb2hex x \<noteq> 0"
proof -
  have all: "list_all (\<lambda>n. utils_hb2hex (of_nat n) \<noteq> 0) [0..<16]" by code_simp
  have "x AND 15 = take_bit 4 x" by (simp add: take_bit_eq_mask mask_eq_exp_minus_1)
  then have eq: "x AND 15 = of_nat (unat x mod 16)" by (simp add: take_bit_eq_mod word_arith_nat_mod)
  have "utils_hb2hex (of_nat (unat x mod 16)) \<noteq> 0" using all by (simp only: list_all_iff) auto
  then have "utils_hb2hex (x AND 15) \<noteq> 0" unfolding eq .
  then show ?thesis by (simp add: utils_hb2hex_def and.assoc)
qed

theorem ota_check_covers_download_witness:
  "\<exists>s1 s2 s3. IOT_OTA_StartDownload offline_hal (pipe_web 1024) 0 3 (announced example_response (hex_string (md5_digest [7, 8, 9]) @ [0])) = Some (0, s1) \<and>
     downloads offline_hal (pipe_web 1024) s1 [7, 8, 9] s2 \<and> size_fetched s2 = 3 \<and>
     IOT_OTA_Ioctl offline_hal IOT_OTAG_CHECK_FIRMWARE True 4 s2 = Some ((0, Out_u32 1), s3)"
proof -
  let ?md = "hex_string (md5_digest [7, 8, 9]) @ [0]"
  let ?s0 = "announced example_response ?md"
  have st: "ota_state ?s0 = IOT_OTAS_FETCHING" "md5sum ?s0 = ?md" "size_file ?s0 = 3" by (simp_all add: announced_def)
  obtain s1 h where s1: "IOT_OTA_StartDownload offline_hal (pipe_web 1024) 0 3 ?s0 = Some (0, s1)"
    "ch_fetch s1 = Some h" "\<not> is_more (of_data h)" "net_handle (of_http h)" "response_content_len (of_data h) = 0" "retrieve_len (of_data h) = 0"
    "env (om s1) = (0, example_response)" "is_connected (cl (om s1)) = 0"
    by (rule example_start) (rule that)
  note k = start_download_hashed [OF s1(1) st(1)]
  then obtain ctx where ctx: "ota_md5 s1 = Some ctx" "md5.holds ctx []" "size_fetched s1 = 0" by (auto simp: hashed_def)
  obtain s2 buf' where y: "IOT_OTA_FetchYield offline_hal (pipe_web 1024) (replicate 1100 0) 1100 5 s1 = Some ((3, buf'), s2)"
      "take 3 buf' = [7, 8, 9]" "ota_state s2 = IOT_OTAS_FETCHED"
    by (rule example_fetch [OF s1(2-8) k(2) ctx(3) _ ctx(1,2)]) (use k(3) st(3) that in simp_all)
  have d: "downloads offline_hal (pipe_web 1024) s1 [7, 8, 9] s2"
    using downloads.fetched [OF downloads.start y(1)] y(2) by simp
  have "str_at ?md 0 = Some (hex_string (md5_digest [7, 8, 9]))"
    by (rule str_at_0) (auto simp: hex_string_def hb2hex_not_0)
  then show ?thesis using ota_check_covers_download [OF st(1) s1(1) d y(3)] s1(1) d st(2) by auto
qed

theorem ota_fetch_next_witness:
  "\<exists>ret h' s'. qcloud_ofc_fetch (pipe_web 2)
       \<lparr>of_url = None, of_http = hc (pipe_http True 5 []), of_data = hdata (pipe_http True 5 [])\<rparr> (replicate 10 0) 10 5
       (announced [1, 2, 3, 4, 5] []) = Some ((ret, h'), s') \<and> (0 \<le> ret \<longrightarrow> ret = 5 \<and> take 5 (response_buf (of_data h')) = [1, 2, 3, 4, 5])"
proof -
  let ?h = "\<lparr>of_url = None, of_http = hc (pipe_http True 5 []), of_data = hdata (pipe_http True 5 [])\<rparr>"
  have o: "outstanding 5 ?h" by (simp add: outstanding_def)
  have e: "snd (env (om (announced [1, 2, 3, 4, 5] []))) = [1, 2, 3, 4, 5]" by (simp add: announced_def zero_ota_def)
  show ?thesis
    using ota_fetch_next [OF pipe_web_stream pipe_web_steady o, where buf_len = 10 and buf = "replicate 10 0" and t = 5 and s = "announced [1, 2, 3, 4, 5] []"] e by fastforce
qed


end
