(* ===== verification/Spec2Isabelle.thy ===== *)
theory Spec2Isabelle
  imports Utils_Ringbuff Utils_List Coap_Exchange Shadow_Session Ota_Session
begin

text \<open>
  Verification of the Tencent Cloud IoT device SDK for embedded C (\<^verbatim>\<open>sdk_src/\<close>).

  \<^bold>\<open>The program.\<close> The SDK connects a device to the cloud with one of two protocols. The MQTT client
  keeps a TCP connection open: an application publishes, subscribes and unsubscribes; a yield loop, run by the
  application or by a thread of the client, reads packets, hands messages to the handlers of the matching subscriptions,
  removes acknowledged or expired requests from two lists, sends pings and reconnects. The CoAP client sends requests
  in datagrams: it retransmits a request until it is acknowledged or its attempts are used up, and matches
  responses with requests by message id or token. Both stand on a timer, a network structure, a doubly linked list,
  hashes and base64 (for the password of CONNECT); the services (shadow, OTA, gateway and others) stand on the two
  clients.

  \<^bold>\<open>How C is modelled.\<close> Machine integers are words of their width where they can wrap around. A buffer
  is a list of bytes of the size of the C object and a pointer into it an offset. The outer option of a result is
  \<^const>\<open>None\<close> for behaviour C leaves undefined (an access outside an object, a null pointer followed)
  and for a loop that never ends; an error code is a value (\<open>Inl\<close> or a negative number). A theorem that concludes
  \<^const>\<open>Some\<close> is therefore a theorem of memory safety and termination. Most loops are structural recursions
  or have a termination proof. Those that can run forever are partial functions, where not to return is \<^const>\<open>None\<close>:
  \<open>list_find_loop\<close>, \<open>send_loop\<close>, \<open>discard_loop\<close>, \<open>wait_loop\<close>, \<open>yield_loop\<close>, \<open>auth_wait\<close>, \<open>ack_wait\<close>, \<open>sync_wait\<close>, and in the
  HTTP client \<open>get_info_loop\<close>, \<open>retrieve_plain\<close>, \<open>chunk_header\<close>, \<open>retrieve_body\<close> and \<open>retrieve_loop\<close>. The
  theorems say where they return: sending of packets of at most half the write buffer, discarding, the lookup in a list and the
  transfer of a response with a length do; for
  \<open>auth_wait\<close> and \<open>ack_wait\<close> there are states in which they do not. The number of times the yield thread finds its flag set is an argument; nothing else has fuel.

  The platform is a parameter: the record \<open>'w hal\<close> of \<open>Mqtt_Net\<close> has the clock, the network stack, the heap and the
  random numbers as functions on an arbitrary world. What a theorem needs of it is a named hypothesis. Some state what the
  platform interface and its implementations under \<^verbatim>\<open>platform\<close> promise: \<open>net_read_ok\<close> (a read gives at most the bytes asked for, and
  all of them if it succeeds), \<open>bounded_reads\<close> (the first half of this, for datagrams), \<open>net_sends\<close> (a write on a stream takes some first
  bytes of its data, at least one if it succeeds, but not always all: \<^verbatim>\<open>HAL_TCP_Write\<close> reports success after a partial write),
  \<open>net_write_full\<close> (a datagram is sent whole or not at all). \<open>net_sends\<close> names the bytes the connection has taken so far, \<open>logs_writes\<close>
  the datagrams handed to the network; with them a theorem can say what has been sent. The others choose circumstances:
  \<open>clock_steady\<close> (the clock does not run backwards), \<open>net_works\<close> (every write is taken whole while the clock stands still), \<open>grants\<close> (the
  heap grants requests), \<open>silent\<close> (nothing arrives). The TCP connection of the HTTP client is the record \<open>'w web\<close> of \<open>Http_Client\<close>, with \<open>web_stream\<close> (what
  is read is the next part of what the server sends) and \<open>web_steady\<close> (a read that brings nothing and no error has waited for its
  time); \<open>head_ok\<close> describes the head of a response. Each is met by a concrete platform in the witness of the theorem that has it. The
  text of floating point numbers is a parameter, too. Callbacks of the application are recorded in the order of the calls;
  a callback that calls the client again is not modelled. Locks are left out: a call that holds one is one step.

  The build is that of \<^verbatim>\<open>CMakeLists.txt\<close> as shipped: key authentication, no TLS, threads, no log upload. CoAP is off
  there; it is modelled in its build without DTLS.

  \<^bold>\<open>Prelude.\<close> \<open>Iot_Prelude\<close>: word types, return codes (\<^verbatim>\<open>qcloud_iot_export_error.h\<close>), reading and writing
  of buffers and the algebra of writes through an advancing pointer, elimination rules for successful computations,
  and the locale \<open>component\<close>: states a component may start in, its steps, and an invariant both keep.

  \<^bold>\<open>Utilities.\<close>
  \<^item> \<open>Utils_List\<close> (\<^verbatim>\<open>utils_list.c\<close>): push, pop, find, remove, destroy and iterators on a heap of nodes. Every
    operation refines the one on plain lists; the locale \<open>node_list\<close> is what the clients use of it. The clients'
    theories have their lists as plain lists on the strength of it.
  \<^item> \<open>Utils_Ringbuff\<close> (\<^verbatim>\<open>utils_ringbuff.c\<close>): the ring buffer refines a bounded queue (locale \<open>byte_fifo\<close>).
  \<^item> \<open>Utils_Base64\<close> (\<^verbatim>\<open>utils_base64.c\<close>): the encoder agrees with a reference encoding, the decoder inverts it.
  \<^item> \<open>Utils_Hash\<close> (\<^verbatim>\<open>utils_sha1.c\<close>, \<^verbatim>\<open>utils_md5.c\<close>, \<^verbatim>\<open>utils_hmac.c\<close>): streaming does not depend on how the
    message is cut (locale \<open>md_engine\<close>), the unrolled block function of SHA-1 is the one of the standard, HMAC is the
    one of RFC 2104.
  \<^item> \<open>Utils_Json\<close> (\<^verbatim>\<open>json_parser.c\<close>, \<^verbatim>\<open>LITE_json_value_of\<close> of \<^verbatim>\<open>json_token.c\<close>): strings are lists up to their NUL and
    pointers are suffixes. A lookup by a path finds what the path leads to in every JSON text of a grammar without escapes,
    and it ends on every string, but for the two flaws shown beside it.
  \<^item> \<open>Utils_Format\<close> (conversions of \<^verbatim>\<open>json_token.c\<close>, \<^verbatim>\<open>HAL_Snprintf\<close>): decimal text and \<^verbatim>\<open>sscanf\<close> of integers, the
    bounded write of a finished text.

  \<^bold>\<open>MQTT\<close> (\<^verbatim>\<open>sdk_src/protocol/mqtt\<close>).
  \<^item> \<open>Mqtt_Codec\<close>: all packets. Round trips (locale \<open>wire_codec\<close> for the fields), safety of the deserializers on
    arbitrary bytes, the exact bytes of CONNECT, the exact bounds of the lengths.
  \<^item> \<open>Mqtt_Topic\<close>: the pointer walk of \<^verbatim>\<open>_is_topic_matched\<close> accepts every match of the standard, and nothing else
    when the filter has no \<open>#\<close>, and \<open>+\<close> at most as its last level.
  \<^item> \<open>Mqtt_Net\<close>: client structure, timers, \<^verbatim>\<open>send_mqtt_packet\<close>, \<^verbatim>\<open>_read_mqtt_packet\<close>; the latter
    stays inside its buffer whatever arrives. What sending puts on the wire over a connection that takes writes in parts:
    the packet, and up to as many stray bytes behind it, because the loop asks for the whole length again (\<open>transmitted\<close>).
  \<^item> \<open>Mqtt_Handlers\<close>: \<^verbatim>\<open>_deliver_message\<close> to \<^verbatim>\<open>wait_for_read\<close>; routing of messages, registration by SUBACK,
    QoS 1 messages delivered once and acknowledged on the wire. The locale \<open>client_bound\<close> has the well-formedness of the client structure over a
    bound on the reconnection interval.
  \<^item> \<open>Mqtt_Requests\<close>: publish, subscribe, unsubscribe; a QoS 1 publication is put on the wire and tracked until it is acknowledged.
  \<^item> \<open>Mqtt_Session\<close>: connect, reconnect, keep alive, expiry and yield; the back-off doubles from 1000 to 1990 ms up to
    60 s, i.e. five failed attempts at most.
  \<^item> \<open>Mqtt_Client\<close>: construction, destruction, the thread; the invariant of a constructed client under every sequence of
    calls (interpretation of \<open>component\<close>).

  \<^bold>\<open>CoAP\<close> (\<^verbatim>\<open>sdk_src/protocol/coap\<close>).
  \<^item> \<open>Coap_Codec\<close>: messages, options, serializer, deserializer; round trip, safety on arbitrary bytes, order of the
    options, and the two places where long options fail.
  \<^item> \<open>Coap_Client\<close>: the wait list, sending, receiving, authentication, the interface functions, the invariant and its
    preservation; the datagrams that fill the buffer and overrun the parser.
  \<^item> \<open>Coap_Exchange\<close>: retransmission with the datagrams it sends, replies, the client as a state machine (interpretation of \<open>component\<close>), and the
    construction that never ends when the authentication request cannot be sent.

  \<^bold>\<open>Device shadow\<close> (\<^verbatim>\<open>sdk_src/services/shadow\<close>).
  \<^item> \<open>Shadow_Json\<close> (\<^verbatim>\<open>shadow_client_json.c\<close>, the \<^verbatim>\<open>IOT_Shadow_JSON_*\<close> functions of \<^verbatim>\<open>shadow_client.c\<close>): building a document in
    a buffer of the application, with sizes that wrap; the exact document, the way back from it, and the overrun of the
    overwriting report.
  \<^item> \<open>Shadow_Client\<close> (\<^verbatim>\<open>shadow_client_manager.c\<close>, \<^verbatim>\<open>shadow_client_common.c\<close>, the rest of \<^verbatim>\<open>shadow_client.c\<close>): the shadow on
    top of the MQTT client. The handlers that the client calls back touch only the shadow and the heap; they run after the
    call, in the order of its events. The locale \<open>shadow_predicate\<close> has what the handlers keep; it is interpreted for the
    well-formedness of the structure, for the types of the properties and for a synchronous call that is never answered.
  \<^item> \<open>Shadow_Session\<close>: requests are sent, tracked, answered and expire exactly; the invariant under every sequence of calls
    (interpretation of \<open>component\<close>); the lost reply that keeps a synchronous call waiting forever.

  \<^bold>\<open>HTTP and firmware update\<close> (\<^verbatim>\<open>sdk_src/protocol/http\<close>, \<^verbatim>\<open>sdk_src/services/ota\<close>).
  \<^item> \<open>Http_Client\<close> (\<^verbatim>\<open>utils_httpc.c\<close>): building and sending a request, the head of a response, its content with a length, in chunks or
    up to the end of the connection, received piece by piece into a buffer of the caller.
  \<^item> \<open>Http_Transfer\<close>: which part of the stream is in the buffer after a call, for any way the network cuts the stream, and that
    the calls return.
  \<^item> \<open>Http_Request\<close>: the exact text of a request, the parts of a URL and the host that overruns its array, the base64 encoder
    against the reference of \<open>Utils_Base64\<close>; a server as a byte sequence, for the witnesses.
  \<^item> \<open>Ota_Client\<close> (\<^verbatim>\<open>ota_lib.c\<close>, \<^verbatim>\<open>ota_mqtt.c\<close>, \<^verbatim>\<open>ota_fetch.c\<close>, \<^verbatim>\<open>ota_client.c\<close>): announcements and reports on top of the MQTT
    client, the download on top of the HTTP client, the running MD5 of \<open>Utils_Hash\<close>.
  \<^item> \<open>Ota_Session\<close>: messages that arrive do not disturb a download; the check of the firmware covers every byte handed out, and these are
    the bytes of the stream; the invariant of the interface (interpretation of \<open>component\<close>).

  \<^bold>\<open>Not modelled.\<close> The network interface, sockets and platform layers (system calls; parameters of the model),
  mbed TLS and the WebSocket library (vendored), the AT client (drivers of modems), logging and AES (auxiliary), certificates
  (build option), the gateway and the smaller services (clients of publish and subscribe whose messages are built and
  looked up like those of the shadow and of the update).
\<close>

end
